(* ===== verification/CG_Prelude.thy ===== *)
theory CG_Prelude
  imports Main "HOL-Library.Finite_Map" "HOL-Library.List_Lexorder" "HOL-Library.Char_ord"
    "HOL-Library.Sublist"
begin

text \<open>
  Shared vocabulary of the development: results with an error value (Rust's \<open>Result\<close>), the
  JSON values of \<open>serde_json\<close>, identifiers, ordered sets turned into vectors, first-match update
  of a vector, and two interfaces used by more than one component: a left fold of fallible
  steps (the morphism log and the allocator journal are both folded this way) and a chain of
  entries linked by the hash of the predecessor.
\<close>

section \<open>Identifiers, JSON values, metadata\<close>

text \<open>
  \<open>higher_graphen_core::Id\<close> is used by the sources as a string with equality and the order of
  its text. \<open>BTreeMap\<close> is a finite map; \<open>serde_json::Map\<close> is one keyed by strings. Numbers are
  the integers the modelled code reads with \<open>as_u64\<close>.
\<close>

type_synonym id = string

datatype json =
    JNull
  | JBool bool
  | JNumber int
  | JString string
  | JArray "json list"
  | JObject "(string, json) fmap"

type_synonym metadata = "(string, json) fmap"

text \<open>\<open>Value::as_str\<close>, \<open>as_array\<close>, \<open>as_object\<close>, \<open>as_u64\<close>.\<close>

fun as_str :: "json \<Rightarrow> string option" where
  "as_str (JString s) = Some s"
| "as_str _ = None"

fun as_array :: "json \<Rightarrow> json list option" where
  "as_array (JArray xs) = Some xs"
| "as_array _ = None"

fun as_object :: "json \<Rightarrow> (string, json) fmap option" where
  "as_object (JObject m) = Some m"
| "as_object _ = None"

fun as_u64 :: "json \<Rightarrow> nat option" where
  "as_u64 (JNumber n) = (if 0 \<le> n \<and> n < 2 ^ 64 then Some (nat n) else None)"
| "as_u64 _ = None"

definition get_str :: "metadata \<Rightarrow> string \<Rightarrow> string option" where
  "get_str m k = Option.bind (fmlookup m k) as_str"

text \<open>\<open>str::trim().is_empty()\<close>: every character is white space (the ASCII white-space bytes).\<close>

definition is_white :: "char \<Rightarrow> bool" where
  "is_white c \<longleftrightarrow> (let n = of_char c :: nat in n = 32 \<or> (9 \<le> n \<and> n \<le> 13))"

definition blank :: "string \<Rightarrow> bool" where
  "blank s \<longleftrightarrow> list_all is_white s"

text \<open>\<open>str::trim\<close>.\<close>

definition trim :: "string \<Rightarrow> string" where
  "trim s = rev (dropWhile is_white (rev (dropWhile is_white s)))"

lemma blank_trim [simp]: "blank (trim s) \<longleftrightarrow> blank s"
proof -
  have "list_all is_white (dropWhile is_white xs) \<longleftrightarrow> list_all is_white xs" for xs
    by (induction xs) auto
  then show ?thesis by (simp add: trim_def blank_def)
qed

section \<open>Results\<close>

type_synonym ('e, 'a) result = "'e + 'a"

abbreviation Ok :: "'a \<Rightarrow> ('e, 'a) result" where "Ok \<equiv> Inr"
abbreviation Err :: "'e \<Rightarrow> ('e, 'a) result" where "Err \<equiv> Inl"

text \<open>The question mark operator, a guard, \<open>map_err\<close> and a \<open>for\<close> loop that returns early.\<close>

definition rbind :: "('e, 'a) result \<Rightarrow> ('a \<Rightarrow> ('e, 'b) result) \<Rightarrow> ('e, 'b) result" where
  "rbind r f = (case r of Inl e \<Rightarrow> Inl e | Inr a \<Rightarrow> f a)"

definition ensure :: "bool \<Rightarrow> 'e \<Rightarrow> ('e, unit) result" where
  "ensure b e = (if b then Inr () else Inl e)"

definition map_err :: "('e \<Rightarrow> 'f) \<Rightarrow> ('e, 'a) result \<Rightarrow> ('f, 'a) result" where
  "map_err f r = (case r of Inl e \<Rightarrow> Inl (f e) | Inr a \<Rightarrow> Inr a)"

definition is_ok :: "('e, 'a) result \<Rightarrow> bool" where
  "is_ok r \<longleftrightarrow> (case r of Inl _ \<Rightarrow> False | Inr _ \<Rightarrow> True)"

fun ok_or :: "'a option \<Rightarrow> 'e \<Rightarrow> ('e, 'a) result" where
  "ok_or None e = Inl e"
| "ok_or (Some a) e = Inr a"

fun fold_res :: "('s \<Rightarrow> 'x \<Rightarrow> ('e, 's) result) \<Rightarrow> 's \<Rightarrow> 'x list \<Rightarrow> ('e, 's) result" where
  "fold_res f s [] = Inr s"
| "fold_res f s (x # xs) = rbind (f s x) (\<lambda>s'. fold_res f s' xs)"

definition each_res :: "('x \<Rightarrow> ('e, unit) result) \<Rightarrow> 'x list \<Rightarrow> ('e, unit) result" where
  "each_res f xs = fold_res (\<lambda>_ x. f x) () xs"

named_theorems result_simps \<open>inversion of the result combinators\<close>

lemma rbind_Inr [simp]: "rbind (Inr a) f = f a"
  by (simp add: rbind_def)

lemma rbind_Inl [simp]: "rbind (Inl e) f = Inl e"
  by (simp add: rbind_def)

lemma rbind_eq_Inr [result_simps]: "rbind r f = Inr b \<longleftrightarrow> (\<exists>a. r = Inr a \<and> f a = Inr b)"
  by (cases r) simp_all

lemma rbindE:
  assumes "rbind r f = Inr b"
  obtains a where "r = Inr a" "f a = Inr b"
  using assms by (cases r) auto

lemma ensure_eq_Inr [simp]: "ensure b e = Inr u \<longleftrightarrow> b"
  by (simp add: ensure_def)

lemma ensure_eq_Inl [simp]: "ensure b e = Inl e' \<longleftrightarrow> \<not> b \<and> e' = e"
  by (auto simp: ensure_def)

lemma ensure_True [simp]: "ensure True e = Inr ()"
  by (simp add: ensure_def)

lemma ensure_False [simp]: "ensure False e = Inl e"
  by (simp add: ensure_def)

lemma map_err_eq_Inr [simp]: "map_err f r = Inr a \<longleftrightarrow> r = Inr a"
  by (cases r) (simp_all add: map_err_def)

lemma map_err_Inl [simp]: "map_err f (Inl e) = Inl (f e)"
  by (simp add: map_err_def)

lemma is_ok_iff: "is_ok r \<longleftrightarrow> (\<exists>a. r = Inr a)"
  by (cases r) (simp_all add: is_ok_def)

lemma is_ok_simps [simp]: "is_ok (Inr a)" "\<not> is_ok (Inl e)"
  by (simp_all add: is_ok_def)

lemma ok_or_eq_Inr [simp]: "ok_or x e = Inr a \<longleftrightarrow> x = Some a"
  by (cases x) simp_all

lemma not_ok_ex: "\<not> is_ok r \<longleftrightarrow> (\<exists>e. r = Inl e)"
  by (cases r) simp_all

section \<open>Folding fallible steps\<close>

lemma fold_res_append:
  "fold_res f s (xs @ ys) = rbind (fold_res f s xs) (\<lambda>s'. fold_res f s' ys)"
proof (induction xs arbitrary: s)
  case Nil
  then show ?case by simp
next
  case (Cons x xs)
  then show ?case by (cases "f s x") simp_all
qed

lemma each_res_Nil [simp]: "each_res f [] = Inr ()"
  by (simp add: each_res_def)

lemma each_res_Cons [simp]: "each_res f (x # xs) = rbind (f x) (\<lambda>_. each_res f xs)"
  by (simp add: each_res_def)

lemma each_res_eq_Inr: "each_res f xs = Inr u \<longleftrightarrow> (\<forall>x \<in> set xs. f x = Inr ())"
  by (induction xs) (auto simp: result_simps)

text \<open>
  A log is folded entry by entry. The client needs only the step and an invariant the step
  keeps: resuming from a state reached by a prefix gives the state of the whole log (a snapshot
  or a checkpoint is a cache of a prefix), and every state on the way satisfies the invariant.
\<close>

locale log_fold =
  fixes step :: "'s \<Rightarrow> 'x \<Rightarrow> ('e, 's) result"
    and inv :: "'s \<Rightarrow> bool"
  assumes step_inv: "inv s \<Longrightarrow> step s x = Inr s' \<Longrightarrow> inv s'"
begin

lemma fold_inv: "inv s \<Longrightarrow> fold_res step s xs = Inr s' \<Longrightarrow> inv s'"
proof (induction xs arbitrary: s)
  case Nil
  then show ?case by simp
next
  case (Cons x xs)
  then obtain t where "step s x = Inr t" "fold_res step t xs = Inr s'"
    by (auto simp: result_simps)
  with Cons show ?case by (blast intro: step_inv)
qed

lemma resume: "fold_res step s xs = Inr t \<Longrightarrow> fold_res step s (xs @ ys) = fold_res step t ys"
  by (simp add: fold_res_append)

lemma prefix_ok: "fold_res step s (xs @ ys) = Inr t \<Longrightarrow> \<exists>u. fold_res step s xs = Inr u"
  by (auto simp: fold_res_append result_simps)

end

section \<open>Chains linked by hashes\<close>

text \<open>
  Each entry records the hash of its predecessor, the first entry records none. If the hash is
  collision free on entries, the hash of the last entry determines the whole log.
\<close>

locale hash_chain =
  fixes hash :: "'x \<Rightarrow> string"
    and prev :: "'x \<Rightarrow> string option"
    and linked :: "'x list \<Rightarrow> bool"
  assumes linked_snoc: "linked (xs @ [x]) \<Longrightarrow>
      (xs = [] \<or> linked xs) \<and> prev x = (if xs = [] then None else Some (hash (last xs)))"
begin

lemma tail_determines_log:
  assumes "inj_on hash (set xs \<union> set ys)"
    and "linked xs" "linked ys" "xs \<noteq> []" "ys \<noteq> []" "hash (last xs) = hash (last ys)"
  shows "xs = ys"
  using assms
proof (induction xs arbitrary: ys rule: rev_induct)
  case Nil
  then show ?case by simp
next
  case (snoc x xs)
  from \<open>ys \<noteq> []\<close> obtain ys' y where ys: "ys = ys' @ [y]"
    by (cases ys rule: rev_cases) auto
  from snoc.prems(1) have inj: "inj_on hash (set xs \<union> set ys')"
    by (rule inj_on_subset) (auto simp: ys)
  from snoc.prems(6) ys have same: "hash x = hash y" by simp
  have xy: "x = y" by (rule inj_onD [OF snoc.prems(1) same]) (simp_all add: ys)
  from snoc.prems(2) have px: "xs = [] \<or> linked xs"
      "prev x = (if xs = [] then None else Some (hash (last xs)))"
    using linked_snoc by blast+
  from snoc.prems(3) ys have py: "ys' = [] \<or> linked ys'"
      "prev y = (if ys' = [] then None else Some (hash (last ys')))"
    using linked_snoc by blast+
  show ?case
  proof (cases "xs = []")
    case True
    with px(2) py(2) xy have "ys' = []" by (auto split: if_splits)
    with True xy ys show ?thesis by simp
  next
    case False
    with px(2) py(2) xy have "ys' \<noteq> []" "hash (last xs) = hash (last ys')"
      by (auto split: if_splits)
    with False px(1) py(1) snoc.IH inj have "xs = ys'" by blast
    with xy ys show ?thesis by simp
  qed
qed

end

section \<open>Vectors\<close>

text \<open>\<open>BTreeSet\<close> collected into a vector: sorted, without duplicates.\<close>

definition dedupe_ids :: "'a::linorder list \<Rightarrow> 'a list" where
  "dedupe_ids xs = sort (remdups xs)"

lemma set_dedupe_ids [simp]: "set (dedupe_ids xs) = set xs"
  by (simp add: dedupe_ids_def)

lemma distinct_dedupe_ids [simp]: "distinct (dedupe_ids xs)"
  by (simp add: dedupe_ids_def)

lemma sorted_dedupe_ids [simp]: "sorted (dedupe_ids xs)"
  by (simp add: dedupe_ids_def)

lemma dedupe_ids_Nil_iff [simp]: "dedupe_ids xs = [] \<longleftrightarrow> xs = []"
  by (metis set_dedupe_ids set_empty)

text \<open>\<open>iter_mut().find(..)\<close> followed by an assignment: the first match is replaced.\<close>

fun replace_first :: "('a \<Rightarrow> bool) \<Rightarrow> ('a \<Rightarrow> 'a) \<Rightarrow> 'a list \<Rightarrow> 'a list" where
  "replace_first P f [] = []"
| "replace_first P f (x # xs) = (if P x then f x # xs else x # replace_first P f xs)"

text \<open>\<open>position\<close> followed by \<open>remove\<close>: the first match is removed.\<close>

fun remove_first :: "('a \<Rightarrow> bool) \<Rightarrow> 'a list \<Rightarrow> 'a list" where
  "remove_first P [] = []"
| "remove_first P (x # xs) = (if P x then xs else x # remove_first P xs)"

text \<open>\<open>Vec::remove\<close> at a position.\<close>

definition remove_at :: "nat \<Rightarrow> 'a list \<Rightarrow> 'a list" where
  "remove_at i xs = take i xs @ drop (Suc i) xs"

text \<open>Indexing that panics out of range.\<close>

definition nth_opt :: "'a list \<Rightarrow> nat \<Rightarrow> 'a option" where
  "nth_opt xs i = (if i < length xs then Some (xs ! i) else None)"

lemma find_key_distinct:
  assumes "distinct (map k xs)" "x \<in> set xs"
  shows "find (\<lambda>y. k y = k x) xs = Some x"
  using assms by (induction xs) (auto simp: rev_image_eqI)

lemma find_key_None: "find (\<lambda>y. k y = i) xs = None \<longleftrightarrow> i \<notin> k ` set xs"
  by (auto simp: find_None_iff)

lemma find_key_SomeD: "find (\<lambda>y. k y = i) xs = Some x \<Longrightarrow> x \<in> set xs \<and> k x = i"
  by (auto simp: find_Some_iff)

lemma replace_first_key:
  assumes "distinct (map k xs)"
  shows "replace_first (\<lambda>y. k y = i) f xs = map (\<lambda>y. if k y = i then f y else y) xs"
  using assms
proof (induction xs)
  case Nil
  then show ?case by simp
next
  case (Cons x xs)
  then have "k x = i \<Longrightarrow> map (\<lambda>y. if k y = i then f y else y) xs = xs"
    by (auto simp: image_iff intro!: map_idI)
  with Cons show ?case by simp
qed

lemma remove_first_key:
  assumes "distinct (map k xs)"
  shows "remove_first (\<lambda>y. k y = i) xs = filter (\<lambda>y. k y \<noteq> i) xs"
  using assms
proof (induction xs)
  case Nil
  then show ?case by simp
next
  case (Cons x xs)
  then have "k x = i \<Longrightarrow> filter (\<lambda>y. k y \<noteq> i) xs = xs"
    by (auto simp: image_iff intro!: filter_True)
  with Cons show ?case by simp
qed

section \<open>Ordered maps\<close>

text \<open>
  \<open>BTreeMap\<close>: \<open>entry(k).or_insert(v)\<close>, \<open>entry(k).or_default().push(v)\<close>, and the values in the
  order of the keys.
\<close>

definition or_insert :: "'k \<Rightarrow> 'v \<Rightarrow> ('k, 'v) fmap \<Rightarrow> ('k, 'v) fmap" where
  "or_insert k v m = (if fmlookup m k = None then fmupd k v m else m)"

definition get_or_nil :: "('k, 'v list) fmap \<Rightarrow> 'k \<Rightarrow> 'v list" where
  "get_or_nil m k = (case fmlookup m k of Some vs \<Rightarrow> vs | None \<Rightarrow> [])"

definition entry_push :: "'k \<Rightarrow> 'v \<Rightarrow> ('k, 'v list) fmap \<Rightarrow> ('k, 'v list) fmap" where
  "entry_push k v m = fmupd k (get_or_nil m k @ [v]) m"

definition btree_values :: "('k::linorder, 'v) fmap \<Rightarrow> 'v list" where
  "btree_values m = map snd (sorted_list_of_fmap m)"

definition btree_keys :: "('k::linorder, 'v) fmap \<Rightarrow> 'k list" where
  "btree_keys m = map fst (sorted_list_of_fmap m)"

lemma set_btree_values: "v \<in> set (btree_values m) \<longleftrightarrow> (\<exists>k. fmlookup m k = Some v)"
  by (force simp: btree_values_def sorted_list_of_fmap_def fmlookup_dom_iff)

lemma set_btree_keys: "k \<in> set (btree_keys m) \<longleftrightarrow> fmlookup m k \<noteq> None"
  by (force simp: btree_keys_def sorted_list_of_fmap_def fmlookup_dom_iff)

lemma lookup_or_insert:
  "fmlookup (or_insert k v m) j = (if j = k \<and> fmlookup m k = None then Some v else fmlookup m j)"
  by (auto simp: or_insert_def)

lemma get_or_nil_push [simp]:
  "get_or_nil (entry_push k v m) j = (if j = k then get_or_nil m k @ [v] else get_or_nil m j)"
  by (auto simp: get_or_nil_def entry_push_def)

lemma get_or_nil_empty [simp]: "get_or_nil fmempty k = []"
  by (simp add: get_or_nil_def)

lemma lookup_push_None: "fmlookup (entry_push k v m) j = None \<longleftrightarrow> j \<noteq> k \<and> fmlookup m j = None"
  by (auto simp: entry_push_def)

text \<open>A loop that pushes under computed keys groups the pushed items by key, in their order.\<close>

lemma get_or_nil_fold_push:
  "get_or_nil (fold (\<lambda>x. entry_push (key x) (val x)) xs m) j =
     get_or_nil m j @ map val (filter (\<lambda>x. key x = j) xs)"
  by (induction xs arbitrary: m) auto

lemma lookup_fold_push_None:
  "fmlookup (fold (\<lambda>x. entry_push (key x) (val x)) xs m) j = None \<longleftrightarrow>
     fmlookup m j = None \<and> j \<notin> key ` set xs"
  by (induction xs arbitrary: m) (auto simp: lookup_push_None)

text \<open>Collecting key-value pairs keeps the last value of a key.\<close>

definition collect_map :: "('k \<times> 'v) list \<Rightarrow> ('k, 'v) fmap" where
  "collect_map kvs = fold (\<lambda>(k, v). fmupd k v) kvs fmempty"

lemma collect_map_aux:
  "fmlookup (fold (\<lambda>(k, v). fmupd k v) kvs m) j =
     (case map_of (rev kvs) j of Some v \<Rightarrow> Some v | None \<Rightarrow> fmlookup m j)"
  by (induction kvs arbitrary: m) (auto simp: map_add_Some_iff split: option.splits)

lemma lookup_collect_map: "fmlookup (collect_map kvs) j = map_of (rev kvs) j"
  by (simp add: collect_map_def collect_map_aux split: option.splits)

lemma lookup_collect_distinct:
  "distinct (map fst kvs) \<Longrightarrow> fmlookup (collect_map kvs) j = map_of kvs j"
  by (simp add: lookup_collect_map) (metis distinct_rev map_of_inject_set rev_map set_rev)

text \<open>A loop that at most stores its element leaves nothing in the map but elements and what was there.\<close>

lemma lookup_fold_mem:
  assumes "\<And>x m. f x m = m \<or> (\<exists>k. f x m = fmupd k x m)" "fmlookup (fold f xs m) i = Some v"
  shows "v \<in> set xs \<or> fmlookup m i = Some v"
  using assms(2)
proof (induction xs arbitrary: m)
  case (Cons x xs)
  then have "v \<in> set xs \<or> fmlookup (f x m) i = Some v" by simp
  moreover have "fmlookup (f x m) i = Some v \<Longrightarrow> v = x \<or> fmlookup m i = Some v"
    using assms(1) [of x m] by (auto split: if_splits)
  ultimately show ?case by auto
qed simp

end
