(* ===== verification/Native_Model.thy ===== *)
theory Native_Model
  imports CG_Prelude
begin

text \<open>
  The data of \<open>src/native_model.rs\<close>: case spaces, cells, relations, morphisms, log entries,
  revisions, projections, review and boundary vocabularies, with the textual form of the
  extensible enums. The reducers over these data are in \<open>Native_Reducer\<close>.
\<close>

section \<open>Foreign vocabulary\<close>

text \<open>
  \<open>ReviewStatus\<close>, \<open>Severity\<close> and \<open>Provenance\<close> are types of the crate \<open>higher_graphen_core\<close>. The
  modelled code compares review statuses and severities by constructor, reads
  \<open>provenance.review_status\<close> and \<open>provenance.confidence\<close>, and compares whole provenances; the
  remaining fields are one opaque value.
\<close>

datatype review_status = RsUnreviewed | RsReviewed | RsAccepted | RsRejected

datatype severity = SevLow | SevMedium | SevHigh | SevCritical

record provenance =
  prov_review_status :: review_status
  prov_confidence :: json
  prov_rest :: json

section \<open>Extensible enums\<close>

datatype case_cell_type =
    CtCase | CtScenario | CtGoal | CtWork | CtDecision | CtEvent | CtEvidence | CtProof
  | CtReview | CtObstruction | CtCompletion | CtProjection | CtRevision | CtMorphism
  | CtExternalRef | CtCustom string

datatype case_relation_type =
    RtDependsOn | RtWaitsFor | RtRequiresEvidence | RtRequiresProof
  | RtSatisfiesEvidenceRequirement | RtVerifies | RtCovers | RtExercises | RtBlocks | RtUnblocks
  | RtContradicts | RtInvalidates | RtCompletes | RtDerivesFrom | RtRefines | RtProjectsTo
  | RtTransitionsTo | RtCorrespondsTo | RtAccepts | RtRejects | RtSupersedes | RtCustom string

datatype case_morphism_type =
    MtCreate | MtUpdate | MtRetire | MtRelate | MtUnrelate | MtReview | MtEvidenceAttach
  | MtCompletionAccept | MtCompletionReject | MtProjection | MtMigration | MtClose
  | MtCustom string

text \<open>
  The macro \<open>impl_custom_enum\<close> is generic in the table of its literals: \<open>custom_from_str\<close> is its
  \<open>FromStr\<close> for a table and the constructor of the custom variant.
\<close>

definition custom_prefix :: string where
  "custom_prefix = ''custom:''"

datatype enum_error = EmptyCustomExtension string | UnsupportedValue string

definition custom_from_str ::
    "(string \<times> 'v) list \<Rightarrow> (string \<Rightarrow> 'v) \<Rightarrow> string \<Rightarrow> (enum_error, 'v) result" where
  "custom_from_str table mk value =
     (case map_of table value of
        Some v \<Rightarrow> Ok v
      | None \<Rightarrow>
          if prefix custom_prefix value then
            (let extension = drop (length custom_prefix) value
             in if blank extension then Err (EmptyCustomExtension value) else Ok (mk extension))
          else Err (UnsupportedValue value))"

definition cell_type_table :: "(string \<times> case_cell_type) list" where
  "cell_type_table =
     [(''case'', CtCase), (''scenario'', CtScenario), (''goal'', CtGoal), (''work'', CtWork),
      (''decision'', CtDecision), (''event'', CtEvent), (''evidence'', CtEvidence),
      (''proof'', CtProof), (''review'', CtReview), (''obstruction'', CtObstruction),
      (''completion'', CtCompletion), (''projection'', CtProjection),
      (''revision'', CtRevision), (''morphism'', CtMorphism), (''external_ref'', CtExternalRef)]"

fun cell_type_value :: "case_cell_type \<Rightarrow> string" where
  "cell_type_value CtCase = ''case''"
| "cell_type_value CtScenario = ''scenario''"
| "cell_type_value CtGoal = ''goal''"
| "cell_type_value CtWork = ''work''"
| "cell_type_value CtDecision = ''decision''"
| "cell_type_value CtEvent = ''event''"
| "cell_type_value CtEvidence = ''evidence''"
| "cell_type_value CtProof = ''proof''"
| "cell_type_value CtReview = ''review''"
| "cell_type_value CtObstruction = ''obstruction''"
| "cell_type_value CtCompletion = ''completion''"
| "cell_type_value CtProjection = ''projection''"
| "cell_type_value CtRevision = ''revision''"
| "cell_type_value CtMorphism = ''morphism''"
| "cell_type_value CtExternalRef = ''external_ref''"
| "cell_type_value (CtCustom extension) = custom_prefix @ extension"

definition relation_type_table :: "(string \<times> case_relation_type) list" where
  "relation_type_table =
     [(''depends_on'', RtDependsOn), (''waits_for'', RtWaitsFor),
      (''requires_evidence'', RtRequiresEvidence), (''requires_proof'', RtRequiresProof),
      (''satisfies_evidence_requirement'', RtSatisfiesEvidenceRequirement),
      (''verifies'', RtVerifies), (''covers'', RtCovers), (''exercises'', RtExercises),
      (''blocks'', RtBlocks), (''unblocks'', RtUnblocks), (''contradicts'', RtContradicts),
      (''invalidates'', RtInvalidates), (''completes'', RtCompletes),
      (''derives_from'', RtDerivesFrom), (''refines'', RtRefines),
      (''projects_to'', RtProjectsTo), (''transitions_to'', RtTransitionsTo),
      (''corresponds_to'', RtCorrespondsTo), (''accepts'', RtAccepts), (''rejects'', RtRejects),
      (''supersedes'', RtSupersedes)]"

fun relation_type_value :: "case_relation_type \<Rightarrow> string" where
  "relation_type_value RtDependsOn = ''depends_on''"
| "relation_type_value RtWaitsFor = ''waits_for''"
| "relation_type_value RtRequiresEvidence = ''requires_evidence''"
| "relation_type_value RtRequiresProof = ''requires_proof''"
| "relation_type_value RtSatisfiesEvidenceRequirement = ''satisfies_evidence_requirement''"
| "relation_type_value RtVerifies = ''verifies''"
| "relation_type_value RtCovers = ''covers''"
| "relation_type_value RtExercises = ''exercises''"
| "relation_type_value RtBlocks = ''blocks''"
| "relation_type_value RtUnblocks = ''unblocks''"
| "relation_type_value RtContradicts = ''contradicts''"
| "relation_type_value RtInvalidates = ''invalidates''"
| "relation_type_value RtCompletes = ''completes''"
| "relation_type_value RtDerivesFrom = ''derives_from''"
| "relation_type_value RtRefines = ''refines''"
| "relation_type_value RtProjectsTo = ''projects_to''"
| "relation_type_value RtTransitionsTo = ''transitions_to''"
| "relation_type_value RtCorrespondsTo = ''corresponds_to''"
| "relation_type_value RtAccepts = ''accepts''"
| "relation_type_value RtRejects = ''rejects''"
| "relation_type_value RtSupersedes = ''supersedes''"
| "relation_type_value (RtCustom extension) = custom_prefix @ extension"

definition morphism_type_table :: "(string \<times> case_morphism_type) list" where
  "morphism_type_table =
     [(''create'', MtCreate), (''update'', MtUpdate), (''retire'', MtRetire),
      (''relate'', MtRelate), (''unrelate'', MtUnrelate), (''review'', MtReview),
      (''evidence_attach'', MtEvidenceAttach), (''completion_accept'', MtCompletionAccept),
      (''completion_reject'', MtCompletionReject), (''projection'', MtProjection),
      (''migration'', MtMigration), (''close'', MtClose)]"

fun morphism_type_value :: "case_morphism_type \<Rightarrow> string" where
  "morphism_type_value MtCreate = ''create''"
| "morphism_type_value MtUpdate = ''update''"
| "morphism_type_value MtRetire = ''retire''"
| "morphism_type_value MtRelate = ''relate''"
| "morphism_type_value MtUnrelate = ''unrelate''"
| "morphism_type_value MtReview = ''review''"
| "morphism_type_value MtEvidenceAttach = ''evidence_attach''"
| "morphism_type_value MtCompletionAccept = ''completion_accept''"
| "morphism_type_value MtCompletionReject = ''completion_reject''"
| "morphism_type_value MtProjection = ''projection''"
| "morphism_type_value MtMigration = ''migration''"
| "morphism_type_value MtClose = ''close''"
| "morphism_type_value (MtCustom extension) = custom_prefix @ extension"

section \<open>Cells, relations, morphisms, spaces\<close>

datatype case_cell_lifecycle =
    LcProposed | LcActive | LcWaiting | LcResolved | LcRetired | LcAccepted | LcRejected
  | LcSuperseded

fun can_transition_to :: "case_cell_lifecycle \<Rightarrow> case_cell_lifecycle \<Rightarrow> bool" where
  "can_transition_to source target =
     (source = target \<or>
      (case source of
         LcProposed \<Rightarrow> target \<in> {LcActive, LcRejected, LcRetired}
       | LcActive \<Rightarrow> target \<in> {LcWaiting, LcResolved, LcRetired, LcSuperseded}
       | LcWaiting \<Rightarrow> target \<in> {LcActive, LcRetired}
       | LcResolved \<Rightarrow> target \<in> {LcAccepted, LcActive, LcRetired}
       | LcAccepted \<Rightarrow> target \<in> {LcSuperseded, LcRetired}
       | LcRejected \<Rightarrow> target = LcRetired
       | LcSuperseded \<Rightarrow> target = LcRetired
       | LcRetired \<Rightarrow> False))"

datatype relation_strength = StHard | StSoft | StDiagnostic

record case_cell =
  cell_id :: id
  cell_type :: case_cell_type
  cell_space_id :: id
  cell_title :: string
  cell_summary :: "string option"
  cell_lifecycle :: case_cell_lifecycle
  cell_source_ids :: "id list"
  cell_structure_ids :: "id list"
  cell_provenance :: provenance
  cell_metadata :: metadata

record case_relation =
  rel_id :: id
  relation_type :: case_relation_type
  relation_strength :: relation_strength
  rel_from_id :: id
  rel_to_id :: id
  rel_evidence_ids :: "id list"
  rel_source_ids :: "id list"
  rel_provenance :: provenance
  rel_metadata :: metadata

record case_morphism =
  mor_id :: id
  morphism_type :: case_morphism_type
  mor_source_revision_id :: "id option"
  mor_target_revision_id :: id
  mor_added_ids :: "id list"
  mor_updated_ids :: "id list"
  mor_retired_ids :: "id list"
  mor_preserved_ids :: "id list"
  mor_violated_invariant_ids :: "id list"
  mor_review_status :: review_status
  mor_evidence_ids :: "id list"
  mor_source_ids :: "id list"
  mor_metadata :: metadata

record morphism_payload =
  added_cells :: "case_cell list"
  added_relations :: "case_relation list"
  updated_cells :: "case_cell list"
  updated_relations :: "case_relation list"

definition default_payload :: morphism_payload where
  "default_payload =
     \<lparr>added_cells = [], added_relations = [], updated_cells = [], updated_relations = []\<rparr>"

record morphism_log_entry =
  entry_schema :: string
  entry_schema_version :: nat
  entry_case_space_id :: id
  entry_sequence :: nat
  entry_id :: id
  entry_morphism_id :: id
  entry_source_revision_id :: "id option"
  entry_target_revision_id :: id
  entry_morphism :: case_morphism
  entry_actor_id :: id
  entry_recorded_at :: string
  entry_provenance :: provenance
  entry_source_ids :: "id list"
  previous_entry_hash :: "string option"
  replay_checksum :: string

record revision =
  revision_id :: id
  rev_case_space_id :: id
  applied_entry_ids :: "id list"
  applied_morphism_ids :: "id list"
  rev_checksum :: string
  parent_revision_id :: "id option"
  rev_created_at :: string
  rev_source_ids :: "id list"
  rev_metadata :: metadata

datatype projection_audience = AuHumanReview | AuAiAgent | AuAudit | AuSystem | AuMigration

record projection_loss_record =
  loss_description :: string
  loss_represented_ids :: "id list"
  loss_omitted_ids :: "id list"

datatype projection_warning =
    HiddenBlocker | HiddenUnreviewedInference | HiddenCloseInvariantFailure | InformationLoss

record projection =
  projection_id :: id
  audience :: projection_audience
  proj_revision_id :: id
  represented_cell_ids :: "id list"
  represented_relation_ids :: "id list"
  omitted_cell_ids :: "id list"
  omitted_relation_ids :: "id list"
  information_loss :: "projection_loss_record list"
  allowed_operations :: "string list"
  proj_source_ids :: "id list"
  warnings :: "projection_warning list"
  proj_metadata :: metadata

record case_space =
  cs_schema :: string
  cs_schema_version :: nat
  case_space_id :: id
  space_id :: id
  case_cells :: "case_cell list"
  case_relations :: "case_relation list"
  morphism_log :: "morphism_log_entry list"
  projections :: "projection list"
  cs_revision :: revision
  close_policy_id :: "id option"
  cs_metadata :: metadata

definition native_case_space_schema :: string where
  "native_case_space_schema = ''highergraphen.case.space.v1''"

definition native_case_space_schema_version :: nat where
  "native_case_space_schema_version = 1"

definition native_morphism_log_entry_schema :: string where
  "native_morphism_log_entry_schema = ''highergraphen.case.morphism_log_entry.v1''"

datatype review_action = RaAccept | RaReject | RaReopen | RaWaive | RaDefer | RaSupersede

datatype evidence_boundary =
    EbSourceBacked | EbInferred | EbWorkerOutput | EbReviewPromoted | EbRejected | EbContradicting

definition from_metadata_value :: "string option \<Rightarrow> evidence_boundary" where
  "from_metadata_value value =
     (if value \<in> {Some ''source_backed'', Some ''source_backed_evidence''} then EbSourceBacked
      else if value \<in> {Some ''inferred'', Some ''ai_inference''} then EbInferred
      else if value = Some ''worker_output'' then EbWorkerOutput
      else if value \<in> {Some ''review_promoted'', Some ''review_promotion''} then EbReviewPromoted
      else if value = Some ''rejected'' then EbRejected
      else if value = Some ''contradicting'' then EbContradicting
      else EbInferred)"

definition declared_boundary :: "case_cell \<Rightarrow> string option" where
  "declared_boundary c = get_str (cell_metadata c) ''evidence_boundary''"

section \<open>Parsing and printing the extensible enums\<close>

text \<open>
  What the macro relies on of one enum: the table lists the printed form of every variant that
  is not custom, no literal starts with the custom prefix, and a custom variant prints its
  extension behind the prefix.
\<close>

locale custom_enum =
  fixes table :: "(string \<times> 'v) list"
    and mk :: "string \<Rightarrow> 'v"
    and serialized :: "'v \<Rightarrow> string"
  assumes keys_distinct: "distinct (map fst table)"
    and keys_not_custom: "(k, v) \<in> set table \<Longrightarrow> \<not> prefix custom_prefix k"
    and serialized_table: "(k, v) \<in> set table \<Longrightarrow> serialized v = k"
    and serialized_custom: "serialized (mk e) = custom_prefix @ e"
    and exhaustive: "v \<in> snd ` set table \<or> (\<exists>e. v = mk e)"
    and mk_inj: "mk e = mk e' \<Longrightarrow> e = e'"
begin

lemma map_of_custom: "map_of table (custom_prefix @ e) = None"
  using keys_not_custom by (force simp: map_of_eq_None_iff)

lemma parse_custom:
  "custom_from_str table mk (custom_prefix @ e) =
     (if blank e then Err (EmptyCustomExtension (custom_prefix @ e)) else Ok (mk e))"
  by (simp add: custom_from_str_def map_of_custom Let_def)

lemma parse_print:
  "custom_from_str table mk (serialized v) = Ok v \<longleftrightarrow> (\<forall>e. v = mk e \<longrightarrow> \<not> blank e)"
proof (cases "\<exists>e. v = mk e")
  case True
  then show ?thesis by (auto simp: serialized_custom parse_custom mk_inj dest: mk_inj)
next
  case False
  with exhaustive [of v] obtain k where k: "(k, v) \<in> set table" by force
  with keys_distinct have "map_of table k = Some v" by (simp add: map_of_is_SomeI)
  with k False show ?thesis by (auto simp: serialized_table custom_from_str_def)
qed

lemma print_parse: "custom_from_str table mk s = Ok v \<Longrightarrow> serialized v = s"
  by (auto simp: custom_from_str_def Let_def prefix_def serialized_custom serialized_table
      dest!: map_of_SomeD split: option.splits if_splits)

end

interpretation cell_type_enum: custom_enum cell_type_table CtCustom cell_type_value
proof
  show "v \<in> snd ` set cell_type_table \<or> (\<exists>e. v = CtCustom e)" for v
    by (cases v) (simp_all add: cell_type_table_def)
qed (auto simp: cell_type_table_def custom_prefix_def prefix_def)

interpretation relation_type_enum: custom_enum relation_type_table RtCustom relation_type_value
proof
  show "v \<in> snd ` set relation_type_table \<or> (\<exists>e. v = RtCustom e)" for v
    by (cases v) (simp_all add: relation_type_table_def)
qed (auto simp: relation_type_table_def custom_prefix_def prefix_def)

interpretation morphism_type_enum: custom_enum morphism_type_table MtCustom morphism_type_value
proof
  show "v \<in> snd ` set morphism_type_table \<or> (\<exists>e. v = MtCustom e)" for v
    by (cases v) (simp_all add: morphism_type_table_def)
qed (auto simp: morphism_type_table_def custom_prefix_def prefix_def)

section \<open>Lifecycles\<close>

text \<open>
  The order the lifecycle graph induces away from its two cycles (active with waiting, active
  with resolved): no transition leads back out of retirement, and an accepted, rejected or
  superseded cell never becomes active again.
\<close>

definition lifecycle_rank :: "case_cell_lifecycle \<Rightarrow> nat" where
  "lifecycle_rank l =
     (case l of
        LcProposed \<Rightarrow> 0
      | LcActive \<Rightarrow> 1 | LcWaiting \<Rightarrow> 1 | LcResolved \<Rightarrow> 1
      | LcAccepted \<Rightarrow> 2 | LcRejected \<Rightarrow> 2
      | LcSuperseded \<Rightarrow> 3
      | LcRetired \<Rightarrow> 4)"

lemma transition_rank: "can_transition_to l l' \<Longrightarrow> lifecycle_rank l \<le> lifecycle_rank l'"
  by (cases l; cases l') (simp_all add: lifecycle_rank_def)

lemma transition_from_retired [simp]: "can_transition_to LcRetired l \<longleftrightarrow> l = LcRetired"
  by auto

lemma retire_always: "can_transition_to l LcRetired"
  by (cases l) simp_all

end
