(* ===== verification/Native_Reducer.thy ===== *)
theory Native_Reducer
  imports Native_Model
begin

text \<open>
  The two reducers of \<open>src/native_model.rs\<close>: \<open>apply_morphism\<close>, which works on a copy of the case
  space and scans it, and \<open>apply_morphism_indexed\<close>, which validates against a position index and
  then mutates the space in place. Both are modelled loop by loop with every guard and every
  error. \<open>Native_Reducer_Correct\<close> and \<open>Native_Reducer_Indexed\<close> show that both implement one declarative
  update and therefore agree.

  The \<open>serde\<close> decoder of \<open>metadata.payload\<close> is generated code; it is the parameter \<open>decode\<close>.
\<close>

section \<open>Errors\<close>

text \<open>One constructor per message of \<open>MorphismApplyError\<close>, with the values it interpolates.\<close>

datatype morphism_apply_error =
    GenesisLogLength
  | GenesisMissing id
  | GenesisMalformed id string
  | PayloadMalformed id string
  | DuplicateIdIn id string id
  | DuplicateIdAcross id id
  | DuplicatePayloadId id string id
  | IdsDoNotMatch id string "id set" string "id set"
  | CapabilityAdministration id string id
  | TrustedEvidenceAdded id id "string option"
  | ArtifactOutsideAttach id id
  | ArtifactRelationOutsideAttach id id id
  | CellIdExists id id
  | RelationIdExists id id
  | UpdateMissingCell id id
  | UpdateMissingRelation id id
  | CellTypeImmutable id id case_cell_type case_cell_type
  | ArtifactImmutable id string id
  | EvidenceProvenanceImmutable id id
  | EvidenceStructureImmutable id id
  | EvidenceMetadataImmutable id id string
  | RelationFieldImmutable id id string
  | IllegalLifecycle id id case_cell_lifecycle case_cell_lifecycle
  | RetireMissing id id
  | MissingEndpoint id id string id
  | IndexOutOfBounds

section \<open>Cell predicates\<close>

definition is_artifact_cell :: "case_cell \<Rightarrow> bool" where
  "is_artifact_cell cell \<longleftrightarrow> cell_type cell = CtCustom ''artifact''"

definition is_capability_cell :: "case_cell \<Rightarrow> bool" where
  "is_capability_cell cell \<longleftrightarrow> cell_type cell = CtCustom ''capability''"

definition has_capability_cells :: "case_space \<Rightarrow> bool" where
  "has_capability_cells cs \<longleftrightarrow> list_ex is_capability_cell (case_cells cs)"

definition is_artifact_cell_id :: "id \<Rightarrow> case_cell list \<Rightarrow> bool" where
  "is_artifact_cell_id i cells \<longleftrightarrow> list_ex (\<lambda>cell. cell_id cell = i \<and> is_artifact_cell cell) cells"

section \<open>Guards\<close>

definition require_not_capability_administration ::
  "case_morphism \<Rightarrow> case_cell \<Rightarrow> string \<Rightarrow> bool \<Rightarrow> (morphism_apply_error, unit) result" where
  "require_not_capability_administration m cell operation is_genesis =
     (if cell_type cell \<noteq> CtCustom ''capability'' \<or> is_genesis then Ok ()
      else Err (CapabilityAdministration (mor_id m) operation (cell_id cell)))"

definition require_artifact_cell_entered_via_attach ::
  "case_morphism \<Rightarrow> case_cell \<Rightarrow> (morphism_apply_error, unit) result" where
  "require_artifact_cell_entered_via_attach m cell =
     (if \<not> is_artifact_cell cell \<or> morphism_type m = MtEvidenceAttach then Ok ()
      else Err (ArtifactOutsideAttach (mor_id m) (cell_id cell)))"

definition require_artifact_relation_entered_via_attach ::
  "case_morphism \<Rightarrow> case_relation \<Rightarrow> bool \<Rightarrow> (morphism_apply_error, unit) result" where
  "require_artifact_relation_entered_via_attach m relation to_cell_is_artifact =
     (if relation_type relation \<noteq> RtDerivesFrom \<or> \<not> to_cell_is_artifact
         \<or> morphism_type m = MtEvidenceAttach
      then Ok ()
      else Err (ArtifactRelationOutsideAttach (mor_id m) (rel_id relation) (rel_to_id relation)))"

definition require_untrusted_added_evidence ::
  "case_morphism \<Rightarrow> case_cell \<Rightarrow> bool \<Rightarrow> (morphism_apply_error, unit) result" where
  "require_untrusted_added_evidence m cell is_genesis =
     (if is_genesis \<or> cell_type cell \<noteq> CtEvidence then Ok ()
      else (let declared = declared_boundary cell
            in case from_metadata_value declared of
                 EbInferred \<Rightarrow> Ok ()
               | EbWorkerOutput \<Rightarrow> Ok ()
               | _ \<Rightarrow> Err (TrustedEvidenceAdded (mor_id m) (cell_id cell) declared)))"

definition require_immutable_relation_update_fields ::
  "case_morphism \<Rightarrow> case_relation \<Rightarrow> case_relation \<Rightarrow> (morphism_apply_error, unit) result" where
  "require_immutable_relation_update_fields m existing updated =
     each_res (\<lambda>(field, unchanged).
         ensure unchanged (RelationFieldImmutable (mor_id m) (rel_id existing) field))
       [(''relation_type'', relation_type existing = relation_type updated),
        (''from_id'', rel_from_id existing = rel_from_id updated),
        (''to_id'', rel_to_id existing = rel_to_id updated),
        (''relation_strength'', relation_strength existing = relation_strength updated)]"

definition require_artifact_cell_unchanged ::
  "case_morphism \<Rightarrow> case_cell \<Rightarrow> string \<Rightarrow> (morphism_apply_error, unit) result" where
  "require_artifact_cell_unchanged m cell operation =
     (if \<not> is_artifact_cell cell then Ok ()
      else Err (ArtifactImmutable (mor_id m) operation (cell_id cell)))"

definition immutable_evidence_metadata :: "string list" where
  "immutable_evidence_metadata =
     [''evidence_boundary'', ''content_hash'', ''trace_id'', ''worker_report_id'',
      ''output_incomplete'', ''output_truncated'']"

definition require_immutable_cell_update_fields ::
  "case_morphism \<Rightarrow> case_cell \<Rightarrow> case_cell \<Rightarrow> (morphism_apply_error, unit) result" where
  "require_immutable_cell_update_fields m existing updated =
     rbind (ensure (cell_type existing = cell_type updated)
              (CellTypeImmutable (mor_id m) (cell_id existing) (cell_type existing)
                 (cell_type updated))) (\<lambda>_.
     rbind (require_artifact_cell_unchanged m existing ''update'') (\<lambda>_.
     if cell_type existing \<noteq> CtEvidence then Ok ()
     else
       rbind (ensure (cell_provenance existing = cell_provenance updated)
                (EvidenceProvenanceImmutable (mor_id m) (cell_id existing))) (\<lambda>_.
       rbind (ensure (cell_structure_ids existing = cell_structure_ids updated)
                (EvidenceStructureImmutable (mor_id m) (cell_id existing))) (\<lambda>_.
       each_res (\<lambda>key.
           ensure (fmlookup (cell_metadata existing) key = fmlookup (cell_metadata updated) key)
             (EvidenceMetadataImmutable (mor_id m) (cell_id existing) key))
         immutable_evidence_metadata))))"

definition require_lifecycle_transition ::
  "case_morphism \<Rightarrow> id \<Rightarrow> case_cell_lifecycle \<Rightarrow> case_cell_lifecycle
   \<Rightarrow> (morphism_apply_error, unit) result" where
  "require_lifecycle_transition m i source target =
     (if can_transition_to source target then Ok ()
      else Err (IllegalLifecycle (mor_id m) i source target))"

section \<open>Payload and declared ids\<close>

type_synonym payload_decoder = "json \<Rightarrow> (string, morphism_payload) result"

definition morphism_payload_of ::
  "payload_decoder \<Rightarrow> case_morphism \<Rightarrow> (morphism_apply_error, morphism_payload) result" where
  "morphism_payload_of decode m =
     (case fmlookup (mor_metadata m) ''payload'' of
        Some value \<Rightarrow> map_err (PayloadMalformed (mor_id m)) (decode value)
      | None \<Rightarrow> Ok default_payload)"

definition derive_added_ids :: "morphism_payload \<Rightarrow> id list" where
  "derive_added_ids payload =
     map cell_id (added_cells payload) @ map rel_id (added_relations payload)"

definition collect_unique_ids ::
  "case_morphism \<Rightarrow> string \<Rightarrow> id list \<Rightarrow> id set \<Rightarrow> (morphism_apply_error, id set \<times> id set) result" where
  "collect_unique_ids m list_name ids all =
     fold_res (\<lambda>(list, all) i.
         rbind (ensure (i \<notin> list) (DuplicateIdIn (mor_id m) list_name i)) (\<lambda>_.
         rbind (ensure (i \<notin> all) (DuplicateIdAcross (mor_id m) i)) (\<lambda>_.
         Ok (insert i list, insert i all))))
       ({}, all) ids"

definition validate_declared_morphism_ids ::
  "case_morphism \<Rightarrow> (morphism_apply_error, id set \<times> id set) result" where
  "validate_declared_morphism_ids m =
     rbind (collect_unique_ids m ''added_ids'' (mor_added_ids m) {}) (\<lambda>(added, all).
     rbind (collect_unique_ids m ''updated_ids'' (mor_updated_ids m) all) (\<lambda>(updated, all).
     rbind (collect_unique_ids m ''retired_ids'' (mor_retired_ids m) all) (\<lambda>_.
     Ok (added, updated))))"

definition collect_payload_ids ::
  "case_morphism \<Rightarrow> string \<Rightarrow> id list \<Rightarrow> id set \<times> id set
   \<Rightarrow> (morphism_apply_error, id set \<times> id set) result" where
  "collect_payload_ids m list_name ids target_all =
     fold_res (\<lambda>(target, all) i.
         rbind (ensure (i \<notin> all) (DuplicatePayloadId (mor_id m) list_name i)) (\<lambda>_.
         Ok (insert i target, insert i all)))
       target_all ids"

definition validate_payload_ids ::
  "case_morphism \<Rightarrow> morphism_payload \<Rightarrow> (morphism_apply_error, id set \<times> id set) result" where
  "validate_payload_ids m payload =
     rbind (collect_payload_ids m ''added_cells''
              (map cell_id (added_cells payload)) ({}, {})) (\<lambda>(added, all).
     rbind (collect_payload_ids m ''added_relations''
              (map rel_id (added_relations payload)) (added, all)) (\<lambda>(added, all).
     rbind (collect_payload_ids m ''updated_cells''
              (map cell_id (updated_cells payload)) ({}, all)) (\<lambda>(updated, all).
     rbind (collect_payload_ids m ''updated_relations''
              (map rel_id (updated_relations payload)) (updated, all)) (\<lambda>(updated, all).
     Ok (added, updated)))))"

definition require_matching_ids ::
  "case_morphism \<Rightarrow> string \<Rightarrow> id set \<Rightarrow> string \<Rightarrow> id set \<Rightarrow> (morphism_apply_error, unit) result" where
  "require_matching_ids m declared_name declared payload_name payload =
     ensure (declared = payload)
       (IdsDoNotMatch (mor_id m) declared_name declared payload_name payload)"

text \<open>The prologue both reducers share.\<close>

definition is_genesis_application :: "case_space \<Rightarrow> case_morphism \<Rightarrow> bool" where
  "is_genesis_application cs m \<longleftrightarrow>
     mor_source_revision_id m = None \<and> case_cells cs = [] \<and> case_relations cs = []
     \<and> morphism_log cs = []"

definition checked_payload ::
  "payload_decoder \<Rightarrow> case_morphism \<Rightarrow> (morphism_apply_error, morphism_payload) result" where
  "checked_payload decode m =
     rbind (morphism_payload_of decode m) (\<lambda>payload.
     rbind (validate_declared_morphism_ids m) (\<lambda>(declared_added, declared_updated).
     rbind (validate_payload_ids m payload) (\<lambda>(payload_added, payload_updated).
     rbind (require_matching_ids m ''added_ids'' declared_added
              ''payload added_cells and added_relations'' payload_added) (\<lambda>_.
     rbind (require_matching_ids m ''updated_ids'' declared_updated
              ''payload updated_cells and updated_relations'' payload_updated) (\<lambda>_.
     Ok payload)))))"

definition materialized_ids :: "case_space \<Rightarrow> id set" where
  "materialized_ids cs = set (map cell_id (case_cells cs)) \<union> set (map rel_id (case_relations cs))"

section \<open>The scanning reducer\<close>

definition add_cell ::
  "case_morphism \<Rightarrow> bool \<Rightarrow> id set \<times> case_cell list \<Rightarrow> case_cell
   \<Rightarrow> (morphism_apply_error, id set \<times> case_cell list) result" where
  "add_cell m is_genesis st cell =
     (let (known_ids, cells) = st in
     rbind (require_not_capability_administration m cell ''add'' is_genesis) (\<lambda>_.
     rbind (require_untrusted_added_evidence m cell is_genesis) (\<lambda>_.
     rbind (require_artifact_cell_entered_via_attach m cell) (\<lambda>_.
     rbind (ensure (cell_id cell \<notin> known_ids) (CellIdExists (mor_id m) (cell_id cell))) (\<lambda>_.
     Ok (insert (cell_id cell) known_ids, cells @ [cell]))))))"

definition add_relation ::
  "case_morphism \<Rightarrow> case_cell list \<Rightarrow> id set \<times> case_relation list \<Rightarrow> case_relation
   \<Rightarrow> (morphism_apply_error, id set \<times> case_relation list) result" where
  "add_relation m cells st relation =
     (let (known_ids, relations) = st in
     rbind (require_artifact_relation_entered_via_attach m relation
              (is_artifact_cell_id (rel_to_id relation) cells)) (\<lambda>_.
     rbind (ensure (rel_id relation \<notin> known_ids)
              (RelationIdExists (mor_id m) (rel_id relation))) (\<lambda>_.
     Ok (insert (rel_id relation) known_ids, relations @ [relation]))))"

definition update_cell ::
  "case_morphism \<Rightarrow> bool \<Rightarrow> case_cell list \<Rightarrow> case_cell
   \<Rightarrow> (morphism_apply_error, case_cell list) result" where
  "update_cell m is_genesis cells cell =
     rbind (ok_or (find (\<lambda>candidate. cell_id candidate = cell_id cell) cells)
              (UpdateMissingCell (mor_id m) (cell_id cell))) (\<lambda>existing.
     rbind (require_not_capability_administration m existing ''update'' is_genesis) (\<lambda>_.
     rbind (require_not_capability_administration m cell ''update'' is_genesis) (\<lambda>_.
     rbind (require_immutable_cell_update_fields m existing cell) (\<lambda>_.
     rbind (require_lifecycle_transition m (cell_id cell) (cell_lifecycle existing)
              (cell_lifecycle cell)) (\<lambda>_.
     Ok (replace_first (\<lambda>candidate. cell_id candidate = cell_id cell) (\<lambda>_. cell) cells))))))"

definition update_relation ::
  "case_morphism \<Rightarrow> case_relation list \<Rightarrow> case_relation
   \<Rightarrow> (morphism_apply_error, case_relation list) result" where
  "update_relation m relations relation =
     rbind (ok_or (find (\<lambda>candidate. rel_id candidate = rel_id relation) relations)
              (UpdateMissingRelation (mor_id m) (rel_id relation))) (\<lambda>existing.
     rbind (require_immutable_relation_update_fields m existing relation) (\<lambda>_.
     Ok (replace_first (\<lambda>candidate. rel_id candidate = rel_id relation) (\<lambda>_. relation)
           relations)))"

definition retire_id ::
  "case_morphism \<Rightarrow> bool \<Rightarrow> case_cell list \<times> case_relation list \<Rightarrow> id
   \<Rightarrow> (morphism_apply_error, case_cell list \<times> case_relation list) result" where
  "retire_id m is_genesis st i =
     (let (cells, relations) = st in
      case find (\<lambda>candidate. cell_id candidate = i) cells of
        Some cell \<Rightarrow>
          rbind (require_not_capability_administration m cell ''retire'' is_genesis) (\<lambda>_.
          rbind (require_artifact_cell_unchanged m cell ''retire'') (\<lambda>_.
          rbind (require_lifecycle_transition m i (cell_lifecycle cell) LcRetired) (\<lambda>_.
          Ok (replace_first (\<lambda>candidate. cell_id candidate = i)
                (\<lambda>cell. cell\<lparr>cell_lifecycle := LcRetired\<rparr>) cells, relations))))
      | None \<Rightarrow>
          (case find (\<lambda>candidate. rel_id candidate = i) relations of
             Some _ \<Rightarrow> Ok (cells, remove_first (\<lambda>candidate. rel_id candidate = i) relations)
           | None \<Rightarrow> Err (RetireMissing (mor_id m) i)))"

definition require_endpoints ::
  "case_morphism \<Rightarrow> id set \<Rightarrow> case_relation \<Rightarrow> (morphism_apply_error, unit) result" where
  "require_endpoints m cell_ids relation =
     each_res (\<lambda>(field, endpoint).
         ensure (endpoint \<in> cell_ids) (MissingEndpoint (mor_id m) (rel_id relation) field endpoint))
       [(''from_id'', rel_from_id relation), (''to_id'', rel_to_id relation)]"

definition apply_morphism ::
  "payload_decoder \<Rightarrow> case_space \<Rightarrow> case_morphism \<Rightarrow> (morphism_apply_error, case_space) result" where
  "apply_morphism decode cs m =
     (let is_genesis = is_genesis_application cs m in
      rbind (checked_payload decode m) (\<lambda>payload.
      rbind (fold_res (add_cell m is_genesis) (materialized_ids cs, case_cells cs)
               (added_cells payload)) (\<lambda>(known_ids, cells).
      rbind (fold_res (add_relation m cells) (known_ids, case_relations cs)
               (added_relations payload)) (\<lambda>(_, relations).
      rbind (fold_res (update_cell m is_genesis) cells (updated_cells payload)) (\<lambda>cells.
      rbind (fold_res (update_relation m) relations (updated_relations payload)) (\<lambda>relations.
      rbind (fold_res (retire_id m is_genesis) (cells, relations)
               (mor_retired_ids m)) (\<lambda>(cells, relations).
      rbind (each_res (require_endpoints m (set (map cell_id cells))) relations) (\<lambda>_.
      Ok (cs\<lparr>case_cells := cells, case_relations := relations\<rparr>)))))))))"

section \<open>The indexed reducer\<close>

text \<open>
  \<open>MorphismApplicationIndex\<close>: positions of the cells and of the relations by id. Collecting into a
  \<open>BTreeMap\<close> keeps the last position of a repeated key.
\<close>

definition positions :: "('a \<Rightarrow> id) \<Rightarrow> 'a list \<Rightarrow> (id, nat) fmap" where
  "positions key xs = fold (\<lambda>(p, x) m. fmupd (key x) p m) (List.enumerate 0 xs) fmempty"

record morphism_application_index =
  cell_positions :: "(id, nat) fmap"
  relation_positions :: "(id, nat) fmap"

definition index_new :: "case_space \<Rightarrow> morphism_application_index" where
  "index_new cs =
     \<lparr>cell_positions = positions cell_id (case_cells cs),
      relation_positions = positions rel_id (case_relations cs)\<rparr>"

definition index_contains :: "morphism_application_index \<Rightarrow> id \<Rightarrow> bool" where
  "index_contains index i \<longleftrightarrow>
     fmlookup (cell_positions index) i \<noteq> None \<or> fmlookup (relation_positions index) i \<noteq> None"

text \<open>Slice indexing panics out of range; the panic is the error \<open>IndexOutOfBounds\<close>.\<close>

definition at_position :: "'a list \<Rightarrow> nat \<Rightarrow> (morphism_apply_error, 'a) result" where
  "at_position xs p = ok_or (nth_opt xs p) IndexOutOfBounds"

definition is_artifact_cell_id_indexed ::
  "id \<Rightarrow> case_space \<Rightarrow> morphism_application_index \<Rightarrow> case_cell list
   \<Rightarrow> (morphism_apply_error, bool) result" where
  "is_artifact_cell_id_indexed i cs index added =
     (case fmlookup (cell_positions index) i of
        Some position \<Rightarrow>
          rbind (at_position (case_cells cs) position) (\<lambda>cell. Ok (is_artifact_cell cell))
      | None \<Rightarrow> Ok (is_artifact_cell_id i added))"

definition check_added_cell ::
  "case_morphism \<Rightarrow> bool \<Rightarrow> morphism_application_index \<Rightarrow> case_cell
   \<Rightarrow> (morphism_apply_error, unit) result" where
  "check_added_cell m is_genesis index cell =
     rbind (require_not_capability_administration m cell ''add'' is_genesis) (\<lambda>_.
     rbind (require_untrusted_added_evidence m cell is_genesis) (\<lambda>_.
     rbind (require_artifact_cell_entered_via_attach m cell) (\<lambda>_.
     ensure (\<not> index_contains index (cell_id cell)) (CellIdExists (mor_id m) (cell_id cell)))))"

definition check_added_relation ::
  "case_morphism \<Rightarrow> case_space \<Rightarrow> morphism_application_index \<Rightarrow> case_cell list \<Rightarrow> case_relation
   \<Rightarrow> (morphism_apply_error, unit) result" where
  "check_added_relation m cs index added relation =
     rbind (is_artifact_cell_id_indexed (rel_to_id relation) cs index added) (\<lambda>to_artifact.
     rbind (require_artifact_relation_entered_via_attach m relation to_artifact) (\<lambda>_.
     ensure (\<not> index_contains index (rel_id relation))
       (RelationIdExists (mor_id m) (rel_id relation))))"

definition check_updated_cell ::
  "case_morphism \<Rightarrow> bool \<Rightarrow> case_space \<Rightarrow> morphism_application_index \<Rightarrow> case_cell
   \<Rightarrow> (morphism_apply_error, unit) result" where
  "check_updated_cell m is_genesis cs index cell =
     rbind (ok_or (fmlookup (cell_positions index) (cell_id cell))
              (UpdateMissingCell (mor_id m) (cell_id cell))) (\<lambda>position.
     rbind (at_position (case_cells cs) position) (\<lambda>existing.
     rbind (require_not_capability_administration m existing ''update'' is_genesis) (\<lambda>_.
     rbind (require_not_capability_administration m cell ''update'' is_genesis) (\<lambda>_.
     rbind (require_immutable_cell_update_fields m existing cell) (\<lambda>_.
     require_lifecycle_transition m (cell_id cell) (cell_lifecycle existing)
       (cell_lifecycle cell))))))"

definition check_retired_id ::
  "case_morphism \<Rightarrow> bool \<Rightarrow> case_space \<Rightarrow> morphism_application_index \<Rightarrow> id
   \<Rightarrow> (morphism_apply_error, unit) result" where
  "check_retired_id m is_genesis cs index i =
     (case fmlookup (cell_positions index) i of
        Some position \<Rightarrow>
          rbind (at_position (case_cells cs) position) (\<lambda>cell.
          rbind (require_not_capability_administration m cell ''retire'' is_genesis) (\<lambda>_.
          rbind (require_artifact_cell_unchanged m cell ''retire'') (\<lambda>_.
          require_lifecycle_transition m i (cell_lifecycle cell) LcRetired)))
      | None \<Rightarrow>
          ensure (fmlookup (relation_positions index) i \<noteq> None) (RetireMissing (mor_id m) i))"

text \<open>The loops before the first mutation.\<close>

definition indexed_checks ::
  "case_morphism \<Rightarrow> case_space \<Rightarrow> morphism_application_index \<Rightarrow> morphism_payload
   \<Rightarrow> (morphism_apply_error, unit) result" where
  "indexed_checks m cs index payload =
     (let is_genesis = is_genesis_application cs m in
      rbind (each_res (check_added_cell m is_genesis index) (added_cells payload)) (\<lambda>_.
      rbind (each_res (check_added_relation m cs index (added_cells payload))
               (added_relations payload)) (\<lambda>_.
      rbind (each_res (check_updated_cell m is_genesis cs index) (updated_cells payload)) (\<lambda>_.
      rbind (each_res (\<lambda>relation.
                 ensure (fmlookup (relation_positions index) (rel_id relation) \<noteq> None)
                   (UpdateMissingRelation (mor_id m) (rel_id relation)))
               (updated_relations payload)) (\<lambda>_.
      rbind (each_res (check_retired_id m is_genesis cs index) (mor_retired_ids m)) (\<lambda>_.
      each_res (require_endpoints m
                 (fset (fmdom (cell_positions index)) \<union> set (map cell_id (added_cells payload))))
        (added_relations payload @ updated_relations payload)))))))"

text \<open>
  The mutating loops. A space and its index are changed in place, so every loop returns them
  also when it stops early. Only the loop over the updated relations can.
\<close>

type_synonym indexed_state = "case_space \<times> morphism_application_index"

definition push_cell :: "indexed_state \<Rightarrow> case_cell \<Rightarrow> indexed_state" where
  "push_cell st cell =
     (let (cs, index) = st in
      (cs\<lparr>case_cells := case_cells cs @ [cell]\<rparr>,
       index\<lparr>cell_positions :=
         fmupd (cell_id cell) (length (case_cells cs)) (cell_positions index)\<rparr>))"

definition push_relation :: "indexed_state \<Rightarrow> case_relation \<Rightarrow> indexed_state" where
  "push_relation st relation =
     (let (cs, index) = st in
      (cs\<lparr>case_relations := case_relations cs @ [relation]\<rparr>,
       index\<lparr>relation_positions :=
         fmupd (rel_id relation) (length (case_relations cs)) (relation_positions index)\<rparr>))"

definition set_at :: "(id, nat) fmap \<Rightarrow> id \<Rightarrow> ('a \<Rightarrow> 'a) \<Rightarrow> 'a list
    \<Rightarrow> (morphism_apply_error, 'a list) result" where
  "set_at ps i f xs =
     rbind (ok_or (fmlookup ps i) IndexOutOfBounds) (\<lambda>p.
     rbind (at_position xs p) (\<lambda>x. Ok (xs[p := f x])))"

fun store_cells ::
  "(id, nat) fmap \<Rightarrow> case_cell list \<Rightarrow> case_cell list
   \<Rightarrow> case_cell list \<times> (morphism_apply_error, unit) result" where
  "store_cells ps cells [] = (cells, Ok ())"
| "store_cells ps cells (cell # rest) =
     (case set_at ps (cell_id cell) (\<lambda>_. cell) cells of
        Inl e \<Rightarrow> (cells, Err e)
      | Inr cells' \<Rightarrow> store_cells ps cells' rest)"

fun store_relations ::
  "case_morphism \<Rightarrow> (id, nat) fmap \<Rightarrow> case_relation list \<Rightarrow> case_relation list
   \<Rightarrow> case_relation list \<times> (morphism_apply_error, unit) result" where
  "store_relations m ps relations [] = (relations, Ok ())"
| "store_relations m ps relations (relation # rest) =
     (case rbind (ok_or (fmlookup ps (rel_id relation)) IndexOutOfBounds) (\<lambda>p.
           rbind (at_position relations p) (\<lambda>existing.
           rbind (require_immutable_relation_update_fields m existing relation) (\<lambda>_.
           Ok (relations[p := relation])))) of
        Inl e \<Rightarrow> (relations, Err e)
      | Inr relations' \<Rightarrow> store_relations m ps relations' rest)"

fun retire_indexed ::
  "morphism_application_index \<Rightarrow> case_cell list \<Rightarrow> nat list \<Rightarrow> id list
   \<Rightarrow> case_cell list \<times> (morphism_apply_error, nat list) result" where
  "retire_indexed index cells retired [] = (cells, Ok retired)"
| "retire_indexed index cells retired (i # rest) =
     (case fmlookup (cell_positions index) i of
        Some position \<Rightarrow>
          (case set_at (cell_positions index) i (\<lambda>cell. cell\<lparr>cell_lifecycle := LcRetired\<rparr>) cells of
             Inl e \<Rightarrow> (cells, Err e)
           | Inr cells' \<Rightarrow> retire_indexed index cells' retired rest)
      | None \<Rightarrow>
          (case fmlookup (relation_positions index) i of
             None \<Rightarrow> (cells, Err IndexOutOfBounds)
           | Some position \<Rightarrow> retire_indexed index cells (retired @ [position]) rest))"

definition remove_positions ::
  "nat list \<Rightarrow> 'a list \<Rightarrow> (morphism_apply_error, 'a list) result" where
  "remove_positions ps xs =
     fold_res (\<lambda>xs p. if p < length xs then Ok (remove_at p xs) else Err IndexOutOfBounds)
       xs (rev (sort ps))"

definition indexed_commit ::
  "case_morphism \<Rightarrow> morphism_payload \<Rightarrow> indexed_state
   \<Rightarrow> indexed_state \<times> (morphism_apply_error, unit) result" where
  "indexed_commit m payload st =
     (let st1 = fold (\<lambda>cell st. push_cell st cell) (added_cells payload) st;
          (cs, index) = fold (\<lambda>relation st. push_relation st relation) (added_relations payload) st1
      in case store_cells (cell_positions index) (case_cells cs) (updated_cells payload) of
           (cells, Inl e) \<Rightarrow> ((cs\<lparr>case_cells := cells\<rparr>, index), Err e)
         | (cells, Inr _) \<Rightarrow>
      (case store_relations m (relation_positions index) (case_relations cs)
              (updated_relations payload) of
           (relations, Inl e) \<Rightarrow>
             ((cs\<lparr>case_cells := cells, case_relations := relations\<rparr>, index), Err e)
         | (relations, Inr _) \<Rightarrow>
      (case retire_indexed index cells [] (mor_retired_ids m) of
           (cells, Inl e) \<Rightarrow>
             ((cs\<lparr>case_cells := cells, case_relations := relations\<rparr>, index), Err e)
         | (cells, Inr retired) \<Rightarrow>
             if retired = [] then
               ((cs\<lparr>case_cells := cells, case_relations := relations\<rparr>, index), Ok ())
             else
               (case remove_positions retired relations of
                  Inl e \<Rightarrow>
                    ((cs\<lparr>case_cells := cells, case_relations := relations\<rparr>, index), Err e)
                | Inr relations \<Rightarrow>
                    ((cs\<lparr>case_cells := cells, case_relations := relations\<rparr>,
                      index\<lparr>relation_positions := positions rel_id relations\<rparr>), Ok ())))))"

definition apply_morphism_indexed ::
  "payload_decoder \<Rightarrow> case_morphism \<Rightarrow> indexed_state
   \<Rightarrow> indexed_state \<times> (morphism_apply_error, unit) result" where
  "apply_morphism_indexed decode m st =
     (case rbind (checked_payload decode m) (\<lambda>payload.
           rbind (indexed_checks m (fst st) (snd st) payload) (\<lambda>_. Ok payload)) of
        Inl e \<Rightarrow> (st, Err e)
      | Inr payload \<Rightarrow> indexed_commit m payload st)"

end
