(* ===== verification/Native_Reducer_Correct.thy ===== *)
theory Native_Reducer_Correct
  imports Native_Reducer
begin

text \<open>
  Correctness of the reducers of \<open>Native_Reducer\<close>.
\<close>

section \<open>Guards as predicates\<close>

definition add_cell_ok :: "case_morphism \<Rightarrow> bool \<Rightarrow> case_cell \<Rightarrow> bool" where
  "add_cell_ok m g c \<longleftrightarrow>
     (g \<or> \<not> is_capability_cell c) \<and>
     (g \<or> cell_type c \<noteq> CtEvidence
        \<or> from_metadata_value (declared_boundary c) \<in> {EbInferred, EbWorkerOutput}) \<and>
     (is_artifact_cell c \<longrightarrow> morphism_type m = MtEvidenceAttach)"

definition cell_update_ok :: "bool \<Rightarrow> case_cell \<Rightarrow> case_cell \<Rightarrow> bool" where
  "cell_update_ok g e u \<longleftrightarrow>
     (g \<or> \<not> is_capability_cell e) \<and>
     \<not> is_artifact_cell e \<and>
     cell_type e = cell_type u \<and>
     can_transition_to (cell_lifecycle e) (cell_lifecycle u) \<and>
     (cell_type e = CtEvidence \<longrightarrow>
        cell_provenance e = cell_provenance u \<and> cell_structure_ids e = cell_structure_ids u \<and>
        (\<forall>k \<in> set immutable_evidence_metadata.
           fmlookup (cell_metadata e) k = fmlookup (cell_metadata u) k))"

definition relation_identity ::
  "case_relation \<Rightarrow> id \<times> case_relation_type \<times> id \<times> id \<times> relation_strength" where
  "relation_identity r =
     (rel_id r, relation_type r, rel_from_id r, rel_to_id r, relation_strength r)"

definition retire_cell_ok :: "bool \<Rightarrow> case_cell \<Rightarrow> bool" where
  "retire_cell_ok g c \<longleftrightarrow> (g \<or> \<not> is_capability_cell c) \<and> \<not> is_artifact_cell c"

definition add_relation_ok :: "case_morphism \<Rightarrow> case_cell list \<Rightarrow> case_relation \<Rightarrow> bool" where
  "add_relation_ok m cells r \<longleftrightarrow>
     (relation_type r = RtDerivesFrom \<longrightarrow> is_artifact_cell_id (rel_to_id r) cells
        \<longrightarrow> morphism_type m = MtEvidenceAttach)"

named_theorems guard_simps \<open>the guards of the reducers, as equivalences\<close>

lemma require_capability_iff [guard_simps]:
  "require_not_capability_administration m c s g = Inr u \<longleftrightarrow> g \<or> \<not> is_capability_cell c"
  by (auto simp: require_not_capability_administration_def is_capability_cell_def)

lemma require_attach_iff [guard_simps]:
  "require_artifact_cell_entered_via_attach m c = Inr u \<longleftrightarrow>
     (is_artifact_cell c \<longrightarrow> morphism_type m = MtEvidenceAttach)"
  by (simp add: require_artifact_cell_entered_via_attach_def)

lemma require_relation_attach_iff [guard_simps]:
  "require_artifact_relation_entered_via_attach m r a = Inr u \<longleftrightarrow>
     (relation_type r = RtDerivesFrom \<longrightarrow> a \<longrightarrow> morphism_type m = MtEvidenceAttach)"
  by (simp add: require_artifact_relation_entered_via_attach_def)

lemma require_untrusted_iff [guard_simps]:
  "require_untrusted_added_evidence m c g = Inr u \<longleftrightarrow>
     g \<or> cell_type c \<noteq> CtEvidence
     \<or> from_metadata_value (declared_boundary c) \<in> {EbInferred, EbWorkerOutput}"
  by (auto simp: require_untrusted_added_evidence_def Let_def split: evidence_boundary.splits)

lemma require_unchanged_iff [guard_simps]:
  "require_artifact_cell_unchanged m c s = Inr u \<longleftrightarrow> \<not> is_artifact_cell c"
  by (simp add: require_artifact_cell_unchanged_def)

lemma require_lifecycle_iff [guard_simps]:
  "require_lifecycle_transition m i s t = Inr u \<longleftrightarrow> can_transition_to s t"
  by (simp add: require_lifecycle_transition_def)

lemma require_relation_fields_iff [guard_simps]:
  "require_immutable_relation_update_fields m e u = Inr x \<longleftrightarrow>
     relation_type e = relation_type u \<and> rel_from_id e = rel_from_id u \<and>
     rel_to_id e = rel_to_id u \<and> relation_strength e = relation_strength u"
  by (auto simp: require_immutable_relation_update_fields_def result_simps)

lemma require_cell_fields_iff [guard_simps]:
  "require_immutable_cell_update_fields m e u = Inr x \<longleftrightarrow>
     \<not> is_artifact_cell e \<and> cell_type e = cell_type u \<and>
     (cell_type e = CtEvidence \<longrightarrow>
        cell_provenance e = cell_provenance u \<and> cell_structure_ids e = cell_structure_ids u \<and>
        (\<forall>k \<in> set immutable_evidence_metadata.
           fmlookup (cell_metadata e) k = fmlookup (cell_metadata u) k))"
  by (auto simp: require_immutable_cell_update_fields_def result_simps guard_simps each_res_eq_Inr)

lemma require_endpoints_iff [guard_simps]:
  "require_endpoints m ids r = Inr u \<longleftrightarrow> rel_from_id r \<in> ids \<and> rel_to_id r \<in> ids"
  by (auto simp: require_endpoints_def result_simps)

section \<open>Declared and payload ids\<close>

lemma collect_unique_ids_aux:
  "fold_res (\<lambda>(list, all) i.
         rbind (ensure (i \<notin> list) (DuplicateIdIn (mor_id m) n i)) (\<lambda>_.
         rbind (ensure (i \<notin> all) (DuplicateIdAcross (mor_id m) i)) (\<lambda>_.
         Ok (insert i list, insert i all)))) (l, a) ids = Inr (l', a') \<longleftrightarrow>
     distinct ids \<and> set ids \<inter> (l \<union> a) = {} \<and> l' = l \<union> set ids \<and> a' = a \<union> set ids"
  by (induction ids arbitrary: l a) (auto simp: result_simps)

lemma collect_unique_ids_iff [guard_simps]:
  "collect_unique_ids m n ids a = Inr (l', a') \<longleftrightarrow>
     distinct ids \<and> set ids \<inter> a = {} \<and> l' = set ids \<and> a' = a \<union> set ids"
  by (simp add: collect_unique_ids_def collect_unique_ids_aux)

lemma collect_payload_ids_iff [guard_simps]:
  "collect_payload_ids m n ids (t, a) = Inr (t', a') \<longleftrightarrow>
     distinct ids \<and> set ids \<inter> a = {} \<and> t' = t \<union> set ids \<and> a' = a \<union> set ids"
  unfolding collect_payload_ids_def
  by (induction ids arbitrary: t a) (auto simp: result_simps)

lemma declared_ids_iff [guard_simps]:
  "validate_declared_morphism_ids m = Inr (a, u) \<longleftrightarrow>
     distinct (mor_added_ids m @ mor_updated_ids m @ mor_retired_ids m) \<and>
     a = set (mor_added_ids m) \<and> u = set (mor_updated_ids m)"
  by (auto simp: validate_declared_morphism_ids_def result_simps guard_simps)

definition payload_ids :: "morphism_payload \<Rightarrow> id list" where
  "payload_ids p = map cell_id (added_cells p) @ map rel_id (added_relations p)
     @ map cell_id (updated_cells p) @ map rel_id (updated_relations p)"

lemma payload_ids_iff [guard_simps]:
  "validate_payload_ids m p = Inr (a, u) \<longleftrightarrow>
     distinct (payload_ids p) \<and> a = set (derive_added_ids p) \<and>
     u = cell_id ` set (updated_cells p) \<union> rel_id ` set (updated_relations p)"
  by (simp add: validate_payload_ids_def result_simps guard_simps payload_ids_def
      derive_added_ids_def split_beta) blast

text \<open>What the prologue of the reducers establishes of the payload.\<close>

definition payload_matches :: "case_morphism \<Rightarrow> morphism_payload \<Rightarrow> bool" where
  "payload_matches m p \<longleftrightarrow>
     distinct (payload_ids p) \<and>
     distinct (mor_added_ids m @ mor_updated_ids m @ mor_retired_ids m) \<and>
     set (derive_added_ids p) = set (mor_added_ids m) \<and>
     cell_id ` set (updated_cells p) \<union> rel_id ` set (updated_relations p) = set (mor_updated_ids m)"

lemma checked_payload_iff:
  "checked_payload decode m = Inr p \<longleftrightarrow>
     morphism_payload_of decode m = Inr p \<and> payload_matches m p"
  by (auto simp: checked_payload_def result_simps guard_simps require_matching_ids_def
      payload_matches_def)

lemma payload_matches_retired:
  assumes "payload_matches m p"
  shows "set (mor_retired_ids m) \<inter> set (payload_ids p) = {}"
proof -
  have "set (payload_ids p) = set (mor_added_ids m) \<union> set (mor_updated_ids m)"
    using assms by (auto simp: payload_matches_def payload_ids_def derive_added_ids_def)
  with assms show ?thesis by (auto simp: payload_matches_def)
qed

section \<open>The declarative update\<close>

text \<open>
  What an accepted morphism does: added items are appended, updated items replace their namesake
  in place, retired cells stay with lifecycle retired, retired relations disappear.
\<close>

definition overlay :: "('a \<Rightarrow> id) \<Rightarrow> 'a list \<Rightarrow> 'a list \<Rightarrow> 'a list" where
  "overlay key us xs =
     map (\<lambda>x. case find (\<lambda>u. key u = key x) us of Some u \<Rightarrow> u | None \<Rightarrow> x) xs"

definition retire_cells :: "id set \<Rightarrow> case_cell list \<Rightarrow> case_cell list" where
  "retire_cells ids cells =
     map (\<lambda>c. if cell_id c \<in> ids then c\<lparr>cell_lifecycle := LcRetired\<rparr> else c) cells"

definition reduced_cells :: "case_morphism \<Rightarrow> morphism_payload \<Rightarrow> case_cell list \<Rightarrow> case_cell list" where
  "reduced_cells m p cells =
     retire_cells (set (mor_retired_ids m))
       (overlay cell_id (updated_cells p) (cells @ added_cells p))"

definition reduced_relations ::
  "case_morphism \<Rightarrow> morphism_payload \<Rightarrow> case_relation list \<Rightarrow> case_relation list" where
  "reduced_relations m p rels =
     filter (\<lambda>r. rel_id r \<notin> set (mor_retired_ids m))
       (overlay rel_id (updated_relations p) (rels @ added_relations p))"

text \<open>When it does it: the conditions, in no particular order, read off the unchanged space.\<close>

definition admissible :: "case_space \<Rightarrow> case_morphism \<Rightarrow> morphism_payload \<Rightarrow> bool" where
  "admissible cs m p \<longleftrightarrow>
     (let g = is_genesis_application cs m;
          ids = set (map cell_id (case_cells cs @ added_cells p))
      in (\<forall>c \<in> set (added_cells p). add_cell_ok m g c \<and> cell_id c \<notin> materialized_ids cs) \<and>
         (\<forall>r \<in> set (added_relations p). rel_id r \<notin> materialized_ids cs \<and>
            add_relation_ok m (case_cells cs @ added_cells p) r \<and>
            rel_from_id r \<in> ids \<and> rel_to_id r \<in> ids) \<and>
         (\<forall>u \<in> set (updated_cells p). \<exists>e \<in> set (case_cells cs).
            cell_id e = cell_id u \<and> cell_update_ok g e u) \<and>
         (\<forall>u \<in> set (updated_relations p). \<exists>e \<in> set (case_relations cs).
            relation_identity e = relation_identity u) \<and>
         (\<forall>i \<in> set (mor_retired_ids m).
            (\<exists>c \<in> set (case_cells cs). cell_id c = i \<and> retire_cell_ok g c) \<or>
            (\<exists>r \<in> set (case_relations cs). rel_id r = i)))"

text \<open>Well-formed spaces: one namespace of ids, no dangling relation.\<close>

definition wf_graph :: "case_cell list \<Rightarrow> case_relation list \<Rightarrow> bool" where
  "wf_graph cells rels \<longleftrightarrow>
     distinct (map cell_id cells @ map rel_id rels) \<and>
     (\<forall>r \<in> set rels. rel_from_id r \<in> cell_id ` set cells \<and> rel_to_id r \<in> cell_id ` set cells)"

definition wf_space :: "case_space \<Rightarrow> bool" where
  "wf_space cs \<longleftrightarrow> wf_graph (case_cells cs) (case_relations cs)"

lemma wf_graphD:
  assumes "wf_graph cells rels"
  shows "distinct (map cell_id cells)" "distinct (map rel_id rels)"
    "cell_id ` set cells \<inter> rel_id ` set rels = {}"
    "\<And>r. r \<in> set rels \<Longrightarrow> rel_from_id r \<in> cell_id ` set cells"
    "\<And>r. r \<in> set rels \<Longrightarrow> rel_to_id r \<in> cell_id ` set cells"
  using assms by (auto simp: wf_graph_def)

section \<open>Lemmas on keyed vectors\<close>

lemma overlay_Nil [simp]: "overlay key [] xs = xs"
  by (simp add: overlay_def)

lemma overlay_append: "overlay key us (xs @ ys) = overlay key us xs @ overlay key us ys"
  by (simp add: overlay_def)

lemma overlay_key [simp]: "map key (overlay key us xs) = map key xs"
  by (auto simp: overlay_def dest: find_key_SomeD split: option.splits)

lemma overlay_key_set: "key ` set (overlay key us xs) = key ` set xs"
  by (metis overlay_key set_map)

lemma overlay_fresh: "key ` set us \<inter> key ` set xs = {} \<Longrightarrow> overlay key us xs = xs"
  by (auto simp: overlay_def find_key_None intro!: map_idI split: option.splits dest!: find_key_SomeD)
    (metis disjoint_iff imageI)

lemma overlay_Cons:
  assumes "distinct (map key (u # us))" "distinct (map key xs)"
  shows "overlay key us (replace_first (\<lambda>y. key y = key u) (\<lambda>_. u) xs) = overlay key (u # us) xs"
proof -
  have "find (\<lambda>v. key v = key u) us = None"
    using assms(1) by (simp add: find_key_None)
  then show ?thesis
    unfolding replace_first_key [OF assms(2)] overlay_def by (auto split: option.splits)
qed

lemma overlay_mem:
  assumes "y \<in> set (overlay key us xs)"
  obtains "y \<in> set us" "key y \<in> key ` set xs" | "y \<in> set xs" "key y \<notin> key ` set us"
  using assms
  by (auto simp: overlay_def find_key_None split: option.splits dest!: find_key_SomeD)

lemma find_replaced:
  assumes "key u \<noteq> i"
  shows "find (\<lambda>y. key y = i) (replace_first (\<lambda>y. key y = key u) (\<lambda>_. u) xs)
    = find (\<lambda>y. key y = i) xs"
  using assms by (induction xs) auto

lemma replaced_keys [simp]:
  "map key (replace_first (\<lambda>y. key y = key u) (\<lambda>_. u) xs) = map key xs"
  by (induction xs) auto

text \<open>Updating a vector item by item, each after a check against the current namesake.\<close>

lemma fold_update:
  assumes step: "\<And>xs u ys. f xs u = Inr ys \<longleftrightarrow>
      (\<exists>e. find (\<lambda>y. key y = key u) xs = Some e \<and> ok e u) \<and>
      ys = replace_first (\<lambda>y. key y = key u) (\<lambda>_. u) xs"
    and "distinct (map key us)" "distinct (map key xs)"
  shows "fold_res f xs us = Inr ys \<longleftrightarrow>
      (\<forall>u \<in> set us. \<exists>e. find (\<lambda>y. key y = key u) xs = Some e \<and> ok e u) \<and>
      ys = overlay key us xs"
  using assms(2-)
proof (induction us arbitrary: xs)
  case Nil
  then show ?case by auto
next
  case (Cons u us)
  let ?xs = "replace_first (\<lambda>y. key y = key u) (\<lambda>_. u) xs"
  have same: "find (\<lambda>y. key y = key v) ?xs = find (\<lambda>y. key y = key v) xs"
    if "v \<in> set us" for v
    using that Cons.prems(1) by (intro find_replaced) auto
  have "fold_res f ?xs us = Inr ys \<longleftrightarrow>
      (\<forall>v \<in> set us. \<exists>e. find (\<lambda>y. key y = key v) xs = Some e \<and> ok e v) \<and>
      ys = overlay key (u # us) xs"
    using Cons same overlay_Cons [OF Cons.prems] by simp
  then show ?case by (auto simp: result_simps step)
qed

lemma find_key_iff:
  assumes "distinct (map key xs)"
  shows "find (\<lambda>y. key y = i) xs = Some e \<longleftrightarrow> e \<in> set xs \<and> key e = i"
  using find_key_distinct [OF assms] find_key_SomeD by fastforce

section \<open>The scanning reducer implements the declarative update\<close>

lemma fold_append:
  assumes step: "\<And>k xs x st. f (k, xs) x = Inr st \<longleftrightarrow>
      ok x \<and> key x \<notin> k \<and> st = (insert (key x) k, xs @ [x])"
  shows "fold_res f (k, xs) ys = Inr st \<longleftrightarrow>
      (\<forall>y \<in> set ys. ok y \<and> key y \<notin> k) \<and> distinct (map key ys) \<and>
      st = (k \<union> key ` set ys, xs @ ys)"
proof (induction ys arbitrary: k xs)
  case Nil
  then show ?case by auto
next
  case (Cons y ys)
  have "fold_res f (k, xs) (y # ys) = Inr st \<longleftrightarrow>
      ok y \<and> key y \<notin> k \<and> fold_res f (insert (key y) k, xs @ [y]) ys = Inr st"
    by (auto simp: result_simps step)
  moreover have "key y \<notin> key ` set ys \<longleftrightarrow> (\<forall>z \<in> set ys. key z \<noteq> key y)"
    by (metis imageE imageI)
  ultimately show ?case unfolding Cons.IH by auto
qed

lemma add_cell_iff:
  "add_cell m g (known, cells) c = Inr st \<longleftrightarrow>
     add_cell_ok m g c \<and> cell_id c \<notin> known \<and> st = (insert (cell_id c) known, cells @ [c])"
  by (auto simp: result_simps guard_simps add_cell_def add_cell_ok_def)

lemma add_relation_iff:
  "add_relation m cells (known, rels) r = Inr st \<longleftrightarrow>
     add_relation_ok m cells r \<and> rel_id r \<notin> known \<and> st = (insert (rel_id r) known, rels @ [r])"
  by (auto simp: result_simps guard_simps add_relation_def add_relation_ok_def)

lemmas add_cells_iff = fold_append [where key = cell_id, OF add_cell_iff]

lemmas add_relations_iff = fold_append [where key = rel_id, OF add_relation_iff]

lemma update_cell_iff:
  "update_cell m g cells u = Inr cells' \<longleftrightarrow>
     (\<exists>e. find (\<lambda>c. cell_id c = cell_id u) cells = Some e \<and> cell_update_ok g e u) \<and>
     cells' = replace_first (\<lambda>c. cell_id c = cell_id u) (\<lambda>_. u) cells"
  by (auto simp: update_cell_def result_simps guard_simps cell_update_ok_def is_capability_cell_def
      simp del: can_transition_to.simps)

lemma update_relation_iff:
  "update_relation m rels u = Inr rels' \<longleftrightarrow>
     (\<exists>e. find (\<lambda>r. rel_id r = rel_id u) rels = Some e \<and>
        relation_identity e = relation_identity u) \<and>
     rels' = replace_first (\<lambda>r. rel_id r = rel_id u) (\<lambda>_. u) rels"
  by (auto simp: update_relation_def result_simps guard_simps relation_identity_def
      dest: find_key_SomeD)

lemmas update_cells_iff = fold_update [where key = cell_id, OF update_cell_iff]

lemmas update_relations_iff = fold_update [where key = rel_id, OF update_relation_iff]

lemma retire_cells_ids [simp]: "map cell_id (retire_cells ids cells) = map cell_id cells"
  by (simp add: retire_cells_def)

lemma retire_cells_empty [simp]: "retire_cells {} cells = cells"
  by (simp add: retire_cells_def)

lemma retire_cells_insert: "retire_cells ids (retire_cells {i} cells) = retire_cells (insert i ids) cells"
  by (simp add: retire_cells_def)

lemma retire_cells_fresh: "i \<notin> cell_id ` set cells \<Longrightarrow> retire_cells (insert i ids) cells = retire_cells ids cells"
  by (auto simp: retire_cells_def)

definition retire_target_ok :: "bool \<Rightarrow> case_cell list \<Rightarrow> case_relation list \<Rightarrow> id \<Rightarrow> bool" where
  "retire_target_ok g cells rels i \<longleftrightarrow>
     (case find (\<lambda>c. cell_id c = i) cells of
        Some c \<Rightarrow> retire_cell_ok g c
      | None \<Rightarrow> i \<in> rel_id ` set rels)"

lemma retire_id_iff:
  assumes "distinct (map cell_id cells)" "distinct (map rel_id rels)"
    "cell_id ` set cells \<inter> rel_id ` set rels = {}"
  shows "retire_id m g (cells, rels) i = Inr st \<longleftrightarrow>
     retire_target_ok g cells rels i \<and>
     st = (retire_cells {i} cells, filter (\<lambda>r. rel_id r \<noteq> i) rels)"
proof (cases "find (\<lambda>c. cell_id c = i) cells")
  case None
  then have "retire_cells {i} cells = cells"
    using retire_cells_fresh [of i cells "{}"] by (simp add: find_key_None)
  with None find_key_None [of rel_id i rels] show ?thesis
    by (cases "find (\<lambda>r. rel_id r = i) rels")
      (auto simp: retire_id_def retire_target_ok_def remove_first_key assms)
next
  case (Some c)
  then have "i \<in> cell_id ` set cells" by (auto dest: find_key_SomeD)
  with assms(3) have "filter (\<lambda>r. rel_id r \<noteq> i) rels = rels"
    by (auto intro!: filter_True)
  with Some show ?thesis
    by (auto simp: retire_id_def retire_target_ok_def result_simps guard_simps retire_cell_ok_def
        replace_first_key assms retire_cells_def retire_always simp del: can_transition_to.simps)
qed

lemma find_retired:
  assumes "i \<noteq> j"
  shows "find (\<lambda>c. cell_id c = j) (retire_cells {i} cells) = find (\<lambda>c. cell_id c = j) cells"
  using assms by (induction cells) (auto simp: retire_cells_def)

lemma retire_ids_iff:
  assumes "distinct is" "distinct (map cell_id cells)" "distinct (map rel_id rels)"
    "cell_id ` set cells \<inter> rel_id ` set rels = {}"
  shows "fold_res (retire_id m g) (cells, rels) is = Inr st \<longleftrightarrow>
     (\<forall>i \<in> set is. retire_target_ok g cells rels i) \<and>
     st = (retire_cells (set is) cells, filter (\<lambda>r. rel_id r \<notin> set is) rels)"
  using assms
proof (induction "is" arbitrary: cells rels)
  case Nil
  then show ?case by auto
next
  case (Cons i "is")
  let ?cells = "retire_cells {i} cells" and ?rels = "filter (\<lambda>r. rel_id r \<noteq> i) rels"
  have target: "retire_target_ok g ?cells ?rels j = retire_target_ok g cells rels j"
    if "j \<in> set is" for j
  proof -
    from that Cons.prems(1) have "i \<noteq> j" by auto
    then show ?thesis
      by (auto simp: retire_target_ok_def find_retired split: option.splits)
  qed
  have "fold_res (retire_id m g) (?cells, ?rels) is = Inr st \<longleftrightarrow>
     (\<forall>j \<in> set is. retire_target_ok g ?cells ?rels j) \<and>
     st = (retire_cells (set is) ?cells, filter (\<lambda>r. rel_id r \<notin> set is) ?rels)"
    using Cons.prems by (intro Cons.IH) (auto simp: distinct_map retire_cells_def inj_on_def)
  with target Cons.prems show ?case
    by (auto simp: result_simps retire_id_iff retire_cells_insert)
qed

lemma find_overlay:
  assumes "i \<notin> key ` set us"
  shows "find (\<lambda>y. key y = i) (overlay key us xs) = find (\<lambda>y. key y = i) xs"
proof (induction xs)
  case Nil
  then show ?case by (simp add: overlay_def)
next
  case (Cons x xs)
  have *: "overlay key us (x # xs) = overlay key us [x] @ overlay key us xs"
    by (simp add: overlay_def)
  show ?case
  proof (cases "find (\<lambda>u. key u = key x) us")
    case None
    with Cons show ?thesis by (simp add: * overlay_def)
  next
    case (Some u)
    then have "key u = key x" "u \<in> set us" by (auto dest: find_key_SomeD)
    with assms have "key x \<noteq> i" by (metis imageI)
    with Some Cons \<open>key u = key x\<close> show ?thesis by (simp add: * overlay_def)
  qed
qed

lemma find_append_fresh:
  "i \<notin> key ` set ys \<Longrightarrow> find (\<lambda>y. key y = i) (xs @ ys) = find (\<lambda>y. key y = i) xs"
  by (induction xs) (auto simp: find_None_iff)

text \<open>Names for what holds while one accepted payload is folded into a well-formed space.\<close>

definition fresh_additions :: "case_space \<Rightarrow> morphism_payload \<Rightarrow> bool" where
  "fresh_additions cs p \<longleftrightarrow> set (derive_added_ids p) \<inter> materialized_ids cs = {}"

lemma additions_distinct:
  assumes "wf_space cs" "payload_matches m p" "fresh_additions cs p"
  shows "distinct (map cell_id (case_cells cs @ added_cells p))"
    "distinct (map rel_id (case_relations cs @ added_relations p))"
    "cell_id ` set (case_cells cs @ added_cells p) \<inter>
       rel_id ` set (case_relations cs @ added_relations p) = {}"
proof -
  note wf = wf_graphD [OF assms(1) [unfolded wf_space_def]]
  have "cell_id ` set (added_cells p) \<inter> materialized_ids cs = {}"
    "rel_id ` set (added_relations p) \<inter> materialized_ids cs = {}"
    "distinct (map cell_id (added_cells p))" "distinct (map rel_id (added_relations p))"
    "cell_id ` set (added_cells p) \<inter> rel_id ` set (added_relations p) = {}"
    using assms(2,3)
    by (auto simp: payload_matches_def payload_ids_def fresh_additions_def derive_added_ids_def)
  note new = this [unfolded materialized_ids_def set_map]
  show "distinct (map cell_id (case_cells cs @ added_cells p))"
    unfolding map_append distinct_append set_map using new(1,3) wf(1) by (simp add: Int_Un_distrib Int_commute)
  show "distinct (map rel_id (case_relations cs @ added_relations p))"
    unfolding map_append distinct_append set_map using new(2,4) wf(2) by (simp add: Int_Un_distrib Int_commute)
  show "cell_id ` set (case_cells cs @ added_cells p) \<inter>
       rel_id ` set (case_relations cs @ added_relations p) = {}"
    unfolding set_append image_Un using new(1,2,5) wf(3)
    by (simp add: Int_Un_distrib Int_Un_distrib2 Int_commute)
qed

lemma payload_disjoint:
  assumes "payload_matches m p"
  shows "distinct (map cell_id (updated_cells p))" "distinct (map rel_id (updated_relations p))"
    "cell_id ` set (updated_cells p) \<inter> cell_id ` set (added_cells p) = {}"
    "rel_id ` set (updated_relations p) \<inter> rel_id ` set (added_relations p) = {}"
    "set (mor_retired_ids m) \<inter> cell_id ` set (updated_cells p) = {}"
    "set (mor_retired_ids m) \<inter> cell_id ` set (added_cells p) = {}"
    "set (mor_retired_ids m) \<inter> rel_id ` set (updated_relations p) = {}"
    "set (mor_retired_ids m) \<inter> rel_id ` set (added_relations p) = {}"
    "distinct (mor_retired_ids m)"
    "distinct (map cell_id (added_cells p))" "distinct (map rel_id (added_relations p))"
    "cell_id ` set (added_cells p) \<inter> rel_id ` set (added_relations p) = {}"
  using assms payload_matches_retired [OF assms]
  by (auto simp: payload_matches_def payload_ids_def)

lemma updated_cell_found:
  assumes "wf_space cs" "payload_matches m p" "fresh_additions cs p" "u \<in> set (updated_cells p)"
  shows "find (\<lambda>c. cell_id c = cell_id u) (case_cells cs @ added_cells p) = Some e \<longleftrightarrow>
     e \<in> set (case_cells cs) \<and> cell_id e = cell_id u"
proof -
  have "cell_id u \<notin> cell_id ` set (added_cells p)"
    using payload_disjoint(3) [OF assms(2)] assms(4) by blast
  then show ?thesis
    using wf_graphD(1) assms(1)
    by (simp add: find_append_fresh find_key_iff wf_space_def)
qed

lemma updated_relation_found:
  assumes "wf_space cs" "payload_matches m p" "fresh_additions cs p"
    "u \<in> set (updated_relations p)"
  shows "find (\<lambda>r. rel_id r = rel_id u) (case_relations cs @ added_relations p) = Some e \<longleftrightarrow>
     e \<in> set (case_relations cs) \<and> rel_id e = rel_id u"
proof -
  have "rel_id u \<notin> rel_id ` set (added_relations p)"
    using payload_disjoint(4) [OF assms(2)] assms(4) by blast
  then show ?thesis
    using wf_graphD(2) assms(1)
    by (simp add: find_append_fresh find_key_iff wf_space_def)
qed

lemma retire_target_iff:
  assumes "wf_space cs"
  shows "retire_target_ok g (case_cells cs) (case_relations cs) i \<longleftrightarrow>
     (\<exists>c \<in> set (case_cells cs). cell_id c = i \<and> retire_cell_ok g c) \<or>
     (\<exists>r \<in> set (case_relations cs). rel_id r = i)"
proof (cases "find (\<lambda>c. cell_id c = i) (case_cells cs)")
  case None
  then have "\<forall>c \<in> set (case_cells cs). cell_id c \<noteq> i"
    by (simp add: find_None_iff)
  with None show ?thesis by (auto simp: retire_target_ok_def)
next
  case (Some c)
  note wf = wf_graphD [OF assms [unfolded wf_space_def]]
  from Some have "c \<in> set (case_cells cs)" "cell_id c = i" by (auto dest: find_key_SomeD)
  moreover from this wf(3) have "\<forall>r \<in> set (case_relations cs). rel_id r \<noteq> i"
    by (metis disjoint_iff imageI)
  moreover have "\<forall>c' \<in> set (case_cells cs). cell_id c' = i \<longrightarrow> c' = c"
    using Some by (metis find_key_iff [OF wf(1)] option.inject)
  moreover have "retire_target_ok g (case_cells cs) (case_relations cs) i = retire_cell_ok g c"
    by (simp add: retire_target_ok_def Some)
  ultimately show ?thesis by blast
qed

lemma retired_target:
  assumes "wf_space cs" "payload_matches m p" "i \<in> set (mor_retired_ids m)"
  shows "retire_target_ok g (overlay cell_id (updated_cells p) (case_cells cs @ added_cells p))
      (overlay rel_id (updated_relations p) (case_relations cs @ added_relations p)) i \<longleftrightarrow>
     (\<exists>c \<in> set (case_cells cs). cell_id c = i \<and> retire_cell_ok g c) \<or>
     (\<exists>r \<in> set (case_relations cs). rel_id r = i)"
proof -
  note d = payload_disjoint [OF assms(2)]
  have "find (\<lambda>c. cell_id c = i) (overlay cell_id (updated_cells p) (case_cells cs @ added_cells p))
      = find (\<lambda>c. cell_id c = i) (case_cells cs)"
    using d(5,6) assms(3) by (subst find_overlay, blast, subst find_append_fresh) auto
  moreover have "i \<in> rel_id ` set (overlay rel_id (updated_relations p)
      (case_relations cs @ added_relations p)) \<longleftrightarrow> i \<in> rel_id ` set (case_relations cs)"
    using d(8) assms(3) by (auto simp: overlay_key_set)
  ultimately show ?thesis
    using retire_target_iff [OF assms(1)] unfolding retire_target_ok_def by presburger
qed

lemma kept_relation_endpoints:
  assumes "wf_space cs" "payload_matches m p"
    and upd: "\<forall>u \<in> set (updated_relations p). \<exists>e \<in> set (case_relations cs).
            relation_identity e = relation_identity u"
    and sub: "cell_id ` set (case_cells cs) \<subseteq> ids"
  shows "(\<forall>r \<in> set (reduced_relations m p (case_relations cs)).
            rel_from_id r \<in> ids \<and> rel_to_id r \<in> ids) \<longleftrightarrow>
         (\<forall>r \<in> set (added_relations p). rel_from_id r \<in> ids \<and> rel_to_id r \<in> ids)"
    (is "?all \<longleftrightarrow> ?added")
proof
  note d = payload_disjoint [OF assms(2)]
  have kept: "set (added_relations p) \<subseteq> set (reduced_relations m p (case_relations cs))"
    using d(4,8) overlay_fresh [of rel_id "updated_relations p" "added_relations p"]
    by (auto simp: reduced_relations_def overlay_append)
  then show "?all \<Longrightarrow> ?added" by blast
  note wf = wf_graphD(4,5) [OF assms(1) [unfolded wf_space_def]]
  assume added: ?added
  show ?all
  proof
    fix r assume "r \<in> set (reduced_relations m p (case_relations cs))"
    then have "r \<in> set (overlay rel_id (updated_relations p)
        (case_relations cs @ added_relations p))"
      by (simp add: reduced_relations_def)
    then show "rel_from_id r \<in> ids \<and> rel_to_id r \<in> ids"
    proof (cases rule: overlay_mem)
      case 1
      with upd obtain e where "e \<in> set (case_relations cs)" "relation_identity e = relation_identity r"
        by blast
      moreover from this(1) wf sub have "rel_from_id e \<in> ids" "rel_to_id e \<in> ids" by blast+
      ultimately show ?thesis by (simp add: relation_identity_def)
    next
      case 2
      with wf sub added show ?thesis by auto
    qed
  qed
qed

text \<open>The loops of \<open>apply_morphism\<close> after its prologue.\<close>

lemma admissible_fresh: "admissible cs m p \<Longrightarrow> fresh_additions cs p"
  by (auto simp: admissible_def Let_def fresh_additions_def derive_added_ids_def)

lemma scan_updates_iff:
  assumes "wf_space cs" "payload_matches m p" "fresh_additions cs p"
  shows "fold_res (update_cell m g) (case_cells cs @ added_cells p) (updated_cells p) = Inr cells \<longleftrightarrow>
      (\<forall>u \<in> set (updated_cells p). \<exists>e \<in> set (case_cells cs).
          cell_id e = cell_id u \<and> cell_update_ok g e u) \<and>
      cells = overlay cell_id (updated_cells p) (case_cells cs @ added_cells p)"
    "fold_res (update_relation m) (case_relations cs @ added_relations p)
       (updated_relations p) = Inr rels \<longleftrightarrow>
      (\<forall>u \<in> set (updated_relations p). \<exists>e \<in> set (case_relations cs).
          relation_identity e = relation_identity u) \<and>
      rels = overlay rel_id (updated_relations p) (case_relations cs @ added_relations p)"
proof -
  note d = payload_disjoint [OF assms(2)]
  note a = additions_distinct [OF assms]
  show "fold_res (update_cell m g) (case_cells cs @ added_cells p) (updated_cells p) = Inr cells \<longleftrightarrow>
      (\<forall>u \<in> set (updated_cells p). \<exists>e \<in> set (case_cells cs).
          cell_id e = cell_id u \<and> cell_update_ok g e u) \<and>
      cells = overlay cell_id (updated_cells p) (case_cells cs @ added_cells p)"
    unfolding update_cells_iff [OF d(1) a(1)]
    by (simp add: updated_cell_found [OF assms] Bex_def conj_assoc)
  have "(\<exists>e. find (\<lambda>r. rel_id r = rel_id u) (case_relations cs @ added_relations p) = Some e \<and>
        relation_identity e = relation_identity u) \<longleftrightarrow>
      (\<exists>e \<in> set (case_relations cs). relation_identity e = relation_identity u)"
    if "u \<in> set (updated_relations p)" for u
    using updated_relation_found [OF assms that] by (auto simp: relation_identity_def)
  then show "fold_res (update_relation m) (case_relations cs @ added_relations p)
       (updated_relations p) = Inr rels \<longleftrightarrow>
      (\<forall>u \<in> set (updated_relations p). \<exists>e \<in> set (case_relations cs).
          relation_identity e = relation_identity u) \<and>
      rels = overlay rel_id (updated_relations p) (case_relations cs @ added_relations p)"
    unfolding update_relations_iff [OF d(2) a(2)] by simp
qed

lemma scan_retire_iff:
  assumes "wf_space cs" "payload_matches m p" "fresh_additions cs p"
  shows "fold_res (retire_id m g)
       (overlay cell_id (updated_cells p) (case_cells cs @ added_cells p),
        overlay rel_id (updated_relations p) (case_relations cs @ added_relations p))
       (mor_retired_ids m) = Inr st \<longleftrightarrow>
      (\<forall>i \<in> set (mor_retired_ids m).
          (\<exists>c \<in> set (case_cells cs). cell_id c = i \<and> retire_cell_ok g c) \<or>
          (\<exists>r \<in> set (case_relations cs). rel_id r = i)) \<and>
      st = (reduced_cells m p (case_cells cs), reduced_relations m p (case_relations cs))"
proof -
  note a = additions_distinct [OF assms]
  have *: "distinct (map cell_id (overlay cell_id (updated_cells p) (case_cells cs @ added_cells p)))"
    "distinct (map rel_id (overlay rel_id (updated_relations p)
       (case_relations cs @ added_relations p)))"
    "cell_id ` set (overlay cell_id (updated_cells p) (case_cells cs @ added_cells p)) \<inter>
     rel_id ` set (overlay rel_id (updated_relations p)
       (case_relations cs @ added_relations p)) = {}"
    using a unfolding overlay_key overlay_key_set by blast+
  show ?thesis
    unfolding retire_ids_iff [OF payload_disjoint(9) [OF assms(2)] *]
    by (simp add: retired_target [OF assms(1,2)] reduced_cells_def reduced_relations_def)
qed

lemma reduced_cells_ids [simp]:
  "map cell_id (reduced_cells m p cells) = map cell_id (cells @ added_cells p)"
  by (simp add: reduced_cells_def)

lemma reduced_cells_id_set [simp]:
  "cell_id ` set (reduced_cells m p cells) = cell_id ` set (cells @ added_cells p)"
  by (metis reduced_cells_ids set_map)

definition reduced_space :: "case_morphism \<Rightarrow> morphism_payload \<Rightarrow> case_space \<Rightarrow> case_space" where
  "reduced_space m p cs =
     cs\<lparr>case_cells := reduced_cells m p (case_cells cs),
        case_relations := reduced_relations m p (case_relations cs)\<rparr>"

lemma scan_additions_iff:
  assumes "payload_matches m p"
  shows "(\<exists>known. fold_res (add_cell m g) (materialized_ids cs, case_cells cs) (added_cells p)
             = Inr (known, cells) \<and>
           (\<exists>known'. fold_res (add_relation m cells) (known, case_relations cs) (added_relations p)
             = Inr (known', rels))) \<longleftrightarrow>
     (\<forall>c \<in> set (added_cells p). add_cell_ok m g c) \<and>
     (\<forall>r \<in> set (added_relations p). add_relation_ok m (case_cells cs @ added_cells p) r) \<and>
     fresh_additions cs p \<and>
     cells = case_cells cs @ added_cells p \<and> rels = case_relations cs @ added_relations p"
proof -
  note d = payload_disjoint(10-12) [OF assms]
  have "(\<forall>r \<in> set (added_relations p). rel_id r \<notin> materialized_ids cs \<union> cell_id ` set (added_cells p))
      \<longleftrightarrow> (\<forall>r \<in> set (added_relations p). rel_id r \<notin> materialized_ids cs)"
    using d(3) by blast
  then show ?thesis
    unfolding add_cells_iff add_relations_iff
    using d(1,2) by (auto simp: fresh_additions_def derive_added_ids_def)
qed

lemma scan_rest_iff:
  assumes "wf_space cs" "payload_matches m p" "fresh_additions cs p"
  shows "(\<exists>cells2 rels2.
         fold_res (update_cell m g) (case_cells cs @ added_cells p) (updated_cells p) = Inr cells2 \<and>
         fold_res (update_relation m) (case_relations cs @ added_relations p)
           (updated_relations p) = Inr rels2 \<and>
         (\<exists>cells3 rels3. fold_res (retire_id m g) (cells2, rels2) (mor_retired_ids m)
             = Inr (cells3, rels3) \<and>
           (\<forall>r \<in> set rels3. require_endpoints m (set (map cell_id cells3)) r = Inr ()) \<and>
           cs' = cs\<lparr>case_cells := cells3, case_relations := rels3\<rparr>)) \<longleftrightarrow>
     (\<forall>u \<in> set (updated_cells p). \<exists>e \<in> set (case_cells cs).
          cell_id e = cell_id u \<and> cell_update_ok g e u) \<and>
     (\<forall>u \<in> set (updated_relations p). \<exists>e \<in> set (case_relations cs).
          relation_identity e = relation_identity u) \<and>
     (\<forall>i \<in> set (mor_retired_ids m).
          (\<exists>c \<in> set (case_cells cs). cell_id c = i \<and> retire_cell_ok g c) \<or>
          (\<exists>r \<in> set (case_relations cs). rel_id r = i)) \<and>
     (\<forall>r \<in> set (added_relations p).
          rel_from_id r \<in> set (map cell_id (case_cells cs @ added_cells p)) \<and>
          rel_to_id r \<in> set (map cell_id (case_cells cs @ added_cells p))) \<and>
     cs' = reduced_space m p cs"
    (is "_ \<longleftrightarrow> ?cells \<and> ?rels \<and> ?retire \<and> ?ends \<and> _")
proof -
  have sub: "cell_id ` set (case_cells cs) \<subseteq> set (map cell_id (case_cells cs @ added_cells p))"
    by auto
  let ?all = "\<forall>r \<in> set (reduced_relations m p (case_relations cs)).
          rel_from_id r \<in> set (map cell_id (case_cells cs @ added_cells p)) \<and>
          rel_to_id r \<in> set (map cell_id (case_cells cs @ added_cells p))"
  have "(\<exists>cells2 rels2.
         fold_res (update_cell m g) (case_cells cs @ added_cells p) (updated_cells p) = Inr cells2 \<and>
         fold_res (update_relation m) (case_relations cs @ added_relations p)
           (updated_relations p) = Inr rels2 \<and>
         (\<exists>cells3 rels3. fold_res (retire_id m g) (cells2, rels2) (mor_retired_ids m)
             = Inr (cells3, rels3) \<and>
           (\<forall>r \<in> set rels3. require_endpoints m (set (map cell_id cells3)) r = Inr ()) \<and>
           cs' = cs\<lparr>case_cells := cells3, case_relations := rels3\<rparr>)) \<longleftrightarrow>
     ?cells \<and> ?rels \<and> ?retire \<and> ?all \<and> cs' = reduced_space m p cs"
    unfolding scan_updates_iff [OF assms] reduced_space_def require_endpoints_iff
    by (simp add: scan_retire_iff [OF assms] image_Un)
  with kept_relation_endpoints [OF assms(1,2) _ sub] show ?thesis by blast
qed

lemma apply_morphism_iff:
  assumes wf: "wf_space cs"
  shows "apply_morphism decode cs m = Inr cs' \<longleftrightarrow>
     (\<exists>p. checked_payload decode m = Inr p \<and> admissible cs m p \<and> cs' = reduced_space m p cs)"
    (is "?lhs \<longleftrightarrow> ?rhs")
proof -
  let ?g = "is_genesis_application cs m"
  let ?add = "\<lambda>p cells rels. \<exists>known.
      fold_res (add_cell m ?g) (materialized_ids cs, case_cells cs) (added_cells p)
        = Inr (known, cells) \<and>
      (\<exists>known'. fold_res (add_relation m cells) (known, case_relations cs) (added_relations p)
        = Inr (known', rels))"
  let ?rest = "\<lambda>p cells rels. \<exists>cells2 rels2.
      fold_res (update_cell m ?g) cells (updated_cells p) = Inr cells2 \<and>
      fold_res (update_relation m) rels (updated_relations p) = Inr rels2 \<and>
      (\<exists>cells3 rels3. fold_res (retire_id m ?g) (cells2, rels2) (mor_retired_ids m)
          = Inr (cells3, rels3) \<and>
        (\<forall>r \<in> set rels3. require_endpoints m (set (map cell_id cells3)) r = Inr ()) \<and>
        cs' = cs\<lparr>case_cells := cells3, case_relations := rels3\<rparr>)"
  have body: "?lhs \<longleftrightarrow> (\<exists>p. checked_payload decode m = Inr p \<and>
      (\<exists>cells rels. ?add p cells rels \<and> ?rest p cells rels))"
    unfolding apply_morphism_def Let_def
    by (simp only: result_simps each_res_eq_Inr split_paired_Ex prod.case sum.inject)
      (intro iffI; elim exE conjE; (intro exI conjI, assumption+, erule sym))
  have loops: "(\<exists>cells rels. ?add p cells rels \<and> ?rest p cells rels) \<longleftrightarrow>
      admissible cs m p \<and> cs' = reduced_space m p cs"
    if p: "payload_matches m p" for p
  proof (cases "fresh_additions cs p")
    case False
    then have "\<not> admissible cs m p" using admissible_fresh by blast
    with False show ?thesis by (simp only: scan_additions_iff [OF p] simp_thms)
  next
    case True
    then have "(\<forall>c \<in> set (added_cells p). cell_id c \<notin> materialized_ids cs)"
      "(\<forall>r \<in> set (added_relations p). rel_id r \<notin> materialized_ids cs)"
      by (auto simp: fresh_additions_def derive_added_ids_def)
    with True have "admissible cs m p \<and> cs' = reduced_space m p cs \<longleftrightarrow>
        (\<forall>c \<in> set (added_cells p). add_cell_ok m ?g c) \<and>
        (\<forall>r \<in> set (added_relations p). add_relation_ok m (case_cells cs @ added_cells p) r) \<and>
        ?rest p (case_cells cs @ added_cells p) (case_relations cs @ added_relations p)"
      unfolding scan_rest_iff [OF wf p True] admissible_def Let_def ball_conj_distrib
      by satx
    with True show ?thesis
      by (simp only: scan_additions_iff [OF p] simp_thms conj_assoc ex_simps)
  qed
  show ?thesis
    unfolding body by (intro iff_exI conj_cong refl loops) (simp only: checked_payload_iff)
qed

end
