(* ===== verification/Native_Reducer_Indexed.thy ===== *)
theory Native_Reducer_Indexed
  imports Native_Reducer_Correct
begin

text \<open>
  The indexed reducer of \<open>Native_Reducer\<close> implements the declarative update of
  \<open>Native_Reducer_Correct\<close> and keeps its index coherent, so it agrees with the scanning reducer.
\<close>

section \<open>Position indexes\<close>

text \<open>What the indexed reducer relies on of a map from ids to positions.\<close>

locale position_index =
  fixes build :: "'x list \<Rightarrow> 'i"
    and look :: "'i \<Rightarrow> id \<Rightarrow> nat option"
    and key :: "'x \<Rightarrow> id"
  assumes look_build: "distinct (map key xs) \<Longrightarrow>
      look (build xs) i = Some p \<longleftrightarrow> p < length xs \<and> key (xs ! p) = i"
    and build_cong: "map key xs = map key ys \<Longrightarrow> build xs = build ys"
begin

lemma look_find:
  assumes "distinct (map key xs)"
  shows "find (\<lambda>x. key x = i) xs = map_option ((!) xs) (look (build xs) i)"
proof (cases "look (build xs) i")
  case None
  have "key x \<noteq> i" if "x \<in> set xs" for x
    using that look_build [OF assms, of i] None by (metis in_set_conv_nth option.distinct(1))
  with None show ?thesis by (simp add: find_None_iff)
next
  case (Some p)
  with look_build [OF assms] have "p < length xs" "key (xs ! p) = i" by auto
  with Some assms show ?thesis by (simp add: find_key_iff)
qed

lemma look_mem:
  assumes "distinct (map key xs)"
  shows "look (build xs) i \<noteq> None \<longleftrightarrow> i \<in> key ` set xs"
  using look_find [OF assms, of i] find_key_None [of key i xs] by (cases "look (build xs) i") auto

lemma store_at:
  assumes "distinct (map key xs)" "look (build xs) i = Some p"
  shows "xs[p := f (xs ! p)] = replace_first (\<lambda>x. key x = i) f xs"
proof (rule nth_equalityI)
  show "length (xs[p := f (xs ! p)]) = length (replace_first (\<lambda>x. key x = i) f xs)"
    by (simp add: replace_first_key [OF assms(1)])
  fix q assume "q < length (xs[p := f (xs ! p)])"
  moreover have "key (xs ! q) = i \<longleftrightarrow> q = p" if "q < length xs"
    using that look_build [OF assms(1)] assms(2) by (metis option.inject)
  ultimately show "xs[p := f (xs ! p)] ! q = replace_first (\<lambda>x. key x = i) f xs ! q"
    by (simp add: replace_first_key [OF assms(1)] nth_list_update)
qed

end

lemma positions_Nil [simp]: "positions key [] = fmempty"
  by (simp add: positions_def)

lemma positions_snoc [simp]:
  "positions key (xs @ [x]) = fmupd (key x) (length xs) (positions key xs)"
  by (simp add: positions_def enumerate_append_eq)

lemma positions_map: "positions key xs = positions (\<lambda>x. x) (map key xs)"
  by (induction xs rule: rev_induct) simp_all

lemma positions_lookup:
  assumes "distinct (map key xs)"
  shows "fmlookup (positions key xs) i = Some p \<longleftrightarrow> p < length xs \<and> key (xs ! p) = i"
  using assms
proof (induction xs rule: rev_induct)
  case Nil
  then show ?case by simp
next
  case (snoc x xs)
  then have "\<forall>q < length xs. key (xs ! q) \<noteq> key x" by (metis distinct_append in_set_conv_nth
        length_map list.set_intros(1) list.simps(9) map_append nth_map not_distinct_conv_prefix)
  with snoc show ?case by (auto simp: nth_append less_Suc_eq)
qed

interpretation cell_index: position_index "positions cell_id" fmlookup cell_id
  by unfold_locales (auto simp: positions_lookup positions_map [of cell_id])

interpretation relation_index: position_index "positions rel_id" fmlookup rel_id
  by unfold_locales (auto simp: positions_lookup positions_map [of rel_id])

section \<open>Removing positions\<close>

lemma nths_cong_index:
  "(\<And>i. i < length xs \<Longrightarrow> i \<in> A \<longleftrightarrow> i \<in> B) \<Longrightarrow> nths xs A = nths xs B"
  unfolding nths_def by (intro arg_cong [where f = "map fst"] filter_cong) (auto simp: set_zip)

lemma remove_at_nths:
  assumes "q < length xs" "\<forall>i \<in> Q. q < i"
  shows "remove_at q (nths xs (- Q)) = nths xs (- insert q Q)" "q < length (nths xs (- Q))"
proof -
  let ?a = "take q xs" and ?b = "drop (Suc q) xs"
  let ?t = "nths ?b {j. j + Suc q \<in> - Q}"
  have xs: "xs = ?a @ [xs ! q] @ ?b" using assms(1) by (simp add: id_take_nth_drop [symmetric])
  have len: "length ?a = q" using assms(1) by simp
  have a: "nths ?a (- Q) = ?a" "nths ?a (- insert q Q) = ?a"
    using assms by (auto intro!: nths_all)
  have "nths xs (- Q) = ?a @ [xs ! q] @ ?t"
    using assms(2) a(1) len by (subst xs, simp only: nths_append) (auto simp: nths_Cons)
  moreover have "nths xs (- insert q Q) = ?a @ ?t"
    using assms(2) a(2) len by (subst xs, simp only: nths_append) (auto simp: nths_Cons)
  ultimately show "remove_at q (nths xs (- Q)) = nths xs (- insert q Q)"
    "q < length (nths xs (- Q))"
    using len by (simp_all add: remove_at_def)
qed

lemma remove_positions_sorted:
  assumes "sorted qs" "distinct qs" "\<forall>q \<in> set qs. q < length xs"
  shows "fold_res (\<lambda>xs p. if p < length xs then Ok (remove_at p xs) else Err IndexOutOfBounds)
       xs (rev qs) = Inr (nths xs (- set qs))"
  using assms
proof (induction qs)
  case Nil
  then show ?case by (simp add: nths_all)
next
  case (Cons q qs)
  then have "\<forall>i \<in> set qs. q < i" by (auto simp: le_less)
  with Cons remove_at_nths [of q xs "set qs"] show ?case
    by (simp add: fold_res_append)
qed

lemma remove_positions_filter:
  assumes "distinct ps" "\<And>p. p \<in> set ps \<longleftrightarrow> p < length xs \<and> \<not> P (xs ! p)"
  shows "remove_positions ps xs = Inr (filter P xs)"
proof -
  have "remove_positions ps xs = Inr (nths xs (- set ps))"
    using remove_positions_sorted [of "sort ps" xs] assms by (simp add: remove_positions_def)
  also have "nths xs (- set ps) = filter P xs"
    unfolding filter_eq_nths using assms(2) by (intro nths_cong_index) auto
  finally show ?thesis .
qed

section \<open>The mutating loops\<close>

lemma push_cells:
  "fold (\<lambda>cell st. push_cell st cell) cells
     (cs, index\<lparr>cell_positions := positions cell_id (case_cells cs)\<rparr>) =
   (cs\<lparr>case_cells := case_cells cs @ cells\<rparr>,
    index\<lparr>cell_positions := positions cell_id (case_cells cs @ cells)\<rparr>)"
proof (induction cells arbitrary: cs)
  case Nil
  then show ?case by simp
next
  case (Cons c cells)
  from Cons [of "cs\<lparr>case_cells := case_cells cs @ [c]\<rparr>"] show ?case
    by (simp add: push_cell_def)
qed

lemma push_relations:
  "fold (\<lambda>relation st. push_relation st relation) rels
     (cs, index\<lparr>relation_positions := positions rel_id (case_relations cs)\<rparr>) =
   (cs\<lparr>case_relations := case_relations cs @ rels\<rparr>,
    index\<lparr>relation_positions := positions rel_id (case_relations cs @ rels)\<rparr>)"
proof (induction rels arbitrary: cs)
  case Nil
  then show ?case by simp
next
  case (Cons r rels)
  from Cons [of "cs\<lparr>case_relations := case_relations cs @ [r]\<rparr>"] show ?case
    by (simp add: push_relation_def)
qed

lemma push_all:
  "fold (\<lambda>relation st. push_relation st relation) rels
     (fold (\<lambda>cell st. push_cell st cell) cells (cs, index_new cs)) =
   (let cs' = cs\<lparr>case_cells := case_cells cs @ cells, case_relations := case_relations cs @ rels\<rparr>
    in (cs', index_new cs'))"
  using push_cells [of cells cs "index_new cs"]
    push_relations [of rels "cs\<lparr>case_cells := case_cells cs @ cells\<rparr>"
      "index_new (cs\<lparr>case_cells := case_cells cs @ cells\<rparr>)"]
  by (simp add: index_new_def Let_def)

lemma set_at_cell:
  assumes "distinct (map cell_id cells)" "i \<in> cell_id ` set cells"
  shows "set_at (positions cell_id cells) i f cells =
     Inr (replace_first (\<lambda>c. cell_id c = i) f cells)"
proof -
  from assms cell_index.look_mem obtain p where p: "fmlookup (positions cell_id cells) i = Some p"
    by blast
  with cell_index.look_build [OF assms(1)] have "p < length cells" by blast
  with p cell_index.store_at [OF assms(1) p, of f] show ?thesis
    by (simp add: set_at_def at_position_def nth_opt_def)
qed

lemma store_cells_overlay:
  assumes "distinct (map cell_id cells)" "distinct (map cell_id us)"
    "cell_id ` set us \<subseteq> cell_id ` set cells"
  shows "store_cells (positions cell_id cells) cells us = (overlay cell_id us cells, Ok ())"
  using assms
proof (induction us arbitrary: cells)
  case Nil
  then show ?case by simp
next
  case (Cons u us)
  let ?cells = "replace_first (\<lambda>c. cell_id c = cell_id u) (\<lambda>_. u) cells"
  have keys: "map cell_id ?cells = map cell_id cells" by simp
  then have "store_cells (positions cell_id ?cells) ?cells us = (overlay cell_id us ?cells, Ok ())"
    using Cons.prems by (intro Cons.IH) (auto simp flip: set_map)
  with Cons.prems keys overlay_Cons [OF Cons.prems(2,1)] show ?case
    by (simp add: set_at_cell cell_index.build_cong [OF keys])
qed

lemma store_relations_step:
  assumes "distinct (map rel_id rels)"
  shows "rbind (ok_or (fmlookup (positions rel_id rels) (rel_id u)) IndexOutOfBounds) (\<lambda>p.
           rbind (at_position rels p) (\<lambda>existing.
           rbind (require_immutable_relation_update_fields m existing u) (\<lambda>_.
           Ok (rels[p := u])))) = Inr rels' \<longleftrightarrow> update_relation m rels u = Inr rels'"
proof (cases "fmlookup (positions rel_id rels) (rel_id u)")
  case None
  with relation_index.look_find [OF assms, of "rel_id u"] show ?thesis
    by (simp add: update_relation_def)
next
  case (Some p)
  with relation_index.look_build [OF assms] have "p < length rels" by blast
  with Some relation_index.look_find [OF assms, of "rel_id u"]
    relation_index.store_at [OF assms Some, of "\<lambda>_. u"] show ?thesis
    by (simp add: update_relation_def at_position_def nth_opt_def)
qed

lemma store_relations_fold:
  assumes "distinct (map rel_id rels)"
  shows "(store_relations m (positions rel_id rels) rels us = (rels', Ok ()) \<longleftrightarrow>
     fold_res (update_relation m) rels us = Inr rels') \<and>
    (snd (store_relations m (positions rel_id rels) rels us) = Ok () \<longleftrightarrow>
     is_ok (fold_res (update_relation m) rels us))"
  using assms
proof (induction us arbitrary: rels)
  case Nil
  then show ?case by auto
next
  case (Cons u us)
  note step = store_relations_step [OF Cons.prems, of u m]
  show ?case
  proof (cases "update_relation m rels u")
    case (Inl e)
    with step have "\<nexists>x. rbind (ok_or (fmlookup (positions rel_id rels) (rel_id u)) IndexOutOfBounds) (\<lambda>p.
           rbind (at_position rels p) (\<lambda>existing.
           rbind (require_immutable_relation_update_fields m existing u) (\<lambda>_.
           Ok (rels[p := u])))) = Inr x" by simp
    with Inl show ?thesis by (auto split: sum.splits)
  next
    case (Inr rels2)
    then have keys: "map rel_id rels2 = map rel_id rels" by (auto simp: update_relation_iff)
    with Cons have "(store_relations m (positions rel_id rels2) rels2 us = (rels', Ok ()) \<longleftrightarrow>
         fold_res (update_relation m) rels2 us = Inr rels') \<and>
        (snd (store_relations m (positions rel_id rels2) rels2 us) = Ok () \<longleftrightarrow>
         is_ok (fold_res (update_relation m) rels2 us))" by simp
    moreover from step Inr have "rbind (ok_or (fmlookup (positions rel_id rels) (rel_id u)) IndexOutOfBounds) (\<lambda>p.
           rbind (at_position rels p) (\<lambda>existing.
           rbind (require_immutable_relation_update_fields m existing u) (\<lambda>_.
           Ok (rels[p := u])))) = Inr rels2" by simp
    ultimately show ?thesis using Inr by (simp add: relation_index.build_cong [OF keys])
  qed
qed

lemma retire_indexed_loop:
  assumes "distinct (map cell_id cells)"
    "set is \<subseteq> cell_id ` set cells \<union> rel_id ` set rels" "distinct (map rel_id rels)"
    "cell_positions index = positions cell_id cells"
    "relation_positions index = positions rel_id rels"
  shows "retire_indexed index cells acc is =
     (retire_cells (set is) cells,
      Ok (acc @ map (\<lambda>i. the (fmlookup (positions rel_id rels) i))
                  (filter (\<lambda>i. i \<notin> cell_id ` set cells) is)))"
  using assms
proof (induction "is" arbitrary: cells acc)
  case Nil
  then show ?case by simp
next
  case (Cons i "is")
  show ?case
  proof (cases "i \<in> cell_id ` set cells")
    case True
    then obtain p where "fmlookup (positions cell_id cells) i = Some p"
      using cell_index.look_mem [OF Cons.prems(1)] by blast
    moreover have "set_at (positions cell_id cells) i (\<lambda>c. c\<lparr>cell_lifecycle := LcRetired\<rparr>) cells
        = Inr (retire_cells {i} cells)"
      using set_at_cell [OF Cons.prems(1) True]
      by (simp add: replace_first_key [OF Cons.prems(1)] retire_cells_def)
    moreover have "retire_indexed index (retire_cells {i} cells) acc is =
       (retire_cells (set is) (retire_cells {i} cells),
        Ok (acc @ map (\<lambda>i. the (fmlookup (positions rel_id rels) i))
          (filter (\<lambda>j. j \<notin> cell_id ` set (retire_cells {i} cells)) is)))"
      using Cons.prems cell_index.build_cong [OF retire_cells_ids] by (intro Cons.IH) (auto simp flip: set_map)
    ultimately show ?thesis
      using True Cons.prems(4) by (simp add: retire_cells_insert flip: set_map)
  next
    case False
    then have "fmlookup (positions cell_id cells) i = None"
      using cell_index.look_mem [OF Cons.prems(1)] by blast
    moreover from False Cons.prems(2) obtain p where "fmlookup (positions rel_id rels) i = Some p"
      using relation_index.look_mem [OF Cons.prems(3)] by fastforce
    ultimately show ?thesis
      using False Cons.prems by (simp add: Cons.IH retire_cells_fresh)
  qed
qed

lemma removed_relations:
  assumes "distinct is" "distinct (map rel_id rels)"
    "set is \<subseteq> ids \<union> rel_id ` set rels" "ids \<inter> rel_id ` set rels = {}"
    and ps: "ps = map (\<lambda>i. the (fmlookup (positions rel_id rels) i)) (filter (\<lambda>i. i \<notin> ids) is)"
  shows "remove_positions ps rels = Inr (filter (\<lambda>r. rel_id r \<notin> set is) rels)"
proof (rule remove_positions_filter)
  note look = relation_index.look_build [OF assms(2)]
  have ex: "\<exists>p. fmlookup (positions rel_id rels) i = Some p" if "i \<in> set is" "i \<notin> ids" for i
    using that assms(3) relation_index.look_mem [OF assms(2)] by blast
  show "distinct ps"
    unfolding ps distinct_map using assms(1)
    by (auto intro!: inj_onI) (metis ex look option.sel)
  fix p
  show "p \<in> set ps \<longleftrightarrow> p < length rels \<and> \<not> rel_id (rels ! p) \<notin> set is"
  proof
    assume "p \<in> set ps"
    then obtain i where "i \<in> set is" "i \<notin> ids" "p = the (fmlookup (positions rel_id rels) i)"
      by (auto simp: ps)
    with ex look show "p < length rels \<and> \<not> rel_id (rels ! p) \<notin> set is"
      by (metis option.sel)
  next
    assume p: "p < length rels \<and> \<not> rel_id (rels ! p) \<notin> set is"
    with look have "fmlookup (positions rel_id rels) (rel_id (rels ! p)) = Some p" by blast
    moreover have "rel_id (rels ! p) \<notin> ids" using p assms(4) by (metis disjoint_iff imageI nth_mem)
    ultimately show "p \<in> set ps" using p by (force simp: ps intro: rev_image_eqI)
  qed
qed

section \<open>The validating loops\<close>

text \<open>What the loops before the first mutation check, without the identity of updated relations.\<close>

definition indexed_admissible :: "case_space \<Rightarrow> case_morphism \<Rightarrow> morphism_payload \<Rightarrow> bool" where
  "indexed_admissible cs m p \<longleftrightarrow>
     (let g = is_genesis_application cs m;
          ids = set (map cell_id (case_cells cs @ added_cells p))
      in (\<forall>c \<in> set (added_cells p). add_cell_ok m g c \<and> cell_id c \<notin> materialized_ids cs) \<and>
         (\<forall>r \<in> set (added_relations p). rel_id r \<notin> materialized_ids cs \<and>
            add_relation_ok m (case_cells cs @ added_cells p) r \<and>
            rel_from_id r \<in> ids \<and> rel_to_id r \<in> ids) \<and>
         (\<forall>u \<in> set (updated_cells p). \<exists>e \<in> set (case_cells cs).
            cell_id e = cell_id u \<and> cell_update_ok g e u) \<and>
         (\<forall>u \<in> set (updated_relations p).
            rel_id u \<in> rel_id ` set (case_relations cs) \<and> rel_from_id u \<in> ids \<and> rel_to_id u \<in> ids) \<and>
         (\<forall>i \<in> set (mor_retired_ids m).
            (\<exists>c \<in> set (case_cells cs). cell_id c = i \<and> retire_cell_ok g c) \<or>
            (\<exists>r \<in> set (case_relations cs). rel_id r = i)))"

lemma index_contains_new:
  assumes "wf_space cs"
  shows "index_contains (index_new cs) i \<longleftrightarrow> i \<in> materialized_ids cs"
  using cell_index.look_mem [OF wf_graphD(1), of "case_cells cs" "case_relations cs" i]
    relation_index.look_mem [OF wf_graphD(2), of "case_cells cs" "case_relations cs" i] assms
  by (simp add: index_contains_def index_new_def materialized_ids_def wf_space_def)

lemma cell_at_position:
  assumes "distinct (map cell_id cells)"
  shows "fmlookup (positions cell_id cells) i = Some p \<Longrightarrow>
     at_position cells p = Inr (cells ! p) \<and> cells ! p \<in> set cells \<and> cell_id (cells ! p) = i"
  using cell_index.look_build [OF assms] by (auto simp: at_position_def nth_opt_def)

lemma check_added_cell_iff:
  assumes "wf_space cs"
  shows "check_added_cell m g (index_new cs) c = Inr () \<longleftrightarrow>
     add_cell_ok m g c \<and> cell_id c \<notin> materialized_ids cs"
  by (auto simp: check_added_cell_def result_simps guard_simps add_cell_ok_def
      index_contains_new [OF assms])

lemma is_artifact_indexed:
  assumes "wf_space cs" "cell_id ` set added \<inter> cell_id ` set (case_cells cs) = {}"
  shows "is_artifact_cell_id_indexed i cs (index_new cs) added =
     Inr (is_artifact_cell_id i (case_cells cs @ added))"
proof -
  have d: "distinct (map cell_id (case_cells cs))"
    using assms(1) by (auto simp: wf_space_def dest: wf_graphD)
  show ?thesis
  proof (cases "fmlookup (positions cell_id (case_cells cs)) i")
    case None
    with cell_index.look_mem [OF d] have "i \<notin> cell_id ` set (case_cells cs)" by blast
    with None show ?thesis
      by (auto simp: is_artifact_cell_id_indexed_def index_new_def is_artifact_cell_id_def list_ex_iff)
  next
    case (Some p)
    note at = cell_at_position [OF d Some]
    with d have "\<forall>c \<in> set (case_cells cs). cell_id c = i \<longrightarrow> c = case_cells cs ! p"
      by (auto simp: distinct_map inj_on_def)
    moreover have "\<forall>c \<in> set added. cell_id c \<noteq> i"
      using at assms(2) by (metis disjoint_iff imageI)
    ultimately have "is_artifact_cell_id i (case_cells cs @ added) =
        is_artifact_cell (case_cells cs ! p)"
      using at by (auto simp: is_artifact_cell_id_def list_ex_iff)
    with at Some show ?thesis
      by (simp add: is_artifact_cell_id_indexed_def index_new_def)
  qed
qed

lemma check_updated_cell_iff:
  assumes "wf_space cs"
  shows "check_updated_cell m g cs (index_new cs) u = Inr () \<longleftrightarrow>
     (\<exists>e \<in> set (case_cells cs). cell_id e = cell_id u \<and> cell_update_ok g e u)"
proof -
  have d: "distinct (map cell_id (case_cells cs))"
    using assms by (auto simp: wf_space_def dest: wf_graphD)
  have "check_updated_cell m g cs (index_new cs) u = Inr () \<longleftrightarrow>
      (\<exists>cells'. update_cell m g (case_cells cs) u = Inr cells')"
  proof (cases "fmlookup (positions cell_id (case_cells cs)) (cell_id u)")
    case None
    with cell_index.look_find [OF d, of "cell_id u"] show ?thesis
      by (simp add: check_updated_cell_def update_cell_def index_new_def)
  next
    case (Some p)
    with cell_index.look_find [OF d, of "cell_id u"] cell_at_position [OF d Some] show ?thesis
      by (simp add: check_updated_cell_def update_cell_def index_new_def result_simps)
  qed
  then show ?thesis by (auto simp: update_cell_iff find_key_iff [OF d])
qed

lemma check_retired_id_iff:
  assumes "wf_space cs"
  shows "check_retired_id m g cs (index_new cs) i = Inr () \<longleftrightarrow>
     (\<exists>c \<in> set (case_cells cs). cell_id c = i \<and> retire_cell_ok g c) \<or>
     (\<exists>r \<in> set (case_relations cs). rel_id r = i)"
proof -
  note wf = wf_graphD [OF assms [unfolded wf_space_def]]
  have "check_retired_id m g cs (index_new cs) i = Inr () \<longleftrightarrow>
      retire_target_ok g (case_cells cs) (case_relations cs) i"
  proof (cases "fmlookup (positions cell_id (case_cells cs)) i")
    case None
    with cell_index.look_find [OF wf(1), of i] relation_index.look_mem [OF wf(2), of i] show ?thesis
      by (simp add: check_retired_id_def retire_target_ok_def index_new_def)
  next
    case (Some p)
    with cell_index.look_find [OF wf(1), of i] cell_at_position [OF wf(1) Some] show ?thesis
      by (simp add: check_retired_id_def retire_target_ok_def index_new_def result_simps
          guard_simps retire_cell_ok_def retire_always del: can_transition_to.simps)
  qed
  then show ?thesis by (simp only: retire_target_iff [OF assms])
qed

lemma indexed_checks_iff:
  assumes wf: "wf_space cs"
  shows "indexed_checks m cs (index_new cs) p = Inr () \<longleftrightarrow> indexed_admissible cs m p"
proof -
  let ?g = "is_genesis_application cs m"
  have ids: "fset (fmdom (cell_positions (index_new cs))) = cell_id ` set (case_cells cs)"
    using cell_index.look_mem [OF wf_graphD(1) [OF wf [unfolded wf_space_def]]]
    by (intro set_eqI) (simp add: index_new_def fmlookup_dom_iff)
  have rel: "fmlookup (relation_positions (index_new cs)) i \<noteq> None \<longleftrightarrow>
      i \<in> rel_id ` set (case_relations cs)" for i
    using relation_index.look_mem [OF wf_graphD(2) [OF wf [unfolded wf_space_def]], of i]
    by (simp add: index_new_def)
  have added: "check_added_relation m cs (index_new cs) (added_cells p) r = Inr () \<longleftrightarrow>
      rel_id r \<notin> materialized_ids cs \<and> add_relation_ok m (case_cells cs @ added_cells p) r"
    if "\<forall>c \<in> set (added_cells p). cell_id c \<notin> materialized_ids cs" for r
  proof -
    have "cell_id ` set (added_cells p) \<inter> cell_id ` set (case_cells cs) = {}"
      using that by (auto simp: materialized_ids_def)
    from is_artifact_indexed [OF wf this] show ?thesis
      by (auto simp: check_added_relation_def guard_simps result_simps add_relation_ok_def
          index_contains_new [OF wf])
  qed
  show ?thesis
  proof (cases "\<forall>c \<in> set (added_cells p). cell_id c \<notin> materialized_ids cs")
    case False
    then show ?thesis
      by (auto simp: indexed_checks_def Let_def result_simps each_res_eq_Inr
          check_added_cell_iff [OF wf] indexed_admissible_def)
  next
    case True
    have "indexed_checks m cs (index_new cs) p = Inr () \<longleftrightarrow>
      (\<forall>c \<in> set (added_cells p). add_cell_ok m ?g c \<and> cell_id c \<notin> materialized_ids cs) \<and>
      (\<forall>r \<in> set (added_relations p). rel_id r \<notin> materialized_ids cs \<and>
          add_relation_ok m (case_cells cs @ added_cells p) r) \<and>
      (\<forall>u \<in> set (updated_cells p). \<exists>e \<in> set (case_cells cs).
            cell_id e = cell_id u \<and> cell_update_ok ?g e u) \<and>
      (\<forall>u \<in> set (updated_relations p). rel_id u \<in> rel_id ` set (case_relations cs)) \<and>
      (\<forall>i \<in> set (mor_retired_ids m).
            (\<exists>c \<in> set (case_cells cs). cell_id c = i \<and> retire_cell_ok ?g c) \<or>
            (\<exists>r \<in> set (case_relations cs). rel_id r = i)) \<and>
      (\<forall>r \<in> set (added_relations p) \<union> set (updated_relations p).
          rel_from_id r \<in> set (map cell_id (case_cells cs @ added_cells p)) \<and>
          rel_to_id r \<in> set (map cell_id (case_cells cs @ added_cells p)))"
      unfolding indexed_checks_def Let_def
      by (simp only: result_simps each_res_eq_Inr check_added_cell_iff [OF wf] added [OF True]
          check_updated_cell_iff [OF wf] check_retired_id_iff [OF wf] ensure_eq_Inr rel ids
          require_endpoints_iff set_append set_map map_append image_Un ex_simps simp_thms
          split_paired_Ex unit_all_eq1 unit_eq)
    then show ?thesis
      unfolding indexed_admissible_def Let_def ball_Un ball_conj_distrib by satx
  qed
qed

section \<open>The indexed reducer implements the declarative update\<close>

lemma indexed_admissible_iff:
  assumes "wf_space cs"
  shows "admissible cs m p \<longleftrightarrow> indexed_admissible cs m p \<and>
     (\<forall>u \<in> set (updated_relations p). \<exists>e \<in> set (case_relations cs).
        relation_identity e = relation_identity u)"
proof -
  have "rel_id u \<in> rel_id ` set (case_relations cs) \<and>
      rel_from_id u \<in> set (map cell_id (case_cells cs @ added_cells p)) \<and>
      rel_to_id u \<in> set (map cell_id (case_cells cs @ added_cells p))"
    if "e \<in> set (case_relations cs)" "relation_identity e = relation_identity u" for e u
    using that wf_graphD(4,5) [OF assms [unfolded wf_space_def] that(1)]
    by (auto simp: relation_identity_def intro: rev_image_eqI)
  then show ?thesis unfolding admissible_def indexed_admissible_def Let_def by blast
qed

lemma updated_ids_known:
  assumes "indexed_admissible cs m p"
  shows "cell_id ` set (updated_cells p) \<subseteq> cell_id ` set (case_cells cs @ added_cells p)"
proof (rule image_subsetI)
  fix u assume "u \<in> set (updated_cells p)"
  with assms obtain e where "e \<in> set (case_cells cs)" "cell_id e = cell_id u"
    unfolding indexed_admissible_def Let_def by blast
  moreover from this(1) have "cell_id e \<in> cell_id ` set (case_cells cs @ added_cells p)" by simp
  ultimately show "cell_id u \<in> cell_id ` set (case_cells cs @ added_cells p)" by simp
qed

lemma retire_and_remove:
  assumes d: "distinct (map cell_id cells)" "distinct (map rel_id rels)"
      "cell_id ` set cells \<inter> rel_id ` set rels = {}"
    and "distinct is" "set is \<subseteq> cell_id ` set cells \<union> rel_id ` set rels"
    "cell_positions index = positions cell_id cells"
    "relation_positions index = positions rel_id rels"
  obtains ps where "retire_indexed index cells [] is = (retire_cells (set is) cells, Ok ps)"
    "remove_positions ps rels = Inr (filter (\<lambda>r. rel_id r \<notin> set is) rels)"
  using that retire_indexed_loop [OF d(1) assms(5) d(2) assms(6,7), of "[]"]
    removed_relations [OF assms(4) d(2) assms(5) d(3) refl] by simp

lemma index_new_same_ids:
  "map cell_id (case_cells cs) = map cell_id (case_cells cs') \<Longrightarrow>
   map rel_id (case_relations cs) = map rel_id (case_relations cs') \<Longrightarrow> index_new cs = index_new cs'"
  by (simp add: index_new_def cell_index.build_cong [of "case_cells cs" "case_cells cs'"]
      relation_index.build_cong [of "case_relations cs" "case_relations cs'"])

lemma unit_result_Err: "(r :: ('e, unit) result) \<noteq> Ok () \<Longrightarrow> \<exists>e. r = Err e"
  by (cases r) auto

lemma index_new_simps:
  "cell_positions (index_new cs) = positions cell_id (case_cells cs)"
  "relation_positions (index_new cs) = positions rel_id (case_relations cs)"
  by (simp_all add: index_new_def)

lemma indexed_commit_pushed:
  assumes "cs1 = cs\<lparr>case_cells := case_cells cs @ added_cells p,
             case_relations := case_relations cs @ added_relations p\<rparr>"
  shows "indexed_commit m p (cs, index_new cs) =
     (case store_cells (positions cell_id (case_cells cs1)) (case_cells cs1) (updated_cells p) of
           (cells, Inl e) \<Rightarrow> ((cs1\<lparr>case_cells := cells\<rparr>, index_new cs1), Err e)
         | (cells, Inr _) \<Rightarrow>
      (case store_relations m (positions rel_id (case_relations cs1)) (case_relations cs1)
              (updated_relations p) of
           (relations, Inl e) \<Rightarrow>
             ((cs1\<lparr>case_cells := cells, case_relations := relations\<rparr>, index_new cs1), Err e)
         | (relations, Inr _) \<Rightarrow>
      (case retire_indexed (index_new cs1) cells [] (mor_retired_ids m) of
           (cells, Inl e) \<Rightarrow>
             ((cs1\<lparr>case_cells := cells, case_relations := relations\<rparr>, index_new cs1), Err e)
         | (cells, Inr retired) \<Rightarrow>
             if retired = [] then
               ((cs1\<lparr>case_cells := cells, case_relations := relations\<rparr>, index_new cs1), Ok ())
             else
               (case remove_positions retired relations of
                  Inl e \<Rightarrow>
                    ((cs1\<lparr>case_cells := cells, case_relations := relations\<rparr>, index_new cs1), Err e)
                | Inr relations \<Rightarrow>
                    ((cs1\<lparr>case_cells := cells, case_relations := relations\<rparr>,
                      index_new cs1\<lparr>relation_positions := positions rel_id relations\<rparr>), Ok ())))))"
  unfolding indexed_commit_def push_all Let_def assms [symmetric] prod.case index_new_simps ..

lemma indexed_commit_ok:
  assumes wf: "wf_space cs" and p: "payload_matches m p" and adm: "admissible cs m p"
  shows "indexed_commit m p (cs, index_new cs) =
     ((reduced_space m p cs, index_new (reduced_space m p cs)), Ok ())"
proof -
  note fresh = admissible_fresh [OF adm]
  note a = additions_distinct [OF wf p fresh]
  note d = payload_disjoint [OF p]
  let ?cells = "case_cells cs @ added_cells p" and ?rels = "case_relations cs @ added_relations p"
  let ?cells2 = "overlay cell_id (updated_cells p) ?cells"
  let ?rels2 = "overlay rel_id (updated_relations p) ?rels"
  let ?cs = "cs\<lparr>case_cells := ?cells, case_relations := ?rels\<rparr>"
  have sub: "cell_id ` set (updated_cells p) \<subseteq> cell_id ` set ?cells"
    using adm indexed_admissible_iff [OF wf] updated_ids_known by blast
  note cells = store_cells_overlay [OF a(1) d(1) sub]
  have "fold_res (update_relation m) ?rels (updated_relations p) = Inr ?rels2"
    unfolding scan_updates_iff(2) [OF wf p fresh] using adm by (simp add: admissible_def Let_def)
  then have rels: "store_relations m (positions rel_id ?rels) ?rels (updated_relations p)
      = (?rels2, Ok ())"
    using store_relations_fold [OF a(2)] by simp
  have ids: "set (mor_retired_ids m) \<subseteq> cell_id ` set ?cells2 \<union> rel_id ` set ?rels2"
    using adm unfolding admissible_def Let_def overlay_key_set by auto
  have keys: "positions cell_id ?cells = positions cell_id ?cells2"
    "positions rel_id ?rels = positions rel_id ?rels2"
    by (rule cell_index.build_cong relation_index.build_cong, simp)+
  have dist: "distinct (map cell_id ?cells2)" "distinct (map rel_id ?rels2)"
    "cell_id ` set ?cells2 \<inter> rel_id ` set ?rels2 = {}"
    using a unfolding overlay_key overlay_key_set by blast+
  obtain ps where ps: "retire_indexed (index_new ?cs) ?cells2 [] (mor_retired_ids m) =
      (retire_cells (set (mor_retired_ids m)) ?cells2, Ok ps)"
    "remove_positions ps ?rels2 = Inr (filter (\<lambda>r. rel_id r \<notin> set (mor_retired_ids m)) ?rels2)"
    by (rule retire_and_remove [OF dist d(9) ids, of "index_new ?cs"])
      (simp_all add: index_new_def keys)
  note red = ps [folded reduced_cells_def reduced_relations_def]
  have idx: "cell_positions (index_new (reduced_space m p cs)) = positions cell_id ?cells"
    using cell_index.build_cong [OF reduced_cells_ids] by (simp add: index_new_def reduced_space_def)
  show ?thesis
  proof (cases "ps = []")
    case True
    with ps(2) have "filter (\<lambda>r. rel_id r \<notin> set (mor_retired_ids m)) ?rels2 = ?rels2"
      by (simp add: remove_positions_def)
    then have same: "reduced_relations m p (case_relations cs) = ?rels2"
      by (simp add: reduced_relations_def)
    then have "index_new (reduced_space m p cs) = index_new ?cs"
      by (intro index_new_same_ids) (simp_all add: reduced_space_def)
    with True red(1) cells rels same show ?thesis
      by (simp add: indexed_commit_pushed [OF refl] reduced_space_def)
  next
    case False
    with red cells rels idx show ?thesis
      by (simp add: indexed_commit_pushed [OF refl] reduced_space_def)
        (simp add: index_new_def)
  qed
qed

lemma indexed_commit_fails:
  assumes wf: "wf_space cs" and p: "payload_matches m p" and adm: "indexed_admissible cs m p"
    and bad: "\<not> (\<forall>u \<in> set (updated_relations p). \<exists>e \<in> set (case_relations cs).
        relation_identity e = relation_identity u)"
  shows "\<exists>e. snd (indexed_commit m p (cs, index_new cs)) = Err e"
proof -
  have fresh: "fresh_additions cs p"
    using adm by (auto simp: indexed_admissible_def Let_def fresh_additions_def derive_added_ids_def)
  note a = additions_distinct [OF wf p fresh]
  note cells = store_cells_overlay [OF a(1) payload_disjoint(1) [OF p] updated_ids_known [OF adm]]
  have "\<not> is_ok (fold_res (update_relation m) (case_relations cs @ added_relations p)
      (updated_relations p))"
    unfolding is_ok_iff scan_updates_iff(2) [OF wf p fresh] using bad by blast
  with store_relations_fold [OF a(2)]
  have "snd (store_relations m (positions rel_id (case_relations cs @ added_relations p))
      (case_relations cs @ added_relations p) (updated_relations p)) \<noteq> Ok ()" by simp
  then obtain rels e where "store_relations m (positions rel_id (case_relations cs @ added_relations p))
      (case_relations cs @ added_relations p) (updated_relations p) = (rels, Err e)"
    using unit_result_Err by (metis prod.collapse)
  with cells show ?thesis by (simp add: indexed_commit_pushed [OF refl])
qed

lemma indexed_implements:
  assumes wf: "wf_space cs"
  shows "case apply_morphism decode cs m of
      Inr cs' \<Rightarrow> apply_morphism_indexed decode m (cs, index_new cs) = ((cs', index_new cs'), Ok ())
    | Inl _ \<Rightarrow> \<exists>e. snd (apply_morphism_indexed decode m (cs, index_new cs)) = Err e"
proof (cases "apply_morphism decode cs m")
  case (Inr cs')
  then obtain p where "checked_payload decode m = Inr p" "admissible cs m p"
    "cs' = reduced_space m p cs"
    using apply_morphism_iff [OF wf] by blast
  with Inr indexed_commit_ok [OF wf, of m p] indexed_checks_iff [OF wf, of m p]
    indexed_admissible_iff [OF wf, of m p] checked_payload_iff [of decode m p]
  show ?thesis by (simp add: apply_morphism_indexed_def)
next
  case (Inl e)
  then have none: "\<not> (checked_payload decode m = Inr p \<and> admissible cs m p)" for p
    using apply_morphism_iff [OF wf, of decode m "reduced_space m p cs"] by auto
  show ?thesis
  proof (cases "checked_payload decode m")
    case (Inr p)
    show ?thesis
    proof (cases "indexed_checks m cs (index_new cs) p")
      case (Inr u)
      with none \<open>checked_payload decode m = Inr p\<close> checked_payload_iff [of decode m p]
        indexed_commit_fails [OF wf, of m p] indexed_checks_iff [OF wf, of m p]
        indexed_admissible_iff [OF wf, of m p] \<open>apply_morphism decode cs m = Inl e\<close>
      show ?thesis by (simp add: apply_morphism_indexed_def)
    qed (simp add: apply_morphism_indexed_def Inr \<open>apply_morphism decode cs m = Inl e\<close>)
  qed (simp add: apply_morphism_indexed_def Inl)
qed

end
