(* ===== verification/CG_Samples.thy ===== *)
theory CG_Samples
  imports Native_Reducer
begin

text \<open>
  A small case space with a goal, an evidence cell, an artifact cell, a capability cell and two
  relations, and a morphism on it: the inputs on which the witnesses evaluate the model.
\<close>

definition sample_provenance :: "review_status \<Rightarrow> provenance" where
  "sample_provenance s = \<lparr>prov_review_status = s, prov_confidence = JNumber 1, prov_rest = JNull\<rparr>"

definition sample_cell :: "id \<Rightarrow> case_cell_type \<Rightarrow> case_cell_lifecycle \<Rightarrow> metadata \<Rightarrow> case_cell" where
  "sample_cell i t l md =
     \<lparr>cell_id = i, cell_type = t, cell_space_id = ''space'', cell_title = i, cell_summary = None,
      cell_lifecycle = l, cell_source_ids = [''source''], cell_structure_ids = [],
      cell_provenance = sample_provenance RsUnreviewed, cell_metadata = md\<rparr>"

definition sample_relation :: "id \<Rightarrow> case_relation_type \<Rightarrow> id \<Rightarrow> id \<Rightarrow> case_relation" where
  "sample_relation i t f to =
     \<lparr>rel_id = i, relation_type = t, relation_strength = StHard, rel_from_id = f, rel_to_id = to,
      rel_evidence_ids = [], rel_source_ids = [''source''],
      rel_provenance = sample_provenance RsUnreviewed, rel_metadata = fmempty\<rparr>"

definition sample_boundary :: "string \<Rightarrow> metadata" where
  "sample_boundary b = fmap_of_list [(''evidence_boundary'', JString b)]"

definition sample_cells :: "case_cell list" where
  "sample_cells =
     [sample_cell ''goal'' CtGoal LcActive fmempty,
      sample_cell ''evidence'' CtEvidence LcActive (sample_boundary ''inferred''),
      sample_cell ''artifact'' (CtCustom ''artifact'') LcActive fmempty,
      sample_cell ''capability'' (CtCustom ''capability'') LcActive fmempty]"

definition sample_relations :: "case_relation list" where
  "sample_relations =
     [sample_relation ''needs'' RtRequiresEvidence ''goal'' ''evidence'',
      sample_relation ''cites'' RtDerivesFrom ''evidence'' ''artifact'']"

definition sample_revision :: revision where
  "sample_revision =
     \<lparr>revision_id = ''r1'', rev_case_space_id = ''cs'', applied_entry_ids = [],
      applied_morphism_ids = [], rev_checksum = '''', parent_revision_id = None,
      rev_created_at = ''t0'', rev_source_ids = [], rev_metadata = fmempty\<rparr>"

definition sample_space :: case_space where
  "sample_space =
     \<lparr>cs_schema = native_case_space_schema, cs_schema_version = native_case_space_schema_version,
      case_space_id = ''cs'', space_id = ''space'', case_cells = sample_cells,
      case_relations = sample_relations, morphism_log = [], projections = [],
      cs_revision = sample_revision, close_policy_id = None, cs_metadata = fmempty\<rparr>"

definition sample_morphism :: case_morphism where
  "sample_morphism =
     \<lparr>mor_id = ''m2'', morphism_type = MtUpdate, mor_source_revision_id = Some ''r1'',
      mor_target_revision_id = ''r2'', mor_added_ids = [''extra'', ''new'', ''dep''],
      mor_updated_ids = [''evidence''], mor_retired_ids = [''needs'', ''goal''],
      mor_preserved_ids = [], mor_violated_invariant_ids = [],
      mor_review_status = RsUnreviewed, mor_evidence_ids = [], mor_source_ids = [''source''],
      mor_metadata = fmap_of_list [(''payload'', JNull)]\<rparr>"

definition sample_payload :: morphism_payload where
  "sample_payload =
     \<lparr>added_cells = [sample_cell ''new'' CtWork LcProposed fmempty,
                     sample_cell ''extra'' CtEvidence LcProposed (sample_boundary ''worker_output'')],
      added_relations = [sample_relation ''dep'' RtDependsOn ''new'' ''goal''],
      updated_cells = [sample_cell ''evidence'' CtEvidence LcResolved (sample_boundary ''inferred'')],
      updated_relations = []\<rparr>"

definition sample_decode :: payload_decoder where
  "sample_decode value = Ok sample_payload"

lemmas sample_defs = sample_provenance_def sample_cell_def sample_relation_def sample_boundary_def
  sample_cells_def sample_relations_def sample_revision_def sample_space_def sample_morphism_def
  sample_payload_def sample_decode_def

definition sample_result :: case_space where
  "sample_result =
     sample_space\<lparr>case_cells :=
         [sample_cell ''goal'' CtGoal LcRetired fmempty,
          sample_cell ''evidence'' CtEvidence LcResolved (sample_boundary ''inferred''),
          sample_cell ''artifact'' (CtCustom ''artifact'') LcActive fmempty,
          sample_cell ''capability'' (CtCustom ''capability'') LcActive fmempty,
          sample_cell ''new'' CtWork LcProposed fmempty,
          sample_cell ''extra'' CtEvidence LcProposed (sample_boundary ''worker_output'')],
       case_relations :=
         [sample_relation ''cites'' RtDerivesFrom ''evidence'' ''artifact'',
          sample_relation ''dep'' RtDependsOn ''new'' ''goal'']\<rparr>"

lemma sample_applies: "apply_morphism sample_decode sample_space sample_morphism = Inr sample_result"
  by code_simp

definition sample_ids_wf :: "case_space \<Rightarrow> bool" where
  "sample_ids_wf cs \<longleftrightarrow>
     distinct (map cell_id (case_cells cs) @ map rel_id (case_relations cs)) \<and>
     list_all (\<lambda>r. rel_from_id r \<in> set (map cell_id (case_cells cs)) \<and>
        rel_to_id r \<in> set (map cell_id (case_cells cs))) (case_relations cs)"

lemma sample_space_ids: "sample_ids_wf sample_space"
  by code_simp

end
