(* ===== verification/Reducer_Properties.thy ===== *)
theory Reducer_Properties
  imports Native_Reducer_Indexed CG_Samples
begin

text \<open>
  The properties of the reducers: agreement of the two entry points, preservation of the graph
  invariant, and the trust rules (capabilities, artifacts, evidence, lifecycles, relation identity).
\<close>

section \<open>What one application does to each item\<close>

definition cell_step :: "bool \<Rightarrow> case_cell \<Rightarrow> case_cell \<Rightarrow> bool" where
  "cell_step g e c \<longleftrightarrow> c = e \<or> cell_update_ok g e c \<or>
     (retire_cell_ok g e \<and> c = e\<lparr>cell_lifecycle := LcRetired\<rparr>)"

lemma reduced_cells_split:
  assumes wf: "wf_space cs" and p: "payload_matches m p" and adm: "admissible cs m p"
  obtains f where "reduced_cells m p (case_cells cs) = map f (case_cells cs) @ added_cells p"
    "\<And>e. e \<in> set (case_cells cs) \<Longrightarrow> cell_id (f e) = cell_id e"
    "\<And>e. e \<in> set (case_cells cs) \<Longrightarrow> cell_step (is_genesis_application cs m) e (f e)"
proof
  let ?g = "is_genesis_application cs m" and ?R = "set (mor_retired_ids m)"
  let ?u = "\<lambda>x. case find (\<lambda>u. cell_id u = cell_id x) (updated_cells p) of Some u \<Rightarrow> u | None \<Rightarrow> x"
  let ?f = "\<lambda>x. if cell_id x \<in> ?R then (?u x)\<lparr>cell_lifecycle := LcRetired\<rparr> else ?u x"
  note d = payload_disjoint [OF p]
  have keys: "cell_id (?u x) = cell_id x" for x
    by (auto dest: find_key_SomeD split: option.splits)
  have "overlay cell_id (updated_cells p) (added_cells p) = added_cells p"
    using d(3) by (intro overlay_fresh) auto
  moreover have "retire_cells ?R (added_cells p) = added_cells p"
    using d(6) unfolding retire_cells_def by (intro map_idI) (metis disjoint_iff imageI)
  ultimately show "reduced_cells m p (case_cells cs) = map ?f (case_cells cs) @ added_cells p"
    using keys by (simp add: reduced_cells_def overlay_append retire_cells_def)
      (simp add: overlay_def)
  show "cell_id (?f e) = cell_id e" for e using keys by simp
  show "cell_step ?g e (?f e)" if e: "e \<in> set (case_cells cs)" for e
  proof (cases "find (\<lambda>u. cell_id u = cell_id e) (updated_cells p)")
    case None
    have "retire_cell_ok ?g e" if "cell_id e \<in> ?R"
    proof -
      from adm that have "(\<exists>c \<in> set (case_cells cs). cell_id c = cell_id e \<and> retire_cell_ok ?g c) \<or>
          (\<exists>r \<in> set (case_relations cs). rel_id r = cell_id e)"
        by (simp add: admissible_def Let_def)
      moreover have "\<not> (\<exists>r \<in> set (case_relations cs). rel_id r = cell_id e)"
        using e wf_graphD(3) [OF wf [unfolded wf_space_def]] by (metis disjoint_iff imageI)
      moreover have "c = e" if "c \<in> set (case_cells cs)" "cell_id c = cell_id e" for c
        using that e wf_graphD(1) [OF wf [unfolded wf_space_def]] by (meson distinct_map inj_onD)
      ultimately show ?thesis by blast
    qed
    with None show ?thesis by (simp add: cell_step_def)
  next
    case (Some u)
    then have u: "u \<in> set (updated_cells p)" "cell_id u = cell_id e" by (auto dest: find_key_SomeD)
    with adm obtain e' where "e' \<in> set (case_cells cs)" "cell_id e' = cell_id e" "cell_update_ok ?g e' u"
      unfolding admissible_def Let_def by metis
    moreover from this e have "e' = e"
      using wf_graphD(1) [OF wf [unfolded wf_space_def]] by (meson distinct_map inj_onD)
    moreover have "cell_id e \<notin> ?R" using u d(5) by (metis disjoint_iff imageI)
    ultimately show ?thesis using Some by (simp add: cell_step_def)
  qed
qed

lemma apply_morphismE:
  assumes "wf_space cs" "apply_morphism decode cs m = Inr cs'"
  obtains p f where "payload_matches m p" "admissible cs m p" "checked_payload decode m = Inr p"
    "case_cells cs' = map f (case_cells cs) @ added_cells p"
    "case_relations cs' = reduced_relations m p (case_relations cs)"
    "cs' = reduced_space m p cs"
    "\<And>e. e \<in> set (case_cells cs) \<Longrightarrow> cell_id (f e) = cell_id e"
    "\<And>e. e \<in> set (case_cells cs) \<Longrightarrow> cell_step (is_genesis_application cs m) e (f e)"
proof -
  from assms apply_morphism_iff obtain p where
    p: "checked_payload decode m = Inr p" "admissible cs m p" "cs' = reduced_space m p cs" by blast
  then have m: "payload_matches m p" using checked_payload_iff by blast
  from reduced_cells_split [OF assms(1) m p(2)] obtain f where
    "reduced_cells m p (case_cells cs) = map f (case_cells cs) @ added_cells p"
    "\<And>e. e \<in> set (case_cells cs) \<Longrightarrow> cell_id (f e) = cell_id e"
    "\<And>e. e \<in> set (case_cells cs) \<Longrightarrow> cell_step (is_genesis_application cs m) e (f e)" by blast
  with p(3) show ?thesis by (intro that [OF m p(2,1), of f]) (simp_all add: reduced_space_def)
qed

lemma reduced_relation_cases:
  assumes "payload_matches m p" "admissible cs m p"
    "r \<in> set (reduced_relations m p (case_relations cs))"
  obtains "r \<in> set (added_relations p)"
  | e where "e \<in> set (case_relations cs)" "relation_identity e = relation_identity r"
proof -
  from assms(3) have "r \<in> set (overlay rel_id (updated_relations p)
      (case_relations cs @ added_relations p))" by (simp add: reduced_relations_def)
  then show ?thesis
  proof (cases rule: overlay_mem)
    case 1
    with assms(2) that show ?thesis by (auto simp: admissible_def Let_def)
  next
    case 2
    with that show ?thesis by auto
  qed
qed

lemma cell_step_type: "cell_step g e c \<Longrightarrow> cell_type c = cell_type e"
  by (auto simp: cell_step_def cell_update_ok_def)

lemma cell_step_protected:
  assumes "cell_step g e c" "is_artifact_cell e \<or> is_capability_cell e \<and> \<not> g"
  shows "c = e"
  using assms by (auto simp: cell_step_def cell_update_ok_def retire_cell_ok_def)

lemma cell_step_lifecycle: "cell_step g e c \<Longrightarrow> can_transition_to (cell_lifecycle e) (cell_lifecycle c)"
  using retire_always by (auto simp: cell_step_def cell_update_ok_def simp del: can_transition_to.simps)
    (simp)

lemma cell_step_evidence:
  assumes "cell_step g e c" "cell_type e = CtEvidence"
  shows "cell_provenance c = cell_provenance e \<and> cell_structure_ids c = cell_structure_ids e \<and>
     declared_boundary c = declared_boundary e"
  using assms by (auto simp: cell_step_def cell_update_ok_def immutable_evidence_metadata_def
      declared_boundary_def get_str_def)

lemma reduced_wf:
  assumes "wf_space cs" "apply_morphism decode cs m = Inr cs'"
  shows "wf_space cs'"
proof -
  from assms obtain p where p: "payload_matches m p" "admissible cs m p"
    and cs': "cs' = reduced_space m p cs" by (rule apply_morphismE) blast
  note a = additions_distinct [OF assms(1) p(1) admissible_fresh [OF p(2)]]
  let ?rels = "reduced_relations m p (case_relations cs)"
  have "distinct (map rel_id ?rels)" "rel_id ` set ?rels \<subseteq> rel_id ` set (case_relations cs @ added_relations p)"
    using a(2) overlay_key [of rel_id "updated_relations p" "case_relations cs @ added_relations p"]
      overlay_key_set [of rel_id "updated_relations p" "case_relations cs @ added_relations p"]
    unfolding reduced_relations_def by (metis distinct_map_filter, auto)
  moreover have "\<forall>r \<in> set ?rels. rel_from_id r \<in> set (map cell_id (case_cells cs @ added_cells p)) \<and>
      rel_to_id r \<in> set (map cell_id (case_cells cs @ added_cells p))"
    using kept_relation_endpoints [OF assms(1) p(1), of "set (map cell_id (case_cells cs @ added_cells p))"] p(2)
    by (simp add: admissible_def Let_def)
  ultimately show ?thesis
    using a(1,3) unfolding cs' wf_space_def wf_graph_def reduced_space_def
    by (simp add: image_Un) blast
qed

lemma sample_space_wf: "wf_space sample_space"
  using sample_space_ids
  by (simp add: wf_space_def wf_graph_def sample_ids_wf_def list_all_iff)

lemma sample_not_genesis: "\<not> is_genesis_application sample_space sample_morphism"
  by (simp add: is_genesis_application_def sample_morphism_def)

section \<open>Properties\<close>

text \<open>
  Claim C2. On a well-formed space with a freshly built index the two reducers agree: when
  \<open>apply_morphism\<close> accepts, \<open>apply_morphism_indexed\<close> accepts, leaves the same space, and its index is
  again the index of that space; when \<open>apply_morphism\<close> refuses, so does \<open>apply_morphism_indexed\<close>.
\<close>

theorem reducers_agree:
  assumes "wf_space cs"
  shows "case apply_morphism decode cs m of
      Inr cs' \<Rightarrow> apply_morphism_indexed decode m (cs, index_new cs) = ((cs', index_new cs'), Ok ())
    | Inl _ \<Rightarrow> \<exists>e. snd (apply_morphism_indexed decode m (cs, index_new cs)) = Err e"
  using assms by (rule indexed_implements)

theorem reducers_agree_witness:
  "apply_morphism_indexed sample_decode sample_morphism (sample_space, index_new sample_space) =
     ((sample_result, index_new sample_result), Ok ())"
  using reducers_agree [OF sample_space_wf, of sample_decode sample_morphism] sample_applies by simp

text \<open>
  Claim C29. An accepted morphism keeps the graph invariant: cell and relation ids stay pairwise
  distinct and every relation joins existing cells.
\<close>

theorem apply_morphism_wf:
  assumes "wf_space cs" "apply_morphism decode cs m = Inr cs'"
  shows "wf_space cs'"
  using assms by (rule reduced_wf)

theorem apply_morphism_wf_witness: "wf_space sample_result"
  by (rule apply_morphism_wf [OF sample_space_wf sample_applies])

text \<open>
  Claim C20. After genesis the capability cells of a space are frozen: whatever morphism is
  accepted, the list of capability cells is the same before and after.
\<close>

theorem capability_cells_frozen:
  assumes "wf_space cs" "apply_morphism decode cs m = Inr cs'" "\<not> is_genesis_application cs m"
  shows "filter is_capability_cell (case_cells cs') = filter is_capability_cell (case_cells cs)"
proof -
  from assms(1,2) obtain p f where "admissible cs m p"
    and cells: "case_cells cs' = map f (case_cells cs) @ added_cells p"
    and step: "\<And>e. e \<in> set (case_cells cs) \<Longrightarrow> cell_step (is_genesis_application cs m) e (f e)"
    by (rule apply_morphismE) blast
  then have "\<forall>c \<in> set (added_cells p). \<not> is_capability_cell c"
    using assms(3) by (simp add: admissible_def Let_def add_cell_ok_def)
  moreover have "filter is_capability_cell (map f xs) = filter is_capability_cell xs"
    if "set xs \<subseteq> set (case_cells cs)" for xs
    using that
  proof (induction xs)
    case (Cons x xs)
    then have "cell_type (f x) = cell_type x" "is_capability_cell x \<Longrightarrow> f x = x"
      using step [of x] cell_step_type cell_step_protected assms(3) by (auto simp: is_artifact_cell_def)
    with Cons show ?case by (simp add: is_capability_cell_def)
  qed simp
  ultimately show ?thesis unfolding cells by (simp add: filter_empty_conv)
qed

theorem capability_cells_frozen_witness:
  "filter is_capability_cell (case_cells sample_result) =
     filter is_capability_cell (case_cells sample_space) \<and> has_capability_cells sample_result"
  using capability_cells_frozen [OF sample_space_wf sample_applies sample_not_genesis]
  by (simp add: has_capability_cells_def sample_defs sample_result_def is_capability_cell_def)

text \<open>
  Artifact cells are immutable and enter in one way: every artifact cell of the old space
  is in the new one unchanged, and a new one can only come from an \<open>evidence_attach\<close> morphism,
  at genesis too.
\<close>

theorem artifact_cells_immutable:
  assumes "wf_space cs" "apply_morphism decode cs m = Inr cs'"
  shows "(\<forall>c \<in> set (case_cells cs). is_artifact_cell c \<longrightarrow> c \<in> set (case_cells cs')) \<and>
     (\<forall>c \<in> set (case_cells cs'). is_artifact_cell c \<longrightarrow>
        c \<in> set (case_cells cs) \<or> morphism_type m = MtEvidenceAttach)"
proof -
  from assms obtain p f where adm: "admissible cs m p"
    and cells: "case_cells cs' = map f (case_cells cs) @ added_cells p"
    and step: "\<And>e. e \<in> set (case_cells cs) \<Longrightarrow> cell_step (is_genesis_application cs m) e (f e)"
    by (rule apply_morphismE) blast
  have same: "is_artifact_cell (f e) \<or> is_artifact_cell e \<Longrightarrow> f e = e" if "e \<in> set (case_cells cs)" for e
    using cell_step_protected [OF step [OF that]] cell_step_type [OF step [OF that]]
    by (auto simp: is_artifact_cell_def)
  have "is_artifact_cell c \<Longrightarrow> morphism_type m = MtEvidenceAttach" if "c \<in> set (added_cells p)" for c
    using adm that by (simp add: admissible_def Let_def add_cell_ok_def)
  with same show ?thesis unfolding cells by auto (metis imageI, metis)
qed

text \<open>
  Claim C25. Evidence stays untrusted and its coverage fixed: after genesis an evidence cell with a new
  id is declared inferred or worker output, and an evidence cell that was there keeps its declared
  boundary, its provenance and the ids it covers.
\<close>

theorem evidence_trust_frozen:
  assumes "wf_space cs" "apply_morphism decode cs m = Inr cs'" "\<not> is_genesis_application cs m"
    "c \<in> set (case_cells cs')" "cell_type c = CtEvidence"
  shows "(\<exists>e \<in> set (case_cells cs). cell_id e = cell_id c \<and> cell_type e = CtEvidence \<and>
        declared_boundary e = declared_boundary c \<and> cell_provenance e = cell_provenance c \<and>
        cell_structure_ids e = cell_structure_ids c) \<or>
     (cell_id c \<notin> cell_id ` set (case_cells cs) \<and>
        from_metadata_value (declared_boundary c) \<in> {EbInferred, EbWorkerOutput})"
proof -
  from assms(1,2) obtain p f where adm: "admissible cs m p"
    and cells: "case_cells cs' = map f (case_cells cs) @ added_cells p"
    and ids: "\<And>e. e \<in> set (case_cells cs) \<Longrightarrow> cell_id (f e) = cell_id e"
    and step: "\<And>e. e \<in> set (case_cells cs) \<Longrightarrow> cell_step (is_genesis_application cs m) e (f e)"
    by (rule apply_morphismE) blast
  from assms(4) cells consider e where "e \<in> set (case_cells cs)" "c = f e" | "c \<in> set (added_cells p)"
    by auto
  then show ?thesis
  proof cases
    case 1
    with cell_step_type [OF step] assms(5) have "cell_type e = CtEvidence" by simp
    with 1 ids cell_step_evidence [OF step] show ?thesis by metis
  next
    case 2
    with adm assms(3,5) show ?thesis
      by (auto simp: admissible_def Let_def add_cell_ok_def materialized_ids_def)
  qed
qed

theorem evidence_trust_frozen_witness:
  "from_metadata_value (declared_boundary (case_cells sample_result ! 5)) \<in> {EbInferred, EbWorkerOutput}"
proof -
  have "\<not> list_ex (\<lambda>e. cell_id e = cell_id (case_cells sample_result ! 5)) (case_cells sample_space)"
    by code_simp
  then show ?thesis
    using evidence_trust_frozen [OF sample_space_wf sample_applies sample_not_genesis,
        of "case_cells sample_result ! 5"]
    by (auto simp: list_ex_iff sample_result_def sample_cell_def)
qed

text \<open>
  Claim C30. Cells are never deleted or renamed and move along the lifecycle graph: every cell of the
  old space has one cell of the new space with its id and its type, in a lifecycle the old one may
  transition to, whose rank in the graph is no lower.
\<close>

theorem cells_follow_lifecycle:
  assumes "wf_space cs" "apply_morphism decode cs m = Inr cs'" "e \<in> set (case_cells cs)"
  shows "\<exists>!c. c \<in> set (case_cells cs') \<and> cell_id c = cell_id e \<and> cell_type c = cell_type e \<and>
     can_transition_to (cell_lifecycle e) (cell_lifecycle c) \<and>
     lifecycle_rank (cell_lifecycle e) \<le> lifecycle_rank (cell_lifecycle c)"
proof -
  from assms(1,2) obtain p f where p: "payload_matches m p" "admissible cs m p"
    and cells: "case_cells cs' = map f (case_cells cs) @ added_cells p"
    and red: "cs' = reduced_space m p cs"
    and ids: "\<And>e. e \<in> set (case_cells cs) \<Longrightarrow> cell_id (f e) = cell_id e"
    and step: "\<And>e. e \<in> set (case_cells cs) \<Longrightarrow> cell_step (is_genesis_application cs m) e (f e)"
    by (rule apply_morphismE) blast
  have "f e \<in> set (case_cells cs')" using assms(3) cells by simp
  moreover have "inj_on cell_id (set (case_cells cs'))"
    using wf_graphD(1) [OF reduced_wf [OF assms(1,2), unfolded wf_space_def]] by (simp add: distinct_map)
  ultimately have unique: "c = f e" if "c \<in> set (case_cells cs')" "cell_id c = cell_id e" for c
    using that ids [OF assms(3)] by (metis inj_onD)
  note s = step [OF assms(3)]
  from \<open>f e \<in> set (case_cells cs')\<close> ids [OF assms(3)] cell_step_type [OF s] cell_step_lifecycle [OF s]
    transition_rank [OF cell_step_lifecycle [OF s]] unique show ?thesis by blast
qed

theorem cells_follow_lifecycle_witness:
  "\<exists>!c. c \<in> set (case_cells sample_result) \<and> cell_id c = ''goal'' \<and> cell_type c = CtGoal \<and>
     can_transition_to LcActive (cell_lifecycle c) \<and>
     lifecycle_rank LcActive \<le> lifecycle_rank (cell_lifecycle c)"
  using cells_follow_lifecycle [OF sample_space_wf sample_applies, of "case_cells sample_space ! 0"]
  by (simp add: sample_space_def sample_cells_def sample_cell_def del: can_transition_to.simps)

text \<open>
  A relation never changes what it joins: a relation of the new space has the id, type,
  endpoints and strength of a relation of the old space, or its id is new and recorded among the
  added ids of the morphism.
\<close>

theorem relation_identity_immutable:
  assumes "wf_space cs" "apply_morphism decode cs m = Inr cs'" "r \<in> set (case_relations cs')"
  shows "(\<exists>e \<in> set (case_relations cs). relation_identity e = relation_identity r) \<or>
     (rel_id r \<notin> materialized_ids cs \<and> rel_id r \<in> set (mor_added_ids m))"
proof -
  from assms(1,2) obtain p where p: "payload_matches m p" "admissible cs m p"
    and rels: "case_relations cs' = reduced_relations m p (case_relations cs)"
    by (rule apply_morphismE) blast
  from assms(3) [unfolded rels] p show ?thesis
    by (elim reduced_relation_cases [OF p])
      (auto simp: admissible_def Let_def payload_matches_def derive_added_ids_def)
qed

end
