(* ===== verification/Evidence_Trust.thy ===== *)
theory Evidence_Trust
  imports Native_Model
begin

text \<open>
  \<open>src/evidence_trust.rs\<close> and its adapter in \<open>src/native_model.rs\<close>: when a piece of evidence may
  satisfy a requirement.
\<close>

datatype evidence_trust_boundary =
    TbSourceBacked | TbInferred | TbWorkerOutput | TbReviewPromoted | TbRejected | TbContradicting

fun metadata_value :: "evidence_trust_boundary \<Rightarrow> string" where
  "metadata_value TbSourceBacked = ''source_backed''"
| "metadata_value TbInferred = ''inferred''"
| "metadata_value TbWorkerOutput = ''worker_output''"
| "metadata_value TbReviewPromoted = ''review_promoted''"
| "metadata_value TbRejected = ''rejected''"
| "metadata_value TbContradicting = ''contradicting''"

fun trust_boundary_of :: "evidence_boundary \<Rightarrow> evidence_trust_boundary" where
  "trust_boundary_of EbSourceBacked = TbSourceBacked"
| "trust_boundary_of EbInferred = TbInferred"
| "trust_boundary_of EbWorkerOutput = TbWorkerOutput"
| "trust_boundary_of EbReviewPromoted = TbReviewPromoted"
| "trust_boundary_of EbRejected = TbRejected"
| "trust_boundary_of EbContradicting = TbContradicting"

record evidence_trust_input =
  trust_boundary :: evidence_trust_boundary
  cell_review_status :: review_status
  latest_review_status :: "review_status option"
  has_source :: bool

definition evidence_is_acceptable :: "evidence_trust_input \<Rightarrow> bool" where
  "evidence_is_acceptable input =
     (if \<not> has_source input \<or> cell_review_status input = RsRejected
         \<or> latest_review_status input = Some RsRejected
      then False
      else case trust_boundary input of
             TbSourceBacked \<Rightarrow> True
           | TbReviewPromoted \<Rightarrow>
               cell_review_status input = RsAccepted \<or> latest_review_status input = Some RsAccepted
           | TbInferred \<Rightarrow> latest_review_status input = Some RsAccepted
           | TbWorkerOutput \<Rightarrow> latest_review_status input = Some RsAccepted
           | TbRejected \<Rightarrow> False
           | TbContradicting \<Rightarrow> False)"

definition native_evidence_trust_input ::
  "case_cell \<Rightarrow> review_status option \<Rightarrow> evidence_trust_input" where
  "native_evidence_trust_input cell latest =
     \<lparr>trust_boundary = trust_boundary_of (from_metadata_value (declared_boundary cell)),
      cell_review_status = prov_review_status (cell_provenance cell),
      latest_review_status = latest,
      has_source = cell_source_ids cell \<noteq> []\<rparr>"

lemma acceptable_has_source:
  "evidence_is_acceptable (native_evidence_trust_input cell latest) \<Longrightarrow> cell_source_ids cell \<noteq> []"
  by (auto simp: evidence_is_acceptable_def native_evidence_trust_input_def split: if_splits)

lemma acceptable_untrusted_boundary:
  assumes "from_metadata_value (declared_boundary cell) \<in> {EbInferred, EbWorkerOutput}"
  shows "evidence_is_acceptable (native_evidence_trust_input cell latest) \<longleftrightarrow>
     cell_source_ids cell \<noteq> [] \<and> prov_review_status (cell_provenance cell) \<noteq> RsRejected \<and>
     latest = Some RsAccepted"
  using assms by (auto simp: evidence_is_acceptable_def native_evidence_trust_input_def)

text \<open>
  The spelling of a trust boundary round-trips: the metadata value written for a boundary
  is read back as the same boundary.
\<close>

theorem boundary_round_trip:
  "trust_boundary_of (from_metadata_value (Some (metadata_value b))) = b"
  by (cases b) (simp_all add: from_metadata_value_def)

text \<open>
  A rejection is final for the trust decision, and accepting more never hurts: acceptable
  evidence has a source and no rejection anywhere, and evidence acceptable with no log review stays
  acceptable once the log accepts it.
\<close>

theorem acceptance_rules:
  "(evidence_is_acceptable input \<longrightarrow>
      has_source input \<and> cell_review_status input \<noteq> RsRejected \<and>
      latest_review_status input \<noteq> Some RsRejected \<and>
      trust_boundary input \<notin> {TbRejected, TbContradicting}) \<and>
   (evidence_is_acceptable (input\<lparr>latest_review_status := None\<rparr>) \<longrightarrow>
      evidence_is_acceptable (input\<lparr>latest_review_status := Some RsAccepted\<rparr>))"
  by (cases "trust_boundary input") (simp_all add: evidence_is_acceptable_def)

end
