(* ===== verification/Canonical_Review.thy ===== *)
theory Canonical_Review
  imports Evidence_Trust Native_Reducer
begin

text \<open>
  Review records (\<open>src/native_review/support.rs\<close> and the builder in \<open>src/native_review.rs\<close>): how a review
  morphism is written, and which morphisms of a log count as reviews.
\<close>

section \<open>Foreign code\<close>

text \<open>
  What the evaluation and review code calls outside the repository: the decoder of a payload,
  \<open>Id::is_valid_value\<close> (and the success of \<open>Id::new\<close>, which is the same test), the textual form of
  \<open>ReviewStatus\<close>, \<open>ReviewStatus::has_review_action\<close>, the decoder of the topology binding, and the
  builders of \<open>Provenance\<close> and \<open>Confidence\<close> (value in hundredths).
\<close>

record topology_review_target =
  topology_id :: id
  topology_content_hash :: string
  trt_case_space_id :: id
  observed_base_revision_id :: id
  claim_cell_id :: id
  artifact_id :: id
  policy_manifest_content_hash :: string
  compiler_version :: string
  compiler_semantic_profile :: string
  compiler_inputs_schema :: string
  compiler_contract_versions_content_hash :: string
  expansion_proposal_id :: "id option"

record env =
  env_payload :: payload_decoder
  valid_id :: "string \<Rightarrow> bool"
  status_value :: "review_status \<Rightarrow> string"
  status_of :: "json \<Rightarrow> review_status option"
  has_review_action :: "review_status \<Rightarrow> bool"
  binding_of :: "json \<Rightarrow> topology_review_target option"
  generated_provenance :: "string \<Rightarrow> nat \<Rightarrow> provenance"
  confidence_of :: "nat \<Rightarrow> json"

section \<open>Vocabulary\<close>

definition review_schema_version :: nat where
  "review_schema_version = 1"

datatype native_review_target_kind =
    TkCompletion | TkEvidence | TkExecutionTopology | TkMorphism | TkPlan | TkResidualRisk | TkWaiver

text \<open>The \<open>snake_case\<close> spellings that \<open>serde\<close> writes and reads.\<close>

fun target_kind_value :: "native_review_target_kind \<Rightarrow> string" where
  "target_kind_value TkCompletion = ''completion''"
| "target_kind_value TkEvidence = ''evidence''"
| "target_kind_value TkExecutionTopology = ''execution_topology''"
| "target_kind_value TkMorphism = ''morphism''"
| "target_kind_value TkPlan = ''plan''"
| "target_kind_value TkResidualRisk = ''residual_risk''"
| "target_kind_value TkWaiver = ''waiver''"

definition target_kinds :: "native_review_target_kind list" where
  "target_kinds =
     [TkCompletion, TkEvidence, TkExecutionTopology, TkMorphism, TkPlan, TkResidualRisk, TkWaiver]"

definition target_kind_of :: "json \<Rightarrow> native_review_target_kind option" where
  "target_kind_of j =
     Option.bind (as_str j) (\<lambda>s. find (\<lambda>k. target_kind_value k = s) target_kinds)"

fun review_action_value :: "review_action \<Rightarrow> string" where
  "review_action_value RaAccept = ''accept''"
| "review_action_value RaReject = ''reject''"
| "review_action_value RaReopen = ''reopen''"
| "review_action_value RaWaive = ''waive''"
| "review_action_value RaDefer = ''defer''"
| "review_action_value RaSupersede = ''supersede''"

definition review_actions :: "review_action list" where
  "review_actions = [RaAccept, RaReject, RaReopen, RaWaive, RaDefer, RaSupersede]"

definition review_action_of :: "json \<Rightarrow> review_action option" where
  "review_action_of j =
     Option.bind (as_str j) (\<lambda>s. find (\<lambda>a. review_action_value a = s) review_actions)"

fun outcome_status :: "review_action \<Rightarrow> review_status" where
  "outcome_status RaAccept = RsAccepted"
| "outcome_status RaWaive = RsAccepted"
| "outcome_status RaReject = RsRejected"
| "outcome_status RaReopen = RsUnreviewed"
| "outcome_status RaDefer = RsReviewed"
| "outcome_status RaSupersede = RsReviewed"

fun target_kind_stem :: "native_review_target_kind \<Rightarrow> string" where
  "target_kind_stem TkCompletion = ''completion''"
| "target_kind_stem TkEvidence = ''evidence''"
| "target_kind_stem TkExecutionTopology = ''execution-topology''"
| "target_kind_stem TkMorphism = ''morphism''"
| "target_kind_stem TkPlan = ''plan''"
| "target_kind_stem TkResidualRisk = ''residual-risk''"
| "target_kind_stem TkWaiver = ''waiver''"

fun action_stem :: "review_action \<Rightarrow> string" where
  "action_stem RaAccept = ''accept''"
| "action_stem RaReject = ''reject''"
| "action_stem RaReopen = ''reopen''"
| "action_stem RaWaive = ''waive''"
| "action_stem RaDefer = ''defer''"
| "action_stem RaSupersede = ''supersede''"

section \<open>Generated ids\<close>

definition is_ascii_alphanumeric :: "char \<Rightarrow> bool" where
  "is_ascii_alphanumeric c \<longleftrightarrow>
     (let n = of_char c :: nat
      in (97 \<le> n \<and> n \<le> 122) \<or> (65 \<le> n \<and> n \<le> 90) \<or> (48 \<le> n \<and> n \<le> 57))"

definition sanitize :: "string \<Rightarrow> string" where
  "sanitize value = map (\<lambda>c. if is_ascii_alphanumeric c then c else CHR ''-'') value"

fun join :: "string \<Rightarrow> string list \<Rightarrow> string" where
  "join sep [] = ''''"
| "join sep [x] = x"
| "join sep (x # y # rest) = x @ sep @ join sep (y # rest)"

definition generated_id :: "string \<Rightarrow> string list \<Rightarrow> id" where
  "generated_id pre parts = pre @ '':'' @ join '':'' (map sanitize parts)"

section \<open>Canonical reviews\<close>

record canonical_review =
  cr_target_kind :: native_review_target_kind
  cr_target_id :: id
  cr_action :: review_action
  cr_outcome :: review_status
  cr_execution_topology :: "topology_review_target option"

definition is_lower_hex :: "char \<Rightarrow> bool" where
  "is_lower_hex c \<longleftrightarrow>
     (let n = of_char c :: nat in (48 \<le> n \<and> n \<le> 57) \<or> (97 \<le> n \<and> n \<le> 102))"

definition is_sha256_hex :: "string \<Rightarrow> bool" where
  "is_sha256_hex s \<longleftrightarrow> length s = 64 \<and> list_all is_lower_hex s"

definition artifact_prefix :: string where
  "artifact_prefix = ''artifact:sha256-''"

definition execution_topology_review_schema :: string where
  "execution_topology_review_schema = ''casegraphen.experimental.execution_topology_review.v0''"

definition execution_topology_review_schema_version :: nat where
  "execution_topology_review_schema_version = 0"

definition topology_binding ::
  "env \<Rightarrow> metadata \<Rightarrow> id \<Rightarrow> topology_review_target option" where
  "topology_binding e md target_id =
     Option.bind (get_str md ''execution_topology_review_schema'') (\<lambda>schema.
     Option.bind (Option.bind (fmlookup md ''execution_topology_review_schema_version'') as_u64) (\<lambda>version.
     if schema \<noteq> execution_topology_review_schema
        \<or> version \<noteq> execution_topology_review_schema_version then None
     else Option.bind (Option.bind (fmlookup md ''execution_topology_binding'') (binding_of e)) (\<lambda>b.
       if claim_cell_id b \<noteq> target_id \<or> \<not> is_sha256_hex (topology_content_hash b)
          \<or> \<not> (prefix artifact_prefix (artifact_id b)
                \<and> is_sha256_hex (drop (length artifact_prefix) (artifact_id b)))
       then None else Some b)))"

definition canonical_review :: "env \<Rightarrow> case_morphism \<Rightarrow> canonical_review option" where
  "canonical_review e m =
     (let md = mor_metadata m in
      if morphism_type m \<noteq> MtReview \<or> mor_review_status m \<noteq> RsAccepted
         \<or> Option.bind (fmlookup md ''native_review_schema_version'') as_u64
             \<noteq> Some review_schema_version
      then None
      else if \<not> list_all (\<lambda>field. case get_str md field of Some v \<Rightarrow> valid_id e v | None \<Rightarrow> False)
                 [''review_id'', ''target_id'', ''reviewer_id'']
      then None
      else if \<not> list_all (\<lambda>field. case get_str md field of Some v \<Rightarrow> \<not> blank v | None \<Rightarrow> False)
                 [''reviewed_at'', ''reason'']
      then None
      else
        Option.bind (Option.bind (fmlookup md ''target_kind'') target_kind_of) (\<lambda>kind.
        Option.bind (get_str md ''target_id'') (\<lambda>target_id.
        if \<not> valid_id e target_id then None else
        Option.bind (Option.bind (fmlookup md ''action'') review_action_of) (\<lambda>action.
        Option.bind (Option.bind (fmlookup md ''outcome_review_status'') (status_of e)) (\<lambda>outcome.
        if outcome \<noteq> outcome_status action then None
        else if kind = TkExecutionTopology then
          Option.bind (topology_binding e md target_id) (\<lambda>b.
            Some \<lparr>cr_target_kind = kind, cr_target_id = target_id, cr_action = action,
                  cr_outcome = outcome, cr_execution_topology = Some b\<rparr>)
        else Some \<lparr>cr_target_kind = kind, cr_target_id = target_id, cr_action = action,
                   cr_outcome = outcome, cr_execution_topology = None\<rparr>)))))"

section \<open>Building a review morphism\<close>

record native_review_request =
  rq_target_kind :: native_review_target_kind
  rq_target_id :: id
  rq_action :: review_action
  reviewer_id :: id
  reviewed_at :: string
  reason :: string
  rq_evidence_ids :: "id list"
  rq_source_ids :: "id list"
  rq_target_revision_id :: id

definition review_metadata ::
  "env \<Rightarrow> native_review_request \<Rightarrow> review_status \<Rightarrow> id \<Rightarrow> metadata" where
  "review_metadata e request outcome morphism_id =
     fold (\<lambda>(k, v). fmupd k v)
       [(''native_review_schema_version'', JNumber (int review_schema_version)),
        (''review_id'', JString (generated_id ''review'' [morphism_id])),
        (''target_kind'', JString (target_kind_value (rq_target_kind request))),
        (''target_id'', JString (rq_target_id request)),
        (''action'', JString (review_action_value (rq_action request))),
        (''outcome_review_status'', JString (status_value e outcome)),
        (''reviewer_id'', JString (reviewer_id request)),
        (''reviewed_at'', JString (reviewed_at request)),
        (''reason'', JString (trim (reason request)))]
       fmempty"

definition has_known_id :: "case_space \<Rightarrow> id \<Rightarrow> bool" where
  "has_known_id cs i \<longleftrightarrow>
     list_ex (\<lambda>cell. cell_id cell = i) (case_cells cs)
     \<or> list_ex (\<lambda>relation. rel_id relation = i) (case_relations cs)
     \<or> list_ex (\<lambda>projection. projection_id projection = i) (projections cs)
     \<or> list_ex (\<lambda>entry. entry_id entry = i \<or> entry_morphism_id entry = i) (morphism_log cs)
     \<or> revision_id (cs_revision cs) = i"

definition morphism_type_for_review ::
  "native_review_target_kind \<Rightarrow> review_action \<Rightarrow> case_morphism_type" where
  "morphism_type_for_review target_kind action = MtReview"

definition build_review_morphism_validated ::
  "env \<Rightarrow> case_space \<Rightarrow> review_action \<Rightarrow> native_review_request \<Rightarrow> case_morphism" where
  "build_review_morphism_validated e cs action request =
     (let outcome = outcome_status action;
          source_ids = dedupe_ids (rq_source_ids request @ rq_evidence_ids request);
          source_ids = (if source_ids = [] then [rq_target_id request] else source_ids);
          morphism_id = generated_id ''morphism:review''
            [target_kind_stem (rq_target_kind request), rq_target_id request, action_stem action,
             rq_target_revision_id request]
      in \<lparr>mor_id = morphism_id,
          morphism_type = morphism_type_for_review (rq_target_kind request) action,
          mor_source_revision_id = Some (revision_id (cs_revision cs)),
          mor_target_revision_id = rq_target_revision_id request,
          mor_added_ids = [], mor_updated_ids = [], mor_retired_ids = [],
          mor_preserved_ids =
            (if has_known_id cs (rq_target_id request) then [rq_target_id request] else []),
          mor_violated_invariant_ids = [],
          mor_review_status = RsAccepted,
          mor_evidence_ids = rq_evidence_ids request,
          mor_source_ids = source_ids,
          mor_metadata = review_metadata e request outcome morphism_id\<rparr>)"

section \<open>Properties\<close>

lemma target_kind_round [simp]: "target_kind_of (JString (target_kind_value k)) = Some k"
  by (cases k) (simp_all add: target_kind_of_def target_kinds_def)

lemma review_action_round [simp]: "review_action_of (JString (review_action_value a)) = Some a"
  by (cases a) (simp_all add: review_action_of_def review_actions_def)

lemma review_metadata_lookup:
  "fmlookup (review_metadata e r s i) ''native_review_schema_version'' = Some (JNumber (int review_schema_version))"
  "fmlookup (review_metadata e r s i) ''review_id'' = Some (JString (generated_id ''review'' [i]))"
  "fmlookup (review_metadata e r s i) ''target_kind'' = Some (JString (target_kind_value (rq_target_kind r)))"
  "fmlookup (review_metadata e r s i) ''target_id'' = Some (JString (rq_target_id r))"
  "fmlookup (review_metadata e r s i) ''action'' = Some (JString (review_action_value (rq_action r)))"
  "fmlookup (review_metadata e r s i) ''outcome_review_status'' = Some (JString (status_value e s))"
  "fmlookup (review_metadata e r s i) ''reviewer_id'' = Some (JString (reviewer_id r))"
  "fmlookup (review_metadata e r s i) ''reviewed_at'' = Some (JString (reviewed_at r))"
  "fmlookup (review_metadata e r s i) ''reason'' = Some (JString (trim (reason r)))"
  "fmlookup (review_metadata e r s i) ''payload'' = None"
  by (simp_all add: review_metadata_def)

text \<open>
  Claim C31. A review morphism is read back as the review it was built from: for every target kind
  the generic builder serves, with usable ids, a reason and a time, and a review-status codec that
  round-trips, \<open>canonical_review\<close> returns the target, the action and the outcome of that action.
\<close>

theorem review_round_trip:
  assumes "rq_target_kind r \<noteq> TkExecutionTopology" "rq_action r = action"
    "\<not> blank (reason r)" "\<not> blank (reviewed_at r)"
    "\<And>s. status_of e (JString (status_value e s)) = Some s"
    "valid_id e (rq_target_id r)" "valid_id e (reviewer_id r)"
    "valid_id e (generated_id ''review'' [mor_id (build_review_morphism_validated e cs action r)])"
  shows "canonical_review e (build_review_morphism_validated e cs action r) =
     Some \<lparr>cr_target_kind = rq_target_kind r, cr_target_id = rq_target_id r, cr_action = action,
           cr_outcome = outcome_status action, cr_execution_topology = None\<rparr>"
  using assms
  by (simp add: canonical_review_def build_review_morphism_validated_def Let_def get_str_def
      review_metadata_lookup review_schema_version_def morphism_type_for_review_def)

definition sample_status_value :: "review_status \<Rightarrow> string" where
  "sample_status_value s = (case s of RsUnreviewed \<Rightarrow> ''unreviewed'' | RsReviewed \<Rightarrow> ''reviewed''
     | RsAccepted \<Rightarrow> ''accepted'' | RsRejected \<Rightarrow> ''rejected'')"

definition sample_env :: env where
  "sample_env =
     \<lparr>env_payload = (\<lambda>_. Ok default_payload), valid_id = (\<lambda>s. \<not> blank s),
      status_value = sample_status_value,
      status_of = (\<lambda>j. find (\<lambda>s. JString (sample_status_value s) = j)
         [RsUnreviewed, RsReviewed, RsAccepted, RsRejected]),
      has_review_action = (\<lambda>s. s \<noteq> RsUnreviewed),
      binding_of = (\<lambda>_. None),
      generated_provenance = (\<lambda>t n. \<lparr>prov_review_status = RsUnreviewed,
         prov_confidence = JNumber (int n), prov_rest = JString t\<rparr>),
      confidence_of = (\<lambda>n. JNumber (int n))\<rparr>"

lemma sample_env_status: "status_of sample_env (JString (status_value sample_env s)) = Some s"
  by (cases s) (simp_all add: sample_env_def sample_status_value_def)

end
