(* ===== verification/Native_Validation.thy ===== *)
theory Native_Validation
  imports Canonical_Review
begin

text \<open>
  \<open>src/native_eval/validation.rs\<close>: the validation every evaluation starts with. A violation is recorded
  with its code, the record it is about and the field; its message text is not modelled. The
  validators append to one vector; here each returns what it appends.
\<close>

datatype violation_code =
    SchemaMismatch | UnsupportedSchemaVersion | DuplicateId | EmptyRequiredField | SpaceMismatch
  | DanglingReference | InvalidMorphism | InvalidMorphismLog

record violation =
  vio_code :: violation_code
  vio_record_id :: "id option"
  vio_field :: string

definition violation_unless :: "bool \<Rightarrow> violation_code \<Rightarrow> id \<Rightarrow> string \<Rightarrow> violation list" where
  "violation_unless ok code record_id field =
     (if ok then [] else [\<lparr>vio_code = code, vio_record_id = Some record_id, vio_field = field\<rparr>])"

lemma violation_unless_Nil [simp]: "violation_unless ok c i f = [] \<longleftrightarrow> ok"
  by (simp add: violation_unless_def)

section \<open>Source boundary\<close>

definition validate_source_boundary_value ::
  "env \<Rightarrow> json option \<Rightarrow> id \<Rightarrow> string \<Rightarrow> violation list" where
  "validate_source_boundary_value e value record_id field_prefix =
     (case value of
        None \<Rightarrow> violation_unless False EmptyRequiredField record_id field_prefix
      | Some v \<Rightarrow>
         (case as_object v of
            None \<Rightarrow> violation_unless False EmptyRequiredField record_id field_prefix
          | Some boundary \<Rightarrow>
             (let str = get_str boundary;
                  arr = (\<lambda>k. Option.bind (fmlookup boundary k) as_array);
                  at = (\<lambda>k. field_prefix @ ''.'' @ k);
                  check = (\<lambda>ok k. violation_unless ok EmptyRequiredField record_id (at k))
              in check (case str ''id'' of Some s \<Rightarrow> valid_id e s | None \<Rightarrow> False) ''id''
               @ check (case arr ''included_sources'' of Some xs \<Rightarrow> xs \<noteq> [] | None \<Rightarrow> False)
                   ''included_sources''
               @ check (case arr ''adapters'' of Some xs \<Rightarrow> xs \<noteq> [] | None \<Rightarrow> False) ''adapters''
               @ check (case str ''accepted_fact_policy'' of Some s \<Rightarrow> \<not> blank s | None \<Rightarrow> False)
                   ''accepted_fact_policy''
               @ check (case str ''inference_policy'' of Some s \<Rightarrow> \<not> blank s | None \<Rightarrow> False)
                   ''inference_policy''
               @ check (arr ''information_loss'' \<noteq> None) ''information_loss'')))"

definition validate_schema :: "case_space \<Rightarrow> violation list" where
  "validate_schema cs =
     violation_unless (cs_schema cs = native_case_space_schema) SchemaMismatch
       (case_space_id cs) ''schema''
     @ violation_unless (cs_schema_version cs = native_case_space_schema_version)
         UnsupportedSchemaVersion (case_space_id cs) ''schema_version''"

definition validate_source_boundary :: "env \<Rightarrow> case_space \<Rightarrow> violation list" where
  "validate_source_boundary e cs =
     validate_source_boundary_value e (fmlookup (cs_metadata cs) ''source_boundary'')
       (case_space_id cs) ''metadata.source_boundary''"

section \<open>Declared ids\<close>

definition insert_id :: "id \<Rightarrow> id set \<times> violation list \<Rightarrow> id set \<times> violation list" where
  "insert_id i st =
     (let (ids, violations) = st
      in (insert i ids, violations @ violation_unless (i \<notin> ids) DuplicateId i ''id''))"

definition validate_cell :: "case_space \<Rightarrow> case_cell \<Rightarrow> violation list" where
  "validate_cell cs cell =
     violation_unless (\<not> blank (cell_title cell)) EmptyRequiredField (cell_id cell) ''title''
     @ violation_unless (cell_space_id cell = space_id cs) SpaceMismatch (cell_id cell) ''space_id''"

definition collect_cell ::
  "case_space \<Rightarrow> case_cell \<Rightarrow> id set \<times> violation list \<Rightarrow> id set \<times> violation list" where
  "collect_cell cs cell st =
     (let (ids, violations) = insert_id (cell_id cell) st
      in (ids, violations @ validate_cell cs cell))"

definition collect_entry ::
  "morphism_log_entry \<Rightarrow> id set \<times> violation list \<Rightarrow> id set \<times> violation list" where
  "collect_entry entry st =
     (let (ids, violations) = insert_id (entry_morphism_id entry) (insert_id (entry_id entry) st);
          ids = insert (entry_target_revision_id entry) ids
      in (case entry_source_revision_id entry of
            Some source \<Rightarrow> insert source ids | None \<Rightarrow> ids, violations))"

definition collect_declared_ids :: "case_space \<Rightarrow> id set \<times> violation list" where
  "collect_declared_ids cs =
     fold collect_entry (morphism_log cs)
       (insert_id (revision_id (cs_revision cs))
         (fold (\<lambda>projection. insert_id (projection_id projection)) (projections cs)
           (fold (\<lambda>relation. insert_id (rel_id relation)) (case_relations cs)
             (fold (collect_cell cs) (case_cells cs) ({}, [])))))"

section \<open>References\<close>

definition require_id :: "id set \<Rightarrow> id \<Rightarrow> string \<Rightarrow> id \<Rightarrow> violation list" where
  "require_id ids record_id field target_id =
     violation_unless (target_id \<in> ids) DanglingReference record_id field"

definition validate_relation_references :: "case_space \<Rightarrow> id set \<Rightarrow> violation list" where
  "validate_relation_references cs ids =
     concat (map (\<lambda>relation.
         require_id ids (rel_id relation) ''from_id'' (rel_from_id relation)
         @ require_id ids (rel_id relation) ''to_id'' (rel_to_id relation)
         @ concat (map (require_id ids (rel_id relation) ''evidence_ids'') (rel_evidence_ids relation)))
       (case_relations cs))"

definition validate_projection_references :: "case_space \<Rightarrow> id set \<Rightarrow> violation list" where
  "validate_projection_references cs ids =
     concat (map (\<lambda>p.
         require_id ids (projection_id p) ''projection.revision_id'' (proj_revision_id p)
         @ concat (map (require_id ids (projection_id p) ''projection_cell_ids'')
             (represented_cell_ids p @ omitted_cell_ids p))
         @ concat (map (require_id ids (projection_id p) ''projection_relation_ids'')
             (represented_relation_ids p @ omitted_relation_ids p))
         @ concat (map (require_id ids (projection_id p) ''projection.information_loss.ids'')
             (concat (map (\<lambda>l. loss_represented_ids l @ loss_omitted_ids l) (information_loss p)))))
       (projections cs))"

section \<open>Morphism log\<close>

definition validate_log_entry_contract ::
  "case_space \<Rightarrow> morphism_log_entry \<Rightarrow> nat \<Rightarrow> violation list" where
  "validate_log_entry_contract cs entry expected_sequence =
     violation_unless (entry_schema entry = native_morphism_log_entry_schema) InvalidMorphismLog
       (entry_id entry) ''schema''
     @ violation_unless (entry_schema_version entry = native_case_space_schema_version)
         UnsupportedSchemaVersion (entry_id entry) ''schema_version''
     @ violation_unless (entry_case_space_id entry = case_space_id cs) InvalidMorphismLog
         (entry_id entry) ''case_space_id''
     @ violation_unless (entry_sequence entry = expected_sequence) InvalidMorphismLog
         (entry_id entry) ''sequence''"

definition validate_lift_morphism_metadata :: "env \<Rightarrow> morphism_log_entry \<Rightarrow> violation list" where
  "validate_lift_morphism_metadata e entry =
     (let m = entry_morphism entry;
          is_lift_like = (case morphism_type m of
              MtCreate \<Rightarrow> True | MtMigration \<Rightarrow> True | MtCustom extension \<Rightarrow> extension = ''lift''
            | _ \<Rightarrow> False);
          lift_semantics = (case get_str (mor_metadata m) ''lift_semantics'' of
              Some s \<Rightarrow> \<not> blank s | None \<Rightarrow> False)
      in violation_unless is_lift_like InvalidMorphism (entry_id entry) ''morphism.morphism_type''
       @ violation_unless lift_semantics EmptyRequiredField (entry_id entry)
           ''morphism.metadata.lift_semantics''
       @ validate_source_boundary_value e (fmlookup (mor_metadata m) ''source_boundary'')
           (entry_id entry) ''morphism.metadata.source_boundary'')"

definition validate_morphism_contract ::
  "env \<Rightarrow> morphism_log_entry \<Rightarrow> id option \<Rightarrow> violation list" where
  "validate_morphism_contract e entry previous =
     violation_unless (entry_morphism_id entry = mor_id (entry_morphism entry)) InvalidMorphism
       (entry_id entry) ''morphism_id''
     @ violation_unless (entry_source_revision_id entry = mor_source_revision_id (entry_morphism entry))
         InvalidMorphism (entry_id entry) ''source_revision_id''
     @ violation_unless (entry_target_revision_id entry = mor_target_revision_id (entry_morphism entry))
         InvalidMorphism (entry_id entry) ''target_revision_id''
     @ violation_unless (\<not> (previous = None \<and> entry_source_revision_id entry \<noteq> None))
         InvalidMorphismLog (entry_id entry) ''source_revision_id''
     @ violation_unless (\<not> (previous \<noteq> None \<and> entry_source_revision_id entry \<noteq> previous))
         InvalidMorphismLog (entry_id entry) ''source_revision_id''
     @ (if previous = None then validate_lift_morphism_metadata e entry else [])"

definition validate_materialized_revision :: "case_space \<Rightarrow> id \<Rightarrow> violation list" where
  "validate_materialized_revision cs last_revision_id =
     (let i = revision_id (cs_revision cs) in
      violation_unless (i = last_revision_id) InvalidMorphismLog i ''revision.revision_id''
      @ violation_unless (rev_case_space_id (cs_revision cs) = case_space_id cs) InvalidMorphismLog i
          ''revision.case_space_id''
      @ (case morphism_log cs of [] \<Rightarrow> []
         | _ \<Rightarrow> violation_unless
                  (rev_checksum (cs_revision cs) = replay_checksum (last (morphism_log cs)))
                  InvalidMorphismLog i ''revision.checksum''))"

fun validate_entries ::
  "env \<Rightarrow> case_space \<Rightarrow> id set \<Rightarrow> nat \<Rightarrow> id option \<Rightarrow> morphism_log_entry list
   \<Rightarrow> violation list \<times> id option" where
  "validate_entries e cs ids n previous [] = ([], previous)"
| "validate_entries e cs ids n previous (entry # rest) =
     (let m = entry_morphism entry;
          here = validate_log_entry_contract cs entry n
            @ validate_morphism_contract e entry previous
            @ concat (map (require_id ids (entry_id entry) ''morphism.ids'')
                (mor_added_ids m @ mor_updated_ids m @ mor_retired_ids m @ mor_preserved_ids m
                 @ mor_evidence_ids m));
          (there, final) =
            validate_entries e cs ids (Suc n) (Some (entry_target_revision_id entry)) rest
      in (here @ there, final))"

definition validate_morphism_log :: "env \<Rightarrow> case_space \<Rightarrow> id set \<Rightarrow> violation list" where
  "validate_morphism_log e cs ids =
     (let (entries, final) = validate_entries e cs ids 1 None (morphism_log cs)
      in violation_unless (morphism_log cs \<noteq> []) InvalidMorphismLog (revision_id (cs_revision cs))
           ''morphism_log''
       @ entries
       @ (case final of Some last_id \<Rightarrow> validate_materialized_revision cs last_id | None \<Rightarrow> []))"

definition validate_native_case_space :: "env \<Rightarrow> case_space \<Rightarrow> (violation list, unit) result" where
  "validate_native_case_space e cs =
     (let (ids, declared) = collect_declared_ids cs;
          violations = validate_schema cs
            @ validate_source_boundary e cs
            @ declared
            @ validate_relation_references cs ids
            @ validate_projection_references cs ids
            @ validate_morphism_log e cs ids
      in if violations = [] then Ok () else Err violations)"

section \<open>What a valid space satisfies\<close>

lemma insert_id_pair:
  "insert_id i (ids, vs) = (insert i ids, vs @ violation_unless (i \<notin> ids) DuplicateId i ''id'')"
  by (simp add: insert_id_def)

lemma collect_cell_pair:
  "collect_cell cs c (ids, vs) =
     (insert (cell_id c) ids,
      vs @ violation_unless (cell_id c \<notin> ids) DuplicateId (cell_id c) ''id'' @ validate_cell cs c)"
  by (simp add: collect_cell_def insert_id_pair)

lemma insert_ids_fold:
  "fold (\<lambda>x. insert_id (k x)) xs (ids, vs) = (ids', []) \<longleftrightarrow>
     vs = [] \<and> distinct (map k xs) \<and> k ` set xs \<inter> ids = {} \<and> ids' = ids \<union> k ` set xs"
proof (induction xs arbitrary: ids vs)
  case (Cons x xs)
  show ?case by (simp add: insert_id_pair Cons.IH) blast
qed auto

lemma insert_cells_fold:
  "fold (collect_cell cs) cells (ids, vs) = (ids', []) \<longleftrightarrow>
     vs = [] \<and> distinct (map cell_id cells) \<and> cell_id ` set cells \<inter> ids = {} \<and>
     (\<forall>c \<in> set cells. validate_cell cs c = []) \<and> ids' = ids \<union> cell_id ` set cells"
proof (induction cells arbitrary: ids vs)
  case (Cons x xs)
  show ?case by (simp add: collect_cell_pair Cons.IH disjoint_insert) satx
qed auto

lemma insert_entries_nil: "snd (fold collect_entry es st) = [] \<Longrightarrow> snd st = []"
proof (induction es arbitrary: st)
  case (Cons entry es)
  have "snd (collect_entry entry st) = []"
    by (rule Cons.IH) (use Cons.prems in \<open>simp only: fold_simps\<close>)
  then show ?case by (cases st) (simp add: insert_id_def collect_entry_def Let_def)
qed simp

lemma declared_ids_distinct:
  assumes "snd (collect_declared_ids cs) = []"
  shows "distinct (map cell_id (case_cells cs) @ map rel_id (case_relations cs)
      @ map projection_id (projections cs) @ [revision_id (cs_revision cs)])"
    "\<forall>c \<in> set (case_cells cs). \<not> blank (cell_title c) \<and> cell_space_id c = space_id cs"
proof -
  let ?c = "fold (collect_cell cs) (case_cells cs) ({}, [])"
  let ?r = "fold (\<lambda>relation. insert_id (rel_id relation)) (case_relations cs) ?c"
  let ?p = "fold (\<lambda>projection. insert_id (projection_id projection)) (projections cs) ?r"
  have nil: "snd (insert_id (revision_id (cs_revision cs)) ?p) = []"
    using assms unfolding collect_declared_ids_def by (rule insert_entries_nil)
  obtain ids3 v3 where p: "?p = (ids3, v3)" by fastforce
  obtain ids2 v2 where r: "?r = (ids2, v2)" by fastforce
  obtain ids1 v1 where c: "?c = (ids1, v1)" by fastforce
  from nil p have v3: "v3 = []" "revision_id (cs_revision cs) \<notin> ids3"
    by (auto simp: insert_id_def)
  with p r have "v2 = []" "distinct (map projection_id (projections cs))"
    "projection_id ` set (projections cs) \<inter> ids2 = {}"
    "ids3 = ids2 \<union> projection_id ` set (projections cs)"
    by (simp_all add: insert_ids_fold)
  moreover from this(1) r c have "v1 = []" "distinct (map rel_id (case_relations cs))"
    "rel_id ` set (case_relations cs) \<inter> ids1 = {}" "ids2 = ids1 \<union> rel_id ` set (case_relations cs)"
    by (simp_all add: insert_ids_fold)
  moreover from this(1) c have cells: "distinct (map cell_id (case_cells cs))"
    "\<forall>c \<in> set (case_cells cs). validate_cell cs c = []" "ids1 = cell_id ` set (case_cells cs)"
    by (simp_all add: insert_cells_fold)
  ultimately show "distinct (map cell_id (case_cells cs) @ map rel_id (case_relations cs)
      @ map projection_id (projections cs) @ [revision_id (cs_revision cs)])"
    using v3(2) by auto
  from cells(2) show "\<forall>c \<in> set (case_cells cs). \<not> blank (cell_title c) \<and> cell_space_id c = space_id cs"
    by (auto simp: validate_cell_def)
qed

lemma validate_entries_chain:
  assumes "fst (validate_entries e cs ids n previous es) = []" "i < length es"
  shows "entry_sequence (es ! i) = n + i \<and>
     entry_source_revision_id (es ! i) =
       (if i = 0 then previous else Some (entry_target_revision_id (es ! (i - 1)))) \<and>
     entry_morphism_id (es ! i) = mor_id (entry_morphism (es ! i)) \<and>
     entry_target_revision_id (es ! i) = mor_target_revision_id (entry_morphism (es ! i))"
  using assms
proof (induction es arbitrary: n previous i)
  case (Cons entry es)
  from Cons.prems(1) have here: "validate_log_entry_contract cs entry n = []"
      "validate_morphism_contract e entry previous = []"
    and there: "fst (validate_entries e cs ids (Suc n) (Some (entry_target_revision_id entry)) es) = []"
    by (auto simp: Let_def split: prod.splits)
  show ?case
  proof (cases i)
    case 0
    with here show ?thesis
      by (cases previous) (auto simp: validate_log_entry_contract_def validate_morphism_contract_def)
  next
    case (Suc j)
    with Cons.IH [OF there, of j] Cons.prems(2) show ?thesis by (cases j) auto
  qed
qed simp

lemma validate_entries_final:
  "snd (validate_entries e cs ids n previous es) =
     (if es = [] then previous else Some (entry_target_revision_id (last es)))"
proof (induction es arbitrary: n previous)
  case (Cons entry es)
  from Cons.IH [of "Suc n" "Some (entry_target_revision_id entry)"] show ?case
    by (cases "validate_entries e cs ids (Suc n) (Some (entry_target_revision_id entry)) es")
      (auto simp: Let_def)
qed simp

lemma validated_ids:
  assumes "validate_native_case_space e cs = Ok ()"
  shows "distinct (map cell_id (case_cells cs))" "distinct (map rel_id (case_relations cs))"
proof -
  from assms have "snd (collect_declared_ids cs) = []"
    by (auto simp: validate_native_case_space_def Let_def split: prod.splits if_splits)
  from declared_ids_distinct(1) [OF this]
  show "distinct (map cell_id (case_cells cs))" "distinct (map rel_id (case_relations cs))"
    by simp_all
qed

text \<open>
  Claim C32. A space that passes validation is a well-linked history: ids of cells, relations and
  projections are pairwise distinct, every cell has a title and the space's id, the log is not
  empty, its entries are numbered from one, each starts from the revision the previous one produced,
  and the materialized revision is the target of the last entry and carries its checksum.
\<close>

theorem validated_space:
  assumes "validate_native_case_space e cs = Ok ()"
  shows "distinct (map cell_id (case_cells cs) @ map rel_id (case_relations cs)
      @ map projection_id (projections cs) @ [revision_id (cs_revision cs)]) \<and>
    (\<forall>c \<in> set (case_cells cs). \<not> blank (cell_title c) \<and> cell_space_id c = space_id cs) \<and>
    morphism_log cs \<noteq> [] \<and>
    (\<forall>i < length (morphism_log cs). entry_sequence (morphism_log cs ! i) = Suc i \<and>
       entry_source_revision_id (morphism_log cs ! i) =
         (if i = 0 then None else Some (entry_target_revision_id (morphism_log cs ! (i - 1))))) \<and>
    revision_id (cs_revision cs) = entry_target_revision_id (last (morphism_log cs)) \<and>
    rev_checksum (cs_revision cs) = replay_checksum (last (morphism_log cs))"
proof -
  obtain ids declared where d: "collect_declared_ids cs = (ids, declared)" by fastforce
  obtain entries final where f: "validate_entries e cs ids 1 None (morphism_log cs) = (entries, final)"
    by fastforce
  from assms d f have declared: "declared = []" and log: "morphism_log cs \<noteq> []" "entries = []"
    and fin: "(case final of Some i \<Rightarrow> validate_materialized_revision cs i | None \<Rightarrow> []) = []"
    by (auto simp: validate_native_case_space_def Let_def validate_morphism_log_def split: if_splits)
  from validate_entries_final [of e cs ids 1 None "morphism_log cs"] f log(1)
  have "final = Some (entry_target_revision_id (last (morphism_log cs)))" by simp
  with fin log(1) have "revision_id (cs_revision cs) = entry_target_revision_id (last (morphism_log cs))"
    "rev_checksum (cs_revision cs) = replay_checksum (last (morphism_log cs))"
    by (auto simp: validate_materialized_revision_def Let_def split: list.splits)
  with declared_ids_distinct [of cs] validate_entries_chain [of e cs ids 1 None "morphism_log cs"]
    d declared f log show ?thesis by auto
qed

end
