(* ===== verification/Native_Eval.thy ===== *)
theory Native_Eval
  imports Native_Validation "HOL-Library.Product_Lexorder"
begin

text \<open>
  The evaluator of \<open>src/native_eval.rs\<close> and \<open>src/native_eval/graph.rs\<close>: the index of a case space, the
  log-derived trust of evidence, the obstructions of every cell, and readiness. The reporting
  sections are in \<open>Native_Eval_Sections\<close>.
\<close>

section \<open>Data\<close>

datatype obstruction_type =
    OtUnresolvedDependency | OtExternalWait | OtMissingEvidence | OtMissingProof | OtContradiction
  | OtReviewRequired

record obstruction =
  ob_id :: id
  ob_type :: obstruction_type
  affected_ids :: "id list"
  source_constraint_id :: id
  ob_witness_ids :: "id list"
  ob_explanation :: string
  ob_severity :: severity
  required_resolution :: string
  blocking :: bool
  ob_provenance :: provenance

datatype readiness_check =
  RcLifecycle | RcDependencies | RcWaits | RcEvidence | RcProof | RcContradictions | RcReviews

text \<open>The derived order of the enum is the order of its variants.\<close>

fun check_rank :: "readiness_check \<Rightarrow> nat" where
  "check_rank RcLifecycle = 0"
| "check_rank RcDependencies = 1"
| "check_rank RcWaits = 2"
| "check_rank RcEvidence = 3"
| "check_rank RcProof = 4"
| "check_rank RcContradictions = 5"
| "check_rank RcReviews = 6"

lemma check_rank_inj: "check_rank a = check_rank b \<Longrightarrow> a = b"
  by (cases a; cases b) simp_all

instantiation readiness_check :: linorder
begin

definition less_eq_readiness_check :: "readiness_check \<Rightarrow> readiness_check \<Rightarrow> bool" where
  "less_eq_readiness_check a b \<longleftrightarrow> check_rank a \<le> check_rank b"

definition less_readiness_check :: "readiness_check \<Rightarrow> readiness_check \<Rightarrow> bool" where
  "less_readiness_check a b \<longleftrightarrow> check_rank a < check_rank b"

instance
  by standard (auto simp: less_eq_readiness_check_def less_readiness_check_def
      intro: check_rank_inj)

end

record rule_result =
  rr_id :: id
  rule_id :: id
  target_cell_id :: id
  rr_ready :: bool
  rr_obstruction_ids :: "id list"

record cell_evaluation =
  ce_cell_id :: id
  ce_lifecycle :: case_cell_lifecycle
  ce_hard_dependency_ids :: "id list"
  ce_wait_ids :: "id list"
  ce_evidence_requirement_ids :: "id list"
  ce_proof_requirement_ids :: "id list"
  ce_obstructions :: "obstruction list"
  ce_rule_results :: "rule_result list"

record not_ready_cell =
  nr_cell_id :: id
  nr_lifecycle :: case_cell_lifecycle
  nr_hard_dependency_ids :: "id list"
  nr_wait_ids :: "id list"
  nr_evidence_requirement_ids :: "id list"
  nr_proof_requirement_ids :: "id list"
  nr_obstruction_ids :: "id list"

record readiness =
  evaluated_cell_ids :: "id list"
  ready_cell_ids :: "id list"
  not_ready_cells :: "not_ready_cell list"
  waiting_cell_ids :: "id list"
  blocked_cell_ids :: "id list"
  rd_rule_results :: "rule_result list"

section \<open>What the log says\<close>

fun obstruction_type_stem :: "obstruction_type \<Rightarrow> string" where
  "obstruction_type_stem OtUnresolvedDependency = ''unresolved-dependency''"
| "obstruction_type_stem OtExternalWait = ''external-wait''"
| "obstruction_type_stem OtMissingEvidence = ''missing-evidence''"
| "obstruction_type_stem OtMissingProof = ''missing-proof''"
| "obstruction_type_stem OtContradiction = ''contradiction''"
| "obstruction_type_stem OtReviewRequired = ''review-required''"

definition entry_coverage :: "env \<Rightarrow> bool \<Rightarrow> morphism_log_entry \<Rightarrow> (id \<times> id) list" where
  "entry_coverage e is_genesis entry =
     (let m = entry_morphism entry in
      if \<not> is_genesis \<and> morphism_type m \<noteq> MtEvidenceAttach then []
      else case morphism_payload_of (env_payload e) m of
             Inl _ \<Rightarrow> []
           | Inr payload \<Rightarrow>
               (if is_genesis then
                  (let genesis_ids = set (map cell_id (added_cells payload))
                   in concat (map (\<lambda>cell. map (Pair (cell_id cell))
                          (filter (\<lambda>target. target \<in> genesis_ids) (cell_structure_ids cell)))
                        (filter (\<lambda>cell. cell_type cell = CtEvidence) (added_cells payload))))
                else [])
               @ map (\<lambda>relation. (rel_from_id relation, rel_to_id relation))
                   (filter (\<lambda>relation. relation_type relation
                        \<in> {RtSatisfiesEvidenceRequirement, RtVerifies, RtAccepts})
                     (added_relations payload)))"

definition canonical_evidence_coverage :: "env \<Rightarrow> case_space \<Rightarrow> (id \<times> id) set" where
  "canonical_evidence_coverage e cs =
     set (concat (map (\<lambda>(index, entry). entry_coverage e (index = 0) entry)
       (List.enumerate 0 (morphism_log cs))))"

definition trusted_coverage_targets :: "env \<Rightarrow> case_space \<Rightarrow> (id \<Rightarrow> bool) \<Rightarrow> id set" where
  "trusted_coverage_targets e cs is_trusted =
     snd ` Set.filter (\<lambda>p. is_trusted (fst p)) (canonical_evidence_coverage e cs)"

text \<open>The coverage a review of one evidence id makes live, in the order of the set.\<close>

definition recorded_coverage_targets :: "env \<Rightarrow> case_space \<Rightarrow> id \<Rightarrow> id list" where
  "recorded_coverage_targets e cs evidence_id =
     map snd (filter (\<lambda>(covering, _). covering = evidence_id)
       (sorted_list_of_set (canonical_evidence_coverage e cs)))"

definition latest_evidence_review_entries :: "case_space \<Rightarrow> (id, morphism_log_entry) fmap" where
  "latest_evidence_review_entries cs =
     fold (\<lambda>entry entries.
         let md = mor_metadata (entry_morphism entry) in
         if get_str md ''target_kind'' \<noteq> Some ''evidence'' then entries
         else case get_str md ''target_id'' of
                None \<Rightarrow> entries
              | Some evidence_id \<Rightarrow> fmupd evidence_id entry entries)
       (morphism_log cs) fmempty"

definition evidence_review_status :: "env \<Rightarrow> morphism_log_entry \<Rightarrow> id \<Rightarrow> review_status" where
  "evidence_review_status e entry evidence_id =
     (case canonical_review e (entry_morphism entry) of
        None \<Rightarrow> RsRejected
      | Some review \<Rightarrow>
          if cr_target_kind review \<noteq> TkEvidence \<or> cr_target_id review \<noteq> evidence_id then RsRejected
          else if cr_action review = RaAccept \<and> cr_outcome review = RsAccepted then RsAccepted
          else RsRejected)"

definition latest_evidence_review_statuses :: "env \<Rightarrow> case_space \<Rightarrow> (id, review_status) fmap" where
  "latest_evidence_review_statuses e cs =
     fmmap_keys (\<lambda>evidence_id entry. evidence_review_status e entry evidence_id)
       (latest_evidence_review_entries cs)"

definition latest_evidence_review_status :: "env \<Rightarrow> case_space \<Rightarrow> id \<Rightarrow> review_status option" where
  "latest_evidence_review_status e cs evidence_id =
     fmlookup (latest_evidence_review_statuses e cs) evidence_id"

definition effective_evidence_review_status ::
  "env \<Rightarrow> case_space \<Rightarrow> case_cell \<Rightarrow> review_status option" where
  "effective_evidence_review_status e cs cell =
     (if cell_type cell \<noteq> CtEvidence then None
      else Some (case latest_evidence_review_status e cs (cell_id cell) of
                   Some status \<Rightarrow> status
                 | None \<Rightarrow> prov_review_status (cell_provenance cell)))"

section \<open>Index and context\<close>

record case_index =
  relations_by_from :: "(id, case_relation list) fmap"
  relations_by_to :: "(id, case_relation list) fmap"
  completed_targets :: "id set"
  index_review_statuses :: "(id, review_status) fmap"

definition from_case_space :: "env \<Rightarrow> case_space \<Rightarrow> case_index" where
  "from_case_space e cs =
     \<lparr>relations_by_from = fold (\<lambda>r. entry_push (rel_from_id r) r) (case_relations cs) fmempty,
      relations_by_to = fold (\<lambda>r. entry_push (rel_to_id r) r) (case_relations cs) fmempty,
      completed_targets = set (map rel_to_id (filter (\<lambda>r. relation_strength r = StHard
          \<and> relation_type r \<in> {RtCompletes, RtSupersedes}) (case_relations cs))),
      index_review_statuses = latest_evidence_review_statuses e cs\<rparr>"

definition relations_from :: "case_index \<Rightarrow> id \<Rightarrow> case_relation list" where
  "relations_from index i = get_or_nil (relations_by_from index) i"

definition relations_to :: "case_index \<Rightarrow> id \<Rightarrow> case_relation list" where
  "relations_to index i = get_or_nil (relations_by_to index) i"

definition direct_targets :: "case_index \<Rightarrow> id \<Rightarrow> case_relation_type \<Rightarrow> id list" where
  "direct_targets index i t =
     dedupe_ids (map rel_to_id
       (filter (\<lambda>r. relation_strength r = StHard \<and> relation_type r = t) (relations_from index i)))"

record eval_context =
  ctx_space :: case_space
  ctx_index :: case_index
  ctx_cells :: "(id, case_cell) fmap"
  trusted_evidence_ids :: "id set"
  ctx_coverage_targets :: "id set"
  satisfied_requirement_ids :: "id set"

definition readiness_subject :: "case_cell \<Rightarrow> bool" where
  "readiness_subject cell \<longleftrightarrow>
     cell_type cell \<notin> {CtEvidence, CtReview, CtProjection, CtRevision, CtMorphism, CtExternalRef}
     \<and> cell_lifecycle cell \<notin> {LcResolved, LcAccepted, LcRetired, LcRejected, LcSuperseded}"

definition requirement_ids :: "eval_context \<Rightarrow> case_cell \<Rightarrow> case_relation_type \<Rightarrow> id list" where
  "requirement_ids ctx cell t = direct_targets (ctx_index ctx) (cell_id cell) t"

definition trusted_evidence_exists :: "eval_context \<Rightarrow> id \<Rightarrow> id \<Rightarrow> bool" where
  "trusted_evidence_exists ctx requirement_id i \<longleftrightarrow>
     requirement_id \<in> trusted_evidence_ids ctx
     \<or> requirement_id \<in> ctx_coverage_targets ctx
     \<or> i \<in> ctx_coverage_targets ctx"

definition evidence_requirement_satisfied :: "eval_context \<Rightarrow> id \<Rightarrow> id \<Rightarrow> bool" where
  "evidence_requirement_satisfied ctx i requirement_id =
     trusted_evidence_exists ctx requirement_id i"

definition compute_satisfied_requirement_ids :: "eval_context \<Rightarrow> id set" where
  "compute_satisfied_requirement_ids ctx =
     (let holders = fold (\<lambda>cell m.
            fold (\<lambda>requirement. entry_push requirement (cell_id cell))
              (requirement_ids ctx cell RtRequiresEvidence) m)
          (filter readiness_subject (case_cells (ctx_space ctx))) fmempty
      in set (filter (\<lambda>requirement.
            list_all (\<lambda>holder. evidence_requirement_satisfied ctx holder requirement)
              (get_or_nil holders requirement))
          (btree_keys holders)))"

definition trusted_evidence :: "env \<Rightarrow> case_space \<Rightarrow> id set" where
  "trusted_evidence e cs =
     set (map cell_id (filter (\<lambda>cell. cell_type cell = CtEvidence \<and>
         evidence_is_acceptable (native_evidence_trust_input cell
           (fmlookup (index_review_statuses (from_case_space e cs)) (cell_id cell))))
       (case_cells cs)))"

definition eval_context_new :: "env \<Rightarrow> case_space \<Rightarrow> eval_context" where
  "eval_context_new e cs =
     (let trusted = trusted_evidence e cs;
          ctx = \<lparr>ctx_space = cs, ctx_index = from_case_space e cs,
                 ctx_cells = collect_map (map (\<lambda>cell. (cell_id cell, cell)) (case_cells cs)),
                 trusted_evidence_ids = trusted,
                 ctx_coverage_targets = trusted_coverage_targets e cs (\<lambda>i. i \<in> trusted),
                 satisfied_requirement_ids = {}\<rparr>
      in ctx\<lparr>satisfied_requirement_ids := compute_satisfied_requirement_ids ctx\<rparr>)"

section \<open>Evaluating a cell\<close>

type_synonym by_check = "(readiness_check, obstruction list) fmap"

definition complete_cell :: "eval_context \<Rightarrow> id \<Rightarrow> bool" where
  "complete_cell ctx i =
     (case fmlookup (ctx_cells ctx) i of
        None \<Rightarrow> False
      | Some cell \<Rightarrow> cell_lifecycle cell \<in> {LcResolved, LcAccepted, LcRetired, LcSuperseded}
          \<or> prov_review_status (cell_provenance cell) = RsAccepted)"

definition wait_satisfied :: "eval_context \<Rightarrow> id \<Rightarrow> bool" where
  "wait_satisfied ctx wait_id \<longleftrightarrow>
     complete_cell ctx wait_id \<or> trusted_evidence_exists ctx wait_id wait_id"

definition proof_requirement_satisfied :: "eval_context \<Rightarrow> id \<Rightarrow> id \<Rightarrow> bool" where
  "proof_requirement_satisfied ctx i proof_id \<longleftrightarrow>
     (case fmlookup (ctx_cells ctx) proof_id of
        None \<Rightarrow> False
      | Some cell \<Rightarrow> cell_type cell = CtProof \<and> complete_cell ctx proof_id)
     \<or> trusted_evidence_exists ctx proof_id i"

definition contradiction_relations :: "eval_context \<Rightarrow> id \<Rightarrow> case_relation list" where
  "contradiction_relations ctx i =
     btree_values (collect_map (map (\<lambda>r. (rel_id r, r))
       (filter (\<lambda>r. relation_strength r = StHard
            \<and> relation_type r \<in> {RtContradicts, RtInvalidates, RtBlocks})
         (relations_from (ctx_index ctx) i @ relations_to (ctx_index ctx) i))))"

definition required_review_relations :: "eval_context \<Rightarrow> id \<Rightarrow> case_relation list" where
  "required_review_relations ctx i =
     filter (\<lambda>r. relation_strength r = StHard \<and> relation_type r \<in> {RtAccepts, RtRejects})
       (relations_from (ctx_index ctx) i)"

definition review_satisfied :: "eval_context \<Rightarrow> id \<Rightarrow> bool" where
  "review_satisfied ctx review_id =
     (case fmlookup (ctx_cells ctx) review_id of
        None \<Rightarrow> False
      | Some cell \<Rightarrow> cell_type cell = CtReview \<and>
          (cell_lifecycle cell = LcAccepted \<or> prov_review_status (cell_provenance cell) = RsAccepted))"

definition obstruction_new ::
  "env \<Rightarrow> obstruction_type \<Rightarrow> id \<Rightarrow> id \<Rightarrow> id \<Rightarrow> string \<Rightarrow> severity \<Rightarrow> string \<Rightarrow> obstruction" where
  "obstruction_new e t i witness constraint explanation sev resolution =
     \<lparr>ob_id = generated_id ''obstruction'' [obstruction_type_stem t, i, witness],
      ob_type = t, affected_ids = [i], source_constraint_id = constraint,
      ob_witness_ids = [witness], ob_explanation = explanation, ob_severity = sev,
      required_resolution = resolution, blocking = True,
      ob_provenance = generated_provenance e ''Native readiness obstruction'' 84\<rparr>"

definition review_accepted_constraint_id :: id where
  "review_accepted_constraint_id = ''constraint:native-review-accepted''"

definition dependency_obstruction :: "env \<Rightarrow> id \<Rightarrow> id \<Rightarrow> obstruction" where
  "dependency_obstruction e i dependency =
     obstruction_new e OtUnresolvedDependency i dependency ''constraint:native-dependency-closure''
       (i @ '' depends on unresolved cell '' @ dependency @ ''.'') SevHigh
       ''Resolve, accept, or retire the hard dependency before treating this cell as ready.''"

definition wait_obstruction :: "env \<Rightarrow> id \<Rightarrow> id \<Rightarrow> obstruction" where
  "wait_obstruction e i wait =
     obstruction_new e OtExternalWait i wait ''constraint:native-wait-resolution''
       (i @ '' waits for unresolved cell '' @ wait @ ''.'') SevMedium
       ''Record the waited-for event/review/evidence or explicitly waive the wait by accepted review.''"

definition evidence_obstruction :: "env \<Rightarrow> id \<Rightarrow> id \<Rightarrow> obstruction" where
  "evidence_obstruction e i requirement =
     obstruction_new e OtMissingEvidence i requirement ''constraint:native-evidence-availability''
       (i @ '' requires source-backed or accepted evidence '' @ requirement
          @ '', but none is available.'') SevMedium
       ''Attach source-backed evidence or promote inferred evidence through accepted review.''"

definition proof_obstruction :: "env \<Rightarrow> id \<Rightarrow> id \<Rightarrow> obstruction" where
  "proof_obstruction e i proof_id =
     obstruction_new e OtMissingProof i proof_id ''constraint:native-proof-availability''
       (i @ '' requires accepted proof '' @ proof_id @ '', but no accepted proof is available.'')
       SevMedium ''Complete or accept the proof cell, or attach accepted proof evidence.''"

definition contradiction_obstruction :: "env \<Rightarrow> id \<Rightarrow> id \<Rightarrow> obstruction" where
  "contradiction_obstruction e i relation =
     obstruction_new e OtContradiction i relation ''constraint:native-no-hard-contradiction''
       (i @ '' participates in hard contradictory relation '' @ relation @ ''.'') SevHigh
       ''Resolve or review the contradiction before treating this cell as ready.''"

definition review_obstruction :: "env \<Rightarrow> id \<Rightarrow> id \<Rightarrow> obstruction" where
  "review_obstruction e i review =
     obstruction_new e OtReviewRequired i review review_accepted_constraint_id
       (i @ '' requires accepted review '' @ review @ '', but it is not accepted.'') SevMedium
       ''Record an accepted review before treating this cell as ready.''"

text \<open>The six \<open>add_*_obstructions\<close> loops: push one obstruction for every id that fails its test.\<close>

definition push_failing ::
  "readiness_check \<Rightarrow> (id \<Rightarrow> bool) \<Rightarrow> (id \<Rightarrow> obstruction) \<Rightarrow> id list \<Rightarrow> by_check \<Rightarrow> by_check" where
  "push_failing check ok mk_ob ids by_check =
     fold (\<lambda>i m. if ok i then m else entry_push check (mk_ob i) m) ids by_check"

definition cell_by_check :: "env \<Rightarrow> eval_context \<Rightarrow> case_cell \<Rightarrow> by_check" where
  "cell_by_check e ctx cell =
     (let i = cell_id cell;
          m = push_failing RcDependencies (complete_cell ctx) (dependency_obstruction e i)
                (requirement_ids ctx cell RtDependsOn) fmempty;
          m = push_failing RcWaits (wait_satisfied ctx) (wait_obstruction e i)
                (requirement_ids ctx cell RtWaitsFor) m;
          m = push_failing RcEvidence (evidence_requirement_satisfied ctx i) (evidence_obstruction e i)
                (requirement_ids ctx cell RtRequiresEvidence) m;
          m = push_failing RcProof (proof_requirement_satisfied ctx i) (proof_obstruction e i)
                (requirement_ids ctx cell RtRequiresProof) m;
          m = push_failing RcContradictions (\<lambda>_. False) (contradiction_obstruction e i)
                (map rel_id (contradiction_relations ctx i)) m
      in push_failing RcReviews (review_satisfied ctx) (review_obstruction e i)
           (map rel_to_id (required_review_relations ctx i)) m)"

definition sorted_obstructions :: "by_check \<Rightarrow> obstruction list" where
  "sorted_obstructions by_check = sort_key ob_id (concat (btree_values by_check))"

fun default_rule_id :: "readiness_check \<Rightarrow> id" where
  "default_rule_id RcLifecycle = ''readiness:native-lifecycle-allows-work''"
| "default_rule_id RcDependencies = ''readiness:native-dependencies-resolved''"
| "default_rule_id RcWaits = ''readiness:native-waits-satisfied''"
| "default_rule_id RcEvidence = ''readiness:native-evidence-available''"
| "default_rule_id RcProof = ''readiness:native-proof-available''"
| "default_rule_id RcContradictions = ''readiness:native-no-contradictions''"
| "default_rule_id RcReviews = ''readiness:native-reviews-accepted''"

definition rule_results_for :: "case_cell \<Rightarrow> by_check \<Rightarrow> rule_result list" where
  "rule_results_for cell by_check =
     (let checks = btree_keys by_check;
          checks = (if checks = [] then [RcLifecycle] else checks)
      in map (\<lambda>check.
           let rule = default_rule_id check;
               ids = map ob_id (get_or_nil by_check check)
           in \<lparr>rr_id = generated_id ''readiness_result'' [cell_id cell, rule], rule_id = rule,
               target_cell_id = cell_id cell, rr_ready = (ids = []), rr_obstruction_ids = ids\<rparr>)
         checks)"

definition evaluate_cell :: "env \<Rightarrow> eval_context \<Rightarrow> case_cell \<Rightarrow> cell_evaluation" where
  "evaluate_cell e ctx cell =
     (let by_check = cell_by_check e ctx cell
      in \<lparr>ce_cell_id = cell_id cell, ce_lifecycle = cell_lifecycle cell,
          ce_hard_dependency_ids = requirement_ids ctx cell RtDependsOn,
          ce_wait_ids = requirement_ids ctx cell RtWaitsFor,
          ce_evidence_requirement_ids = requirement_ids ctx cell RtRequiresEvidence,
          ce_proof_requirement_ids = requirement_ids ctx cell RtRequiresProof,
          ce_obstructions = sorted_obstructions by_check,
          ce_rule_results = rule_results_for cell by_check\<rparr>)"

definition evaluate_cells :: "env \<Rightarrow> eval_context \<Rightarrow> cell_evaluation list" where
  "evaluate_cells e ctx =
     map (evaluate_cell e ctx) (filter readiness_subject (case_cells (ctx_space ctx)))"

section \<open>Readiness\<close>

definition readiness_result :: "case_space \<Rightarrow> cell_evaluation list \<Rightarrow> readiness" where
  "readiness_result cs results =
     (let blocked = (\<lambda>r. list_ex blocking (ce_obstructions r));
          not_ready = map (\<lambda>r. \<lparr>nr_cell_id = ce_cell_id r, nr_lifecycle = ce_lifecycle r,
              nr_hard_dependency_ids = ce_hard_dependency_ids r, nr_wait_ids = ce_wait_ids r,
              nr_evidence_requirement_ids = ce_evidence_requirement_ids r,
              nr_proof_requirement_ids = ce_proof_requirement_ids r,
              nr_obstruction_ids = map ob_id (filter blocking (ce_obstructions r))\<rparr>)
            (filter blocked results)
      in \<lparr>evaluated_cell_ids = map cell_id (filter readiness_subject (case_cells cs)),
          ready_cell_ids = map ce_cell_id
            (filter (\<lambda>r. list_all (\<lambda>ob. \<not> blocking ob) (ce_obstructions r)) results),
          not_ready_cells = not_ready,
          waiting_cell_ids = map ce_cell_id (filter (\<lambda>r.
              let bl = filter blocking (ce_obstructions r)
              in bl \<noteq> [] \<and> ce_wait_ids r \<noteq> [] \<and> list_all (\<lambda>ob. ob_type ob = OtExternalWait) bl) results),
          blocked_cell_ids = map nr_cell_id not_ready,
          rd_rule_results = concat (map ce_rule_results results)\<rparr>)"

definition frontier_cell_ids :: "readiness \<Rightarrow> eval_context \<Rightarrow> id list" where
  "frontier_cell_ids rd ctx =
     filter (\<lambda>i. i \<notin> completed_targets (ctx_index ctx) \<and>
         (case fmlookup (ctx_cells ctx) i of
            None \<Rightarrow> False
          | Some cell \<Rightarrow> cell_id cell = i \<and>
              cell_lifecycle cell \<notin> {LcResolved, LcAccepted, LcRetired, LcRejected, LcSuperseded}))
       (ready_cell_ids rd)"

definition merge_obstructions :: "cell_evaluation list \<Rightarrow> obstruction list" where
  "merge_obstructions results =
     btree_values (fold (\<lambda>ob. or_insert (ob_id ob) ob) (concat (map ce_obstructions results)) fmempty)"

datatype native_progress = PrActive | PrBlocked | PrComplete

definition progress_axis :: "case_space \<Rightarrow> readiness \<Rightarrow> obstruction list \<Rightarrow> native_progress" where
  "progress_axis cs rd obstructions =
     (if list_ex blocking obstructions then PrBlocked
      else if case_cells cs \<noteq> [] \<and> evaluated_cell_ids rd = [] then PrComplete
      else PrActive)"

definition unsatisfied_evidence_requirement_ids ::
  "env \<Rightarrow> case_space \<Rightarrow> id \<Rightarrow> id list \<Rightarrow> (violation list, id list) result" where
  "unsatisfied_evidence_requirement_ids e cs i requirements =
     rbind (validate_native_case_space e cs) (\<lambda>_.
       let ctx = eval_context_new e cs
       in Ok (filter (\<lambda>r. \<not> evidence_requirement_satisfied ctx i r) requirements))"

end
