(* ===== verification/Native_Eval_Sections.thy ===== *)
theory Native_Eval_Sections
  imports Native_Eval
begin

text \<open>
  The reporting sections of \<open>src/native_eval/sections.rs\<close> (completion candidates, evidence findings,
  review gaps, projection loss, correspondence, evolution, close-check skeleton), the assurance
  axis, and \<open>evaluate_native_case\<close>.
\<close>

section \<open>Completion candidates\<close>

datatype candidate_type =
    CcNativeCompletionCell | CcMissingEvidence | CcMissingProof | CcMissingReview
  | CcMissingDependencyResolution | CcContradictionResolution

record completion_candidate =
  cand_id :: id
  cand_type :: candidate_type
  cand_target_ids :: "id list"
  suggested_structure :: json
  inferred_from :: "id list"
  rationale :: string
  cand_confidence :: json
  cand_review_status :: review_status
  cand_provenance :: provenance

fun candidate_type_stem :: "candidate_type \<Rightarrow> string" where
  "candidate_type_stem CcNativeCompletionCell = ''native-completion-cell''"
| "candidate_type_stem CcMissingEvidence = ''missing-evidence''"
| "candidate_type_stem CcMissingProof = ''missing-proof''"
| "candidate_type_stem CcMissingReview = ''missing-review''"
| "candidate_type_stem CcMissingDependencyResolution = ''missing-dependency-resolution''"
| "candidate_type_stem CcContradictionResolution = ''contradiction-resolution''"

definition object_of :: "(string \<times> string) list \<Rightarrow> json" where
  "object_of kvs = JObject (fmap_of_list (map (map_prod (\<lambda>k. k) JString) kvs))"

fun candidate_shape :: "obstruction_type \<Rightarrow> candidate_type \<times> json \<times> string" where
  "candidate_shape OtMissingEvidence =
     (CcMissingEvidence,
      object_of [(''cell_type'', ''evidence''), (''evidence_boundary'', ''source_backed'')],
      ''A required evidence cell is absent or only represented by inference.'')"
| "candidate_shape OtMissingProof =
     (CcMissingProof, object_of [(''cell_type'', ''proof''), (''lifecycle'', ''active'')],
      ''A required proof cell or accepted proof evidence is missing.'')"
| "candidate_shape OtReviewRequired =
     (CcMissingReview, object_of [(''cell_type'', ''review''), (''lifecycle'', ''accepted'')],
      ''A wait, generated candidate, or review requirement needs explicit review.'')"
| "candidate_shape OtExternalWait =
     (CcMissingReview, object_of [(''cell_type'', ''review''), (''lifecycle'', ''accepted'')],
      ''A wait, generated candidate, or review requirement needs explicit review.'')"
| "candidate_shape OtUnresolvedDependency =
     (CcMissingDependencyResolution,
      object_of [(''relation_type'', ''depends_on''), (''resolution'', ''accept_or_resolve_target'')],
      ''A hard dependency must be resolved before downstream readiness.'')"
| "candidate_shape OtContradiction =
     (CcContradictionResolution,
      object_of [(''cell_type'', ''decision''), (''purpose'', ''contradiction_resolution'')],
      ''A hard contradiction needs a decision or review before readiness.'')"

definition is_open_completion :: "case_cell \<Rightarrow> bool" where
  "is_open_completion cell \<longleftrightarrow>
     cell_type cell = CtCompletion \<and> prov_review_status (cell_provenance cell) = RsUnreviewed
     \<and> cell_lifecycle cell \<notin> {LcAccepted, LcRejected}"

definition completion_cell_candidate :: "case_cell \<Rightarrow> completion_candidate" where
  "completion_cell_candidate cell =
     \<lparr>cand_id = cell_id cell, cand_type = CcNativeCompletionCell,
      cand_target_ids = cell_structure_ids cell, suggested_structure = JObject (cell_metadata cell),
      inferred_from = cell_source_ids cell,
      rationale = (case cell_summary cell of Some s \<Rightarrow> s | None \<Rightarrow> cell_title cell),
      cand_confidence = prov_confidence (cell_provenance cell),
      cand_review_status = prov_review_status (cell_provenance cell),
      cand_provenance = cell_provenance cell\<rparr>"

definition obstruction_candidate :: "env \<Rightarrow> obstruction \<Rightarrow> completion_candidate" where
  "obstruction_candidate e ob =
     (let (t, structure, why) = candidate_shape (ob_type ob)
      in \<lparr>cand_id = generated_id ''completion_candidate'' [candidate_type_stem t, ob_id ob],
          cand_type = t, cand_target_ids = dedupe_ids (affected_ids ob @ ob_witness_ids ob),
          suggested_structure = structure, inferred_from = [ob_id ob], rationale = why,
          cand_confidence = confidence_of e 82, cand_review_status = RsUnreviewed,
          cand_provenance = generated_provenance e ''Native completion candidate'' 82\<rparr>)"

definition completion_candidates ::
  "env \<Rightarrow> case_space \<Rightarrow> obstruction list \<Rightarrow> completion_candidate list" where
  "completion_candidates e cs obstructions =
     (let m = fold (\<lambda>cell. fmupd (cell_id cell) (completion_cell_candidate cell))
                (filter is_open_completion (case_cells cs)) fmempty;
          m = fold (\<lambda>ob. let c = obstruction_candidate e ob in or_insert (cand_id c) c) obstructions m
      in btree_values m)"

section \<open>Evidence findings\<close>

datatype boundary_violation_type =
  BvInferenceProjectedAsEvidence | BvMissingSource | BvMissingReviewPromotion | BvRejectedEvidenceUsed

record boundary_violation =
  bv_id :: id
  bv_evidence_id :: id
  bv_type :: boundary_violation_type
  bv_explanation :: string
  bv_severity :: severity

datatype finding_type =
    FtAcceptedEvidencePresent | FtSourceBackedPendingReview | FtInferenceSeparated
  | FtPromotionRequired | FtEvidenceMissing

record evidence_finding =
  ef_id :: id
  ef_type :: finding_type
  ef_evidence_ids :: "id list"
  ef_summary :: string
  ef_review_status :: review_status

record evidence_findings =
  accepted_evidence_ids :: "id list"
  source_backed_evidence_ids :: "id list"
  inference_record_ids :: "id list"
  unreviewed_inference_ids :: "id list"
  promoted_evidence_ids :: "id list"
  boundary_violations :: "boundary_violation list"
  findings :: "evidence_finding list"

definition finding_new :: "finding_type \<Rightarrow> id \<Rightarrow> string \<Rightarrow> string \<Rightarrow> review_status \<Rightarrow> evidence_finding" where
  "finding_new t evidence suf summary status =
     \<lparr>ef_id = generated_id ''finding'' [evidence, suf], ef_type = t, ef_evidence_ids = [evidence],
      ef_summary = summary, ef_review_status = status\<rparr>"

definition record_accepted_evidence ::
  "case_cell \<Rightarrow> evidence_boundary \<Rightarrow> review_status \<Rightarrow> evidence_findings \<Rightarrow> evidence_findings" where
  "record_accepted_evidence ev boundary status accum =
     (if status \<noteq> RsAccepted \<and> boundary \<noteq> EbReviewPromoted then accum
      else accum\<lparr>accepted_evidence_ids := accepted_evidence_ids accum @ [cell_id ev],
                 findings := findings accum @ [finding_new FtAcceptedEvidencePresent (cell_id ev)
                   ''accepted'' (cell_id ev @ '' is accepted or review-promoted evidence.'') status]\<rparr>)"

definition record_source_backed_evidence ::
  "case_cell \<Rightarrow> evidence_boundary \<Rightarrow> review_status \<Rightarrow> evidence_findings \<Rightarrow> evidence_findings" where
  "record_source_backed_evidence ev boundary status accum =
     (if boundary \<notin> {EbSourceBacked, EbReviewPromoted} then accum
      else
        (let accum = accum\<lparr>source_backed_evidence_ids :=
                       source_backed_evidence_ids accum @ [cell_id ev]\<rparr>
         in if cell_source_ids ev = [] then
              accum\<lparr>boundary_violations := boundary_violations accum @
                [\<lparr>bv_id = generated_id ''violation'' [cell_id ev, ''missing-source''],
                  bv_evidence_id = cell_id ev, bv_type = BvMissingSource,
                  bv_explanation = ''Source-backed evidence must retain at least one source id.'',
                  bv_severity = SevHigh\<rparr>]\<rparr>
            else if status \<noteq> RsAccepted then
              accum\<lparr>findings := findings accum @ [finding_new FtSourceBackedPendingReview (cell_id ev)
                ''source-backed-pending-review'' (cell_id ev @ '' is source-backed but not accepted.'')
                status]\<rparr>
            else accum))"

definition record_inference_evidence ::
  "case_cell \<Rightarrow> evidence_boundary \<Rightarrow> review_status \<Rightarrow> evidence_findings \<Rightarrow> evidence_findings" where
  "record_inference_evidence ev boundary status accum =
     (if boundary \<noteq> EbInferred then accum
      else accum\<lparr>inference_record_ids := inference_record_ids accum @ [cell_id ev],
                 unreviewed_inference_ids := unreviewed_inference_ids accum @
                   (if status = RsUnreviewed then [cell_id ev] else []),
                 findings := findings accum @ [finding_new FtInferenceSeparated (cell_id ev)
                   ''inference-separated'' (cell_id ev @ '' is inference and is not accepted evidence.'')
                   status]\<rparr>)"

definition record_review_promotion ::
  "case_cell \<Rightarrow> evidence_boundary \<Rightarrow> review_status \<Rightarrow> evidence_findings \<Rightarrow> evidence_findings" where
  "record_review_promotion ev boundary status accum =
     (if boundary \<noteq> EbReviewPromoted then accum
      else accum\<lparr>promoted_evidence_ids := promoted_evidence_ids accum @ [cell_id ev],
                 findings := findings accum @
                   (if status \<noteq> RsAccepted then [finding_new FtPromotionRequired (cell_id ev)
                      ''promotion-required''
                      (cell_id ev @ '' requires accepted review before promotion.'') status] else [])\<rparr>)"

definition record_rejected_evidence ::
  "case_cell \<Rightarrow> evidence_boundary \<Rightarrow> review_status \<Rightarrow> evidence_findings \<Rightarrow> evidence_findings" where
  "record_rejected_evidence ev boundary status accum =
     (if status \<noteq> RsRejected \<and> boundary \<noteq> EbRejected then accum
      else accum\<lparr>boundary_violations := boundary_violations accum @
        [\<lparr>bv_id = generated_id ''violation'' [cell_id ev, ''rejected-used''],
          bv_evidence_id = cell_id ev, bv_type = BvRejectedEvidenceUsed,
          bv_explanation = ''Rejected evidence is present and must not satisfy readiness.'',
          bv_severity = SevHigh\<rparr>]\<rparr>)"

definition record_evidence ::
  "case_cell \<Rightarrow> review_status \<Rightarrow> evidence_findings \<Rightarrow> evidence_findings" where
  "record_evidence ev status accum =
     (let boundary = from_metadata_value (declared_boundary ev)
      in record_rejected_evidence ev boundary status
          (record_review_promotion ev boundary status
            (record_inference_evidence ev boundary status
              (record_source_backed_evidence ev boundary status
                (record_accepted_evidence ev boundary status accum)))))"

definition empty_findings :: evidence_findings where
  "empty_findings =
     \<lparr>accepted_evidence_ids = [], source_backed_evidence_ids = [], inference_record_ids = [],
      unreviewed_inference_ids = [], promoted_evidence_ids = [], boundary_violations = [],
      findings = []\<rparr>"

definition evidence_findings_of ::
  "env \<Rightarrow> case_space \<Rightarrow> obstruction list \<Rightarrow> evidence_findings" where
  "evidence_findings_of e cs obstructions =
     (let accum = fold (\<lambda>ev. record_evidence ev (the (effective_evidence_review_status e cs ev)))
            (filter (\<lambda>cell. cell_type cell = CtEvidence) (case_cells cs)) empty_findings;
          missing = map (\<lambda>ob.
              \<lparr>ef_id = generated_id ''finding'' [ob_id ob, ''evidence-missing''],
               ef_type = FtEvidenceMissing, ef_evidence_ids = ob_witness_ids ob,
               ef_summary = ob_explanation ob, ef_review_status = RsUnreviewed\<rparr>)
            (filter (\<lambda>ob. ob_type ob = OtMissingEvidence) obstructions)
      in \<lparr>accepted_evidence_ids = dedupe_ids (accepted_evidence_ids accum),
          source_backed_evidence_ids = dedupe_ids (source_backed_evidence_ids accum),
          inference_record_ids = dedupe_ids (inference_record_ids accum),
          unreviewed_inference_ids = dedupe_ids (unreviewed_inference_ids accum),
          promoted_evidence_ids = dedupe_ids (promoted_evidence_ids accum),
          boundary_violations = boundary_violations accum,
          findings = findings accum @ missing\<rparr>)"

section \<open>Review gaps\<close>

datatype review_gap_type =
  RgUnreviewedCompletion | RgUnreviewedInference | RgUnreviewedMorphism | RgUnreviewedProjectionLoss

record review_gap =
  rg_id :: id
  rg_target_id :: id
  rg_type :: review_gap_type
  rg_explanation :: string
  requirement_satisfied :: bool

definition gap_new :: "id \<Rightarrow> string \<Rightarrow> review_gap_type \<Rightarrow> string \<Rightarrow> bool \<Rightarrow> review_gap" where
  "gap_new target suf t explanation satisfied =
     \<lparr>rg_id = generated_id ''review_gap'' [target, suf], rg_target_id = target, rg_type = t,
      rg_explanation = explanation, requirement_satisfied = satisfied\<rparr>"

definition review_gaps ::
  "case_space \<Rightarrow> evidence_findings \<Rightarrow> completion_candidate list \<Rightarrow> id set \<Rightarrow> review_gap list" where
  "review_gaps cs ef candidates satisfied =
     btree_values (fold (\<lambda>gap. fmupd (rg_id gap) gap)
       (map (\<lambda>c. gap_new (cand_id c) ''completion'' RgUnreviewedCompletion
           ''Completion candidates remain reviewable findings until explicitly accepted or rejected.''
           False)
         (filter (\<lambda>c. cand_review_status c = RsUnreviewed) candidates)
        @ map (\<lambda>i. gap_new i ''inference'' RgUnreviewedInference
            ''AI inference is separated from accepted evidence until review promotion.''
            (i \<in> satisfied))
          (unreviewed_inference_ids ef)
        @ map (\<lambda>entry. gap_new (entry_morphism_id entry) ''morphism'' RgUnreviewedMorphism
            ''Generated morphisms do not count as accepted evolution until reviewed.'' False)
          (filter (\<lambda>entry. mor_review_status (entry_morphism entry) = RsUnreviewed) (morphism_log cs))
        @ map (\<lambda>p. gap_new (projection_id p) ''projection-loss'' RgUnreviewedProjectionLoss
            ''Projection loss must stay visible to reviewers and close checks.'' False)
          (filter (\<lambda>p. information_loss p \<noteq> []) (projections cs)))
       fmempty)"

section \<open>Projection loss, correspondence, evolution\<close>

record projection_loss =
  pl_projection_id :: id
  pl_audience :: projection_audience
  pl_omitted_cell_ids :: "id list"
  pl_omitted_relation_ids :: "id list"
  information_loss_descriptions :: "string list"
  warning_ids :: "string list"

fun projection_warning_value :: "projection_warning \<Rightarrow> string" where
  "projection_warning_value HiddenBlocker = ''hidden_blocker''"
| "projection_warning_value HiddenUnreviewedInference = ''hidden_unreviewed_inference''"
| "projection_warning_value HiddenCloseInvariantFailure = ''hidden_close_invariant_failure''"
| "projection_warning_value InformationLoss = ''information_loss''"

definition projection_losses :: "case_space \<Rightarrow> projection_loss list" where
  "projection_losses cs =
     map (\<lambda>p. \<lparr>pl_projection_id = projection_id p, pl_audience = audience p,
          pl_omitted_cell_ids = omitted_cell_ids p, pl_omitted_relation_ids = omitted_relation_ids p,
          information_loss_descriptions = map loss_description (information_loss p),
          warning_ids = map projection_warning_value (warnings p)\<rparr>)
       (filter (\<lambda>p. omitted_cell_ids p \<noteq> [] \<or> omitted_relation_ids p \<noteq> []
            \<or> information_loss p \<noteq> [] \<or> warnings p \<noteq> []) (projections cs))"

record correspondence_summary =
  co_id :: id
  left_ids :: "id list"
  right_ids :: "id list"
  co_relation_ids :: "id list"
  co_confidence :: json
  co_review_status :: review_status

definition correspondence_summaries :: "case_space \<Rightarrow> correspondence_summary list" where
  "correspondence_summaries cs =
     map (\<lambda>r. \<lparr>co_id = generated_id ''correspondence'' [rel_id r], left_ids = [rel_from_id r],
          right_ids = [rel_to_id r], co_relation_ids = [rel_id r],
          co_confidence = prov_confidence (rel_provenance r),
          co_review_status = prov_review_status (rel_provenance r)\<rparr>)
       (filter (\<lambda>r. relation_type r = RtCorrespondsTo) (case_relations cs))"

record invariant_break =
  ib_morphism_id :: id
  ib_invariant_id :: id
  ib_witness_ids :: "id list"

record evolution_summary =
  ev_revision_id :: id
  previous_revision_id :: "id option"
  ev_morphism_ids :: "id list"
  ev_added_ids :: "id list"
  ev_updated_ids :: "id list"
  ev_retired_ids :: "id list"
  ev_preserved_ids :: "id list"
  invariant_breaks :: "invariant_break list"

definition evolution_summary_of :: "case_space \<Rightarrow> evolution_summary" where
  "evolution_summary_of cs =
     (let log = morphism_log cs;
          ids_of = (\<lambda>f. dedupe_ids (concat (map (f \<circ> entry_morphism) log)))
      in \<lparr>ev_revision_id = revision_id (cs_revision cs),
          previous_revision_id = (if log = [] then None else entry_source_revision_id (last log)),
          ev_morphism_ids = map entry_morphism_id log,
          ev_added_ids = ids_of mor_added_ids, ev_updated_ids = ids_of mor_updated_ids,
          ev_retired_ids = ids_of mor_retired_ids, ev_preserved_ids = ids_of mor_preserved_ids,
          invariant_breaks = concat (map (\<lambda>entry. let m = entry_morphism entry in
              map (\<lambda>i. \<lparr>ib_morphism_id = entry_morphism_id entry, ib_invariant_id = i,
                   ib_witness_ids = dedupe_ids (mor_added_ids m @ mor_updated_ids m
                     @ mor_retired_ids m @ entry_source_ids entry)\<rparr>)
                (mor_violated_invariant_ids m)) log)\<rparr>)"

section \<open>Close-check skeleton\<close>

record close_invariant_result =
  ci_invariant_id :: id
  ci_passed :: bool
  ci_severity :: severity
  ci_witness_ids :: "id list"
  ci_message :: "string option"

definition close_invariant :: "id \<Rightarrow> id list \<Rightarrow> string \<Rightarrow> close_invariant_result" where
  "close_invariant invariant_id witnesses message =
     \<lparr>ci_invariant_id = invariant_id, ci_passed = (witnesses = []), ci_severity = SevHigh,
      ci_witness_ids = witnesses, ci_message = Some message\<rparr>"

record close_check_skeleton =
  sk_check_id :: id
  sk_case_space_id :: id
  sk_revision_id :: id
  sk_close_policy_id :: "id option"
  closable :: bool
  sk_invariant_results :: "close_invariant_result list"

definition close_check_skeleton_of ::
  "case_space \<Rightarrow> obstruction list \<Rightarrow> completion_candidate list \<Rightarrow> review_gap list
   \<Rightarrow> close_check_skeleton" where
  "close_check_skeleton_of cs obstructions candidates gaps =
     (let results =
        [close_invariant ''close:native-no-hard-obstructions''
           (map ob_id (filter blocking obstructions)) ''No hard obstructions remain.'',
         close_invariant ''close:native-completions-reviewed''
           (map cand_id (filter (\<lambda>c. cand_review_status c = RsUnreviewed) candidates))
           ''Completion candidates must be reviewed before close.'',
         close_invariant ''close:native-morphisms-reviewed''
           (map entry_morphism_id (filter (\<lambda>entry.
               mor_review_status (entry_morphism entry) = RsUnreviewed) (morphism_log cs)))
           ''Morphism log entries must be reviewed before close.'',
         close_invariant ''close:native-projection-loss-disclosed''
           (map projection_id (filter (\<lambda>p. information_loss p \<noteq> [] \<or> warnings p \<noteq> []) (projections cs)))
           ''Projection loss must be disclosed before close.'',
         close_invariant ''close:native-review-gaps-closed''
           (map rg_id (filter (\<lambda>gap. \<not> requirement_satisfied gap) gaps))
           ''Review gaps remain open.'']
      in \<lparr>sk_check_id = generated_id ''close_check'' [case_space_id cs, revision_id (cs_revision cs)],
          sk_case_space_id = case_space_id cs, sk_revision_id = revision_id (cs_revision cs),
          sk_close_policy_id = close_policy_id cs,
          closable = list_all ci_passed results, sk_invariant_results = results\<rparr>)"

section \<open>The evaluation\<close>

datatype native_assurance = AsUnreviewed | AsReviewRequired | AsAccepted | AsRejected

definition assurance_axis ::
  "obstruction list \<Rightarrow> evidence_findings \<Rightarrow> review_gap list \<Rightarrow> native_assurance" where
  "assurance_axis obstructions ef gaps =
     (if list_ex (\<lambda>v. bv_type v = BvRejectedEvidenceUsed) (boundary_violations ef) then AsRejected
      else if list_ex (\<lambda>gap. \<not> requirement_satisfied gap) gaps \<or> boundary_violations ef \<noteq> []
         \<or> list_ex (\<lambda>ob. ob_type ob = OtReviewRequired) obstructions then AsReviewRequired
      else if accepted_evidence_ids ef \<noteq> [] then AsAccepted
      else AsUnreviewed)"

record native_case_evaluation =
  ne_progress :: native_progress
  ne_assurance :: native_assurance
  ne_readiness :: readiness
  ne_frontier_cell_ids :: "id list"
  ne_obstructions :: "obstruction list"
  ne_completion_candidates :: "completion_candidate list"
  ne_evidence_findings :: evidence_findings
  ne_review_gaps :: "review_gap list"
  ne_projection_loss :: "projection_loss list"
  ne_correspondence :: "correspondence_summary list"
  ne_evolution :: evolution_summary
  ne_close_check :: close_check_skeleton

definition evaluate_native_case ::
  "env \<Rightarrow> case_space \<Rightarrow> (violation list, native_case_evaluation) result" where
  "evaluate_native_case e cs =
     rbind (validate_native_case_space e cs) (\<lambda>_.
     let ctx = eval_context_new e cs;
         results = evaluate_cells e ctx;
         rd = readiness_result cs results;
         obstructions = merge_obstructions results;
         ef = evidence_findings_of e cs obstructions;
         candidates = completion_candidates e cs obstructions;
         gaps = review_gaps cs ef candidates (satisfied_requirement_ids ctx)
     in Ok \<lparr>ne_progress = progress_axis cs rd obstructions,
            ne_assurance = assurance_axis obstructions ef gaps,
            ne_readiness = rd, ne_frontier_cell_ids = frontier_cell_ids rd ctx,
            ne_obstructions = obstructions, ne_completion_candidates = candidates,
            ne_evidence_findings = ef, ne_review_gaps = gaps,
            ne_projection_loss = projection_losses cs,
            ne_correspondence = correspondence_summaries cs,
            ne_evolution = evolution_summary_of cs,
            ne_close_check = close_check_skeleton_of cs obstructions candidates gaps\<rparr>)"

end
