(* ===== verification/Native_Review.thy ===== *)
theory Native_Review
  imports Native_Eval_Sections
begin

text \<open>
  \<open>src/native_review.rs\<close> with \<open>src/native_review/support.rs\<close>: requests for reviews, the operation gate that
  guards every mutation, and the close check.
\<close>

section \<open>Explicit reviews\<close>

record explicit_review =
  xr_target_id :: id
  xr_action :: review_action
  xr_outcome :: review_status

type_synonym reviews = "(id, explicit_review list) fmap"

definition explicit_reviews :: "env \<Rightarrow> case_space \<Rightarrow> reviews" where
  "explicit_reviews e cs =
     fold (\<lambda>entry m.
         case canonical_review e (entry_morphism entry) of
           None \<Rightarrow> m
         | Some review \<Rightarrow> entry_push (cr_target_id review)
             \<lparr>xr_target_id = cr_target_id review, xr_action = cr_action review,
              xr_outcome = cr_outcome review\<rparr> m)
       (morphism_log cs) fmempty"

definition latest_review_for :: "reviews \<Rightarrow> id \<Rightarrow> explicit_review option" where
  "latest_review_for reviews target =
     Option.bind (fmlookup reviews target)
       (\<lambda>rs. find (\<lambda>review. xr_target_id review = target) (rev rs))"

definition target_has_action :: "env \<Rightarrow> reviews \<Rightarrow> id \<Rightarrow> review_action \<Rightarrow> bool" where
  "target_has_action e reviews target action =
     (case latest_review_for reviews target of
        None \<Rightarrow> False
      | Some review \<Rightarrow> xr_action review = action \<and> has_review_action e (xr_outcome review))"

definition target_has_terminal_review :: "env \<Rightarrow> reviews \<Rightarrow> id \<Rightarrow> bool" where
  "target_has_terminal_review e reviews target =
     (case latest_review_for reviews target of
        None \<Rightarrow> False
      | Some review \<Rightarrow> xr_action review \<in> {RaAccept, RaReject, RaDefer}
          \<and> has_review_action e (xr_outcome review))"

definition unresolved_hard_obstruction :: "env \<Rightarrow> reviews \<Rightarrow> obstruction \<Rightarrow> bool" where
  "unresolved_hard_obstruction e reviews ob =
     (if \<not> blocking ob \<or> ob_severity ob \<notin> {SevHigh, SevCritical} then False
      else \<not> target_has_action e reviews (ob_id ob) RaWaive
           \<and> \<not> target_has_action e reviews (ob_id ob) RaDefer)"

definition completion_reviewed_or_deferred ::
  "env \<Rightarrow> reviews \<Rightarrow> completion_candidate \<Rightarrow> bool" where
  "completion_reviewed_or_deferred e reviews candidate \<longleftrightarrow>
     has_review_action e (cand_review_status candidate)
     \<or> target_has_terminal_review e reviews (cand_id candidate)"

definition is_acceptable_cell :: "(id, review_status) fmap \<Rightarrow> case_cell \<Rightarrow> bool" where
  "is_acceptable_cell statuses cell \<longleftrightarrow>
     cell_type cell = CtEvidence
     \<and> evidence_is_acceptable (native_evidence_trust_input cell (fmlookup statuses (cell_id cell)))"

definition evidence_requirement_blockers ::
  "env \<Rightarrow> case_space \<Rightarrow> reviews \<Rightarrow> (id, review_status) fmap \<Rightarrow> id list" where
  "evidence_requirement_blockers e cs reviews statuses =
     (let cells = collect_map (map (\<lambda>cell. (cell_id cell, cell)) (case_cells cs));
          covered = trusted_coverage_targets e cs (\<lambda>i.
            list_ex (\<lambda>cell. cell_id cell = i \<and> is_acceptable_cell statuses cell) (btree_values cells))
      in dedupe_ids (map rel_to_id (filter (\<lambda>r.
           relation_type r = RtRequiresEvidence
           \<and> \<not> (target_has_action e reviews (rel_id r) RaWaive
                 \<or> target_has_action e reviews (rel_to_id r) RaWaive)
           \<and> \<not> ((case fmlookup cells (rel_to_id r) of
                    None \<Rightarrow> False | Some cell \<Rightarrow> is_acceptable_cell statuses cell)
                 \<or> rel_to_id r \<in> covered \<or> rel_from_id r \<in> covered))
         (case_relations cs))))"

section \<open>Source boundary and operation gate\<close>

definition source_boundary_id_from_value :: "env \<Rightarrow> json option \<Rightarrow> id option" where
  "source_boundary_id_from_value e value =
     Option.bind (Option.bind value as_object) (\<lambda>boundary.
     Option.bind (get_str boundary ''id'') (\<lambda>s. if valid_id e s then Some s else None))"

definition declared_source_boundary_id :: "env \<Rightarrow> case_space \<Rightarrow> id option" where
  "declared_source_boundary_id e cs =
     (case source_boundary_id_from_value e (fmlookup (cs_metadata cs) ''source_boundary'') of
        Some i \<Rightarrow> Some i
      | None \<Rightarrow>
         (case morphism_log cs of
            [] \<Rightarrow> None
          | entry # _ \<Rightarrow>
              Option.bind (get_str (mor_metadata (entry_morphism entry)) ''source_boundary_id'')
                (\<lambda>s. if valid_id e s then Some s else None)))"

definition has_source_boundary :: "metadata \<Rightarrow> bool" where
  "has_source_boundary md =
     (case Option.bind (fmlookup md ''source_boundary'') as_object of
        None \<Rightarrow> False
      | Some boundary \<Rightarrow>
          (let arr = (\<lambda>k. Option.bind (fmlookup boundary k) as_array) in
           (case arr ''included_sources'' of Some xs \<Rightarrow> xs \<noteq> [] | None \<Rightarrow> False)
           \<and> (case arr ''adapters'' of Some xs \<Rightarrow> xs \<noteq> [] | None \<Rightarrow> False)
           \<and> (case get_str boundary ''accepted_fact_policy'' of Some s \<Rightarrow> \<not> blank s | None \<Rightarrow> False)
           \<and> (case get_str boundary ''inference_policy'' of Some s \<Rightarrow> \<not> blank s | None \<Rightarrow> False)
           \<and> arr ''information_loss'' \<noteq> None))"

record operation_gate =
  gate_actor_id :: id
  gate_operation :: string
  operation_scope_id :: id
  gate_audience :: projection_audience
  capability_ids :: "id list"
  source_boundary_id :: id

text \<open>A failure is a label with its witnesses; the refusal lists the labels and all witnesses.\<close>

datatype gate_label =
    GfOperation | GfScope | GfAudience | GfNoCapabilities
  | GfUnresolved id bool | GfNotCapability id | GfLifecycle id | GfReviewStatus id
  | GfActor id id | GfNotAuthorized id string | GfSourceBoundary

record gate_failure =
  gf_label :: gate_label
  gf_witness_ids :: "id list"

definition failure_unless :: "bool \<Rightarrow> gate_label \<Rightarrow> id list \<Rightarrow> gate_failure list" where
  "failure_unless ok label witnesses =
     (if ok then [] else [\<lparr>gf_label = label, gf_witness_ids = witnesses\<rparr>])"

definition lists_string :: "metadata \<Rightarrow> string \<Rightarrow> string \<Rightarrow> bool" where
  "lists_string md key value =
     (case Option.bind (fmlookup md key) as_array of
        None \<Rightarrow> False
      | Some xs \<Rightarrow> list_ex (\<lambda>x. as_str x = Some value) xs)"

definition capability_failures ::
  "case_space \<Rightarrow> operation_gate \<Rightarrow> string \<Rightarrow> id \<Rightarrow> gate_failure list" where
  "capability_failures cs gate expected capability_id =
     (case find (\<lambda>cell. cell_id cell = capability_id) (case_cells cs) of
        None \<Rightarrow> [\<lparr>gf_label = GfUnresolved capability_id (has_capability_cells cs),
                  gf_witness_ids = [capability_id]\<rparr>]
      | Some cell \<Rightarrow>
          failure_unless (cell_type cell = CtCustom ''capability'') (GfNotCapability capability_id)
            [capability_id]
          @ failure_unless (cell_lifecycle cell \<in> {LcActive, LcAccepted}) (GfLifecycle capability_id)
              [capability_id]
          @ failure_unless (prov_review_status (cell_provenance cell) = RsAccepted)
              (GfReviewStatus capability_id) [capability_id]
          @ failure_unless (lists_string (cell_metadata cell) ''actor_ids'' (gate_actor_id gate))
              (GfActor capability_id (gate_actor_id gate)) [capability_id, gate_actor_id gate]
          @ failure_unless (lists_string (cell_metadata cell) ''operations'' expected)
              (GfNotAuthorized capability_id expected) [capability_id])"

definition operation_gate_failures ::
  "env \<Rightarrow> case_space \<Rightarrow> operation_gate \<Rightarrow> string \<Rightarrow> gate_failure list" where
  "operation_gate_failures e cs gate expected =
     failure_unless (gate_operation gate = expected) GfOperation [gate_actor_id gate]
     @ failure_unless (operation_scope_id gate = case_space_id cs) GfScope
         [operation_scope_id gate, case_space_id cs]
     @ failure_unless (gate_audience gate \<in> {AuAudit, AuSystem}) GfAudience [gate_actor_id gate]
     @ failure_unless (capability_ids gate \<noteq> []) GfNoCapabilities [gate_actor_id gate]
     @ concat (map (capability_failures cs gate expected) (capability_ids gate))
     @ failure_unless (declared_source_boundary_id e cs = Some (source_boundary_id gate))
         GfSourceBoundary [source_boundary_id gate]"

record gate_error =
  ge_operation :: string
  ge_labels :: "gate_label list"
  ge_witness_ids :: "id list"

definition check_operation_gate ::
  "env \<Rightarrow> case_space \<Rightarrow> operation_gate \<Rightarrow> string \<Rightarrow> (gate_error, unit) result" where
  "check_operation_gate e cs gate expected =
     (let failures = operation_gate_failures e cs gate expected in
      if failures = [] then Ok ()
      else Err \<lparr>ge_operation = expected, ge_labels = map gf_label failures,
                ge_witness_ids = concat (map gf_witness_ids failures)\<rparr>)"

section \<open>Review requests\<close>

datatype review_error =
    EvaluationFailed "violation list"
  | EmptyReason
  | RevisionNotAdvanced
  | UnknownReviewEvidence id
  | UnknownCompletionTarget id
  | UnknownEvidenceTarget id
  | TopologyNeedsDedicatedApi
  | UnknownMorphismTarget id
  | UnknownResidualRiskTarget id
  | UnknownWaiverTarget id

definition require_completion_target ::
  "env \<Rightarrow> case_space \<Rightarrow> id \<Rightarrow> (review_error, unit) result" where
  "require_completion_target e cs target =
     (if list_ex (\<lambda>cell. cell_id cell = target \<and> cell_type cell = CtCompletion) (case_cells cs) then Ok ()
      else rbind (map_err EvaluationFailed (evaluate_native_case e cs)) (\<lambda>ev.
        ensure (list_ex (\<lambda>c. cand_id c = target) (ne_completion_candidates ev))
          (UnknownCompletionTarget target)))"

definition require_obstruction_target ::
  "env \<Rightarrow> case_space \<Rightarrow> id \<Rightarrow> (review_error, unit) result" where
  "require_obstruction_target e cs target =
     rbind (map_err EvaluationFailed (evaluate_native_case e cs)) (\<lambda>ev.
       ensure (list_ex (\<lambda>ob. ob_id ob = target) (ne_obstructions ev)) (UnknownResidualRiskTarget target))"

definition require_review_request ::
  "env \<Rightarrow> case_space \<Rightarrow> native_review_request \<Rightarrow> (review_error, unit) result" where
  "require_review_request e cs request =
     (let target = rq_target_id request in
      rbind (ensure (\<not> blank (reason request)) EmptyReason) (\<lambda>_.
      rbind (ensure (rq_target_revision_id request \<noteq> revision_id (cs_revision cs))
               RevisionNotAdvanced) (\<lambda>_.
      rbind (each_res (\<lambda>i. ensure (has_known_id cs i) (UnknownReviewEvidence i))
               (rq_evidence_ids request)) (\<lambda>_.
      case rq_target_kind request of
        TkCompletion \<Rightarrow> require_completion_target e cs target
      | TkEvidence \<Rightarrow>
          ensure (list_ex (\<lambda>cell. cell_id cell = target \<and> cell_type cell = CtEvidence) (case_cells cs))
            (UnknownEvidenceTarget target)
      | TkExecutionTopology \<Rightarrow> Err TopologyNeedsDedicatedApi
      | TkMorphism \<Rightarrow>
          ensure (list_ex (\<lambda>entry. entry_morphism_id entry = target) (morphism_log cs))
            (UnknownMorphismTarget target)
      | TkPlan \<Rightarrow> Ok ()
      | TkResidualRisk \<Rightarrow> require_obstruction_target e cs target
      | TkWaiver \<Rightarrow>
          if has_known_id cs target then Ok ()
          else rbind (map_err EvaluationFailed (evaluate_native_case e cs)) (\<lambda>ev.
            ensure (list_ex (\<lambda>ob. ob_id ob = target) (ne_obstructions ev))
              (UnknownWaiverTarget target))))))"

definition build_review_morphism ::
  "env \<Rightarrow> case_space \<Rightarrow> review_action \<Rightarrow> native_review_request
   \<Rightarrow> (review_error, case_morphism) result" where
  "build_review_morphism e cs action request =
     (let request = request\<lparr>rq_action := action\<rparr> in
      rbind (require_review_request e cs request) (\<lambda>_.
      Ok (build_review_morphism_validated e cs action request)))"

section \<open>Close check\<close>

record close_check_request =
  cq_close_policy_id :: "id option"
  base_revision_id :: id
  declared_projection_loss_ids :: "id list"
  validation_evidence_ids :: "id list"
  cq_source_ids :: "id list"
  cq_operation_gate :: "operation_gate option"

record close_check =
  ck_check_id :: id
  ck_case_space_id :: id
  ck_revision_id :: id
  ck_close_policy_id :: "id option"
  closeable :: bool
  ck_operation_gate :: "operation_gate option"
  ck_invariant_results :: "close_invariant_result list"
  blocker_ids :: "id list"

definition base_revision_invariant :: "case_space \<Rightarrow> close_check_request \<Rightarrow> close_invariant_result" where
  "base_revision_invariant cs request =
     close_invariant ''close:native-base-revision-matches''
       (if base_revision_id request = revision_id (cs_revision cs) then []
        else [base_revision_id request, revision_id (cs_revision cs)])
       ''The close-check base revision must match the materialized case-space revision.''"

definition hard_obstructions_invariant ::
  "env \<Rightarrow> native_case_evaluation \<Rightarrow> reviews \<Rightarrow> close_invariant_result" where
  "hard_obstructions_invariant e ev reviews =
     close_invariant ''close:native-no-hard-obstructions''
       (map ob_id (filter (unresolved_hard_obstruction e reviews) (ne_obstructions ev)))
       ''No unresolved high or critical hard obstruction may remain.''"

definition source_boundary_declared_invariant :: "case_space \<Rightarrow> close_invariant_result" where
  "source_boundary_declared_invariant cs =
     close_invariant ''close:native-source-boundary-declared''
       (if has_source_boundary (cs_metadata cs) then [] else [case_space_id cs])
       ''Close checks require a declared source boundary for the lifted case space.''"

definition completions_reviewed_invariant ::
  "env \<Rightarrow> native_case_evaluation \<Rightarrow> reviews \<Rightarrow> close_invariant_result" where
  "completions_reviewed_invariant e ev reviews =
     close_invariant ''close:native-completions-reviewed''
       (map cand_id (filter (\<lambda>c. \<not> completion_reviewed_or_deferred e reviews c)
          (ne_completion_candidates ev)))
       ''Completion candidates must be accepted, rejected, or explicitly deferred.''"

definition morphisms_reviewed_invariant ::
  "env \<Rightarrow> native_case_evaluation \<Rightarrow> reviews \<Rightarrow> close_invariant_result" where
  "morphisms_reviewed_invariant e ev reviews =
     close_invariant ''close:native-morphisms-reviewed''
       (map rg_target_id (filter (\<lambda>gap. rg_type gap = RgUnreviewedMorphism
            \<and> \<not> target_has_terminal_review e reviews (rg_target_id gap)) (ne_review_gaps ev)))
       ''Generated morphisms must remain reviewable until accepted, rejected, or deferred.''"

definition evidence_accepted_invariant ::
  "env \<Rightarrow> case_space \<Rightarrow> reviews \<Rightarrow> (id, review_status) fmap \<Rightarrow> close_invariant_result" where
  "evidence_accepted_invariant e cs reviews statuses =
     close_invariant ''close:native-evidence-accepted-or-waived''
       (evidence_requirement_blockers e cs reviews statuses)
       ''Required evidence must be source-backed, review-promoted, accepted, or explicitly waived.''"

definition projection_loss_declared_invariant ::
  "env \<Rightarrow> close_check_request \<Rightarrow> native_case_evaluation \<Rightarrow> reviews \<Rightarrow> close_invariant_result" where
  "projection_loss_declared_invariant e request ev reviews =
     close_invariant ''close:native-projection-loss-declared''
       (map pl_projection_id (filter (\<lambda>loss.
            pl_projection_id loss \<notin> set (declared_projection_loss_ids request)
            \<and> \<not> target_has_action e reviews (pl_projection_id loss) RaAccept) (ne_projection_loss ev)))
       ''Projection loss must be declared by the close-check caller or accepted by review.''"

definition validation_evidence_invariant ::
  "case_space \<Rightarrow> close_check_request \<Rightarrow> close_invariant_result" where
  "validation_evidence_invariant cs request =
     (let evidence_ids = set (map cell_id (filter (\<lambda>c. cell_type c = CtEvidence) (case_cells cs)))
      in close_invariant ''close:native-validation-evidence-named''
           (if validation_evidence_ids request = [] then [revision_id (cs_revision cs)]
            else filter (\<lambda>i. i \<notin> evidence_ids) (validation_evidence_ids request))
           ''Close checks must name validation evidence for the exact revision.'')"

definition policy_capability_gate_invariant ::
  "env \<Rightarrow> case_space \<Rightarrow> close_check_request \<Rightarrow> close_invariant_result" where
  "policy_capability_gate_invariant e cs request =
     (let has_close_policy = cq_close_policy_id request \<noteq> None \<or> close_policy_id cs \<noteq> None;
          has_operation_source = cq_source_ids request \<noteq> [];
          witnesses = (if has_close_policy then [] else [case_space_id cs])
            @ (if has_operation_source then [] else [revision_id (cs_revision cs)])
      in case cq_operation_gate request of
           None \<Rightarrow> close_invariant ''close:native-policy-capability-gate''
             (dedupe_ids (witnesses @ [case_space_id cs]))
             ''Close checks must include an operation gate with actor, capability, scope, audience, and source boundary.''
         | Some gate \<Rightarrow>
             (let more = (case check_operation_gate e cs gate ''close-check'' of
                     Inl err \<Rightarrow> ge_witness_ids err | Inr _ \<Rightarrow> [])
              in close_invariant ''close:native-policy-capability-gate''
                   (dedupe_ids (witnesses @ more))
                   ''Close checks must name a close policy, source evidence, and a matching operation gate for actor, capability, scope, audience, and source boundary.''))"

definition close_invariants ::
  "env \<Rightarrow> case_space \<Rightarrow> close_check_request \<Rightarrow> native_case_evaluation \<Rightarrow> reviews
   \<Rightarrow> (id, review_status) fmap \<Rightarrow> close_invariant_result list" where
  "close_invariants e cs request ev reviews statuses =
     [base_revision_invariant cs request,
      source_boundary_declared_invariant cs,
      hard_obstructions_invariant e ev reviews,
      completions_reviewed_invariant e ev reviews,
      morphisms_reviewed_invariant e ev reviews,
      evidence_accepted_invariant e cs reviews statuses,
      projection_loss_declared_invariant e request ev reviews,
      policy_capability_gate_invariant e cs request,
      validation_evidence_invariant cs request]"

definition check_native_close_with_finding ::
  "env \<Rightarrow> case_space \<Rightarrow> close_check_request \<Rightarrow> (review_error, close_check \<times> bool) result" where
  "check_native_close_with_finding e cs request =
     rbind (map_err EvaluationFailed (evaluate_native_case e cs)) (\<lambda>ev.
     let reviews = explicit_reviews e cs;
         statuses = latest_evidence_review_statuses e cs;
         results = close_invariants e cs request ev reviews statuses;
         check = \<lparr>ck_check_id = generated_id ''close_check''
                    [case_space_id cs, base_revision_id request, ''native-review''],
                  ck_case_space_id = case_space_id cs, ck_revision_id = revision_id (cs_revision cs),
                  ck_close_policy_id = (case cq_close_policy_id request of
                     Some i \<Rightarrow> Some i | None \<Rightarrow> close_policy_id cs),
                  closeable = list_all ci_passed results,
                  ck_operation_gate = cq_operation_gate request,
                  ck_invariant_results = results,
                  blocker_ids = dedupe_ids (concat (map ci_witness_ids
                    (filter (\<lambda>r. \<not> ci_passed r) results)))\<rparr>
     in Ok (check, \<not> closeable check))"

end
