(* ===== verification/Case_Samples.thy ===== *)
theory Case_Samples
  imports Native_Review CG_Samples
begin

text \<open>
  A case space with its history: a genesis entry that lifts a goal with one evidence requirement, an
  inferred evidence cell and a capability, and the review that accepts the evidence. The witnesses of
  the evaluation, review and store theories evaluate on it.
\<close>

definition demo_boundary :: json where
  "demo_boundary =
     JObject (fmap_of_list
       [(''id'', JString ''boundary''), (''included_sources'', JArray [JString ''source'']),
        (''adapters'', JArray [JString ''adapter'']), (''accepted_fact_policy'', JString ''facts''),
        (''inference_policy'', JString ''inferences''), (''information_loss'', JArray [])])"

definition demo_capability :: case_cell where
  "demo_capability =
     (sample_cell ''cap'' (CtCustom ''capability'') LcActive
        (fmap_of_list [(''actor_ids'', JArray [JString ''agent'']),
           (''operations'', JArray [JString ''apply'', JString ''close-check''])]))
       \<lparr>cell_provenance := sample_provenance RsAccepted\<rparr>"

definition demo_cells :: "case_cell list" where
  "demo_cells =
     [sample_cell ''goal'' CtGoal LcActive fmempty,
      sample_cell ''evidence'' CtEvidence LcActive (sample_boundary ''inferred''),
      demo_capability]"

definition demo_relations :: "case_relation list" where
  "demo_relations = [sample_relation ''needs'' RtRequiresEvidence ''goal'' ''evidence'']"

definition demo_morphism :: "id \<Rightarrow> case_morphism_type \<Rightarrow> id option \<Rightarrow> id \<Rightarrow> id list \<Rightarrow> metadata \<Rightarrow> case_morphism" where
  "demo_morphism i t src tgt added md =
     \<lparr>mor_id = i, morphism_type = t, mor_source_revision_id = src, mor_target_revision_id = tgt,
      mor_added_ids = added, mor_updated_ids = [], mor_retired_ids = [], mor_preserved_ids = [],
      mor_violated_invariant_ids = [], mor_review_status = RsAccepted, mor_evidence_ids = [],
      mor_source_ids = [''source''], mor_metadata = md\<rparr>"

text \<open>The checksum of an entry is the one the digest of the samples gives (the revision id).\<close>

definition demo_entry :: "nat \<Rightarrow> id \<Rightarrow> string option \<Rightarrow> case_morphism \<Rightarrow> morphism_log_entry" where
  "demo_entry n i prev m =
     \<lparr>entry_schema = native_morphism_log_entry_schema,
      entry_schema_version = native_case_space_schema_version, entry_case_space_id = ''cs'',
      entry_sequence = n, entry_id = i, entry_morphism_id = mor_id m,
      entry_source_revision_id = mor_source_revision_id m,
      entry_target_revision_id = mor_target_revision_id m, entry_morphism = m,
      entry_actor_id = ''agent'', entry_recorded_at = ''t'', entry_provenance = sample_provenance RsAccepted,
      entry_source_ids = [], previous_entry_hash = prev,
      replay_checksum = ''sha256:'' @ mor_target_revision_id m\<rparr>"

definition demo_genesis :: morphism_log_entry where
  "demo_genesis =
     demo_entry 1 ''e1'' None
       (demo_morphism ''m1'' MtCreate None ''r1'' [''goal'', ''evidence'', ''cap'', ''needs'']
          (fmap_of_list [(''payload'', JString ''p1''), (''genesis_case_space'', JString ''g''),
             (''lift_semantics'', JString ''lift''), (''source_boundary'', demo_boundary)]))"

definition demo_request :: native_review_request where
  "demo_request =
     \<lparr>rq_target_kind = TkEvidence, rq_target_id = ''evidence'', rq_action = RaAccept,
      reviewer_id = ''agent'', reviewed_at = ''t'', reason = ''checked'', rq_evidence_ids = [],
      rq_source_ids = [], rq_target_revision_id = ''r2''\<rparr>"

definition demo_revision :: "morphism_log_entry \<Rightarrow> revision" where
  "demo_revision e =
     \<lparr>revision_id = entry_target_revision_id e, rev_case_space_id = ''cs'',
      applied_entry_ids = [entry_id e], applied_morphism_ids = [entry_morphism_id e],
      rev_checksum = replay_checksum e, parent_revision_id = entry_source_revision_id e,
      rev_created_at = ''t'', rev_source_ids = [], rev_metadata = fmempty\<rparr>"

definition demo_space1 :: case_space where
  "demo_space1 =
     \<lparr>cs_schema = native_case_space_schema, cs_schema_version = native_case_space_schema_version,
      case_space_id = ''cs'', space_id = ''space'', case_cells = demo_cells,
      case_relations = demo_relations, morphism_log = [demo_genesis], projections = [],
      cs_revision = demo_revision demo_genesis, close_policy_id = Some ''policy'',
      cs_metadata = fmap_of_list [(''source_boundary'', demo_boundary)]\<rparr>"

definition demo_decode :: payload_decoder where
  "demo_decode v =
     (if v = JString ''p1''
      then Ok (default_payload\<lparr>added_cells := demo_cells, added_relations := demo_relations\<rparr>)
      else Err ''unknown payload'')"

definition demo_env :: env where
  "demo_env = sample_env\<lparr>env_payload := demo_decode\<rparr>"

definition demo_review :: morphism_log_entry where
  "demo_review =
     (let m = build_review_morphism_validated demo_env demo_space1 RaAccept demo_request
      in demo_entry 2 ''e2'' (Some ''e1'')
           (m\<lparr>mor_metadata := fmupd ''operation_gate'' (JString ''gate'') (mor_metadata m)\<rparr>))"

definition demo_space2 :: case_space where
  "demo_space2 =
     demo_space1\<lparr>morphism_log := [demo_genesis, demo_review], cs_revision := demo_revision demo_review\<rparr>"

definition demo_gate :: operation_gate where
  "demo_gate =
     \<lparr>gate_actor_id = ''agent'', gate_operation = ''apply'', operation_scope_id = ''cs'',
      gate_audience = AuAudit, capability_ids = [''cap''], source_boundary_id = ''boundary''\<rparr>"

definition demo_close_request :: close_check_request where
  "demo_close_request =
     \<lparr>cq_close_policy_id = None, base_revision_id = ''r2'', declared_projection_loss_ids = [],
      validation_evidence_ids = [''evidence''], cq_source_ids = [''source''],
      cq_operation_gate = Some (demo_gate\<lparr>gate_operation := ''close-check''\<rparr>)\<rparr>"

lemma demo_valid: "validate_native_case_space demo_env demo_space2 = Ok ()"
  by code_simp

end
