(* ===== verification/Eval_Properties.thy ===== *)
theory Eval_Properties
  imports Native_Eval_Sections
begin

text \<open>
  What the evaluation guarantees: which obstructions a cell gets, that the set of satisfied
  requirements is the complement of the reported ones, that readiness partitions the evaluated
  cells, and that trust in evidence comes from the log.
\<close>

section \<open>Obstructions of a cell\<close>

lemma push_failing_get:
  "get_or_nil (push_failing check ok mk_ob ids m) c =
     get_or_nil m c @ (if c = check then map mk_ob (filter (\<lambda>i. \<not> ok i) ids) else [])"
  unfolding push_failing_def by (induction ids arbitrary: m) auto

lemma set_concat_values:
  "ob \<in> set (concat (btree_values m)) \<longleftrightarrow> (\<exists>c. ob \<in> set (get_or_nil m c))"
proof -
  have "(\<exists>vs \<in> set (btree_values m). ob \<in> set vs) \<longleftrightarrow> (\<exists>c vs. fmlookup m c = Some vs \<and> ob \<in> set vs)"
    unfolding Bex_def set_btree_values by blast
  also have "\<dots> \<longleftrightarrow> (\<exists>c. ob \<in> set (get_or_nil m c))"
    by (auto simp: get_or_nil_def split: option.splits; metis)
  finally show ?thesis by simp
qed

definition failing :: "(id \<Rightarrow> bool) \<Rightarrow> (id \<Rightarrow> obstruction) \<Rightarrow> id list \<Rightarrow> obstruction set" where
  "failing ok mk_ob ids = mk_ob ` {i \<in> set ids. \<not> ok i}"

lemma cell_obstructions:
  "set (ce_obstructions (evaluate_cell e ctx cell)) =
     failing (complete_cell ctx) (dependency_obstruction e (cell_id cell))
       (requirement_ids ctx cell RtDependsOn)
   \<union> failing (wait_satisfied ctx) (wait_obstruction e (cell_id cell))
       (requirement_ids ctx cell RtWaitsFor)
   \<union> failing (evidence_requirement_satisfied ctx (cell_id cell)) (evidence_obstruction e (cell_id cell))
       (requirement_ids ctx cell RtRequiresEvidence)
   \<union> failing (proof_requirement_satisfied ctx (cell_id cell)) (proof_obstruction e (cell_id cell))
       (requirement_ids ctx cell RtRequiresProof)
   \<union> failing (\<lambda>_. False) (contradiction_obstruction e (cell_id cell))
       (map rel_id (contradiction_relations ctx (cell_id cell)))
   \<union> failing (review_satisfied ctx) (review_obstruction e (cell_id cell))
       (map rel_to_id (required_review_relations ctx (cell_id cell)))"
proof -
  have "ob \<in> set (ce_obstructions (evaluate_cell e ctx cell)) \<longleftrightarrow>
      (\<exists>c. ob \<in> set (get_or_nil (cell_by_check e ctx cell) c))" for ob
    unfolding set_concat_values [symmetric]
    by (simp add: evaluate_cell_def Let_def sorted_obstructions_def)
  moreover have "ob \<in> set (get_or_nil (cell_by_check e ctx cell) c) \<longleftrightarrow>
     (c = RcDependencies \<and> ob \<in> failing (complete_cell ctx) (dependency_obstruction e (cell_id cell))
        (requirement_ids ctx cell RtDependsOn)) \<or>
     (c = RcWaits \<and> ob \<in> failing (wait_satisfied ctx) (wait_obstruction e (cell_id cell))
        (requirement_ids ctx cell RtWaitsFor)) \<or>
     (c = RcEvidence \<and> ob \<in> failing (evidence_requirement_satisfied ctx (cell_id cell))
        (evidence_obstruction e (cell_id cell)) (requirement_ids ctx cell RtRequiresEvidence)) \<or>
     (c = RcProof \<and> ob \<in> failing (proof_requirement_satisfied ctx (cell_id cell))
        (proof_obstruction e (cell_id cell)) (requirement_ids ctx cell RtRequiresProof)) \<or>
     (c = RcContradictions \<and> ob \<in> failing (\<lambda>_. False) (contradiction_obstruction e (cell_id cell))
        (map rel_id (contradiction_relations ctx (cell_id cell)))) \<or>
     (c = RcReviews \<and> ob \<in> failing (review_satisfied ctx) (review_obstruction e (cell_id cell))
        (map rel_to_id (required_review_relations ctx (cell_id cell))))" for ob c
    by (cases c) (auto simp: cell_by_check_def Let_def push_failing_get failing_def)
  ultimately show ?thesis by blast
qed

lemma obstruction_new_fields:
  "ob_type (obstruction_new e t i w c x sv q) = t" "ob_witness_ids (obstruction_new e t i w c x sv q) = [w]"
  "affected_ids (obstruction_new e t i w c x sv q) = [i]" "blocking (obstruction_new e t i w c x sv q)"
  "ob_severity (obstruction_new e t i w c x sv q) = sv"
  by (simp_all add: obstruction_new_def)

lemma obstruction_kinds [simp]:
  "ob_type (dependency_obstruction e i w) = OtUnresolvedDependency"
  "ob_type (wait_obstruction e i w) = OtExternalWait"
  "ob_type (evidence_obstruction e i w) = OtMissingEvidence"
  "ob_type (proof_obstruction e i w) = OtMissingProof"
  "ob_type (contradiction_obstruction e i w) = OtContradiction"
  "ob_type (review_obstruction e i w) = OtReviewRequired"
  "ob_witness_ids (evidence_obstruction e i w) = [w]"
  "blocking (dependency_obstruction e i w)" "blocking (wait_obstruction e i w)"
  "blocking (evidence_obstruction e i w)" "blocking (proof_obstruction e i w)"
  "blocking (contradiction_obstruction e i w)" "blocking (review_obstruction e i w)"
  by (simp_all only: dependency_obstruction_def wait_obstruction_def evidence_obstruction_def
      proof_obstruction_def contradiction_obstruction_def review_obstruction_def obstruction_new_fields)

lemma bex_failing: "(\<exists>ob \<in> failing ok mk_ob ids. P ob) \<longleftrightarrow> (\<exists>i \<in> set ids. \<not> ok i \<and> P (mk_ob i))"
  by (auto simp: failing_def)

lemma cell_obstructions_blocking:
  "ob \<in> set (ce_obstructions (evaluate_cell e ctx cell)) \<Longrightarrow> blocking ob"
  by (auto simp: cell_obstructions failing_def)

lemma missing_evidence_iff:
  "(\<exists>ob \<in> set (ce_obstructions (evaluate_cell e ctx cell)).
      ob_type ob = OtMissingEvidence \<and> ob_witness_ids ob = [r]) \<longleftrightarrow>
   r \<in> set (requirement_ids ctx cell RtRequiresEvidence) \<and>
   \<not> evidence_requirement_satisfied ctx (cell_id cell) r"
  unfolding cell_obstructions bex_Un bex_failing by auto

section \<open>Satisfied requirements\<close>

lemma context_fields [simp]:
  "ctx_space (eval_context_new e cs) = cs"
  "ctx_index (eval_context_new e cs) = from_case_space e cs"
  "trusted_evidence_ids (eval_context_new e cs) = trusted_evidence e cs"
  "ctx_coverage_targets (eval_context_new e cs) =
     trusted_coverage_targets e cs (\<lambda>i. i \<in> trusted_evidence e cs)"
  by (simp_all add: eval_context_new_def Let_def)

lemma holders_get:
  "get_or_nil (fold (\<lambda>cell m. fold (\<lambda>r. entry_push r (cell_id cell)) (reqs cell) m) cells m) r =
     get_or_nil m r @ concat (map (\<lambda>cell. map (\<lambda>_. cell_id cell) (filter (\<lambda>x. x = r) (reqs cell))) cells)"
  by (induction cells arbitrary: m) (simp_all add: get_or_nil_fold_push)

lemma holders_None:
  "fmlookup (fold (\<lambda>cell m. fold (\<lambda>r. entry_push r (cell_id cell)) (reqs cell) m) cells m) r = None \<longleftrightarrow>
     fmlookup m r = None \<and> (\<forall>cell \<in> set cells. r \<notin> set (reqs cell))"
  by (induction cells arbitrary: m) (auto simp: lookup_fold_push_None)

lemma compute_satisfied_iff:
  "r \<in> compute_satisfied_requirement_ids ctx \<longleftrightarrow>
     (\<exists>cell \<in> set (case_cells (ctx_space ctx)). readiness_subject cell \<and>
        r \<in> set (requirement_ids ctx cell RtRequiresEvidence)) \<and>
     (\<forall>cell \<in> set (case_cells (ctx_space ctx)). readiness_subject cell \<longrightarrow>
        r \<in> set (requirement_ids ctx cell RtRequiresEvidence) \<longrightarrow>
        evidence_requirement_satisfied ctx (cell_id cell) r)"
  unfolding compute_satisfied_requirement_ids_def Let_def
  by (auto simp: set_btree_keys holders_get holders_None list_all_iff)

lemma satisfied_requirement_ids_iff:
  "r \<in> satisfied_requirement_ids (eval_context_new e cs) \<longleftrightarrow>
     (\<exists>cell \<in> set (case_cells cs). readiness_subject cell \<and>
        r \<in> set (requirement_ids (eval_context_new e cs) cell RtRequiresEvidence)) \<and>
     (\<forall>cell \<in> set (case_cells cs). readiness_subject cell \<longrightarrow>
        r \<in> set (requirement_ids (eval_context_new e cs) cell RtRequiresEvidence) \<longrightarrow>
        evidence_requirement_satisfied (eval_context_new e cs) (cell_id cell) r)"
proof -
  have "satisfied_requirement_ids (eval_context_new e cs) =
      compute_satisfied_requirement_ids (eval_context_new e cs)"
    by (simp add: eval_context_new_def Let_def compute_satisfied_requirement_ids_def
        requirement_ids_def evidence_requirement_satisfied_def trusted_evidence_exists_def)
  then show ?thesis by (simp add: compute_satisfied_iff)
qed


section \<open>Readiness\<close>

lemma lookup_fold_or_insert:
  "fmlookup (fold (\<lambda>x. or_insert (key x) x) xs m) i =
     (case fmlookup m i of Some v \<Rightarrow> Some v | None \<Rightarrow> find (\<lambda>x. key x = i) xs)"
  by (induction xs arbitrary: m) (auto simp: lookup_or_insert split: option.splits)

lemma merge_obstructions_mem:
  "ob \<in> set (merge_obstructions results) \<longleftrightarrow>
     find (\<lambda>x. ob_id x = ob_id ob) (concat (map ce_obstructions results)) = Some ob"
  by (auto simp: merge_obstructions_def set_btree_values lookup_fold_or_insert dest: find_key_SomeD)

lemma merge_obstructions_sub:
  "set (merge_obstructions results) \<subseteq> set (concat (map ce_obstructions results))"
proof
  fix ob assume "ob \<in> set (merge_obstructions results)"
  then have "find (\<lambda>x. ob_id x = ob_id ob) (concat (map ce_obstructions results)) = Some ob"
    unfolding merge_obstructions_mem .
  from find_key_SomeD [OF this] show "ob \<in> set (concat (map ce_obstructions results))" by blast
qed

lemma merge_obstructions_ids:
  "ob_id ` set (merge_obstructions results) = ob_id ` set (concat (map ce_obstructions results))"
    (is "?l = ob_id ` set ?all")
proof
  show "?l \<subseteq> ob_id ` set ?all"
    using merge_obstructions_sub by (rule image_mono)
  show "ob_id ` set ?all \<subseteq> ?l"
  proof (rule image_subsetI)
    fix x assume "x \<in> set ?all"
    then have "find (\<lambda>y. ob_id y = ob_id x) ?all \<noteq> None" unfolding find_None_iff by blast
    then obtain ob where "find (\<lambda>y. ob_id y = ob_id x) ?all = Some ob" by blast
    moreover from find_key_SomeD [OF this] have same: "ob_id ob = ob_id x" by blast
    ultimately have "ob \<in> set (merge_obstructions results)"
      unfolding merge_obstructions_mem by simp
    then show "ob_id x \<in> ?l" unfolding same [symmetric] by (rule imageI)
  qed
qed

lemma readiness_result_lists:
  assumes "results = evaluate_cells e ctx" "ctx_space ctx = cs"
  shows "evaluated_cell_ids (readiness_result cs results) = map ce_cell_id results"
    "ready_cell_ids (readiness_result cs results) =
       map ce_cell_id (filter (\<lambda>r. ce_obstructions r = []) results)"
    "blocked_cell_ids (readiness_result cs results) =
       map ce_cell_id (filter (\<lambda>r. ce_obstructions r \<noteq> []) results)"
    "set (waiting_cell_ids (readiness_result cs results)) \<subseteq>
       set (blocked_cell_ids (readiness_result cs results))"
proof -
  have blocking: "blocking ob" if "r \<in> set results" "ob \<in> set (ce_obstructions r)" for r ob
    using that assms(1) cell_obstructions_blocking by (auto simp: evaluate_cells_def)
  have all: "list_all (\<lambda>ob. \<not> blocking ob) (ce_obstructions r) \<longleftrightarrow> ce_obstructions r = []"
    "list_ex blocking (ce_obstructions r) \<longleftrightarrow> ce_obstructions r \<noteq> []"
    "filter blocking (ce_obstructions r) = ce_obstructions r" if "r \<in> set results" for r
    using blocking [OF that]
    by (cases "ce_obstructions r"; auto simp: list_all_iff list_ex_iff filter_id_conv)+
  show "evaluated_cell_ids (readiness_result cs results) = map ce_cell_id results"
    using assms by (simp add: readiness_result_def Let_def evaluate_cells_def evaluate_cell_def comp_def)
  show "ready_cell_ids (readiness_result cs results) =
       map ce_cell_id (filter (\<lambda>r. ce_obstructions r = []) results)"
    using all(1) by (simp add: readiness_result_def Let_def cong: filter_cong)
  show blocked: "blocked_cell_ids (readiness_result cs results) =
       map ce_cell_id (filter (\<lambda>r. ce_obstructions r \<noteq> []) results)"
    using all(2) by (simp add: readiness_result_def Let_def comp_def cong: filter_cong)
  show "set (waiting_cell_ids (readiness_result cs results)) \<subseteq>
       set (blocked_cell_ids (readiness_result cs results))"
    unfolding blocked using all(3) by (auto simp: readiness_result_def Let_def)
qed

lemma evaluate_native_caseE:
  assumes "evaluate_native_case e cs = Ok ev"
  obtains "validate_native_case_space e cs = Ok ()"
    "ne_readiness ev = readiness_result cs (evaluate_cells e (eval_context_new e cs))"
    "ne_obstructions ev = merge_obstructions (evaluate_cells e (eval_context_new e cs))"
    "ne_progress ev = progress_axis cs (ne_readiness ev) (ne_obstructions ev)"
    "ne_frontier_cell_ids ev = frontier_cell_ids (ne_readiness ev) (eval_context_new e cs)"
    "ne_evidence_findings ev = evidence_findings_of e cs (ne_obstructions ev)"
    "ne_completion_candidates ev = completion_candidates e cs (ne_obstructions ev)"
    "ne_review_gaps ev = review_gaps cs (ne_evidence_findings ev) (ne_completion_candidates ev)
       (satisfied_requirement_ids (eval_context_new e cs))"
    "ne_assurance ev = assurance_axis (ne_obstructions ev) (ne_evidence_findings ev) (ne_review_gaps ev)"
    "ne_close_check ev = close_check_skeleton_of cs (ne_obstructions ev)
       (ne_completion_candidates ev) (ne_review_gaps ev)"
    "ne_projection_loss ev = projection_losses cs"
  using assms by (auto simp: evaluate_native_case_def Let_def result_simps)

lemma merged_empty_iff:
  "merge_obstructions (evaluate_cells e ctx) = [] \<longleftrightarrow>
     (\<forall>r \<in> set (evaluate_cells e ctx). ce_obstructions r = [])"
proof -
  have "merge_obstructions (evaluate_cells e ctx) = [] \<longleftrightarrow>
      ob_id ` set (merge_obstructions (evaluate_cells e ctx)) = {}" by simp
  also have "\<dots> \<longleftrightarrow> set (concat (map ce_obstructions (evaluate_cells e ctx))) = {}"
    unfolding merge_obstructions_ids by (rule image_is_empty)
  also have "\<dots> \<longleftrightarrow> (\<forall>r \<in> set (evaluate_cells e ctx). ce_obstructions r = [])" by simp
  finally show ?thesis .
qed

text \<open>
  Readiness partitions the evaluated cells: in a successful evaluation the ready and the
  blocked cells are disjoint and together are exactly the evaluated ones, waiting cells are blocked,
  the frontier is made of ready cells that no hard completion relation targets, and progress is
  blocked exactly when some cell is.
\<close>

theorem readiness_partition:
  assumes "evaluate_native_case e cs = Ok ev"
  shows "distinct (ready_cell_ids (ne_readiness ev) @ blocked_cell_ids (ne_readiness ev)) \<and>
    set (ready_cell_ids (ne_readiness ev)) \<union> set (blocked_cell_ids (ne_readiness ev)) =
      cell_id ` {c \<in> set (case_cells cs). readiness_subject c} \<and>
    set (waiting_cell_ids (ne_readiness ev)) \<subseteq> set (blocked_cell_ids (ne_readiness ev)) \<and>
    set (ne_frontier_cell_ids ev) \<subseteq>
      set (ready_cell_ids (ne_readiness ev)) - completed_targets (from_case_space e cs) \<and>
    (ne_progress ev = PrBlocked \<longleftrightarrow> blocked_cell_ids (ne_readiness ev) \<noteq> [])"
proof -
  let ?ctx = "eval_context_new e cs"
  let ?rs = "evaluate_cells e ?ctx"
  from assms have valid: "validate_native_case_space e cs = Ok ()"
    and rd: "ne_readiness ev = readiness_result cs ?rs"
    and ob: "ne_obstructions ev = merge_obstructions ?rs"
    and pr: "ne_progress ev = progress_axis cs (ne_readiness ev) (ne_obstructions ev)"
    and fr: "ne_frontier_cell_ids ev = frontier_cell_ids (ne_readiness ev) ?ctx"
    by (auto elim: evaluate_native_caseE)
  note lists = readiness_result_lists [OF refl context_fields(1), of cs e]
  have ids: "map ce_cell_id ?rs = map cell_id (filter readiness_subject (case_cells cs))"
    by (simp add: evaluate_cells_def evaluate_cell_def comp_def Let_def)
  have "distinct (map cell_id (filter readiness_subject (case_cells cs)))"
    using validated_ids [OF valid] by (simp add: distinct_map_filter)
  then have "inj_on ce_cell_id (set ?rs)" "distinct ?rs" unfolding ids [symmetric] distinct_map by auto
  then have "distinct (ready_cell_ids (ne_readiness ev) @ blocked_cell_ids (ne_readiness ev))"
    unfolding rd lists by (auto simp: distinct_map inj_on_def)
  moreover have "set (ready_cell_ids (ne_readiness ev)) \<union> set (blocked_cell_ids (ne_readiness ev)) =
      set (map ce_cell_id ?rs)"
    unfolding rd lists by auto
  moreover have "\<forall>x \<in> set (merge_obstructions ?rs). blocking x"
    using merge_obstructions_sub [of ?rs] cell_obstructions_blocking
    by (fastforce simp: evaluate_cells_def)
  then have "ne_progress ev = PrBlocked \<longleftrightarrow> merge_obstructions ?rs \<noteq> []"
    unfolding pr ob progress_axis_def by (cases "merge_obstructions ?rs") auto
  then have "ne_progress ev = PrBlocked \<longleftrightarrow> blocked_cell_ids (ne_readiness ev) \<noteq> []"
    unfolding rd lists merged_empty_iff by (simp add: filter_empty_conv)
  moreover have "set (ne_frontier_cell_ids ev) \<subseteq>
      set (ready_cell_ids (ne_readiness ev)) - completed_targets (from_case_space e cs)"
    unfolding fr frontier_cell_ids_def by auto
  ultimately show ?thesis using lists(4) rd unfolding ids by auto
qed

section \<open>Trust comes from the log\<close>

lemma latest_entries_mem:
  "fmlookup (latest_evidence_review_entries cs) i = Some entry \<Longrightarrow> entry \<in> set (morphism_log cs)"
proof -
  let ?f = "\<lambda>entry entries. let md = mor_metadata (entry_morphism entry) in
         if get_str md ''target_kind'' \<noteq> Some ''evidence'' then entries
         else case get_str md ''target_id'' of
                None \<Rightarrow> entries
              | Some evidence_id \<Rightarrow> fmupd evidence_id entry entries"
  have "?f x m = m \<or> (\<exists>k. ?f x m = fmupd k x m)" for x m
    by (auto simp: Let_def split: option.split)
  then have "fmlookup (fold ?f log m) i = Some entry \<Longrightarrow> entry \<in> set log \<or> fmlookup m i = Some entry" for log m
    by (rule lookup_fold_mem)
  from this [of "morphism_log cs" fmempty]
  show "fmlookup (latest_evidence_review_entries cs) i = Some entry \<Longrightarrow> entry \<in> set (morphism_log cs)"
    by (simp add: latest_evidence_review_entries_def)
qed

lemma index_statuses: "index_review_statuses (from_case_space e cs) = latest_evidence_review_statuses e cs"
  by (simp add: from_case_space_def)

lemma trusted_evidence_cells:
  "trusted_evidence e cs = cell_id ` {c \<in> set (filter (\<lambda>c. cell_type c = CtEvidence) (case_cells cs)).
     evidence_is_acceptable (native_evidence_trust_input c
       (fmlookup (latest_evidence_review_statuses e cs) (cell_id c)))}"
  by (auto simp: trusted_evidence_def index_statuses)

lemma log_determines_trust:
  assumes "morphism_log cs = morphism_log cs'"
    "filter (\<lambda>c. cell_type c = CtEvidence) (case_cells cs) =
     filter (\<lambda>c. cell_type c = CtEvidence) (case_cells cs')"
  shows "trusted_evidence e cs = trusted_evidence e cs'"
    "trusted_coverage_targets e cs p = trusted_coverage_targets e cs' p"
  using assms
  by (simp_all add: trusted_evidence_cells latest_evidence_review_statuses_def
      latest_evidence_review_entries_def trusted_coverage_targets_def canonical_evidence_coverage_def)

text \<open>
  The graph does not decide what evidence covers: two spaces with the same morphism log and
  the same evidence cells answer every evidence requirement alike, whatever their other cells,
  relations and projections are.
\<close>

theorem trust_ignores_graph:
  assumes "morphism_log cs = morphism_log cs'"
    "filter (\<lambda>c. cell_type c = CtEvidence) (case_cells cs) =
     filter (\<lambda>c. cell_type c = CtEvidence) (case_cells cs')"
  shows "evidence_requirement_satisfied (eval_context_new e cs) i r =
     evidence_requirement_satisfied (eval_context_new e cs') i r"
  using log_determines_trust [OF assms]
  by (simp add: evidence_requirement_satisfied_def trusted_evidence_exists_def)

text \<open>
  Claim C27. Inferred and worker-produced evidence is trusted only through review: if such a cell is
  trusted, the last log entry that reviews it is a canonical accepting review of exactly that id,
  and the cell has a source.
\<close>

theorem untrusted_boundary_needs_review:
  assumes "distinct (map cell_id (case_cells cs))" "c \<in> set (case_cells cs)"
    "from_metadata_value (declared_boundary c) \<in> {EbInferred, EbWorkerOutput}"
    "cell_id c \<in> trusted_evidence e cs"
  shows "cell_source_ids c \<noteq> [] \<and>
    (\<exists>entry review. fmlookup (latest_evidence_review_entries cs) (cell_id c) = Some entry \<and>
       entry \<in> set (morphism_log cs) \<and>
       canonical_review e (entry_morphism entry) = Some review \<and>
       cr_target_kind review = TkEvidence \<and> cr_target_id review = cell_id c \<and>
       cr_action review = RaAccept \<and> cr_outcome review = RsAccepted)"
proof -
  from assms(4) obtain c' where "c' \<in> set (case_cells cs)" "cell_id c' = cell_id c"
    and acc: "evidence_is_acceptable (native_evidence_trust_input c'
       (fmlookup (latest_evidence_review_statuses e cs) (cell_id c')))"
    by (auto simp: trusted_evidence_cells)
  with assms(1,2) have "c' = c" by (meson distinct_map inj_onD)
  with acc acceptable_untrusted_boundary [OF assms(3)]
  have "cell_source_ids c \<noteq> []" "fmlookup (latest_evidence_review_statuses e cs) (cell_id c) = Some RsAccepted"
    by auto
  then show ?thesis
    by (auto simp: latest_evidence_review_statuses_def evidence_review_status_def
        intro: latest_entries_mem split: option.splits if_splits)
qed

lemma log_append_statuses:
  assumes "get_str (mor_metadata (entry_morphism entry)) ''target_kind'' \<noteq> Some ''evidence''"
  shows "latest_evidence_review_statuses e (cs\<lparr>morphism_log := morphism_log cs @ [entry]\<rparr>) =
     latest_evidence_review_statuses e cs"
  using assms
  by (simp add: latest_evidence_review_statuses_def latest_evidence_review_entries_def)

lemma log_append_coverage:
  assumes "morphism_type (entry_morphism entry) \<noteq> MtEvidenceAttach" "morphism_log cs \<noteq> []"
  shows "canonical_evidence_coverage e (cs\<lparr>morphism_log := morphism_log cs @ [entry]\<rparr>) =
     canonical_evidence_coverage e cs"
  using assms
  by (simp add: canonical_evidence_coverage_def enumerate_append_eq entry_coverage_def Let_def)

end
