(* ===== verification/Review_Properties.thy ===== *)
theory Review_Properties
  imports Native_Review Eval_Properties
begin

text \<open>
  Properties of the operation gate and of the close check: what a passing gate says, that the close
  check and the evaluator answer an evidence requirement alike, and what a closeable verdict implies.
\<close>

section \<open>The gate\<close>

lemma failure_unless_Nil [simp]: "failure_unless ok l w = [] \<longleftrightarrow> ok"
  by (simp add: failure_unless_def)

definition capability_grants :: "case_space \<Rightarrow> operation_gate \<Rightarrow> string \<Rightarrow> id \<Rightarrow> bool" where
  "capability_grants cs gate operation i \<longleftrightarrow>
     (\<exists>cell. find (\<lambda>c. cell_id c = i) (case_cells cs) = Some cell \<and> is_capability_cell cell \<and>
        cell_lifecycle cell \<in> {LcActive, LcAccepted} \<and>
        prov_review_status (cell_provenance cell) = RsAccepted \<and>
        lists_string (cell_metadata cell) ''actor_ids'' (gate_actor_id gate) \<and>
        lists_string (cell_metadata cell) ''operations'' operation)"

lemma capability_failures_Nil: "capability_failures cs gate operation i = [] \<longleftrightarrow> capability_grants cs gate operation i"
  by (auto simp: capability_failures_def capability_grants_def is_capability_cell_def split: option.splits)

lemma gate_ok_iff:
  "check_operation_gate e cs gate operation = Ok () \<longleftrightarrow>
     gate_operation gate = operation \<and> operation_scope_id gate = case_space_id cs \<and>
     gate_audience gate \<in> {AuAudit, AuSystem} \<and> capability_ids gate \<noteq> [] \<and>
     (\<forall>i \<in> set (capability_ids gate). capability_grants cs gate operation i) \<and>
     declared_source_boundary_id e cs = Some (source_boundary_id gate)"
  by (auto simp: check_operation_gate_def Let_def operation_gate_failures_def capability_failures_Nil)

lemma capability_grants_cell:
  assumes "distinct (map cell_id (case_cells cs))"
  shows "capability_grants cs gate operation i \<longleftrightarrow>
     (\<exists>cell \<in> set (filter is_capability_cell (case_cells cs)). cell_id cell = i \<and>
        cell_lifecycle cell \<in> {LcActive, LcAccepted} \<and>
        prov_review_status (cell_provenance cell) = RsAccepted \<and>
        lists_string (cell_metadata cell) ''actor_ids'' (gate_actor_id gate) \<and>
        lists_string (cell_metadata cell) ''operations'' operation)"
proof -
  have "find (\<lambda>c. cell_id c = i) (case_cells cs) = Some cell \<longleftrightarrow>
      cell \<in> set (case_cells cs) \<and> cell_id cell = i" for cell
    using find_key_distinct [OF assms] find_key_SomeD by fastforce
  then show ?thesis by (auto simp: capability_grants_def)
qed

text \<open>A refused gate names a witness, so the close check cannot miss the refusal.\<close>

lemma failure_unless_mem:
  "failure \<in> set (failure_unless ok l w) \<longleftrightarrow> \<not> ok \<and> failure = \<lparr>gf_label = l, gf_witness_ids = w\<rparr>"
  by (simp add: failure_unless_def)

lemma capability_witnesses:
  "failure \<in> set (capability_failures cs gate operation i) \<Longrightarrow> gf_witness_ids failure \<noteq> []"
  unfolding capability_failures_def
  by (cases "find (\<lambda>cell. cell_id cell = i) (case_cells cs)")
    (simp, auto simp only: option.case set_append Un_iff failure_unless_mem gate_failure.select_convs)

lemma failure_witnesses:
  assumes "failure \<in> set (operation_gate_failures e cs gate operation)"
  shows "gf_witness_ids failure \<noteq> []"
  using assms capability_witnesses unfolding operation_gate_failures_def
  by (auto simp only: set_append Un_iff failure_unless_mem gate_failure.select_convs
      set_concat set_map UN_iff)

lemma gate_error_witness:
  assumes "check_operation_gate e cs gate operation = Err err"
  shows "ge_witness_ids err \<noteq> []"
proof -
  let ?fs = "operation_gate_failures e cs gate operation"
  from assms have ne: "?fs \<noteq> []" and w: "ge_witness_ids err = concat (map gf_witness_ids ?fs)"
    by (auto simp: check_operation_gate_def Let_def split: if_splits)
  from failure_witnesses [OF hd_in_set [OF ne]] hd_in_set [OF ne] show ?thesis
    unfolding w by auto
qed

text \<open>
  Authority is explicit: a gate that passes for an operation names that operation, the
  scope of this very space, an audit or system audience and the declared source boundary, and every
  capability it cites is a capability cell of the space, live and accepted, that lists both the actor
  and the operation. In particular a space without capability cells admits no operation at all.
\<close>

theorem gate_authority:
  assumes "check_operation_gate e cs gate operation = Ok ()"
  shows "gate_operation gate = operation \<and> operation_scope_id gate = case_space_id cs \<and>
    gate_audience gate \<in> {AuAudit, AuSystem} \<and>
    declared_source_boundary_id e cs = Some (source_boundary_id gate) \<and>
    has_capability_cells cs \<and>
    (\<forall>i \<in> set (capability_ids gate). \<exists>cell \<in> set (case_cells cs).
       cell_id cell = i \<and> is_capability_cell cell \<and> cell_lifecycle cell \<in> {LcActive, LcAccepted} \<and>
       prov_review_status (cell_provenance cell) = RsAccepted \<and>
       lists_string (cell_metadata cell) ''actor_ids'' (gate_actor_id gate) \<and>
       lists_string (cell_metadata cell) ''operations'' operation)"
proof -
  from assms have ok: "capability_ids gate \<noteq> []"
    "\<forall>i \<in> set (capability_ids gate). capability_grants cs gate operation i"
    by (simp_all add: gate_ok_iff)
  have grants: "\<exists>cell \<in> set (case_cells cs).
       cell_id cell = i \<and> is_capability_cell cell \<and> cell_lifecycle cell \<in> {LcActive, LcAccepted} \<and>
       prov_review_status (cell_provenance cell) = RsAccepted \<and>
       lists_string (cell_metadata cell) ''actor_ids'' (gate_actor_id gate) \<and>
       lists_string (cell_metadata cell) ''operations'' operation"
    if "i \<in> set (capability_ids gate)" for i
    using ok(2) that by (auto simp: capability_grants_def dest!: find_key_SomeD)
  from grants [OF last_in_set [OF ok(1)]] have "has_capability_cells cs"
    unfolding has_capability_cells_def list_ex_iff by blast
  with grants assms show ?thesis by (auto simp: gate_ok_iff)
qed

section \<open>The close check reads the evaluator's answer\<close>

lemma cell_map_values:
  assumes "distinct (map cell_id (case_cells cs))"
  shows "set (btree_values (collect_map (map (\<lambda>c. (cell_id c, c)) (case_cells cs)))) = set (case_cells cs)"
    "fmlookup (collect_map (map (\<lambda>c. (cell_id c, c)) (case_cells cs))) i = Some c \<longleftrightarrow>
       c \<in> set (case_cells cs) \<and> cell_id c = i"
proof -
  have "fmlookup (collect_map (map (\<lambda>c. (cell_id c, c)) (case_cells cs))) j = Some d \<longleftrightarrow>
       d \<in> set (case_cells cs) \<and> cell_id d = j" for j d
    using assms by (subst lookup_collect_distinct) (auto simp: comp_def)
  then show "set (btree_values (collect_map (map (\<lambda>c. (cell_id c, c)) (case_cells cs)))) = set (case_cells cs)"
    "fmlookup (collect_map (map (\<lambda>c. (cell_id c, c)) (case_cells cs))) i = Some c \<longleftrightarrow>
       c \<in> set (case_cells cs) \<and> cell_id c = i"
    by (auto simp: set_btree_values)
qed

lemma acceptable_is_trusted:
  "(\<exists>c \<in> set (case_cells cs). cell_id c = i \<and>
      is_acceptable_cell (latest_evidence_review_statuses e cs) c) \<longleftrightarrow> i \<in> trusted_evidence e cs"
  by (auto simp: trusted_evidence_cells is_acceptable_cell_def)

text \<open>
  The close check and the evaluator cannot disagree on evidence: the blockers of
  \<open>close:native-evidence-accepted-or-waived\<close> are exactly the targets of the \<open>requires_evidence\<close>
  relations that carry no waiver and that the evaluator's own decision leaves unsatisfied.
\<close>

theorem close_blockers_agree:
  assumes "distinct (map cell_id (case_cells cs))"
  shows "evidence_requirement_blockers e cs reviews (latest_evidence_review_statuses e cs) =
     dedupe_ids (map rel_to_id (filter (\<lambda>r. relation_type r = RtRequiresEvidence
         \<and> \<not> target_has_action e reviews (rel_id r) RaWaive
         \<and> \<not> target_has_action e reviews (rel_to_id r) RaWaive
         \<and> \<not> evidence_requirement_satisfied (eval_context_new e cs) (rel_from_id r) (rel_to_id r))
       (case_relations cs)))"
proof -
  let ?cells = "collect_map (map (\<lambda>c. (cell_id c, c)) (case_cells cs))"
  let ?ok = "is_acceptable_cell (latest_evidence_review_statuses e cs)"
  have covered: "(\<lambda>i. list_ex (\<lambda>c. cell_id c = i \<and> ?ok c) (btree_values ?cells)) =
      (\<lambda>i. i \<in> trusted_evidence e cs)"
    unfolding list_ex_iff cell_map_values(1) [OF assms] acceptable_is_trusted ..
  have "(case fmlookup ?cells i of None \<Rightarrow> False | Some c \<Rightarrow> ?ok c) \<longleftrightarrow> i \<in> trusted_evidence e cs" for i
  proof (cases "fmlookup ?cells i")
    case None
    with cell_map_values(2) [OF assms, of i]
    have "\<not> (\<exists>c \<in> set (case_cells cs). cell_id c = i)" by (metis option.distinct(1))
    with None show ?thesis unfolding acceptable_is_trusted [symmetric] by auto
  next
    case (Some c)
    with cell_map_values(2) [OF assms, of i]
    have "\<forall>d \<in> set (case_cells cs). cell_id d = i \<longleftrightarrow> d = c" "c \<in> set (case_cells cs)"
      by (metis option.inject)+
    with Some show ?thesis unfolding acceptable_is_trusted [symmetric] by auto
  qed
  then show ?thesis
    unfolding evidence_requirement_blockers_def Let_def covered
    by (simp add: evidence_requirement_satisfied_def trusted_evidence_exists_def)
qed

section \<open>What a closeable verdict implies\<close>

lemma close_invariant_passed [simp]: "ci_passed (close_invariant i w m) \<longleftrightarrow> w = []"
  by (simp add: close_invariant_def)

lemma lookup_fold_fmupd_Unreviewed:
  assumes "\<And>k c. fmlookup m k = Some c \<Longrightarrow> cand_id c = k \<and> cand_review_status c = RsUnreviewed"
    "\<And>x. x \<in> set xs \<Longrightarrow> cand_review_status (f x) = RsUnreviewed"
  shows "fmlookup (fold (\<lambda>x. fmupd (cand_id (f x)) (f x)) xs m) k = Some c \<Longrightarrow>
     cand_id c = k \<and> cand_review_status c = RsUnreviewed"
  using assms
proof (induction xs arbitrary: m)
  case (Cons x xs)
  show ?case
  proof (rule Cons.IH)
    show "fmlookup (fold (\<lambda>x. fmupd (cand_id (f x)) (f x)) xs (fmupd (cand_id (f x)) (f x) m)) k = Some c"
      using Cons.prems(1) by simp
    show "cand_id c' = k' \<and> cand_review_status c' = RsUnreviewed"
      if "fmlookup (fmupd (cand_id (f x)) (f x) m) k' = Some c'" for k' c'
      using that Cons.prems by (auto split: if_splits)
  qed (use Cons.prems in auto)
qed simp

lemma obstruction_has_candidate:
  assumes "ob \<in> set obstructions"
  shows "\<exists>c \<in> set (completion_candidates e cs obstructions).
     cand_id c = cand_id (obstruction_candidate e ob) \<and> cand_review_status c = RsUnreviewed"
proof -
  let ?m = "fold (\<lambda>cell. fmupd (cell_id cell) (completion_cell_candidate cell))
      (filter is_open_completion (case_cells cs)) fmempty"
  have cells: "cand_id c = k \<and> cand_review_status c = RsUnreviewed" if "fmlookup ?m k = Some c" for k c
    using lookup_fold_fmupd_Unreviewed [of fmempty "filter is_open_completion (case_cells cs)"
        completion_cell_candidate k c] that
    by (auto simp: completion_cell_candidate_def is_open_completion_def)
  let ?cands = "map (obstruction_candidate e) obstructions"
  have fold: "fold (\<lambda>ob. let c = obstruction_candidate e ob in or_insert (cand_id c) c) obstructions ?m =
      fold (\<lambda>c. or_insert (cand_id c) c) ?cands ?m"
    by (simp add: fold_map comp_def Let_def)
  have new: "cand_review_status (obstruction_candidate e x) = RsUnreviewed" for x
    by (simp add: obstruction_candidate_def split: prod.splits)
  let ?k = "cand_id (obstruction_candidate e ob)"
  have "find (\<lambda>c. cand_id c = ?k) ?cands \<noteq> None"
    using assms unfolding find_None_iff by auto
  then obtain c where c: "find (\<lambda>c. cand_id c = ?k) ?cands = Some c" by blast
  from find_key_SomeD [OF c] new have c': "cand_id c = ?k \<and> cand_review_status c = RsUnreviewed"
    by auto
  have look: "fmlookup (fold (\<lambda>c. or_insert (cand_id c) c) ?cands ?m) ?k =
      (case fmlookup ?m ?k of Some v \<Rightarrow> Some v | None \<Rightarrow> Some c)"
    unfolding lookup_fold_or_insert c ..
  obtain d where d: "fmlookup (fold (\<lambda>c. or_insert (cand_id c) c) ?cands ?m) ?k = Some d"
    "cand_id d = ?k \<and> cand_review_status d = RsUnreviewed"
  proof (cases "fmlookup ?m ?k")
    case None
    with look c' that [of c] show ?thesis by simp
  next
    case (Some v)
    with look cells [OF Some] that [of v] show ?thesis by simp
  qed
  then have "d \<in> set (completion_candidates e cs obstructions)"
    unfolding completion_candidates_def Let_def fold [unfolded Let_def] set_btree_values by blast
  with d(2) show ?thesis by blast
qed


end
