(* ===== verification/Case_Witnesses.thy ===== *)
theory Case_Witnesses
  imports Case_Samples Review_Properties
begin

text \<open>Instances of the validation, evaluation, review and close properties on the sample history.\<close>

theorem review_round_trip_witness:
  "canonical_review demo_env (build_review_morphism_validated demo_env demo_space1 RaAccept demo_request) =
     Some \<lparr>cr_target_kind = TkEvidence, cr_target_id = ''evidence'', cr_action = RaAccept,
           cr_outcome = RsAccepted, cr_execution_topology = None\<rparr>"
proof -
  have status: "status_of demo_env (JString (status_value demo_env s)) = Some s" for s
    using sample_env_status [of s] by (simp add: demo_env_def)
  have "valid_id demo_env (rq_target_id demo_request) \<and> valid_id demo_env (reviewer_id demo_request) \<and>
      valid_id demo_env (generated_id ''review''
        [mor_id (build_review_morphism_validated demo_env demo_space1 RaAccept demo_request)]) \<and>
      rq_target_kind demo_request \<noteq> TkExecutionTopology \<and> rq_action demo_request = RaAccept \<and>
      \<not> blank (reason demo_request) \<and> \<not> blank (reviewed_at demo_request)" by code_simp
  with review_round_trip [of demo_request RaAccept demo_env demo_space1, OF _ _ _ _ status]
  show ?thesis by (simp add: demo_request_def)
qed

theorem validated_space_witness:
  "distinct (map cell_id demo_cells @ map rel_id demo_relations) \<and>
   revision_id (cs_revision demo_space2) = entry_target_revision_id (last (morphism_log demo_space2)) \<and>
   entry_source_revision_id (morphism_log demo_space2 ! 1) = Some ''r1''"
proof -
  have "morphism_log demo_space2 ! 0 = demo_genesis" "length (morphism_log demo_space2) = 2"
    "case_cells demo_space2 = demo_cells" "case_relations demo_space2 = demo_relations"
    by (simp_all add: demo_space2_def demo_space1_def)
  moreover have "entry_target_revision_id demo_genesis = ''r1''"
    by (simp add: demo_genesis_def demo_entry_def demo_morphism_def)
  ultimately show ?thesis using validated_space [OF demo_valid] by auto
qed


theorem untrusted_boundary_needs_review_witness:
  "\<exists>entry review. fmlookup (latest_evidence_review_entries demo_space2) ''evidence'' = Some entry \<and>
     canonical_review demo_env (entry_morphism entry) = Some review \<and> cr_action review = RaAccept"
proof -
  let ?c = "case_cells demo_space2 ! 1"
  have "distinct (map cell_id (case_cells demo_space2)) \<and>
      from_metadata_value (declared_boundary ?c) = EbInferred \<and>
      cell_id ?c = ''evidence'' \<and> ''evidence'' \<in> trusted_evidence demo_env demo_space2 \<and>
      1 < length (case_cells demo_space2)" by code_simp
  with untrusted_boundary_needs_review [of demo_space2 ?c demo_env] show ?thesis by force
qed

definition demo_check :: close_check where
  "demo_check = fst (projr (check_native_close_with_finding demo_env demo_space2 demo_close_request))"

lemma demo_closes:
  "check_native_close_with_finding demo_env demo_space2 demo_close_request = Ok (demo_check, False)"
  "closeable demo_check"
proof -
  have "(case check_native_close_with_finding demo_env demo_space2 demo_close_request of
      Inl _ \<Rightarrow> False | Inr (check, finding) \<Rightarrow> closeable check \<and> \<not> finding)" by code_simp
  then show "check_native_close_with_finding demo_env demo_space2 demo_close_request = Ok (demo_check, False)"
    "closeable demo_check"
    by (auto simp: demo_check_def split: sum.splits)
qed


end
