(* ===== verification/Store_Paths.thy ===== *)
theory Store_Paths
  imports CG_Prelude
begin

text \<open>
  Names of files in the native store (\<open>path_segment\<close> and \<open>require_relative_store_path\<close> of
  \<open>src/native_store/support.rs\<close>, the path builders of \<open>src/native_store.rs\<close>). An id is written as a file
  name byte by byte; the paths built from ids stay inside the store and no two ids share one.
\<close>

section \<open>Segments\<close>

definition plain_byte :: "char \<Rightarrow> bool" where
  "plain_byte c \<longleftrightarrow>
     (let n = of_char c :: nat in
      (97 \<le> n \<and> n \<le> 122) \<or> (65 \<le> n \<and> n \<le> 90) \<or> (48 \<le> n \<and> n \<le> 57) \<or> n = 45 \<or> n = 95)"

definition hex_digit :: "nat \<Rightarrow> char" where
  "hex_digit n = char_of (if n < 10 then 48 + n else 87 + n)"

definition segment_byte :: "char \<Rightarrow> string" where
  "segment_byte c =
     (if plain_byte c then [c]
      else (let n = of_char c :: nat in [CHR ''~'', hex_digit (n div 16), hex_digit (n mod 16)]))"

definition path_segment :: "id \<Rightarrow> string" where
  "path_segment i = concat (map segment_byte i)"

section \<open>Paths\<close>

text \<open>\<open>Path::components\<close>: empty components and a dot that is not the first component are skipped.\<close>

datatype component = RootDir | CurDir | ParentDir | Normal string

fun split_slash :: "string \<Rightarrow> string list" where
  "split_slash [] = [[]]"
| "split_slash (c # cs) =
     (if c = CHR ''/'' then [] # split_slash cs
      else (case split_slash cs of p # ps \<Rightarrow> (c # p) # ps | [] \<Rightarrow> [[c]]))"

definition plain_components :: "string list \<Rightarrow> component list" where
  "plain_components parts =
     map (\<lambda>p. if p = ''..'' then ParentDir else Normal p) (filter (\<lambda>p. p \<noteq> [] \<and> p \<noteq> ''.'') parts)"

definition components :: "string \<Rightarrow> component list" where
  "components path =
     (case split_slash path of
        [] # _ # rest \<Rightarrow> RootDir # plain_components rest
      | p # rest \<Rightarrow> (if p = ''.'' then [CurDir] else plain_components [p]) @ plain_components rest
      | [] \<Rightarrow> [])"

datatype path_error = EmptyPath | LeavesStore string

definition require_relative_store_path :: "string \<Rightarrow> (path_error, unit) result" where
  "require_relative_store_path path =
     rbind (ensure (\<not> blank path) EmptyPath) (\<lambda>_.
     each_res (\<lambda>c. ensure (case c of Normal _ \<Rightarrow> True | _ \<Rightarrow> False) (LeavesStore path))
       (components path))"

definition native_directory :: string where
  "native_directory = ''native_case_spaces''"

definition case_space_directory :: "id \<Rightarrow> string" where
  "case_space_directory i = native_directory @ ''/'' @ path_segment i"

definition relative_log_path :: "id \<Rightarrow> string" where
  "relative_log_path i = native_directory @ ''/'' @ path_segment i @ ''/morphism_log.jsonl''"

definition snapshot_name :: "id \<Rightarrow> string" where
  "snapshot_name rev_id = path_segment rev_id @ ''.case.space.json''"

definition relative_snapshot_path :: "id \<Rightarrow> id \<Rightarrow> string" where
  "relative_snapshot_path i rev_id =
     native_directory @ ''/'' @ path_segment i @ ''/snapshots/'' @ snapshot_name rev_id"

section \<open>Reading a segment back\<close>

definition hex_value :: "char \<Rightarrow> nat" where
  "hex_value c = (let n = of_char c :: nat in if n < 58 then n - 48 else n - 87)"

fun read_segment :: "string \<Rightarrow> string" where
  "read_segment [] = []"
| "read_segment (c # cs) =
     (if c = CHR ''~'' then
        (case cs of
           a # b # rest \<Rightarrow> char_of (16 * hex_value a + hex_value b) # read_segment rest
         | _ \<Rightarrow> [])
      else c # read_segment cs)"

lemma of_char_lt: "(of_char (c :: char) :: nat) < 256"
  by (metis of_char_mod_256 mod_less_divisor zero_less_numeral)

lemma of_char_div: "(of_char (c :: char) :: nat) div 16 < 16"
  using of_char_lt [of c] by (intro less_mult_imp_div_less) simp

lemma hex_round_trip: "n < 16 \<Longrightarrow> hex_value (hex_digit n) = n"
  by (simp add: hex_value_def hex_digit_def Let_def)

lemma read_segment_byte: "read_segment (segment_byte c @ rest) = c # read_segment rest"
proof (cases "plain_byte c")
  case True
  then have "c \<noteq> CHR ''~''" by (auto simp: plain_byte_def)
  with True show ?thesis by (simp add: segment_byte_def)
next
  case False
  let ?n = "of_char c :: nat"
  have "hex_value (hex_digit (?n div 16)) = ?n div 16" "hex_value (hex_digit (?n mod 16)) = ?n mod 16"
    using of_char_div [of c] by (auto intro!: hex_round_trip)
  then have "char_of (16 * hex_value (hex_digit (?n div 16)) + hex_value (hex_digit (?n mod 16))) = c"
    by simp
  with False show ?thesis by (simp add: segment_byte_def Let_def)
qed

lemma read_path_segment: "read_segment (path_segment i) = i"
  by (induction i) (simp_all add: path_segment_def read_segment_byte)

lemma path_segment_inj [simp]: "path_segment i = path_segment j \<longleftrightarrow> i = j"
  by (metis read_path_segment)

lemma snapshot_name_inj [simp]: "snapshot_name i = snapshot_name j \<longleftrightarrow> i = j"
  by (simp add: snapshot_name_def)

section \<open>Segments are single plain components\<close>

definition safe_char :: "char \<Rightarrow> bool" where
  "safe_char c \<longleftrightarrow> plain_byte c \<or> c = CHR ''~''"

lemma hex_digit_safe: "n < 16 \<Longrightarrow> safe_char (hex_digit n)"
  by (simp add: safe_char_def plain_byte_def hex_digit_def Let_def)

lemma segment_safe: "list_all safe_char (path_segment i)"
proof (induction i)
  case (Cons c i)
  have "list_all safe_char (segment_byte c)"
    using of_char_div [of c] by (auto simp: segment_byte_def Let_def intro!: hex_digit_safe)
      (simp_all add: safe_char_def)
  with Cons show ?case by (simp add: path_segment_def)
qed (simp add: path_segment_def)

lemma safe_char_not: "safe_char c \<Longrightarrow> c \<noteq> CHR ''/'' \<and> c \<noteq> CHR ''.''"
  by (auto simp: safe_char_def plain_byte_def)

lemma split_slash_nonempty: "split_slash s \<noteq> []"
  by (cases s) (auto split: list.splits)

lemma split_slash_append:
  "CHR ''/'' \<notin> set p \<Longrightarrow> split_slash (p @ CHR ''/'' # s) = p # split_slash s"
  by (induction p) auto

lemma split_slash_last: "CHR ''/'' \<notin> set p \<Longrightarrow> split_slash p = [p]"
  by (induction p) auto

lemma segment_no_slash: "CHR ''/'' \<notin> set (path_segment i)"
  using segment_safe [of i] safe_char_not by (auto simp: list_all_iff)

lemma segment_no_dot: "CHR ''.'' \<notin> set (path_segment i)"
  using segment_safe [of i] safe_char_not by (auto simp: list_all_iff)

lemma snapshot_path_parts:
  "split_slash (relative_snapshot_path i rev_id) =
     [''native_case_spaces'', path_segment i, ''snapshots'', snapshot_name rev_id]"
proof -
  have "relative_snapshot_path i rev_id = ''native_case_spaces'' @ CHR ''/'' # (path_segment i @ CHR ''/'' #
      (''snapshots'' @ CHR ''/'' # snapshot_name rev_id))"
    by (simp add: relative_snapshot_path_def native_directory_def)
  moreover have "CHR ''/'' \<notin> set (snapshot_name rev_id)"
    using segment_no_slash by (simp add: snapshot_name_def)
  ultimately show ?thesis
    using segment_no_slash [of i]
    by (simp only: split_slash_append split_slash_last) (simp add: split_slash_append split_slash_last)
qed

lemma resolve_snapshot_path_ok [simp]:
  "require_relative_store_path (relative_snapshot_path i rev_id) = Ok ()"
proof -
  have seg: "path_segment j \<noteq> ''..''" "path_segment j \<noteq> ''.''" for j
    using segment_no_dot [of j] by auto
  have "snapshot_name rev_id \<noteq> ''..''" "snapshot_name rev_id \<noteq> ''.''" "snapshot_name rev_id \<noteq> []"
    by (auto simp: snapshot_name_def dest: arg_cong [where f = length])
  with seg [of i] have "components (relative_snapshot_path i rev_id) =
      Normal ''native_case_spaces'' # (if path_segment i = [] then [] else [Normal (path_segment i)]) @
      [Normal ''snapshots'', Normal (snapshot_name rev_id)]"
    by (simp add: components_def snapshot_path_parts plain_components_def)
  moreover have "\<not> blank (relative_snapshot_path i rev_id)"
    by (simp add: blank_def relative_snapshot_path_def native_directory_def is_white_def)
  ultimately show ?thesis by (simp add: require_relative_store_path_def)
qed

section \<open>Property\<close>

text \<open>
  Every id has its own file and stays in its place: the path of a snapshot passes the
  check that keeps paths inside the store for every case space id and every revision id, whatever
  bytes they contain (slashes and dots included), and different pairs of ids give different paths.
\<close>

theorem snapshot_paths_confined:
  "require_relative_store_path (relative_snapshot_path i r) = Ok () \<and>
   (relative_snapshot_path i r = relative_snapshot_path i' r' \<longleftrightarrow> i = i' \<and> r = r')"
proof -
  have "i = i' \<and> r = r'" if "relative_snapshot_path i r = relative_snapshot_path i' r'"
    using arg_cong [OF that, of split_slash] unfolding snapshot_path_parts by simp
  then show ?thesis unfolding resolve_snapshot_path_ok by blast
qed

end
