(* ===== verification/Store_Log.thy ===== *)
theory Store_Log
  imports Native_Review Store_Paths
begin

text \<open>
  The morphism log of the native store (\<open>src/native_store.rs\<close>, \<open>src/native_hash.rs\<close>): contracts of entries
  and spaces, the hash chain and the head, the fold that materializes a case space from its log,
  and the checks a snapshot must pass. Files hold decoded values: \<open>serde\<close> and the failures of the file
  system are outside the model, except a file that is absent or already there.
\<close>

section \<open>Environment and errors\<close>

record genesis_materialization =
  gm_space_id :: id
  gm_projections :: "projection list"
  gm_close_policy_id :: "id option"
  gm_metadata :: metadata
  gm_revision_metadata :: metadata

text \<open>
  \<open>entry_hash\<close> is the digest of the canonical JSON of an entry, \<open>space_digest\<close> that of a case space;
  \<open>genesis_of\<close> and \<open>gate_of\<close> are the decoders of the two metadata values the store reads.
\<close>

record store_env =
  eval_env :: env
  entry_hash :: "morphism_log_entry \<Rightarrow> string"
  space_digest :: "case_space \<Rightarrow> string"
  genesis_of :: "json \<Rightarrow> (string, genesis_materialization) result"
  gate_of :: "json \<Rightarrow> (string, operation_gate) result"

text \<open>One constructor per message, with the values it interpolates.\<close>

datatype (plugins only: code) mismatch =
    EmptyLog | EmptyMaterializedLog | BelongsToOther id id id | WrongSequence id nat nat
  | FirstHasSource | SourceMismatch id "id option" "id option" | ImportNotSingle | FirstSequence nat
  | GenesisHasPreviousHash id | MissingPreviousHash id string id | WrongPreviousHash id string string id
  | RevisionCaseSpace id id | LatestCaseSpace id id | LatestRevision id id | LatestChecksum string string
  | CannotFold id id morphism_apply_error | FoldChecksum id id string string
  | ReplayedChecksum id id string string | SnapshotDisagrees id id | SnapshotCannotAgree id
  | HeadMissing | HeadStale id id | HeadNotBeforeTail id | HeadDisagrees id | HeadAppeared
  | SpaceNotOfEntry id id | RevisionNotOfEntry id id | ChecksumNotOfEntry string string
  | SnapshotChecksum string string string | EmbeddedLength nat nat | EmbeddedEntryId nat id id
  | EmbeddedHash id string string | GenesisDoesNotReconstruct id id | EntryChecksum id string string
  | CandidateSnapshotDisagrees id | FoldDisagreesWithReplay | HistoryEndedWith id id
  | PathRefused path_error

datatype (plugins only: code) invalid_reason =
    NotAnAnchor | AnchorReserved | ApplyFailed morphism_apply_error | UnknownReference id
  | EntryMorphismId id id | EntrySourceRevision | EntryTargetRevision | EntryCaseSpace id id
  | SequenceMustBe nat | TargetRevisionExists id | DuplicateLogEntry id | DuplicateMorphism id
  | SnapshotExists id | MissingGate id | MalformedGate id string | EmptyGateOperation id
  | GateActorMismatch id id id | GateRefused id gate_error | MalformedPayload string

datatype store_error =
    UnsupportedSchema string string
  | UnsupportedVersion nat nat
  | MissingCase id
  | ExistingCase string
  | FileExists string
  | FileNotFound string
  | ReplayMismatch mismatch
  | InvalidMorphismEntry invalid_reason
  | NotEvaluable "violation list"
  | StaleSourceRevision "id option" id

fun error_code :: "store_error \<Rightarrow> string" where
  "error_code (FileExists _) = ''store_io''"
| "error_code (FileNotFound _) = ''store_io''"
| "error_code (UnsupportedSchema _ _) = ''unsupported_schema''"
| "error_code (UnsupportedVersion _ _) = ''unsupported_schema''"
| "error_code (MissingCase _) = ''missing_case_space''"
| "error_code (ExistingCase _) = ''existing_case_space''"
| "error_code (ReplayMismatch _) = ''store_integrity''"
| "error_code (InvalidMorphismEntry _) = ''store_integrity''"
| "error_code (NotEvaluable _) = ''store_integrity''"
| "error_code (StaleSourceRevision _ _) = ''stale_revision''"

type_synonym 'a store_result = "(store_error, 'a) result"

abbreviation mismatch_unless :: "bool \<Rightarrow> mismatch \<Rightarrow> unit store_result" where
  "mismatch_unless ok m \<equiv> ensure ok (ReplayMismatch m)"

abbreviation invalid_unless :: "bool \<Rightarrow> invalid_reason \<Rightarrow> unit store_result" where
  "invalid_unless ok r \<equiv> ensure ok (InvalidMorphismEntry r)"

section \<open>Checksums\<close>

text \<open>The checksum is taken with its own field and the checksums of the log entries blanked.\<close>

definition checksum_view :: "case_space \<Rightarrow> case_space" where
  "checksum_view cs =
     cs\<lparr>cs_revision := (cs_revision cs)\<lparr>rev_checksum := ''''\<rparr>,
        morphism_log := map (\<lambda>e. e\<lparr>replay_checksum := ''''\<rparr>) (morphism_log cs)\<rparr>"

definition case_space_checksum :: "store_env \<Rightarrow> case_space \<Rightarrow> string" where
  "case_space_checksum E cs = ''sha256:'' @ space_digest E (checksum_view cs)"

section \<open>Contracts\<close>

definition require_case_space_contract :: "case_space \<Rightarrow> unit store_result" where
  "require_case_space_contract cs =
     rbind (ensure (cs_schema cs = native_case_space_schema)
              (UnsupportedSchema (cs_schema cs) native_case_space_schema)) (\<lambda>_.
     ensure (cs_schema_version cs = native_case_space_schema_version)
       (UnsupportedVersion (cs_schema_version cs) native_case_space_schema_version))"

definition require_log_entry_contract :: "morphism_log_entry \<Rightarrow> unit store_result" where
  "require_log_entry_contract entry =
     rbind (ensure (entry_schema entry = native_morphism_log_entry_schema)
              (UnsupportedSchema (entry_schema entry) native_morphism_log_entry_schema)) (\<lambda>_.
     ensure (entry_schema_version entry = native_case_space_schema_version)
       (UnsupportedVersion (entry_schema_version entry) native_case_space_schema_version))"

definition require_entry_morphism_match :: "morphism_log_entry \<Rightarrow> unit store_result" where
  "require_entry_morphism_match entry =
     (let m = entry_morphism entry in
      rbind (invalid_unless (entry_morphism_id entry = mor_id m)
               (EntryMorphismId (entry_morphism_id entry) (mor_id m))) (\<lambda>_.
      rbind (invalid_unless (entry_source_revision_id entry = mor_source_revision_id m)
               EntrySourceRevision) (\<lambda>_.
      invalid_unless (entry_target_revision_id entry = mor_target_revision_id m)
        EntryTargetRevision)))"

definition require_previous_entry_hash ::
  "store_env \<Rightarrow> morphism_log_entry \<Rightarrow> morphism_log_entry option \<Rightarrow> unit store_result" where
  "require_previous_entry_hash E entry previous =
     (case previous of
        None \<Rightarrow> mismatch_unless (previous_entry_hash entry = None)
                  (GenesisHasPreviousHash (entry_id entry))
      | Some prev \<Rightarrow>
          (let expected = entry_hash E prev in
           case previous_entry_hash entry of
             None \<Rightarrow> Err (ReplayMismatch
                       (MissingPreviousHash (entry_id entry) expected (entry_id prev)))
           | Some actual \<Rightarrow> mismatch_unless (actual = expected)
                       (WrongPreviousHash (entry_id entry) actual expected (entry_id prev))))"

definition latest_entry :: "morphism_log_entry list \<Rightarrow> morphism_log_entry store_result" where
  "latest_entry entries = (if entries = [] then Err (ReplayMismatch EmptyLog) else Ok (last entries))"

definition revision_from_entry :: "id \<Rightarrow> morphism_log_entry \<Rightarrow> revision" where
  "revision_from_entry i entry =
     \<lparr>revision_id = entry_target_revision_id entry, rev_case_space_id = i,
      applied_entry_ids = [entry_id entry], applied_morphism_ids = [entry_morphism_id entry],
      rev_checksum = replay_checksum entry, parent_revision_id = entry_source_revision_id entry,
      rev_created_at = entry_recorded_at entry, rev_source_ids = entry_source_ids entry,
      rev_metadata = fmempty\<rparr>"

text \<open>The state of the loop: seen entry ids, seen morphism ids, the previous entry.\<close>

fun validate_log_loop ::
  "store_env \<Rightarrow> id option \<Rightarrow> nat \<Rightarrow> morphism_log_entry option \<Rightarrow> id set \<Rightarrow> id set
   \<Rightarrow> morphism_log_entry list \<Rightarrow> unit store_result" where
  "validate_log_loop E expected index previous seen_entries seen_morphisms [] = Ok ()"
| "validate_log_loop E expected index previous seen_entries seen_morphisms (entry # rest) =
     rbind (require_log_entry_contract entry) (\<lambda>_.
     rbind (require_entry_morphism_match entry) (\<lambda>_.
     rbind (require_previous_entry_hash E entry previous) (\<lambda>_.
     rbind (case expected of
              Some expected_id \<Rightarrow> mismatch_unless (entry_case_space_id entry = expected_id)
                (BelongsToOther (entry_id entry) (entry_case_space_id entry) expected_id)
            | None \<Rightarrow> Ok ()) (\<lambda>_.
     rbind (mismatch_unless (entry_sequence entry = index + 1)
              (WrongSequence (entry_id entry) (entry_sequence entry) (index + 1))) (\<lambda>_.
     rbind (if index = 0
            then mismatch_unless (entry_source_revision_id entry = None) FirstHasSource
            else mismatch_unless
                   (entry_source_revision_id entry = map_option entry_target_revision_id previous)
                   (SourceMismatch (entry_id entry) (entry_source_revision_id entry)
                      (map_option entry_target_revision_id previous))) (\<lambda>_.
     rbind (invalid_unless (entry_id entry \<notin> seen_entries) (DuplicateLogEntry (entry_id entry))) (\<lambda>_.
     rbind (invalid_unless (entry_morphism_id entry \<notin> seen_morphisms)
              (DuplicateMorphism (entry_morphism_id entry))) (\<lambda>_.
     validate_log_loop E expected (Suc index) (Some entry) (insert (entry_id entry) seen_entries)
       (insert (entry_morphism_id entry) seen_morphisms) rest))))))))"

definition validate_log_entries ::
  "store_env \<Rightarrow> id option \<Rightarrow> morphism_log_entry list \<Rightarrow> unit store_result" where
  "validate_log_entries E expected entries =
     rbind (mismatch_unless (entries \<noteq> []) EmptyLog) (\<lambda>_.
     validate_log_loop E expected 0 None {} {} entries)"

section \<open>The head\<close>

record morphism_log_head =
  head_target_revision_id :: id
  head_entry_hash :: string
  head_replay_checksum :: string

definition morphism_log_head_of :: "store_env \<Rightarrow> morphism_log_entry \<Rightarrow> morphism_log_head" where
  "morphism_log_head_of E entry =
     \<lparr>head_target_revision_id = entry_target_revision_id entry, head_entry_hash = entry_hash E entry,
      head_replay_checksum = replay_checksum entry\<rparr>"

definition require_log_head ::
  "store_env \<Rightarrow> morphism_log_head option \<Rightarrow> morphism_log_entry \<Rightarrow> unit store_result" where
  "require_log_head E head_file latest =
     rbind (ok_or head_file (ReplayMismatch HeadMissing)) (\<lambda>head.
     mismatch_unless
       (\<not> (head_target_revision_id head \<noteq> entry_target_revision_id latest
           \<or> head_entry_hash head \<noteq> entry_hash E latest
           \<or> head_replay_checksum head \<noteq> replay_checksum latest))
       (HeadStale (entry_id latest) (entry_target_revision_id latest)))"

text \<open>\<open>Iterator::position\<close>.\<close>

fun position :: "('a \<Rightarrow> bool) \<Rightarrow> 'a list \<Rightarrow> nat option" where
  "position P [] = None"
| "position P (x # xs) = (if P x then Some 0 else map_option Suc (position P xs))"

definition require_head_lags_log ::
  "store_env \<Rightarrow> morphism_log_head option \<Rightarrow> morphism_log_entry list \<Rightarrow> unit store_result" where
  "require_head_lags_log E head_file entries =
     rbind (ok_or head_file (ReplayMismatch HeadMissing)) (\<lambda>head.
     (let stale = ReplayMismatch (HeadNotBeforeTail (head_target_revision_id head)) in
      rbind (ok_or (position (\<lambda>entry. entry_target_revision_id entry = head_target_revision_id head)
                      entries) stale) (\<lambda>p.
      rbind (ensure (p + 2 = length entries) stale) (\<lambda>_.
      (let entry = entries ! p in
       mismatch_unless
         (\<not> (head_entry_hash head \<noteq> entry_hash E entry
             \<or> head_replay_checksum head \<noteq> replay_checksum entry))
         (HeadDisagrees (head_target_revision_id head)))))))"

section \<open>References\<close>

definition known_ids :: "case_space \<Rightarrow> id set" where
  "known_ids cs =
     set (map cell_id (case_cells cs)) \<union> set (map rel_id (case_relations cs))
     \<union> set (map projection_id (projections cs))
     \<union> set (concat (map (\<lambda>entry. [entry_id entry, entry_morphism_id entry]) (morphism_log cs)))
     \<union> {revision_id (cs_revision cs)}"

definition require_referenced_ids :: "id set \<Rightarrow> id list \<Rightarrow> unit store_result" where
  "require_referenced_ids ids references =
     each_res (\<lambda>i. invalid_unless (i \<in> ids) (UnknownReference i)) references"

definition require_referenced_ids_if_any :: "id set \<Rightarrow> id list \<Rightarrow> unit store_result" where
  "require_referenced_ids_if_any ids references =
     (if references = [] then Ok () else require_referenced_ids ids references)"

definition require_referenced_ids_exist :: "case_space \<Rightarrow> id list \<Rightarrow> unit store_result" where
  "require_referenced_ids_exist cs references = require_referenced_ids (known_ids cs) references"

definition require_ids_exist :: "case_space \<Rightarrow> unit store_result" where
  "require_ids_exist cs =
     (let ids = known_ids cs in
      rbind (each_res (\<lambda>relation.
          rbind (require_referenced_ids ids [rel_from_id relation, rel_to_id relation]) (\<lambda>_.
          require_referenced_ids ids (rel_evidence_ids relation))) (case_relations cs)) (\<lambda>_.
      each_res (\<lambda>p.
          rbind (require_referenced_ids ids (represented_cell_ids p)) (\<lambda>_.
          rbind (require_referenced_ids ids (represented_relation_ids p)) (\<lambda>_.
          rbind (require_referenced_ids ids (omitted_cell_ids p)) (\<lambda>_.
          require_referenced_ids ids (omitted_relation_ids p))))) (projections cs)))"

definition validate_materialized_log :: "case_space \<Rightarrow> unit store_result" where
  "validate_materialized_log cs =
     rbind (mismatch_unless (morphism_log cs \<noteq> []) EmptyMaterializedLog) (\<lambda>_.
     (let latest = last (morphism_log cs); rev = cs_revision cs in
      rbind (mismatch_unless (rev_case_space_id rev = case_space_id cs)
               (RevisionCaseSpace (rev_case_space_id rev) (case_space_id cs))) (\<lambda>_.
      rbind (mismatch_unless (entry_case_space_id latest = case_space_id cs)
               (LatestCaseSpace (entry_case_space_id latest) (case_space_id cs))) (\<lambda>_.
      rbind (mismatch_unless (entry_target_revision_id latest = revision_id rev)
               (LatestRevision (entry_target_revision_id latest) (revision_id rev))) (\<lambda>_.
      rbind (mismatch_unless (replay_checksum latest = rev_checksum rev)
               (LatestChecksum (replay_checksum latest) (rev_checksum rev))) (\<lambda>_.
      require_ids_exist cs))))))"

section \<open>Folding the log\<close>

definition genesis_case_space_materialization ::
  "store_env \<Rightarrow> case_morphism \<Rightarrow> (morphism_apply_error, genesis_materialization) result" where
  "genesis_case_space_materialization E m =
     (case fmlookup (mor_metadata m) ''genesis_case_space'' of
        None \<Rightarrow> Err (GenesisMissing (mor_id m))
      | Some v \<Rightarrow> map_err (GenesisMalformed (mor_id m)) (genesis_of E v))"

definition empty_case_space_from_genesis ::
  "store_env \<Rightarrow> morphism_log_entry \<Rightarrow> (case_space \<times> metadata) store_result" where
  "empty_case_space_from_genesis E genesis =
     rbind (map_err (\<lambda>e. InvalidMorphismEntry (ApplyFailed e))
              (genesis_case_space_materialization E (entry_morphism genesis))) (\<lambda>gm.
     Ok (\<lparr>cs_schema = native_case_space_schema, cs_schema_version = native_case_space_schema_version,
          case_space_id = entry_case_space_id genesis, space_id = gm_space_id gm, case_cells = [],
          case_relations = [], morphism_log = [], projections = gm_projections gm,
          cs_revision = revision_from_entry (entry_case_space_id genesis) genesis,
          close_policy_id = gm_close_policy_id gm, cs_metadata = gm_metadata gm\<rparr>,
         gm_revision_metadata gm))"

record replay_validation_state =
  rv_known_ids :: "id set"
  application_index :: morphism_application_index

definition replay_validation_new :: "case_space \<Rightarrow> replay_validation_state" where
  "replay_validation_new cs = \<lparr>rv_known_ids = known_ids cs, application_index = index_new cs\<rparr>"

definition update_materialized_ids ::
  "id set \<Rightarrow> case_space \<Rightarrow> morphism_log_entry \<Rightarrow> id set" where
  "update_materialized_ids known cs entry =
     fold (\<lambda>retired_id known.
         if list_ex (\<lambda>cell. cell_id cell = retired_id) (case_cells cs)
            \<or> list_ex (\<lambda>relation. rel_id relation = retired_id) (case_relations cs)
         then known else known - {retired_id})
       (mor_retired_ids (entry_morphism entry)) (known \<union> set (mor_added_ids (entry_morphism entry)))"

definition require_entry_references ::
  "store_env \<Rightarrow> id set \<Rightarrow> case_space \<Rightarrow> morphism_log_entry \<Rightarrow> unit store_result" where
  "require_entry_references E known cs entry =
     (let m = entry_morphism entry in
      rbind (require_referenced_ids_if_any known (mor_preserved_ids m)) (\<lambda>_.
      rbind (require_referenced_ids_if_any known (mor_evidence_ids m)) (\<lambda>_.
      rbind (case fmlookup (mor_metadata m) ''payload'' of
               Some v \<Rightarrow> map_err (\<lambda>e. InvalidMorphismEntry (MalformedPayload e))
                          (env_payload (eval_env E) v)
             | None \<Rightarrow> Ok default_payload) (\<lambda>payload.
      rbind (each_res (\<lambda>relation.
          rbind (require_referenced_ids known [rel_from_id relation, rel_to_id relation]) (\<lambda>_.
          require_referenced_ids_if_any known (rel_evidence_ids relation)))
        (added_relations payload @ updated_relations payload)) (\<lambda>_.
      if entry_sequence entry = 1 then
        each_res (\<lambda>p.
          rbind (require_referenced_ids_if_any known (represented_cell_ids p)) (\<lambda>_.
          rbind (require_referenced_ids_if_any known (represented_relation_ids p)) (\<lambda>_.
          rbind (require_referenced_ids_if_any known (omitted_cell_ids p)) (\<lambda>_.
          require_referenced_ids_if_any known (omitted_relation_ids p))))) (projections cs)
      else Ok ())))))"

definition push_entry :: "case_space \<Rightarrow> morphism_log_entry \<Rightarrow> metadata \<Rightarrow> case_space" where
  "push_entry cs entry md =
     cs\<lparr>morphism_log := morphism_log cs @ [entry],
        cs_revision := (revision_from_entry (case_space_id cs) entry)\<lparr>rev_metadata := md\<rparr>\<rparr>"

definition apply_replayed_entry ::
  "store_env \<Rightarrow> metadata option \<Rightarrow> morphism_log_entry \<Rightarrow> case_space \<Rightarrow> replay_validation_state
   \<Rightarrow> (case_space \<times> replay_validation_state) store_result" where
  "apply_replayed_entry E revision_metadata entry cs v =
     (case apply_morphism_indexed (env_payload (eval_env E)) (entry_morphism entry)
             (cs, application_index v) of
        (_, Inl e) \<Rightarrow> Err (ReplayMismatch (CannotFold (entry_morphism_id entry)
                            (entry_target_revision_id entry) e))
      | ((cs1, index), Inr _) \<Rightarrow>
          (let known = update_materialized_ids (rv_known_ids v) cs1 entry in
           rbind (require_entry_references E known cs1 entry) (\<lambda>_.
           Ok (push_entry cs1 entry (case revision_metadata of Some md \<Rightarrow> md | None \<Rightarrow> fmempty),
               \<lparr>rv_known_ids =
                  (known - {revision_id (cs_revision cs1)})
                  \<union> {entry_id entry, entry_morphism_id entry, entry_target_revision_id entry},
                application_index = index\<rparr>))))"

record folded_revision =
  fr_entry_id :: id
  fr_revision_id :: id
  fr_replay_checksum :: string
  computed_checksum :: string

definition folded_revision_of :: "store_env \<Rightarrow> morphism_log_entry \<Rightarrow> case_space \<Rightarrow> folded_revision" where
  "folded_revision_of E entry cs =
     \<lparr>fr_entry_id = entry_id entry, fr_revision_id = entry_target_revision_id entry,
      fr_replay_checksum = replay_checksum entry, computed_checksum = case_space_checksum E cs\<rparr>"

definition require_fold_checksum :: "folded_revision \<Rightarrow> unit store_result" where
  "require_fold_checksum folded =
     mismatch_unless (computed_checksum folded = fr_replay_checksum folded)
       (FoldChecksum (fr_revision_id folded) (fr_entry_id folded) (computed_checksum folded)
          (fr_replay_checksum folded))"

text \<open>
  The visitor of the fold is a closure with a state of its own (\<open>FnMut\<close>): it is threaded, and kept
  also when a step fails.
\<close>

type_synonym 'a visitor =
  "nat \<Rightarrow> morphism_log_entry \<Rightarrow> folded_revision \<Rightarrow> case_space \<Rightarrow> 'a \<Rightarrow> 'a \<times> unit store_result"

fun fold_log_loop ::
  "store_env \<Rightarrow> metadata \<Rightarrow> 'a visitor \<Rightarrow> nat \<Rightarrow> case_space \<Rightarrow> replay_validation_state \<Rightarrow> 'a
   \<Rightarrow> morphism_log_entry list \<Rightarrow> 'a \<times> case_space store_result" where
  "fold_log_loop E md visit index cs v acc [] = (acc, Ok cs)"
| "fold_log_loop E md visit index cs v acc (entry # rest) =
     (case apply_replayed_entry E (if index = 0 then Some md else None) entry cs v of
        Inl e \<Rightarrow> (acc, Err e)
      | Inr (cs', v') \<Rightarrow>
          (let folded = folded_revision_of E entry cs' in
           case visit index entry folded cs' acc of
             (acc', Inl e) \<Rightarrow> (acc', Err e)
           | (acc', Inr _) \<Rightarrow>
               (case require_fold_checksum folded of
                  Inl e \<Rightarrow> (acc', Err e)
                | Inr _ \<Rightarrow> fold_log_loop E md visit (Suc index) cs' v' acc' rest)))"

definition fold_morphism_log ::
  "store_env \<Rightarrow> morphism_log_entry list \<Rightarrow> 'a visitor \<Rightarrow> 'a \<Rightarrow> 'a \<times> case_space store_result" where
  "fold_morphism_log E entries visit acc =
     (case entries of
        [] \<Rightarrow> (acc, Err (ReplayMismatch EmptyLog))
      | genesis # _ \<Rightarrow>
          (case empty_case_space_from_genesis E genesis of
             Inl e \<Rightarrow> (acc, Err e)
           | Inr (cs, md) \<Rightarrow>
               fold_log_loop E md visit 0 cs (replay_validation_new cs) acc entries))"

text \<open>The visitor that does nothing, and the fold with it.\<close>

definition no_visit :: "unit visitor" where
  "no_visit index entry folded cs acc = (acc, Ok ())"

definition materialize :: "store_env \<Rightarrow> morphism_log_entry list \<Rightarrow> case_space store_result" where
  "materialize E entries = snd (fold_morphism_log E entries no_visit ())"

section \<open>Snapshots\<close>

definition require_computed_snapshot_checksum ::
  "case_space \<Rightarrow> morphism_log_entry \<Rightarrow> string \<Rightarrow> unit store_result" where
  "require_computed_snapshot_checksum cs authoritative computed =
     mismatch_unless
       (\<not> (computed \<noteq> rev_checksum (cs_revision cs) \<or> computed \<noteq> replay_checksum authoritative))
       (SnapshotChecksum computed (rev_checksum (cs_revision cs)) (replay_checksum authoritative))"

definition require_snapshot_checksum ::
  "store_env \<Rightarrow> case_space \<Rightarrow> morphism_log_entry \<Rightarrow> unit store_result" where
  "require_snapshot_checksum E cs authoritative =
     require_computed_snapshot_checksum cs authoritative (case_space_checksum E cs)"

definition require_embedded_log_matches_prefix ::
  "store_env \<Rightarrow> morphism_log_entry list \<Rightarrow> morphism_log_entry list \<Rightarrow> unit store_result" where
  "require_embedded_log_matches_prefix E embedded authoritative =
     rbind (mismatch_unless (length embedded = length authoritative)
              (EmbeddedLength (length embedded) (length authoritative))) (\<lambda>_.
     each_res (\<lambda>(index, e, a).
         rbind (mismatch_unless (entry_id e = entry_id a)
                  (EmbeddedEntryId (index + 1) (entry_id e) (entry_id a))) (\<lambda>_.
         mismatch_unless (entry_hash E e = entry_hash E a)
           (EmbeddedHash (entry_id e) (entry_hash E e) (entry_hash E a))))
       (List.enumerate 0 (zip embedded authoritative)))"

definition require_case_space_matches_entry ::
  "case_space \<Rightarrow> morphism_log_entry \<Rightarrow> unit store_result" where
  "require_case_space_matches_entry cs entry =
     rbind (require_case_space_contract cs) (\<lambda>_.
     rbind (mismatch_unless (case_space_id cs = entry_case_space_id entry)
              (SpaceNotOfEntry (case_space_id cs) (entry_case_space_id entry))) (\<lambda>_.
     rbind (mismatch_unless (revision_id (cs_revision cs) = entry_target_revision_id entry)
              (RevisionNotOfEntry (revision_id (cs_revision cs)) (entry_target_revision_id entry))) (\<lambda>_.
     mismatch_unless (rev_checksum (cs_revision cs) = replay_checksum entry)
       (ChecksumNotOfEntry (rev_checksum (cs_revision cs)) (replay_checksum entry)))))"

text \<open>\<open>snapshot\<close> is the decoded file.\<close>

definition read_verified_snapshot ::
  "store_env \<Rightarrow> case_space \<Rightarrow> morphism_log_entry \<Rightarrow> morphism_log_entry list
   \<Rightarrow> case_space store_result" where
  "read_verified_snapshot E snapshot authoritative authoritative_prefix =
     rbind (require_case_space_contract snapshot) (\<lambda>_.
     rbind (require_embedded_log_matches_prefix E (morphism_log snapshot) authoritative_prefix) (\<lambda>_.
     rbind (require_computed_snapshot_checksum snapshot authoritative
              (case_space_checksum E snapshot)) (\<lambda>_.
     rbind (require_case_space_matches_entry snapshot authoritative) (\<lambda>_.
     Ok snapshot))))"

definition require_snapshot_agrees_with_fold ::
  "case_space \<Rightarrow> folded_revision \<Rightarrow> case_space \<Rightarrow> unit store_result" where
  "require_snapshot_agrees_with_fold snapshot folded cs =
     mismatch_unless (snapshot = cs) (SnapshotDisagrees (fr_revision_id folded) (fr_entry_id folded))"

end
