(* ===== verification/Native_Store.thy ===== *)
theory Native_Store
  imports Store_Log
begin

text \<open>
  The operations of the native store (\<open>src/native_store.rs\<close>): import, append, inspection, replay,
  validation and rebuild. The store maps directory names to case directories; a case directory
  holds the log, the head and the snapshots. Each mutating operation holds the lock of its
  directory from start to end, so its file accesses are one transition here; the
  order of its writes is kept as a list, and the lock itself is in \<open>Store_Lock\<close>. Schema constants of
  the returned reports are left out.
\<close>

section \<open>Case directories\<close>

record case_dir =
  dir_log :: "morphism_log_entry list option"
  dir_head :: "morphism_log_head option"
  dir_snapshots :: "(string, case_space) fmap"

type_synonym native_store = "(string, case_dir) fmap"

definition snapshot_interval :: nat where
  "snapshot_interval = 32"

definition snapshot_required :: "nat \<Rightarrow> bool" where
  "snapshot_required n \<longleftrightarrow> n = 1 \<or> n mod snapshot_interval = 0"

definition is_execution_trace_anchor :: "case_morphism_type \<Rightarrow> bool" where
  "is_execution_trace_anchor t \<longleftrightarrow> t = MtCustom ''execution_trace_anchor''"

definition resolve_snapshot_path :: "id \<Rightarrow> id \<Rightarrow> string store_result" where
  "resolve_snapshot_path i rev_id =
     rbind (map_err (\<lambda>e. ReplayMismatch (PathRefused e))
              (require_relative_store_path (relative_snapshot_path i rev_id))) (\<lambda>_.
     Ok (snapshot_name rev_id))"

lemma resolve_snapshot_path [simp]: "resolve_snapshot_path i rev_id = Ok (snapshot_name rev_id)"
  by (simp add: resolve_snapshot_path_def map_err_def)

definition snapshot_at :: "case_dir \<Rightarrow> string \<Rightarrow> case_space option" where
  "snapshot_at dir name = fmlookup (dir_snapshots dir) name"

section \<open>Reading\<close>

definition read_history_entries ::
  "store_env \<Rightarrow> case_dir \<Rightarrow> id \<Rightarrow> morphism_log_entry list store_result" where
  "read_history_entries E dir i =
     (case dir_log dir of
        None \<Rightarrow> Err (MissingCase i)
      | Some entries \<Rightarrow> rbind (validate_log_entries E (Some i) entries) (\<lambda>_. Ok entries))"

definition history_entries ::
  "store_env \<Rightarrow> case_dir \<Rightarrow> id \<Rightarrow> morphism_log_entry list store_result" where
  "history_entries E dir i =
     rbind (read_history_entries E dir i) (\<lambda>entries.
     rbind (latest_entry entries) (\<lambda>latest.
     rbind (require_log_head E (dir_head dir) latest) (\<lambda>_.
     Ok entries)))"

text \<open>The loop over the entries from the newest to the oldest.\<close>

fun nearest_snapshot ::
  "store_env \<Rightarrow> case_dir \<Rightarrow> id \<Rightarrow> morphism_log_entry list \<Rightarrow> (nat \<times> morphism_log_entry) list
   \<Rightarrow> (case_space \<times> nat \<times> string) option store_result" where
  "nearest_snapshot E dir i entries [] = Ok None"
| "nearest_snapshot E dir i entries ((index, entry) # rest) =
     rbind (resolve_snapshot_path i (entry_target_revision_id entry)) (\<lambda>path.
     case snapshot_at dir path of
       Some snapshot \<Rightarrow>
         rbind (read_verified_snapshot E snapshot entry (take (Suc index) entries)) (\<lambda>cs.
         rbind (validate_materialized_log cs) (\<lambda>_.
         Ok (Some (cs, Suc index, relative_snapshot_path i (entry_target_revision_id entry)))))
     | None \<Rightarrow> nearest_snapshot E dir i entries rest)"

fun replay_entries ::
  "store_env \<Rightarrow> metadata option \<Rightarrow> case_space \<Rightarrow> replay_validation_state
   \<Rightarrow> (nat \<times> morphism_log_entry) list \<Rightarrow> case_space store_result" where
  "replay_entries E genesis_md cs v [] = Ok cs"
| "replay_entries E genesis_md cs v ((index, entry) # rest) =
     rbind (apply_replayed_entry E (if index = 0 then genesis_md else None) entry cs v) (\<lambda>(cs', v').
     replay_entries E genesis_md cs' v' rest)"

definition require_replayed_checksum ::
  "store_env \<Rightarrow> case_space \<Rightarrow> morphism_log_entry \<Rightarrow> unit store_result" where
  "require_replayed_checksum E cs target =
     mismatch_unless (case_space_checksum E cs = replay_checksum target)
       (ReplayedChecksum (entry_target_revision_id target) (entry_id target)
          (case_space_checksum E cs) (replay_checksum target))"

definition replay_case_space ::
  "store_env \<Rightarrow> case_dir \<Rightarrow> id \<Rightarrow> morphism_log_entry list
   \<Rightarrow> (case_space \<times> string option) store_result" where
  "replay_case_space E dir i entries =
     rbind (latest_entry entries) (\<lambda>latest.
     rbind (nearest_snapshot E dir i entries (rev (List.enumerate 0 entries))) (\<lambda>nearest.
     rbind (case nearest of
              Some (cs, first_unapplied, path) \<Rightarrow> Ok (cs, first_unapplied, Some path, None)
            | None \<Rightarrow> rbind (empty_case_space_from_genesis E (hd entries)) (\<lambda>(cs, md).
                Ok (cs, 0, None, Some md))) (\<lambda>(cs, first_unapplied, path, genesis_md).
     rbind (replay_entries E genesis_md cs (replay_validation_new cs)
              (drop first_unapplied (List.enumerate 0 entries))) (\<lambda>cs'.
     rbind (validate_materialized_log cs') (\<lambda>_.
     rbind (if first_unapplied < length entries then require_replayed_checksum E cs' latest
            else Ok ()) (\<lambda>_.
     Ok (cs', path)))))))"

record case_space_replay =
  rp_case_space_id :: id
  rp_space_id :: id
  rp_current_revision_id :: id
  rp_case_space :: case_space
  rp_history :: "morphism_log_entry list"

definition replay_current_case_space ::
  "store_env \<Rightarrow> case_dir \<Rightarrow> id \<Rightarrow> case_space_replay store_result" where
  "replay_current_case_space E dir i =
     rbind (history_entries E dir i) (\<lambda>entries.
     rbind (latest_entry entries) (\<lambda>latest.
     rbind (replay_case_space E dir i entries) (\<lambda>(cs, _).
     Ok \<lparr>rp_case_space_id = entry_case_space_id latest, rp_space_id = space_id cs,
         rp_current_revision_id = entry_target_revision_id latest, rp_case_space = cs,
         rp_history = entries\<rparr>)))"

section \<open>Records\<close>

record native_revision_record =
  rr_revision_id :: id
  rr_parent_revision_id :: "id option"
  rr_sequence :: nat
  rr_entry_id :: id
  rr_morphism_id :: id
  rr_snapshot_path :: "string option"
  rr_source_ids :: "id list"
  rr_replay_checksum :: string

record native_case_space_record =
  nr_case_space_id :: id
  nr_space_id :: id
  nr_current_revision_id :: id
  nr_case_space_directory :: string
  nr_log_path :: string
  nr_nearest_snapshot_path :: "string option"
  nr_revision_count :: nat
  nr_history_entry_count :: nat
  nr_revisions :: "native_revision_record list"

definition revision_record :: "case_dir \<Rightarrow> id \<Rightarrow> morphism_log_entry \<Rightarrow> native_revision_record" where
  "revision_record dir i entry =
     \<lparr>rr_revision_id = entry_target_revision_id entry,
      rr_parent_revision_id = entry_source_revision_id entry, rr_sequence = entry_sequence entry,
      rr_entry_id = entry_id entry, rr_morphism_id = entry_morphism_id entry,
      rr_snapshot_path =
        (case snapshot_at dir (snapshot_name (entry_target_revision_id entry)) of
           Some _ \<Rightarrow> Some (relative_snapshot_path i (entry_target_revision_id entry))
         | None \<Rightarrow> None),
      rr_source_ids = entry_source_ids entry, rr_replay_checksum = replay_checksum entry\<rparr>"

definition native_record_from_materialized ::
  "case_dir \<Rightarrow> id \<Rightarrow> morphism_log_entry list \<Rightarrow> case_space \<Rightarrow> string option
   \<Rightarrow> native_case_space_record store_result" where
  "native_record_from_materialized dir i entries cs nearest =
     rbind (latest_entry entries) (\<lambda>latest.
     rbind (mismatch_unless (entry_case_space_id latest = i)
              (HistoryEndedWith i (entry_case_space_id latest))) (\<lambda>_.
     Ok \<lparr>nr_case_space_id = entry_case_space_id latest, nr_space_id = space_id cs,
         nr_current_revision_id = entry_target_revision_id latest,
         nr_case_space_directory = case_space_directory i, nr_log_path = relative_log_path i,
         nr_nearest_snapshot_path = nearest, nr_revision_count = length entries,
         nr_history_entry_count = length entries,
         nr_revisions = map (revision_record dir i) entries\<rparr>))"

definition native_record ::
  "store_env \<Rightarrow> case_dir \<Rightarrow> id \<Rightarrow> morphism_log_entry list \<Rightarrow> native_case_space_record store_result" where
  "native_record E dir i entries =
     rbind (latest_entry entries) (\<lambda>latest.
     rbind (require_log_head E (dir_head dir) latest) (\<lambda>_.
     rbind (replay_case_space E dir i entries) (\<lambda>(cs, nearest).
     native_record_from_materialized dir i entries cs nearest)))"

definition inspect_case_space ::
  "store_env \<Rightarrow> case_dir \<Rightarrow> id \<Rightarrow> native_case_space_record store_result" where
  "inspect_case_space E dir i =
     rbind (history_entries E dir i) (\<lambda>entries. native_record E dir i entries)"

text \<open>
  \<open>inspect_directory\<close> takes the id from the log it finds; the record is then read through the directory
  of that id. A directory that does not exist holds no file.
\<close>

definition empty_dir :: case_dir where
  "empty_dir = \<lparr>dir_log = None, dir_head = None, dir_snapshots = fmempty\<rparr>"

definition case_dir_of :: "native_store \<Rightarrow> id \<Rightarrow> case_dir" where
  "case_dir_of store i = (case fmlookup store (path_segment i) of Some dir \<Rightarrow> dir | None \<Rightarrow> empty_dir)"

definition inspect_directory ::
  "store_env \<Rightarrow> native_store \<Rightarrow> case_dir \<Rightarrow> native_case_space_record store_result" where
  "inspect_directory E store dir =
     rbind (ok_or (dir_log dir) (FileNotFound ''morphism_log.jsonl'')) (\<lambda>entries.
     rbind (validate_log_entries E None entries) (\<lambda>_.
     rbind (latest_entry entries) (\<lambda>latest.
     native_record E (case_dir_of store (entry_case_space_id latest)) (entry_case_space_id latest)
       entries)))"

definition list_case_spaces ::
  "store_env \<Rightarrow> native_store \<Rightarrow> native_case_space_record list store_result" where
  "list_case_spaces E store =
     rbind (fold_res (\<lambda>records dir.
         rbind (inspect_directory E store dir) (\<lambda>r. Ok (records @ [r]))) [] (btree_values store)) (\<lambda>records.
     Ok (sort_key nr_case_space_id records))"

section \<open>Writing\<close>

text \<open>Durable writes, in the order they are made; \<open>create_new\<close> refuses an existing snapshot file.\<close>

datatype store_write =
    WriteSnapshot string case_space
  | AppendEntry morphism_log_entry
  | WriteHead morphism_log_head

fun perform_write :: "case_dir \<Rightarrow> store_write \<Rightarrow> case_dir" where
  "perform_write dir (WriteSnapshot name cs) =
     dir\<lparr>dir_snapshots := fmupd name cs (dir_snapshots dir)\<rparr>"
| "perform_write dir (AppendEntry entry) =
     dir\<lparr>dir_log := Some ((case dir_log dir of Some entries \<Rightarrow> entries | None \<Rightarrow> []) @ [entry])\<rparr>"
| "perform_write dir (WriteHead head) = dir\<lparr>dir_head := Some head\<rparr>"

definition perform_writes :: "store_write list \<Rightarrow> case_dir \<Rightarrow> case_dir" where
  "perform_writes ws dir = foldl perform_write dir ws"

section \<open>Import\<close>

definition require_importable_materialized_log :: "store_env \<Rightarrow> case_space \<Rightarrow> unit store_result" where
  "require_importable_materialized_log E cs =
     (case morphism_log cs of
        [entry] \<Rightarrow>
          rbind (require_log_entry_contract entry) (\<lambda>_.
          rbind (require_entry_morphism_match entry) (\<lambda>_.
          rbind (require_previous_entry_hash E entry None) (\<lambda>_.
          rbind (mismatch_unless (entry_sequence entry = 1) (FirstSequence (entry_sequence entry))) (\<lambda>_.
          mismatch_unless (entry_source_revision_id entry = None) FirstHasSource))))
      | _ \<Rightarrow> Err (ReplayMismatch ImportNotSingle))"

definition require_importable :: "store_env \<Rightarrow> case_space \<Rightarrow> unit store_result" where
  "require_importable E cs =
     rbind (require_case_space_contract cs) (\<lambda>_.
     rbind (require_importable_materialized_log E cs) (\<lambda>_.
     rbind (validate_materialized_log cs) (\<lambda>_.
     rbind (map_err NotEvaluable (validate_native_case_space (eval_env E) cs)) (\<lambda>_.
     rbind (latest_entry (morphism_log cs)) (\<lambda>latest.
     rbind (require_snapshot_checksum E cs latest) (\<lambda>_.
     rbind (materialize E (morphism_log cs)) (\<lambda>reconstructed.
     mismatch_unless (reconstructed = cs)
       (GenesisDoesNotReconstruct (case_space_id cs) (revision_id (cs_revision cs))))))))))"

definition new_case_writes :: "store_env \<Rightarrow> case_space \<Rightarrow> store_write list" where
  "new_case_writes E cs =
     [WriteSnapshot (snapshot_name (revision_id (cs_revision cs))) cs]
     @ map AppendEntry (morphism_log cs)
     @ [WriteHead (morphism_log_head_of E (last (morphism_log cs)))]"

definition import_case_space ::
  "store_env \<Rightarrow> native_store \<Rightarrow> case_space \<Rightarrow> native_store \<times> native_case_space_record store_result" where
  "import_case_space E store cs =
     (case require_importable E cs of
        Inl e \<Rightarrow> (store, Err e)
      | Inr _ \<Rightarrow>
          (let i = case_space_id cs in
           if fmlookup store (path_segment i) \<noteq> None
           then (store, Err (ExistingCase (case_space_directory i)))
           else (let dir = perform_writes (new_case_writes E cs) empty_dir
                 in (fmupd (path_segment i) dir store, inspect_case_space E dir i))))"

section \<open>Append\<close>

definition require_valid_operation_gate ::
  "store_env \<Rightarrow> case_space \<Rightarrow> morphism_log_entry \<Rightarrow> unit store_result" where
  "require_valid_operation_gate E cs entry =
     (let i = entry_morphism_id entry in
      rbind (ok_or (fmlookup (mor_metadata (entry_morphism entry)) ''operation_gate'')
               (InvalidMorphismEntry (MissingGate i))) (\<lambda>v.
      rbind (map_err (\<lambda>e. InvalidMorphismEntry (MalformedGate i e)) (gate_of E v)) (\<lambda>gate.
      rbind (invalid_unless (\<not> blank (gate_operation gate)) (EmptyGateOperation i)) (\<lambda>_.
      rbind (invalid_unless (entry_actor_id entry = gate_actor_id gate)
               (GateActorMismatch i (gate_actor_id gate) (entry_actor_id entry))) (\<lambda>_.
      map_err (\<lambda>e. InvalidMorphismEntry (GateRefused i e))
        (check_operation_gate (eval_env E) cs gate (gate_operation gate)))))))"

definition validate_append ::
  "store_env \<Rightarrow> case_space \<Rightarrow> morphism_log_entry \<Rightarrow> morphism_log_entry list \<Rightarrow> unit store_result" where
  "validate_append E current entry existing =
     rbind (require_log_entry_contract entry) (\<lambda>_.
     rbind (require_entry_morphism_match entry) (\<lambda>_.
     rbind (invalid_unless (entry_case_space_id entry = case_space_id current)
              (EntryCaseSpace (entry_case_space_id entry) (case_space_id current))) (\<lambda>_.
     rbind (ensure (entry_source_revision_id entry = Some (revision_id (cs_revision current)))
              (StaleSourceRevision (entry_source_revision_id entry)
                 (revision_id (cs_revision current)))) (\<lambda>_.
     rbind (invalid_unless (entry_sequence entry = length existing + 1)
              (SequenceMustBe (length existing + 1))) (\<lambda>_.
     rbind (require_previous_entry_hash E entry
              (if existing = [] then None else Some (last existing))) (\<lambda>_.
     rbind (invalid_unless
              (\<not> list_ex (\<lambda>x. entry_target_revision_id x = entry_target_revision_id entry) existing)
              (TargetRevisionExists (entry_target_revision_id entry))) (\<lambda>_.
     rbind (invalid_unless (\<not> list_ex (\<lambda>x. entry_id x = entry_id entry) existing)
              (DuplicateLogEntry (entry_id entry))) (\<lambda>_.
     invalid_unless (\<not> list_ex (\<lambda>x. entry_morphism_id x = entry_morphism_id entry) existing)
       (DuplicateMorphism (entry_morphism_id entry))))))))))"

definition apply_bounded_morphism ::
  "store_env \<Rightarrow> case_space \<Rightarrow> morphism_log_entry \<Rightarrow> case_space store_result" where
  "apply_bounded_morphism E cs entry =
     (let m = entry_morphism entry in
      rbind (map_err (\<lambda>e. InvalidMorphismEntry (ApplyFailed e))
               (apply_morphism (env_payload (eval_env E)) cs m)) (\<lambda>cs'.
      rbind (if mor_preserved_ids m \<noteq> [] then require_referenced_ids_exist cs' (mor_preserved_ids m)
             else Ok ()) (\<lambda>_.
      rbind (if mor_evidence_ids m \<noteq> [] then require_referenced_ids_exist cs' (mor_evidence_ids m)
             else Ok ()) (\<lambda>_.
      Ok cs'))))"

text \<open>The checks of an append up to the first write: the resulting state.\<close>

definition append_candidate ::
  "store_env \<Rightarrow> case_dir \<Rightarrow> id \<Rightarrow> morphism_log_entry \<Rightarrow> bool \<Rightarrow> case_space store_result" where
  "append_candidate E dir i entry allow_anchor =
     rbind (replay_current_case_space E dir i) (\<lambda>replay.
     rbind (invalid_unless (\<not> (is_execution_trace_anchor (morphism_type (entry_morphism entry))
                               \<and> \<not> allow_anchor)) AnchorReserved) (\<lambda>_.
     rbind (require_valid_operation_gate E (rp_case_space replay) entry) (\<lambda>_.
     rbind (validate_append E (rp_case_space replay) entry (rp_history replay)) (\<lambda>_.
     rbind (apply_bounded_morphism E (rp_case_space replay) entry) (\<lambda>applied.
     (let next = push_entry applied entry fmempty in
      rbind (mismatch_unless (replay_checksum entry = case_space_checksum E next)
               (EntryChecksum (entry_id entry) (replay_checksum entry)
                  (case_space_checksum E next))) (\<lambda>_.
      rbind (validate_materialized_log next) (\<lambda>_.
      rbind (map_err NotEvaluable (validate_native_case_space (eval_env E) next)) (\<lambda>_.
      Ok next)))))))))"

definition require_existing_snapshot_agrees_with_candidate ::
  "store_env \<Rightarrow> case_space option \<Rightarrow> morphism_log_entry \<Rightarrow> case_space \<Rightarrow> bool store_result" where
  "require_existing_snapshot_agrees_with_candidate E file entry candidate =
     (case file of
        None \<Rightarrow> Ok False
      | Some f \<Rightarrow>
          rbind (read_verified_snapshot E f entry (morphism_log candidate)) (\<lambda>snapshot.
          rbind (validate_materialized_log snapshot) (\<lambda>_.
          rbind (mismatch_unless (snapshot = candidate)
                   (CandidateSnapshotDisagrees (entry_target_revision_id entry))) (\<lambda>_.
          Ok True))))"

definition newest_existing_snapshot_path ::
  "case_dir \<Rightarrow> id \<Rightarrow> morphism_log_entry list \<Rightarrow> string option" where
  "newest_existing_snapshot_path dir i entries =
     map_option (\<lambda>entry. relative_snapshot_path i (entry_target_revision_id entry))
       (find (\<lambda>entry. snapshot_at dir (snapshot_name (entry_target_revision_id entry)) \<noteq> None)
         (rev entries))"

text \<open>
  What an append does to the directory: on success the resulting state, the writes, and, unless a
  snapshot is scheduled, the path the returned record names.
\<close>

definition append_plan ::
  "store_env \<Rightarrow> case_dir \<Rightarrow> id \<Rightarrow> morphism_log_entry \<Rightarrow> bool
   \<Rightarrow> (case_space \<times> store_write list \<times> string option) store_result" where
  "append_plan E dir i entry allow_anchor =
     rbind (append_candidate E dir i entry allow_anchor) (\<lambda>next.
     rbind (resolve_snapshot_path (case_space_id next) (revision_id (cs_revision next))) (\<lambda>name.
     (let log_and_head = [AppendEntry entry, WriteHead (morphism_log_head_of E entry)] in
      if snapshot_required (entry_sequence entry) then
        rbind (invalid_unless (snapshot_at dir name = None)
                 (SnapshotExists (entry_target_revision_id entry))) (\<lambda>_.
        Ok (next, WriteSnapshot name next # log_and_head, None))
      else
        rbind (require_existing_snapshot_agrees_with_candidate E (snapshot_at dir name) entry next) (\<lambda>exists.
        (let target = relative_snapshot_path (case_space_id next) (revision_id (cs_revision next));
             nearest = (if exists then target
               else (case newest_existing_snapshot_path dir i (morphism_log next) of
                       Some path \<Rightarrow> path | None \<Rightarrow> target))
         in Ok (next, log_and_head, Some nearest))))))"

definition append_morphism_with_authority ::
  "store_env \<Rightarrow> native_store \<Rightarrow> id \<Rightarrow> morphism_log_entry \<Rightarrow> bool
   \<Rightarrow> native_store \<times> native_case_space_record store_result" where
  "append_morphism_with_authority E store i entry allow_anchor =
     (case fmlookup store (path_segment i) of
        None \<Rightarrow> (store, Err (MissingCase i))
      | Some dir \<Rightarrow>
          (case append_plan E dir i entry allow_anchor of
             Inl e \<Rightarrow> (store, Err e)
           | Inr (next, writes, nearest) \<Rightarrow>
               (let dir' = perform_writes writes dir in
                (fmupd (path_segment i) dir' store,
                 case nearest of
                   Some path \<Rightarrow>
                     native_record_from_materialized dir' i (morphism_log next) next (Some path)
                 | None \<Rightarrow> inspect_case_space E dir' i))))"

definition append_morphism ::
  "store_env \<Rightarrow> native_store \<Rightarrow> id \<Rightarrow> morphism_log_entry
   \<Rightarrow> native_store \<times> native_case_space_record store_result" where
  "append_morphism E store i entry = append_morphism_with_authority E store i entry False"

definition append_execution_trace_anchor ::
  "store_env \<Rightarrow> native_store \<Rightarrow> id \<Rightarrow> morphism_log_entry
   \<Rightarrow> native_store \<times> native_case_space_record store_result" where
  "append_execution_trace_anchor E store i entry =
     (if \<not> is_execution_trace_anchor (morphism_type (entry_morphism entry))
      then (store, Err (InvalidMorphismEntry NotAnAnchor))
      else append_morphism_with_authority E store i entry True)"

section \<open>Validation and rebuild\<close>

definition check_snapshot_against_fold ::
  "store_env \<Rightarrow> case_dir \<Rightarrow> morphism_log_entry list \<Rightarrow> nat \<Rightarrow> morphism_log_entry \<Rightarrow> folded_revision
   \<Rightarrow> case_space \<Rightarrow> case_space \<Rightarrow> unit store_result" where
  "check_snapshot_against_fold E dir entries index entry folded cs file =
     rbind (map_err (\<lambda>_. ReplayMismatch (SnapshotCannotAgree (entry_target_revision_id entry)))
              (read_verified_snapshot E file entry (take (Suc index) entries))) (\<lambda>snapshot.
     require_snapshot_agrees_with_fold snapshot folded cs)"

definition require_existing_snapshot_agrees_with_fold ::
  "store_env \<Rightarrow> case_dir \<Rightarrow> morphism_log_entry list \<Rightarrow> unit visitor" where
  "require_existing_snapshot_agrees_with_fold E dir entries index entry folded cs acc =
     (acc,
      case snapshot_at dir (snapshot_name (entry_target_revision_id entry)) of
        Some file \<Rightarrow> check_snapshot_against_fold E dir entries index entry folded cs file
      | None \<Rightarrow> Ok ())"

record case_space_validation =
  va_case_space_id :: id
  va_current_revision_id :: id
  va_history_entry_count :: nat
  va_valid :: bool

definition validate_case_space ::
  "store_env \<Rightarrow> case_dir \<Rightarrow> id \<Rightarrow> case_space_validation store_result" where
  "validate_case_space E dir i =
     rbind (replay_current_case_space E dir i) (\<lambda>replay.
     rbind (snd (fold_morphism_log E (rp_history replay)
              (require_existing_snapshot_agrees_with_fold E dir (rp_history replay)) ())) (\<lambda>folded.
     rbind (mismatch_unless (folded = rp_case_space replay) FoldDisagreesWithReplay) (\<lambda>_.
     Ok \<lparr>va_case_space_id = rp_case_space_id replay,
         va_current_revision_id = rp_current_revision_id replay,
         va_history_entry_count = length (rp_history replay), va_valid = True\<rparr>)))"

datatype snapshot_status = SnAgrees | SnRebuilt | SnNotScheduled

record rebuild_revision =
  rb_revision_id :: id
  rb_sequence :: nat
  rb_snapshot_path :: string
  rb_computed_checksum :: string
  rb_replay_checksum :: string
  rb_snapshot_status :: snapshot_status

record case_space_rebuild =
  rb_case_space_id :: id
  rb_current_revision_id :: id
  rb_revision_count :: nat
  head_adopted :: bool
  rb_revisions :: "rebuild_revision list"

definition rebuild_visit ::
  "store_env \<Rightarrow> case_dir \<Rightarrow> id \<Rightarrow> morphism_log_entry list
   \<Rightarrow> (rebuild_revision list \<times> nat set) visitor" where
  "rebuild_visit E dir i entries index entry folded cs acc =
     (let (reports, missing) = acc;
          report = (\<lambda>status.
            \<lparr>rb_revision_id = entry_target_revision_id entry, rb_sequence = entry_sequence entry,
             rb_snapshot_path = relative_snapshot_path i (entry_target_revision_id entry),
             rb_computed_checksum = computed_checksum folded,
             rb_replay_checksum = replay_checksum entry, rb_snapshot_status = status\<rparr>)
      in case snapshot_at dir (snapshot_name (entry_target_revision_id entry)) of
           Some file \<Rightarrow>
             (case check_snapshot_against_fold E dir entries index entry folded cs file of
                Inl e \<Rightarrow> (acc, Err e)
              | Inr _ \<Rightarrow> ((reports @ [report SnAgrees], missing), Ok ()))
         | None \<Rightarrow>
             if snapshot_required (entry_sequence entry)
             then ((reports @ [report SnRebuilt], insert index missing), Ok ())
             else ((reports @ [report SnNotScheduled], missing), Ok ()))"

definition rewrite_visit :: "nat set \<Rightarrow> case_dir visitor" where
  "rewrite_visit missing index entry folded cs dir =
     (if index \<in> missing then
        (let name = snapshot_name (entry_target_revision_id entry) in
         if snapshot_at dir name \<noteq> None then (dir, Err (FileExists name))
         else (perform_write dir (WriteSnapshot name cs), Ok ()))
      else (dir, Ok ()))"

text \<open>Whether the head is written, and whether it overwrites one that lags.\<close>

definition adopt_decision ::
  "store_env \<Rightarrow> case_dir \<Rightarrow> morphism_log_entry list \<Rightarrow> bool \<Rightarrow> (bool \<times> bool) store_result" where
  "adopt_decision E dir entries adopt_existing_log =
     (if \<not> adopt_existing_log then Ok (False, False)
      else case dir_head dir of
        None \<Rightarrow> Ok (True, False)
      | Some _ \<Rightarrow>
          (case require_log_head E (dir_head dir) (last entries) of
             Inr _ \<Rightarrow> Ok (False, False)
           | Inl e \<Rightarrow>
               rbind (map_err (\<lambda>_. e) (require_head_lags_log E (dir_head dir) entries)) (\<lambda>_.
               Ok (True, True))))"

definition write_adopted_head ::
  "store_env \<Rightarrow> case_dir \<Rightarrow> morphism_log_entry \<Rightarrow> bool \<times> bool \<Rightarrow> case_dir \<times> unit store_result" where
  "write_adopted_head E dir latest decision =
     (let (adopt, repair) = decision; written = perform_write dir (WriteHead (morphism_log_head_of E latest))
      in if \<not> adopt then (dir, Ok ())
         else if repair then (written, Ok ())
         else if dir_head dir \<noteq> None then (dir, Err (ReplayMismatch HeadAppeared))
         else (written, Ok ()))"

definition rebuild_dir ::
  "store_env \<Rightarrow> case_dir \<Rightarrow> id \<Rightarrow> bool \<Rightarrow> case_dir \<times> case_space_rebuild store_result" where
  "rebuild_dir E dir i adopt_existing_log =
     (case rbind (if adopt_existing_log then read_history_entries E dir i else history_entries E dir i)
             (\<lambda>entries. rbind (latest_entry entries) (\<lambda>latest.
              rbind (adopt_decision E dir entries adopt_existing_log) (\<lambda>decision.
              Ok (entries, latest, decision)))) of
        Inl e \<Rightarrow> (dir, Err e)
      | Inr (entries, latest, decision) \<Rightarrow>
          (case fold_morphism_log E entries (rebuild_visit E dir i entries) ([], {}) of
             (_, Inl e) \<Rightarrow> (dir, Err e)
           | ((reports, missing), Inr _) \<Rightarrow>
               (case (if missing = {} then (dir, Ok ())
                      else (let (d, r) = fold_morphism_log E entries (rewrite_visit missing) dir
                            in (d, rbind r (\<lambda>_. Ok ())))) of
                  (dir1, Inl e) \<Rightarrow> (dir1, Err e)
                | (dir1, Inr _) \<Rightarrow>
                    (case write_adopted_head E dir1 latest decision of
                       (dir2, Inl e) \<Rightarrow> (dir2, Err e)
                     | (dir2, Inr _) \<Rightarrow>
                         (dir2, Ok \<lparr>rb_case_space_id = i,
                            rb_current_revision_id = entry_target_revision_id latest,
                            rb_revision_count = length reports, head_adopted = fst decision,
                            rb_revisions = reports\<rparr>)))))"

definition rebuild_case_space_inner ::
  "store_env \<Rightarrow> native_store \<Rightarrow> id \<Rightarrow> bool \<Rightarrow> native_store \<times> case_space_rebuild store_result" where
  "rebuild_case_space_inner E store i adopt_existing_log =
     (case fmlookup store (path_segment i) of
        None \<Rightarrow> (store, Err (MissingCase i))
      | Some dir \<Rightarrow>
          (case rebuild_dir E dir i adopt_existing_log of
             (dir', r) \<Rightarrow> (fmupd (path_segment i) dir' store, r)))"

end
