(* ===== verification/Store_Replay.thy ===== *)
theory Store_Replay
  imports Native_Store Reducer_Properties
begin

text \<open>
  How the fold of a log relates to the reducer and to itself: the indexed reducer inside the fold is
  the scanning one, the set of known ids the fold maintains is the set computed from the state, and
  a fold resumes from any of its prefixes.
\<close>

section \<open>One replayed entry\<close>

abbreviation decoder :: "store_env \<Rightarrow> payload_decoder" where
  "decoder E \<equiv> env_payload (eval_env E)"

definition log_ids :: "morphism_log_entry list \<Rightarrow> id set" where
  "log_ids es = entry_id ` set es \<union> entry_morphism_id ` set es"

lemma known_ids_eq:
  "known_ids cs = materialized_ids cs \<union> projection_id ` set (projections cs) \<union> log_ids (morphism_log cs)
     \<union> {revision_id (cs_revision cs)}"
  by (auto simp: known_ids_def materialized_ids_def log_ids_def)

lemma push_entry_simps [simp]:
  "case_cells (push_entry cs e md) = case_cells cs"
  "case_relations (push_entry cs e md) = case_relations cs"
  "projections (push_entry cs e md) = projections cs"
  "case_space_id (push_entry cs e md) = case_space_id cs"
  "space_id (push_entry cs e md) = space_id cs"
  "morphism_log (push_entry cs e md) = morphism_log cs @ [e]"
  "cs_schema (push_entry cs e md) = cs_schema cs"
  "cs_schema_version (push_entry cs e md) = cs_schema_version cs"
  "cs_revision (push_entry cs e md) = (revision_from_entry (case_space_id cs) e)\<lparr>rev_metadata := md\<rparr>"
  "materialized_ids (push_entry cs e md) = materialized_ids cs"
  "wf_space (push_entry cs e md) = wf_space cs"
  "index_new (push_entry cs e md) = index_new cs"
  by (simp_all add: push_entry_def materialized_ids_def wf_space_def index_new_def)

lemma revision_from_entry_simps [simp]:
  "revision_id (revision_from_entry i e) = entry_target_revision_id e"
  "rev_case_space_id (revision_from_entry i e) = i"
  "rev_checksum (revision_from_entry i e) = replay_checksum e"
  by (simp_all add: revision_from_entry_def)

lemma apply_morphism_keeps:
  assumes "wf_space cs" "apply_morphism dec cs m = Inr cs'"
  shows "projections cs' = projections cs" "case_space_id cs' = case_space_id cs"
    "morphism_log cs' = morphism_log cs" "cs_revision cs' = cs_revision cs" "cs_schema cs' = cs_schema cs"
    "cs_schema_version cs' = cs_schema_version cs" "space_id cs' = space_id cs" "wf_space cs'"
  using assms reduced_wf apply_morphism_iff [OF assms(1)] by (auto simp: reduced_space_def)

lemma apply_morphism_ids:
  assumes "wf_space cs" "apply_morphism dec cs m = Inr cs'"
  shows "set (mor_retired_ids m) \<subseteq> materialized_ids cs"
    "materialized_ids cs' \<subseteq> materialized_ids cs \<union> set (mor_added_ids m)"
    "materialized_ids cs \<union> set (mor_added_ids m) \<subseteq> materialized_ids cs' \<union> set (mor_retired_ids m)"
proof -
  from assms obtain p where p: "payload_matches m p" "admissible cs m p" "cs' = reduced_space m p cs"
    by (rule apply_morphismE) blast
  have added: "set (mor_added_ids m) = cell_id ` set (added_cells p) \<union> rel_id ` set (added_relations p)"
    using p(1) by (auto simp: payload_matches_def derive_added_ids_def)
  show "set (mor_retired_ids m) \<subseteq> materialized_ids cs"
    using p(2) by (auto simp: admissible_def Let_def materialized_ids_def)
  have cells: "cell_id ` set (case_cells cs') = cell_id ` set (case_cells cs) \<union> cell_id ` set (added_cells p)"
    by (simp add: p(3) reduced_space_def image_Un)
  let ?o = "overlay rel_id (updated_relations p) (case_relations cs @ added_relations p)"
  have rels: "rel_id ` set (case_relations cs') = rel_id ` set ?o - set (mor_retired_ids m)"
    by (auto simp: p(3) reduced_space_def reduced_relations_def)
  have "rel_id ` set ?o = rel_id ` set (case_relations cs) \<union> rel_id ` set (added_relations p)"
    by (simp add: overlay_key_set image_Un)
  with cells rels added show "materialized_ids cs' \<subseteq> materialized_ids cs \<union> set (mor_added_ids m)"
    "materialized_ids cs \<union> set (mor_added_ids m) \<subseteq> materialized_ids cs' \<union> set (mor_retired_ids m)"
    by (auto simp: materialized_ids_def)
qed

lemma replayed_entry_iff:
  assumes "wf_space cs" "application_index v = index_new cs"
  shows "apply_replayed_entry E md entry cs v = Ok (cs', v') \<longleftrightarrow>
     (\<exists>cs1. apply_morphism (decoder E) cs (entry_morphism entry) = Inr cs1 \<and>
        require_entry_references E (update_materialized_ids (rv_known_ids v) cs1 entry) cs1 entry = Ok () \<and>
        cs' = push_entry cs1 entry (case md of Some md \<Rightarrow> md | None \<Rightarrow> fmempty) \<and>
        v' = \<lparr>rv_known_ids = (update_materialized_ids (rv_known_ids v) cs1 entry
                 - {revision_id (cs_revision cs)})
               \<union> {entry_id entry, entry_morphism_id entry, entry_target_revision_id entry},
              application_index = index_new cs1\<rparr>)"
proof (cases "apply_morphism (decoder E) cs (entry_morphism entry)")
  case (Inl e)
  with indexed_implements [OF assms(1), of "decoder E" "entry_morphism entry"] obtain e' where
    "snd (apply_morphism_indexed (decoder E) (entry_morphism entry) (cs, index_new cs)) = Err e'" by auto
  then obtain s where
    "apply_morphism_indexed (decoder E) (entry_morphism entry) (cs, index_new cs) = (s, Err e')"
    by (metis prod.collapse)
  with Inl assms(2) show ?thesis by (simp add: apply_replayed_entry_def)
next
  case (Inr cs1)
  with indexed_implements [OF assms(1), of "decoder E" "entry_morphism entry"] have
    "apply_morphism_indexed (decoder E) (entry_morphism entry) (cs, index_new cs) =
       ((cs1, index_new cs1), Ok ())" by simp
  moreover have "cs_revision cs1 = cs_revision cs" using apply_morphism_keeps [OF assms(1) Inr] by simp
  ultimately show ?thesis using Inr assms(2)
    by (auto simp: apply_replayed_entry_def Let_def result_simps)
qed

section \<open>The known ids are those of the state\<close>

lemma remove_unless: 
  "fold (\<lambda>i known. if P i then known else known - {i}) is known = known - {i \<in> set is. \<not> P i}"
  by (induction "is" arbitrary: known) auto

lemma update_materialized_ids_eq:
  "update_materialized_ids known cs entry =
     (known \<union> set (mor_added_ids (entry_morphism entry)))
     - (set (mor_retired_ids (entry_morphism entry)) - materialized_ids cs)"
proof -
  have *: "list_ex (\<lambda>cell. cell_id cell = i) (case_cells cs) \<or>
      list_ex (\<lambda>relation. rel_id relation = i) (case_relations cs) \<longleftrightarrow> i \<in> materialized_ids cs" for i
    by (auto simp: materialized_ids_def list_ex_iff)
  show ?thesis unfolding update_materialized_ids_def * remove_unless by auto
qed

text \<open>Ids of the graph, of the projections and log, and of the revision do not overlap.\<close>

definition ids_apart :: "case_space \<Rightarrow> bool" where
  "ids_apart cs \<longleftrightarrow>
     materialized_ids cs \<inter> (projection_id ` set (projections cs) \<union> log_ids (morphism_log cs)) = {} \<and>
     revision_id (cs_revision cs) \<notin> materialized_ids cs \<union> projection_id ` set (projections cs)
       \<union> log_ids (morphism_log cs)"

lemma applied_known_ids:
  assumes "wf_space cs" "ids_apart cs" "apply_morphism dec cs (entry_morphism entry) = Inr cs1"
  shows "update_materialized_ids (known_ids cs) cs1 entry = known_ids cs1"
proof -
  note k = apply_morphism_keeps [OF assms(1,3)] and i = apply_morphism_ids [OF assms(1,3)]
  from assms(2) i show ?thesis
    unfolding update_materialized_ids_eq known_ids_eq k ids_apart_def by blast
qed

definition keeps_known_ids :: "case_space \<Rightarrow> morphism_log_entry \<Rightarrow> bool" where
  "keeps_known_ids cs entry \<longleftrightarrow>
     revision_id (cs_revision cs) \<notin> set (mor_added_ids (entry_morphism entry))"

lemma replayed_known_ids:
  assumes "wf_space cs" "ids_apart cs" "apply_morphism dec cs (entry_morphism entry) = Inr cs1"
    and "keeps_known_ids cs entry \<or> entry_target_revision_id entry = revision_id (cs_revision cs)"
  shows "(known_ids cs1 - {revision_id (cs_revision cs)})
      \<union> {entry_id entry, entry_morphism_id entry, entry_target_revision_id entry}
    = known_ids (push_entry cs1 entry md)"
proof -
  note k = apply_morphism_keeps [OF assms(1,3)] and i = apply_morphism_ids [OF assms(1,3)]
  have new: "known_ids (push_entry cs1 entry md) = materialized_ids cs1 \<union> projection_id ` set (projections cs)
      \<union> log_ids (morphism_log cs)
      \<union> {entry_id entry, entry_morphism_id entry, entry_target_revision_id entry}"
    unfolding known_ids_eq by (auto simp: k log_ids_def)
  have old: "known_ids cs1 = materialized_ids cs1 \<union> projection_id ` set (projections cs)
      \<union> log_ids (morphism_log cs) \<union> {revision_id (cs_revision cs)}"
    by (simp add: known_ids_eq k)
  show ?thesis
  proof (cases "entry_target_revision_id entry = revision_id (cs_revision cs)")
    case True
    then show ?thesis unfolding new old by auto
  next
    case False
    with assms(4) have "revision_id (cs_revision cs) \<notin> set (mor_added_ids (entry_morphism entry))"
      by (simp add: keeps_known_ids_def)
    with assms(2) i(2) have "revision_id (cs_revision cs) \<notin> materialized_ids cs1 \<union>
        projection_id ` set (projections cs) \<union> log_ids (morphism_log cs)"
      by (auto simp: ids_apart_def)
    then show ?thesis unfolding new old by auto
  qed
qed

section \<open>The fold as a fold of steps\<close>

definition replay_step ::
  "store_env \<Rightarrow> metadata option \<Rightarrow> case_space \<times> replay_validation_state \<Rightarrow> nat \<times> morphism_log_entry
   \<Rightarrow> (case_space \<times> replay_validation_state) store_result" where
  "replay_step E md st x =
     apply_replayed_entry E (if fst x = 0 then md else None) (snd x) (fst st) (snd st)"

definition fold_step ::
  "store_env \<Rightarrow> metadata option \<Rightarrow> case_space \<times> replay_validation_state \<Rightarrow> nat \<times> morphism_log_entry
   \<Rightarrow> (case_space \<times> replay_validation_state) store_result" where
  "fold_step E md st x =
     rbind (replay_step E md st x) (\<lambda>st'.
     rbind (require_fold_checksum (folded_revision_of E (snd x) (fst st'))) (\<lambda>_. Ok st'))"

definition replay_inv :: "case_space \<times> replay_validation_state \<Rightarrow> bool" where
  "replay_inv st \<longleftrightarrow> wf_space (fst st) \<and> application_index (snd st) = index_new (fst st)"

lemma replay_step_iff:
  assumes "replay_inv (cs, v)"
  shows "replay_step E md (cs, v) (n, entry) = Ok (cs', v') \<longleftrightarrow>
     (\<exists>cs1. apply_morphism (decoder E) cs (entry_morphism entry) = Inr cs1 \<and>
        require_entry_references E (update_materialized_ids (rv_known_ids v) cs1 entry) cs1 entry = Ok () \<and>
        cs' = push_entry cs1 entry
          (case if n = 0 then md else None of Some md \<Rightarrow> md | None \<Rightarrow> fmempty) \<and>
        v' = \<lparr>rv_known_ids = (update_materialized_ids (rv_known_ids v) cs1 entry
                 - {revision_id (cs_revision cs)})
               \<union> {entry_id entry, entry_morphism_id entry, entry_target_revision_id entry},
              application_index = index_new cs1\<rparr>)"
  using assms replayed_entry_iff [of cs v E "if n = 0 then md else None" entry cs' v']
  unfolding replay_step_def replay_inv_def by simp

lemma fold_step_iff:
  "fold_step E md st (n, entry) = Ok st' \<longleftrightarrow>
     replay_step E md st (n, entry) = Ok st' \<and> case_space_checksum E (fst st') = replay_checksum entry"
  by (cases st') (auto simp: fold_step_def result_simps require_fold_checksum_def folded_revision_of_def)

lemma replay_step_inv:
  assumes "replay_inv st" "replay_step E md st x = Ok st'"
  shows "replay_inv st'"
proof -
  obtain cs v n entry cs' v' where st: "st = (cs, v)" "x = (n, entry)" "st' = (cs', v')"
    by (metis surj_pair)
  with assms obtain cs1 where cs1: "apply_morphism (decoder E) cs (entry_morphism entry) = Inr cs1"
      "cs' = push_entry cs1 entry (case if n = 0 then md else None of Some md \<Rightarrow> md | None \<Rightarrow> fmempty)"
      "application_index v' = index_new cs1"
    unfolding st using replay_step_iff by auto
  from assms(1) cs1(1) have "wf_space cs1" using reduced_wf by (auto simp: st replay_inv_def)
  with cs1 st show ?thesis by (simp add: replay_inv_def)
qed

interpretation replayed: log_fold "replay_step E md" replay_inv for E md
  by unfold_locales (rule replay_step_inv)

interpretation folded: log_fold "fold_step E md" replay_inv for E md
proof
  fix E md s x s' assume "replay_inv s" "fold_step E md s x = Inr s'"
  then show "replay_inv s'" by (cases x) (auto simp: fold_step_iff intro: replay_step_inv)
qed

lemma replay_inv_new [simp]: "replay_inv (cs, replay_validation_new cs) = wf_space cs"
  by (simp add: replay_inv_def replay_validation_new_def)

lemma replay_entries_iff:
  "replay_entries E md cs v xs = Ok cs' \<longleftrightarrow> (\<exists>v'. fold_res (replay_step E md) (cs, v) xs = Ok (cs', v'))"
proof (induction xs arbitrary: cs v)
  case Nil
  then show ?case by simp
next
  case (Cons x xs)
  obtain n entry where x: "x = (n, entry)" by fastforce
  show ?case
    by (simp add: x result_simps replay_step_def [abs_def] split_paired_Ex Cons.IH [unfolded replay_step_def [abs_def]])
      blast
qed

lemma fold_log_loop_Ok:
  assumes "fold_log_loop E md visit n cs v acc es = (acc', Ok cs')"
  shows "\<exists>v'. fold_res (fold_step E (Some md)) (cs, v) (List.enumerate n es) = Ok (cs', v')"
  using assms
proof (induction es arbitrary: n cs v acc)
  case Nil
  then show ?case by simp
next
  case (Cons entry es)
  let ?md = "if n = 0 then Some md else None"
  from Cons.prems obtain cs1 v1 where step: "apply_replayed_entry E ?md entry cs v = Ok (cs1, v1)"
    by (auto split: sum.splits)
  with Cons.prems obtain acc1 where "require_fold_checksum (folded_revision_of E entry cs1) = Ok ()"
    and rest: "fold_log_loop E md visit (Suc n) cs1 v1 acc1 es = (acc', Ok cs')"
    by (auto simp: Let_def split: sum.splits prod.splits)
  with step have "fold_step E (Some md) (cs, v) (n, entry) = Ok (cs1, v1)"
    by (simp add: fold_step_def replay_step_def)
  with Cons.IH [OF rest] show ?case by (simp add: enumerate_simps)
qed

lemma fold_log_loop_no_visit:
  assumes "fold_res (fold_step E (Some md)) (cs, v) (List.enumerate n es) = Ok (cs', v')"
  shows "fold_log_loop E md no_visit n cs v () es = ((), Ok cs')"
  using assms
proof (induction es arbitrary: n cs v)
  case Nil
  then show ?case by simp
next
  case (Cons entry es)
  then obtain st where st: "fold_step E (Some md) (cs, v) (n, entry) = Ok st"
      "fold_res (fold_step E (Some md)) st (List.enumerate (Suc n) es) = Ok (cs', v')"
    by (auto simp: result_simps enumerate_simps)
  obtain cs1 v1 where [simp]: "st = (cs1, v1)" by fastforce
  from st(1) have "apply_replayed_entry E (if n = 0 then Some md else None) entry cs v = Ok (cs1, v1)"
    "require_fold_checksum (folded_revision_of E entry cs1) = Ok ()"
    by (auto simp: fold_step_def replay_step_def result_simps)
  with Cons.IH [of cs1 v1 "Suc n"] st(2) show ?case by (simp add: no_visit_def Let_def)
qed

text \<open>The state of the fold of a log, with its validation state.\<close>

definition folds_to ::
  "store_env \<Rightarrow> morphism_log_entry list \<Rightarrow> case_space \<Rightarrow> replay_validation_state \<Rightarrow> bool" where
  "folds_to E es cs v \<longleftrightarrow> es \<noteq> [] \<and>
     (\<exists>cs0 md. empty_case_space_from_genesis E (hd es) = Ok (cs0, md) \<and>
        fold_res (fold_step E (Some md)) (cs0, replay_validation_new cs0) (List.enumerate 0 es) = Ok (cs, v))"

lemma materialize_iff: "materialize E es = Ok cs \<longleftrightarrow> (\<exists>v. folds_to E es cs v)"
proof (cases es)
  case Nil
  then show ?thesis by (simp add: materialize_def fold_morphism_log_def folds_to_def)
next
  case (Cons genesis rest)
  show ?thesis
  proof (cases "empty_case_space_from_genesis E genesis")
    case (Inl e)
    with Cons show ?thesis by (simp add: materialize_def fold_morphism_log_def folds_to_def)
  next
    case (Inr p)
    then obtain cs0 md where p: "empty_case_space_from_genesis E genesis = Ok (cs0, md)" by (cases p) auto
    let ?l = "fold_log_loop E md no_visit 0 cs0 (replay_validation_new cs0) () es"
    have "snd ?l = Ok cs \<longleftrightarrow> ?l = ((), Ok cs)" by (cases ?l) auto
    then have "materialize E es = Ok cs \<longleftrightarrow> ?l = ((), Ok cs)"
      using Cons p by (simp add: materialize_def fold_morphism_log_def)
    also have "\<dots> \<longleftrightarrow> (\<exists>v. folds_to E es cs v)"
      using Cons p fold_log_loop_Ok [of E md no_visit 0 cs0 "replay_validation_new cs0" "()" es "()" cs]
        fold_log_loop_no_visit [of E md cs0 "replay_validation_new cs0" 0 es cs]
      by (auto simp: folds_to_def)
    finally show ?thesis .
  qed
qed

lemma empty_case_space_simps:
  assumes "empty_case_space_from_genesis E g = Ok (cs0, md)"
  shows "case_cells cs0 = []" "case_relations cs0 = []" "morphism_log cs0 = []"
    "case_space_id cs0 = entry_case_space_id g" "cs_schema cs0 = native_case_space_schema"
    "cs_schema_version cs0 = native_case_space_schema_version" "wf_space cs0"
    "cs_revision cs0 = revision_from_entry (entry_case_space_id g) g"
  using assms by (auto simp: empty_case_space_from_genesis_def result_simps wf_space_def wf_graph_def)

section \<open>What a folded state satisfies\<close>

lemma fold_step_later: "n \<noteq> 0 \<Longrightarrow> fold_step E md st (n, e) = fold_step E None st (n, e)"
  by (simp add: fold_step_def replay_step_def)

lemma replay_step_later: "n \<noteq> 0 \<Longrightarrow> replay_step E md st (n, e) = replay_step E None st (n, e)"
  by (simp add: replay_step_def)

lemma fold_res_cong:
  assumes "\<And>s x. x \<in> set xs \<Longrightarrow> f s x = g s x"
  shows "fold_res f s xs = fold_res g s xs"
  using assms
proof (induction xs arbitrary: s)
  case (Cons x xs)
  then have "(\<lambda>s'. fold_res f s' xs) = (\<lambda>s'. fold_res g s' xs)" by auto
  with Cons.prems show ?case by simp
qed simp

lemma later_indices: "0 < k \<Longrightarrow> x \<in> set (drop k (List.enumerate 0 es)) \<Longrightarrow> fst x \<noteq> 0"
  by (auto simp: in_set_conv_nth nth_enumerate_eq)

lemma fold_steps_later:
  assumes "0 < k"
  shows "fold_res (fold_step E md) st (drop k (List.enumerate 0 es))
           = fold_res (fold_step E None) st (drop k (List.enumerate 0 es))"
  by (rule fold_res_cong) (metis assms later_indices fold_step_later prod.collapse)

lemma replay_steps_later:
  assumes "0 < k"
  shows "fold_res (replay_step E md) st (drop k (List.enumerate 0 es))
           = fold_res (replay_step E None) st (drop k (List.enumerate 0 es))"
  by (rule fold_res_cong) (metis assms later_indices replay_step_later prod.collapse)

lemma fold_is_replay:
  assumes "fold_res (fold_step E md) st xs = Ok st'"
  shows "fold_res (replay_step E md) st xs = Ok st'"
  using assms
proof (induction xs arbitrary: st)
  case (Cons x xs)
  then show ?case by (cases x) (force simp: result_simps fold_step_iff)
qed simp

lemma replay_deterministic:
  assumes "replay_inv (cs, v)" "replay_inv (cs, w)"
    "fold_res (replay_step E md) (cs, v) xs = Ok (c, v')"
    "fold_res (replay_step E md) (cs, w) xs = Ok (d, w')"
  shows "c = d"
  using assms
proof (induction xs arbitrary: cs v w)
  case (Cons x xs)
  obtain n entry where x: "x = (n, entry)" by fastforce
  from Cons.prems(3) x obtain c1 v1 where s1: "replay_step E md (cs, v) x = Ok (c1, v1)"
      "fold_res (replay_step E md) (c1, v1) xs = Ok (c, v')" by (auto simp: result_simps)
  from Cons.prems(4) x obtain d1 w1 where s2: "replay_step E md (cs, w) x = Ok (d1, w1)"
      "fold_res (replay_step E md) (d1, w1) xs = Ok (d, w')" by (auto simp: result_simps)
  from s1(1) s2(1) have "c1 = d1"
    unfolding x replay_step_iff [OF Cons.prems(1)] replay_step_iff [OF Cons.prems(2)] by auto
  with Cons.IH s1 s2 Cons.prems(1,2) replay_step_inv show ?case by blast
qed simp

definition state_of :: "store_env \<Rightarrow> case_space \<Rightarrow> morphism_log_entry list \<Rightarrow> bool" where
  "state_of E cs es \<longleftrightarrow> es \<noteq> [] \<and> morphism_log cs = es \<and>
     case_space_id cs = entry_case_space_id (hd es) \<and> rev_case_space_id (cs_revision cs) = case_space_id cs \<and>
     cs_schema cs = native_case_space_schema \<and> cs_schema_version cs = native_case_space_schema_version \<and>
     revision_id (cs_revision cs) = entry_target_revision_id (last es) \<and>
     rev_checksum (cs_revision cs) = replay_checksum (last es) \<and>
     case_space_checksum E cs = replay_checksum (last es)"

lemma replay_step_state:
  assumes "replay_inv (cs, v)" "replay_step E md (cs, v) (n, e) = Ok (cs', v')"
  shows "morphism_log cs' = morphism_log cs @ [e]" "case_space_id cs' = case_space_id cs"
    "cs_schema cs' = cs_schema cs" "cs_schema_version cs' = cs_schema_version cs"
    "revision_id (cs_revision cs') = entry_target_revision_id e"
    "rev_checksum (cs_revision cs') = replay_checksum e"
    "rev_case_space_id (cs_revision cs') = case_space_id cs"
proof -
  from assms obtain cs1 where a: "apply_morphism (decoder E) cs (entry_morphism e) = Inr cs1"
    and c: "cs' = push_entry cs1 e (case if n = 0 then md else None of Some md \<Rightarrow> md | None \<Rightarrow> fmempty)"
    unfolding replay_step_iff [OF assms(1)] by blast
  from assms(1) have "wf_space cs" by (simp add: replay_inv_def)
  from apply_morphism_keeps [OF this a]
  show "morphism_log cs' = morphism_log cs @ [e]" "case_space_id cs' = case_space_id cs"
    "cs_schema cs' = cs_schema cs" "cs_schema_version cs' = cs_schema_version cs"
    "revision_id (cs_revision cs') = entry_target_revision_id e"
    "rev_checksum (cs_revision cs') = replay_checksum e"
    "rev_case_space_id (cs_revision cs') = case_space_id cs"
    unfolding c by simp_all
qed

lemma folds_to_snoc:
  assumes "es \<noteq> []"
  shows "folds_to E (es @ [e]) cs' v' \<longleftrightarrow>
     (\<exists>cs v. folds_to E es cs v \<and> fold_step E None (cs, v) (length es, e) = Ok (cs', v'))"
  using assms by (auto simp: folds_to_def enumerate_append_eq fold_res_append result_simps
      fold_step_later [of _ E "Some _"] enumerate_simps)

lemma folds_to_single:
  "folds_to E [e] cs v \<longleftrightarrow> (\<exists>cs0 md. empty_case_space_from_genesis E e = Ok (cs0, md) \<and>
     fold_step E (Some md) (cs0, replay_validation_new cs0) (0, e) = Ok (cs, v))"
  by (auto simp: folds_to_def enumerate_simps result_simps)

lemma folds_to_state:
  assumes "folds_to E es cs v"
  shows "replay_inv (cs, v) \<and> state_of E cs es"
  using assms
proof (induction es arbitrary: cs v rule: rev_induct)
  case Nil
  then show ?case by (simp add: folds_to_def)
next
  case (snoc e es)
  show ?case
  proof (cases "es = []")
    case True
    with snoc.prems obtain cs0 md where g: "empty_case_space_from_genesis E e = Ok (cs0, md)"
      and s: "fold_step E (Some md) (cs0, replay_validation_new cs0) (0, e) = Ok (cs, v)"
      by (auto simp: folds_to_single)
    note f = empty_case_space_simps [OF g]
    then have inv: "replay_inv (cs0, replay_validation_new cs0)" by simp
    from s have r: "replay_step E (Some md) (cs0, replay_validation_new cs0) (0, e) = Ok (cs, v)"
      "case_space_checksum E cs = replay_checksum e" by (auto simp: fold_step_iff)
    from replay_step_state [OF inv r(1)] replay_step_inv [OF inv r(1)] r(2) f True show ?thesis
      by (simp add: state_of_def)
  next
    case False
    with snoc.prems obtain c w where c: "folds_to E es c w"
      and s: "fold_step E None (c, w) (length es, e) = Ok (cs, v)" by (auto simp: folds_to_snoc)
    from snoc.IH [OF c] have inv: "replay_inv (c, w)" and st: "state_of E c es" by simp_all
    from s have r: "replay_step E None (c, w) (length es, e) = Ok (cs, v)"
      "case_space_checksum E cs = replay_checksum e" by (auto simp: fold_step_iff)
    from replay_step_state [OF inv r(1)] replay_step_inv [OF inv r(1)] r(2) st False show ?thesis
      by (simp add: state_of_def)
  qed
qed

lemma take_enumerated: "take k (List.enumerate n xs) = List.enumerate n (take k xs)"
  by (rule nth_equalityI) (simp_all add: nth_enumerate_eq)

lemma folds_to_prefix:
  assumes "folds_to E es cs v" "0 < k" "k \<le> length es"
  obtains c w where "folds_to E (take k es) c w"
    "fold_res (fold_step E None) (c, w) (drop k (List.enumerate 0 es)) = Ok (cs, v)"
proof -
  from assms(1) obtain cs0 md where g: "empty_case_space_from_genesis E (hd es) = Ok (cs0, md)"
    and f: "fold_res (fold_step E (Some md)) (cs0, replay_validation_new cs0) (List.enumerate 0 es) = Ok (cs, v)"
    and ne: "es \<noteq> []" by (auto simp: folds_to_def)
  have split: "List.enumerate 0 es = List.enumerate 0 (take k es) @ drop k (List.enumerate 0 es)"
    by (metis append_take_drop_id take_enumerated)
  from f [unfolded arg_cong [OF split, of "fold_res (fold_step E (Some md)) (cs0, replay_validation_new cs0)"]
      fold_res_append]
  obtain c w where cw: "fold_res (fold_step E (Some md)) (cs0, replay_validation_new cs0)
      (List.enumerate 0 (take k es)) = Ok (c, w)"
    and rest: "fold_res (fold_step E (Some md)) (c, w) (drop k (List.enumerate 0 es)) = Ok (cs, v)"
    by (auto simp: result_simps)
  from cw g ne assms(2) have "folds_to E (take k es) c w" by (auto simp: folds_to_def)
  with rest that show ?thesis by (simp add: fold_steps_later [OF assms(2), of E "Some md"])
qed

end
