(* ===== verification/Store_Snapshots.thy ===== *)
theory Store_Snapshots
  imports Store_Replay
begin

text \<open>
  Snapshots are caches of the log. A snapshot that passes the checks of \<open>read_verified_snapshot\<close> is the
  state the fold reaches there, if the two digests do not collide on the data at hand; so a replay that
  starts from a snapshot gives the state of the whole log.
\<close>

lemma embedded_log_iff:
  "require_embedded_log_matches_prefix E xs ys = Ok u \<longleftrightarrow>
     list_all2 (\<lambda>x y. entry_id x = entry_id y \<and> entry_hash E x = entry_hash E y) xs ys"
proof -
  let ?zs = "zip xs ys"
  have "set ?zs = snd ` set (List.enumerate 0 ?zs)" by (metis map_snd_enumerate set_map)
  then have all: "(\<forall>t \<in> set (List.enumerate 0 ?zs). P (snd t)) \<longleftrightarrow> (\<forall>z \<in> set ?zs. P z)" for P by auto
  show ?thesis
    unfolding require_embedded_log_matches_prefix_def list_all2_iff result_simps each_res_eq_Inr
      case_prod_unfold
    using all [of "\<lambda>z. entry_id (fst z) = entry_id (snd z) \<and> entry_hash E (fst z) = entry_hash E (snd z)"]
    by simp
qed

lemma read_verified_iff:
  "read_verified_snapshot E s a pre = Ok s' \<longleftrightarrow> s' = s \<and>
     cs_schema s = native_case_space_schema \<and> cs_schema_version s = native_case_space_schema_version \<and>
     list_all2 (\<lambda>x y. entry_id x = entry_id y \<and> entry_hash E x = entry_hash E y) (morphism_log s) pre \<and>
     case_space_checksum E s = replay_checksum a \<and> rev_checksum (cs_revision s) = replay_checksum a \<and>
     case_space_id s = entry_case_space_id a \<and>
     revision_id (cs_revision s) = entry_target_revision_id a"
  unfolding read_verified_snapshot_def result_simps embedded_log_iff require_case_space_contract_def
    require_computed_snapshot_checksum_def require_case_space_matches_entry_def
  by (simp only: ensure_eq_Inr) auto

lemma nearest_snapshot_Some:
  assumes "nearest_snapshot E dir i es xs = Ok (Some (s, k, path))"
  shows "\<exists>(n, e) \<in> set xs. k = Suc n \<and>
     snapshot_at dir (snapshot_name (entry_target_revision_id e)) = Some s \<and>
     read_verified_snapshot E s e (take k es) = Ok s \<and> validate_materialized_log s = Ok ()"
  using assms
proof (induction xs)
  case (Cons x xs)
  obtain n e where x: "x = (n, e)" by fastforce
  show ?case
  proof (cases "snapshot_at dir (snapshot_name (entry_target_revision_id e))")
    case None
    with Cons.prems x have "nearest_snapshot E dir i es xs = Ok (Some (s, k, path))" by simp
    from Cons.IH [OF this] show ?thesis by auto
  next
    case (Some f)
    with Cons.prems x have "rbind (read_verified_snapshot E f e (take (Suc n) es)) (\<lambda>cs.
        rbind (validate_materialized_log cs) (\<lambda>_. Ok (Some (cs, Suc n,
          relative_snapshot_path i (entry_target_revision_id e))))) = Ok (Some (s, k, path))" by simp
    then obtain c where c: "read_verified_snapshot E f e (take (Suc n) es) = Ok c"
      "validate_materialized_log c = Ok ()" "s = c" "k = Suc n"
      by (elim rbindE) auto
    from c(1) have "f = c" by (simp add: read_verified_iff)
    with c Some x show ?thesis by simp
  qed
qed simp

lemma checksum_view_eqD:
  assumes "checksum_view a = checksum_view b" "morphism_log a = morphism_log b"
    "rev_checksum (cs_revision a) = rev_checksum (cs_revision b)"
  shows "a = b"
proof -
  have "cs_revision c = (cs_revision (checksum_view c))\<lparr>rev_checksum := rev_checksum (cs_revision c)\<rparr>"
    "c = (checksum_view c)\<lparr>cs_revision := cs_revision c, morphism_log := morphism_log c\<rparr>" for c
    by (simp_all add: checksum_view_def)
  with assms show ?thesis by metis
qed

section \<open>A verified snapshot is the state of its prefix\<close>

definition snapshot_files :: "case_dir \<Rightarrow> case_space set" where
  "snapshot_files dir = {s. \<exists>name. snapshot_at dir name = Some s}"

text \<open>The digests do not collide on the snapshot files, the states of the log and their entries.\<close>

definition collision_free :: "store_env \<Rightarrow> case_dir \<Rightarrow> morphism_log_entry list \<Rightarrow> bool" where
  "collision_free E dir es \<longleftrightarrow>
     inj_on (space_digest E)
       (checksum_view ` (snapshot_files dir \<union> {c. \<exists>k. materialize E (take k es) = Ok c})) \<and>
     inj_on (entry_hash E) (set es \<union> (\<Union>s \<in> snapshot_files dir. set (morphism_log s)))"

lemma same_hashes:
  assumes "list_all2 (\<lambda>x y. entry_id x = entry_id y \<and> h x = h y) xs ys" "inj_on h A"
    "set xs \<subseteq> A" "set ys \<subseteq> A"
  shows "xs = ys"
  using assms by (induction rule: list_all2_induct) (auto dest: inj_onD)

lemma verified_snapshot_state:
  assumes es: "folds_to E (take (Suc n) es) c w" "n < length es" and free: "collision_free E dir es"
    and s: "s \<in> snapshot_files dir" "read_verified_snapshot E s (es ! n) (take (Suc n) es) = Ok s"
  shows "s = c"
proof (rule checksum_view_eqD)
  from s(2) have v: "case_space_checksum E s = replay_checksum (es ! n)"
      "rev_checksum (cs_revision s) = replay_checksum (es ! n)"
    and log: "list_all2 (\<lambda>x y. entry_id x = entry_id y \<and> entry_hash E x = entry_hash E y)
      (morphism_log s) (take (Suc n) es)"
    by (simp_all add: read_verified_iff)
  from folds_to_state [OF es(1)] es(2) have c: "case_space_checksum E c = replay_checksum (es ! n)"
    "rev_checksum (cs_revision c) = replay_checksum (es ! n)" "morphism_log c = take (Suc n) es"
    by (simp_all add: state_of_def take_Suc_conv_app_nth)
  have inj: "inj_on (space_digest E)
      (checksum_view ` (snapshot_files dir \<union> {c. \<exists>k. materialize E (take k es) = Ok c}))"
    "inj_on (entry_hash E) (set es \<union> (\<Union>s \<in> snapshot_files dir. set (morphism_log s)))"
    using free by (simp_all add: collision_free_def)
  have "materialize E (take (Suc n) es) = Ok c" using es(1) by (auto simp: materialize_iff)
  then have "checksum_view c \<in> checksum_view ` (snapshot_files dir \<union> {c. \<exists>k. materialize E (take k es) = Ok c})"
    by blast
  moreover have "checksum_view s \<in> checksum_view ` (snapshot_files dir \<union> {c. \<exists>k. materialize E (take k es) = Ok c})"
    using s(1) by blast
  moreover have "space_digest E (checksum_view s) = space_digest E (checksum_view c)"
    using trans [OF v(1) c(1) [symmetric]] by (simp add: case_space_checksum_def)
  ultimately show "checksum_view s = checksum_view c" using inj(1) by (meson inj_onD)
  have "morphism_log s = take (Suc n) es"
    using s(1) set_take_subset [of "Suc n" es] by (intro same_hashes [OF log inj(2)]) blast+
  with c(3) show "morphism_log s = morphism_log c" by simp
  show "rev_checksum (cs_revision s) = rev_checksum (cs_revision c)" using v c by simp
qed

lemma in_rev_enumerate: "(n, e) \<in> set (rev (List.enumerate 0 es)) \<longleftrightarrow> n < length es \<and> e = es ! n"
  by (auto simp: in_set_enumerate_eq)

lemma replay_case_spaceE:
  assumes "replay_case_space E dir i es = Ok (cs', path)"
  obtains (snapshot) n s where "n < length es"
      "snapshot_at dir (snapshot_name (entry_target_revision_id (es ! n))) = Some s"
      "read_verified_snapshot E s (es ! n) (take (Suc n) es) = Ok s"
      "replay_entries E None s (replay_validation_new s) (drop (Suc n) (List.enumerate 0 es)) = Ok cs'"
  | (genesis) cs0 md where "es \<noteq> []" "empty_case_space_from_genesis E (hd es) = Ok (cs0, md)"
      "replay_entries E (Some md) cs0 (replay_validation_new cs0) (List.enumerate 0 es) = Ok cs'"
proof -
  from assms obtain latest near where ne: "es \<noteq> []"
    and near: "nearest_snapshot E dir i es (rev (List.enumerate 0 es)) = Ok near"
    and rest: "rbind (case near of
              Some (cs, first_unapplied, path) \<Rightarrow> Ok (cs, first_unapplied, Some path, None)
            | None \<Rightarrow> rbind (empty_case_space_from_genesis E (hd es)) (\<lambda>(cs, md).
                Ok (cs, 0, None, Some md))) (\<lambda>(cs, first_unapplied, path, genesis_md).
     rbind (replay_entries E genesis_md cs (replay_validation_new cs)
              (drop first_unapplied (List.enumerate 0 es))) (\<lambda>cs'.
     rbind (validate_materialized_log cs') (\<lambda>_.
     rbind (if first_unapplied < length es then require_replayed_checksum E cs' latest
            else Ok ()) (\<lambda>_.
     Ok (cs', path))))) = Ok (cs', path)"
    unfolding replay_case_space_def by (elim rbindE) (auto simp: latest_entry_def split: if_splits)
  show ?thesis
  proof (cases near)
    case None
    from rest [unfolded None option.case] show ?thesis
      by (elim rbindE) (auto elim!: rbindE intro: genesis [OF ne])
  next
    case (Some t)
    obtain s k p where t: "t = (s, k, p)" by (cases t) auto
    from nearest_snapshot_Some [OF near [unfolded Some t]] obtain n where n: "n < length es" "k = Suc n"
      "snapshot_at dir (snapshot_name (entry_target_revision_id (es ! n))) = Some s"
      "read_verified_snapshot E s (es ! n) (take k es) = Ok s"
      using in_rev_enumerate by fastforce
    from rest [unfolded Some t option.case prod.case]
    have "replay_entries E None s (replay_validation_new s) (drop k (List.enumerate 0 es)) = Ok cs'"
      by (elim rbindE) (auto elim!: rbindE)
    with snapshot n show ?thesis by blast
  qed
qed

lemma replay_is_fold:
  assumes "materialize E es = Ok cs" "collision_free E dir es"
    "replay_case_space E dir i es = Ok (cs', path)"
  shows "cs' = cs"
proof -
  from assms(1) obtain v where f: "folds_to E es cs v" by (auto simp: materialize_iff)
  from assms(3) show ?thesis
  proof (cases rule: replay_case_spaceE)
    case (snapshot n s)
    from folds_to_prefix [OF f, of "Suc n"] snapshot(1) obtain c w where c: "folds_to E (take (Suc n) es) c w"
      and rest: "fold_res (fold_step E None) (c, w) (drop (Suc n) (List.enumerate 0 es)) = Ok (cs, v)"
      by auto
    from snapshot(2) have "s \<in> snapshot_files dir" by (auto simp: snapshot_files_def)
    from verified_snapshot_state [OF c snapshot(1) assms(2) this snapshot(3)] have "s = c" .
    with snapshot(4) obtain v' where
      "fold_res (replay_step E None) (c, replay_validation_new c) (drop (Suc n) (List.enumerate 0 es)) = Ok (cs', v')"
      by (auto simp: replay_entries_iff)
    moreover have inv: "replay_inv (c, w)" using folds_to_state [OF c] by simp
    moreover from inv have "replay_inv (c, replay_validation_new c)"
      by (simp add: replay_inv_def replay_validation_new_def)
    ultimately show ?thesis using replay_deterministic [OF _ inv _ fold_is_replay [OF rest]] by blast
  next
    case (genesis cs0 md)
    from f genesis(2) have "fold_res (fold_step E (Some md)) (cs0, replay_validation_new cs0)
        (List.enumerate 0 es) = Ok (cs, v)" by (auto simp: folds_to_def)
    with fold_is_replay genesis(3) show ?thesis by (fastforce simp: replay_entries_iff)
  qed
qed

end
