(* ===== verification/Store_Reachable.thy ===== *)
theory Store_Reachable
  imports Store_Snapshots
begin

text \<open>
  The invariant of a case directory: its head is the hash of the last entry, its log folds to a valid
  state, the bookkeeping of that fold is the one computed from the state, and every snapshot of
  an entry is the state of the log up to it. A directory in this state can be replayed.
\<close>

section \<open>Ids of a valid space\<close>

lemma collect_entry_pair:
  "collect_entry e (ids, vs) =
     (insert (entry_target_revision_id e) (insert (entry_morphism_id e) (insert (entry_id e) ids))
        \<union> set_option (entry_source_revision_id e),
      vs @ violation_unless (entry_id e \<notin> ids) DuplicateId (entry_id e) ''id''
         @ violation_unless (entry_morphism_id e \<notin> insert (entry_id e) ids) DuplicateId
             (entry_morphism_id e) ''id'')"
  by (auto simp: collect_entry_def insert_id_pair Let_def split: option.splits)

lemma collect_entries_disjoint:
  assumes "snd (fold collect_entry es (ids, vs)) = []"
  shows "log_ids es \<inter> ids = {}"
  using assms
proof (induction es arbitrary: ids vs)
  case Nil
  then show ?case by (simp add: log_ids_def)
next
  case (Cons e es)
  obtain ids' vs' where st: "collect_entry e (ids, vs) = (ids', vs')" by fastforce
  from Cons.prems st have f: "snd (fold collect_entry es (ids', vs')) = []" by simp
  from insert_entries_nil [OF f] have "vs' = []" by simp
  with st have "entry_id e \<notin> ids" "entry_morphism_id e \<notin> ids" "ids \<subseteq> ids'"
    unfolding collect_entry_pair by auto
  with Cons.IH [OF f] show ?case by (auto simp: log_ids_def)
qed

lemma fold_insert_ids: "fst (fold (\<lambda>x. insert_id (k x)) xs st) = fst st \<union> k ` set xs"
  by (induction xs arbitrary: st) (auto simp: insert_id_def case_prod_unfold)

lemma fold_collect_cells: "fst (fold (collect_cell cs) xs st) = fst st \<union> cell_id ` set xs"
proof (induction xs arbitrary: st)
  case (Cons x xs)
  obtain ids vs where "st = (ids, vs)" by fastforce
  with Cons.IH show ?case by (simp add: collect_cell_pair)
qed simp

lemma validated_ids_apart:
  assumes "validate_native_case_space e cs = Ok ()"
  shows "ids_apart cs"
proof -
  from assms have d: "snd (collect_declared_ids cs) = []"
    by (auto simp: validate_native_case_space_def Let_def split: prod.splits if_splits)
  let ?c = "fold (collect_cell cs) (case_cells cs) ({}, [])"
  let ?r = "fold (\<lambda>relation. insert_id (rel_id relation)) (case_relations cs) ?c"
  let ?p = "fold (\<lambda>projection. insert_id (projection_id projection)) (projections cs) ?r"
  let ?v = "insert_id (revision_id (cs_revision cs)) ?p"
  have ids: "fst ?v = materialized_ids cs \<union> projection_id ` set (projections cs)
      \<union> {revision_id (cs_revision cs)}"
    by (auto simp: insert_id_def case_prod_unfold fold_insert_ids fold_collect_cells materialized_ids_def)
  from d have "snd (fold collect_entry (morphism_log cs) (fst ?v, snd ?v)) = []"
    by (simp add: collect_declared_ids_def)
  from collect_entries_disjoint [OF this] ids
  have "log_ids (morphism_log cs) \<inter> (materialized_ids cs \<union> projection_id ` set (projections cs)
      \<union> {revision_id (cs_revision cs)}) = {}" by simp
  moreover from declared_ids_distinct(1) [OF d] have
    "materialized_ids cs \<inter> projection_id ` set (projections cs) = {}"
    "revision_id (cs_revision cs) \<notin> materialized_ids cs \<union> projection_id ` set (projections cs)"
    unfolding materialized_ids_def by auto
  ultimately show ?thesis unfolding ids_apart_def by blast
qed

section \<open>Extending a valid log\<close>

lemma validate_log_loop_append:
  "validate_log_loop E x n prev S M (es @ fs) =
     rbind (validate_log_loop E x n prev S M es) (\<lambda>_.
       validate_log_loop E x (n + length es) (if es = [] then prev else Some (last es))
         (S \<union> entry_id ` set es) (M \<union> entry_morphism_id ` set es) fs)"
proof (induction es arbitrary: n prev S M)
  case Nil
  then show ?case by simp
next
  case (Cons e es)
  have assoc: "rbind (rbind r f) g = rbind r (\<lambda>a. rbind (f a) g)"
    for r :: "unit store_result" and f g by (cases r) simp_all
  show ?case
    by (simp only: append_Cons validate_log_loop.simps assoc Cons.IH)
      (simp add: Un_assoc)
qed

lemma validate_log_snoc:
  assumes "es \<noteq> []"
  shows "validate_log_entries E (Some i) (es @ [e]) = Ok () \<longleftrightarrow>
     validate_log_entries E (Some i) es = Ok () \<and> require_log_entry_contract e = Ok () \<and>
     require_entry_morphism_match e = Ok () \<and>
     require_previous_entry_hash E e (Some (last es)) = Ok () \<and> entry_case_space_id e = i \<and>
     entry_sequence e = length es + 1 \<and>
     entry_source_revision_id e = Some (entry_target_revision_id (last es)) \<and>
     entry_id e \<notin> entry_id ` set es \<and> entry_morphism_id e \<notin> entry_morphism_id ` set es"
  using assms
  by (simp add: validate_log_entries_def validate_log_loop_append rbind_eq_Inr)

lemma validate_log_case_space:
  assumes "validate_log_loop E (Some i) n prev S M es = Ok ()" "e \<in> set es"
  shows "entry_case_space_id e = i"
  using assms by (induction es arbitrary: n prev S M) (auto elim!: rbindE)

section \<open>The invariant of a case directory\<close>

abbreviation clean_fold :: "store_env \<Rightarrow> morphism_log_entry list \<Rightarrow> case_space \<Rightarrow> bool" where
  "clean_fold E es cs \<equiv> folds_to E es cs (replay_validation_new cs)"

definition snapshots_ok :: "store_env \<Rightarrow> case_dir \<Rightarrow> morphism_log_entry list \<Rightarrow> bool" where
  "snapshots_ok E dir es \<longleftrightarrow>
     (\<forall>n < length es. \<forall>s. snapshot_at dir (snapshot_name (entry_target_revision_id (es ! n))) = Some s \<longrightarrow>
        clean_fold E (take (Suc n) es) s \<and> validate_materialized_log s = Ok ())"

text \<open>The log is valid, revisions are not reused, and the state after each entry was valid.\<close>

definition log_ok :: "store_env \<Rightarrow> id \<Rightarrow> morphism_log_entry list \<Rightarrow> case_space \<Rightarrow> bool" where
  "log_ok E i es cs \<longleftrightarrow>
     validate_log_entries E (Some i) es = Ok () \<and> clean_fold E es cs \<and>
     distinct (map entry_target_revision_id es) \<and>
     (\<forall>n < length es. \<exists>c. clean_fold E (take (Suc n) es) c \<and> validate_materialized_log c = Ok ()) \<and>
     validate_materialized_log cs = Ok () \<and> validate_native_case_space (eval_env E) cs = Ok ()"

definition dir_inv :: "store_env \<Rightarrow> id \<Rightarrow> case_dir \<Rightarrow> case_space \<Rightarrow> bool" where
  "dir_inv E i dir cs \<longleftrightarrow>
     dir_log dir = Some (morphism_log cs) \<and>
     dir_head dir = Some (morphism_log_head_of E (last (morphism_log cs))) \<and>
     log_ok E i (morphism_log cs) cs \<and> snapshots_ok E dir (morphism_log cs)"

lemma folds_to_unique:
  assumes "folds_to E es c v" "folds_to E es d w"
  shows "c = d \<and> v = w"
  using assms by (auto simp: folds_to_def)

lemma clean_fold_resume:
  assumes "folds_to E es cs v" "n < length es" "clean_fold E (take (Suc n) es) s"
  shows "fold_res (replay_step E None) (s, replay_validation_new s) (drop (Suc n) (List.enumerate 0 es))
    = Ok (cs, v)"
proof -
  from assms(2) have "Suc n \<le> length es" by simp
  from folds_to_prefix [OF assms(1) zero_less_Suc this] obtain c w where
    c: "folds_to E (take (Suc n) es) c w"
    "fold_res (fold_step E None) (c, w) (drop (Suc n) (List.enumerate 0 es)) = Ok (cs, v)" by blast
  with folds_to_unique [OF c(1) assms(3)] fold_is_replay show ?thesis by auto
qed

lemma log_ok_entry:
  assumes "log_ok E i es cs"
  shows "es \<noteq> []" "morphism_log cs = es" "state_of E cs es" "wf_space cs" "ids_apart cs"
    "\<And>e. e \<in> set es \<Longrightarrow> entry_case_space_id e = i" "case_space_id cs = i"
proof -
  from assms have f: "clean_fold E es cs" and v: "validate_log_entries E (Some i) es = Ok ()"
    by (simp_all add: log_ok_def)
  from folds_to_state [OF f] show st: "state_of E cs es" and wf: "wf_space cs" by (simp_all add: replay_inv_def)
  from st show "es \<noteq> []" "morphism_log cs = es" by (simp_all add: state_of_def)
  from assms show "ids_apart cs" unfolding log_ok_def by (blast intro: validated_ids_apart)
  from v have "validate_log_loop E (Some i) 0 None {} {} es = Ok ()"
    unfolding validate_log_entries_def by (elim rbindE) auto
  then show *: "\<And>e. e \<in> set es \<Longrightarrow> entry_case_space_id e = i" by (rule validate_log_case_space)
  from st * show "case_space_id cs = i" by (auto simp: state_of_def)
qed

lemma verified_prefix:
  assumes "log_ok E i es cs" "n < length es" "clean_fold E (take (Suc n) es) s"
  shows "read_verified_snapshot E s (es ! n) (take (Suc n) es) = Ok s"
proof -
  have l: "last (take (Suc n) es) = es ! n" "take (Suc n) es \<noteq> []" "hd (take (Suc n) es) \<in> set es"
    using assms(2) by (auto simp: take_Suc_conv_app_nth) (metis append_is_Nil_conv assms(2) hd_in_set
        in_set_takeD list.simps(3) take_Suc_conv_app_nth)
  have "entry_case_space_id (hd (take (Suc n) es)) = entry_case_space_id (es ! n)"
    using log_ok_entry(6) [OF assms(1)] l(3) assms(2) by simp
  with folds_to_state [OF assms(3)] l show ?thesis
    by (auto simp: read_verified_iff state_of_def intro: list_all2_refl)
qed

lemma nearest_snapshot_total:
  assumes "log_ok E i es cs" "snapshots_ok E dir es" "set xs \<subseteq> set (List.enumerate 0 es)"
  shows "nearest_snapshot E dir i es xs = Ok None \<or>
     (\<exists>n s path. n < length es \<and> clean_fold E (take (Suc n) es) s \<and>
        nearest_snapshot E dir i es xs = Ok (Some (s, Suc n, path)))"
  using assms(3)
proof (induction xs)
  case (Cons x xs)
  obtain n e where x: "x = (n, e)" by fastforce
  with Cons.prems have n: "n < length es" "e = es ! n" by (auto simp: in_set_enumerate_eq)
  show ?case
  proof (cases "snapshot_at dir (snapshot_name (entry_target_revision_id (es ! n)))")
    case None
    with Cons x n show ?thesis by simp
  next
    case (Some s)
    with assms(2) n have s: "clean_fold E (take (Suc n) es) s" "validate_materialized_log s = Ok ()"
      by (auto simp: snapshots_ok_def)
    with Some x n verified_prefix [OF assms(1) n(1) s(1)] show ?thesis by auto
  qed
qed simp

lemma replay_case_space_ok:
  assumes "log_ok E i es cs" "snapshots_ok E dir es"
  shows "\<exists>path. replay_case_space E dir i es = Ok (cs, path)"
proof -
  note l = log_ok_entry [OF assms(1)]
  from assms(1) have f: "clean_fold E es cs" and v: "validate_materialized_log cs = Ok ()"
    by (simp_all add: log_ok_def)
  have latest: "latest_entry es = Ok (last es)" using l(1) by (simp add: latest_entry_def)
  have check: "require_replayed_checksum E cs (last es) = Ok ()"
    using l(3) by (simp add: require_replayed_checksum_def state_of_def)
  consider "nearest_snapshot E dir i es (rev (List.enumerate 0 es)) = Ok None"
    | n s path where "n < length es" "clean_fold E (take (Suc n) es) s"
      "nearest_snapshot E dir i es (rev (List.enumerate 0 es)) = Ok (Some (s, Suc n, path))"
    using nearest_snapshot_total [OF assms, of "rev (List.enumerate 0 es)"] by auto
  then show ?thesis
  proof cases
    case 1
    from f obtain cs0 md where "empty_case_space_from_genesis E (hd es) = Ok (cs0, md)"
      "fold_res (fold_step E (Some md)) (cs0, replay_validation_new cs0) (List.enumerate 0 es)
        = Ok (cs, replay_validation_new cs)" by (auto simp: folds_to_def)
    moreover from fold_is_replay [OF this(2)]
    have "replay_entries E (Some md) cs0 (replay_validation_new cs0) (List.enumerate 0 es) = Ok cs"
      unfolding replay_entries_iff by blast
    ultimately show ?thesis using 1 latest check v l(1) by (simp add: replay_case_space_def)
  next
    case 2
    from clean_fold_resume [OF f 2(1,2)]
    have "replay_entries E None s (replay_validation_new s) (drop (Suc n) (List.enumerate 0 es)) = Ok cs"
      unfolding replay_entries_iff by blast
    then show ?thesis using 2(3) latest check v by (simp add: replay_case_space_def)
  qed
qed

lemma head_ok: "require_log_head E (Some (morphism_log_head_of E e)) e = Ok ()"
  by (simp add: require_log_head_def morphism_log_head_of_def)

lemma history_entries_ok:
  assumes "dir_inv E i dir cs"
  shows "history_entries E dir i = Ok (morphism_log cs)"
proof -
  from assms have l: "log_ok E i (morphism_log cs) cs" by (simp add: dir_inv_def)
  from log_ok_entry(1) [OF l] assms show ?thesis
    by (simp add: history_entries_def read_history_entries_def dir_inv_def log_ok_def latest_entry_def head_ok)
qed

definition replay_of :: "case_space \<Rightarrow> case_space_replay" where
  "replay_of cs =
     \<lparr>rp_case_space_id = case_space_id cs, rp_space_id = space_id cs,
      rp_current_revision_id = revision_id (cs_revision cs), rp_case_space = cs,
      rp_history = morphism_log cs\<rparr>"

lemma replay_current_ok:
  assumes "dir_inv E i dir cs"
  shows "replay_current_case_space E dir i = Ok (replay_of cs)"
proof -
  from assms have l: "log_ok E i (morphism_log cs) cs" "snapshots_ok E dir (morphism_log cs)"
    by (simp_all add: dir_inv_def)
  note e = log_ok_entry [OF l(1)]
  from e(1) have "latest_entry (morphism_log cs) = Ok (last (morphism_log cs))"
    by (simp add: latest_entry_def)
  moreover have "entry_case_space_id (last (morphism_log cs)) = case_space_id cs"
    using e(1,6,7) by simp
  moreover have "entry_target_revision_id (last (morphism_log cs)) = revision_id (cs_revision cs)"
    using e(3) by (simp add: state_of_def)
  ultimately show ?thesis
    using history_entries_ok [OF assms] replay_case_space_ok [OF l]
    by (auto simp: replay_current_case_space_def replay_of_def)
qed

end
