(* ===== verification/Store_Append.thy ===== *)
theory Store_Append
  imports Store_Reachable
begin

text \<open>
  Import establishes the invariant of a case directory and append keeps it, under the two conditions
  on the appended entry that \<open>replay_safe\<close> names.
\<close>

section \<open>References the replay checks\<close>

text \<open>
  The writer checks the relations of the resulting state, which knows the entry's own ids; the replay
  checks them before it has added those ids.
\<close>

definition own_ids_unreferenced :: "store_env \<Rightarrow> morphism_log_entry \<Rightarrow> bool" where
  "own_ids_unreferenced E entry \<longleftrightarrow>
     (case morphism_payload_of (decoder E) (entry_morphism entry) of
        Inl _ \<Rightarrow> True
      | Inr p \<Rightarrow> list_all (\<lambda>r. list_all (\<lambda>i. i \<notin> {entry_id entry, entry_morphism_id entry,
            entry_target_revision_id entry}) (rel_evidence_ids r))
          (added_relations p @ updated_relations p))"

definition replay_safe :: "store_env \<Rightarrow> case_space \<Rightarrow> morphism_log_entry \<Rightarrow> bool" where
  "replay_safe E cs entry \<longleftrightarrow> keeps_known_ids cs entry \<and> own_ids_unreferenced E entry"

lemma require_referenced_iff [simp]:
  "require_referenced_ids ids refs = Ok u \<longleftrightarrow> set refs \<subseteq> ids"
  by (auto simp: require_referenced_ids_def each_res_eq_Inr)

lemma require_referenced_if_any_iff [simp]:
  "require_referenced_ids_if_any ids refs = Ok u \<longleftrightarrow> set refs \<subseteq> ids"
  by (auto simp: require_referenced_ids_if_any_def)

lemma ids_exist_relations:
  assumes "validate_materialized_log cs = Ok ()" "r \<in> set (case_relations cs)"
  shows "set (rel_evidence_ids r) \<subseteq> known_ids cs"
proof -
  from assms(1) have "require_ids_exist cs = Ok ()"
    unfolding validate_materialized_log_def Let_def by (elim rbindE)
  with assms(2) show ?thesis
    unfolding require_ids_exist_def Let_def
    by (elim rbindE) (force simp: each_res_eq_Inr elim!: rbindE)
qed

lemma payload_relations_present:
  assumes "wf_space cs" "payload_matches m p" "admissible cs m p"
    "r \<in> set (added_relations p @ updated_relations p)"
  shows "r \<in> set (case_relations (reduced_space m p cs))"
    "rel_from_id r \<in> materialized_ids (reduced_space m p cs)"
    "rel_to_id r \<in> materialized_ids (reduced_space m p cs)"
proof -
  let ?cs = "reduced_space m p cs" and ?base = "case_relations cs @ added_relations p"
  note d = payload_disjoint [OF assms(2)]
  have kept: "rel_id r \<notin> set (mor_retired_ids m)" using assms(4) d by auto
  have "r \<in> set (overlay rel_id (updated_relations p) ?base)"
  proof (cases "r \<in> set (updated_relations p)")
    case True
    then obtain e where e: "e \<in> set (case_relations cs)" "rel_id e = rel_id r"
      using assms(3) by (auto simp: admissible_def Let_def relation_identity_def)
    have "find (\<lambda>u. rel_id u = rel_id e) (updated_relations p) = Some r"
      using find_key_distinct [of rel_id "updated_relations p" r] True e(2) d by simp
    with e show ?thesis by (force simp: overlay_def)
  next
    case False
    with assms(4) have "r \<in> set (added_relations p)" by simp
    moreover from this have "find (\<lambda>u. rel_id u = rel_id r) (updated_relations p) = None"
      using d by (auto simp: find_key_None)
    ultimately show ?thesis by (force simp: overlay_def)
  qed
  with kept show r: "r \<in> set (case_relations ?cs)" by (simp add: reduced_space_def reduced_relations_def)
  have ids: "rel_from_id r \<in> cell_id ` set (case_cells cs @ added_cells p) \<and>
      rel_to_id r \<in> cell_id ` set (case_cells cs @ added_cells p)"
    using kept_relation_endpoints [OF assms(1,2), of "set (map cell_id (case_cells cs @ added_cells p))"]
      assms(3) r by (simp add: admissible_def Let_def reduced_space_def image_Un)
  then show "rel_from_id r \<in> materialized_ids ?cs" "rel_to_id r \<in> materialized_ids ?cs"
    by (auto simp: materialized_ids_def reduced_space_def image_Un)
qed

lemma checked_payload_decoded:
  "checked_payload decode m = Inr p \<Longrightarrow> morphism_payload_of decode m = Inr p"
  unfolding checked_payload_def by (elim rbindE) (auto elim!: rbindE split: prod.splits)

lemma entry_payload:
  assumes "morphism_payload_of (decoder E) m = Inr p"
  shows "(case fmlookup (mor_metadata m) ''payload'' of
      Some v \<Rightarrow> map_err (\<lambda>e. InvalidMorphismEntry (MalformedPayload e)) (decoder E v)
    | None \<Rightarrow> Ok default_payload) = Ok p"
  using assms by (auto simp: morphism_payload_of_def split: option.splits)

lemma append_references:
  assumes wf: "wf_space cs" and ap: "apply_bounded_morphism E cs entry = Ok cs1"
    and next_ok: "validate_materialized_log (push_entry cs1 entry fmempty) = Ok ()"
    and own: "own_ids_unreferenced E entry" and later: "entry_sequence entry \<noteq> 1"
  shows "apply_morphism (decoder E) cs (entry_morphism entry) = Inr cs1"
    "require_entry_references E (known_ids cs1) cs1 entry = Ok ()"
proof -
  let ?m = "entry_morphism entry" and ?next = "push_entry cs1 entry fmempty"
  from ap have a: "apply_morphism (decoder E) cs ?m = Inr cs1"
    and refs: "set (mor_preserved_ids ?m) \<subseteq> known_ids cs1" "set (mor_evidence_ids ?m) \<subseteq> known_ids cs1"
    by (auto simp: apply_bounded_morphism_def Let_def require_referenced_ids_exist_def
        elim!: rbindE split: if_splits)
  then show "apply_morphism (decoder E) cs ?m = Inr cs1" by simp
  from wf a obtain p where p: "payload_matches ?m p" "admissible cs ?m p" "cs1 = reduced_space ?m p cs"
    "checked_payload (decoder E) ?m = Inr p" by (rule apply_morphismE) blast
  have dec: "morphism_payload_of (decoder E) ?m = Inr p" using p(4) by (rule checked_payload_decoded)
  have known: "known_ids ?next \<subseteq> known_ids cs1 \<union> {entry_id entry, entry_morphism_id entry,
      entry_target_revision_id entry}"
    by (auto simp: known_ids_eq log_ids_def)
  have rel: "set [rel_from_id r, rel_to_id r] \<subseteq> known_ids cs1 \<and> set (rel_evidence_ids r) \<subseteq> known_ids cs1"
    if r: "r \<in> set (added_relations p @ updated_relations p)" for r
  proof -
    note pr = payload_relations_present [OF wf p(1,2) r, folded p(3)]
    have "set (rel_evidence_ids r) \<subseteq> known_ids ?next"
      using ids_exist_relations [OF next_ok] pr(1) by simp
    moreover have "set (rel_evidence_ids r) \<inter> {entry_id entry, entry_morphism_id entry,
        entry_target_revision_id entry} = {}"
      using own dec r by (auto simp: own_ids_unreferenced_def list_all_iff)
    ultimately show ?thesis using known pr(2,3) by (auto simp: known_ids_eq)
  qed
  have "each_res (\<lambda>relation.
          rbind (require_referenced_ids (known_ids cs1) [rel_from_id relation, rel_to_id relation]) (\<lambda>_.
          require_referenced_ids_if_any (known_ids cs1) (rel_evidence_ids relation)))
        (added_relations p @ updated_relations p) = Ok ()"
    using rel by (auto simp: each_res_eq_Inr rbind_eq_Inr)
  then show "require_entry_references E (known_ids cs1) cs1 entry = Ok ()"
    unfolding require_entry_references_def Let_def entry_payload [OF dec]
    using refs later by (simp add: rbind_eq_Inr)
qed

section \<open>Append keeps the invariant\<close>

lemma append_candidateE:
  assumes "append_candidate E dir i entry allow = Ok next" "replay_current_case_space E dir i = Ok (replay_of cs)"
  obtains cs1 where "require_valid_operation_gate E cs entry = Ok ()"
    "validate_append E cs entry (morphism_log cs) = Ok ()"
    "apply_bounded_morphism E cs entry = Ok cs1" "next = push_entry cs1 entry fmempty"
    "replay_checksum entry = case_space_checksum E next" "validate_materialized_log next = Ok ()"
    "validate_native_case_space (eval_env E) next = Ok ()"
  using assms
  by (auto simp: append_candidate_def replay_of_def Let_def elim!: rbindE)

lemma validate_append_log:
  assumes "validate_append E cs entry es = Ok ()" "log_ok E i es cs"
  shows "validate_log_entries E (Some i) (es @ [entry]) = Ok ()" "entry_sequence entry = Suc (length es)"
    "entry_target_revision_id entry \<notin> entry_target_revision_id ` set es"
proof -
  note l = log_ok_entry [OF assms(2)]
  from assms(1) l(1) have v: "require_log_entry_contract entry = Ok ()" "require_entry_morphism_match entry = Ok ()"
    "entry_case_space_id entry = case_space_id cs"
    "entry_source_revision_id entry = Some (revision_id (cs_revision cs))"
    "entry_sequence entry = length es + 1" "require_previous_entry_hash E entry (Some (last es)) = Ok ()"
    "\<not> list_ex (\<lambda>x. entry_target_revision_id x = entry_target_revision_id entry) es"
    "\<not> list_ex (\<lambda>x. entry_id x = entry_id entry) es"
    "\<not> list_ex (\<lambda>x. entry_morphism_id x = entry_morphism_id entry) es"
    unfolding validate_append_def by (auto elim!: rbindE)
  from v(5) show "entry_sequence entry = Suc (length es)" by simp
  from v(7) show "entry_target_revision_id entry \<notin> entry_target_revision_id ` set es"
    by (auto simp: list_ex_iff)
  from v(8,9) have "entry_id entry \<notin> entry_id ` set es" "entry_morphism_id entry \<notin> entry_morphism_id ` set es"
    by (auto simp: list_ex_iff)
  with v l(3,7) assms(2) show "validate_log_entries E (Some i) (es @ [entry]) = Ok ()"
    unfolding validate_log_snoc [OF l(1)] by (simp add: log_ok_def state_of_def)
qed

lemma append_candidate_ok:
  assumes inv: "dir_inv E i dir cs" and cand: "append_candidate E dir i entry allow = Ok next"
    and safe: "replay_safe E cs entry"
  shows "log_ok E i (morphism_log cs @ [entry]) next" "morphism_log next = morphism_log cs @ [entry]"
    "entry_target_revision_id entry \<notin> entry_target_revision_id ` set (morphism_log cs)"
    "case_space_id next = i" "revision_id (cs_revision next) = entry_target_revision_id entry"
proof -
  let ?es = "morphism_log cs"
  from inv have lo: "log_ok E i ?es cs" by (simp add: dir_inv_def)
  note l = log_ok_entry [OF lo]
  from append_candidateE [OF cand replay_current_ok [OF inv]] obtain cs1 where
    va: "validate_append E cs entry ?es = Ok ()" and ap: "apply_bounded_morphism E cs entry = Ok cs1"
    and nx: "next = push_entry cs1 entry fmempty" and ck: "replay_checksum entry = case_space_checksum E next"
    and ml: "validate_materialized_log next = Ok ()"
    and nv: "validate_native_case_space (eval_env E) next = Ok ()" by blast
  note vl = validate_append_log [OF va lo]
  have "entry_sequence entry \<noteq> 1" using vl(2) l(1) by simp
  with append_references [OF l(4) ap ml [unfolded nx]] safe
  have a: "apply_morphism (decoder E) cs (entry_morphism entry) = Inr cs1"
    and r: "require_entry_references E (known_ids cs1) cs1 entry = Ok ()"
    by (auto simp: replay_safe_def)
  note known = applied_known_ids [OF l(4,5) a]
  have new: "replay_validation_new next = \<lparr>rv_known_ids = (known_ids cs1 - {revision_id (cs_revision cs)})
      \<union> {entry_id entry, entry_morphism_id entry, entry_target_revision_id entry},
      application_index = index_new cs1\<rparr>"
    using replayed_known_ids [OF l(4,5) a, of fmempty] safe
    by (simp add: replay_validation_new_def nx replay_safe_def)
  have inv0: "replay_inv (cs, replay_validation_new cs)" using l(4) by simp
  have kn: "update_materialized_ids (rv_known_ids (replay_validation_new cs)) cs1 entry = known_ids cs1"
    using known by (simp add: replay_validation_new_def)
  have "replay_step E None (cs, replay_validation_new cs) (length ?es, entry) = Ok (next, replay_validation_new next)"
    unfolding replay_step_iff [OF inv0]
    by (rule exI [of _ cs1]) (simp add: kn a r nx new [unfolded nx])
  with ck have "fold_step E None (cs, replay_validation_new cs) (length ?es, entry) = Ok (next, replay_validation_new next)"
    by (simp add: fold_step_iff)
  with lo l(1) have "clean_fold E (?es @ [entry]) next" by (auto simp: folds_to_snoc log_ok_def)
  moreover from this lo ml have "\<exists>c. clean_fold E (take (Suc n) (?es @ [entry])) c \<and>
      validate_materialized_log c = Ok ()" if "n < length (?es @ [entry])" for n
    using that by (cases "n < length ?es") (auto simp: log_ok_def not_less less_Suc_eq_le)
  ultimately show "log_ok E i (?es @ [entry]) next"
    using vl(1,3) ml nv lo by (simp add: log_ok_def)
  show "morphism_log next = ?es @ [entry]" using nx apply_morphism_keeps [OF l(4) a] by simp
  show "entry_target_revision_id entry \<notin> entry_target_revision_id ` set ?es" by (rule vl(3))
  show "case_space_id next = i" "revision_id (cs_revision next) = entry_target_revision_id entry"
    using nx apply_morphism_keeps [OF l(4) a] l(7) by simp_all
qed

lemma snapshots_ok_extend:
  assumes "snapshots_ok E dir es" "log_ok E i (es @ [entry]) next"
    "entry_target_revision_id entry \<notin> entry_target_revision_id ` set es"
    "\<And>name. name \<noteq> snapshot_name (entry_target_revision_id entry) \<Longrightarrow>
       snapshot_at dir' name = snapshot_at dir name"
    "snapshot_at dir' (snapshot_name (entry_target_revision_id entry)) \<in> {None, Some next}"
  shows "snapshots_ok E dir' (es @ [entry])"
  unfolding snapshots_ok_def
proof (intro allI impI)
  fix n s
  assume n: "n < length (es @ [entry])"
    and s: "snapshot_at dir' (snapshot_name (entry_target_revision_id ((es @ [entry]) ! n))) = Some s"
  show "clean_fold E (take (Suc n) (es @ [entry])) s \<and> validate_materialized_log s = Ok ()"
  proof (cases "n < length es")
    case True
    then have "entry_target_revision_id (es ! n) \<noteq> entry_target_revision_id entry"
      using assms(3) by (metis imageI nth_mem)
    with s True assms(4) have "snapshot_at dir (snapshot_name (entry_target_revision_id (es ! n))) = Some s"
      by (simp add: nth_append)
    with True assms(1) show ?thesis by (simp add: snapshots_ok_def)
  next
    case False
    with n have "n = length es" by simp
    with s assms(5) have "s = next" by auto
    with \<open>n = length es\<close> assms(2) show ?thesis by (simp add: log_ok_def)
  qed
qed

lemma append_planE:
  assumes "append_plan E dir i entry allow = Ok (next, ws, near)"
  obtains "append_candidate E dir i entry allow = Ok next"
    "ws = (if snapshot_required (entry_sequence entry)
             then [WriteSnapshot (snapshot_name (revision_id (cs_revision next))) next] else [])
           @ [AppendEntry entry, WriteHead (morphism_log_head_of E entry)]"
    "snapshot_at dir (snapshot_name (revision_id (cs_revision next))) \<in> {None, Some next}"
    "snapshot_required (entry_sequence entry) \<Longrightarrow>
       snapshot_at dir (snapshot_name (revision_id (cs_revision next))) = None"
proof (cases "snapshot_required (entry_sequence entry)")
  case True
  with assms that show ?thesis by (auto simp: append_plan_def Let_def elim!: rbindE)
next
  case False
  with assms obtain ex where "append_candidate E dir i entry allow = Ok next"
    "ws = [AppendEntry entry, WriteHead (morphism_log_head_of E entry)]"
    "require_existing_snapshot_agrees_with_candidate E
       (snapshot_at dir (snapshot_name (revision_id (cs_revision next)))) entry next = Ok ex"
    by (auto simp: append_plan_def Let_def elim!: rbindE)
  with False that show ?thesis
    by (auto simp: require_existing_snapshot_agrees_with_candidate_def read_verified_iff
        elim!: rbindE split: option.splits)
qed

lemma perform_writes_simps [simp]:
  "perform_writes [] dir = dir"
  "perform_writes (w # ws) dir = perform_writes ws (perform_write dir w)"
  by (simp_all add: perform_writes_def)

lemma snapshot_at_simps [simp]:
  "snapshot_at (dir\<lparr>dir_log := l\<rparr>) = snapshot_at dir" "snapshot_at (dir\<lparr>dir_head := h\<rparr>) = snapshot_at dir"
  "snapshot_at (dir\<lparr>dir_snapshots := fmupd name s (dir_snapshots dir)\<rparr>) = (snapshot_at dir)(name \<mapsto> s)"
  by (auto simp: snapshot_at_def)

lemma append_keeps_inv:
  assumes inv: "dir_inv E i dir cs" and plan: "append_plan E dir i entry allow = Ok (next, ws, near)"
    and safe: "replay_safe E cs entry"
  shows "dir_inv E i (perform_writes ws dir) next"
proof -
  from plan have cand: "append_candidate E dir i entry allow = Ok next"
    and ws: "ws = (if snapshot_required (entry_sequence entry)
             then [WriteSnapshot (snapshot_name (revision_id (cs_revision next))) next] else [])
           @ [AppendEntry entry, WriteHead (morphism_log_head_of E entry)]"
    and sn: "snapshot_at dir (snapshot_name (revision_id (cs_revision next))) \<in> {None, Some next}"
    by (auto elim: append_planE)
  note c = append_candidate_ok [OF inv cand safe]
  let ?dir = "perform_writes ws dir"
  from inv have files: "dir_log ?dir = Some (morphism_log cs @ [entry])"
    "dir_head ?dir = Some (morphism_log_head_of E entry)"
    by (simp_all add: ws dir_inv_def)
  have "snapshots_ok E ?dir (morphism_log cs @ [entry])"
  proof (rule snapshots_ok_extend [OF _ c(1,3)])
    show "snapshots_ok E dir (morphism_log cs)" using inv by (simp add: dir_inv_def)
    show "snapshot_at ?dir name = snapshot_at dir name"
      if "name \<noteq> snapshot_name (entry_target_revision_id entry)" for name
      using that by (simp add: ws c(5))
    show "snapshot_at ?dir (snapshot_name (entry_target_revision_id entry)) \<in> {None, Some next}"
      using sn by (simp add: ws c(5))
  qed
  with files c show ?thesis by (simp add: dir_inv_def)
qed

section \<open>Import establishes the invariant\<close>

lemma genesis_known_ids:
  assumes f: "folds_to E [e] cs v"
  shows "v = replay_validation_new cs"
proof -
  from f obtain cs0 md where g: "empty_case_space_from_genesis E e = Ok (cs0, md)"
    and s: "replay_step E (Some md) (cs0, replay_validation_new cs0) (0, e) = Ok (cs, v)"
    by (auto simp: folds_to_single fold_step_iff)
  note z = empty_case_space_simps [OF g]
  then have inv: "replay_inv (cs0, replay_validation_new cs0)" by simp
  from s [unfolded replay_step_iff [OF inv]] obtain cs1 where
    a: "apply_morphism (decoder E) cs0 (entry_morphism e) = Inr cs1"
    and c: "cs = push_entry cs1 e md"
    and v: "v = \<lparr>rv_known_ids = (update_materialized_ids (known_ids cs0) cs1 e - {revision_id (cs_revision cs0)})
        \<union> {entry_id e, entry_morphism_id e, entry_target_revision_id e}, application_index = index_new cs1\<rparr>"
    by (auto simp: replay_validation_new_def)
  note k = apply_morphism_keeps [OF z(7) a] and i = apply_morphism_ids [OF z(7) a]
  have "materialized_ids cs0 = {}" by (simp add: materialized_ids_def z)
  with i have "materialized_ids cs1 = set (mor_added_ids (entry_morphism e))" "mor_retired_ids (entry_morphism e) = []"
    by auto
  then have "update_materialized_ids (known_ids cs0) cs1 e = known_ids cs1"
    unfolding update_materialized_ids_eq known_ids_eq k by (auto simp: \<open>materialized_ids cs0 = {}\<close>)
  moreover have "revision_id (cs_revision cs0) = entry_target_revision_id e" by (simp add: z)
  ultimately show ?thesis
    by (auto simp: v c replay_validation_new_def known_ids_eq k z log_ids_def)
qed

lemma import_inv:
  assumes "require_importable E cs = Ok ()" "case_space_id cs = i"
  shows "dir_inv E i (perform_writes (new_case_writes E cs) empty_dir) cs"
proof -
  from assms(1) have im: "require_importable_materialized_log E cs = Ok ()"
    and ml: "validate_materialized_log cs = Ok ()"
    and nv: "validate_native_case_space (eval_env E) cs = Ok ()"
    and mt: "materialize E (morphism_log cs) = Ok cs"
    unfolding require_importable_def by (auto elim!: rbindE)
  from im obtain e where log: "morphism_log cs = [e]"
    by (auto simp: require_importable_materialized_log_def split: list.splits)
  from mt log obtain v where f: "folds_to E [e] cs v" by (auto simp: materialize_iff)
  with genesis_known_ids have cf: "clean_fold E [e] cs" by blast
  from folds_to_state [OF f] assms(2) have "entry_case_space_id e = i" by (simp add: state_of_def)
  with im log have "validate_log_entries E (Some i) [e] = Ok ()"
    by (auto simp: require_importable_materialized_log_def validate_log_entries_def rbind_eq_Inr)
  with cf ml nv have lo: "log_ok E i [e] cs" by (auto simp: log_ok_def)
  let ?dir = "perform_writes (new_case_writes E cs) empty_dir"
  have dir: "dir_log ?dir = Some [e]" "dir_head ?dir = Some (morphism_log_head_of E e)"
    by (simp_all add: new_case_writes_def log empty_dir_def)
  have rev: "revision_id (cs_revision cs) = entry_target_revision_id e"
    using folds_to_state [OF f] by (simp add: state_of_def)
  have "snapshots_ok E ?dir [e]"
    using lo by (auto simp: snapshots_ok_def new_case_writes_def log rev log_ok_def)
  with dir lo log show ?thesis by (simp add: dir_inv_def)
qed

end
