(* ===== verification/Store_Rebuild.thy ===== *)
theory Store_Rebuild
  imports Store_Append
begin

text \<open>
  Validation and rebuild of a case directory in the state the invariant describes: both succeed, and a
  rebuild restores the head that a crash between the two last writes of an append leaves behind.
\<close>

section \<open>Folding with a visitor\<close>

lemma fold_log_loop_visit:
  assumes "fold_res (fold_step E (Some md)) (cs, v) (List.enumerate n es) = Ok (cs', v')"
    and "\<And>j c w acc. j < length es \<Longrightarrow>
       fold_res (fold_step E (Some md)) (cs, v) (List.enumerate n (take (Suc j) es)) = Ok (c, w) \<Longrightarrow> I j acc \<Longrightarrow>
       \<exists>acc'. visit (n + j) (es ! j) (folded_revision_of E (es ! j) c) c acc = (acc', Ok ()) \<and> I (Suc j) acc'"
    and "I 0 acc"
  shows "\<exists>acc'. fold_log_loop E md visit n cs v acc es = (acc', Ok cs') \<and> I (length es) acc'"
  using assms
proof (induction es arbitrary: n cs v acc I)
  case Nil
  then show ?case by simp
next
  case (Cons e es)
  from Cons.prems(1) obtain c w where s: "fold_step E (Some md) (cs, v) (n, e) = Ok (c, w)"
    and rest: "fold_res (fold_step E (Some md)) (c, w) (List.enumerate (Suc n) es) = Ok (cs', v')"
    by (auto simp: enumerate_simps elim!: rbindE)
  have "\<exists>acc'. visit n e (folded_revision_of E e c) c acc = (acc', Ok ()) \<and> I 1 acc'"
    using Cons.prems(2) [of 0 c w acc] Cons.prems(3) s by (simp add: enumerate_simps)
  then obtain acc1 where v1: "visit n e (folded_revision_of E e c) c acc = (acc1, Ok ())" "I 1 acc1" by blast
  have "\<exists>acc'. fold_log_loop E md visit (Suc n) c w acc1 es = (acc', Ok cs') \<and> I (Suc (length es)) acc'"
  proof (rule Cons.IH [OF rest, of "\<lambda>j. I (Suc j)"])
    show "\<exists>acc'. visit (Suc n + j) (es ! j) (folded_revision_of E (es ! j) d) d a = (acc', Ok ()) \<and> I (Suc (Suc j)) acc'"
      if "j < length es" "fold_res (fold_step E (Some md)) (c, w) (List.enumerate (Suc n) (take (Suc j) es)) = Ok (d, u)"
        "I (Suc j) a" for j d u a
      using Cons.prems(2) [of "Suc j" d u a] that s by (simp add: enumerate_simps)
    show "I (Suc 0) acc1" using v1(2) by simp
  qed
  moreover from s have "apply_replayed_entry E (if n = 0 then Some md else None) e cs v = Ok (c, w)"
    "require_fold_checksum (folded_revision_of E e c) = Ok ()"
    by (auto simp: fold_step_def replay_step_def elim!: rbindE)
  ultimately show ?case using v1(1) by (simp add: Let_def)
qed

lemma fold_morphism_log_visit:
  assumes "folds_to E es cs v"
    and "\<And>j c w acc. j < length es \<Longrightarrow> folds_to E (take (Suc j) es) c w \<Longrightarrow> I j acc \<Longrightarrow>
       \<exists>acc'. visit j (es ! j) (folded_revision_of E (es ! j) c) c acc = (acc', Ok ()) \<and> I (Suc j) acc'"
    and "I 0 acc"
  shows "\<exists>acc'. fold_morphism_log E es visit acc = (acc', Ok cs) \<and> I (length es) acc'"
proof -
  from assms(1) obtain cs0 md where g: "empty_case_space_from_genesis E (hd es) = Ok (cs0, md)"
    and f: "fold_res (fold_step E (Some md)) (cs0, replay_validation_new cs0) (List.enumerate 0 es) = Ok (cs, v)"
    and ne: "es \<noteq> []" by (auto simp: folds_to_def)
  have pre: "folds_to E (take (Suc j) es) c w"
    if "fold_res (fold_step E (Some md)) (cs0, replay_validation_new cs0) (List.enumerate 0 (take (Suc j) es)) = Ok (c, w)"
    for j c w using that g ne by (auto simp: folds_to_def)
  have "\<exists>acc'. fold_log_loop E md visit 0 cs0 (replay_validation_new cs0) acc es = (acc', Ok cs) \<and> I (length es) acc'"
  proof (rule fold_log_loop_visit [OF f])
    show "I 0 acc" by (rule assms(3))
    show "\<exists>acc'. visit (0 + j) (es ! j) (folded_revision_of E (es ! j) c) c a = (acc', Ok ()) \<and> I (Suc j) acc'"
      if "j < length es" "fold_res (fold_step E (Some md)) (cs0, replay_validation_new cs0)
          (List.enumerate 0 (take (Suc j) es)) = Ok (c, w)" "I j a" for j c w a
      using assms(2) [OF that(1) pre [OF that(2)] that(3)] by simp
  qed
  with g ne show ?thesis by (cases es) (auto simp: fold_morphism_log_def)
qed

section \<open>Snapshots agree with the fold\<close>

lemma snapshot_check_ok:
  assumes "log_ok E i es cs" "snapshots_ok E dir es" "n < length es"
    "snapshot_at dir (snapshot_name (entry_target_revision_id (es ! n))) = Some s" "folds_to E (take (Suc n) es) c w"
  shows "check_snapshot_against_fold E dir es n (es ! n) (folded_revision_of E (es ! n) c) c s = Ok ()"
proof -
  from assms(2-4) have s: "clean_fold E (take (Suc n) es) s" by (simp add: snapshots_ok_def)
  with folds_to_unique [OF s assms(5)] verified_prefix [OF assms(1,3) s] show ?thesis
    by (simp add: check_snapshot_against_fold_def require_snapshot_agrees_with_fold_def map_err_def)
qed

lemma validate_case_space_ok:
  assumes "dir_inv E i dir cs"
  shows "validate_case_space E dir i =
    Ok \<lparr>va_case_space_id = i, va_current_revision_id = revision_id (cs_revision cs),
        va_history_entry_count = length (morphism_log cs), va_valid = True\<rparr>"
proof -
  let ?es = "morphism_log cs"
  from assms have l: "log_ok E i ?es cs" "snapshots_ok E dir ?es" by (simp_all add: dir_inv_def)
  have "\<exists>acc'. fold_morphism_log E ?es (require_existing_snapshot_agrees_with_fold E dir ?es) () = (acc', Ok cs) \<and> True"
  proof (rule fold_morphism_log_visit [where I = "\<lambda>_ _. True"])
    show "folds_to E ?es cs (replay_validation_new cs)" using l(1) by (simp add: log_ok_def)
    show "\<exists>acc'. require_existing_snapshot_agrees_with_fold E dir ?es j (?es ! j)
        (folded_revision_of E (?es ! j) c) c acc = (acc', Ok ()) \<and> True"
      if "j < length ?es" "folds_to E (take (Suc j) ?es) c w" for j c w acc
      using snapshot_check_ok [OF l that(1) _ that(2)]
      by (auto simp: require_existing_snapshot_agrees_with_fold_def split: option.splits)
  qed simp
  then show ?thesis
    using replay_current_ok [OF assms] log_ok_entry(7) [OF l(1)]
    by (auto simp: validate_case_space_def replay_of_def)
qed

section \<open>Rebuild\<close>

definition absent :: "case_dir \<Rightarrow> morphism_log_entry list \<Rightarrow> nat \<Rightarrow> bool" where
  "absent dir es n \<longleftrightarrow> snapshot_at dir (snapshot_name (entry_target_revision_id (es ! n))) = None"

lemma rebuild_reports:
  assumes "log_ok E i es cs" "snapshots_ok E dir es"
  shows "\<exists>reports missing. fold_morphism_log E es (rebuild_visit E dir i es) ([], {}) = ((reports, missing), Ok cs)
    \<and> length reports = length es \<and> (\<forall>n \<in> missing. n < length es \<and> absent dir es n)"
proof -
  let ?I = "\<lambda>j acc. length (fst acc) = j \<and> (\<forall>n \<in> snd acc. n < j \<and> absent dir es n)"
  have "\<exists>acc'. fold_morphism_log E es (rebuild_visit E dir i es) ([], {}) = (acc', Ok cs) \<and> ?I (length es) acc'"
  proof (rule fold_morphism_log_visit [where I = ?I])
    show "folds_to E es cs (replay_validation_new cs)" using assms(1) by (simp add: log_ok_def)
    show "\<exists>acc'. rebuild_visit E dir i es j (es ! j) (folded_revision_of E (es ! j) c) c acc = (acc', Ok ()) \<and> ?I (Suc j) acc'"
      if "j < length es" "folds_to E (take (Suc j) es) c w" "?I j acc" for j c w acc
      using snapshot_check_ok [OF assms that(1) _ that(2)] that(3)
      by (auto simp: rebuild_visit_def Let_def absent_def less_Suc_eq split: option.splits prod.splits)
  qed simp
  then show ?thesis by auto
qed

definition rewritten :: "store_env \<Rightarrow> morphism_log_entry list \<Rightarrow> case_dir \<Rightarrow> nat \<Rightarrow> case_dir \<Rightarrow> bool" where
  "rewritten E es dir j d \<longleftrightarrow> dir_log d = dir_log dir \<and> dir_head d = dir_head dir \<and>
     (\<forall>name s. snapshot_at d name = Some s \<longrightarrow> snapshot_at dir name = Some s \<or>
        (\<exists>k < j. name = snapshot_name (entry_target_revision_id (es ! k)) \<and>
           (\<exists>w. folds_to E (take (Suc k) es) s w)))"

lemma rewrite_ok:
  assumes "log_ok E i es cs" "\<forall>n \<in> missing. n < length es \<and> absent dir es n"
  shows "\<exists>d. fold_morphism_log E es (rewrite_visit missing) dir = (d, Ok cs) \<and> rewritten E es dir (length es) d"
proof (rule fold_morphism_log_visit)
  from assms(1) have dist: "distinct (map entry_target_revision_id es)" by (simp add: log_ok_def)
  show "folds_to E es cs (replay_validation_new cs)" using assms(1) by (simp add: log_ok_def)
  show "rewritten E es dir 0 dir" by (simp add: rewritten_def)
  fix j c w d
  assume j: "j < length es" and f: "folds_to E (take (Suc j) es) c w" and I: "rewritten E es dir j d"
  let ?name = "snapshot_name (entry_target_revision_id (es ! j))"
  show "\<exists>d'. rewrite_visit missing j (es ! j) (folded_revision_of E (es ! j) c) c d = (d', Ok ()) \<and>
      rewritten E es dir (Suc j) d'"
  proof (cases "j \<in> missing")
    case False
    with I show ?thesis by (auto simp: rewrite_visit_def rewritten_def less_Suc_eq)
  next
    case True
    have "snapshot_at dir ?name = None" using assms(2) True by (simp add: absent_def)
    moreover have "entry_target_revision_id (es ! k) \<noteq> entry_target_revision_id (es ! j)" if "k < j" for k
      using that j dist nth_eq_iff_index_eq [OF dist, of k j] by simp
    ultimately have "snapshot_at d ?name = None"
    proof -
      have "False" if "snapshot_at d ?name = Some s" for s
        using I [unfolded rewritten_def] that \<open>snapshot_at dir ?name = None\<close>
          \<open>\<And>k. k < j \<Longrightarrow> entry_target_revision_id (es ! k) \<noteq> entry_target_revision_id (es ! j)\<close>
        by (metis option.distinct(1) snapshot_name_inj)
      then show ?thesis by (cases "snapshot_at d ?name") auto
    qed
    moreover have "rewritten E es dir (Suc j) (perform_write d (WriteSnapshot ?name c))"
      using I f by (auto simp: rewritten_def less_Suc_eq)
    ultimately show ?thesis using True by (simp add: rewrite_visit_def Let_def)
  qed
qed

lemma rewritten_snapshots_ok:
  assumes "log_ok E i es cs" "snapshots_ok E dir es" "rewritten E es dir (length es) d"
  shows "snapshots_ok E d es"
  unfolding snapshots_ok_def
proof (intro allI impI)
  fix n s assume n: "n < length es"
    and s: "snapshot_at d (snapshot_name (entry_target_revision_id (es ! n))) = Some s"
  from assms(1) have dist: "distinct (map entry_target_revision_id es)" by (simp add: log_ok_def)
  from assms(3) s have "snapshot_at dir (snapshot_name (entry_target_revision_id (es ! n))) = Some s \<or>
      (\<exists>k < length es. snapshot_name (entry_target_revision_id (es ! n)) =
         snapshot_name (entry_target_revision_id (es ! k)) \<and> (\<exists>w. folds_to E (take (Suc k) es) s w))"
    unfolding rewritten_def by blast
  then consider
    "snapshot_at dir (snapshot_name (entry_target_revision_id (es ! n))) = Some s"
    | k w where "k < length es" "entry_target_revision_id (es ! n) = entry_target_revision_id (es ! k)"
      "folds_to E (take (Suc k) es) s w"
    unfolding snapshot_name_inj by blast
  then show "clean_fold E (take (Suc n) es) s \<and> validate_materialized_log s = Ok ()"
  proof cases
    case 1
    with assms(2) n show ?thesis by (simp add: snapshots_ok_def)
  next
    case 2
    with n dist have "k = n" using nth_eq_iff_index_eq [OF dist, of n k] by simp
    moreover obtain c where c: "clean_fold E (take (Suc n) es) c" "validate_materialized_log c = Ok ()"
      using assms(1) n by (auto simp: log_ok_def)
    ultimately have "s = c" using folds_to_unique [OF c(1), of s w] 2(3) by simp
    with c show ?thesis by simp
  qed
qed

section \<open>The head after a crash\<close>

lemma position_distinct:
  "distinct (map f es) \<Longrightarrow> k < length es \<Longrightarrow> position (\<lambda>x. f x = f (es ! k)) es = Some k"
proof (induction es arbitrary: k)
  case (Cons e es)
  then show ?case
  proof (cases k)
    case (Suc j)
    with Cons.prems have "f e \<noteq> f (es ! j)" by (auto simp: image_iff)
    with Cons Suc show ?thesis by simp
  qed simp
qed simp

lemma position_Some: "position P es = Some k \<Longrightarrow> k < length es \<and> P (es ! k)"
  by (induction es arbitrary: k) (auto split: if_splits)

lemma head_lags_ok:
  assumes "distinct (map entry_target_revision_id es)" "2 \<le> length es"
  shows "require_head_lags_log E (Some (morphism_log_head_of E (es ! (length es - 2)))) es = Ok ()"
proof -
  have "length es - 2 < length es" "length es - 2 + 2 = length es" using assms(2) by simp_all
  with position_distinct [OF assms(1) this(1)] show ?thesis
    by (simp add: require_head_lags_log_def morphism_log_head_of_def Let_def del: add_2_eq_Suc')
qed

text \<open>The head is in place, absent, or names the entry before the last.\<close>

definition head_recoverable :: "store_env \<Rightarrow> case_dir \<Rightarrow> morphism_log_entry list \<Rightarrow> bool" where
  "head_recoverable E dir es \<longleftrightarrow>
     dir_head dir = None \<or> dir_head dir = Some (morphism_log_head_of E (last es)) \<or>
     (2 \<le> length es \<and> dir_head dir = Some (morphism_log_head_of E (es ! (length es - 2))))"

lemma lagging_head_refused:
  assumes "distinct (map entry_target_revision_id es)" "2 \<le> length es"
  shows "\<exists>e. require_log_head E (Some (morphism_log_head_of E (es ! (length es - 2)))) (last es) = Err e"
proof -
  have "entry_target_revision_id (es ! (length es - 2)) \<noteq> entry_target_revision_id (es ! (length es - 1))"
    using assms nth_eq_iff_index_eq [OF assms(1), of "length es - 2" "length es - 1"] by simp
  moreover have "last es = es ! (length es - 1)" using assms(2) by (intro last_conv_nth) auto
  ultimately show ?thesis by (simp add: require_log_head_def morphism_log_head_of_def ensure_def)
qed

lemma adopted_head:
  assumes "log_ok E i es cs" "head_recoverable E dir es" "dir_head dir1 = dir_head dir" "dir_log dir1 = dir_log dir"
  shows "\<exists>decision dir2. adopt_decision E dir es True = Ok decision \<and>
     write_adopted_head E dir1 (last es) decision = (dir2, Ok ()) \<and>
     dir_head dir2 = Some (morphism_log_head_of E (last es)) \<and> dir_log dir2 = dir_log dir \<and>
     snapshot_at dir2 = snapshot_at dir1"
proof -
  from assms(1) have dist: "distinct (map entry_target_revision_id es)" by (simp add: log_ok_def)
  from assms(2) consider "dir_head dir = None" | "dir_head dir = Some (morphism_log_head_of E (last es))"
    | "2 \<le> length es" "dir_head dir = Some (morphism_log_head_of E (es ! (length es - 2)))"
    by (auto simp: head_recoverable_def)
  then show ?thesis
  proof cases
    case 1
    then have "adopt_decision E dir es True = Ok (True, False)" by (simp add: adopt_decision_def)
    with 1 assms(3,4) show ?thesis by (simp add: write_adopted_head_def Let_def)
  next
    case 2
    then have "adopt_decision E dir es True = Ok (False, False)" by (simp add: adopt_decision_def head_ok)
    with 2 assms(3,4) show ?thesis by (simp add: write_adopted_head_def Let_def)
  next
    case 3
    from lagging_head_refused [OF dist 3(1), of E] head_lags_ok [OF dist 3(1), of E]
    have "adopt_decision E dir es True = Ok (True, True)" by (auto simp: adopt_decision_def 3(2) map_err_def)
    with 3 assms(3,4) show ?thesis by (simp add: write_adopted_head_def Let_def)
  qed
qed

lemma rebuild_ok:
  assumes "log_ok E i es cs" "snapshots_ok E dir es" "dir_log dir = Some es" "head_recoverable E dir es"
  shows "\<exists>dir' r. rebuild_dir E dir i True = (dir', Ok r) \<and> dir_inv E i dir' cs \<and> rb_revision_count r = length es"
proof -
  note l = log_ok_entry [OF assms(1)]
  have history: "read_history_entries E dir i = Ok es" "latest_entry es = Ok (last es)"
    using assms(1,3) l(1) by (simp_all add: read_history_entries_def log_ok_def latest_entry_def)
  from rebuild_reports [OF assms(1,2)] obtain reports missing where
    reports: "fold_morphism_log E es (rebuild_visit E dir i es) ([], {}) = ((reports, missing), Ok cs)"
      "length reports = length es" "\<forall>n \<in> missing. n < length es \<and> absent dir es n" by blast
  from rewrite_ok [OF assms(1) reports(3)] obtain d where
    d: "fold_morphism_log E es (rewrite_visit missing) dir = (d, Ok cs)" "rewritten E es dir (length es) d" by blast
  let ?d = "if missing = {} then dir else d"
  have second: "(if missing = {} then (dir, Ok ()) else (let (d, r) = fold_morphism_log E es (rewrite_visit missing) dir
      in (d, rbind r (\<lambda>_. Ok ())))) = (?d, Ok ())"
    using d(1) by simp
  have rw: "rewritten E es dir (length es) ?d" using d(2) by (auto simp: rewritten_def)
  then have keep: "dir_head ?d = dir_head dir" "dir_log ?d = dir_log dir" unfolding rewritten_def by blast+
  from adopted_head [OF assms(1,4) keep] obtain decision dir2 where
    a: "adopt_decision E dir es True = Ok decision" "write_adopted_head E ?d (last es) decision = (dir2, Ok ())"
    and h: "dir_head dir2 = Some (morphism_log_head_of E (last es))" "dir_log dir2 = dir_log dir"
      "snapshot_at dir2 = snapshot_at ?d" by blast
  have "snapshots_ok E dir2 es"
    using rewritten_snapshots_ok [OF assms(1,2) rw] by (simp add: snapshots_ok_def h(3))
  with h assms(1,3) l(2) have "dir_inv E i dir2 cs" by (simp add: dir_inv_def)
  moreover have "\<exists>r. rebuild_dir E dir i True = (dir2, Ok r) \<and> rb_revision_count r = length es"
    using history reports(1,2) a second unfolding rebuild_dir_def by simp
  ultimately show ?thesis by blast
qed

end
