(* ===== verification/Store_Samples.thy ===== *)
theory Store_Samples
  imports Native_Store Case_Samples
begin

text \<open>
  The sample history in a case directory. The digests of the samples are the entry id and the
  revision id, which are unique in them.
\<close>

definition demo_genesis_of :: "json \<Rightarrow> (string, genesis_materialization) result" where
  "demo_genesis_of v =
     (if v = JString ''g'' then
        Ok \<lparr>gm_space_id = ''space'', gm_projections = [], gm_close_policy_id = Some ''policy'',
            gm_metadata = fmap_of_list [(''source_boundary'', demo_boundary)],
            gm_revision_metadata = fmempty\<rparr>
      else Err ''unknown'')"

definition demo_gate_of :: "json \<Rightarrow> (string, operation_gate) result" where
  "demo_gate_of v = (if v = JString ''gate'' then Ok demo_gate else Err ''unknown'')"

definition demo_store :: store_env where
  "demo_store =
     \<lparr>eval_env = demo_env, entry_hash = entry_id, space_digest = (\<lambda>cs. revision_id (cs_revision cs)),
      genesis_of = demo_genesis_of, gate_of = demo_gate_of\<rparr>"

definition demo_dir1 :: case_dir where
  "demo_dir1 = perform_writes (new_case_writes demo_store demo_space1) empty_dir"

definition demo_writes2 :: "store_write list" where
  "demo_writes2 = [AppendEntry demo_review, WriteHead (morphism_log_head_of demo_store demo_review)]"

definition demo_dir2 :: case_dir where
  "demo_dir2 = perform_writes demo_writes2 demo_dir1"

lemma demo_importable: "require_importable demo_store demo_space1 = Ok ()"
  by code_simp

lemma demo_plan:
  "append_plan demo_store demo_dir1 ''cs'' demo_review False =
     Ok (demo_space2, demo_writes2, Some (relative_snapshot_path ''cs'' ''r1''))"
proof -
  have "(case append_plan demo_store demo_dir1 ''cs'' demo_review False of
      Inl _ \<Rightarrow> False
    | Inr (next, ws, near) \<Rightarrow> next = demo_space2 \<and> ws = demo_writes2
        \<and> near = Some (relative_snapshot_path ''cs'' ''r1''))" by code_simp
  then show ?thesis by (auto split: sum.splits)
qed

end
