(* ===== verification/Store_Properties.thy ===== *)
theory Store_Properties
  imports Store_Rebuild Store_Samples
begin

text \<open>
  The properties of the store: snapshots are caches, every directory built by the store's operations
  replays to the state last written, crashes are repaired, heads pin logs, lost races are told apart.
\<close>

section \<open>Directories the store can reach\<close>

text \<open>
  Import, append, the loss of a snapshot file, and a crash after any of the writes of an append
  followed by the rebuild that adopts the log.
\<close>

inductive reachable :: "store_env \<Rightarrow> id \<Rightarrow> case_dir \<Rightarrow> case_space \<Rightarrow> bool" for E i where
  imported: "require_importable E cs = Ok () \<Longrightarrow> case_space_id cs = i \<Longrightarrow>
    reachable E i (perform_writes (new_case_writes E cs) empty_dir) cs"
| appended: "reachable E i dir cs \<Longrightarrow> append_plan E dir i entry allow = Ok (next, ws, near) \<Longrightarrow>
    replay_safe E cs entry \<Longrightarrow> reachable E i (perform_writes ws dir) next"
| snapshot_lost: "reachable E i dir cs \<Longrightarrow>
    reachable E i (dir\<lparr>dir_snapshots := fmdrop name (dir_snapshots dir)\<rparr>) cs"
| crashed: "reachable E i dir cs \<Longrightarrow> append_plan E dir i entry allow = Ok (next, ws, near) \<Longrightarrow>
    replay_safe E cs entry \<Longrightarrow> rebuild_dir E (perform_writes (take k ws) dir) i True = (dir', Ok r) \<Longrightarrow>
    reachable E i dir' (if AppendEntry entry \<in> set (take k ws) then next else cs)"

lemma dropped_snapshot_inv:
  assumes "dir_inv E i dir cs"
  shows "dir_inv E i (dir\<lparr>dir_snapshots := fmdrop name (dir_snapshots dir)\<rparr>) cs"
proof -
  have "snapshot_at dir n = Some s"
    if "snapshot_at (dir\<lparr>dir_snapshots := fmdrop name (dir_snapshots dir)\<rparr>) n = Some s" for n s
    using that by (simp add: snapshot_at_def split: if_splits)
  with assms show ?thesis by (auto simp: dir_inv_def snapshots_ok_def)
qed

lemma take_two: "take k [a, b] \<in> {[], [a], [a, b]}"
  by (cases k; cases "k - 1") auto

lemma take_three: "take k [a, b, c] \<in> {[], [a], [a, b], [a, b, c]}"
proof (cases k)
  case (Suc j)
  with take_two [of j b c] show ?thesis by auto
qed simp

lemma writes_prefix:
  assumes "ws = (if b then [WriteSnapshot nm s] else []) @ [AppendEntry e, WriteHead h]" "dir_log dir = Some es"
  shows "if AppendEntry e \<in> set (take k ws)
      then dir_log (perform_writes (take k ws) dir) = Some (es @ [e]) \<and>
        dir_head (perform_writes (take k ws) dir) \<in> {dir_head dir, Some h}
      else dir_log (perform_writes (take k ws) dir) = Some es \<and>
        dir_head (perform_writes (take k ws) dir) = dir_head dir" (is ?files)
    and "snapshot_at (perform_writes (take k ws) dir) name = snapshot_at dir name \<or>
      name = nm \<and> snapshot_at (perform_writes (take k ws) dir) name = Some s" (is ?snap)
proof -
  have "take k ws \<in> {[], [AppendEntry e], [AppendEntry e, WriteHead h], [WriteSnapshot nm s],
      [WriteSnapshot nm s, AppendEntry e], [WriteSnapshot nm s, AppendEntry e, WriteHead h]}"
    using assms(1) take_two [of k "AppendEntry e" "WriteHead h"]
      take_three [of k "WriteSnapshot nm s" "AppendEntry e" "WriteHead h"] by (cases b) auto
  with assms(2) show ?files ?snap by (auto split: if_splits)
qed

text \<open>What a crash after some of the writes leaves, as the rebuild finds it.\<close>

lemma crash_state:
  fixes k :: nat
  assumes inv: "dir_inv E i dir cs" and plan: "append_plan E dir i entry allow = Ok (next, ws, near)"
    and safe: "replay_safe E cs entry"
  defines "d \<equiv> perform_writes (take k ws) dir"
    and "c \<equiv> if AppendEntry entry \<in> set (take k ws) then next else cs"
  shows "log_ok E i (morphism_log c) c" "snapshots_ok E d (morphism_log c)"
    "dir_log d = Some (morphism_log c)" "head_recoverable E d (morphism_log c)"
proof -
  let ?es = "morphism_log cs" and ?name = "snapshot_name (entry_target_revision_id entry)"
  let ?h = "morphism_log_head_of E entry"
  from plan have cand: "append_candidate E dir i entry allow = Ok next"
    and ws0: "ws = (if snapshot_required (entry_sequence entry)
             then [WriteSnapshot (snapshot_name (revision_id (cs_revision next))) next] else [])
           @ [AppendEntry entry, WriteHead ?h]"
    and sn0: "snapshot_at dir (snapshot_name (revision_id (cs_revision next))) \<in> {None, Some next}"
    by (auto elim: append_planE)
  note cn = append_candidate_ok [OF inv cand safe]
  have ws: "ws = (if snapshot_required (entry_sequence entry) then [WriteSnapshot ?name next] else [])
      @ [AppendEntry entry, WriteHead ?h]" and sn: "snapshot_at dir ?name \<in> {None, Some next}"
    using ws0 sn0 by (simp_all add: cn(5))
  from inv have old: "dir_log dir = Some ?es" "dir_head dir = Some (morphism_log_head_of E (last ?es))"
    "log_ok E i ?es cs" "snapshots_ok E dir ?es" by (simp_all add: dir_inv_def)
  note ne = log_ok_entry(1) [OF old(3)]
  note wp = writes_prefix [OF ws old(1), of k]
  have files: "c = cs \<and> dir_log d = Some ?es \<and> dir_head d = dir_head dir \<or>
      c = next \<and> dir_log d = Some (?es @ [entry]) \<and> dir_head d \<in> {dir_head dir, Some ?h}"
    using wp(1) unfolding d_def c_def by (auto split: if_splits)
  have snap: "snapshot_at d name = snapshot_at dir name \<or> (name = ?name \<and> snapshot_at d name = Some next)" for name
    unfolding d_def by (rule wp(2))
  have other: "snapshot_at d name = snapshot_at dir name" if "name \<noteq> ?name" for name using snap that by blast
  have here: "snapshot_at d ?name \<in> {None, Some next}" using snap [of ?name] sn by auto
  from files have cases: "c = cs \<or> c = next" by blast
  show "log_ok E i (morphism_log c) c" using cases old(3) cn(1,2) by auto
  show "dir_log d = Some (morphism_log c)" using files cn(2) by auto
  show "snapshots_ok E d (morphism_log c)"
  proof (cases "c = next")
    case True
    with snapshots_ok_extend [OF old(4) cn(1,3) other here] cn(2) show ?thesis by simp
  next
    case False
    with cases have "c = cs" by simp
    moreover have "snapshots_ok E d ?es"
      unfolding snapshots_ok_def
    proof (intro allI impI)
      fix n s assume n: "n < length ?es"
        and s: "snapshot_at d (snapshot_name (entry_target_revision_id (?es ! n))) = Some s"
      have "entry_target_revision_id (?es ! n) \<noteq> entry_target_revision_id entry"
        using cn(3) n by (metis imageI nth_mem)
      with s other old(4) n show "clean_fold E (take (Suc n) ?es) s \<and> validate_materialized_log s = Ok ()"
        by (simp add: snapshots_ok_def)
    qed
    ultimately show ?thesis by simp
  qed
  have "(?es @ [entry]) ! (length (?es @ [entry]) - 2) = last ?es" "2 \<le> length (?es @ [entry])"
    using ne by (simp_all add: nth_append last_conv_nth Suc_le_eq)
  then show "head_recoverable E d (morphism_log c)"
    using files old(2) cn(2) by (auto simp: head_recoverable_def)
qed

lemma crash_rebuilt:
  assumes "dir_inv E i dir cs" "append_plan E dir i entry allow = Ok (next, ws, near)" "replay_safe E cs entry"
  shows "\<exists>dir' r. rebuild_dir E (perform_writes (take k ws) dir) i True = (dir', Ok r) \<and>
    dir_inv E i dir' (if AppendEntry entry \<in> set (take k ws) then next else cs)"
  using rebuild_ok [OF crash_state [OF assms, of k]] by blast

lemma reachable_inv: "reachable E i dir cs \<Longrightarrow> dir_inv E i dir cs"
proof (induction rule: reachable.induct)
  case (imported cs)
  then show ?case by (rule import_inv)
next
  case (appended dir cs entry allow "next" ws near)
  then show ?case by (blast intro: append_keeps_inv)
next
  case (snapshot_lost dir cs name)
  then show ?case by (blast intro: dropped_snapshot_inv)
next
  case (crashed dir cs entry allow "next" ws near k dir' r)
  from crash_rebuilt [OF crashed.IH crashed.hyps(2,3), of k] crashed.hyps(4) show ?case by auto
qed

section \<open>The chain of hashes\<close>

lemma validated_log_snoc:
  assumes "validate_log_entries E x (es @ [e]) = Ok ()"
  shows "(es = [] \<or> validate_log_entries E x es = Ok ()) \<and>
    previous_entry_hash e = (if es = [] then None else Some (entry_hash E (last es)))"
proof -
  have loop: "validate_log_loop E x 0 None {} {} es = Ok ()"
    and link: "require_previous_entry_hash E e (if es = [] then None else Some (last es)) = Ok ()"
    using assms by (auto simp: validate_log_entries_def validate_log_loop_append elim!: rbindE)
  from link have "previous_entry_hash e = (if es = [] then None else Some (entry_hash E (last es)))"
    by (auto simp: require_previous_entry_hash_def Let_def split: option.splits if_splits)
  with loop show ?thesis by (cases "es = []") (simp_all add: validate_log_entries_def)
qed

interpretation log_chain: hash_chain "entry_hash E" previous_entry_hash
  "\<lambda>es. validate_log_entries E x es = Ok ()" for E x
  by unfold_locales (rule validated_log_snoc)

section \<open>The outcome of an append\<close>

lemma append_all_or_nothing_lemma:
  assumes inv: "dir_inv E i dir cs" and dir: "fmlookup store (path_segment i) = Some dir"
    and safe: "replay_safe E cs entry"
    and app: "append_morphism_with_authority E store i entry allow = (store', r)"
  shows "(\<exists>e. r = Err e) \<and> store' = store \<or>
    (\<exists>record next dir'. r = Ok record \<and> nr_current_revision_id record = entry_target_revision_id entry \<and>
       store' = fmupd (path_segment i) dir' store \<and> dir_inv E i dir' next \<and>
       morphism_log next = morphism_log cs @ [entry])"
proof (cases "append_plan E dir i entry allow")
  case (Inl e)
  with app dir show ?thesis by (auto simp: append_morphism_with_authority_def)
next
  case (Inr p)
  then obtain nx ws near where plan: "append_plan E dir i entry allow = Ok (nx, ws, near)" by (cases p) auto
  let ?dir = "perform_writes ws dir"
  have inv': "dir_inv E i ?dir nx" by (rule append_keeps_inv [OF inv plan safe])
  from plan have cand: "append_candidate E dir i entry allow = Ok nx" by (auto elim: append_planE)
  note c = append_candidate_ok [OF inv cand safe]
  from inv' have l: "log_ok E i (morphism_log nx) nx" "snapshots_ok E ?dir (morphism_log nx)"
    "dir_head ?dir = Some (morphism_log_head_of E (last (morphism_log nx)))" by (simp_all add: dir_inv_def)
  have made: "\<exists>record. native_record_from_materialized d i (morphism_log nx) s n = Ok record \<and>
      nr_current_revision_id record = entry_target_revision_id entry" for d s n
    using c(2) log_ok_entry(1,6) [OF l(1)]
    by (simp add: native_record_from_materialized_def latest_entry_def)
  have "\<exists>record. inspect_case_space E ?dir i = Ok record \<and> nr_current_revision_id record = entry_target_revision_id entry"
    using history_entries_ok [OF inv'] replay_case_space_ok [OF l(1,2)] l(3) made [of ?dir nx]
      log_ok_entry(1) [OF l(1)]
    by (auto simp: inspect_case_space_def native_record_def latest_entry_def head_ok)
  with made app dir plan have "\<exists>record. r = Ok record \<and> nr_current_revision_id record = entry_target_revision_id entry"
    "store' = fmupd (path_segment i) ?dir store"
    by (cases near; auto simp: append_morphism_with_authority_def Let_def)+
  with inv' c(2) show ?thesis by blast
qed

section \<open>Properties\<close>

text \<open>
  Claim C22. Snapshots are only caches: whatever snapshot files lie in the directory, if the digests do
  not collide on the data at hand and the log folds to a state, then a replay that succeeds returns
  that state, from whichever snapshot it started.
\<close>

theorem snapshots_are_caches:
  assumes "materialize E es = Ok cs" "collision_free E dir es"
    "replay_case_space E dir i es = Ok (cs', path)"
  shows "cs' = cs"
  using assms by (rule replay_is_fold)




text \<open>
  Claim C24. The head pins the history: two logs that pass the log validation and whose last entries both
  match the same head are the same log, if the entry hash does not collide on their entries. So a
  truncated or rewritten log never matches the recorded head.
\<close>

theorem head_determines_log:
  assumes "validate_log_entries E x es = Ok ()" "validate_log_entries E x fs = Ok ()"
    "require_log_head E (Some head) (last es) = Ok ()" "require_log_head E (Some head) (last fs) = Ok ()"
    "inj_on (entry_hash E) (set es \<union> set fs)"
  shows "es = fs"
proof (rule log_chain.tail_determines_log [where E = E and x = x])
  show "es \<noteq> []" "fs \<noteq> []" using assms(1,2) by (auto simp: validate_log_entries_def)
  show "entry_hash E (last es) = entry_hash E (last fs)"
    using assms(3,4) by (auto simp: require_log_head_def)
qed (use assms in auto)

text \<open>
  The two head checks are exact: a head passes against the tail only if it is the head of
  that entry, and the repair of a lagging head accepts exactly the head of the entry before the last,
  no other lag and no other content.
\<close>

theorem head_checks_exact:
  assumes "distinct (map entry_target_revision_id es)" "es \<noteq> []"
  shows "(require_log_head E (Some head) (last es) = Ok () \<longleftrightarrow> head = morphism_log_head_of E (last es)) \<and>
    (require_head_lags_log E (Some head) es = Ok () \<longleftrightarrow>
       2 \<le> length es \<and> head = morphism_log_head_of E (es ! (length es - 2)))"
proof
  have eq: "head = morphism_log_head_of E e \<longleftrightarrow> head_target_revision_id head = entry_target_revision_id e \<and>
      head_entry_hash head = entry_hash E e \<and> head_replay_checksum head = replay_checksum e" for e
    by (auto simp: morphism_log_head_of_def)
  show "require_log_head E (Some head) (last es) = Ok () \<longleftrightarrow> head = morphism_log_head_of E (last es)"
    by (auto simp: require_log_head_def eq)
  have "2 \<le> length es \<and> head = morphism_log_head_of E (es ! (length es - 2))"
    if r: "require_head_lags_log E (Some head) es = Ok ()"
  proof -
    from r obtain p where p: "position (\<lambda>e. entry_target_revision_id e = head_target_revision_id head) es = Some p"
      "p + 2 = length es" "head_entry_hash head = entry_hash E (es ! p)"
      "head_replay_checksum head = replay_checksum (es ! p)"
      by (auto simp: require_head_lags_log_def Let_def elim!: rbindE)
    have "entry_target_revision_id (es ! p) = head_target_revision_id head" using position_Some [OF p(1)] by simp
    moreover have "p = length es - 2" using p(2) by simp
    ultimately show ?thesis using p eq by auto
  qed
  then show "require_head_lags_log E (Some head) es = Ok () \<longleftrightarrow>
      2 \<le> length es \<and> head = morphism_log_head_of E (es ! (length es - 2))"
    using head_lags_ok [OF assms(1)] by auto
qed

text \<open>
  A lost race is reported as staleness, never as corruption: after another append has won, an
  entry built against the earlier revision that is otherwise in order is refused with the two revisions
  and the code \<open>stale_revision\<close>, whatever its sequence number and hash are.
\<close>

theorem lost_race_is_stale:
  assumes "reachable E i dir cs" "append_plan E dir i winner allow = Ok (next, ws, near)"
    "replay_safe E cs winner" "entry_source_revision_id loser = Some (revision_id (cs_revision cs))"
    "require_log_entry_contract loser = Ok ()" "require_entry_morphism_match loser = Ok ()"
    "entry_case_space_id loser = i" "require_valid_operation_gate E next loser = Ok ()"
    "\<not> is_execution_trace_anchor (morphism_type (entry_morphism loser))"
  shows "append_candidate E (perform_writes ws dir) i loser allow' =
      Err (StaleSourceRevision (Some (revision_id (cs_revision cs))) (entry_target_revision_id winner)) \<and>
    error_code (StaleSourceRevision (Some (revision_id (cs_revision cs))) (entry_target_revision_id winner))
      = ''stale_revision''"
proof -
  note inv = reachable_inv [OF assms(1)]
  from assms(2) have cand: "append_candidate E dir i winner allow = Ok next" by (auto elim: append_planE)
  note c = append_candidate_ok [OF inv cand assms(3)]
  from inv have lo: "log_ok E i (morphism_log cs) cs" by (simp add: dir_inv_def)
  have "revision_id (cs_revision cs) \<in> entry_target_revision_id ` set (morphism_log cs)"
    using log_ok_entry(1,3) [OF lo] by (simp add: state_of_def)
  with c(3) have moved: "revision_id (cs_revision cs) \<noteq> entry_target_revision_id winner" by auto
  have "validate_append E next loser (morphism_log next) =
      Err (StaleSourceRevision (Some (revision_id (cs_revision cs))) (entry_target_revision_id winner))"
    using assms(4-7) c(4,5) moved by (simp add: validate_append_def)
  then show ?thesis
    using replay_current_ok [OF append_keeps_inv [OF inv assms(2,3)]] assms(8,9)
    by (simp add: append_candidate_def replay_of_def)
qed

end
