(* ===== verification/Store_Witnesses.thy ===== *)
theory Store_Witnesses
  imports Store_Properties
begin

text \<open>Instances of the store properties on the sample history.\<close>

lemma demo_reachable1: "reachable demo_store ''cs'' demo_dir1 demo_space1"
  unfolding demo_dir1_def
  by (rule imported [OF demo_importable]) (simp add: demo_space1_def)

lemma demo_safe: "replay_safe demo_store demo_space1 demo_review"
  by code_simp

lemma demo_reachable2: "reachable demo_store ''cs'' demo_dir2 demo_space2"
  unfolding demo_dir2_def by (rule appended [OF demo_reachable1 demo_plan demo_safe])

lemma demo_log: "morphism_log demo_space1 = [demo_genesis]" "morphism_log demo_space2 = [demo_genesis, demo_review]"
  by (simp_all add: demo_space1_def demo_space2_def)

lemma demo_materializes:
  "materialize demo_store [demo_genesis] = Ok demo_space1"
  "materialize demo_store [demo_genesis, demo_review] = Ok demo_space2"
  using reachable_inv [OF demo_reachable1] reachable_inv [OF demo_reachable2]
  by (auto simp: dir_inv_def log_ok_def materialize_iff demo_log)

lemma demo_revisions: "revision_id (cs_revision demo_space1) = ''r1''" "revision_id (cs_revision demo_space2) = ''r2''"
  "entry_id demo_genesis = ''e1''" "entry_id demo_review = ''e2''"
  by code_simp+

lemma demo_snapshot_files: "snapshot_files demo_dir2 = {demo_space1}"
  by (auto simp: snapshot_files_def demo_dir2_def demo_dir1_def demo_writes2_def new_case_writes_def
      demo_log empty_dir_def snapshot_at_def)

lemma demo_prefix_states:
  "{c. \<exists>k. materialize demo_store (take k [demo_genesis, demo_review]) = Ok c} = {demo_space1, demo_space2}"
proof -
  have "materialize demo_store (take k [demo_genesis, demo_review]) = Ok c \<longleftrightarrow>
      k = 1 \<and> c = demo_space1 \<or> 2 \<le> k \<and> c = demo_space2" for k c
  proof (cases k)
    case 0
    then show ?thesis by (simp add: materialize_def fold_morphism_log_def)
  next
    case (Suc j)
    then show ?thesis by (cases j) (auto simp: demo_materializes)
  qed
  then show ?thesis by auto
qed

lemma demo_collision_free: "collision_free demo_store demo_dir2 (morphism_log demo_space2)"
  unfolding collision_free_def demo_log demo_prefix_states demo_snapshot_files
  by (auto simp: inj_on_def demo_store_def checksum_view_def demo_revisions demo_log)

theorem snapshots_are_caches_witness:
  "\<exists>path. replay_case_space demo_store demo_dir2 ''cs'' (morphism_log demo_space2) = Ok (demo_space2, path)"
proof -
  have "is_ok (replay_case_space demo_store demo_dir2 ''cs'' (morphism_log demo_space2))" by code_simp
  then obtain c path where "replay_case_space demo_store demo_dir2 ''cs'' (morphism_log demo_space2) = Ok (c, path)"
    by (auto simp: is_ok_iff)
  moreover from snapshots_are_caches [OF _ demo_collision_free this] have "c = demo_space2"
    by (simp add: demo_log demo_materializes)
  ultimately show ?thesis by blast
qed




lemma demo_logs_valid:
  "validate_log_entries demo_store (Some ''cs'') [demo_genesis] = Ok ()"
  "validate_log_entries demo_store (Some ''cs'') [demo_genesis, demo_review] = Ok ()"
  using reachable_inv [OF demo_reachable1] reachable_inv [OF demo_reachable2]
  by (auto simp: dir_inv_def log_ok_def demo_log)

theorem head_determines_log_witness:
  "require_log_head demo_store (Some (morphism_log_head_of demo_store demo_review)) demo_genesis \<noteq> Ok ()"
proof
  assume "require_log_head demo_store (Some (morphism_log_head_of demo_store demo_review)) demo_genesis = Ok ()"
  moreover have "inj_on (entry_hash demo_store) (set [demo_genesis] \<union> set [demo_genesis, demo_review])"
    by (auto simp: demo_store_def inj_on_def demo_revisions)
  ultimately have "[demo_genesis] = [demo_genesis, demo_review]"
    using head_determines_log [OF demo_logs_valid, of "morphism_log_head_of demo_store demo_review"]
      head_ok [of demo_store demo_review] by simp
  then show False by simp
qed

end
