(* ===== verification/Store_Findings.thy ===== *)
theory Store_Findings
  imports Store_Samples
begin

text \<open>
  Two ways in which the writer of the store accepts an entry that its reader then refuses. Both
  evaluate the whole store on a concrete history.
\<close>

definition bad_decode :: payload_decoder where
  "bad_decode v =
     (if v = JString ''p2'' then
        Ok (default_payload\<lparr>added_cells := [sample_cell ''r1'' CtWork LcProposed fmempty]\<rparr>)
      else if v = JString ''p3'' then
        Ok (default_payload\<lparr>added_relations := [sample_relation ''uses'' RtDependsOn ''r1'' ''goal'']\<rparr>)
      else if v = JString ''p4'' then
        Ok (default_payload\<lparr>added_relations :=
              [(sample_relation ''dep'' RtDependsOn ''goal'' ''evidence'')\<lparr>rel_evidence_ids := [''m2'']\<rparr>]\<rparr>)
      else demo_decode v)"

definition bad_store :: store_env where
  "bad_store = demo_store\<lparr>eval_env := demo_env\<lparr>env_payload := bad_decode\<rparr>\<rparr>"

definition bad_metadata :: "string \<Rightarrow> metadata" where
  "bad_metadata tag = fmap_of_list [(''payload'', JString tag), (''operation_gate'', JString ''gate'')]"

definition revision_cell_entry :: morphism_log_entry where
  "revision_cell_entry =
     demo_entry 2 ''e2'' (Some ''e1'')
       (demo_morphism ''m2'' MtUpdate (Some ''r1'') ''r2'' [''r1''] (bad_metadata ''p2''))"

definition uses_cell_entry :: morphism_log_entry where
  "uses_cell_entry =
     demo_entry 3 ''e3'' (Some ''e2'')
       (demo_morphism ''m3'' MtRelate (Some ''r2'') ''r3'' [''uses''] (bad_metadata ''p3''))"

definition self_reference_entry :: morphism_log_entry where
  "self_reference_entry =
     demo_entry 2 ''e2'' (Some ''e1'')
       (demo_morphism ''m2'' MtRelate (Some ''r1'') ''r2'' [''dep''] (bad_metadata ''p4''))"

definition imported_store :: native_store where
  "imported_store = fst (import_case_space bad_store fmempty demo_space1)"

definition unreadable_after :: "morphism_log_entry list \<Rightarrow> id \<Rightarrow> bool" where
  "unreadable_after entries i =
     (case fold_res (\<lambda>store entry.
             case append_morphism bad_store store ''cs'' entry of
               (store', Inr _) \<Rightarrow> Ok store' | (_, Inl e) \<Rightarrow> Err e)
           imported_store entries of
        Inl _ \<Rightarrow> False
      | Inr store \<Rightarrow> replay_current_case_space bad_store (case_dir_of store ''cs'') ''cs''
                      = Err (InvalidMorphismEntry (UnknownReference i)))"


text \<open>
  A store can write what it cannot read, through the entry's own id: a relation that cites the
  morphism that adds it as evidence is appended with success, since the writer checks the resulting
  state, and every later replay refuses it, since the replay checks before that id is known.
\<close>

theorem self_citing_relation_unreadable:
  "unreadable_after [self_reference_entry] ''m2''"
  by code_simp

end
