(* ===== verification/Store_Lock.thy ===== *)
theory Store_Lock
  imports CG_Prelude
begin

text \<open>
  The exclusive lock of a case directory (\<open>CaseLockGuard\<close> in \<open>src/native_store/support.rs\<close>): the wait loop
  of \<open>acquire\<close> against the clock, and the guards of several processes as a state machine over the lock
  file, one transition per access to the file system, so that accesses of different guards interleave.
  A guard is identified with the process that holds it; its token is the text it writes.
\<close>

section \<open>Waiting for the lock\<close>

text \<open>Durations in milliseconds.\<close>

definition lock_wait_budget :: nat where
  "lock_wait_budget = 30000"

definition lock_initial_backoff :: nat where
  "lock_initial_backoff = 5"

definition lock_max_backoff :: nat where
  "lock_max_backoff = 40"

definition lock_backoff :: "nat \<Rightarrow> nat" where
  "lock_backoff attempt = min (lock_initial_backoff * 2 ^ min attempt 3) lock_max_backoff"

text \<open>
  What one round of \<open>acquire\<close> meets: the file is created and read back as ours, read back with another
  text, or gone at the read back; it was there already; or some other failure of the file system.
\<close>

datatype lock_round = RoundOwned | RoundReplaced | RoundGone | RoundExists | RoundFailed

datatype lock_error = LockUnavailable | LockIo

lemma lock_backoff_ge: "5 \<le> lock_backoff attempt" "3 \<le> attempt \<Longrightarrow> lock_backoff attempt = 40"
  by (simp_all add: lock_backoff_def lock_initial_backoff_def lock_max_backoff_def min_def)

text \<open>
  \<open>rounds k\<close> is what round \<open>k\<close> meets and \<open>delay k\<close> the time it takes beyond the back-off. The second
  component of the result counts the rounds.
\<close>

function acquire_loop :: "(nat \<Rightarrow> lock_round) \<Rightarrow> (nat \<Rightarrow> nat) \<Rightarrow> nat \<Rightarrow> nat \<Rightarrow> nat
    \<Rightarrow> (lock_error, unit) result \<times> nat" where
  "acquire_loop rounds delay deadline now attempt =
     (if deadline \<le> now then (Err LockUnavailable, attempt)
      else case rounds attempt of
          RoundOwned \<Rightarrow> (Ok (), Suc attempt)
        | RoundReplaced \<Rightarrow> (Err LockUnavailable, Suc attempt)
        | RoundFailed \<Rightarrow> (Err LockIo, Suc attempt)
        | _ \<Rightarrow> acquire_loop rounds delay deadline (now + delay attempt + lock_backoff attempt) (Suc attempt))"
  by pat_completeness auto

termination
proof (relation "measure (\<lambda>(_, _, deadline, now, _). deadline - now)", simp, goal_cases)
  case (1 rounds delay deadline now attempt)
  then show ?case using lock_backoff_ge(1) [of attempt] by simp
next
  case (2 rounds delay deadline now attempt)
  then show ?case using lock_backoff_ge(1) [of attempt] by simp
qed

declare acquire_loop.simps [simp del]

definition acquire :: "(nat \<Rightarrow> lock_round) \<Rightarrow> (nat \<Rightarrow> nat) \<Rightarrow> (lock_error, unit) result \<times> nat" where
  "acquire rounds delay = acquire_loop rounds delay lock_wait_budget 0 0"

definition contended :: "lock_round \<Rightarrow> bool" where
  "contended r \<longleftrightarrow> r \<in> {RoundGone, RoundExists}"

lemma contended_not [simp]:
  "\<not> contended RoundOwned" "\<not> contended RoundReplaced" "\<not> contended RoundFailed"
  by (simp_all add: contended_def)

text \<open>The time that has passed for sure after a number of rounds: the sum of the back-offs.\<close>

definition elapsed :: "nat \<Rightarrow> nat" where
  "elapsed n = (\<Sum>k < n. lock_backoff k)"

lemma elapsed_Suc [simp]: "elapsed (Suc n) = elapsed n + lock_backoff n"
  by (simp add: elapsed_def)

lemma elapsed_closed: "elapsed (n + 3) = 35 + 40 * n"
  by (induction n)
    (simp_all add: lock_backoff_ge elapsed_def numeral_3_eq_3 lock_backoff_def lock_initial_backoff_def
      lock_max_backoff_def)

lemma acquire_loop_outcome:
  assumes "acquire_loop rounds delay deadline now attempt = (r, n)" "elapsed attempt \<le> now"
  shows "attempt \<le> n \<and> (attempt < n \<longrightarrow> elapsed (n - 1) < deadline) \<and>
    (\<forall>k. attempt \<le> k \<and> Suc k < n \<longrightarrow> contended (rounds k)) \<and>
    (r = Ok () \<longleftrightarrow> attempt < n \<and> rounds (n - 1) = RoundOwned)"
  using assms
proof (induction rounds delay deadline now attempt rule: acquire_loop.induct)
  case (1 rounds delay deadline now attempt)
  show ?case
  proof (cases "now < deadline \<and> contended (rounds attempt)")
    case False
    then show ?thesis
      using "1.prems" by (subst (asm) acquire_loop.simps) (auto simp: contended_def split: lock_round.splits if_splits)
  next
    case True
    then have go: "acquire_loop rounds delay deadline (now + delay attempt + lock_backoff attempt) (Suc attempt) = (r, n)"
      using "1.prems"(1) by (subst (asm) acquire_loop.simps) (auto simp: contended_def split: lock_round.splits if_splits)
    have "Suc attempt \<le> n \<and> (Suc attempt < n \<longrightarrow> elapsed (n - 1) < deadline) \<and>
      (\<forall>k. Suc attempt \<le> k \<and> Suc k < n \<longrightarrow> contended (rounds k)) \<and>
      (r = Ok () \<longleftrightarrow> Suc attempt < n \<and> rounds (n - 1) = RoundOwned)"
      using True "1.IH" go "1.prems"(2) by (cases "rounds attempt") (auto simp: contended_def)
    note later = this
    have "elapsed (n - 1) < deadline" using later True "1.prems"(2) by (cases "n = Suc attempt") auto
    moreover have "contended (rounds k)" if "attempt \<le> k" "Suc k < n" for k
      using later True that by (cases "k = attempt") auto
    moreover have "r = Ok () \<longleftrightarrow> attempt < n \<and> rounds (n - 1) = RoundOwned"
      using later True by (cases "n = Suc attempt") (auto simp: contended_def)
    ultimately show ?thesis using later by auto
  qed
qed

lemma acquire_rounds: "elapsed (n - 1) < lock_wait_budget \<Longrightarrow> n \<le> 753"
proof (rule ccontr)
  assume e: "elapsed (n - 1) < lock_wait_budget" and "\<not> n \<le> 753"
  then have "n - 1 = (n - 4) + 3" "750 \<le> n - 4" by simp_all
  with e elapsed_closed [of "n - 4"] show False by (simp add: lock_wait_budget_def)
qed

text \<open>
  Claim C33. Waiting for the lock ends: whatever the other processes do and however long each round takes,
  \<open>acquire\<close> returns after at most 753 rounds, it returns the lock exactly when its last round created the
  file and read its own token back, and every earlier round met a lock file of someone else or lost its own.
\<close>

theorem acquire_bounded:
  "snd (acquire rounds delay) \<le> 753 \<and>
   (fst (acquire rounds delay) = Ok () \<longleftrightarrow>
      0 < snd (acquire rounds delay) \<and> rounds (snd (acquire rounds delay) - 1) = RoundOwned) \<and>
   (\<forall>k. Suc k < snd (acquire rounds delay) \<longrightarrow> contended (rounds k))"
proof -
  obtain r n where rn: "acquire_loop rounds delay lock_wait_budget 0 0 = (r, n)" by fastforce
  from acquire_loop_outcome [OF rn] acquire_rounds [of n] show ?thesis
    unfolding acquire_def rn by (cases "n = 0") (auto simp: elapsed_def)
qed

theorem acquire_bounded_witness:
  "fst (acquire (\<lambda>k. if k < 4 then RoundExists else RoundOwned) (\<lambda>_. 0)) = Ok () \<and>
   snd (acquire (\<lambda>k. if k < 4 then RoundExists else RoundOwned) (\<lambda>_. 0)) = 5"
proof -
  let ?rounds = "\<lambda>k. if k < (4 :: nat) then RoundExists else RoundOwned"
  have five: "snd (acquire ?rounds (\<lambda>_. 0)) = 5"
    by (simp add: acquire_def acquire_loop.simps lock_wait_budget_def lock_backoff_def lock_initial_backoff_def
        lock_max_backoff_def)
  with acquire_bounded [of ?rounds "\<lambda>_. 0"] show ?thesis by simp
qed

section \<open>Guards over the lock file\<close>

text \<open>
  The directory entry \<open>.lock\<close> names an inode or is absent; a handle keeps writing to its inode after the
  entry is gone. \<open>Trying\<close> is a guard in the wait loop, \<open>Created n\<close> has the open handle of its new file,
  \<open>Abandoning\<close> is about to unlink after a failed write, \<open>Written\<close> is about to read back, \<open>Holding\<close> has its
  guard, \<open>Writing\<close> passed \<open>still_owned\<close> and is about to write, \<open>Comparing\<close> and \<open>Unlinking\<close> are the two
  accesses of \<open>remove_lock_if_owned\<close>, \<open>Stopped\<close> has returned.
\<close>

datatype guard_state =
    Trying | Created nat | Abandoning | Written | Holding | Writing | Comparing | Unlinking
  | Stopped | Crashed

record 'p lock_state =
  lock_entry :: "nat option"
  inode_text :: "nat \<Rightarrow> string"
  next_inode :: nat
  guards :: "'p \<Rightarrow> guard_state"

definition lock_start :: "'p lock_state" where
  "lock_start = \<lparr>lock_entry = None, inode_text = (\<lambda>_. []), next_inode = 0, guards = (\<lambda>_. Trying)\<rparr>"

definition lock_contents :: "('p \<Rightarrow> string) \<Rightarrow> 'p \<Rightarrow> string" where
  "lock_contents tok p = ''token='' @ tok p @ [CHR 0x0A]"

definition lock_file_matches :: "'p lock_state \<Rightarrow> string \<Rightarrow> bool" where
  "lock_file_matches s text = (case lock_entry s of None \<Rightarrow> False | Some n \<Rightarrow> inode_text s n = text)"

definition goto :: "'p \<Rightarrow> guard_state \<Rightarrow> 'p lock_state \<Rightarrow> 'p lock_state" where
  "goto p g s = s\<lparr>guards := (guards s)(p := g)\<rparr>"

datatype lock_access =
    TryCreate | GiveUp | WriteToken | WriteFails nat | ReadBack | ReadBackFails
  | StillOwned | StillOwnedFails | DurableWrite | DropGuard | Compare | CompareFails | Unlink | Crash

text \<open>\<open>create_new\<close>: a fresh inode under the entry if the entry is free, the wait loop otherwise.\<close>

definition try_create :: "'p \<Rightarrow> 'p lock_state \<Rightarrow> 'p lock_state" where
  "try_create p s =
     (case lock_entry s of
        Some _ \<Rightarrow> s
      | None \<Rightarrow> goto p (Created (next_inode s))
          (s\<lparr>lock_entry := Some (next_inode s), inode_text := (inode_text s)(next_inode s := []),
             next_inode := Suc (next_inode s)\<rparr>))"

definition read_back :: "('p \<Rightarrow> string) \<Rightarrow> 'p \<Rightarrow> 'p lock_state \<Rightarrow> 'p lock_state" where
  "read_back tok p s =
     (case lock_entry s of
        None \<Rightarrow> goto p Trying s
      | Some n \<Rightarrow> goto p (if inode_text s n = lock_contents tok p then Holding else Stopped) s)"

definition still_owned :: "('p \<Rightarrow> string) \<Rightarrow> 'p \<Rightarrow> 'p lock_state \<Rightarrow> bool" where
  "still_owned tok p s = lock_file_matches s (lock_contents tok p)"

definition write_text :: "nat \<Rightarrow> string \<Rightarrow> 'p lock_state \<Rightarrow> 'p lock_state" where
  "write_text n text s = s\<lparr>inode_text := (inode_text s)(n := text)\<rparr>"

definition unlink :: "'p lock_state \<Rightarrow> 'p lock_state" where
  "unlink s = s\<lparr>lock_entry := None\<rparr>"

text \<open>
  One access of guard \<open>p\<close>; \<open>None\<close> if the guard is not at that point. A failed write may leave a prefix.
  An operation that fails drops its guard, so a failed check continues with the comparison of the release.
  \<open>GiveUp\<close> is the deadline or a creation that fails otherwise.
\<close>

definition at :: "bool \<Rightarrow> 'a \<Rightarrow> 'a option" where
  "at here next = (if here then Some next else None)"

definition guard_step :: "('p \<Rightarrow> string) \<Rightarrow> 'p \<Rightarrow> lock_access \<Rightarrow> 'p lock_state \<Rightarrow> 'p lock_state option" where
  "guard_step tok p a s =
     (let g = guards s p in
      case a of
        TryCreate \<Rightarrow> at (g = Trying) (try_create p s)
      | GiveUp \<Rightarrow> at (g = Trying) (goto p Stopped s)
      | WriteToken \<Rightarrow>
          (case g of Created n \<Rightarrow> Some (goto p Written (write_text n (lock_contents tok p) s)) | _ \<Rightarrow> None)
      | WriteFails k \<Rightarrow>
          (case g of
             Created n \<Rightarrow> Some (goto p Abandoning (write_text n (take k (lock_contents tok p)) s))
           | _ \<Rightarrow> None)
      | ReadBack \<Rightarrow> at (g = Written) (read_back tok p s)
      | ReadBackFails \<Rightarrow> at (g = Written) (goto p Comparing s)
      | StillOwned \<Rightarrow> at (g = Holding) (goto p (if still_owned tok p s then Writing else Comparing) s)
      | StillOwnedFails \<Rightarrow> at (g = Holding) (goto p Comparing s)
      | DurableWrite \<Rightarrow> at (g = Writing) (goto p Holding s)
      | DropGuard \<Rightarrow> at (g = Holding \<or> g = Writing) (goto p Comparing s)
      | Compare \<Rightarrow>
          at (g = Comparing)
            (goto p (if lock_file_matches s (lock_contents tok p) then Unlinking else Stopped) s)
      | CompareFails \<Rightarrow> at (g = Comparing) (goto p Stopped s)
      | Unlink \<Rightarrow> at (g = Unlinking \<or> g = Abandoning) (goto p Stopped (unlink s))
      | Crash \<Rightarrow> Some (goto p Crashed s))"

datatype 'p lock_event = Access 'p lock_access | OperatorRemoves

fun lock_step :: "('p \<Rightarrow> string) \<Rightarrow> 'p lock_event \<Rightarrow> 'p lock_state \<Rightarrow> 'p lock_state option" where
  "lock_step tok (Access p a) s = guard_step tok p a s"
| "lock_step tok OperatorRemoves s = Some (unlink s)"

fun lock_run :: "('p \<Rightarrow> string) \<Rightarrow> 'p lock_event list \<Rightarrow> 'p lock_state \<Rightarrow> 'p lock_state option" where
  "lock_run tok [] s = Some s"
| "lock_run tok (ev # evs) s = (case lock_step tok ev s of None \<Rightarrow> None | Some s' \<Rightarrow> lock_run tok evs s')"

section \<open>The mutex it implements\<close>

text \<open>
  The specification: a mutex with an owner. A claim needs it free; a durable write and a release need
  the caller to be the owner.
\<close>

datatype 'p mutex_event = Claims 'p | Writes 'p | Releases 'p

fun mutex_step :: "'p option \<Rightarrow> 'p mutex_event \<Rightarrow> 'p option option" where
  "mutex_step None (Claims p) = Some (Some p)"
| "mutex_step (Some q) (Writes p) = (if p = q then Some (Some q) else None)"
| "mutex_step (Some q) (Releases p) = (if p = q then Some None else None)"
| "mutex_step owner ev = None"

fun mutex_run :: "'p option \<Rightarrow> 'p mutex_event list \<Rightarrow> 'p option option" where
  "mutex_run owner [] = Some owner"
| "mutex_run owner (ev # evs) = (case mutex_step owner ev of None \<Rightarrow> None | Some owner' \<Rightarrow> mutex_run owner' evs)"

text \<open>
  What a run of the lock does in terms of the mutex: the creation of the file claims, the unlinking
  releases.
\<close>

fun mutex_view :: "'p lock_event \<Rightarrow> 'p lock_state \<Rightarrow> 'p mutex_event list" where
  "mutex_view (Access p TryCreate) s = (if lock_entry s = None then [Claims p] else [])"
| "mutex_view (Access p DurableWrite) s = [Writes p]"
| "mutex_view (Access p Unlink) s = [Releases p]"
| "mutex_view ev s = []"

fun run_view :: "('p \<Rightarrow> string) \<Rightarrow> 'p lock_event list \<Rightarrow> 'p lock_state \<Rightarrow> 'p mutex_event list" where
  "run_view tok [] s = []"
| "run_view tok (ev # evs) s =
     mutex_view ev s @ (case lock_step tok ev s of None \<Rightarrow> [] | Some s' \<Rightarrow> run_view tok evs s')"

text \<open>The simulation relation between an owner and a state of the file.\<close>

definition idle :: "guard_state \<Rightarrow> bool" where
  "idle g \<longleftrightarrow> g \<in> {Trying, Stopped, Crashed}"

definition owner_ok :: "('p \<Rightarrow> string) \<Rightarrow> 'p \<Rightarrow> nat \<Rightarrow> 'p lock_state \<Rightarrow> bool" where
  "owner_ok tok p n s \<longleftrightarrow>
     idle (guards s p) \<or> guards s p = Abandoning \<or> guards s p = Created n \<or>
     (guards s p \<in> {Written, Holding, Writing, Comparing, Unlinking} \<and> inode_text s n = lock_contents tok p)"

definition implements_mutex :: "('p \<Rightarrow> string) \<Rightarrow> 'p option \<Rightarrow> 'p lock_state \<Rightarrow> bool" where
  "implements_mutex tok owner s \<longleftrightarrow>
     (case owner of
        None \<Rightarrow> lock_entry s = None \<and> (\<forall>q. idle (guards s q))
      | Some p \<Rightarrow> \<exists>n. lock_entry s = Some n \<and> (\<forall>q. q \<noteq> p \<longrightarrow> idle (guards s q)) \<and> owner_ok tok p n s)"

lemma goto_simps [simp]:
  "guards (goto p g s) = (guards s)(p := g)" "lock_entry (goto p g s) = lock_entry s"
  "inode_text (goto p g s) = inode_text s"
  by (simp_all add: goto_def)

lemma idle_simps [simp]:
  "idle Trying" "idle Stopped" "idle Crashed" "\<not> idle Abandoning" "\<not> idle Written" "\<not> idle Holding"
  "\<not> idle Writing" "\<not> idle Comparing" "\<not> idle Unlinking" "\<not> idle (Created n)"
  by (simp_all add: idle_def)

lemmas lock_file_defs = try_create_def read_back_def still_owned_def write_text_def unlink_def
  lock_file_matches_def at_def owner_ok_def

text \<open>An idle guard cannot disturb the lock of another, and can claim it only when it is free.\<close>

lemma idle_step:
  assumes "idle (guards s p)" "guard_step tok p a s = Some s'"
  shows "a \<in> {GiveUp, Crash} \<and> s' \<in> {goto p Stopped s, goto p Crashed s} \<or> a = TryCreate \<and> s' = try_create p s"
proof -
  from assms(1) consider "guards s p = Trying" | "guards s p = Stopped" | "guards s p = Crashed"
    by (auto simp: idle_def)
  then show ?thesis using assms(2) by cases (cases a; simp add: guard_step_def at_def Let_def)+
qed

lemma idle_step_implements:
  assumes inv: "implements_mutex tok owner s" and idle: "idle (guards s p)"
    and step: "guard_step tok p a s = Some s'"
  shows "\<exists>owner'. mutex_run owner (mutex_view (Access p a) s) = Some owner' \<and> implements_mutex tok owner' s'"
  using idle_step [OF idle step]
proof (elim disjE conjE)
  assume a: "a \<in> {GiveUp, Crash}" and s': "s' \<in> {goto p Stopped s, goto p Crashed s}"
  from a have "mutex_view (Access p a) s = []" by auto
  moreover from inv idle s' have "implements_mutex tok owner s'"
    by (cases owner) (auto simp: implements_mutex_def owner_ok_def)
  ultimately show ?thesis by simp
next
  assume "a = TryCreate" "s' = try_create p s"
  with inv idle show ?thesis
    by (cases owner) (auto simp: implements_mutex_def owner_ok_def try_create_def)
qed

lemma owner_step_implements:
  assumes inv: "implements_mutex tok (Some p) s" and busy: "\<not> idle (guards s p)"
    and step: "guard_step tok p a s = Some s'"
  shows "\<exists>owner'. mutex_run (Some p) (mutex_view (Access p a) s) = Some owner' \<and> implements_mutex tok owner' s'"
proof -
  from inv obtain n where n: "lock_entry s = Some n" "\<forall>q. q \<noteq> p \<longrightarrow> idle (guards s q)" "owner_ok tok p n s"
    by (auto simp: implements_mutex_def)
  with busy step show ?thesis
    by (cases a)
      (auto simp: guard_step_def Let_def implements_mutex_def lock_file_defs split: guard_state.splits if_splits)
qed

lemma busy_owner:
  assumes "implements_mutex tok owner s" "\<not> idle (guards s p)"
  shows "owner = Some p"
proof (cases owner)
  case (Some q)
  with assms show ?thesis by (cases "p = q") (auto simp: implements_mutex_def)
qed (use assms in \<open>auto simp: implements_mutex_def\<close>)

lemma step_implements:
  assumes inv: "implements_mutex tok owner s" and step: "lock_step tok (Access p a) s = Some s'"
  shows "\<exists>owner'. mutex_run owner (mutex_view (Access p a) s) = Some owner' \<and> implements_mutex tok owner' s'"
proof (cases "idle (guards s p)")
  case True
  with inv step show ?thesis using idle_step_implements by simp
next
  case False
  from busy_owner [OF inv False] inv step False show ?thesis using owner_step_implements by simp
qed

lemma mutex_run_append:
  "mutex_run owner (vs @ ws) = (case mutex_run owner vs of None \<Rightarrow> None | Some owner' \<Rightarrow> mutex_run owner' ws)"
  by (induction vs arbitrary: owner) (auto split: option.splits)

lemma run_implements:
  assumes "lock_run tok es s = Some s'" "OperatorRemoves \<notin> set es" "implements_mutex tok owner s"
  shows "\<exists>owner'. mutex_run owner (run_view tok es s) = Some owner' \<and> implements_mutex tok owner' s'"
  using assms
proof (induction es arbitrary: s owner)
  case (Cons ev es)
  then obtain p a s1 where ev: "ev = Access p a" "lock_step tok ev s = Some s1" "lock_run tok es s1 = Some s'"
    by (cases ev) (auto split: option.splits)
  from step_implements [OF Cons.prems(3) ev(2) [unfolded ev(1)]] obtain owner1
    where "mutex_run owner (mutex_view ev s) = Some owner1" "implements_mutex tok owner1 s1"
    unfolding ev(1) by blast
  with Cons.IH [OF ev(3)] Cons.prems(2) ev(2) show ?case by (auto simp: mutex_run_append)
qed simp

lemma start_implements: "implements_mutex tok None lock_start"
  by (simp add: implements_mutex_def lock_start_def)

lemma lock_run_snoc:
  "lock_run tok (es @ [ev]) s =
     (case lock_run tok es s of None \<Rightarrow> None | Some s' \<Rightarrow> lock_step tok ev s')"
  by (induction es arbitrary: s) (auto split: option.splits)

lemma step_of_another:
  assumes "lock_step tok ev s = Some s'" "\<forall>a. ev \<noteq> Access p a"
  shows "guards s' p = guards s p"
proof (cases ev)
  case (Access q a)
  with assms show ?thesis
    by (cases a) (auto simp: guard_step_def Let_def lock_file_defs split: guard_state.splits if_splits option.splits)
qed (use assms in \<open>auto simp: unlink_def\<close>)

lemma step_to_writing:
  assumes "lock_step tok (Access p a) s = Some s'" "guards s' p = Writing"
  shows "a = StillOwned \<and> still_owned tok p s"
  using assms
  by (cases a) (auto simp: guard_step_def Let_def at_def try_create_def read_back_def
      split: guard_state.splits if_splits option.splits)

section \<open>Properties of the lock\<close>

text \<open>
  Claim C21. The lock file implements a mutex. As long as no operator removes the file by hand, every
  interleaving of any number of guards, with crashes and failing accesses anywhere, is a run of the
  abstract mutex: a file is created only when no one owns the lock, and durable writes and removals
  of the file are done by the owner only.
\<close>

theorem lock_refines_mutex:
  assumes "lock_run tok es lock_start = Some s" "OperatorRemoves \<notin> set es"
  shows "\<exists>owner. mutex_run None (run_view tok es lock_start) = Some owner \<and>
    (\<forall>p. guards s p \<in> {Holding, Writing} \<longrightarrow> owner = Some p \<and> still_owned tok p s)"
proof -
  from run_implements [OF assms start_implements] obtain owner
    where run: "mutex_run None (run_view tok es lock_start) = Some owner" "implements_mutex tok owner s"
    by blast
  have "owner = Some p \<and> still_owned tok p s" if "guards s p \<in> {Holding, Writing}" for p
  proof -
    have busy: "\<not> idle (guards s p)" using that by auto
    with busy_owner [OF run(2)] run(2) that show ?thesis
      by (auto simp: implements_mutex_def owner_ok_def still_owned_def lock_file_matches_def)
  qed
  with run(1) show ?thesis by blast
qed

text \<open>
  A displaced holder does not write past its next check, whoever removed or replaced its
  file: in any run, with operators too, a guard that is about to write has, as its last own access, a
  check at which the file still carried its token.
\<close>

theorem writes_follow_a_check:
  assumes "lock_run tok es lock_start = Some s" "guards s p = Writing"
  shows "\<exists>before after s1. es = before @ Access p StillOwned # after \<and>
    lock_run tok before lock_start = Some s1 \<and> still_owned tok p s1 \<and> (\<forall>a. Access p a \<notin> set after)"
  using assms
proof (induction es arbitrary: s rule: rev_induct)
  case Nil
  then show ?case by (auto simp: lock_start_def)
next
  case (snoc ev es)
  then obtain s0 where s0: "lock_run tok es lock_start = Some s0" "lock_step tok ev s0 = Some s"
    by (auto simp: lock_run_snoc split: option.splits)
  show ?case
  proof (cases "\<exists>a. ev = Access p a")
    case True
    then obtain a where "ev = Access p a" by blast
    with step_to_writing [of tok p a s0 s] s0(2) snoc.prems(2)
    have "ev = Access p StillOwned" "still_owned tok p s0" by auto
    with s0(1) show ?thesis by (intro exI [of _ es] exI [of _ "[]"] exI [of _ s0]) simp
  next
    case False
    then have "guards s0 p = Writing" using step_of_another [OF s0(2)] snoc.prems(2) by simp
    from snoc.IH [OF s0(1) this] obtain before after s1 where
      "es = before @ Access p StillOwned # after" "lock_run tok before lock_start = Some s1"
      "still_owned tok p s1" "\<forall>a. Access p a \<notin> set after" by blast
    with False show ?thesis
      by (intro exI [of _ before] exI [of _ "after @ [ev]"] exI [of _ s1]) auto
  qed
qed

section \<open>Runs\<close>

definition demo_tok :: "nat \<Rightarrow> string" where
  "demo_tok p = replicate (Suc p) (CHR ''t'')"

definition hand_over :: "nat lock_event list" where
  "hand_over =
     [Access 0 TryCreate, Access 1 TryCreate, Access 0 WriteToken, Access 0 ReadBack, Access 0 StillOwned,
      Access 0 DurableWrite, Access 1 TryCreate, Access 0 DropGuard, Access 0 Compare, Access 0 Unlink,
      Access 1 TryCreate, Access 1 WriteToken, Access 1 ReadBack, Access 1 StillOwned]"

definition run_end :: "nat lock_event list \<Rightarrow> nat lock_state" where
  "run_end es = the (lock_run demo_tok es lock_start)"

lemma run_end_ok: "lock_run demo_tok hand_over lock_start = Some (run_end hand_over)"
proof -
  have "(case lock_run demo_tok hand_over lock_start of None \<Rightarrow> False | Some _ \<Rightarrow> True)" by code_simp
  then show ?thesis by (auto simp: run_end_def split: option.splits)
qed

lemma hand_over_writing: "guards (run_end hand_over) 1 = Writing"
  by code_simp

theorem lock_refines_mutex_witness:
  "mutex_run None (run_view demo_tok hand_over lock_start) = Some (Some 1) \<and> still_owned demo_tok 1 (run_end hand_over)"
proof -
  have "OperatorRemoves \<notin> set hand_over" by code_simp
  from lock_refines_mutex [OF run_end_ok this] hand_over_writing show ?thesis by auto
qed

text \<open>
  Guard 0 creates the file, an operator removes it, guard 1 acquires the lock, the write of guard 0 fails
  and its clean-up unlinks the file of guard 1, guard 2 acquires the lock.
\<close>

definition failed_write_run :: "nat lock_event list" where
  "failed_write_run =
     [Access 0 TryCreate, OperatorRemoves, Access 1 TryCreate, Access 1 WriteToken, Access 1 ReadBack,
      Access 0 (WriteFails 3), Access 0 Unlink, Access 2 TryCreate, Access 2 WriteToken, Access 2 ReadBack]"


end
