(* ===== verification/CG_Text.thy ===== *)
theory CG_Text
  imports CG_Prelude
begin

text \<open>
  Text as the sources format it: decimal numbers, the debug form of a string, the ASCII classes of a
  byte, the numbered findings of a loop over a vector, and the collection of fallible values.
\<close>

section \<open>Text\<close>

text \<open>Decimal digits and the debug form of a string (ASCII): quotes, with the usual escapes.\<close>

fun show_nat :: "nat \<Rightarrow> string" where
  "show_nat n = (if n < 10 then [char_of (48 + n)] else show_nat (n div 10) @ [char_of (48 + n mod 10)])"

declare show_nat.simps [simp del]

definition hex_of :: "nat \<Rightarrow> char" where
  "hex_of n = char_of (if n < 10 then 48 + n else 87 + n)"

definition debug_char :: "char \<Rightarrow> string" where
  "debug_char c =
     (let n = of_char c :: nat in
      if n = 34 \<or> n = 92 then [CHR 0x5C, c]
      else if n = 0 then [CHR 0x5C, CHR ''0'']
      else if n = 9 then [CHR 0x5C, CHR ''t'']
      else if n = 10 then [CHR 0x5C, CHR ''n'']
      else if n = 13 then [CHR 0x5C, CHR ''r'']
      else if n < 32 \<or> n = 127 then
        [CHR 0x5C, CHR ''u'', CHR 0x7B] @ (if n < 16 then [] else [hex_of (n div 16)])
        @ [hex_of (n mod 16), CHR 0x7D]
      else [c])"

definition debug_str :: "string \<Rightarrow> string" where
  "debug_str s = [CHR 0x22] @ concat (map debug_char s) @ [CHR 0x22]"

definition byte_in :: "nat list \<Rightarrow> char \<Rightarrow> bool" where
  "byte_in ns c \<longleftrightarrow> (of_char c :: nat) \<in> set ns"

definition ascii_digit :: "char \<Rightarrow> bool" where
  "ascii_digit c \<longleftrightarrow> (let n = of_char c :: nat in 48 \<le> n \<and> n \<le> 57)"

definition ascii_alphanumeric :: "char \<Rightarrow> bool" where
  "ascii_alphanumeric c \<longleftrightarrow>
     (let n = of_char c :: nat in ascii_digit c \<or> (65 \<le> n \<and> n \<le> 90) \<or> (97 \<le> n \<and> n \<le> 122))"

definition ascii_control :: "char \<Rightarrow> bool" where
  "ascii_control c \<longleftrightarrow> (let n = of_char c :: nat in n < 32 \<or> n = 127)"


text \<open>\<open>str::to_ascii_lowercase\<close>.\<close>

definition ascii_lower :: "char \<Rightarrow> char" where
  "ascii_lower c = (let n = of_char c :: nat in if 65 \<le> n \<and> n \<le> 90 then char_of (n + 32) else c)"

definition to_ascii_lowercase :: "string \<Rightarrow> string" where
  "to_ascii_lowercase s = map ascii_lower s"

text \<open>\<open>starts_with\<close>, and \<open>join_with\<close> of a vector of lines.\<close>

definition starts_with :: "string \<Rightarrow> string \<Rightarrow> bool" where
  "starts_with s p \<longleftrightarrow> take (length p) s = p"

fun join_with :: "string \<Rightarrow> string list \<Rightarrow> string" where
  "join_with sep [] = []"
| "join_with sep [x] = x"
| "join_with sep (x # y # ys) = x @ sep @ join_with sep (y # ys)"

section \<open>Numbered findings\<close>

text \<open>
  A validator walks a vector with \<open>enumerate\<close> and appends what each element shows; \<open>repeats\<close> lists
  the elements a \<open>BTreeSet\<close> filled in that order already held.
\<close>

definition each_indexed :: "(nat \<Rightarrow> 'a \<Rightarrow> 'f list) \<Rightarrow> 'a list \<Rightarrow> 'f list" where
  "each_indexed f xs = concat (map (\<lambda>(i, x). f i x) (enumerate 0 xs))"

fun repeats :: "'a set \<Rightarrow> 'a list \<Rightarrow> 'a list" where
  "repeats seen [] = []"
| "repeats seen (x # xs) = (if x \<in> seen then [x] else []) @ repeats (insert x seen) xs"

lemma each_indexed_upt: "each_indexed f xs = concat (map (\<lambda>i. f i (xs ! i)) [0..<length xs])"
proof -
  have "map (\<lambda>(i, x). f i x) (enumerate 0 xs) = map (\<lambda>i. f i (xs ! i)) [0..<length xs]"
    by (rule nth_equalityI) (simp_all add: nth_enumerate_eq)
  then show ?thesis by (simp add: each_indexed_def)
qed

lemma set_each_indexed: "set (each_indexed f xs) = (\<Union>i<length xs. set (f i (xs ! i)))"
  by (simp add: each_indexed_upt lessThan_atLeast0)

lemma each_indexed_Nil: "each_indexed f xs = [] \<longleftrightarrow> (\<forall>i<length xs. f i (xs ! i) = [])"
  by (auto simp: each_indexed_upt)

lemma each_indexed_Nil_all:
  assumes "\<And>i x. f i x = [] \<longleftrightarrow> P x"
  shows "each_indexed f xs = [] \<longleftrightarrow> list_all P xs"
  by (simp add: each_indexed_Nil assms list_all_length)

lemma repeats_Nil: "repeats seen xs = [] \<longleftrightarrow> distinct xs \<and> seen \<inter> set xs = {}"
  by (induction xs arbitrary: seen) auto

section \<open>A vector of fallible values\<close>

lemma those_map_Some: "those (map f xs) = Some ys \<longleftrightarrow> map f xs = map Some ys"
proof (induction xs arbitrary: ys)
  case (Cons x xs)
  then show ?case by (cases ys; cases "f x"; cases "those (map f xs)") auto
qed auto

lemma those_map_None: "those (map f xs) = None \<longleftrightarrow> (\<exists>x\<in>set xs. f x = None)"
  by (induction xs) (auto split: option.splits)

end
