(* ===== verification/Execution_Topology.thy ===== *)
theory Execution_Topology
  imports CG_Text "HOL-Library.Product_Lexorder" "HOL-Library.Option_ord" "HOL-Library.Word"
    "HOL-Library.Multiset"
begin

text \<open>
  \<open>src/execution_topology.rs\<close>: the topology contract (nodes with inputs, outputs and resource claims,
  typed edges, declared policies), its intrinsic validation, the check of the work-cell references
  and the canonical form that is hashed. JSON parsing and printing belong to \<open>serde_json\<close>: the
  printer is the parameter of \<open>canonical_execution_topology\<close>, and the digest that of
  \<open>execution_topology_content_hash\<close>.
\<close>

section \<open>Data\<close>

datatype resource_mode = RmRead | RmWrite | RmExclusive

datatype workspace_strategy = WsShared | WsIsolatedWorktree | WsEphemeral

text \<open>The derived order of the two enumerations is the order of their constructors.\<close>

fun mode_rank :: "resource_mode \<Rightarrow> nat" where
  "mode_rank RmRead = 0"
| "mode_rank RmWrite = 1"
| "mode_rank RmExclusive = 2"

fun strategy_rank :: "workspace_strategy \<Rightarrow> nat" where
  "strategy_rank WsShared = 0"
| "strategy_rank WsIsolatedWorktree = 1"
| "strategy_rank WsEphemeral = 2"

lemma mode_rank_inject: "mode_rank x = mode_rank y \<Longrightarrow> x = y"
  by (cases x; cases y) simp_all

lemma strategy_rank_inject: "strategy_rank x = strategy_rank y \<Longrightarrow> x = y"
  by (cases x; cases y) simp_all

instantiation resource_mode :: linorder
begin

definition less_eq_resource_mode :: "resource_mode \<Rightarrow> resource_mode \<Rightarrow> bool" where
  "less_eq_resource_mode x y \<longleftrightarrow> mode_rank x \<le> mode_rank y"

definition less_resource_mode :: "resource_mode \<Rightarrow> resource_mode \<Rightarrow> bool" where
  "less_resource_mode x y \<longleftrightarrow> mode_rank x < mode_rank y"

instance
  by standard (auto simp: less_eq_resource_mode_def less_resource_mode_def intro: mode_rank_inject)

end

instantiation workspace_strategy :: linorder
begin

definition less_eq_workspace_strategy :: "workspace_strategy \<Rightarrow> workspace_strategy \<Rightarrow> bool" where
  "less_eq_workspace_strategy x y \<longleftrightarrow> strategy_rank x \<le> strategy_rank y"

definition less_workspace_strategy :: "workspace_strategy \<Rightarrow> workspace_strategy \<Rightarrow> bool" where
  "less_workspace_strategy x y \<longleftrightarrow> strategy_rank x < strategy_rank y"

instance
  by standard (auto simp: less_eq_workspace_strategy_def less_workspace_strategy_def intro: strategy_rank_inject)

end

datatype side_effects = SeNone | SeWorkspace | SeExternal | SeWorkspaceAndExternal

datatype delivery_mode = DmBarrier | DmStreaming

text \<open>The release semantics of \<open>streaming_reconciliation.rs\<close>, which requests of a simulation name too.\<close>

datatype stage_release_semantics = TerminalArtifactStagePipeliningV0

datatype edge_kind = EkData | EkControl | EkEvidence | EkReviewOrAuthority | EkResourceExclusion | EkTemporal

datatype completeness_policy = AllExpectedNodesReported

record topology_provenance =
  tp_source :: string
  tp_created_by :: string

record node_input =
  in_name :: string
  in_schema_id :: string
  artifact_selector :: string

record node_output =
  out_name :: string
  out_schema_id :: string

record resource_claim =
  claim_resource :: string
  claim_mode :: resource_mode
  claim_rate_limit_group :: "string option"
  claim_workspace_strategy :: "workspace_strategy option"
  claim_network_scope :: "string list"
  claim_secret_scope :: "string list"

record topology_node =
  tn_node_id :: string
  tn_work_cell_id :: string
  tn_purpose :: string
  tn_inputs :: "node_input list"
  tn_outputs :: "node_output list"
  tn_side_effects :: side_effects
  tn_resource_claims :: "resource_claim list"
  tn_executor_class :: string
  tn_verification_policy_id :: "string option"
  tn_budget_policy_id :: "string option"
  tn_idempotency_key :: string
  tn_delivery :: delivery_mode
  tn_expansion_policy_id :: "string option"
  tn_estimated_duration_ms :: "64 word option"
  tn_provenance :: topology_provenance

record topology_edge =
  te_edge_id :: string
  te_from :: string
  te_to :: string
  te_kind :: edge_kind
  te_output :: "string option"
  te_input :: "string option"
  te_schema_id :: "string option"
  te_blocking_predicate :: string
  te_dependency_witness :: string
  te_removal_counterexample :: string
  te_resource_scope :: "string list"
  te_provenance :: topology_provenance

record execution_topology =
  topo_schema :: string
  topo_schema_version :: nat
  topo_id :: string
  topo_case_space_id :: string
  topo_nodes :: "topology_node list"
  topo_edges :: "topology_edge list"
  topo_verification_policy_ids :: "string list"
  topo_budget_policy_ids :: "string list"
  topo_expansion_policy_ids :: "string list"
  topo_completeness_policy :: completeness_policy
  topo_provenance :: topology_provenance

record topology_finding =
  tf_code :: string
  tf_location :: string
  tf_detail :: string

definition execution_topology_schema :: string where
  "execution_topology_schema = ''casegraphen.experimental.execution.topology.v0''"

definition execution_topology_schema_version :: nat where
  "execution_topology_schema_version = 0"

section \<open>Validation\<close>

definition topology_finding_of :: "string \<Rightarrow> string \<Rightarrow> string \<Rightarrow> topology_finding" where
  "topology_finding_of code location detail = \<lparr>tf_code = code, tf_location = location, tf_detail = detail\<rparr>"

definition finding_when :: "bool \<Rightarrow> string \<Rightarrow> string \<Rightarrow> string \<Rightarrow> topology_finding list" where
  "finding_when b code location detail = (if b then [topology_finding_of code location detail] else [])"

definition required :: "string \<Rightarrow> string \<Rightarrow> topology_finding list" where
  "required value location = finding_when (blank value) ''empty_required_field'' location ''value must not be empty''"

definition unique_names :: "string list \<Rightarrow> string \<Rightarrow> string \<Rightarrow> topology_finding list" where
  "unique_names values code location =
     map (\<lambda>value. topology_finding_of code location (''duplicate name '' @ debug_str value)) (repeats {} values)"

definition validate_policy_reference ::
  "string option \<Rightarrow> string list \<Rightarrow> string \<Rightarrow> string \<Rightarrow> topology_finding list" where
  "validate_policy_reference reference known field location =
     (case reference of
        None \<Rightarrow> []
      | Some p \<Rightarrow>
          finding_when (p \<notin> set known) ''unknown_policy_reference'' (location @ ''.'' @ field)
            (p @ '' is not declared by this topology''))"

definition at_index :: "string \<Rightarrow> nat \<Rightarrow> string" where
  "at_index location index = location @ ''['' @ show_nat index @ '']''"

definition required_each :: "string list \<Rightarrow> string \<Rightarrow> topology_finding list" where
  "required_each values location = each_indexed (\<lambda>i value. required value (at_index location i)) values"

definition required_provenance :: "topology_provenance \<Rightarrow> string \<Rightarrow> topology_finding list" where
  "required_provenance p location =
     required (tp_source p) (location @ ''.provenance.source'')
     @ required (tp_created_by p) (location @ ''.provenance.created_by'')"

definition validate_inputs :: "string \<Rightarrow> node_input list \<Rightarrow> topology_finding list" where
  "validate_inputs location ins =
     each_indexed (\<lambda>i x.
       required (in_name x) (at_index (location @ ''.inputs'') i @ ''.name'')
       @ required (in_schema_id x) (at_index (location @ ''.inputs'') i @ ''.schema_id'')
       @ required (artifact_selector x) (at_index (location @ ''.inputs'') i @ ''.artifact_selector'')) ins"

definition validate_outputs :: "string \<Rightarrow> node_output list \<Rightarrow> topology_finding list" where
  "validate_outputs location outs =
     each_indexed (\<lambda>i x.
       required (out_name x) (at_index (location @ ''.outputs'') i @ ''.name'')
       @ required (out_schema_id x) (at_index (location @ ''.outputs'') i @ ''.schema_id'')) outs"

definition validate_claims :: "string \<Rightarrow> resource_claim list \<Rightarrow> topology_finding list" where
  "validate_claims location cs =
     each_indexed (\<lambda>i c.
       (let here = at_index (location @ ''.resource_claims'') i in
        required (claim_resource c) (here @ ''.resource'')
        @ (case claim_rate_limit_group c of None \<Rightarrow> [] | Some g \<Rightarrow> required g (here @ ''.rate_limit_group''))
        @ required_each (claim_network_scope c) (here @ ''.network_scope'')
        @ required_each (claim_secret_scope c) (here @ ''.secret_scope''))) cs"

definition validate_node :: "execution_topology \<Rightarrow> string set \<Rightarrow> nat \<Rightarrow> topology_node \<Rightarrow> topology_finding list" where
  "validate_node t seen index n =
     (let location = at_index ''$.nodes'' index in
      required (tn_node_id n) (location @ ''.node_id'')
      @ required (tn_work_cell_id n) (location @ ''.work_cell_id'')
      @ required (tn_purpose n) (location @ ''.purpose'')
      @ required (tn_executor_class n) (location @ ''.executor_class'')
      @ required (tn_idempotency_key n) (location @ ''.idempotency_key'')
      @ finding_when (tn_node_id n \<in> seen) ''duplicate_node_id'' (location @ ''.node_id'') ''node_id must be unique''
      @ unique_names (map in_name (tn_inputs n)) ''duplicate_input_name'' (location @ ''.inputs'')
      @ unique_names (map out_name (tn_outputs n)) ''duplicate_output_name'' (location @ ''.outputs'')
      @ validate_inputs location (tn_inputs n)
      @ validate_outputs location (tn_outputs n)
      @ validate_claims location (tn_resource_claims n)
      @ required_provenance (tn_provenance n) location
      @ validate_policy_reference (tn_verification_policy_id n) (topo_verification_policy_ids t)
          ''verification_policy_id'' location
      @ validate_policy_reference (tn_budget_policy_id n) (topo_budget_policy_ids t) ''budget_policy_id'' location
      @ validate_policy_reference (tn_expansion_policy_id n) (topo_expansion_policy_ids t)
          ''expansion_policy_id'' location)"

fun validate_nodes :: "execution_topology \<Rightarrow> string set \<Rightarrow> nat \<Rightarrow> topology_node list \<Rightarrow> topology_finding list" where
  "validate_nodes t seen index [] = []"
| "validate_nodes t seen index (n # ns) =
     validate_node t seen index n @ validate_nodes t (insert (tn_node_id n) seen) (Suc index) ns"

text \<open>The map \<open>nodes\<close> after the loop: a later node of the same id has replaced an earlier one.\<close>

definition node_named :: "execution_topology \<Rightarrow> string \<Rightarrow> topology_node option" where
  "node_named t = fold (\<lambda>n m. m(tn_node_id n \<mapsto> n)) (topo_nodes t) Map.empty"

definition validate_data_edge ::
  "topology_edge \<Rightarrow> topology_node option \<Rightarrow> topology_node option \<Rightarrow> string \<Rightarrow> topology_finding list" where
  "validate_data_edge e source target location =
     (case (te_output e, te_input e, te_schema_id e) of
        (Some output, Some input, Some schema_id) \<Rightarrow>
          (case source of
             None \<Rightarrow> []
           | Some n \<Rightarrow>
               finding_when (\<not> (\<exists>x\<in>set (tn_outputs n). out_name x = output \<and> out_schema_id x = schema_id))
                 ''unknown_output_binding'' (location @ ''.output'')
                 ''output and schema_id must match a source output'')
          @ (case target of
               None \<Rightarrow> []
             | Some n \<Rightarrow>
                 finding_when (\<not> (\<exists>x\<in>set (tn_inputs n). in_name x = input \<and> in_schema_id x = schema_id))
                   ''unknown_input_binding'' (location @ ''.input'')
                   ''input and schema_id must match a target input'')
      | _ \<Rightarrow>
          [topology_finding_of ''incomplete_data_binding'' location ''data edges require output, input, and schema_id''])"

definition claims_resource :: "topology_node \<Rightarrow> string \<Rightarrow> bool" where
  "claims_resource n res \<longleftrightarrow> (\<exists>c\<in>set (tn_resource_claims n). claim_resource c = res)"

definition validate_exclusion_edge ::
  "topology_edge \<Rightarrow> topology_node option \<Rightarrow> topology_node option \<Rightarrow> string \<Rightarrow> topology_finding list" where
  "validate_exclusion_edge e source target location =
     (case (source, target) of
        (Some s, Some g) \<Rightarrow>
          concat (map (\<lambda>res.
            finding_when (\<not> claims_resource s res \<or> \<not> claims_resource g res)
              ''unknown_resource_scope'' (location @ ''.resource_scope'')
              (res @ '' must be declared by both endpoints of a resource_exclusion edge'')) (te_resource_scope e))
      | _ \<Rightarrow> [])"

text \<open>The \<open>match\<close> on the kind of an edge, with its guards in order.\<close>

definition validate_edge_kind ::
  "topology_edge \<Rightarrow> topology_node option \<Rightarrow> topology_node option \<Rightarrow> string \<Rightarrow> topology_finding list" where
  "validate_edge_kind e source target location =
     (if te_kind e = EkData then validate_data_edge e source target location
      else if te_output e \<noteq> None \<or> te_input e \<noteq> None \<or> te_schema_id e \<noteq> None then
        [topology_finding_of ''binding_on_non_data_edge'' location ''only data edges carry output/input/schema bindings'']
      else if te_kind e = EkResourceExclusion then
        (if te_resource_scope e = [] then
           [topology_finding_of ''missing_resource_scope'' (location @ ''.resource_scope'')
              ''resource_exclusion requires at least one protected resource'']
         else validate_exclusion_edge e source target location)
      else [])"

definition validate_edge ::
  "(string \<Rightarrow> topology_node option) \<Rightarrow> string set \<Rightarrow> nat \<Rightarrow> topology_edge \<Rightarrow> topology_finding list" where
  "validate_edge nodes seen index e =
     (let location = at_index ''$.edges'' index; source = nodes (te_from e); target = nodes (te_to e) in
      required (te_edge_id e) (location @ ''.edge_id'')
      @ required (te_from e) (location @ ''.from'')
      @ required (te_to e) (location @ ''.to'')
      @ required (te_blocking_predicate e) (location @ ''.blocking_predicate'')
      @ required (te_dependency_witness e) (location @ ''.dependency_witness'')
      @ required (te_removal_counterexample e) (location @ ''.removal_counterexample'')
      @ required_provenance (te_provenance e) location
      @ required_each (te_resource_scope e) (location @ ''.resource_scope'')
      @ finding_when (te_edge_id e \<in> seen) ''duplicate_edge_id'' (location @ ''.edge_id'') ''edge_id must be unique''
      @ finding_when (source = None) ''unknown_edge_source'' (location @ ''.from'') ''from must name a topology node''
      @ finding_when (target = None) ''unknown_edge_target'' (location @ ''.to'') ''to must name a topology node''
      @ finding_when (te_from e = te_to e) ''self_edge'' location
          ''an execution dependency cannot target its own node''
      @ validate_edge_kind e source target location)"

fun validate_edges ::
  "(string \<Rightarrow> topology_node option) \<Rightarrow> string set \<Rightarrow> nat \<Rightarrow> topology_edge list \<Rightarrow> topology_finding list" where
  "validate_edges nodes seen index [] = []"
| "validate_edges nodes seen index (e # es) =
     validate_edge nodes seen index e @ validate_edges nodes (insert (te_edge_id e) seen) (Suc index) es"

definition validate_topology_header :: "execution_topology \<Rightarrow> topology_finding list" where
  "validate_topology_header t =
     finding_when (topo_schema t \<noteq> execution_topology_schema) ''unsupported_schema'' ''$.schema''
       ''schema must name execution.topology.v0''
     @ finding_when (topo_schema_version t \<noteq> execution_topology_schema_version) ''unsupported_schema_version''
         ''$.schema_version'' ''schema_version must be 0''
     @ required (topo_id t) ''$.topology_id''
     @ required (topo_case_space_id t) ''$.case_space_id''
     @ finding_when (topo_nodes t = []) ''empty_topology'' ''$.nodes'' ''at least one node is required''
     @ unique_names (topo_verification_policy_ids t) ''duplicate_policy_id'' ''$.verification_policy_ids''
     @ unique_names (topo_budget_policy_ids t) ''duplicate_policy_id'' ''$.budget_policy_ids''
     @ unique_names (topo_expansion_policy_ids t) ''duplicate_policy_id'' ''$.expansion_policy_ids''
     @ required_each (topo_verification_policy_ids t) ''$.verification_policy_ids''
     @ required_each (topo_budget_policy_ids t) ''$.budget_policy_ids''
     @ required_each (topo_expansion_policy_ids t) ''$.expansion_policy_ids''
     @ required_provenance (topo_provenance t) ''$''"

definition topology_finding_key :: "topology_finding \<Rightarrow> string \<times> string \<times> string" where
  "topology_finding_key f = (tf_code f, tf_location f, tf_detail f)"

definition sort_findings :: "topology_finding list \<Rightarrow> topology_finding list" where
  "sort_findings fs = sort_key topology_finding_key fs"

definition validate_execution_topology :: "execution_topology \<Rightarrow> topology_finding list" where
  "validate_execution_topology t =
     sort_findings
       (validate_topology_header t @ validate_nodes t {} 0 (topo_nodes t)
        @ validate_edges (node_named t) {} 0 (topo_edges t))"

definition validate_work_cell_references :: "execution_topology \<Rightarrow> string set \<Rightarrow> topology_finding list" where
  "validate_work_cell_references t work_cell_ids =
     sort_findings
       (each_indexed (\<lambda>i n.
          finding_when (tn_work_cell_id n \<notin> work_cell_ids) ''unknown_work_cell''
            (at_index ''$.nodes'' i @ ''.work_cell_id'')
            (tn_work_cell_id n @ '' is not present in the supplied case graph'')) (topo_nodes t))"

section \<open>Canonical form\<close>

definition claim_key ::
  "resource_claim \<Rightarrow> string \<times> resource_mode \<times> string option \<times> workspace_strategy option \<times> string list \<times> string list" where
  "claim_key c =
     (claim_resource c, claim_mode c, claim_rate_limit_group c, claim_workspace_strategy c,
      claim_network_scope c, claim_secret_scope c)"

definition normalize_claim :: "resource_claim \<Rightarrow> resource_claim" where
  "normalize_claim c = c\<lparr>claim_network_scope := sort (claim_network_scope c), claim_secret_scope := sort (claim_secret_scope c)\<rparr>"

definition normalize_node :: "topology_node \<Rightarrow> topology_node" where
  "normalize_node n =
     n\<lparr>tn_inputs := sort_key in_name (tn_inputs n), tn_outputs := sort_key out_name (tn_outputs n),
       tn_resource_claims := sort_key claim_key (map normalize_claim (tn_resource_claims n))\<rparr>"

definition normalize_edge :: "topology_edge \<Rightarrow> topology_edge" where
  "normalize_edge e = e\<lparr>te_resource_scope := sort (te_resource_scope e)\<rparr>"

definition normalize_topology :: "execution_topology \<Rightarrow> execution_topology" where
  "normalize_topology t =
     t\<lparr>topo_nodes := map normalize_node (sort_key tn_node_id (topo_nodes t)),
       topo_edges := map normalize_edge (sort_key te_edge_id (topo_edges t)),
       topo_verification_policy_ids := sort (topo_verification_policy_ids t),
       topo_budget_policy_ids := sort (topo_budget_policy_ids t),
       topo_expansion_policy_ids := sort (topo_expansion_policy_ids t)\<rparr>"

definition canonical_execution_topology ::
  "(execution_topology \<Rightarrow> ('e, string) result) \<Rightarrow> execution_topology \<Rightarrow> ('e, string) result" where
  "canonical_execution_topology to_string t = to_string (normalize_topology t)"

definition execution_topology_content_hash ::
  "(execution_topology \<Rightarrow> ('e, string) result) \<Rightarrow> (string \<Rightarrow> string) \<Rightarrow> execution_topology \<Rightarrow> ('e, string) result" where
  "execution_topology_content_hash to_string digest t =
     rbind (canonical_execution_topology to_string t) (\<lambda>canonical. Ok (digest canonical))"

definition parse_execution_topology ::
  "(string \<Rightarrow> (string, execution_topology) result) \<Rightarrow> string \<Rightarrow> (topology_finding list, execution_topology) result" where
  "parse_execution_topology from_str input =
     rbind (map_err (\<lambda>message. [topology_finding_of ''invalid_json'' ''$'' message]) (from_str input)) (\<lambda>t.
     let findings = validate_execution_topology t in
     if findings = [] then Ok t else Err findings)"

end
