(* ===== verification/Resource_Protocol.thy ===== *)
theory Resource_Protocol
  imports Execution_Topology
begin

text \<open>
  \<open>src/resource_protocol.rs\<close>: declarations, reservations and dispositions of resources, the occupancy
  index of the active reservations, the evaluator that grants a reservation against it, and the
  reconciliation of what a runtime reports with what was granted. The content hash of an
  execution topology is the parameter \<open>topology_hash\<close>.
\<close>

section \<open>Data\<close>

record resource_declaration =
  rd_schema :: string
  rd_schema_version :: nat
  declaration_id :: string
  runtime_graph_id :: string
  runtime_graph_content_hash :: string
  rd_node_id :: string
  claims :: "resource_claim list"

record resource_grant =
  resource_id :: string
  grant_mode :: resource_mode
  rate_limit_group :: "string option"
  rate_limit_units :: nat
  grant_workspace_strategy :: "workspace_strategy option"
  network_scope :: "string list"
  secret_scope :: "string list"

record resource_reservation =
  rr_schema :: string
  rr_schema_version :: nat
  reservation_id :: string
  rr_declaration_id :: string
  attempt_id :: string
  granted_at :: string
  grants :: "resource_grant list"

datatype assertion_kind = AkRelease | AkSupersede | AkExpire

record disposition_assertion =
  da_schema :: string
  da_schema_version :: nat
  assertion_id :: string
  da_reservation_id :: string
  da_attempt_id :: string
  da_kind :: assertion_kind
  asserted_by :: string
  da_reason :: string
  superseding_reservation_id :: "string option"

record rate_limit_capacity =
  rc_schema :: string
  rc_schema_version :: nat
  group_id :: string
  capacity :: nat

record resource_allocation =
  ra_schema :: string
  ra_schema_version :: nat
  allocation_id :: string
  ra_reservation_id :: string
  ra_attempt_id :: string
  ra_resource_id :: string
  ra_mode :: resource_mode
  ra_rate_limit_group :: "string option"
  ra_rate_limit_units :: nat
  ra_workspace_strategy :: "workspace_strategy option"
  ra_network_scope :: "string list"
  ra_secret_scope :: "string list"
  ra_worktree_id :: "string option"
  ra_trust_boundary :: string

record protocol_finding =
  pf_code :: string
  pf_resource_id :: "string option"
  pf_reservation_id :: "string option"
  pf_allocation_id :: "string option"
  pf_detail :: string

definition resource_declaration_schema :: string where
  "resource_declaration_schema = ''casegraphen.experimental.resource.declaration.v0''"

definition resource_reservation_schema :: string where
  "resource_reservation_schema = ''casegraphen.experimental.resource.reservation.v0''"

definition reservation_assertion_schema :: string where
  "reservation_assertion_schema = ''casegraphen.experimental.resource.reservation_disposition.v0''"

definition rate_limit_capacity_schema :: string where
  "rate_limit_capacity_schema = ''casegraphen.experimental.resource.rate_limit_capacity.v0''"

definition resource_allocation_schema :: string where
  "resource_allocation_schema = ''casegraphen.experimental.runtime.resource_allocation.v0''"

definition runtime_allocation_trust_boundary :: string where
  "runtime_allocation_trust_boundary = ''runtime_reported_untrusted_until_independently_reconciled''"

section \<open>Identifiers\<close>

text \<open>\<open>is_canonical_id\<close>: a namespace and a value around the first colon.\<close>

definition split_once :: "char \<Rightarrow> string \<Rightarrow> (string \<times> string) option" where
  "split_once c s =
     (if c \<in> set s then Some (takeWhile (\<lambda>x. x \<noteq> c) s, drop 1 (dropWhile (\<lambda>x. x \<noteq> c) s)) else None)"

definition is_canonical_id :: "string \<Rightarrow> bool" where
  "is_canonical_id s =
     (case split_once (CHR '':'') s of
        None \<Rightarrow> False
      | Some (namespace, identity) \<Rightarrow>
          namespace \<noteq> [] \<and> identity \<noteq> [] \<and>
          list_all (\<lambda>c. ascii_alphanumeric c \<or> c \<in> {CHR ''_'', CHR ''-'', CHR ''.''}) namespace \<and>
          list_all (\<lambda>c. \<not> byte_in [32, 9, 10, 12, 13] c \<and> \<not> ascii_control c) identity)"

definition is_git_sha :: "string \<Rightarrow> bool" where
  "is_git_sha s \<longleftrightarrow>
     length s = 40 \<and>
     list_all (\<lambda>c. ascii_digit c \<or> (let n = of_char c :: nat in 97 \<le> n \<and> n \<le> 102)) s"

section \<open>Findings\<close>

definition finding_of :: "string \<Rightarrow> string option \<Rightarrow> string option \<Rightarrow> string option \<Rightarrow> string \<Rightarrow> protocol_finding" where
  "finding_of code res rsv alloc detail =
     \<lparr>pf_code = code, pf_resource_id = res, pf_reservation_id = rsv, pf_allocation_id = alloc, pf_detail = detail\<rparr>"

definition finding_unless :: "bool \<Rightarrow> protocol_finding \<Rightarrow> protocol_finding list" where
  "finding_unless ok f = (if ok then [] else [f])"

text \<open>\<open>finding_order\<close>, and the sort followed by \<open>dedup\<close> that ends every evaluator.\<close>

definition finding_key ::
  "protocol_finding \<Rightarrow> string \<times> string option \<times> string option \<times> string option \<times> string" where
  "finding_key f = (pf_code f, pf_resource_id f, pf_reservation_id f, pf_allocation_id f, pf_detail f)"

definition sort_dedup :: "protocol_finding list \<Rightarrow> protocol_finding list" where
  "sort_dedup fs = remdups_adj (sort_key finding_key fs)"

lemma finding_unless_Nil [simp]: "finding_unless ok f = [] \<longleftrightarrow> ok"
  by (simp add: finding_unless_def)

lemma set_sort_dedup [simp]: "set (sort_dedup fs) = set fs"
  by (simp add: sort_dedup_def)

lemma sort_dedup_Nil [simp]: "sort_dedup fs = [] \<longleftrightarrow> fs = []"
  by (metis set_sort_dedup set_empty)

definition allocation_finding :: "resource_allocation \<Rightarrow> string \<Rightarrow> string \<Rightarrow> protocol_finding" where
  "allocation_finding a code detail =
     finding_of code (Some (ra_resource_id a)) (Some (ra_reservation_id a)) (Some (allocation_id a)) detail"

section \<open>Occupancy\<close>

record mode_occupancy =
  readers :: "string set"
  writers :: "string set"
  exclusive :: "string set"

record occupancy_index =
  oc_reservation_ids :: "string set"
  oc_attempt_ids :: "string set"
  oc_resources :: "(string, mode_occupancy) fmap"
  oc_rate_limit_units :: "(string, nat) fmap"

datatype occupancy_error =
    MissingReservationIdentity
  | MissingAttemptIdentity
  | MissingResourceHolder string
  | MissingRateLimitUsage string
  | RateLimitUsageUnderflow string

definition empty_occupancy :: occupancy_index where
  "empty_occupancy =
     \<lparr>oc_reservation_ids = {}, oc_attempt_ids = {}, oc_resources = fmempty, oc_rate_limit_units = fmempty\<rparr>"

definition no_holders :: mode_occupancy where
  "no_holders = \<lparr>readers = {}, writers = {}, exclusive = {}\<rparr>"

fun mode_holders :: "resource_mode \<Rightarrow> mode_occupancy \<Rightarrow> string set" where
  "mode_holders RmRead h = readers h"
| "mode_holders RmWrite h = writers h"
| "mode_holders RmExclusive h = exclusive h"

fun update_holders :: "resource_mode \<Rightarrow> (string set \<Rightarrow> string set) \<Rightarrow> mode_occupancy \<Rightarrow> mode_occupancy" where
  "update_holders RmRead f h = h\<lparr>readers := f (readers h)\<rparr>"
| "update_holders RmWrite f h = h\<lparr>writers := f (writers h)\<rparr>"
| "update_holders RmExclusive f h = h\<lparr>exclusive := f (exclusive h)\<rparr>"

definition holders_at :: "occupancy_index \<Rightarrow> string \<Rightarrow> mode_occupancy" where
  "holders_at idx res = (case fmlookup (oc_resources idx) res of None \<Rightarrow> no_holders | Some h \<Rightarrow> h)"

definition units_at :: "(string, nat) fmap \<Rightarrow> string \<Rightarrow> nat" where
  "units_at m g = (case fmlookup m g of None \<Rightarrow> 0 | Some n \<Rightarrow> n)"

definition add_units :: "resource_grant \<Rightarrow> (string, nat) fmap \<Rightarrow> (string, nat) fmap" where
  "add_units grant m =
     (case rate_limit_group grant of
        None \<Rightarrow> m
      | Some g \<Rightarrow> fmupd g (units_at m g + rate_limit_units grant) m)"

definition insert_grant :: "string \<Rightarrow> resource_grant \<Rightarrow> occupancy_index \<Rightarrow> occupancy_index" where
  "insert_grant rid grant idx =
     idx\<lparr>oc_resources := fmupd (resource_id grant)
           (update_holders (grant_mode grant) (insert rid) (holders_at idx (resource_id grant))) (oc_resources idx),
         oc_rate_limit_units := add_units grant (oc_rate_limit_units idx)\<rparr>"

definition occupancy_insert :: "resource_reservation \<Rightarrow> occupancy_index \<Rightarrow> occupancy_index" where
  "occupancy_insert r idx =
     fold (insert_grant (reservation_id r)) (grants r)
       (idx\<lparr>oc_reservation_ids := insert (reservation_id r) (oc_reservation_ids idx),
            oc_attempt_ids := insert (attempt_id r) (oc_attempt_ids idx)\<rparr>)"

definition from_active_reservations :: "resource_reservation list \<Rightarrow> occupancy_index" where
  "from_active_reservations rs = fold occupancy_insert rs empty_occupancy"

text \<open>The checks of \<open>remove\<close> come first and change nothing.\<close>

definition check_units :: "resource_grant \<Rightarrow> occupancy_index \<Rightarrow> (occupancy_error, unit) result" where
  "check_units grant idx =
     (case rate_limit_group grant of
        None \<Rightarrow> Ok ()
      | Some g \<Rightarrow>
          rbind (ok_or (fmlookup (oc_rate_limit_units idx) g) (MissingRateLimitUsage g)) (\<lambda>units.
          ensure (rate_limit_units grant \<le> units) (RateLimitUsageUnderflow g)))"

definition check_holder :: "string \<Rightarrow> occupancy_index \<Rightarrow> resource_grant \<Rightarrow> (occupancy_error, unit) result" where
  "check_holder rid idx grant =
     rbind (ok_or (fmlookup (oc_resources idx) (resource_id grant)) (MissingResourceHolder (resource_id grant))) (\<lambda>h.
     rbind (ensure (rid \<in> mode_holders (grant_mode grant) h) (MissingResourceHolder (resource_id grant))) (\<lambda>_.
     check_units grant idx))"

definition release_units :: "resource_grant \<Rightarrow> (string, nat) fmap \<Rightarrow> (occupancy_error, (string, nat) fmap) result" where
  "release_units grant m =
     (case rate_limit_group grant of
        None \<Rightarrow> Ok m
      | Some g \<Rightarrow>
          rbind (ok_or (fmlookup m g) (MissingRateLimitUsage g)) (\<lambda>units.
          rbind (ensure (rate_limit_units grant \<le> units) (RateLimitUsageUnderflow g)) (\<lambda>_.
          (let remaining = units - rate_limit_units grant
           in Ok (if remaining = 0 then fmdrop g m else fmupd g remaining m)))))"

definition remove_grant ::
  "string \<Rightarrow> occupancy_index \<times> string list \<Rightarrow> resource_grant
   \<Rightarrow> (occupancy_error, occupancy_index \<times> string list) result" where
  "remove_grant rid st grant =
     (case st of (idx, empties) \<Rightarrow>
        rbind (ok_or (fmlookup (oc_resources idx) (resource_id grant))
                 (MissingResourceHolder (resource_id grant))) (\<lambda>h.
        (let h' = update_holders (grant_mode grant) (\<lambda>s. s - {rid}) h in
         rbind (release_units grant (oc_rate_limit_units idx)) (\<lambda>units.
         Ok (idx\<lparr>oc_resources := fmupd (resource_id grant) h' (oc_resources idx), oc_rate_limit_units := units\<rparr>,
             if h' = no_holders then empties @ [resource_id grant] else empties)))))"

definition occupancy_remove :: "resource_reservation \<Rightarrow> occupancy_index \<Rightarrow> (occupancy_error, occupancy_index) result" where
  "occupancy_remove r idx =
     rbind (ensure (reservation_id r \<in> oc_reservation_ids idx) MissingReservationIdentity) (\<lambda>_.
     rbind (ensure (attempt_id r \<in> oc_attempt_ids idx) MissingAttemptIdentity) (\<lambda>_.
     rbind (each_res (check_holder (reservation_id r) idx) (grants r)) (\<lambda>_.
     rbind (fold_res (remove_grant (reservation_id r))
              (idx\<lparr>oc_reservation_ids := oc_reservation_ids idx - {reservation_id r},
                   oc_attempt_ids := oc_attempt_ids idx - {attempt_id r}\<rparr>, []) (grants r)) (\<lambda>(idx', empties).
     Ok (idx'\<lparr>oc_resources := fold fmdrop empties (oc_resources idx')\<rparr>)))))"

section \<open>Granting\<close>

definition declaration_grants :: "resource_declaration \<Rightarrow> resource_grant list" where
  "declaration_grants d =
     map (\<lambda>c. \<lparr>resource_id = claim_resource c, grant_mode = claim_mode c,
               rate_limit_group = claim_rate_limit_group c,
               rate_limit_units = (if claim_rate_limit_group c = None then 0 else 1),
               grant_workspace_strategy = claim_workspace_strategy c,
               network_scope = claim_network_scope c, secret_scope = claim_secret_scope c\<rparr>) (claims d)"

text \<open>What ends a reservation: an assertion in order that names the reservation and its attempt.\<close>

definition disposes :: "resource_reservation \<Rightarrow> disposition_assertion \<Rightarrow> bool" where
  "disposes r a \<longleftrightarrow>
     da_schema a = reservation_assertion_schema \<and> da_schema_version a = 0 \<and>
     da_reservation_id a = reservation_id r \<and> da_attempt_id a = attempt_id r \<and>
     assertion_id a \<noteq> [] \<and> asserted_by a \<noteq> [] \<and> da_reason a \<noteq> [] \<and>
     (case da_kind a of
        AkSupersede \<Rightarrow>
          (case superseding_reservation_id a of None \<Rightarrow> False | Some i \<Rightarrow> i \<noteq> [] \<and> i \<noteq> reservation_id r)
      | _ \<Rightarrow> superseding_reservation_id a = None)"

definition reservation_is_active :: "resource_reservation \<Rightarrow> disposition_assertion list \<Rightarrow> bool" where
  "reservation_is_active r assertions \<longleftrightarrow> \<not> list_ex (disposes r) assertions"

definition validate_declaration_record :: "resource_declaration \<Rightarrow> string option \<Rightarrow> protocol_finding list" where
  "validate_declaration_record d rsv =
     finding_unless (rd_schema d = resource_declaration_schema \<and> rd_schema_version d = 0)
       (finding_of ''unsupported_declaration_schema'' None rsv None ''declaration must use resource.declaration.v0'')"

definition validate_named_scopes ::
  "string list \<Rightarrow> string \<Rightarrow> resource_allocation option \<Rightarrow> protocol_finding list" where
  "validate_named_scopes scopes field alloc =
     (let detail = field @ '' must contain named scope ids, never secret values'' in
      concat (map (\<lambda>scope. finding_unless (is_canonical_id scope \<and> CHR ''='' \<notin> set scope)
        (case alloc of
           Some a \<Rightarrow> allocation_finding a ''invalid_named_scope'' detail
         | None \<Rightarrow> finding_of ''invalid_named_scope'' None None None detail)) scopes))"

definition validate_grant :: "string \<Rightarrow> resource_grant \<Rightarrow> protocol_finding list" where
  "validate_grant rid g =
     finding_unless (is_canonical_id (resource_id g))
       (finding_of ''noncanonical_resource_id'' (Some (resource_id g)) (Some rid) None
          ''resource id must use a non-empty namespace and value separated by a colon'')
     @ finding_unless ((rate_limit_group g \<noteq> None) = (0 < rate_limit_units g))
         (finding_of ''invalid_rate_limit_units'' (Some (resource_id g)) (Some rid) None
            ''rate-limit units must be positive exactly when a group is named'')
     @ validate_named_scopes (network_scope g) ''network_scope'' None
     @ validate_named_scopes (secret_scope g) ''secret_scope'' None"

definition validate_declaration_and_reservation ::
  "resource_declaration \<Rightarrow> resource_reservation \<Rightarrow> protocol_finding list" where
  "validate_declaration_and_reservation d r =
     (let rsv = Some (reservation_id r) in
      validate_declaration_record d rsv
      @ finding_unless (rr_schema r = resource_reservation_schema \<and> rr_schema_version r = 0)
          (finding_of ''unsupported_reservation_schema'' None rsv None ''reservation must use resource.reservation.v0'')
      @ finding_unless (declaration_id d = rr_declaration_id r)
          (finding_of ''declaration_join_mismatch'' None rsv None ''reservation must join the exact declaration'')
      @ finding_unless
          (set (declaration_grants d) = set (grants r) \<and>
           card (set (declaration_grants d)) = length (claims d) \<and> card (set (grants r)) = length (grants r))
          (finding_of ''grant_declaration_mismatch'' None rsv None
             ''reservation grants must exactly equal the declared resource claims'')
      @ concat (map (validate_grant (reservation_id r)) (grants r)))"

text \<open>The holders of a resource a grant conflicts with, in the order the code reports them.\<close>

definition conflicting_holders :: "resource_mode \<Rightarrow> mode_occupancy \<Rightarrow> string list" where
  "conflicting_holders m h =
     (case m of
        RmRead \<Rightarrow> sorted_list_of_set (writers h) @ sorted_list_of_set (exclusive h)
      | _ \<Rightarrow> sorted_list_of_set (readers h) @ sorted_list_of_set (writers h) @ sorted_list_of_set (exclusive h))"

definition conflict_findings :: "occupancy_index \<Rightarrow> resource_grant \<Rightarrow> protocol_finding list" where
  "conflict_findings idx g =
     (case fmlookup (oc_resources idx) (resource_id g) of
        None \<Rightarrow> []
      | Some h \<Rightarrow>
          map (\<lambda>rid. finding_of ''resource_conflict'' (Some (resource_id g)) (Some rid) None
                 ''an active reservation holds a conflicting resource mode'')
            (conflicting_holders (grant_mode g) h))"

definition supported_capacity :: "rate_limit_capacity \<Rightarrow> bool" where
  "supported_capacity c \<longleftrightarrow> rc_schema c = rate_limit_capacity_schema \<and> rc_schema_version c = 0"

fun capacity_findings :: "string \<Rightarrow> string set \<Rightarrow> rate_limit_capacity list \<Rightarrow> protocol_finding list" where
  "capacity_findings rid seen [] = []"
| "capacity_findings rid seen (c # cs) =
     finding_unless (supported_capacity c)
       (finding_of ''unsupported_rate_limit_capacity_schema'' None (Some rid) None
          ''capacity must use resource.rate_limit_capacity.v0'')
     @ finding_unless (is_canonical_id (group_id c))
         (finding_of ''noncanonical_rate_limit_group'' None (Some rid) None
            ''rate-limit group must be a canonical namespaced id'')
     @ finding_unless (group_id c \<notin> seen)
         (finding_of ''duplicate_rate_limit_capacity'' None (Some rid) None
            ''rate-limit group has more than one capacity record'')
     @ capacity_findings rid (insert (group_id c) seen) cs"

definition capacity_by_group :: "rate_limit_capacity list \<Rightarrow> (string, nat) fmap" where
  "capacity_by_group cs = collect_map (map (\<lambda>c. (group_id c, capacity c)) (filter supported_capacity cs))"

definition usage_findings ::
  "string \<Rightarrow> rate_limit_capacity list \<Rightarrow> (string, nat) fmap \<Rightarrow> protocol_finding list" where
  "usage_findings rid cs used =
     concat (map (\<lambda>g.
       case fmlookup (capacity_by_group cs) g of
         Some cap \<Rightarrow> finding_unless (units_at used g \<le> cap)
           (finding_of ''rate_limit_capacity_exceeded'' None (Some rid) None
              (''rate-limit group '' @ debug_str g @ '' requests '' @ show_nat (units_at used g)
               @ '' units with capacity '' @ show_nat cap))
       | None \<Rightarrow> [finding_of ''missing_rate_limit_capacity'' None (Some rid) None
              (''rate-limit group '' @ debug_str g @ '' has no explicit capacity'')])
       (btree_keys used))"

definition grant_findings ::
  "resource_declaration \<Rightarrow> resource_reservation \<Rightarrow> occupancy_index \<Rightarrow> rate_limit_capacity list
   \<Rightarrow> protocol_finding list" where
  "grant_findings d r idx cs =
     (let rid = reservation_id r in
      validate_declaration_and_reservation d r
      @ finding_unless (rid \<notin> oc_reservation_ids idx)
          (finding_of ''duplicate_reservation_id'' None (Some rid) None
             ''an active reservation already uses this reservation id'')
      @ finding_unless (attempt_id r \<notin> oc_attempt_ids idx)
          (finding_of ''attempt_already_reserved'' None (Some rid) None
             ''an active reservation already joins this attempt id'')
      @ concat (map (conflict_findings idx) (grants r))
      @ capacity_findings rid {} cs
      @ usage_findings rid cs (fold add_units (grants r) (oc_rate_limit_units idx)))"

definition granted_or :: "resource_reservation \<Rightarrow> protocol_finding list
    \<Rightarrow> (protocol_finding list, resource_reservation) result" where
  "granted_or r fs = (let sorted = sort_dedup fs in if sorted = [] then Ok r else Err sorted)"

definition grant_indexed_reservation ::
  "resource_declaration \<Rightarrow> resource_reservation \<Rightarrow> occupancy_index \<Rightarrow> rate_limit_capacity list
   \<Rightarrow> (protocol_finding list, resource_reservation) result" where
  "grant_indexed_reservation d r idx cs = granted_or r (grant_findings d r idx cs)"

definition grant_reservation ::
  "resource_declaration \<Rightarrow> resource_reservation \<Rightarrow> resource_reservation list \<Rightarrow> disposition_assertion list
   \<Rightarrow> rate_limit_capacity list \<Rightarrow> (protocol_finding list, resource_reservation) result" where
  "grant_reservation d r existing assertions cs =
     grant_indexed_reservation d r
       (from_active_reservations (filter (\<lambda>x. reservation_is_active x assertions) existing)) cs"

definition validate_resource_declaration ::
  "(execution_topology \<Rightarrow> string) \<Rightarrow> execution_topology \<Rightarrow> resource_declaration \<Rightarrow> protocol_finding list" where
  "validate_resource_declaration topology_hash t d =
     sort_dedup
       (validate_declaration_record d None
        @ finding_unless (runtime_graph_id d = topo_id t \<and> runtime_graph_content_hash d = topology_hash t)
            (finding_of ''declaration_graph_join_mismatch'' None None None
               ''declaration must join the exact topology id and content hash'')
        @ (case find (\<lambda>n. tn_node_id n = rd_node_id d) (topo_nodes t) of
             None \<Rightarrow> [finding_of ''unknown_declaration_node'' None None None
                        ''declaration node_id does not exist in the topology'']
           | Some n \<Rightarrow>
               finding_unless
                 (set (claims d) = set (tn_resource_claims n) \<and> card (set (claims d)) = length (claims d) \<and>
                  card (set (tn_resource_claims n)) = length (tn_resource_claims n))
                 (finding_of ''declaration_topology_claim_mismatch'' None None None
                    ''declaration claims must exactly equal the topology node resource claims'')))"

definition grant_indexed_topology_reservation ::
  "(execution_topology \<Rightarrow> string) \<Rightarrow> execution_topology \<Rightarrow> resource_declaration \<Rightarrow> resource_reservation
   \<Rightarrow> occupancy_index \<Rightarrow> rate_limit_capacity list \<Rightarrow> (protocol_finding list, resource_reservation) result" where
  "grant_indexed_topology_reservation topology_hash t d r idx cs =
     granted_or r
       (validate_resource_declaration topology_hash t d
        @ (case grant_indexed_reservation d r idx cs of Inl fs \<Rightarrow> fs | Inr _ \<Rightarrow> []))"

definition grant_topology_reservation ::
  "(execution_topology \<Rightarrow> string) \<Rightarrow> execution_topology \<Rightarrow> resource_declaration \<Rightarrow> resource_reservation
   \<Rightarrow> resource_reservation list \<Rightarrow> disposition_assertion list \<Rightarrow> rate_limit_capacity list
   \<Rightarrow> (protocol_finding list, resource_reservation) result" where
  "grant_topology_reservation topology_hash t d r existing assertions cs =
     granted_or r
       (validate_resource_declaration topology_hash t d
        @ (case grant_reservation d r existing assertions cs of Inl fs \<Rightarrow> fs | Inr _ \<Rightarrow> []))"

section \<open>Reconciliation\<close>

record resource_reconciliation =
  rx_declaration_id :: string
  rx_reservation_id :: string
  rx_attempt_id :: string
  declared_claim_count :: nat
  granted_resource_count :: nat
  actual_allocation_count :: nat
  complete :: bool
  rx_findings :: "protocol_finding list"

definition allocation_as_grant :: "resource_allocation \<Rightarrow> resource_grant" where
  "allocation_as_grant a =
     \<lparr>resource_id = ra_resource_id a, grant_mode = ra_mode a, rate_limit_group = ra_rate_limit_group a,
      rate_limit_units = ra_rate_limit_units a, grant_workspace_strategy = ra_workspace_strategy a,
      network_scope = ra_network_scope a, secret_scope = ra_secret_scope a\<rparr>"

text \<open>One round of the loop: \<open>ids\<close> are the allocation ids seen, \<open>actual\<close> the grants reported so far.\<close>

definition reconcile_one ::
  "resource_reservation \<Rightarrow> resource_allocation \<Rightarrow> string set \<times> resource_grant set \<times> protocol_finding list
   \<Rightarrow> string set \<times> resource_grant set \<times> protocol_finding list" where
  "reconcile_one r a st =
     (case st of (ids, actual, fs) \<Rightarrow>
        (let head = fs
             @ finding_unless (allocation_id a \<notin> ids)
                 (finding_of ''duplicate_allocation_id'' (Some (ra_resource_id a)) (Some (reservation_id r))
                    (Some (allocation_id a)) ''allocation_id appears more than once'')
             @ finding_unless (ra_schema a = resource_allocation_schema \<and> ra_schema_version a = 0)
                 (allocation_finding a ''unsupported_allocation_schema''
                    ''runtime allocation must use runtime.resource_allocation.v0'')
             @ finding_unless (ra_trust_boundary a = runtime_allocation_trust_boundary)
                 (allocation_finding a ''invalid_allocation_trust_boundary''
                    ''runtime allocation must retain the untrusted marker'');
             ids' = insert (allocation_id a) ids;
             g = allocation_as_grant a
         in if ra_reservation_id a \<noteq> reservation_id r \<or> ra_attempt_id a \<noteq> attempt_id r then
              (ids', actual, head @ [allocation_finding a ''allocation_join_mismatch''
                 ''allocation must join the exact reservation and attempt''])
            else
              (ids', insert g actual,
               head
               @ finding_unless (g \<in> set (grants r))
                   (allocation_finding a ''unexpected_allocation''
                      ''runtime allocation does not exactly match a granted resource'')
               @ finding_unless (g \<notin> actual)
                   (allocation_finding a ''duplicate_allocation''
                      ''the same granted resource was reported more than once'')
               @ validate_named_scopes (ra_network_scope a) ''network_scope'' (Some a)
               @ validate_named_scopes (ra_secret_scope a) ''secret_scope'' (Some a))))"

text \<open>
  The missing grants are reported in the order of the set in the source; the final sort makes the order
  of the report independent of it.
\<close>

definition reconcile_resource_allocations ::
  "resource_declaration \<Rightarrow> resource_reservation \<Rightarrow> resource_allocation list \<Rightarrow> resource_reconciliation" where
  "reconcile_resource_allocations d r allocations =
     (case fold (reconcile_one r) allocations ({}, {}, validate_declaration_and_reservation d r) of
        (ids, actual, fs) \<Rightarrow>
          (let missing = map (\<lambda>g. finding_of ''missing_allocation'' (Some (resource_id g)) (Some (reservation_id r)) None
                 ''a granted resource has no matching runtime allocation'')
               (filter (\<lambda>g. g \<notin> actual) (remdups (grants r)));
               findings = sort_dedup (fs @ missing)
           in \<lparr>rx_declaration_id = declaration_id d, rx_reservation_id = reservation_id r,
               rx_attempt_id = attempt_id r, declared_claim_count = length (claims d),
               granted_resource_count = length (grants r), actual_allocation_count = length allocations,
               complete = (findings = []), rx_findings = findings\<rparr>))"

section \<open>Worktree records\<close>

datatype worktree_state = WtActive | WtCommitted | WtCleanupApproved | WtSuperseded

record worktree_record =
  wt_schema :: string
  wt_schema_version :: nat
  worktree_id :: string
  wt_reservation_id :: string
  wt_attempt_id :: string
  path_identity :: string
  base_commit_sha :: string
  wt_branch :: string
  resulting_commit_sha :: "string option"
  working_tree_clean :: bool
  unexpected_write_paths :: "string list"
  wt_state :: worktree_state
  cleanup_method :: string
  cleanup_recoverable :: bool
  cleanup_requires_explicit_assertion :: bool

definition worktree_record_schema :: string where
  "worktree_record_schema = ''casegraphen.experimental.git.worktree_record.v0''"

definition worktree_finding :: "worktree_record \<Rightarrow> string \<Rightarrow> string \<Rightarrow> protocol_finding" where
  "worktree_finding w code detail =
     finding_of code (Some (''git-worktree:'' @ worktree_id w)) (Some (wt_reservation_id w)) None detail"

definition worktree_reserved :: "worktree_record \<Rightarrow> resource_reservation \<Rightarrow> bool" where
  "worktree_reserved w r =
     list_ex (\<lambda>g. resource_id g = ''git-worktree:'' @ worktree_id w \<and> grant_mode g = RmExclusive \<and>
       grant_workspace_strategy g = Some WsIsolatedWorktree) (grants r)"

text \<open>The debug form of a list of strings.\<close>

fun join_comma :: "string list \<Rightarrow> string" where
  "join_comma [] = []"
| "join_comma [x] = x"
| "join_comma (x # xs) = x @ '', '' @ join_comma xs"

definition debug_strs :: "string list \<Rightarrow> string" where
  "debug_strs xs = ''['' @ join_comma (map debug_str xs) @ '']''"

definition validate_worktree_record :: "worktree_record \<Rightarrow> resource_reservation \<Rightarrow> protocol_finding list" where
  "validate_worktree_record w r =
     sort_key finding_key
       (finding_unless (wt_schema w = worktree_record_schema \<and> wt_schema_version w = 0)
          (worktree_finding w ''unsupported_worktree_schema'' ''worktree record must use git.worktree_record.v0'')
        @ finding_unless (wt_reservation_id w = reservation_id r \<and> wt_attempt_id w = attempt_id r)
            (worktree_finding w ''worktree_join_mismatch'' ''worktree must join the exact reservation and attempt'')
        @ finding_unless (worktree_reserved w r)
            (worktree_finding w ''worktree_not_reserved''
               ''worktree requires an exclusive isolated-worktree grant for its exact identity'')
        @ concat (map (\<lambda>(field, value). finding_unless (value \<noteq> [])
              (worktree_finding w ''empty_worktree_field'' (field @ '' must not be empty'')))
            [(''worktree_id'', worktree_id w), (''path_identity'', path_identity w), (''branch'', wt_branch w)])
        @ finding_unless (is_git_sha (base_commit_sha w))
            (worktree_finding w ''invalid_base_commit_sha''
               ''base_commit_sha must be an explicit 40-character lowercase git SHA'')
        @ finding_unless (case resulting_commit_sha w of None \<Rightarrow> True | Some sha \<Rightarrow> is_git_sha sha)
            (worktree_finding w ''invalid_resulting_commit_sha''
               ''resulting_commit_sha must be null or a 40-character lowercase git SHA'')
        @ finding_unless (\<not> (working_tree_clean w \<and> unexpected_write_paths w \<noteq> []))
            (worktree_finding w ''clean_worktree_with_unexpected_writes''
               ''a clean worktree cannot report unexpected write paths'')
        @ finding_unless (unexpected_write_paths w = [])
            (worktree_finding w ''unexpected_worktree_writes''
               (''worktree reported unexpected writes at '' @ debug_strs (unexpected_write_paths w)))
        @ finding_unless (resulting_commit_sha w \<noteq> None)
            (worktree_finding w ''worktree_uncommitted'' ''worktree has no resulting commit SHA'')
        @ finding_unless (cleanup_recoverable w \<and> cleanup_requires_explicit_assertion w)
            (worktree_finding w ''unsafe_cleanup_policy''
               ''cleanup must be recoverable and require an explicit assertion''))"

end
