(* ===== verification/Resource_Allocator.thy ===== *)
theory Resource_Allocator
  imports Resource_Protocol
begin

text \<open>
  \<open>src/resource_allocator.rs\<close>: the durable allocator. Its journal is a directory of numbered events, each
  with the hash of its predecessor; the state is the fold of the events; checkpoints are accelerators
  of that fold and compaction moves a covered prefix of the events to an archive. Files hold decoded
  values; the digests are fields of \<open>allocator_env\<close>. The identity file is the id of the journal. Every
  operation holds the writer lock from start to end.
\<close>

section \<open>Data\<close>

record reviewed_binding =
  rb_schema :: string
  rb_schema_version :: nat
  rb_claim_cell_id :: string
  rb_accepted_review_id :: string
  rb_reviewed_topology_hash :: string
  rb_policy_manifest_hash :: string
  rb_deployment_bundle_hash :: string
  rb_accepted_review_revision :: string
  rb_case_space_id :: string
  rb_node_id :: string
  rb_attempt_id :: string
  rb_resource_declaration_hash :: string

datatype event_payload =
    Reserve string string "reviewed_binding option" resource_declaration resource_reservation
  | Disposition string "reviewed_binding option" disposition_assertion

record allocator_event =
  ev_schema :: string
  ev_schema_version :: nat
  ev_sequence :: nat
  prior_event_hash :: "string option"
  idempotency_key :: string
  operation_digest :: string
  ev_event_hash :: string
  ev_payload :: event_payload

type_synonym identity = "string \<times> string"

record replay_state =
  rs_reservations :: "resource_reservation list"
  rs_declarations :: "(string, resource_declaration) fmap"
  rs_dispositions :: "disposition_assertion list"
  dispositions_by_id :: "(string, disposition_assertion) fmap"
  events_by_idempotency :: "(string, allocator_event) fmap"
  reservations_by_identity :: "(identity, resource_reservation) fmap"
  active_by_identity :: "(identity, resource_reservation) fmap"
  active_reservation_ids :: "string set"
  occupancy :: occupancy_index
  bindings_by_identity :: "(identity, reviewed_binding) fmap"
  bindings_by_reservation_id :: "(string, reviewed_binding) fmap"
  generation :: nat
  last_event_hash :: "string option"

definition initial_state :: replay_state where
  "initial_state =
     \<lparr>rs_reservations = [], rs_declarations = fmempty, rs_dispositions = [], dispositions_by_id = fmempty,
      events_by_idempotency = fmempty, reservations_by_identity = fmempty, active_by_identity = fmempty,
      active_reservation_ids = {}, occupancy = empty_occupancy, bindings_by_identity = fmempty,
      bindings_by_reservation_id = fmempty, generation = 0, last_event_hash = None\<rparr>"

record checkpoint_state =
  cp_reservations :: "resource_reservation list"
  cp_declarations :: "(string, resource_declaration) fmap"
  cp_dispositions :: "disposition_assertion list"
  cp_events_by_idempotency :: "(string, allocator_event) fmap"

record allocator_checkpoint =
  cp_schema :: string
  cp_schema_version :: nat
  cp_allocator_instance_id :: string
  cp_configuration_hash :: string
  covered_event_count :: nat
  last_event_sequence :: nat
  terminal_event_hash :: string
  covered_journal_prefix_hash :: string
  cp_state :: checkpoint_state
  checkpoint_content_hash :: string

record retention_policy =
  rp_schema :: string
  rp_schema_version :: nat
  retain_active_event_count :: nat

record compaction_record =
  co_schema :: string
  co_schema_version :: nat
  co_allocator_instance_id :: string
  co_configuration_hash :: string
  co_checkpoint_content_hash :: string
  co_checkpoint_sequence :: nat
  co_retention_policy :: retention_policy
  co_retention_policy_hash :: string
  archived_event_sequences :: "nat list"
  archived_event_hashes :: "string list"
  compaction_content_hash :: string

record allocator_env =
  topology_hash :: "execution_topology \<Rightarrow> string"
  event_digest :: "allocator_event \<Rightarrow> string"
  operation_digest_of :: "string \<Rightarrow> event_payload \<Rightarrow> string"
  declaration_digest :: "resource_declaration \<Rightarrow> string"
  prefix_digest :: "(nat \<times> string) list \<Rightarrow> string"
  checkpoint_digest :: "allocator_checkpoint \<Rightarrow> string"
  configuration_digest :: "rate_limit_capacity list \<Rightarrow> string"
  policy_digest :: "retention_policy \<Rightarrow> string"
  compaction_digest :: "compaction_record \<Rightarrow> string"

text \<open>The digests of records that contain their own hash are taken with that field cleared.\<close>

definition event_hash :: "allocator_env \<Rightarrow> allocator_event \<Rightarrow> string" where
  "event_hash E ev = event_digest E (ev\<lparr>ev_event_hash := []\<rparr>)"

definition checkpoint_hash :: "allocator_env \<Rightarrow> allocator_checkpoint \<Rightarrow> string" where
  "checkpoint_hash E c = checkpoint_digest E (c\<lparr>checkpoint_content_hash := []\<rparr>)"

definition compaction_hash :: "allocator_env \<Rightarrow> compaction_record \<Rightarrow> string" where
  "compaction_hash E c = compaction_digest E (c\<lparr>compaction_content_hash := []\<rparr>)"

definition allocator_event_schema :: string where
  "allocator_event_schema = ''casegraphen.experimental.resource.allocator_event.v0''"

definition allocator_checkpoint_schema :: string where
  "allocator_checkpoint_schema = ''casegraphen.experimental.resource.allocator_checkpoint.v0''"

definition retention_policy_schema :: string where
  "retention_policy_schema = ''casegraphen.experimental.resource.allocator_retention_policy.v0''"

definition compaction_schema :: string where
  "compaction_schema = ''casegraphen.experimental.resource.allocator_compaction.v0''"

definition reviewed_binding_schema :: string where
  "reviewed_binding_schema = ''casegraphen.experimental.resource.reviewed_deployment_binding.v0''"

text \<open>One constructor per message; \<open>Panicked\<close> is a failed \<open>expect\<close>.\<close>

datatype (plugins only: code) integrity_reason =
    EmptyIdempotencyKey
  | JournalIntegrity nat
  | DuplicateIdempotencyKey
  | NoLongerReplays "protocol_finding list"
  | IdentityAlreadyUsed
  | AssertionAlreadyUsed
  | TargetNotCanonical
  | AlreadyInactive
  | InvalidAssertion
  | SupersedingNotActive
  | OccupancyRemovalFailed occupancy_error
  | AuthorityMismatch
  | MissingAuthority
  | BindingMismatch
  | TargetWithoutAuthority
  | AuthorityDiffers
  | SupersedingWithoutAuthority
  | SupersedingOtherDeployment
  | ZeroSequence
  | CheckpointEmpty
  | CheckpointMismatch
  | CheckpointIndexIncomplete
  | CheckpointStateDisagrees
  | CheckpointPrefixMismatch
  | CheckpointName
  | CheckpointAmbiguous
  | CheckpointAbsent
  | CheckpointDiffers
  | PrefixTruncated nat
  | PrefixSubstituted nat
  | TerminalAbsent
  | TerminalSubstituted
  | CompactionInvalid
  | CompactionName
  | CompactionCheckpointAbsent
  | ArchiveTruncated nat
  | ArchiveSubstituted
  | ActiveArchiveDisagree nat
  | UnsupportedPolicy
  | StaleProof
  | CompactionSourceInvalid nat
  | ArchiveDiffers
  | CachePoisoned
  | PublicationCollision

datatype (plugins only: code) allocator_error =
    Integrity integrity_reason
  | IdempotencyCollision
  | Refused "protocol_finding list"
  | Panicked string
  | InvalidConfiguration string

type_synonym 'a allocator_result = "(allocator_error, 'a) result"

definition integrity_unless :: "bool \<Rightarrow> integrity_reason \<Rightarrow> unit allocator_result" where
  "integrity_unless ok reason = ensure ok (Integrity reason)"

section \<open>Configuration\<close>

definition allocator_configuration_schema :: string where
  "allocator_configuration_schema = ''casegraphen.experimental.resource.allocator_configuration.v0''"

record allocator_configuration =
  ac_schema :: string
  ac_schema_version :: nat
  ac_capacities :: "rate_limit_capacity list"

definition validate_configuration :: "allocator_configuration \<Rightarrow> unit allocator_result" where
  "validate_configuration c =
     rbind (ensure (ac_schema c = allocator_configuration_schema \<and> ac_schema_version c = 0)
              (InvalidConfiguration ''unsupported allocator configuration schema'')) (\<lambda>_.
     ensure
       (list_all (\<lambda>x. supported_capacity x \<and> capacity x \<noteq> 0) (ac_capacities c) \<and> distinct (map group_id (ac_capacities c)))
       (InvalidConfiguration ''invalid or duplicate rate-limit capacity''))"

section \<open>Replaying one event\<close>

definition reservation_identity :: "resource_reservation \<Rightarrow> identity" where
  "reservation_identity r = (reservation_id r, attempt_id r)"

definition assertion_identity :: "disposition_assertion \<Rightarrow> identity" where
  "assertion_identity a = (da_reservation_id a, da_attempt_id a)"

definition validate_new_reservation_identity :: "replay_state \<Rightarrow> resource_reservation \<Rightarrow> unit allocator_result" where
  "validate_new_reservation_identity s r =
     integrity_unless (fmlookup (reservations_by_identity s) (reservation_identity r) = None) IdentityAlreadyUsed"

definition validate_disposition :: "replay_state \<Rightarrow> disposition_assertion \<Rightarrow> unit allocator_result" where
  "validate_disposition s a =
     rbind (integrity_unless (fmlookup (dispositions_by_id s) (assertion_id a) = None) AssertionAlreadyUsed) (\<lambda>_.
     rbind (ok_or (fmlookup (reservations_by_identity s) (assertion_identity a)) (Integrity TargetNotCanonical)) (\<lambda>r.
     rbind (integrity_unless (fmlookup (active_by_identity s) (assertion_identity a) \<noteq> None) AlreadyInactive) (\<lambda>_.
     rbind (integrity_unless (\<not> reservation_is_active r [a]) InvalidAssertion) (\<lambda>_.
     if da_kind a = AkSupersede then
       rbind (ok_or (superseding_reservation_id a) (Panicked ''validated by protocol'')) (\<lambda>i.
       integrity_unless (i \<in> active_reservation_ids s) SupersedingNotActive)
     else Ok ()))))"

definition insert_binding :: "reviewed_binding option \<Rightarrow> resource_reservation \<Rightarrow> replay_state \<Rightarrow> replay_state" where
  "insert_binding b r s =
     (case b of
        None \<Rightarrow> s
      | Some binding \<Rightarrow>
          s\<lparr>bindings_by_identity := fmupd (reservation_identity r) binding (bindings_by_identity s),
            bindings_by_reservation_id := fmupd (reservation_id r) binding (bindings_by_reservation_id s)\<rparr>)"

definition apply_reserve ::
  "rate_limit_capacity list \<Rightarrow> replay_state \<Rightarrow> reviewed_binding option \<Rightarrow> resource_declaration
   \<Rightarrow> resource_reservation \<Rightarrow> replay_state allocator_result" where
  "apply_reserve cs s b d r =
     rbind (validate_new_reservation_identity s r) (\<lambda>_.
     rbind (map_err (\<lambda>fs. Integrity (NoLongerReplays fs)) (grant_indexed_reservation d r (occupancy s) cs)) (\<lambda>_.
     Ok (insert_binding b r
       (s\<lparr>rs_declarations := fmupd (declaration_id d) d (rs_declarations s),
          rs_reservations := rs_reservations s @ [r],
          reservations_by_identity := fmupd (reservation_identity r) r (reservations_by_identity s),
          active_reservation_ids := insert (reservation_id r) (active_reservation_ids s),
          occupancy := occupancy_insert r (occupancy s),
          active_by_identity := fmupd (reservation_identity r) r (active_by_identity s)\<rparr>))))"

definition apply_disposition :: "replay_state \<Rightarrow> disposition_assertion \<Rightarrow> replay_state allocator_result" where
  "apply_disposition s a =
     rbind (validate_disposition s a) (\<lambda>_.
     rbind (ok_or (fmlookup (active_by_identity s) (assertion_identity a))
              (Panicked ''validated disposition target is active'')) (\<lambda>r.
     rbind (map_err (\<lambda>e. Integrity (OccupancyRemovalFailed e)) (occupancy_remove r (occupancy s))) (\<lambda>idx.
     Ok (s\<lparr>rs_dispositions := rs_dispositions s @ [a],
           dispositions_by_id := fmupd (assertion_id a) a (dispositions_by_id s),
           active_by_identity := fmdrop (assertion_identity a) (active_by_identity s),
           active_reservation_ids := active_reservation_ids s - {reservation_id r},
           occupancy := idx\<rparr>))))"

fun apply_replayed_event ::
  "rate_limit_capacity list \<Rightarrow> replay_state \<Rightarrow> event_payload \<Rightarrow> replay_state allocator_result" where
  "apply_replayed_event cs s (Reserve t b binding d r) = apply_reserve cs s binding d r"
| "apply_replayed_event cs s (Disposition b binding a) = apply_disposition s a"

definition event_in_order :: "allocator_env \<Rightarrow> replay_state \<Rightarrow> allocator_event \<Rightarrow> bool" where
  "event_in_order E s ev \<longleftrightarrow>
     ev_schema ev = allocator_event_schema \<and> ev_schema_version ev = 0 \<and> ev_sequence ev = generation s + 1 \<and>
     prior_event_hash ev = last_event_hash s \<and> ev_event_hash ev = event_hash E ev"

definition apply_checked_event ::
  "allocator_env \<Rightarrow> rate_limit_capacity list \<Rightarrow> replay_state \<Rightarrow> allocator_event \<Rightarrow> replay_state allocator_result" where
  "apply_checked_event E cs s ev =
     rbind (integrity_unless (event_in_order E s ev) (JournalIntegrity (ev_sequence ev))) (\<lambda>_.
     rbind (integrity_unless (fmlookup (events_by_idempotency s) (idempotency_key ev) = None) DuplicateIdempotencyKey) (\<lambda>_.
     rbind (apply_replayed_event cs s (ev_payload ev)) (\<lambda>s'.
     Ok (s'\<lparr>generation := ev_sequence ev, last_event_hash := Some (ev_event_hash ev),
            events_by_idempotency := fmupd (idempotency_key ev) ev (events_by_idempotency s')\<rparr>))))"

definition apply_events ::
  "allocator_env \<Rightarrow> rate_limit_capacity list \<Rightarrow> replay_state \<Rightarrow> allocator_event list \<Rightarrow> replay_state allocator_result" where
  "apply_events E cs = fold_res (apply_checked_event E cs)"

end
