(* ===== verification/Allocator_Journal.thy ===== *)
theory Allocator_Journal
  imports Resource_Allocator
begin

text \<open>
  The journal directory of the allocator: checkpoints, replay with and without them, the operations that
  append an event, the creation and verification of checkpoints, and compaction.
\<close>

section \<open>Checkpoints\<close>

definition events_by_sequence :: "(string, allocator_event) fmap \<Rightarrow> allocator_event list" where
  "events_by_sequence m = sort_key ev_sequence (btree_values m)"

definition journal_prefix_hash :: "allocator_env \<Rightarrow> replay_state \<Rightarrow> string" where
  "journal_prefix_hash E s =
     prefix_digest E (map (\<lambda>ev. (ev_sequence ev, ev_event_hash ev)) (events_by_sequence (events_by_idempotency s)))"

definition checkpoint_state_of :: "replay_state \<Rightarrow> checkpoint_state" where
  "checkpoint_state_of s =
     \<lparr>cp_reservations = rs_reservations s, cp_declarations = rs_declarations s,
      cp_dispositions = rs_dispositions s, cp_events_by_idempotency = events_by_idempotency s\<rparr>"

definition checkpoint_from_state ::
  "allocator_env \<Rightarrow> replay_state \<Rightarrow> string \<Rightarrow> string \<Rightarrow> allocator_checkpoint allocator_result" where
  "checkpoint_from_state E s instance_id configuration_hash =
     rbind (ok_or (last_event_hash s) (Panicked ''non-empty checkpoint has a terminal event'')) (\<lambda>h.
     Ok \<lparr>cp_schema = allocator_checkpoint_schema, cp_schema_version = 0,
         cp_allocator_instance_id = instance_id, cp_configuration_hash = configuration_hash,
         covered_event_count = generation s, last_event_sequence = generation s, terminal_event_hash = h,
         covered_journal_prefix_hash = journal_prefix_hash E s, cp_state = checkpoint_state_of s,
         checkpoint_content_hash = []\<rparr>)"

text \<open>
  The state rebuilt from a checkpoint. The bindings come from the events in the order of their
  idempotency keys.
\<close>

definition bindings_of_events ::
  "allocator_event list \<Rightarrow> (identity, reviewed_binding) fmap \<times> (string, reviewed_binding) fmap" where
  "bindings_of_events evs =
     fold (\<lambda>ev (by_identity, by_reservation).
         case ev_payload ev of
           Reserve t b (Some binding) d r \<Rightarrow>
             (fmupd (reservation_identity r) binding by_identity, fmupd (reservation_id r) binding by_reservation)
         | _ \<Rightarrow> (by_identity, by_reservation)) evs (fmempty, fmempty)"

definition replay_state_from_checkpoint :: "allocator_checkpoint \<Rightarrow> replay_state" where
  "replay_state_from_checkpoint c =
     (let st = cp_state c;
          by_identity = collect_map (map (\<lambda>r. (reservation_identity r, r)) (cp_reservations st));
          active_ids = fold (\<lambda>a ids. ids - {assertion_identity a}) (cp_dispositions st) (set (btree_keys by_identity));
          active = collect_map (map (\<lambda>r. (reservation_identity r, r))
                     (filter (\<lambda>r. reservation_identity r \<in> active_ids) (cp_reservations st)));
          active_reservations = btree_values active;
          bindings = bindings_of_events (btree_values (cp_events_by_idempotency st))
      in \<lparr>rs_reservations = cp_reservations st, rs_declarations = cp_declarations st,
          rs_dispositions = cp_dispositions st,
          dispositions_by_id = collect_map (map (\<lambda>a. (assertion_id a, a)) (cp_dispositions st)),
          events_by_idempotency = cp_events_by_idempotency st, reservations_by_identity = by_identity,
          active_by_identity = active, active_reservation_ids = set (map reservation_id active_reservations),
          occupancy = from_active_reservations active_reservations,
          bindings_by_identity = fst bindings, bindings_by_reservation_id = snd bindings,
          generation = last_event_sequence c, last_event_hash = Some (terminal_event_hash c)\<rparr>)"

definition validate_checkpoint_index ::
  "allocator_env \<Rightarrow> rate_limit_capacity list \<Rightarrow> allocator_checkpoint \<Rightarrow> replay_state allocator_result" where
  "validate_checkpoint_index E cs c =
     (let events = events_by_sequence (cp_events_by_idempotency (cp_state c)) in
      rbind (integrity_unless (length events = covered_event_count c) CheckpointIndexIncomplete) (\<lambda>_.
      rbind (apply_events E cs initial_state events) (\<lambda>derived.
      rbind (integrity_unless (checkpoint_state_of derived = cp_state c) CheckpointStateDisagrees) (\<lambda>_.
      Ok derived))))"

definition validate_checkpoint ::
  "allocator_env \<Rightarrow> rate_limit_capacity list \<Rightarrow> string \<Rightarrow> allocator_checkpoint \<Rightarrow> unit allocator_result" where
  "validate_checkpoint E cs instance_id c =
     rbind (integrity_unless
              (cp_schema c = allocator_checkpoint_schema \<and> cp_schema_version c = 0 \<and>
               cp_allocator_instance_id c = instance_id \<and> cp_configuration_hash c = configuration_digest E cs \<and>
               covered_event_count c = last_event_sequence c \<and> checkpoint_content_hash c = checkpoint_hash E c)
              CheckpointMismatch) (\<lambda>_.
     rbind (validate_checkpoint_index E cs c) (\<lambda>s.
     integrity_unless
       (generation s = last_event_sequence c \<and> last_event_hash s = Some (terminal_event_hash c) \<and>
        journal_prefix_hash E s = covered_journal_prefix_hash c) CheckpointPrefixMismatch))"

section \<open>The journal directory\<close>

text \<open>
  Events by number, active and archived; checkpoints and compaction records by the two parts of their
  content-addressed names; the head hint.
\<close>

record journal =
  jd_identity :: string
  jd_active :: "(nat, allocator_event) fmap"
  jd_archive :: "(nat, allocator_event) fmap"
  jd_checkpoints :: "(nat \<times> string, allocator_checkpoint) fmap"
  jd_compactions :: "(nat \<times> string, compaction_record) fmap"
  jd_hint :: "(nat \<times> string option) option"

definition event_paths :: "(nat, allocator_event) fmap \<Rightarrow> (nat, allocator_event) fmap allocator_result" where
  "event_paths m = (if fmlookup m 0 = None then Ok m else Err (Integrity ZeroSequence))"

definition checkpoint_name :: "allocator_checkpoint \<Rightarrow> nat \<times> string" where
  "checkpoint_name c = (last_event_sequence c, checkpoint_content_hash c)"

definition compaction_name :: "compaction_record \<Rightarrow> nat \<times> string" where
  "compaction_name r = (co_checkpoint_sequence r, compaction_content_hash r)"

fun ambiguous :: "allocator_checkpoint list \<Rightarrow> bool" where
  "ambiguous (c # d # cs) \<longleftrightarrow>
     (last_event_sequence c = last_event_sequence d \<and> checkpoint_content_hash c \<noteq> checkpoint_content_hash d)
     \<or> ambiguous (d # cs)"
| "ambiguous cs \<longleftrightarrow> False"

definition load_latest_checkpoint ::
  "allocator_env \<Rightarrow> rate_limit_capacity list \<Rightarrow> journal \<Rightarrow> allocator_checkpoint option allocator_result" where
  "load_latest_checkpoint E cs dir =
     rbind (each_res (\<lambda>(name, c).
              rbind (validate_checkpoint E cs (jd_identity dir) c) (\<lambda>_.
              integrity_unless (name = checkpoint_name c) CheckpointName))
            (sorted_list_of_fmap (jd_checkpoints dir))) (\<lambda>_.
     (let sorted = sort_key last_event_sequence (btree_values (jd_checkpoints dir)) in
      rbind (integrity_unless (\<not> ambiguous sorted) CheckpointAmbiguous) (\<lambda>_.
      Ok (if sorted = [] then None else Some (last sorted)))))"

definition event_at :: "journal \<Rightarrow> nat \<Rightarrow> allocator_event option" where
  "event_at dir n = (case fmlookup (jd_active dir) n of Some ev \<Rightarrow> Some ev | None \<Rightarrow> fmlookup (jd_archive dir) n)"

definition require_covered_event ::
  "allocator_env \<Rightarrow> journal \<Rightarrow> (nat, allocator_event) fmap \<Rightarrow> nat \<Rightarrow> unit allocator_result" where
  "require_covered_event E dir expected n =
     rbind (ok_or (event_at dir n) (Integrity (PrefixTruncated n))) (\<lambda>observed.
     rbind (ok_or (fmlookup expected n) (Integrity CheckpointIndexIncomplete)) (\<lambda>ev.
     integrity_unless (observed = ev \<and> ev_event_hash observed = event_hash E observed) (PrefixSubstituted n)))"

definition require_covered_prefix_present ::
  "allocator_env \<Rightarrow> journal \<Rightarrow> allocator_checkpoint \<Rightarrow> unit allocator_result" where
  "require_covered_prefix_present E dir c =
     rbind (event_paths (jd_active dir)) (\<lambda>_.
     rbind (event_paths (jd_archive dir)) (\<lambda>_.
     rbind (each_res (require_covered_event E dir
              (collect_map (map (\<lambda>ev. (ev_sequence ev, ev)) (btree_values (cp_events_by_idempotency (cp_state c))))))
            [1 ..< Suc (last_event_sequence c)]) (\<lambda>_.
     rbind (ok_or (event_at dir (last_event_sequence c)) (Integrity TerminalAbsent)) (\<lambda>terminal.
     integrity_unless
       (ev_event_hash terminal = terminal_event_hash c \<and> ev_event_hash terminal = event_hash E terminal)
       TerminalSubstituted))))"

definition validate_retention_policy :: "retention_policy \<Rightarrow> unit allocator_result" where
  "validate_retention_policy p =
     integrity_unless (rp_schema p = retention_policy_schema \<and> rp_schema_version p = 0) UnsupportedPolicy"

fun increasing :: "nat list \<Rightarrow> bool" where
  "increasing (m # n # ns) \<longleftrightarrow> m < n \<and> increasing (n # ns)"
| "increasing ns \<longleftrightarrow> True"

definition archived_event_ok ::
  "allocator_env \<Rightarrow> journal \<Rightarrow> bool \<Rightarrow> nat \<times> string \<Rightarrow> unit allocator_result" where
  "archived_event_ok E dir verify_bytes p =
     (case p of (n, h) \<Rightarrow>
        rbind (ok_or (fmlookup (jd_archive dir) n) (Integrity (ArchiveTruncated n))) (\<lambda>ev.
        integrity_unless
          (\<not> verify_bytes \<or> (ev_sequence ev = n \<and> ev_event_hash ev = h \<and> ev_event_hash ev = event_hash E ev))
          ArchiveSubstituted))"

definition validate_published_compaction ::
  "allocator_env \<Rightarrow> rate_limit_capacity list \<Rightarrow> journal \<Rightarrow> bool \<Rightarrow> (nat \<times> string) \<times> compaction_record \<Rightarrow> unit allocator_result" where
  "validate_published_compaction E cs dir verify_bytes p =
     (case p of (name, r) \<Rightarrow>
        rbind (integrity_unless
                 (co_schema r = compaction_schema \<and> co_schema_version r = 0 \<and>
                  co_allocator_instance_id r = jd_identity dir \<and>
                  co_configuration_hash r = configuration_digest E cs \<and>
                  co_retention_policy_hash r = policy_digest E (co_retention_policy r) \<and>
                  is_ok (validate_retention_policy (co_retention_policy r)) \<and>
                  length (archived_event_sequences r) = length (archived_event_hashes r) \<and>
                  increasing (archived_event_sequences r) \<and>
                  list_all (\<lambda>n. n \<le> co_checkpoint_sequence r - retain_active_event_count (co_retention_policy r))
                    (archived_event_sequences r) \<and>
                  compaction_content_hash r = compaction_hash E r) CompactionInvalid) (\<lambda>_.
        rbind (ok_or (fmlookup (jd_checkpoints dir) (co_checkpoint_sequence r, co_checkpoint_content_hash r))
                 (Integrity CompactionCheckpointAbsent)) (\<lambda>c.
        rbind (validate_checkpoint E cs (jd_identity dir) c) (\<lambda>_.
        rbind (integrity_unless (name = compaction_name r) CompactionName) (\<lambda>_.
        each_res (archived_event_ok E dir verify_bytes)
          (zip (archived_event_sequences r) (archived_event_hashes r)))))))"

definition validate_published_compactions ::
  "allocator_env \<Rightarrow> rate_limit_capacity list \<Rightarrow> journal \<Rightarrow> bool \<Rightarrow> unit allocator_result" where
  "validate_published_compactions E cs dir verify_bytes =
     rbind (if jd_compactions dir = fmempty then Ok fmempty else event_paths (jd_archive dir)) (\<lambda>_.
     each_res (validate_published_compaction E cs dir verify_bytes) (sorted_list_of_fmap (jd_compactions dir)))"

section \<open>Replay\<close>

definition replay ::
  "allocator_env \<Rightarrow> rate_limit_capacity list \<Rightarrow> journal \<Rightarrow> replay_state allocator_result" where
  "replay E cs dir =
     rbind (validate_published_compactions E cs dir False) (\<lambda>_.
     rbind (load_latest_checkpoint E cs dir) (\<lambda>cp.
     (let start = (case cp of None \<Rightarrow> initial_state | Some c \<Rightarrow> replay_state_from_checkpoint c);
          covered = (case cp of None \<Rightarrow> 0 | Some c \<Rightarrow> last_event_sequence c) in
      rbind (case cp of None \<Rightarrow> Ok () | Some c \<Rightarrow> require_covered_prefix_present E dir c) (\<lambda>_.
      rbind (event_paths (jd_active dir)) (\<lambda>active.
      apply_events E cs start
        (map snd (filter (\<lambda>(n, _). covered < n) (sorted_list_of_fmap active))))))))"

definition combine_archive ::
  "(nat, allocator_event) fmap \<Rightarrow> nat \<times> allocator_event \<Rightarrow> (nat, allocator_event) fmap allocator_result" where
  "combine_archive combined p =
     (case p of (n, ev) \<Rightarrow>
        (case fmlookup combined n of
           Some active \<Rightarrow> if active = ev then Ok combined else Err (Integrity (ActiveArchiveDisagree n))
         | None \<Rightarrow> Ok (fmupd n ev combined)))"

definition full_replay ::
  "allocator_env \<Rightarrow> rate_limit_capacity list \<Rightarrow> journal \<Rightarrow> replay_state allocator_result" where
  "full_replay E cs dir =
     rbind (validate_published_compactions E cs dir True) (\<lambda>_.
     rbind (event_paths (jd_active dir)) (\<lambda>active.
     rbind (event_paths (jd_archive dir)) (\<lambda>archived.
     rbind (fold_res combine_archive active (sorted_list_of_fmap archived)) (\<lambda>combined.
     apply_events E cs initial_state (btree_values combined)))))"

end
