(* ===== verification/Allocator_Operations.thy ===== *)
theory Allocator_Operations
  imports Allocator_Journal
begin

text \<open>
  The operations of the allocator on its journal: the process-local cache, the append loop with its
  idempotency keys, reviewed and unreviewed reservations and dispositions, checkpoints and compaction.
  An operation takes the journal and the cache and returns both with its result.
\<close>

section \<open>Cache and hint\<close>

type_synonym cache_metadata =
  "string \<times> (nat \<times> string, allocator_checkpoint) fmap \<times> (nat \<times> string, compaction_record) fmap"

text \<open>The mutex around the cache is poisoned by a panic under it.\<close>

datatype (plugins only: code) allocator_cache = NoCache | Cached replay_state cache_metadata | Poisoned

definition cache_authority_metadata :: "journal \<Rightarrow> cache_metadata" where
  "cache_authority_metadata dir = (jd_identity dir, jd_checkpoints dir, jd_compactions dir)"

definition event_sequence_exists :: "journal \<Rightarrow> nat \<Rightarrow> bool" where
  "event_sequence_exists dir n \<longleftrightarrow> fmlookup (jd_active dir) n \<noteq> None \<or> fmlookup (jd_archive dir) n \<noteq> None"

definition publish_head_hint :: "replay_state \<Rightarrow> journal \<Rightarrow> journal" where
  "publish_head_hint s dir = dir\<lparr>jd_hint := Some (generation s, last_event_hash s)\<rparr>"

definition cache_valid :: "journal \<Rightarrow> replay_state \<Rightarrow> cache_metadata \<Rightarrow> bool" where
  "cache_valid dir s metadata \<longleftrightarrow>
     jd_hint dir = Some (generation s, last_event_hash s) \<and> metadata = cache_authority_metadata dir \<and>
     \<not> event_sequence_exists dir (generation s + 1)"

definition replay_cache_locked ::
  "allocator_env \<Rightarrow> rate_limit_capacity list \<Rightarrow> journal \<Rightarrow> allocator_cache \<Rightarrow> (journal \<times> replay_state) allocator_result" where
  "replay_cache_locked E cs dir cache =
     (let again = rbind (replay E cs dir) (\<lambda>s. Ok (publish_head_hint s dir, s)) in
      case cache of
        Poisoned \<Rightarrow> Err (Integrity CachePoisoned)
      | Cached s metadata \<Rightarrow> if cache_valid dir s metadata then Ok (dir, s) else again
      | NoCache \<Rightarrow> again)"

section \<open>Appending\<close>

definition new_event :: "allocator_env \<Rightarrow> replay_state \<Rightarrow> string \<Rightarrow> string \<Rightarrow> event_payload \<Rightarrow> allocator_event" where
  "new_event E s key digest payload =
     (let ev = \<lparr>ev_schema = allocator_event_schema, ev_schema_version = 0, ev_sequence = generation s + 1,
                prior_event_hash = last_event_hash s, idempotency_key = key, operation_digest = digest,
                ev_event_hash = [], ev_payload = payload\<rparr>
      in ev\<lparr>ev_event_hash := event_hash E ev\<rparr>)"

type_synonym event_validator = "replay_state \<Rightarrow> event_payload \<Rightarrow> unit allocator_result"

text \<open>
  The loop of \<open>append\<close>: a key seen before answers with its event; a taken number replays the journal
  and tries again, which is why the loop need not end on every directory.
\<close>

partial_function (option) append_loop ::
  "allocator_env \<Rightarrow> rate_limit_capacity list \<Rightarrow> event_validator \<Rightarrow> string \<Rightarrow> string \<Rightarrow> event_payload
   \<Rightarrow> journal \<Rightarrow> replay_state \<Rightarrow> (journal \<times> replay_state \<times> (bool \<times> allocator_event) allocator_result) option" where
  "append_loop E cs validate key digest payload dir s =
     (case fmlookup (events_by_idempotency s) key of
        Some existing \<Rightarrow>
          Some (dir, s, if operation_digest existing = digest then Ok (True, existing) else Err IdempotencyCollision)
      | None \<Rightarrow>
          (case validate s payload of
             Inl e \<Rightarrow> Some (dir, s, Err e)
           | Inr _ \<Rightarrow>
               (let ev = new_event E s key digest payload in
                case fmlookup (jd_active dir) (ev_sequence ev) of
                  Some _ \<Rightarrow>
                    (case replay E cs dir of
                       Inl e \<Rightarrow> Some (dir, s, Err e)
                     | Inr s' \<Rightarrow> append_loop E cs validate key digest payload (publish_head_hint s' dir) s')
                | None \<Rightarrow>
                    (let dir' = dir\<lparr>jd_active := fmupd (ev_sequence ev) ev (jd_active dir)\<rparr> in
                     case apply_checked_event E cs s ev of
                       Inl e \<Rightarrow> Some (dir', s, Err e)
                     | Inr s' \<Rightarrow> Some (publish_head_hint s' dir', s', Ok (False, ev))))))"

declare append_loop.simps [code]

fun cache_after :: "journal \<Rightarrow> replay_state \<Rightarrow> 'a allocator_result \<Rightarrow> allocator_cache" where
  "cache_after dir s (Inl (Panicked m)) = Poisoned"
| "cache_after dir s r = Cached s (cache_authority_metadata dir)"

type_synonym 'a allocator_step = "(journal \<times> allocator_cache \<times> 'a allocator_result) option"

definition append ::
  "allocator_env \<Rightarrow> rate_limit_capacity list \<Rightarrow> string \<Rightarrow> event_payload \<Rightarrow> event_validator
   \<Rightarrow> journal \<Rightarrow> allocator_cache \<Rightarrow> (bool \<times> allocator_event) allocator_step" where
  "append E cs key payload validate dir cache =
     (if key = [] then Some (dir, cache, Err (Integrity EmptyIdempotencyKey))
      else case replay_cache_locked E cs dir cache of
        Inl e \<Rightarrow> Some (dir, cache, Err e)
      | Inr (dir1, s) \<Rightarrow>
          (case append_loop E cs validate key (operation_digest_of E key payload) payload dir1 s of
             None \<Rightarrow> None
           | Some (dir2, s2, r) \<Rightarrow> Some (dir2, cache_after dir1 s2 r, r)))"

section \<open>Reservations\<close>

definition refuse :: "(protocol_finding list, 'a) result \<Rightarrow> unit allocator_result" where
  "refuse r = (case r of Inl fs \<Rightarrow> Err (Refused fs) | Inr _ \<Rightarrow> Ok ())"

fun validate_reserve ::
  "allocator_env \<Rightarrow> rate_limit_capacity list \<Rightarrow> execution_topology \<Rightarrow> event_validator" where
  "validate_reserve E cs topology s (Reserve t b binding d r) =
     rbind (validate_new_reservation_identity s r) (\<lambda>_.
     refuse (grant_indexed_topology_reservation (topology_hash E) topology d r (occupancy s) cs))"
| "validate_reserve E cs topology s (Disposition b binding a) = Err (Panicked ''unreachable'')"

definition reserve_unreviewed ::
  "allocator_env \<Rightarrow> rate_limit_capacity list \<Rightarrow> execution_topology \<Rightarrow> string \<Rightarrow> resource_declaration
   \<Rightarrow> resource_reservation \<Rightarrow> string \<Rightarrow> journal \<Rightarrow> allocator_cache \<Rightarrow> (bool \<times> allocator_event) allocator_step" where
  "reserve_unreviewed E cs topology base d r key =
     append E cs key (Reserve (topology_hash E topology) base None d r) (validate_reserve E cs topology)"

text \<open>What the allocator reads of an authority minted by the graph compiler.\<close>

record deployment_authority =
  da_claim_cell_id :: string
  da_accepted_review_id :: string
  da_topology_content_hash :: string
  da_policy_manifest_content_hash :: string
  da_deployment_bundle_hash :: string
  da_accepted_review_revision_id :: string
  da_case_space_id :: string

definition binding_for ::
  "allocator_env \<Rightarrow> deployment_authority \<Rightarrow> resource_declaration \<Rightarrow> resource_reservation \<Rightarrow> reviewed_binding" where
  "binding_for E authority d r =
     \<lparr>rb_schema = reviewed_binding_schema, rb_schema_version = 0,
      rb_claim_cell_id = da_claim_cell_id authority, rb_accepted_review_id = da_accepted_review_id authority,
      rb_reviewed_topology_hash = da_topology_content_hash authority,
      rb_policy_manifest_hash = da_policy_manifest_content_hash authority,
      rb_deployment_bundle_hash = da_deployment_bundle_hash authority,
      rb_accepted_review_revision = da_accepted_review_revision_id authority,
      rb_case_space_id = da_case_space_id authority, rb_node_id = rd_node_id d, rb_attempt_id = attempt_id r,
      rb_resource_declaration_hash = declaration_digest E d\<rparr>"

fun validate_reviewed_reserve ::
  "allocator_env \<Rightarrow> rate_limit_capacity list \<Rightarrow> execution_topology \<Rightarrow> event_validator" where
  "validate_reviewed_reserve E cs topology s (Reserve t b binding d r) =
     rbind (ok_or binding (Integrity MissingAuthority)) (\<lambda>bd.
     rbind (integrity_unless
              (rb_node_id bd = rd_node_id d \<and> rb_attempt_id bd = attempt_id r \<and>
               rb_resource_declaration_hash bd = declaration_digest E d) BindingMismatch) (\<lambda>_.
     validate_reserve E cs topology s (Reserve t b binding d r)))"
| "validate_reviewed_reserve E cs topology s (Disposition b binding a) = Err (Panicked ''unreachable'')"

definition reserve_reviewed ::
  "allocator_env \<Rightarrow> rate_limit_capacity list \<Rightarrow> execution_topology \<Rightarrow> deployment_authority \<Rightarrow> string
   \<Rightarrow> resource_declaration \<Rightarrow> resource_reservation \<Rightarrow> string \<Rightarrow> journal \<Rightarrow> allocator_cache
   \<Rightarrow> (bool \<times> allocator_event) allocator_step" where
  "reserve_reviewed E cs topology authority base d r key dir cache =
     (if topology_hash E topology \<noteq> da_topology_content_hash authority \<or> base \<noteq> da_accepted_review_revision_id authority
      then Some (dir, cache, Err (Integrity AuthorityMismatch))
      else append E cs key
             (Reserve (topology_hash E topology) base (Some (binding_for E authority d r)) d r)
             (validate_reviewed_reserve E cs topology) dir cache)"

section \<open>Dispositions\<close>

fun validate_unreviewed_disposition :: event_validator where
  "validate_unreviewed_disposition s (Disposition b binding a) = validate_disposition s a"
| "validate_unreviewed_disposition s (Reserve t b binding d r) = Err (Panicked ''unreachable'')"

definition disposition_unreviewed ::
  "allocator_env \<Rightarrow> rate_limit_capacity list \<Rightarrow> string \<Rightarrow> disposition_assertion \<Rightarrow> string
   \<Rightarrow> journal \<Rightarrow> allocator_cache \<Rightarrow> (bool \<times> allocator_event) allocator_step" where
  "disposition_unreviewed E cs base a key = append E cs key (Disposition base None a) validate_unreviewed_disposition"

definition same_deployment :: "reviewed_binding \<Rightarrow> reviewed_binding \<Rightarrow> bool" where
  "same_deployment x y \<longleftrightarrow>
     rb_case_space_id x = rb_case_space_id y \<and> rb_deployment_bundle_hash x = rb_deployment_bundle_hash y \<and>
     rb_reviewed_topology_hash x = rb_reviewed_topology_hash y \<and> rb_policy_manifest_hash x = rb_policy_manifest_hash y"

definition validate_superseding ::
  "replay_state \<Rightarrow> reviewed_binding option \<Rightarrow> disposition_assertion \<Rightarrow> unit allocator_result" where
  "validate_superseding s binding a =
     rbind (ok_or (superseding_reservation_id a) (Panicked ''validated by resource protocol'')) (\<lambda>i.
     rbind (ok_or (fmlookup (bindings_by_reservation_id s) i) (Integrity SupersedingWithoutAuthority)) (\<lambda>candidate.
     rbind (ok_or binding (Panicked ''reviewed disposition has authority'')) (\<lambda>own.
     integrity_unless (same_deployment candidate own) SupersedingOtherDeployment)))"

fun validate_reviewed_disposition :: event_validator where
  "validate_reviewed_disposition s (Disposition b binding a) =
     rbind (integrity_unless (fmlookup (bindings_by_identity s) (assertion_identity a) = binding) AuthorityDiffers) (\<lambda>_.
     rbind (if da_kind a = AkSupersede then validate_superseding s binding a else Ok ()) (\<lambda>_.
     validate_disposition s a))"
| "validate_reviewed_disposition s (Reserve t b binding d r) = Err (Panicked ''unreachable'')"

text \<open>The binding is looked up in an access of its own, before the append takes the lock.\<close>

definition reviewed_reservation_binding_by_identity ::
  "allocator_env \<Rightarrow> rate_limit_capacity list \<Rightarrow> identity \<Rightarrow> journal \<Rightarrow> allocator_cache
   \<Rightarrow> journal \<times> allocator_cache \<times> reviewed_binding option allocator_result" where
  "reviewed_reservation_binding_by_identity E cs i dir cache =
     (case replay_cache_locked E cs dir cache of
        Inl e \<Rightarrow> (dir, cache, Err e)
      | Inr (dir1, s) \<Rightarrow> (dir1, Cached s (cache_authority_metadata dir1), Ok (fmlookup (bindings_by_identity s) i)))"

definition disposition_reviewed ::
  "allocator_env \<Rightarrow> rate_limit_capacity list \<Rightarrow> string \<Rightarrow> disposition_assertion \<Rightarrow> string
   \<Rightarrow> journal \<Rightarrow> allocator_cache \<Rightarrow> (bool \<times> allocator_event) allocator_step" where
  "disposition_reviewed E cs base a key dir cache =
     (case reviewed_reservation_binding_by_identity E cs (assertion_identity a) dir cache of
        (dir1, cache1, Inl e) \<Rightarrow> Some (dir1, cache1, Err e)
      | (dir1, cache1, Inr None) \<Rightarrow> Some (dir1, cache1, Err (Integrity TargetWithoutAuthority))
      | (dir1, cache1, Inr (Some binding)) \<Rightarrow>
          append E cs key (Disposition base (Some binding) a) validate_reviewed_disposition dir1 cache1)"

section \<open>Snapshots and lookups\<close>

record allocator_snapshot =
  sn_generation :: nat
  sn_last_event_hash :: "string option"
  sn_active_reservations :: "resource_reservation list"
  sn_dispositions :: "disposition_assertion list"
  sn_capacities :: "rate_limit_capacity list"

definition snapshot_of :: "rate_limit_capacity list \<Rightarrow> replay_state \<Rightarrow> allocator_snapshot" where
  "snapshot_of cs s =
     \<lparr>sn_generation = generation s, sn_last_event_hash = last_event_hash s,
      sn_active_reservations = btree_values (active_by_identity s), sn_dispositions = rs_dispositions s,
      sn_capacities = cs\<rparr>"

definition with_cache ::
  "allocator_env \<Rightarrow> rate_limit_capacity list \<Rightarrow> (replay_state \<Rightarrow> 'a) \<Rightarrow> journal \<Rightarrow> allocator_cache
   \<Rightarrow> journal \<times> allocator_cache \<times> 'a allocator_result" where
  "with_cache E cs f dir cache =
     (case replay_cache_locked E cs dir cache of
        Inl e \<Rightarrow> (dir, cache, Err e)
      | Inr (dir1, s) \<Rightarrow> (dir1, Cached s (cache_authority_metadata dir1), Ok (f s)))"

definition allocator_snapshot_now ::
  "allocator_env \<Rightarrow> rate_limit_capacity list \<Rightarrow> journal \<Rightarrow> allocator_cache
   \<Rightarrow> journal \<times> allocator_cache \<times> allocator_snapshot allocator_result" where
  "allocator_snapshot_now E cs = with_cache E cs (snapshot_of cs)"

definition contains_exact_reservation :: "resource_declaration \<Rightarrow> resource_reservation \<Rightarrow> replay_state \<Rightarrow> bool" where
  "contains_exact_reservation d r s \<longleftrightarrow>
     fmlookup (rs_declarations s) (declaration_id d) = Some d \<and>
     fmlookup (reservations_by_identity s) (reservation_identity r) = Some r"

definition contains_disposition :: "disposition_assertion \<Rightarrow> replay_state \<Rightarrow> bool" where
  "contains_disposition a s \<longleftrightarrow> fmlookup (dispositions_by_id s) (assertion_id a) = Some a"

section \<open>Checkpoints and compaction\<close>

definition publish_checkpoint :: "allocator_checkpoint \<Rightarrow> journal \<Rightarrow> journal allocator_result" where
  "publish_checkpoint c dir =
     (case fmlookup (jd_checkpoints dir) (checkpoint_name c) of
        Some old \<Rightarrow> if old = c then Ok dir else Err (Integrity PublicationCollision)
      | None \<Rightarrow> Ok (dir\<lparr>jd_checkpoints := fmupd (checkpoint_name c) c (jd_checkpoints dir)\<rparr>))"

definition create_checkpoint ::
  "allocator_env \<Rightarrow> rate_limit_capacity list \<Rightarrow> journal \<Rightarrow> (journal \<times> replay_state \<times> allocator_checkpoint) allocator_result" where
  "create_checkpoint E cs dir =
     rbind (full_replay E cs dir) (\<lambda>s.
     rbind (integrity_unless (generation s \<noteq> 0) CheckpointEmpty) (\<lambda>_.
     rbind (checkpoint_from_state E s (jd_identity dir) (configuration_digest E cs)) (\<lambda>c0.
     (let c = c0\<lparr>checkpoint_content_hash := checkpoint_hash E c0\<rparr> in
      rbind (publish_checkpoint c dir) (\<lambda>dir1.
      rbind (validate_checkpoint E cs (jd_identity dir) c) (\<lambda>_.
      Ok (publish_head_hint s dir1, s, c)))))))"

definition state_prefix_equals :: "replay_state \<Rightarrow> replay_state \<Rightarrow> bool" where
  "state_prefix_equals full prefix_state =
     (let events = fmfilter (\<lambda>k. case fmlookup (events_by_idempotency full) k of
            None \<Rightarrow> False | Some ev \<Rightarrow> ev_sequence ev \<le> generation prefix_state) (events_by_idempotency full);
          ordered = events_by_sequence events
      in events = events_by_idempotency prefix_state \<and>
         last_event_hash prefix_state = (if ordered = [] then None else Some (ev_event_hash (last ordered))))"

record checkpoint_proof =
  pr_allocator_instance_id :: string
  pr_configuration_hash :: string
  pr_checkpoint_content_hash :: string
  pr_checkpoint_sequence :: nat

definition verify_latest_checkpoint ::
  "allocator_env \<Rightarrow> rate_limit_capacity list \<Rightarrow> journal \<Rightarrow> checkpoint_proof allocator_result" where
  "verify_latest_checkpoint E cs dir =
     rbind (load_latest_checkpoint E cs dir) (\<lambda>cp.
     rbind (ok_or cp (Integrity CheckpointAbsent)) (\<lambda>c.
     rbind (full_replay E cs dir) (\<lambda>full.
     rbind (integrity_unless
              (last_event_sequence c \<le> generation full \<and> state_prefix_equals full (replay_state_from_checkpoint c))
              CheckpointDiffers) (\<lambda>_.
     Ok \<lparr>pr_allocator_instance_id = jd_identity dir, pr_configuration_hash = configuration_digest E cs,
         pr_checkpoint_content_hash = checkpoint_content_hash c, pr_checkpoint_sequence = last_event_sequence c\<rparr>))))"

text \<open>
  The writes of a compaction, in the order of the code; a crash is a prefix of them. The code checks each
  source just before it links it, so a refused source leaves the links before it, which is such a prefix too.
  The check of the record it has just built, and of the archive copies it has just made, cannot fail.
\<close>

datatype (plugins only: code) compaction_write =
    LinkArchive nat allocator_event
  | PublishCompaction compaction_record
  | RemoveActive nat

fun compaction_write_step :: "compaction_write \<Rightarrow> journal \<Rightarrow> journal" where
  "compaction_write_step (LinkArchive n ev) dir = dir\<lparr>jd_archive := fmupd n ev (jd_archive dir)\<rparr>"
| "compaction_write_step (PublishCompaction r) dir = dir\<lparr>jd_compactions := fmupd (compaction_name r) r (jd_compactions dir)\<rparr>"
| "compaction_write_step (RemoveActive n) dir = dir\<lparr>jd_active := fmdrop n (jd_active dir)\<rparr>"

definition check_compaction_source ::
  "allocator_env \<Rightarrow> journal \<Rightarrow> nat \<times> allocator_event \<Rightarrow> unit allocator_result" where
  "check_compaction_source E dir p =
     (case p of (n, ev) \<Rightarrow>
        rbind (integrity_unless (ev_sequence ev = n \<and> ev_event_hash ev = event_hash E ev) (CompactionSourceInvalid n)) (\<lambda>_.
        integrity_unless (case fmlookup (jd_archive dir) n of None \<Rightarrow> True | Some old \<Rightarrow> old = ev) ArchiveDiffers))"

definition compaction_record_for ::
  "allocator_env \<Rightarrow> retention_policy \<Rightarrow> checkpoint_proof \<Rightarrow> (nat \<times> allocator_event) list \<Rightarrow> compaction_record" where
  "compaction_record_for E policy verified archived =
     (let r = \<lparr>co_schema = compaction_schema, co_schema_version = 0,
               co_allocator_instance_id = pr_allocator_instance_id verified,
               co_configuration_hash = pr_configuration_hash verified,
               co_checkpoint_content_hash = pr_checkpoint_content_hash verified,
               co_checkpoint_sequence = pr_checkpoint_sequence verified, co_retention_policy = policy,
               co_retention_policy_hash = policy_digest E policy, archived_event_sequences = map fst archived,
               archived_event_hashes = map (ev_event_hash \<circ> snd) archived, compaction_content_hash = []\<rparr>
      in r\<lparr>compaction_content_hash := compaction_hash E r\<rparr>)"

definition compact_plan ::
  "allocator_env \<Rightarrow> rate_limit_capacity list \<Rightarrow> retention_policy \<Rightarrow> checkpoint_proof \<Rightarrow> journal
   \<Rightarrow> compaction_write list allocator_result" where
  "compact_plan E cs policy verified dir =
     rbind (validate_retention_policy policy) (\<lambda>_.
     rbind (load_latest_checkpoint E cs dir) (\<lambda>cp.
     rbind (ok_or cp (Integrity CheckpointAbsent)) (\<lambda>current.
     rbind (integrity_unless
              (jd_identity dir = pr_allocator_instance_id verified \<and>
               configuration_digest E cs = pr_configuration_hash verified \<and>
               checkpoint_content_hash current = pr_checkpoint_content_hash verified \<and>
               last_event_sequence current = pr_checkpoint_sequence verified) StaleProof) (\<lambda>_.
     (let cutoff = pr_checkpoint_sequence verified - retain_active_event_count policy in
      rbind (event_paths (jd_active dir)) (\<lambda>active.
      (let archived = filter (\<lambda>(n, _). n \<le> cutoff) (sorted_list_of_fmap active);
           record = compaction_record_for E policy verified archived in
       rbind (each_res (check_compaction_source E dir) archived) (\<lambda>_.
       rbind (integrity_unless
                (case fmlookup (jd_compactions dir) (compaction_name record) of None \<Rightarrow> True | Some old \<Rightarrow> old = record)
                PublicationCollision) (\<lambda>_.
       Ok (map (\<lambda>(n, ev). LinkArchive n ev) archived @ [PublishCompaction record]
           @ map (\<lambda>(n, _). RemoveActive n) archived))))))))))"

definition compact ::
  "allocator_env \<Rightarrow> rate_limit_capacity list \<Rightarrow> retention_policy \<Rightarrow> checkpoint_proof \<Rightarrow> journal \<Rightarrow> journal allocator_result" where
  "compact E cs policy verified dir =
     rbind (compact_plan E cs policy verified dir) (\<lambda>ws. Ok (fold compaction_write_step ws dir))"

end
