(* ===== verification/Resource_Occupancy.thy ===== *)
theory Resource_Occupancy
  imports Resource_Protocol "HOL-Library.Multiset"
begin

text \<open>
  The occupancy index is a function of the active reservations: which index a list of reservations
  has, that insertion and removal follow the list, and what the evaluator decides in its terms.
\<close>

section \<open>The index of a list of reservations\<close>

lemma mode_occupancy_eqI:
  fixes h h' :: mode_occupancy
  assumes "\<And>m. mode_holders m h = mode_holders m h'"
  shows "h = h'"
  using assms [of RmRead] assms [of RmWrite] assms [of RmExclusive] by simp

lemma mode_holders_update [simp]:
  "mode_holders m (update_holders m' f h) = (if m = m' then f (mode_holders m h) else mode_holders m h)"
  by (cases m; cases m') simp_all

lemma mode_holders_none [simp]: "mode_holders m no_holders = {}"
  by (cases m) (simp_all add: no_holders_def)

lemma no_holders_iff: "h = no_holders \<longleftrightarrow> (\<forall>m. mode_holders m h = {})"
  using mode_occupancy_eqI [of h no_holders] by auto

definition holding :: "resource_reservation list \<Rightarrow> string \<Rightarrow> resource_mode \<Rightarrow> string set" where
  "holding rs res m =
     {reservation_id r | r. r \<in> set rs \<and> (\<exists>g \<in> set (grants r). resource_id g = res \<and> grant_mode g = m)}"

definition group_units :: "string \<Rightarrow> resource_grant list \<Rightarrow> nat" where
  "group_units grp gs = (\<Sum>g \<leftarrow> gs. if rate_limit_group g = Some grp then rate_limit_units g else 0)"

definition used_units :: "resource_reservation list \<Rightarrow> string \<Rightarrow> nat" where
  "used_units rs grp = (\<Sum>r \<leftarrow> rs. group_units grp (grants r))"

definition unless_zero :: "nat \<Rightarrow> nat option" where
  "unless_zero n = (if n = 0 then None else Some n)"

definition holds :: "occupancy_index \<Rightarrow> string \<Rightarrow> resource_mode \<Rightarrow> string set" where
  "holds idx res m = mode_holders m (holders_at idx res)"

text \<open>
  \<open>occupies idx rs\<close>: the index holds exactly the reservations \<open>rs\<close>, with no empty entry.
\<close>

definition occupies :: "occupancy_index \<Rightarrow> resource_reservation list \<Rightarrow> bool" where
  "occupies idx rs \<longleftrightarrow>
     oc_reservation_ids idx = reservation_id ` set rs \<and> oc_attempt_ids idx = attempt_id ` set rs \<and>
     holds idx = holding rs \<and>
     (\<forall>res h. fmlookup (oc_resources idx) res = Some h \<longrightarrow> h \<noteq> no_holders) \<and>
     (\<forall>grp. fmlookup (oc_rate_limit_units idx) grp = unless_zero (used_units rs grp))"

definition grant_ok :: "resource_grant \<Rightarrow> bool" where
  "grant_ok g \<longleftrightarrow> (rate_limit_group g \<noteq> None) = (0 < rate_limit_units g)"

lemma holders_at_lookup:
  assumes "\<forall>res h. fmlookup (oc_resources idx) res = Some h \<longrightarrow> h \<noteq> no_holders"
  shows "fmlookup (oc_resources idx) res = (if holders_at idx res = no_holders then None else Some (holders_at idx res))"
  using assms by (auto simp: holders_at_def split: option.splits)

lemma holds_eq_holders: "holds idx = holds idx' \<Longrightarrow> holders_at idx res = holders_at idx' res"
  by (rule mode_occupancy_eqI) (metis holds_def)

lemma occupies_unique:
  assumes "occupies idx rs" "occupies idx' rs"
  shows "idx = idx'"
proof -
  have "holders_at idx res = holders_at idx' res" for res
    using assms by (intro holds_eq_holders) (simp add: occupies_def)
  moreover have "fmlookup (oc_resources idx) res = (if holders_at idx res = no_holders then None else Some (holders_at idx res))"
    "fmlookup (oc_resources idx') res = (if holders_at idx' res = no_holders then None else Some (holders_at idx' res))" for res
    using holders_at_lookup [of idx res] holders_at_lookup [of idx' res] assms by (simp_all add: occupies_def)
  ultimately have "oc_resources idx = oc_resources idx'" by (intro fmap_ext) simp
  moreover have "oc_rate_limit_units idx = oc_rate_limit_units idx'"
    using assms by (intro fmap_ext) (simp add: occupies_def)
  ultimately show ?thesis using assms by (simp add: occupies_def)
qed

lemma used_units_mset:
  assumes "mset rs = mset rs'"
  shows "used_units rs = used_units rs'"
proof
  fix grp
  have "sum_mset (mset (map (\<lambda>r. group_units grp (grants r)) rs)) = sum_mset (mset (map (\<lambda>r. group_units grp (grants r)) rs'))"
    by (simp only: mset_map assms)
  then show "used_units rs grp = used_units rs' grp" unfolding used_units_def sum_mset_sum_list .
qed

lemma occupies_same_set:
  assumes "occupies idx rs" "mset rs = mset rs'"
  shows "occupies idx rs'"
proof -
  have "set rs = set rs'" using assms(2) by (metis set_mset_mset)
  moreover have "used_units rs = used_units rs'" by (rule used_units_mset [OF assms(2)])
  moreover from calculation(1) have "holding rs = holding rs'" by (simp add: holding_def fun_eq_iff)
  ultimately show ?thesis using assms(1) by (simp add: occupies_def)
qed

lemma occupies_empty: "occupies empty_occupancy []"
  by (auto simp: occupies_def empty_occupancy_def holds_def holders_at_def holding_def used_units_def
      unless_zero_def fun_eq_iff)

section \<open>Insertion\<close>

lemma units_at_lookup: "\<forall>grp. fmlookup m grp = unless_zero (f grp) \<Longrightarrow> units_at m g = f g"
  by (simp add: units_at_def unless_zero_def)

lemma add_units_lookup:
  assumes "\<forall>grp. fmlookup m grp = unless_zero (f grp)" "grant_ok g"
  shows "fmlookup (add_units g m) grp = unless_zero (f grp + group_units grp [g])"
  using assms units_at_lookup [OF assms(1)]
  by (auto simp: add_units_def group_units_def grant_ok_def unless_zero_def split: option.splits)

lemma group_units_simps [simp]:
  "group_units grp [] = 0" "group_units grp (xs @ ys) = group_units grp xs + group_units grp ys"
  by (simp_all add: group_units_def)

lemma group_units_Cons: "group_units grp (g # gs) = group_units grp [g] + group_units grp gs"
  by (simp add: group_units_def)

lemma fold_add_units_lookup:
  assumes "\<forall>grp. fmlookup m grp = unless_zero (f grp)" "list_all grant_ok gs"
  shows "fmlookup (fold add_units gs m) grp = unless_zero (f grp + group_units grp gs)"
  using assms
proof (induction gs arbitrary: m f)
  case (Cons g gs)
  have "\<forall>grp. fmlookup (add_units g m) grp = unless_zero (f grp + group_units grp [g])"
    using Cons.prems by (intro allI add_units_lookup) simp_all
  from Cons.IH [OF this] Cons.prems(2) show ?case by (simp add: group_units_Cons [of _ g gs] add.assoc)
qed simp

lemma used_units_Cons [simp]: "used_units (r # rs) grp = group_units grp (grants r) + used_units rs grp"
  by (simp add: used_units_def)

lemma holds_ids [simp]: "holds (idx\<lparr>oc_reservation_ids := A, oc_attempt_ids := B\<rparr>) = holds idx"
  by (simp add: holds_def holders_at_def fun_eq_iff)

lemma holding_Cons:
  "holding (r # rs) res m =
     holding rs res m \<union> (if \<exists>g \<in> set (grants r). resource_id g = res \<and> grant_mode g = m then {reservation_id r} else {})"
  by (auto simp: holding_def)

lemma insert_grant_fields:
  "oc_reservation_ids (insert_grant rid g idx) = oc_reservation_ids idx"
  "oc_attempt_ids (insert_grant rid g idx) = oc_attempt_ids idx"
  "oc_rate_limit_units (insert_grant rid g idx) = add_units g (oc_rate_limit_units idx)"
  "holds (insert_grant rid g idx) res m =
     holds idx res m \<union> (if resource_id g = res \<and> grant_mode g = m then {rid} else {})"
  by (auto simp: insert_grant_def holds_def holders_at_def split: option.splits)

lemma insert_grant_nonempty:
  assumes "\<forall>res h. fmlookup (oc_resources idx) res = Some h \<longrightarrow> h \<noteq> no_holders"
    "fmlookup (oc_resources (insert_grant rid g idx)) res = Some h"
  shows "h \<noteq> no_holders"
  using assms by (auto simp: insert_grant_def no_holders_iff split: if_splits)

lemma fold_insert_grants:
  defines "ins \<equiv> \<lambda>rid gs idx. fold (insert_grant rid) gs idx"
  shows "oc_reservation_ids (ins rid gs idx) = oc_reservation_ids idx"
    "oc_attempt_ids (ins rid gs idx) = oc_attempt_ids idx"
    "oc_rate_limit_units (ins rid gs idx) = fold add_units gs (oc_rate_limit_units idx)"
    "holds (ins rid gs idx) res m =
       holds idx res m \<union> (if \<exists>g \<in> set gs. resource_id g = res \<and> grant_mode g = m then {rid} else {})"
    "\<forall>res h. fmlookup (oc_resources idx) res = Some h \<longrightarrow> h \<noteq> no_holders \<Longrightarrow>
       \<forall>res h. fmlookup (oc_resources (ins rid gs idx)) res = Some h \<longrightarrow> h \<noteq> no_holders"
  unfolding ins_def
proof (induction gs arbitrary: idx)
  case (Cons g gs)
  {
    case 1 then show ?case using Cons by (simp add: insert_grant_fields)
  next
    case 2 then show ?case using Cons by (simp add: insert_grant_fields)
  next
    case 3 then show ?case using Cons by (simp add: insert_grant_fields)
  next
    case 4 then show ?case using Cons by (auto simp: insert_grant_fields)
  next
    case 5 then show ?case using Cons insert_grant_nonempty by (metis fold_simps(2))
  }
qed simp_all

lemma occupancy_insert_occupies:
  assumes "occupies idx rs" "list_all grant_ok (grants r)"
  shows "occupies (occupancy_insert r idx) (r # rs)"
proof -
  have "\<forall>grp. fmlookup (oc_rate_limit_units idx) grp = unless_zero (used_units rs grp)"
    using assms(1) by (simp add: occupies_def)
  from fold_add_units_lookup [OF this assms(2)]
  have units: "fmlookup (oc_rate_limit_units (occupancy_insert r idx)) grp = unless_zero (used_units (r # rs) grp)" for grp
    by (simp add: occupancy_insert_def fold_insert_grants(3) add.commute)
  have "holds (occupancy_insert r idx) = holding (r # rs)"
    using assms(1) unfolding occupancy_insert_def fun_eq_iff fold_insert_grants(4) holds_ids holding_Cons
    by (simp add: occupies_def)
  moreover have "\<forall>res h. fmlookup (oc_resources (occupancy_insert r idx)) res = Some h \<longrightarrow> h \<noteq> no_holders"
    unfolding occupancy_insert_def by (rule fold_insert_grants(5)) (use assms(1) in \<open>simp add: occupies_def\<close>)
  ultimately show ?thesis
    using assms(1) units
    unfolding occupies_def by (simp add: occupancy_insert_def fold_insert_grants(1,2))
qed

lemma from_active_occupies:
  assumes "list_all (\<lambda>r. list_all grant_ok (grants r)) rs"
  shows "occupies (from_active_reservations rs) rs"
proof -
  have "occupies (fold occupancy_insert rs idx) (rev rs @ acc)" if "occupies idx acc" for idx acc
    using assms that
  proof (induction rs arbitrary: idx acc)
    case (Cons r rs)
    from Cons.IH [of "occupancy_insert r idx" "r # acc"] Cons.prems show ?case
      by (simp add: occupancy_insert_occupies)
  qed simp
  from this [OF occupies_empty] have "occupies (from_active_reservations rs) (rev rs)"
    by (simp add: from_active_reservations_def)
  then show ?thesis by (rule occupies_same_set) simp
qed

section \<open>Removal\<close>

lemma release_units_lookup:
  assumes "\<forall>grp. fmlookup m grp = unless_zero (f grp + group_units grp [g])" "grant_ok g"
  shows "\<exists>m'. release_units g m = Ok m' \<and> (\<forall>grp. fmlookup m' grp = unless_zero (f grp))"
  using assms by (auto simp: release_units_def group_units_def grant_ok_def unless_zero_def split: option.splits)

text \<open>
  The state of the removal loop after the grants \<open>gs\<close> of the reservation \<open>rid\<close>: the holders without \<open>rid\<close>
  where \<open>gs\<close> held, the entries kept, the emptied ones recorded.
\<close>

definition removing ::
  "occupancy_index \<Rightarrow> string \<Rightarrow> resource_grant list \<Rightarrow> occupancy_index \<Rightarrow> string list \<Rightarrow> bool" where
  "removing idx rid gs idx' empties \<longleftrightarrow>
     oc_reservation_ids idx' = oc_reservation_ids idx \<and> oc_attempt_ids idx' = oc_attempt_ids idx \<and>
     (\<forall>res m. holds idx' res m =
        holds idx res m - {x. x = rid \<and> (\<exists>g \<in> set gs. resource_id g = res \<and> grant_mode g = m)}) \<and>
     fmdom' (oc_resources idx') = fmdom' (oc_resources idx) \<and>
     set empties = {res \<in> resource_id ` set gs. holders_at idx' res = no_holders}"

lemma removing_step:
  assumes rem: "removing idx rid gs idx' empties" and ok: "grant_ok g"
    and dom: "resource_id g \<in> fmdom' (oc_resources idx)"
    and units: "\<forall>grp. fmlookup (oc_rate_limit_units idx') grp = unless_zero (f grp + group_units grp [g])"
  shows "\<exists>idx'' empties'. remove_grant rid (idx', empties) g = Ok (idx'', empties') \<and>
    removing idx rid (gs @ [g]) idx'' empties' \<and>
    (\<forall>grp. fmlookup (oc_rate_limit_units idx'') grp = unless_zero (f grp))"
proof -
  from rem dom have "resource_id g \<in> fmdom' (oc_resources idx')" by (simp add: removing_def)
  then obtain h where h: "fmlookup (oc_resources idx') (resource_id g) = Some h"
    by (auto simp: fmlookup_dom'_iff)
  then have at: "holders_at idx' (resource_id g) = h" by (simp add: holders_at_def)
  from release_units_lookup [OF units ok] obtain m' where
    m': "release_units g (oc_rate_limit_units idx') = Ok m'" "\<forall>grp. fmlookup m' grp = unless_zero (f grp)" by blast
  define h' where "h' = update_holders (grant_mode g) (\<lambda>s. s - {rid}) h"
  define idx2 where "idx2 = idx'\<lparr>oc_resources := fmupd (resource_id g) h' (oc_resources idx'), oc_rate_limit_units := m'\<rparr>"
  define em2 where "em2 = (if h' = no_holders then empties @ [resource_id g] else empties)"
  have at2: "holders_at idx2 res = (if res = resource_id g then h' else holders_at idx' res)" for res
    by (simp add: idx2_def holders_at_def)
  have empty_stays: "h = no_holders \<Longrightarrow> h' = no_holders" by (auto simp: h'_def no_holders_iff)
  have "remove_grant rid (idx', empties) g = Ok (idx2, em2)"
    by (simp add: remove_grant_def h m' Let_def h'_def idx2_def em2_def)
  moreover have "removing idx rid (gs @ [g]) idx2 em2"
  proof -
    have "holds idx2 res m = holds idx res m -
        {x. x = rid \<and> (\<exists>k \<in> set (gs @ [g]). resource_id k = res \<and> grant_mode k = m)}" for res m
      using rem at by (auto simp: removing_def holds_def at2 h'_def)
    moreover have "set em2 = {res \<in> resource_id ` set (gs @ [g]). holders_at idx2 res = no_holders}"
      using rem at empty_stays by (auto simp: removing_def at2 em2_def)
    moreover have "fmdom' (oc_resources idx2) = fmdom' (oc_resources idx)"
      using rem dom by (auto simp: removing_def idx2_def)
    ultimately show ?thesis using rem by (simp add: removing_def idx2_def)
  qed
  ultimately show ?thesis using m'(2) by (auto simp: idx2_def)
qed

lemma removing_loop:
  assumes "removing idx rid gs idx' empties" "list_all grant_ok rest"
    and "\<forall>g \<in> set rest. resource_id g \<in> fmdom' (oc_resources idx)"
    and "\<forall>grp. fmlookup (oc_rate_limit_units idx') grp = unless_zero (f grp + group_units grp rest)"
  shows "\<exists>idx'' empties'. fold_res (remove_grant rid) (idx', empties) rest = Ok (idx'', empties') \<and>
    removing idx rid (gs @ rest) idx'' empties' \<and> (\<forall>grp. fmlookup (oc_rate_limit_units idx'') grp = unless_zero (f grp))"
  using assms
proof (induction rest arbitrary: gs idx' empties)
  case Nil
  then show ?case by simp
next
  case (Cons g rest)
  have "\<forall>grp. fmlookup (oc_rate_limit_units idx') grp = unless_zero ((f grp + group_units grp rest) + group_units grp [g])"
    using Cons.prems(4) by (simp add: group_units_Cons [of _ g rest] ac_simps)
  from removing_step [OF Cons.prems(1) _ _ this] Cons.prems(2,3) obtain idx2 em2 where
    step: "remove_grant rid (idx', empties) g = Ok (idx2, em2)" "removing idx rid (gs @ [g]) idx2 em2"
    "\<forall>grp. fmlookup (oc_rate_limit_units idx2) grp = unless_zero (f grp + group_units grp rest)" by auto
  from Cons.IH [OF step(2) _ _ step(3)] Cons.prems(2,3) show ?case by (simp add: step(1))
qed

lemma fold_fmdrop_lookup: "fmlookup (fold fmdrop ks m) k = (if k \<in> set ks then None else fmlookup m k)"
  by (induction ks arbitrary: m) auto

lemma removed_occupies:
  assumes occ: "occupies idx (r # rs)"
    and fresh: "reservation_id r \<notin> reservation_id ` set rs" "attempt_id r \<notin> attempt_id ` set rs"
    and rem: "removing (idx\<lparr>oc_reservation_ids := oc_reservation_ids idx - {reservation_id r},
        oc_attempt_ids := oc_attempt_ids idx - {attempt_id r}\<rparr>) (reservation_id r) (grants r) idx2 em2"
    and units: "\<forall>grp. fmlookup (oc_rate_limit_units idx2) grp = unless_zero (used_units rs grp)"
    and idx3: "idx3 = idx2\<lparr>oc_resources := fold fmdrop em2 (oc_resources idx2)\<rparr>"
  shows "occupies idx3 rs"
proof -
  have em: "set em2 = {res \<in> resource_id ` set (grants r). holders_at idx2 res = no_holders}"
    and dom: "fmdom' (oc_resources idx2) = fmdom' (oc_resources idx)"
    and removed: "holds idx2 res m = holds idx res m -
        {x. x = reservation_id r \<and> (\<exists>g \<in> set (grants r). resource_id g = res \<and> grant_mode g = m)}" for res m
    using rem by (simp_all add: removing_def)
  have at3: "holders_at idx3 res = holders_at idx2 res" for res
    using em by (auto simp: idx3 holders_at_def fold_fmdrop_lookup)
  have "reservation_id r \<notin> holding rs res m" for res m using fresh(1) by (auto simp: holding_def)
  then have "holds idx3 = holding rs"
    using occ at3 removed by (auto simp: holds_def occupies_def holding_Cons fun_eq_iff)
  moreover have "h \<noteq> no_holders" if "fmlookup (oc_resources idx3) res = Some h" for res h
  proof
    assume empty: "h = no_holders"
    from that have res: "res \<notin> set em2" "fmlookup (oc_resources idx2) res = Some h"
      by (auto simp: idx3 fold_fmdrop_lookup split: if_splits)
    then have at2: "holders_at idx2 res = no_holders" using empty by (simp add: holders_at_def)
    with res(1) em have "res \<notin> resource_id ` set (grants r)" by auto
    then have "holds idx res m = {}" for m using removed [of res m] at2 by (auto simp: holds_def split: if_splits)
    then have "holders_at idx res = no_holders" by (simp add: no_holders_iff holds_def)
    moreover from res(2) dom obtain h0 where "fmlookup (oc_resources idx) res = Some h0"
      by (metis fmlookup_dom'_iff)
    ultimately show False using occ by (auto simp: occupies_def holders_at_def)
  qed
  ultimately show ?thesis using occ fresh rem units by (auto simp: occupies_def removing_def idx3)
qed

lemma occupancy_remove_occupies:
  assumes occ: "occupies idx (r # rs)" and ok: "list_all grant_ok (grants r)"
    and fresh: "reservation_id r \<notin> reservation_id ` set rs" "attempt_id r \<notin> attempt_id ` set rs"
  shows "\<exists>idx'. occupancy_remove r idx = Ok idx' \<and> occupies idx' rs"
proof -
  let ?rid = "reservation_id r"
  let ?start = "idx\<lparr>oc_reservation_ids := oc_reservation_ids idx - {?rid}, oc_attempt_ids := oc_attempt_ids idx - {attempt_id r}\<rparr>"
  have held: "?rid \<in> mode_holders (grant_mode g) (holders_at idx (resource_id g))" if "g \<in> set (grants r)" for g
    using occ that by (auto simp: occupies_def holds_def [symmetric] holding_Cons)
  have look: "fmlookup (oc_resources idx) (resource_id g) = Some (holders_at idx (resource_id g))" if "g \<in> set (grants r)" for g
    using held [OF that] by (auto simp: holders_at_def split: option.splits)
  have units: "fmlookup (oc_rate_limit_units idx) grp = unless_zero (used_units rs grp + group_units grp (grants r))" for grp
    using occ by (simp add: occupies_def add.commute)
  have member: "rate_limit_units g \<le> group_units grp (grants r)" if "g \<in> set (grants r)" "rate_limit_group g = Some grp" for g grp
    using member_le_sum_list [of "rate_limit_units g" "map (\<lambda>g. if rate_limit_group g = Some grp then rate_limit_units g else 0) (grants r)"] that
    by (auto simp: group_units_def image_iff)
  have check: "each_res (check_holder ?rid idx) (grants r) = Ok ()"
    unfolding each_res_eq_Inr
  proof
    fix g
    assume g: "g \<in> set (grants r)"
    with ok have "grant_ok g" by (simp add: list_all_iff)
    with g member [OF g] held [OF g] look [OF g] units show "check_holder ?rid idx g = Ok ()"
      by (cases "rate_limit_group g")
        (fastforce simp: check_holder_def check_units_def grant_ok_def unless_zero_def)+
  qed
  have "removing ?start ?rid [] ?start []" by (simp add: removing_def)
  from removing_loop [OF this ok, of "used_units rs"] look units obtain idx2 em2 where
    loop: "fold_res (remove_grant ?rid) (?start, []) (grants r) = Ok (idx2, em2)"
    "removing ?start ?rid (grants r) idx2 em2"
    "\<forall>grp. fmlookup (oc_rate_limit_units idx2) grp = unless_zero (used_units rs grp)"
    by (auto simp: fmlookup_dom'_iff)
  define idx3 where "idx3 = idx2\<lparr>oc_resources := fold fmdrop em2 (oc_resources idx2)\<rparr>"
  have "occupancy_remove r idx = Ok idx3"
    using occ check loop(1) by (simp add: occupancy_remove_def occupies_def idx3_def)
  moreover have "occupies idx3 rs"
    by (rule removed_occupies [OF occ fresh loop(2,3) idx3_def])
  ultimately show ?thesis by blast
qed

end
