(* ===== verification/Resource_Grants.thy ===== *)
theory Resource_Grants
  imports Resource_Occupancy
begin

text \<open>
  What the evaluator of reservations and the reconciliation decide, in terms of the reservations
  themselves.
\<close>

section \<open>The decision of the evaluator\<close>

definition modes_conflict :: "resource_mode \<Rightarrow> resource_mode \<Rightarrow> bool" where
  "modes_conflict m m' \<longleftrightarrow> \<not> (m = RmRead \<and> m' = RmRead)"

definition reservations_conflict :: "resource_reservation \<Rightarrow> resource_reservation \<Rightarrow> bool" where
  "reservations_conflict r r' \<longleftrightarrow>
     (\<exists>g \<in> set (grants r). \<exists>g' \<in> set (grants r').
        resource_id g = resource_id g' \<and> modes_conflict (grant_mode g) (grant_mode g'))"

lemma holding_finite [simp]: "finite (holding rs res m)"
proof -
  have "holding rs res m \<subseteq> reservation_id ` set rs" by (auto simp: holding_def)
  then show ?thesis by (rule finite_subset) simp
qed

lemma conflicting_holders_Nil:
  assumes "\<And>m. finite (mode_holders m h)"
  shows "conflicting_holders k h = [] \<longleftrightarrow> (\<forall>m. modes_conflict k m \<longrightarrow> mode_holders m h = {})"
proof -
  have fin: "finite (readers h)" "finite (writers h)" "finite (exclusive h)"
    using assms [of RmRead] assms [of RmWrite] assms [of RmExclusive] by simp_all
  have all: "(\<forall>m. P m) \<longleftrightarrow> P RmRead \<and> P RmWrite \<and> P RmExclusive" for P
    by (metis resource_mode.exhaust)
  show ?thesis using fin by (cases k) (auto simp: conflicting_holders_def modes_conflict_def all)
qed

lemma conflict_findings_Nil:
  assumes "occupies idx rs"
  shows "conflict_findings idx g = [] \<longleftrightarrow> (\<forall>m. modes_conflict (grant_mode g) m \<longrightarrow> holding rs (resource_id g) m = {})"
proof -
  have h: "mode_holders m (holders_at idx (resource_id g)) = holding rs (resource_id g) m" for m
    using assms by (auto simp: occupies_def holds_def [symmetric])
  show ?thesis
  proof (cases "fmlookup (oc_resources idx) (resource_id g)")
    case None
    then have "holders_at idx (resource_id g) = no_holders" by (simp add: holders_at_def)
    with h show ?thesis using None by (simp add: conflict_findings_def)
  next
    case (Some hs)
    then have "holders_at idx (resource_id g) = hs" by (simp add: holders_at_def)
    with h conflicting_holders_Nil [of hs "grant_mode g"] Some show ?thesis
      by (simp add: conflict_findings_def)
  qed
qed

lemma no_conflicts_iff:
  assumes "occupies idx rs"
  shows "concat (map (conflict_findings idx) (grants r)) = [] \<longleftrightarrow> (\<forall>r' \<in> set rs. \<not> reservations_conflict r r')"
proof -
  have "holding rs res m = {} \<longleftrightarrow> (\<forall>r' \<in> set rs. \<forall>g' \<in> set (grants r'). \<not> (resource_id g' = res \<and> grant_mode g' = m))" for res m
    by (auto simp: holding_def)
  then have "concat (map (conflict_findings idx) (grants r)) = [] \<longleftrightarrow>
      (\<forall>g \<in> set (grants r). \<forall>m. modes_conflict (grant_mode g) m \<longrightarrow>
         (\<forall>r' \<in> set rs. \<forall>g' \<in> set (grants r'). \<not> (resource_id g' = resource_id g \<and> grant_mode g' = m)))"
    by (simp add: conflict_findings_Nil [OF assms])
  also have "\<dots> \<longleftrightarrow> (\<forall>r' \<in> set rs. \<not> reservations_conflict r r')"
    unfolding reservations_conflict_def by metis
  finally show ?thesis .
qed

definition capacities_ok :: "rate_limit_capacity list \<Rightarrow> bool" where
  "capacities_ok cs \<longleftrightarrow>
     distinct (map group_id cs) \<and> list_all (\<lambda>c. supported_capacity c \<and> is_canonical_id (group_id c)) cs"

lemma capacity_findings_Nil:
  "capacity_findings rid seen cs = [] \<longleftrightarrow> capacities_ok cs \<and> seen \<inter> group_id ` set cs = {}"
  by (induction cs arbitrary: seen) (auto simp: capacities_ok_def)

lemma lookup_capacity:
  assumes "capacities_ok cs"
  shows "fmlookup (capacity_by_group cs) grp = Some cap \<longleftrightarrow> (\<exists>c \<in> set cs. group_id c = grp \<and> capacity c = cap)"
proof -
  have "filter supported_capacity cs = cs" using assms by (simp add: capacities_ok_def list_all_iff)
  moreover have "distinct (map fst (map (\<lambda>c. (group_id c, capacity c)) cs))"
    using assms by (simp add: capacities_ok_def comp_def)
  ultimately show ?thesis
    unfolding capacity_by_group_def by (auto simp: lookup_collect_distinct map_of_eq_Some_iff)
qed

definition within_capacity :: "rate_limit_capacity list \<Rightarrow> resource_reservation list \<Rightarrow> bool" where
  "within_capacity cs rs \<longleftrightarrow>
     (\<forall>grp. 0 < used_units rs grp \<longrightarrow> (\<exists>c \<in> set cs. group_id c = grp \<and> used_units rs grp \<le> capacity c))"

lemma usage_findings_Nil:
  assumes cs: "capacities_ok cs" and used: "\<And>grp. fmlookup used grp = unless_zero (used_units rs grp)"
  shows "usage_findings rid cs used = [] \<longleftrightarrow> within_capacity cs rs"
proof -
  have at: "units_at used grp = used_units rs grp" for grp using units_at_lookup [of used "used_units rs"] used by simp
  let ?report = "\<lambda>grp. case fmlookup (capacity_by_group cs) grp of
         Some cap \<Rightarrow> finding_unless (units_at used grp \<le> cap)
           (finding_of ''rate_limit_capacity_exceeded'' None (Some rid) None
              (''rate-limit group '' @ debug_str grp @ '' requests '' @ show_nat (units_at used grp)
               @ '' units with capacity '' @ show_nat cap))
       | None \<Rightarrow> [finding_of ''missing_rate_limit_capacity'' None (Some rid) None
              (''rate-limit group '' @ debug_str grp @ '' has no explicit capacity'')]"
  have one: "?report grp = [] \<longleftrightarrow>
      (\<exists>cap. fmlookup (capacity_by_group cs) grp = Some cap \<and> used_units rs grp \<le> cap)" for grp
    by (simp add: at split: option.splits)
  have "usage_findings rid cs used = [] \<longleftrightarrow> (\<forall>grp \<in> set (btree_keys used). ?report grp = [])"
    unfolding usage_findings_def concat_eq_Nil_conv by simp
  also have "\<dots> \<longleftrightarrow> (\<forall>grp. fmlookup used grp \<noteq> None \<longrightarrow>
      (\<exists>cap. fmlookup (capacity_by_group cs) grp = Some cap \<and> used_units rs grp \<le> cap))"
    unfolding one Ball_def set_btree_keys ..
  also have "\<dots> \<longleftrightarrow> within_capacity cs rs"
  proof -
    have "(\<exists>cap. fmlookup (capacity_by_group cs) grp = Some cap \<and> n \<le> cap) \<longleftrightarrow>
        (\<exists>c \<in> set cs. group_id c = grp \<and> n \<le> capacity c)" for grp n
      unfolding lookup_capacity [OF cs] by blast
    then show ?thesis by (simp add: within_capacity_def used unless_zero_def)
  qed
  finally show ?thesis .
qed

lemma validated_grants_ok:
  assumes "validate_declaration_and_reservation d r = []"
  shows "list_all grant_ok (grants r)"
  using assms
  by (auto simp: validate_declaration_and_reservation_def Let_def validate_grant_def list_all_iff grant_ok_def)

lemma grant_indexed_iff:
  assumes "occupies idx rs"
  shows "grant_indexed_reservation d r idx cs = Ok x \<longleftrightarrow>
    x = r \<and> validate_declaration_and_reservation d r = [] \<and>
    reservation_id r \<notin> reservation_id ` set rs \<and> attempt_id r \<notin> attempt_id ` set rs \<and>
    (\<forall>r' \<in> set rs. \<not> reservations_conflict r r') \<and> capacities_ok cs \<and> within_capacity cs (r # rs)"
proof (cases "validate_declaration_and_reservation d r = [] \<and> capacities_ok cs")
  case True
  then have ok: "list_all grant_ok (grants r)" using validated_grants_ok [of d r] by simp
  have "\<forall>grp. fmlookup (oc_rate_limit_units idx) grp = unless_zero (used_units rs grp)"
    using assms by (simp add: occupies_def)
  from fold_add_units_lookup [OF this ok]
  have "fmlookup (fold add_units (grants r) (oc_rate_limit_units idx)) grp = unless_zero (used_units (r # rs) grp)" for grp
    by (simp add: add.commute)
  from usage_findings_Nil [OF _ this] True no_conflicts_iff [OF assms, of r] assms show ?thesis
    unfolding grant_indexed_reservation_def granted_or_def Let_def grant_findings_def
    by (auto simp: capacity_findings_Nil occupies_def simp del: concat_eq_Nil_conv)
next
  case False
  then show ?thesis
    unfolding grant_indexed_reservation_def granted_or_def Let_def grant_findings_def
    by (auto simp: capacity_findings_Nil)
qed


text \<open>
  Releasing undoes reserving: for any active reservations and a further one with a new
  reservation id, a new attempt id and rate-limit units exactly where a group is named, removal after
  insertion succeeds and gives back the very same index, however often the reservation names one
  resource or group.
\<close>

theorem remove_undoes_insert:
  assumes "list_all (\<lambda>x. list_all grant_ok (grants x)) rs" "list_all grant_ok (grants r)"
    "reservation_id r \<notin> reservation_id ` set rs" "attempt_id r \<notin> attempt_id ` set rs"
  shows "occupancy_remove r (occupancy_insert r (from_active_reservations rs)) = Ok (from_active_reservations rs)"
proof -
  note occ = from_active_occupies [OF assms(1)]
  from occupancy_remove_occupies [OF occupancy_insert_occupies [OF occ assms(2)] assms(2-4)] obtain idx where
    "occupancy_remove r (occupancy_insert r (from_active_reservations rs)) = Ok idx" "occupies idx rs" by blast
  with occupies_unique [OF _ occ] show ?thesis by blast
qed

section \<open>Reconciliation\<close>

definition allocation_ok :: "resource_reservation \<Rightarrow> resource_allocation \<Rightarrow> bool" where
  "allocation_ok r a \<longleftrightarrow>
     ra_schema a = resource_allocation_schema \<and> ra_schema_version a = 0 \<and>
     ra_trust_boundary a = runtime_allocation_trust_boundary \<and>
     ra_reservation_id a = reservation_id r \<and> ra_attempt_id a = attempt_id r"

lemma scopes_Nil:
  "validate_named_scopes scopes field x = [] \<longleftrightarrow> (\<forall>s \<in> set scopes. is_canonical_id s \<and> CHR ''='' \<notin> set s)"
  by (auto simp: validate_named_scopes_def Let_def)

definition scopes_ok :: "resource_grant \<Rightarrow> bool" where
  "scopes_ok g \<longleftrightarrow>
     (\<forall>s \<in> set (network_scope g) \<union> set (secret_scope g). is_canonical_id s \<and> CHR ''='' \<notin> set s)"

lemma reconcile_one_Nil:
  assumes "reconcile_one r a (ids, actual, fs) = (ids', actual', fs')"
  shows "fs' = [] \<longleftrightarrow> fs = [] \<and> allocation_id a \<notin> ids \<and> allocation_ok r a \<and>
      allocation_as_grant a \<in> set (grants r) \<and> allocation_as_grant a \<notin> actual \<and> scopes_ok (allocation_as_grant a)"
    "ids' = insert (allocation_id a) ids" "allocation_ok r a \<Longrightarrow> actual' = insert (allocation_as_grant a) actual"
  using assms
  by (auto simp: reconcile_one_def Let_def allocation_ok_def scopes_Nil scopes_ok_def allocation_as_grant_def
      split: if_splits)

lemma reconcile_loop_Nil:
  assumes "fold (reconcile_one r) as (ids, actual, fs) = (ids', actual', fs')"
  shows "(fs' = [] \<longleftrightarrow> fs = [] \<and> distinct (map allocation_id as) \<and> ids \<inter> allocation_id ` set as = {} \<and>
      list_all (allocation_ok r) as \<and> list_all scopes_ok (map allocation_as_grant as) \<and>
      set (map allocation_as_grant as) \<subseteq> set (grants r) \<and> distinct (map allocation_as_grant as) \<and>
      actual \<inter> set (map allocation_as_grant as) = {}) \<and>
    (fs' = [] \<longrightarrow> actual' = actual \<union> set (map allocation_as_grant as))"
  using assms
proof (induction as arbitrary: ids actual fs)
  case (Cons a as)
  obtain ids1 actual1 fs1 where one: "reconcile_one r a (ids, actual, fs) = (ids1, actual1, fs1)"
    by (metis prod_cases3)
  with Cons.prems have "fold (reconcile_one r) as (ids1, actual1, fs1) = (ids', actual', fs')" by simp
  note IH = Cons.IH [OF this]
  note one = reconcile_one_Nil [OF one]
  show ?case
  proof (cases "fs1 = []")
    case True
    then have "allocation_ok r a" using one(1) by blast
    with True one IH show ?thesis by auto
  next
    case False
    with one(1) IH show ?thesis by auto
  qed
qed auto

text \<open>
  A reconciliation is complete exactly when the runtime allocated what was granted: the
  reservation is valid for its declaration, allocation ids are distinct, every allocation is a record of
  this reservation and attempt with the untrusted marker, and the reported allocations are the
  grants, each exactly once.
\<close>

theorem reconciliation_complete_iff:
  "complete (reconcile_resource_allocations d r as) \<longleftrightarrow>
     validate_declaration_and_reservation d r = [] \<and> distinct (map allocation_id as) \<and>
     list_all (allocation_ok r) as \<and> mset (map allocation_as_grant as) = mset (grants r)"
proof -
  obtain ids actual fs where loop:
    "fold (reconcile_one r) as ({}, {}, validate_declaration_and_reservation d r) = (ids, actual, fs)"
    by (metis prod_cases3)
  let ?gs = "map allocation_as_grant as" and ?v = "validate_declaration_and_reservation d r"
  have v: "?v = [] \<Longrightarrow> distinct (grants r) \<and> (\<forall>g \<in> set (grants r). scopes_ok g)"
    by (auto simp: validate_declaration_and_reservation_def Let_def validate_grant_def scopes_Nil scopes_ok_def
        card_distinct)
  have "complete (reconcile_resource_allocations d r as) \<longleftrightarrow> fs = [] \<and> set (grants r) \<subseteq> actual"
    by (auto simp: reconcile_resource_allocations_def loop Let_def filter_empty_conv)
  also have "\<dots> \<longleftrightarrow> ?v = [] \<and> distinct (map allocation_id as) \<and> list_all (allocation_ok r) as \<and>
      list_all scopes_ok ?gs \<and> distinct ?gs \<and> set ?gs = set (grants r)"
    using reconcile_loop_Nil [OF loop] by auto
  also have "\<dots> \<longleftrightarrow> ?v = [] \<and> distinct (map allocation_id as) \<and> list_all (allocation_ok r) as \<and>
      mset ?gs = mset (grants r)"
  proof (cases "?v = []")
    case True
    with v have dist: "distinct (grants r)" and scopes: "\<forall>g \<in> set (grants r). scopes_ok g" by auto
    have "distinct ?gs \<and> set ?gs = set (grants r) \<longleftrightarrow> mset ?gs = mset (grants r)"
      using dist by (metis mset_eq_imp_distinct_iff set_eq_iff_mset_eq_distinct mset_eq_setD)
    with scopes show ?thesis by (auto simp: list_all_iff)
  qed simp
  finally show ?thesis .
qed

end
