(* ===== verification/Allocator_Invariant.thy ===== *)
theory Allocator_Invariant
  imports Allocator_Operations Resource_Grants
begin

text \<open>
  The invariant of the allocator's state: the active reservations are pairwise compatible and within
  capacity, and the indexes are the ones of those reservations. Every event the fold accepts keeps it.
\<close>

section \<open>Values of a finite map\<close>

lemma mset_btree_values: "mset (btree_values m) = image_mset (\<lambda>k. the (fmlookup m k)) (mset_set (fmdom' m))"
proof -
  have "mset (sorted_list_of_fset (fmdom m)) = mset_set (fset (fmdom m))"
    by (metis sorted_list_of_fset.rep_eq sorted_list_of_mset_set mset_sorted_list_of_multiset)
  then show ?thesis
    by (simp add: btree_values_def sorted_list_of_fmap_def fmdom'_alt_def comp_def)
qed

lemma mset_values_upd:
  assumes "fmlookup m k = None"
  shows "mset (btree_values (fmupd k v m)) = add_mset v (mset (btree_values m))"
proof -
  have new: "k \<notin> fmdom' m" using assms by (simp add: fmdom'_notI)
  have "image_mset (\<lambda>j. the (fmlookup (fmupd k v m) j)) (mset_set (fmdom' m)) =
      image_mset (\<lambda>j. the (fmlookup m j)) (mset_set (fmdom' m))"
    using new by (intro image_mset_cong) auto
  with new show ?thesis by (simp add: mset_btree_values)
qed

lemma mset_values_drop:
  assumes "fmlookup m k = Some v"
  shows "mset (btree_values m) = add_mset v (mset (btree_values (fmdrop k m)))"
proof -
  have "fmupd k v (fmdrop k m) = m" using assms by (intro fmap_ext) auto
  then show ?thesis using mset_values_upd [of "fmdrop k m" k v] by simp
qed

section \<open>The invariant\<close>

definition compatible :: "resource_reservation \<Rightarrow> resource_reservation \<Rightarrow> bool" where
  "compatible r r' \<longleftrightarrow>
     reservation_id r \<noteq> reservation_id r' \<and> attempt_id r \<noteq> attempt_id r' \<and>
     \<not> reservations_conflict r r' \<and> \<not> reservations_conflict r' r"

definition active_reservations :: "replay_state \<Rightarrow> resource_reservation list" where
  "active_reservations s = btree_values (active_by_identity s)"

definition state_ok :: "rate_limit_capacity list \<Rightarrow> replay_state \<Rightarrow> bool" where
  "state_ok cs s \<longleftrightarrow>
     (\<forall>i r. fmlookup (active_by_identity s) i = Some r \<longrightarrow>
        reservation_identity r = i \<and> fmlookup (reservations_by_identity s) i = Some r \<and> list_all grant_ok (grants r)) \<and>
     (\<forall>i r j r'. fmlookup (active_by_identity s) i = Some r \<longrightarrow> fmlookup (active_by_identity s) j = Some r' \<longrightarrow>
        i \<noteq> j \<longrightarrow> compatible r r') \<and>
     active_reservation_ids s = reservation_id ` set (active_reservations s) \<and>
     occupies (occupancy s) (active_reservations s) \<and>
     within_capacity cs (active_reservations s)"

lemma set_active: "r \<in> set (active_reservations s) \<longleftrightarrow> (\<exists>i. fmlookup (active_by_identity s) i = Some r)"
  by (simp add: active_reservations_def set_btree_values)

lemma compatible_sym: "compatible r r' \<longleftrightarrow> compatible r' r"
  by (auto simp: compatible_def)

lemma conflict_sym: "reservations_conflict r r' \<longleftrightarrow> reservations_conflict r' r"
  unfolding reservations_conflict_def modes_conflict_def by metis

lemma state_okD:
  assumes "state_ok cs s" "fmlookup (active_by_identity s) i = Some r"
  shows "reservation_identity r = i" "fmlookup (reservations_by_identity s) i = Some r" "list_all grant_ok (grants r)"
    "fmlookup (active_by_identity s) j = Some r' \<Longrightarrow> i \<noteq> j \<Longrightarrow> compatible r r'"
  using assms unfolding state_ok_def by blast+

lemma initial_ok: "state_ok cs initial_state"
proof -
  have "active_reservations initial_state = []"
    by (simp add: active_reservations_def initial_state_def btree_values_def sorted_list_of_fmap_def
        sorted_list_of_fset.rep_eq)
  then show ?thesis
    by (simp add: state_ok_def occupies_empty within_capacity_def used_units_def) (simp add: initial_state_def occupies_empty)
qed

lemma state_ok_cong:
  assumes "state_ok cs s" "active_by_identity s' = active_by_identity s"
    "reservations_by_identity s' = reservations_by_identity s"
    "active_reservation_ids s' = active_reservation_ids s" "occupancy s' = occupancy s"
  shows "state_ok cs s'"
  using assms unfolding state_ok_def active_reservations_def by simp

section \<open>Events keep it\<close>

lemma apply_reserve_cases:
  assumes "apply_reserve cs s b d r = Ok s'"
  obtains "fmlookup (reservations_by_identity s) (reservation_identity r) = None"
    "grant_indexed_reservation d r (occupancy s) cs = Ok r"
    "active_by_identity s' = fmupd (reservation_identity r) r (active_by_identity s)"
    "reservations_by_identity s' = fmupd (reservation_identity r) r (reservations_by_identity s)"
    "active_reservation_ids s' = insert (reservation_id r) (active_reservation_ids s)"
    "occupancy s' = occupancy_insert r (occupancy s)"
proof -
  from assms obtain x where g: "grant_indexed_reservation d r (occupancy s) cs = Ok x"
    and f: "fmlookup (reservations_by_identity s) (reservation_identity r) = None"
    by (auto simp: apply_reserve_def validate_new_reservation_identity_def integrity_unless_def elim!: rbindE)
  from g have "x = r" by (auto simp: grant_indexed_reservation_def granted_or_def Let_def split: if_splits)
  with assms g f that show ?thesis
    by (auto simp: apply_reserve_def validate_new_reservation_identity_def integrity_unless_def insert_binding_def map_err_def
        split: option.splits)
qed

lemma apply_reserve_ok:
  assumes ok: "state_ok cs s" and ap: "apply_reserve cs s b d r = Ok s'"
  shows "state_ok cs s'"
  using ap
proof (rule apply_reserve_cases)
  assume new: "fmlookup (reservations_by_identity s) (reservation_identity r) = None"
    and g: "grant_indexed_reservation d r (occupancy s) cs = Ok r"
    and s': "active_by_identity s' = fmupd (reservation_identity r) r (active_by_identity s)"
      "reservations_by_identity s' = fmupd (reservation_identity r) r (reservations_by_identity s)"
      "active_reservation_ids s' = insert (reservation_id r) (active_reservation_ids s)"
      "occupancy s' = occupancy_insert r (occupancy s)"
  from ok have occ: "occupies (occupancy s) (active_reservations s)" by (simp add: state_ok_def)
  note grant = g [unfolded grant_indexed_iff [OF occ]]
  from grant have gok: "list_all grant_ok (grants r)" using validated_grants_ok by blast
  have fresh: "fmlookup (active_by_identity s) (reservation_identity r) = None"
    using state_okD(2) [OF ok] new by (metis option.exhaust option.distinct(1))
  have comp: "compatible r x" if "fmlookup (active_by_identity s) i = Some x" for i x
  proof -
    from that have "x \<in> set (active_reservations s)" unfolding set_active by blast
    with grant show ?thesis by (auto simp: compatible_def conflict_sym [of x r])
  qed
  have mset: "mset (r # active_reservations s) = mset (active_reservations s')"
    using mset_values_upd [OF fresh, of r] by (simp add: active_reservations_def s'(1))
  have set': "set (active_reservations s') = insert r (set (active_reservations s))"
    using mset by (metis list.simps(15) set_mset_mset)
  have "occupies (occupancy s') (active_reservations s')"
    unfolding s'(4) by (rule occupies_same_set [OF occupancy_insert_occupies [OF occ gok] mset])
  moreover have "within_capacity cs (active_reservations s')"
  proof -
    have "used_units (active_reservations s') = used_units (r # active_reservations s)"
      using used_units_mset [OF mset] by simp
    with grant show ?thesis by (simp add: within_capacity_def)
  qed
  moreover have "active_reservation_ids s' = reservation_id ` set (active_reservations s')"
    using ok by (simp add: s'(3) set' state_ok_def)
  ultimately show ?thesis
    using ok gok comp fresh
    unfolding state_ok_def s'(1,2) fmupd_lookup by (auto simp: compatible_sym split: if_splits)
qed

lemma apply_disposition_total:
  assumes ok: "state_ok cs s" and v: "validate_disposition s a = Ok ()"
  obtains r idx s' where "fmlookup (active_by_identity s) (assertion_identity a) = Some r"
    "occupancy_remove r (occupancy s) = Ok idx" "apply_disposition s a = Ok s'"
    "active_by_identity s' = fmdrop (assertion_identity a) (active_by_identity s)"
    "reservations_by_identity s' = reservations_by_identity s"
    "active_reservation_ids s' = active_reservation_ids s - {reservation_id r}"
    "occupancy s' = idx" "state_ok cs s'"
proof -
  from v obtain r where r: "fmlookup (active_by_identity s) (assertion_identity a) = Some r"
    by (auto simp: validate_disposition_def integrity_unless_def elim!: rbindE)
  let ?rest = "btree_values (fmdrop (assertion_identity a) (active_by_identity s))"
  have mset: "mset (active_reservations s) = mset (r # ?rest)"
    using mset_values_drop [OF r] by (simp add: active_reservations_def)
  have other: "compatible r x" if "x \<in> set ?rest" for x
    using that state_okD(4) [OF ok r] by (auto simp: set_btree_values split: if_splits)
  have "occupies (occupancy s) (r # ?rest)"
    using occupies_same_set [OF _ mset] ok by (simp add: state_ok_def)
  then obtain idx where idx: "occupancy_remove r (occupancy s) = Ok idx" "occupies idx ?rest"
    using occupancy_remove_occupies [of "occupancy s" r ?rest] state_okD(3) [OF ok r] other
    by (auto simp: compatible_def)
  define s' where "s' = s\<lparr>rs_dispositions := rs_dispositions s @ [a],
           dispositions_by_id := fmupd (assertion_id a) a (dispositions_by_id s),
           active_by_identity := fmdrop (assertion_identity a) (active_by_identity s),
           active_reservation_ids := active_reservation_ids s - {reservation_id r}, occupancy := idx\<rparr>"
  have ap: "apply_disposition s a = Ok s'"
    by (simp add: apply_disposition_def v r idx map_err_def s'_def)
  have "set (active_reservations s) = insert r (set ?rest)" using mset by (metis list.simps(15) set_mset_mset)
  moreover have "reservation_id r \<notin> reservation_id ` set ?rest" using other by (auto simp: compatible_def)
  ultimately have "active_reservation_ids s' = reservation_id ` set ?rest"
    using ok by (simp add: s'_def state_ok_def)
  moreover have "within_capacity cs ?rest"
  proof -
    have "used_units (active_reservations s) = used_units (r # ?rest)" by (rule used_units_mset [OF mset])
    then have "used_units ?rest grp \<le> used_units (active_reservations s) grp" for grp by simp
    then show ?thesis using ok unfolding state_ok_def within_capacity_def by (meson le_trans less_le_trans)
  qed
  ultimately have "state_ok cs s'"
    using ok idx(2) unfolding state_ok_def active_reservations_def s'_def by simp
  with r idx ap that show ?thesis by (simp add: s'_def)
qed

end
