(* ===== verification/Allocator_Replay.thy ===== *)
theory Allocator_Replay
  imports Allocator_Invariant
begin

text \<open>
  The state as a function of the events: what the fold of a journal leaves in every index, that the
  chain of hashes fixes the journal, and that the state rebuilt from a checkpoint is the state the
  checkpoint was taken from.
\<close>

section \<open>One step\<close>

lemma apply_reserveE:
  assumes "apply_reserve cs s b d r = Ok s'"
  obtains "fmlookup (reservations_by_identity s) (reservation_identity r) = None"
    "s' = insert_binding b r
       (s\<lparr>rs_declarations := fmupd (declaration_id d) d (rs_declarations s),
          rs_reservations := rs_reservations s @ [r],
          reservations_by_identity := fmupd (reservation_identity r) r (reservations_by_identity s),
          active_reservation_ids := insert (reservation_id r) (active_reservation_ids s),
          occupancy := occupancy_insert r (occupancy s),
          active_by_identity := fmupd (reservation_identity r) r (active_by_identity s)\<rparr>)"
  using assms unfolding apply_reserve_def validate_new_reservation_identity_def integrity_unless_def
  by (elim rbindE) simp

lemma apply_dispositionE:
  assumes "apply_disposition s a = Ok s'"
  obtains idx and r :: resource_reservation where "fmlookup (dispositions_by_id s) (assertion_id a) = None"
    "fmlookup (reservations_by_identity s) (assertion_identity a) \<noteq> None"
    "s' = s\<lparr>rs_dispositions := rs_dispositions s @ [a],
           dispositions_by_id := fmupd (assertion_id a) a (dispositions_by_id s),
           active_by_identity := fmdrop (assertion_identity a) (active_by_identity s),
           active_reservation_ids := active_reservation_ids s - {reservation_id r}, occupancy := idx\<rparr>"
proof -
  from assms obtain u idx and r :: resource_reservation where v: "validate_disposition s a = Ok u" and
    s': "s' = s\<lparr>rs_dispositions := rs_dispositions s @ [a],
           dispositions_by_id := fmupd (assertion_id a) a (dispositions_by_id s),
           active_by_identity := fmdrop (assertion_identity a) (active_by_identity s),
           active_reservation_ids := active_reservation_ids s - {reservation_id r}, occupancy := idx\<rparr>"
    unfolding apply_disposition_def by (elim rbindE) (simp, blast)
  from v have "fmlookup (dispositions_by_id s) (assertion_id a) = None"
    "fmlookup (reservations_by_identity s) (assertion_identity a) \<noteq> None"
    unfolding validate_disposition_def integrity_unless_def by (elim rbindE, simp)+
  from that [OF this s'] show ?thesis .
qed

lemma apply_checked_eventE:
  assumes "apply_checked_event E cs s ev = Ok s'"
  obtains t where "event_in_order E s ev" "fmlookup (events_by_idempotency s) (idempotency_key ev) = None"
    "apply_replayed_event cs s (ev_payload ev) = Ok t"
    "s' = t\<lparr>generation := ev_sequence ev, last_event_hash := Some (ev_event_hash ev),
            events_by_idempotency := fmupd (idempotency_key ev) ev (events_by_idempotency t)\<rparr>"
  using assms unfolding apply_checked_event_def integrity_unless_def by (elim rbindE) simp

lemma insert_binding_sel [simp]:
  "rs_reservations (insert_binding b r s) = rs_reservations s"
  "rs_declarations (insert_binding b r s) = rs_declarations s"
  "rs_dispositions (insert_binding b r s) = rs_dispositions s"
  "dispositions_by_id (insert_binding b r s) = dispositions_by_id s"
  "events_by_idempotency (insert_binding b r s) = events_by_idempotency s"
  "reservations_by_identity (insert_binding b r s) = reservations_by_identity s"
  "active_by_identity (insert_binding b r s) = active_by_identity s"
  "active_reservation_ids (insert_binding b r s) = active_reservation_ids s"
  "occupancy (insert_binding b r s) = occupancy s"
  "generation (insert_binding b r s) = generation s"
  "last_event_hash (insert_binding b r s) = last_event_hash s"
  by (simp_all add: insert_binding_def split: option.split)

lemma apply_replayed_keeps:
  assumes "apply_replayed_event cs s p = Ok t"
  shows "generation t = generation s" "last_event_hash t = last_event_hash s"
    "events_by_idempotency t = events_by_idempotency s"
  using assms by (cases p; auto elim!: apply_reserveE apply_dispositionE)+

lemma apply_checked_keeps_ok:
  assumes "state_ok cs s" "apply_checked_event E cs s ev = Ok s'"
  shows "state_ok cs s'"
proof -
  from assms(2) obtain t where t: "apply_replayed_event cs s (ev_payload ev) = Ok t"
    and s': "s' = t\<lparr>generation := ev_sequence ev, last_event_hash := Some (ev_event_hash ev),
            events_by_idempotency := fmupd (idempotency_key ev) ev (events_by_idempotency t)\<rparr>"
    by (rule apply_checked_eventE)
  have "state_ok cs t"
  proof (cases "ev_payload ev")
    case (Reserve x1 x2 b d r)
    with t assms(1) show ?thesis using apply_reserve_ok by simp
  next
    case (Disposition x1 b a)
    with t have ap: "apply_disposition s a = Ok t" by simp
    then have "validate_disposition s a = Ok ()" unfolding apply_disposition_def by (elim rbindE) simp
    with assms(1) ap show ?thesis by (metis apply_disposition_total sum.inject(2))
  qed
  then show ?thesis by (rule state_ok_cong) (simp_all add: s')
qed

interpretation event_fold: log_fold "apply_checked_event E cs" "state_ok cs" for E cs
  by unfold_locales (rule apply_checked_keeps_ok)

lemma apply_events_ok: "apply_events E cs initial_state evs = Ok s \<Longrightarrow> state_ok cs s"
  unfolding apply_events_def by (rule event_fold.fold_inv [OF initial_ok])

lemma apply_events_snoc:
  "apply_events E cs s (evs @ [ev]) = rbind (apply_events E cs s evs) (\<lambda>t. apply_checked_event E cs t ev)"
  by (simp add: apply_events_def fold_res_append) (cases "fold_res (apply_checked_event E cs) s evs"; simp add: rbind_def split: sum.split)

section \<open>The indexes after a journal\<close>

definition reserved :: "allocator_event \<Rightarrow> resource_reservation list" where
  "reserved ev = (case ev_payload ev of Reserve t b binding d r \<Rightarrow> [r] | Disposition b binding a \<Rightarrow> [])"

definition disposed :: "allocator_event \<Rightarrow> disposition_assertion list" where
  "disposed ev = (case ev_payload ev of Reserve t b binding d r \<Rightarrow> [] | Disposition b binding a \<Rightarrow> [a])"

definition index_of :: "('v \<Rightarrow> 'k) \<Rightarrow> 'v list \<Rightarrow> ('k, 'v) fmap \<Rightarrow> bool" where
  "index_of key xs m \<longleftrightarrow> distinct (map key xs) \<and> m = collect_map (map (\<lambda>x. (key x, x)) xs)"

lemma index_of_Nil [simp]: "index_of key [] m \<longleftrightarrow> m = fmempty"
  by (simp add: index_of_def collect_map_def)

lemma collect_map_snoc: "collect_map (xs @ [(k, v)]) = fmupd k v (collect_map xs)"
  by (simp add: collect_map_def)

lemma index_of_lookup:
  "index_of key xs m \<Longrightarrow> fmlookup m k = Some x \<longleftrightarrow> x \<in> set xs \<and> key x = k"
  by (auto simp: index_of_def lookup_collect_distinct comp_def map_of_eq_Some_iff)

lemma index_of_None: "index_of key xs m \<Longrightarrow> fmlookup m k = None \<longleftrightarrow> k \<notin> key ` set xs"
  using index_of_lookup [of key xs m k] by (cases "fmlookup m k") force+

lemma index_of_snoc:
  assumes "index_of key xs m" "fmlookup m (key x) = None"
  shows "index_of key (xs @ [x]) (fmupd (key x) x m)"
  using assms index_of_None [OF assms(1)] by (auto simp: index_of_def collect_map_snoc)

lemma index_of_values: "index_of key xs m \<Longrightarrow> mset (btree_values m) = mset xs"
proof (induction xs arbitrary: m rule: rev_induct)
  case (snoc x xs)
  let ?m = "collect_map (map (\<lambda>x. (key x, x)) xs)"
  have m: "m = fmupd (key x) x ?m" and ix: "index_of key xs ?m" and new: "key x \<notin> key ` set xs"
    using snoc.prems by (auto simp: index_of_def collect_map_snoc)
  from mset_values_upd [of ?m "key x" x] index_of_None [OF ix] new snoc.IH [OF ix] show ?case by (simp add: m)
qed (simp add: btree_values_def sorted_list_of_fmap_def sorted_list_of_fset.rep_eq)

definition tracks :: "allocator_event list \<Rightarrow> replay_state \<Rightarrow> bool" where
  "tracks evs s \<longleftrightarrow>
     map ev_sequence evs = [1 ..< Suc (length evs)] \<and> generation s = length evs \<and>
     last_event_hash s = (if evs = [] then None else Some (ev_event_hash (last evs))) \<and>
     index_of idempotency_key evs (events_by_idempotency s) \<and>
     rs_reservations s = concat (map reserved evs) \<and>
     index_of reservation_identity (rs_reservations s) (reservations_by_identity s) \<and>
     rs_dispositions s = concat (map disposed evs) \<and>
     index_of assertion_id (rs_dispositions s) (dispositions_by_id s) \<and>
     assertion_identity ` set (rs_dispositions s) \<subseteq> reservation_identity ` set (rs_reservations s) \<and>
     (\<forall>i. fmlookup (active_by_identity s) i =
        (if i \<in> assertion_identity ` set (rs_dispositions s) then None else fmlookup (reservations_by_identity s) i)) \<and>
     (bindings_by_identity s, bindings_by_reservation_id s) = bindings_of_events evs"

lemma tracks_initial: "tracks [] initial_state"
  by (simp add: tracks_def initial_state_def bindings_of_events_def)

lemma tracks_order:
  assumes "tracks evs s" "apply_checked_event E cs s ev = Ok s'"
  shows "map ev_sequence (evs @ [ev]) = [1 ..< Suc (length (evs @ [ev]))]" "generation s' = length (evs @ [ev])"
    "last_event_hash s' = Some (ev_event_hash ev)"
    "index_of idempotency_key (evs @ [ev]) (events_by_idempotency s')"
proof -
  from assms(2) show "map ev_sequence (evs @ [ev]) = [1 ..< Suc (length (evs @ [ev]))]"
    "generation s' = length (evs @ [ev])" "last_event_hash s' = Some (ev_event_hash ev)"
    using assms(1) by (auto simp: tracks_def event_in_order_def elim!: apply_checked_eventE)
  from assms(2) obtain t where
    "fmlookup (events_by_idempotency s) (idempotency_key ev) = None" "apply_replayed_event cs s (ev_payload ev) = Ok t"
    "s' = t\<lparr>generation := ev_sequence ev, last_event_hash := Some (ev_event_hash ev),
            events_by_idempotency := fmupd (idempotency_key ev) ev (events_by_idempotency t)\<rparr>"
    by (rule apply_checked_eventE)
  with assms(1) index_of_snoc [of idempotency_key evs "events_by_idempotency s" ev]
  show "index_of idempotency_key (evs @ [ev]) (events_by_idempotency s')"
    by (simp add: apply_replayed_keeps(3) tracks_def)
qed

lemma bindings_of_events_snoc:
  "bindings_of_events (evs @ [ev]) =
     (case ev_payload ev of
        Reserve t b (Some binding) d r \<Rightarrow>
          (fmupd (reservation_identity r) binding (fst (bindings_of_events evs)),
           fmupd (reservation_id r) binding (snd (bindings_of_events evs)))
      | _ \<Rightarrow> bindings_of_events evs)"
  by (simp add: bindings_of_events_def split: event_payload.split option.split prod.split)

lemma tracks_step:
  assumes tr: "tracks evs s" and ap: "apply_checked_event E cs s ev = Ok s'"
  shows "tracks (evs @ [ev]) s'"
proof -
  from ap obtain t where t: "apply_replayed_event cs s (ev_payload ev) = Ok t"
    and s': "s' = t\<lparr>generation := ev_sequence ev, last_event_hash := Some (ev_event_hash ev),
            events_by_idempotency := fmupd (idempotency_key ev) ev (events_by_idempotency t)\<rparr>"
    by (rule apply_checked_eventE)
  have ix: "index_of reservation_identity (rs_reservations s) (reservations_by_identity s)"
    "index_of assertion_id (rs_dispositions s) (dispositions_by_id s)" using tr unfolding tracks_def by blast+
  have act: "fmlookup (active_by_identity s) i =
      (if i \<in> assertion_identity ` set (rs_dispositions s) then None else fmlookup (reservations_by_identity s) i)" for i
    using tr unfolding tracks_def by blast
  have sub: "assertion_identity ` set (rs_dispositions s) \<subseteq> reservation_identity ` set (rs_reservations s)"
    using tr unfolding tracks_def by blast
  note order = tracks_order [OF tr ap]
  show ?thesis
  proof (cases "ev_payload ev")
    case (Reserve x1 x2 b d r)
    with t have "apply_reserve cs s b d r = Ok t" by simp
    then show ?thesis
    proof (rule apply_reserveE)
      assume new: "fmlookup (reservations_by_identity s) (reservation_identity r) = None"
        and t': "t = insert_binding b r
         (s\<lparr>rs_declarations := fmupd (declaration_id d) d (rs_declarations s),
            rs_reservations := rs_reservations s @ [r],
            reservations_by_identity := fmupd (reservation_identity r) r (reservations_by_identity s),
            active_reservation_ids := insert (reservation_id r) (active_reservation_ids s),
            occupancy := occupancy_insert r (occupancy s),
            active_by_identity := fmupd (reservation_identity r) r (active_by_identity s)\<rparr>)"
      have bs: "(bindings_by_identity t, bindings_by_reservation_id t) = bindings_of_events (evs @ [ev])"
        using tr unfolding bindings_of_events_snoc Reserve tracks_def t' insert_binding_def
        by (cases b) (auto simp: prod_eq_iff)
      have "reservation_identity r \<notin> assertion_identity ` set (rs_dispositions s)"
        using index_of_None [OF ix(1)] new tr unfolding tracks_def by blast
      then have "\<forall>i. fmlookup (active_by_identity s') i =
          (if i \<in> assertion_identity ` set (rs_dispositions s') then None else fmlookup (reservations_by_identity s') i)"
        using act by (auto simp add: s' t')
      moreover have "rs_reservations s' = concat (map reserved (evs @ [ev]))" "rs_dispositions s' = concat (map disposed (evs @ [ev]))"
        using tr by (simp_all add: s' t' tracks_def reserved_def disposed_def Reserve)
      moreover have "assertion_identity ` set (rs_dispositions s') \<subseteq> reservation_identity ` set (rs_reservations s')"
        using sub unfolding s' t' by (simp; blast)
      moreover have "index_of reservation_identity (rs_reservations s') (reservations_by_identity s')"
        "index_of assertion_id (rs_dispositions s') (dispositions_by_id s')"
        using index_of_snoc [OF ix(1) new] ix(2) by (simp_all add: s' t')
      ultimately show ?thesis using order bs unfolding tracks_def by (simp add: s')
    qed
  next
    case (Disposition x1 b a)
    with t have "apply_disposition s a = Ok t" by simp
    then obtain idx and r :: resource_reservation where new: "fmlookup (dispositions_by_id s) (assertion_id a) = None"
      and old: "fmlookup (reservations_by_identity s) (assertion_identity a) \<noteq> None"
      and t': "t = s\<lparr>rs_dispositions := rs_dispositions s @ [a],
           dispositions_by_id := fmupd (assertion_id a) a (dispositions_by_id s),
           active_by_identity := fmdrop (assertion_identity a) (active_by_identity s),
           active_reservation_ids := active_reservation_ids s - {reservation_id r}, occupancy := idx\<rparr>"
      by (rule apply_dispositionE)
    from old have "assertion_identity a \<in> reservation_identity ` set (rs_reservations s)"
      by (simp only: index_of_None [OF ix(1)] not_not)
    then have "assertion_identity ` set (rs_dispositions s') \<subseteq> reservation_identity ` set (rs_reservations s')"
      using sub unfolding s' t' by simp
    moreover have "\<forall>i. fmlookup (active_by_identity s') i =
        (if i \<in> assertion_identity ` set (rs_dispositions s') then None else fmlookup (reservations_by_identity s') i)"
      using act by (simp add: s' t')
    moreover have "rs_reservations s' = concat (map reserved (evs @ [ev]))" "rs_dispositions s' = concat (map disposed (evs @ [ev]))"
      using tr by (simp_all add: s' t' tracks_def reserved_def disposed_def Disposition)
    moreover have "index_of reservation_identity (rs_reservations s') (reservations_by_identity s')"
      "index_of assertion_id (rs_dispositions s') (dispositions_by_id s')"
      using index_of_snoc [OF ix(2) new] ix(1) by (simp_all add: s' t')
    moreover have "(bindings_by_identity s', bindings_by_reservation_id s') = bindings_of_events (evs @ [ev])"
      using tr by (simp add: s' t' tracks_def bindings_of_events_snoc Disposition)
    ultimately show ?thesis using order unfolding tracks_def by simp
  qed
qed

lemma apply_events_tracks: "apply_events E cs initial_state evs = Ok s \<Longrightarrow> tracks evs s"
proof (induction evs arbitrary: s rule: rev_induct)
  case Nil
  then show ?case by (simp add: apply_events_def tracks_initial)
next
  case (snoc ev evs)
  then show ?case by (auto simp: apply_events_snoc result_simps intro: tracks_step)
qed

section \<open>Rebuilding the state from a checkpoint\<close>

definition bound :: "allocator_event \<Rightarrow> (identity \<times> reviewed_binding) list" where
  "bound ev = (case ev_payload ev of Reserve t b (Some binding) d r \<Rightarrow> [(reservation_identity r, binding)] | _ \<Rightarrow> [])"

lemma fst_bindings: "fst (bindings_of_events evs) = collect_map (concat (map bound evs))"
proof (induction evs rule: rev_induct)
  case Nil
  then show ?case by (simp add: bindings_of_events_def collect_map_def)
next
  case (snoc ev evs)
  then show ?case
    by (simp add: bindings_of_events_snoc bound_def collect_map_snoc split: event_payload.split option.split)
qed

lemma mset_concat_map: "mset xs = mset ys \<Longrightarrow> mset (concat (map f xs)) = mset (concat (map f ys))"
  by (simp add: mset_concat comp_def) (metis (no_types, lifting) mset_map sum_mset_sum_list)

lemma distinct_bound:
  "distinct (map reservation_identity (concat (map reserved evs))) \<Longrightarrow> distinct (map fst (concat (map bound evs)))"
proof (induction evs)
  case (Cons ev evs)
  have "fst ` set (bound x) \<subseteq> reservation_identity ` set (reserved x)" for x
    unfolding bound_def reserved_def by (cases "ev_payload x") (auto split: option.split)
  then have "set (map fst (concat (map bound evs))) \<subseteq> set (map reservation_identity (concat (map reserved evs)))"
    by (simp add: image_UN) blast
  moreover have "map fst (bound ev) = [] \<or> map fst (bound ev) = map reservation_identity (reserved ev)"
    unfolding bound_def reserved_def by (cases "ev_payload ev") (auto split: option.split)
  moreover have "distinct (map reservation_identity (reserved ev))"
    "set (map reservation_identity (reserved ev)) \<inter> set (map reservation_identity (concat (map reserved evs))) = {}"
    "distinct (map reservation_identity (concat (map reserved evs)))"
    using Cons.prems by (simp_all only: list.map concat.simps map_append distinct_append)
  ultimately show ?case using Cons.IH by (simp only: list.map concat.simps map_append distinct_append) (elim disjE; force)
qed simp

lemma option_eqI: "(\<And>v. x = Some v \<longleftrightarrow> y = Some v) \<Longrightarrow> x = y"
  by (cases x; cases y) auto

lemma live_iff:
  assumes "\<And>x. x \<in> set xs \<Longrightarrow> f x \<in> K"
  shows "r \<in> set (filter (\<lambda>x. f x \<in> K - D) xs) \<and> f r = i \<longleftrightarrow> i \<notin> D \<and> r \<in> set xs \<and> f r = i"
  using assms by auto

lemma collect_map_mset:
  assumes "mset xs = mset ys" "distinct (map fst ys)"
  shows "collect_map xs = collect_map ys"
proof -
  have "distinct (map fst xs)" using assms by (metis mset_eq_imp_distinct_iff mset_map)
  moreover have "set xs = set ys" using assms(1) by (metis set_mset_mset)
  ultimately have "map_of xs = map_of ys" using assms(2) by (metis map_of_inject_set)
  with assms(2) \<open>distinct (map fst xs)\<close> show ?thesis by (intro fmap_ext) (simp add: lookup_collect_distinct)
qed

lemma tracksD:
  assumes "tracks evs s"
  shows "map ev_sequence evs = [1 ..< Suc (length evs)]" "generation s = length evs"
    "last_event_hash s = (if evs = [] then None else Some (ev_event_hash (last evs)))"
    "index_of idempotency_key evs (events_by_idempotency s)"
    "index_of reservation_identity (concat (map reserved evs)) (reservations_by_identity s)"
    "rs_reservations s = concat (map reserved evs)"
    "index_of assertion_id (rs_dispositions s) (dispositions_by_id s)"
    "fmlookup (active_by_identity s) i =
      (if i \<in> assertion_identity ` set (rs_dispositions s) then None else fmlookup (reservations_by_identity s) i)"
    "bindings_by_identity s = fst (bindings_of_events evs)"
    "bindings_by_reservation_id s = snd (bindings_of_events evs)"
  using assms unfolding tracks_def by (blast, blast, blast, blast, metis, blast, blast, blast, metis fst_conv, metis snd_conv)

lemma events_by_sequence_tracks:
  assumes "tracks evs s"
  shows "events_by_sequence (events_by_idempotency s) = evs"
proof -
  have "distinct (map ev_sequence evs)" by (simp only: tracksD(1) [OF assms] distinct_upt)
  then have "inj_on ev_sequence (set (btree_values (events_by_idempotency s)))"
    using index_of_values [OF tracksD(4) [OF assms]] by (metis distinct_map set_mset_mset)
  moreover have "sorted (map ev_sequence evs)" by (simp only: tracksD(1) [OF assms] sorted_upt)
  ultimately show ?thesis
    unfolding events_by_sequence_def
    by (rule sort_key_inj_key_eq [OF index_of_values [OF tracksD(4) [OF assms]]])
qed

lemma fold_minus: "fold (\<lambda>a ids. ids - {f a}) xs A = A - f ` set xs"
  by (induction xs arbitrary: A) auto

lemma checkpoint_rebuild:
  assumes tr: "tracks evs s" and ok: "state_ok cs s"
    and c: "cp_state c = checkpoint_state_of s" "last_event_sequence c = generation s"
      "last_event_hash s = Some (terminal_event_hash c)"
  shows "replay_state_from_checkpoint c =
    s\<lparr>bindings_by_reservation_id := snd (bindings_of_events (btree_values (events_by_idempotency s)))\<rparr>"
proof -
  note ix = tracksD(5,7) [OF tr]
  have rs: "collect_map (map (\<lambda>r. (reservation_identity r, r)) (rs_reservations s)) = reservations_by_identity s"
    using ix(1) by (simp add: index_of_def tracksD(6) [OF tr])
  have ds: "collect_map (map (\<lambda>a. (assertion_id a, a)) (rs_dispositions s)) = dispositions_by_id s"
    using ix(2) by (simp add: index_of_def)
  let ?live = "\<lambda>r. reservation_identity r \<in> set (btree_keys (reservations_by_identity s)) - assertion_identity ` set (rs_dispositions s)"
  have live: "index_of reservation_identity (filter ?live (rs_reservations s))
      (collect_map (map (\<lambda>r. (reservation_identity r, r)) (filter ?live (rs_reservations s))))"
    using ix(1) by (simp add: index_of_def tracksD(6) [OF tr] distinct_map_filter)
  have active: "collect_map (map (\<lambda>r. (reservation_identity r, r)) (filter ?live (rs_reservations s))) = active_by_identity s"
  proof (rule fmap_ext)
    fix i
    have "fmlookup (collect_map (map (\<lambda>r. (reservation_identity r, r)) (filter ?live (rs_reservations s)))) i = Some r
        \<longleftrightarrow> fmlookup (active_by_identity s) i = Some r" for r
    proof -
      have reg: "fmlookup (reservations_by_identity s) j = Some x \<longleftrightarrow> x \<in> set (rs_reservations s) \<and> reservation_identity x = j" for j x
        using index_of_lookup [OF ix(1), of j x] by (simp only: tracksD(6) [OF tr])
      then have "x \<in> set (rs_reservations s) \<Longrightarrow> reservation_identity x \<in> set (btree_keys (reservations_by_identity s))" for x
        unfolding set_btree_keys by (metis option.distinct(1))
      from live_iff [of "rs_reservations s" reservation_identity, OF this] show ?thesis
        unfolding index_of_lookup [OF live] tracksD(8) [OF tr] by (simp add: reg)
    qed
    then show "fmlookup (collect_map (map (\<lambda>r. (reservation_identity r, r)) (filter ?live (rs_reservations s)))) i =
        fmlookup (active_by_identity s) i"
      by (rule option_eqI)
  qed
  have occ: "from_active_reservations (btree_values (active_by_identity s)) = occupancy s"
  proof (rule occupies_unique)
    show "occupies (from_active_reservations (btree_values (active_by_identity s))) (active_reservations s)"
      unfolding active_reservations_def using state_okD(3) [OF ok]
      by (intro from_active_occupies) (auto simp: list_all_iff set_btree_values)
    show "occupies (occupancy s) (active_reservations s)" using ok by (simp add: state_ok_def)
  qed
  have ids: "reservation_id ` set (btree_values (active_by_identity s)) = active_reservation_ids s"
    using ok by (simp add: state_ok_def active_reservations_def)
  have bs: "fst (bindings_of_events (btree_values (events_by_idempotency s))) = bindings_by_identity s"
    unfolding tracksD(9) [OF tr] fst_bindings
    by (rule collect_map_mset [OF mset_concat_map [OF index_of_values [OF tracksD(4) [OF tr]]] distinct_bound])
      (use ix(1) in \<open>simp add: index_of_def\<close>)
  show ?thesis
    unfolding replay_state_from_checkpoint_def Let_def
    using c(2) by (intro replay_state.equality) (simp_all add: c(1,3) checkpoint_state_of_def rs ds active [simplified] occ ids bs fold_minus)
qed

end
