(* ===== verification/Allocator_Log.thy ===== *)
theory Allocator_Log
  imports Allocator_Replay
begin

text \<open>
  The journal directory as a list of events. A directory is in order when its active and archived files
  are exactly the numbered events of a list that replays, its checkpoints are those of prefixes of the list,
  its compaction records are valid and every event that is no longer active is covered by a
  checkpoint. Such a directory replays, with and without checkpoints.
\<close>

section \<open>States that agree but for one index\<close>

definition forget :: "replay_state \<Rightarrow> replay_state" where
  "forget s = s\<lparr>bindings_by_reservation_id := fmempty\<rparr>"

lemma forget_eqE:
  assumes "forget s = forget t"
  obtains b where "t = s\<lparr>bindings_by_reservation_id := b\<rparr>"
proof
  show "t = s\<lparr>bindings_by_reservation_id := bindings_by_reservation_id t\<rparr>"
    using assms by (cases s; cases t) (simp add: forget_def)
qed

lemma forget_update [simp]: "forget (s\<lparr>bindings_by_reservation_id := b\<rparr>) = forget s"
  by (simp add: forget_def)

lemma forget_eqD:
  assumes "forget s = forget t"
  shows "generation s = generation t" "last_event_hash s = last_event_hash t"
    "events_by_idempotency s = events_by_idempotency t" "state_ok cs s \<longleftrightarrow> state_ok cs t"
  using assms by (auto elim!: forget_eqE simp: state_ok_def active_reservations_def)

lemma apply_replayed_forget:
  assumes "apply_replayed_event cs s p = Ok s'"
  shows "\<exists>t'. apply_replayed_event cs (s\<lparr>bindings_by_reservation_id := b\<rparr>) p = Ok t' \<and> forget t' = forget s'"
proof (cases p)
  case (Reserve t e binding d r)
  with assms obtain x where v: "validate_new_reservation_identity s r = Ok ()"
    "grant_indexed_reservation d r (occupancy s) cs = Ok x" by (auto simp: apply_reserve_def elim!: rbindE)
  have "validate_new_reservation_identity (s\<lparr>bindings_by_reservation_id := b\<rparr>) r = validate_new_reservation_identity s r"
    by (simp add: validate_new_reservation_identity_def)
  with v Reserve assms show ?thesis
    by (cases binding) (auto simp: apply_reserve_def map_err_def insert_binding_def forget_def)
next
  case (Disposition e binding a)
  have "validate_disposition (s\<lparr>bindings_by_reservation_id := b\<rparr>) a = validate_disposition s a"
    by (simp add: validate_disposition_def)
  then have "apply_disposition (s\<lparr>bindings_by_reservation_id := b\<rparr>) a =
      rbind (apply_disposition s a) (\<lambda>t. Ok (t\<lparr>bindings_by_reservation_id := b\<rparr>))"
    by (simp add: apply_disposition_def rbind_def map_err_def split: sum.split)
  with assms Disposition show ?thesis by simp
qed

lemma apply_checked_forget:
  assumes ap: "apply_checked_event E cs s ev = Ok s'" and eq: "forget s = forget t"
  obtains t' where "apply_checked_event E cs t ev = Ok t'" "forget s' = forget t'"
proof -
  from eq obtain b where t: "t = s\<lparr>bindings_by_reservation_id := b\<rparr>" by (rule forget_eqE)
  from ap obtain u where u: "event_in_order E s ev" "fmlookup (events_by_idempotency s) (idempotency_key ev) = None"
    "apply_replayed_event cs s (ev_payload ev) = Ok u"
    and s': "s' = u\<lparr>generation := ev_sequence ev, last_event_hash := Some (ev_event_hash ev),
            events_by_idempotency := fmupd (idempotency_key ev) ev (events_by_idempotency u)\<rparr>"
    by (rule apply_checked_eventE)
  from apply_replayed_forget [OF u(3), of b] obtain w where
    w: "apply_replayed_event cs t (ev_payload ev) = Ok w" "forget w = forget u" unfolding t by blast
  from w(2) obtain d where "u = w\<lparr>bindings_by_reservation_id := d\<rparr>" by (rule forget_eqE)
  then have s'': "forget s' = forget (w\<lparr>generation := ev_sequence ev, last_event_hash := Some (ev_event_hash ev),
            events_by_idempotency := fmupd (idempotency_key ev) ev (events_by_idempotency w)\<rparr>)"
    by (simp add: s' forget_def)
  have "event_in_order E t ev" "fmlookup (events_by_idempotency t) (idempotency_key ev) = None"
    using u(1,2) by (simp_all add: t event_in_order_def)
  with w(1) have "apply_checked_event E cs t ev = Ok (w\<lparr>generation := ev_sequence ev, last_event_hash := Some (ev_event_hash ev),
            events_by_idempotency := fmupd (idempotency_key ev) ev (events_by_idempotency w)\<rparr>)"
    by (simp add: apply_checked_event_def integrity_unless_def)
  from that [OF this s''] show ?thesis .
qed

lemma apply_events_forget:
  assumes "apply_events E cs s evs = Ok s'" "forget s = forget t"
  shows "\<exists>t'. apply_events E cs t evs = Ok t' \<and> forget s' = forget t'"
  using assms
proof (induction evs arbitrary: s t)
  case (Cons ev evs)
  from Cons.prems(1) obtain u where u: "apply_checked_event E cs s ev = Ok u" "apply_events E cs u evs = Ok s'"
    by (auto simp: apply_events_def elim: rbindE)
  from apply_checked_forget [OF u(1) Cons.prems(2)] obtain w where
    "apply_checked_event E cs t ev = Ok w" "forget u = forget w" .
  with Cons.IH [OF u(2)] show ?case by (auto simp: apply_events_def)
qed (simp add: apply_events_def)

section \<open>Numbered events\<close>

definition numbered :: "allocator_event list \<Rightarrow> nat \<Rightarrow> allocator_event option" where
  "numbered evs n = (if 0 < n \<and> n \<le> length evs then Some (evs ! (n - 1)) else None)"

lemma numbered_snoc: "numbered (evs @ [ev]) n = (if n = Suc (length evs) then Some ev else numbered evs n)"
  by (auto simp: numbered_def nth_append)

lemma numbered_tail:
  assumes "\<And>n. k < n \<Longrightarrow> fmlookup m n = numbered evs n" "k \<le> length evs"
  shows "map snd (filter (\<lambda>(n, _). k < n) (sorted_list_of_fmap m)) = drop k evs"
proof -
  let ?keys = "filter (\<lambda>n. k < n) (sorted_list_of_fset (fmdom m))"
  have "set ?keys = set [Suc k ..< Suc (length evs)]"
    using assms(1) by (auto simp: numbered_def fmlookup_dom_iff split: if_splits)
  then have keys: "?keys = [Suc k ..< Suc (length evs)]"
    by (intro sorted_distinct_set_unique)
      (simp_all only: sorted_list_of_fset.rep_eq sorted_wrt_filter sorted_sorted_list_of_set distinct_filter
        distinct_sorted_list_of_set sorted_upt distinct_upt)
  have "map snd (filter (\<lambda>(n, _). k < n) (sorted_list_of_fmap m)) = map (\<lambda>n. the (fmlookup m n)) ?keys"
    unfolding sorted_list_of_fmap_def filter_map by (simp add: comp_def)
  also have "\<dots> = map (\<lambda>n. evs ! (n - 1)) [Suc k ..< Suc (length evs)]"
    unfolding keys using assms(1) by (intro map_cong) (auto simp: numbered_def)
  also have "\<dots> = drop k evs"
    by (intro nth_equalityI) (auto simp del: upt_Suc)
  finally show ?thesis .
qed

lemma numbered_values:
  assumes "\<And>n. fmlookup m n = numbered evs n"
  shows "btree_values m = evs"
proof -
  have "filter (\<lambda>(n, _). 0 < n) (sorted_list_of_fmap m) = sorted_list_of_fmap m"
    using assms by (auto simp: filter_id_conv sorted_list_of_fmap_def fmlookup_dom_iff numbered_def split: if_splits)
  with numbered_tail [of 0 m evs] assms show ?thesis by (simp add: btree_values_def)
qed

end
