(* ===== verification/Allocator_Directory.thy ===== *)
theory Allocator_Directory
  imports Allocator_Log
begin

text \<open>
  Directories in order: the invariant of the journal directory, and that such a directory replays to the
  state of its events, from the latest checkpoint and from the first event.
\<close>

section \<open>The invariant\<close>

definition stores :: "journal \<Rightarrow> allocator_event list \<Rightarrow> bool" where
  "stores dir evs \<longleftrightarrow>
     (\<forall>n. event_at dir n = numbered evs n) \<and>
     (\<forall>n ev. fmlookup (jd_archive dir) n = Some ev \<longrightarrow> numbered evs n = Some ev)"

definition checkpoint_at ::
  "allocator_env \<Rightarrow> rate_limit_capacity list \<Rightarrow> string \<Rightarrow> allocator_event list \<Rightarrow> allocator_checkpoint \<Rightarrow> bool" where
  "checkpoint_at E cs i evs c \<longleftrightarrow>
     (\<exists>k s c0. 0 < k \<and> k \<le> length evs \<and> apply_events E cs initial_state (take k evs) = Ok s \<and>
        checkpoint_from_state E s i (configuration_digest E cs) = Ok c0 \<and>
        c = c0\<lparr>checkpoint_content_hash := checkpoint_hash E c0\<rparr>)"

definition checkpoints_ok ::
  "allocator_env \<Rightarrow> rate_limit_capacity list \<Rightarrow> journal \<Rightarrow> allocator_event list \<Rightarrow> bool" where
  "checkpoints_ok E cs dir evs \<longleftrightarrow>
     (\<forall>name c. fmlookup (jd_checkpoints dir) name = Some c \<longrightarrow>
        name = checkpoint_name c \<and> checkpoint_at E cs (jd_identity dir) evs c)"

definition compactions_ok :: "allocator_env \<Rightarrow> rate_limit_capacity list \<Rightarrow> journal \<Rightarrow> bool" where
  "compactions_ok E cs dir \<longleftrightarrow>
     (\<forall>name r. fmlookup (jd_compactions dir) name = Some r \<longrightarrow>
        validate_published_compaction E cs dir True (name, r) = Ok ())"

definition covers :: "journal \<Rightarrow> nat \<Rightarrow> bool" where
  "covers dir n \<longleftrightarrow> (\<exists>name c. fmlookup (jd_checkpoints dir) name = Some c \<and> n \<le> last_event_sequence c)"

definition journal_ok ::
  "allocator_env \<Rightarrow> rate_limit_capacity list \<Rightarrow> journal \<Rightarrow> allocator_event list \<Rightarrow> bool" where
  "journal_ok E cs dir evs \<longleftrightarrow>
     is_ok (apply_events E cs initial_state evs) \<and> stores dir evs \<and> checkpoints_ok E cs dir evs \<and>
     compactions_ok E cs dir \<and>
     (\<forall>n. numbered evs n \<noteq> None \<longrightarrow> fmlookup (jd_active dir) n = None \<longrightarrow> covers dir n)"

lemma journal_okD:
  assumes "journal_ok E cs dir evs"
  shows "is_ok (apply_events E cs initial_state evs)" "stores dir evs" "checkpoints_ok E cs dir evs"
    "compactions_ok E cs dir"
    "numbered evs n \<noteq> None \<Longrightarrow> fmlookup (jd_active dir) n = None \<Longrightarrow> covers dir n"
  using assms unfolding journal_ok_def by blast+

lemma active_numbered: "stores dir evs \<Longrightarrow> fmlookup (jd_active dir) n = Some ev \<Longrightarrow> numbered evs n = Some ev"
  unfolding stores_def event_at_def by (metis option.simps(5))

lemma archive_numbered: "stores dir evs \<Longrightarrow> fmlookup (jd_archive dir) n = Some ev \<Longrightarrow> numbered evs n = Some ev"
  unfolding stores_def by blast

lemma stores_event_paths:
  assumes "stores dir evs"
  shows "event_paths (jd_active dir) = Ok (jd_active dir)" "event_paths (jd_archive dir) = Ok (jd_archive dir)"
proof -
  have "fmlookup (jd_active dir) 0 = None" "fmlookup (jd_archive dir) 0 = None"
    using active_numbered [OF assms, of 0] archive_numbered [OF assms, of 0]
    by (cases "fmlookup (jd_active dir) 0"; cases "fmlookup (jd_archive dir) 0"; simp add: numbered_def)+
  then show "event_paths (jd_active dir) = Ok (jd_active dir)" "event_paths (jd_archive dir) = Ok (jd_archive dir)"
    by (simp_all add: event_paths_def)
qed

section \<open>Checkpoints\<close>

lemma checkpoint_from_stateE:
  assumes "checkpoint_from_state E s i h = Ok c"
  obtains t where "last_event_hash s = Some t"
    "c = \<lparr>cp_schema = allocator_checkpoint_schema, cp_schema_version = 0,
         cp_allocator_instance_id = i, cp_configuration_hash = h,
         covered_event_count = generation s, last_event_sequence = generation s, terminal_event_hash = t,
         covered_journal_prefix_hash = journal_prefix_hash E s, cp_state = checkpoint_state_of s,
         checkpoint_content_hash = []\<rparr>"
  using assms unfolding checkpoint_from_state_def by (elim rbindE) simp

lemma checkpoint_at_state:
  assumes "checkpoint_at E cs i evs c"
  obtains s where "0 < last_event_sequence c" "last_event_sequence c \<le> length evs"
    "apply_events E cs initial_state (take (last_event_sequence c) evs) = Ok s"
    "cp_state c = checkpoint_state_of s" "generation s = last_event_sequence c"
    "last_event_hash s = Some (terminal_event_hash c)"
proof -
  from assms obtain k s c0 where k: "0 < k" "k \<le> length evs"
    and s: "apply_events E cs initial_state (take k evs) = Ok s"
    and c0: "checkpoint_from_state E s i (configuration_digest E cs) = Ok c0"
    and c: "c = c0\<lparr>checkpoint_content_hash := checkpoint_hash E c0\<rparr>"
    unfolding checkpoint_at_def by blast
  have gen: "generation s = k" using tracksD(2) [OF apply_events_tracks [OF s]] k by simp
  show ?thesis by (rule checkpoint_from_stateE [OF c0], rule that) (simp_all add: c gen k s)
qed

lemma checkpoint_at_valid:
  assumes "checkpoint_at E cs i evs c"
  shows "validate_checkpoint E cs i c = Ok ()"
proof -
  from assms obtain k s c0 where k: "0 < k" "k \<le> length evs"
    and s: "apply_events E cs initial_state (take k evs) = Ok s"
    and c0: "checkpoint_from_state E s i (configuration_digest E cs) = Ok c0"
    and c: "c = c0\<lparr>checkpoint_content_hash := checkpoint_hash E c0\<rparr>"
    unfolding checkpoint_at_def by blast
  note tr = apply_events_tracks [OF s]
  have hash: "checkpoint_hash E c = checkpoint_hash E c0" by (simp add: c checkpoint_hash_def)
  have gen: "generation s = k" using tracksD(2) [OF tr] k by simp
  from c0 obtain h where h: "last_event_hash s = Some h"
    and c0': "c0 = \<lparr>cp_schema = allocator_checkpoint_schema, cp_schema_version = 0,
         cp_allocator_instance_id = i, cp_configuration_hash = configuration_digest E cs,
         covered_event_count = generation s, last_event_sequence = generation s, terminal_event_hash = h,
         covered_journal_prefix_hash = journal_prefix_hash E s, cp_state = checkpoint_state_of s,
         checkpoint_content_hash = []\<rparr>"
    by (rule checkpoint_from_stateE)
  have "validate_checkpoint_index E cs c = Ok s"
    using events_by_sequence_tracks [OF tr] k s gen
    by (simp add: validate_checkpoint_index_def c c0' checkpoint_state_of_def integrity_unless_def Let_def)
  then show ?thesis
    unfolding validate_checkpoint_def integrity_unless_def hash by (simp add: c c0' h)
qed

lemma checkpoint_at_unique:
  assumes "checkpoint_at E cs i evs c" "checkpoint_at E cs i evs d" "last_event_sequence c = last_event_sequence d"
  shows "c = d"
  using assms unfolding checkpoint_at_def
proof (elim exE conjE)
  fix k l s t c0 d0
  assume k: "k \<le> length evs" "apply_events E cs initial_state (take k evs) = Ok s"
    and c0: "checkpoint_from_state E s i (configuration_digest E cs) = Ok c0" "c = c0\<lparr>checkpoint_content_hash := checkpoint_hash E c0\<rparr>"
    and l: "l \<le> length evs" "apply_events E cs initial_state (take l evs) = Ok t"
    and d0: "checkpoint_from_state E t i (configuration_digest E cs) = Ok d0" "d = d0\<lparr>checkpoint_content_hash := checkpoint_hash E d0\<rparr>"
  have "generation s = k" "generation t = l"
    using tracksD(2) [OF apply_events_tracks [OF k(2)]] tracksD(2) [OF apply_events_tracks [OF l(2)]] k(1) l(1) by simp_all
  moreover have "last_event_sequence c = generation s" "last_event_sequence d = generation t"
    by (rule checkpoint_from_stateE [OF c0(1)], simp add: c0(2), rule checkpoint_from_stateE [OF d0(1)], simp add: d0(2))
  ultimately have "k = l" using assms(3) by simp
  with k l c0 d0 show "c = d" by simp
qed

lemma not_ambiguous:
  assumes "\<And>c d. c \<in> set xs \<Longrightarrow> d \<in> set xs \<Longrightarrow> last_event_sequence c = last_event_sequence d \<Longrightarrow> c = d"
  shows "\<not> ambiguous xs"
  using assms
proof (induction xs rule: ambiguous.induct)
  case (1 c d cs)
  have "\<not> ambiguous (d # cs)" by (rule "1.IH", rule "1.prems") (simp_all only: list.set insert_iff simp_thms)
  moreover have "c = d" if "last_event_sequence c = last_event_sequence d" by (rule "1.prems") (use that in simp_all)
  ultimately show ?case by (simp only: ambiguous.simps) blast
qed simp_all

lemma sorted_last_max:
  fixes f :: "'a \<Rightarrow> nat"
  shows "sorted (map f xs) \<Longrightarrow> x \<in> set xs \<Longrightarrow> f x \<le> f (last xs)"
  by (induction xs) auto

lemma load_latest_ok:
  assumes "checkpoints_ok E cs dir evs"
  obtains cp where "load_latest_checkpoint E cs dir = Ok cp" "cp = None \<Longrightarrow> jd_checkpoints dir = fmempty"
    "\<And>c. cp = Some c \<Longrightarrow> checkpoint_at E cs (jd_identity dir) evs c \<and>
      fmlookup (jd_checkpoints dir) (checkpoint_name c) = Some c \<and> (\<forall>n. covers dir n \<longrightarrow> n \<le> last_event_sequence c)"
proof -
  define xs where "xs = sort_key last_event_sequence (btree_values (jd_checkpoints dir))"
  have mem: "c \<in> set xs \<longleftrightarrow> (\<exists>name. fmlookup (jd_checkpoints dir) name = Some c)" for c
    by (simp add: xs_def set_btree_values)
  have ok: "name = checkpoint_name c \<and> checkpoint_at E cs (jd_identity dir) evs c"
    if "fmlookup (jd_checkpoints dir) name = Some c" for name c
    using assms that unfolding checkpoints_ok_def by blast
  have "each_res (\<lambda>(name, c). rbind (validate_checkpoint E cs (jd_identity dir) c) (\<lambda>_.
          integrity_unless (name = checkpoint_name c) CheckpointName)) (sorted_list_of_fmap (jd_checkpoints dir)) = Ok ()"
    unfolding each_res_eq_Inr
  proof
    fix p assume "p \<in> set (sorted_list_of_fmap (jd_checkpoints dir))"
    then obtain name c where p: "p = (name, c)" "fmlookup (jd_checkpoints dir) name = Some c"
      by (force simp: sorted_list_of_fmap_def fmlookup_dom_iff)
    with ok [OF p(2)] checkpoint_at_valid [of E cs "jd_identity dir" evs c] show "(case p of (name, c) \<Rightarrow>
        rbind (validate_checkpoint E cs (jd_identity dir) c) (\<lambda>_. integrity_unless (name = checkpoint_name c) CheckpointName)) = Ok ()"
      by (simp add: integrity_unless_def)
  qed
  moreover have "\<not> ambiguous xs"
    by (rule not_ambiguous) (use ok mem in \<open>blast intro: checkpoint_at_unique\<close>)
  ultimately have load: "load_latest_checkpoint E cs dir = Ok (if xs = [] then None else Some (last xs))"
    by (simp add: load_latest_checkpoint_def xs_def Let_def integrity_unless_def)
  show ?thesis
  proof (rule that [OF load])
    assume "(if xs = [] then None else Some (last xs)) = None"
    then have "xs = []" by (simp split: if_splits)
    then have "fmlookup (jd_checkpoints dir) name = None" for name
      using mem by (metis empty_iff list.set(1) option.exhaust)
    then show "jd_checkpoints dir = fmempty" by (intro fmap_ext) simp
  next
    fix c assume "(if xs = [] then None else Some (last xs)) = Some c"
    then have c: "xs \<noteq> []" "c = last xs" by (simp_all split: if_splits)
    then obtain name where "fmlookup (jd_checkpoints dir) name = Some c" using mem last_in_set by metis
    moreover have "n \<le> last_event_sequence c" if "covers dir n" for n
    proof -
      from that obtain d where "d \<in> set xs" "n \<le> last_event_sequence d" unfolding covers_def mem by blast
      moreover have "sorted (map last_event_sequence xs)" by (simp add: xs_def)
      ultimately show ?thesis using sorted_last_max [of last_event_sequence xs d] by (simp add: c(2))
    qed
    ultimately show "checkpoint_at E cs (jd_identity dir) evs c \<and>
        fmlookup (jd_checkpoints dir) (checkpoint_name c) = Some c \<and> (\<forall>n. covers dir n \<longrightarrow> n \<le> last_event_sequence c)"
      using ok by blast
  qed
qed

end
