(* ===== verification/Allocator_Refinement.thy ===== *)
theory Allocator_Refinement
  imports Allocator_Directory
begin

text \<open>
  A directory in order replays, from its latest checkpoint and from its first event, to the state of its
  events.
\<close>

section \<open>Replay from a checkpoint\<close>

lemma events_hashed:
  "apply_events E cs initial_state evs = Ok s \<Longrightarrow> ev \<in> set evs \<Longrightarrow> ev_event_hash ev = event_hash E ev"
proof (induction evs arbitrary: s rule: rev_induct)
  case (snoc x evs)
  from snoc.prems(1) obtain t where t: "apply_events E cs initial_state evs = Ok t" "apply_checked_event E cs t x = Ok s"
    unfolding apply_events_snoc by (rule rbindE)
  from t(2) have "ev_event_hash x = event_hash E x"
    by (rule apply_checked_eventE) (simp only: event_in_order_def)
  with snoc.IH [OF t(1)] snoc.prems(2) show ?case by (simp only: set_append list.set Un_iff insert_iff empty_iff) blast
qed simp

lemma apply_events_append:
  "apply_events E cs s (xs @ ys) = rbind (apply_events E cs s xs) (\<lambda>t. apply_events E cs t ys)"
  by (simp add: apply_events_def fold_res_append)

lemma numbered_sequence:
  assumes "apply_events E cs initial_state evs = Ok s" "numbered evs n = Some ev"
  shows "ev_sequence ev = n" "ev \<in> set evs" "ev_event_hash ev = event_hash E ev"
proof -
  from assms(2) have n: "0 < n" "n \<le> length evs" "ev = evs ! (n - 1)" by (simp_all add: numbered_def split: if_splits)
  have "map ev_sequence evs ! (n - 1) = [1 ..< Suc (length evs)] ! (n - 1)"
    by (simp only: tracksD(1) [OF apply_events_tracks [OF assms(1)]])
  with n show "ev_sequence ev = n" by (simp del: upt_Suc)
  from n show "ev \<in> set evs" by simp
  with assms(1) show "ev_event_hash ev = event_hash E ev" by (rule events_hashed)
qed

lemma numbered_take: "n \<le> k \<Longrightarrow> k \<le> length evs \<Longrightarrow> numbered (take k evs) n = numbered evs n"
  by (simp add: numbered_def)

lemma indexed_by_sequence:
  assumes s: "apply_events E cs initial_state evs = Ok s" and n: "numbered evs n = Some ev"
  shows "fmlookup (collect_map (map (\<lambda>ev. (ev_sequence ev, ev)) (btree_values (events_by_idempotency s)))) n = Some ev"
proof -
  note tr = apply_events_tracks [OF s]
  let ?vs = "btree_values (events_by_idempotency s)"
  have mset: "mset ?vs = mset evs" by (rule index_of_values [OF tracksD(4) [OF tr]])
  have "distinct (map ev_sequence evs)" by (simp only: tracksD(1) [OF tr] distinct_upt)
  then have "distinct (map ev_sequence ?vs)" using mset by (metis mset_eq_imp_distinct_iff mset_map)
  then have "distinct (map fst (map (\<lambda>ev. (ev_sequence ev, ev)) ?vs))" by (simp add: comp_def)
  moreover have "ev \<in> set ?vs" using numbered_sequence(2) [OF s n] mset by (metis set_mset_mset)
  ultimately show ?thesis
    using numbered_sequence(1) [OF s n] by (auto simp: lookup_collect_distinct map_of_eq_Some_iff)
qed

lemma covered_prefix_ok:
  assumes st: "stores dir evs" and c: "checkpoint_at E cs i evs c"
  shows "require_covered_prefix_present E dir c = Ok ()"
  using c
proof (rule checkpoint_at_state)
  fix s
  let ?k = "last_event_sequence c" and ?pre = "take (last_event_sequence c) evs"
  assume k: "0 < ?k" "?k \<le> length evs" and s: "apply_events E cs initial_state ?pre = Ok s"
    and cp: "cp_state c = checkpoint_state_of s" and h: "last_event_hash s = Some (terminal_event_hash c)"
  have at: "event_at dir n = numbered ?pre n" if "n \<le> ?k" for n
    using st that k(2) by (simp add: stores_def numbered_take)
  have covered: "require_covered_event E dir
      (collect_map (map (\<lambda>ev. (ev_sequence ev, ev)) (btree_values (cp_events_by_idempotency (cp_state c))))) n = Ok ()"
    if "n \<in> set [1 ..< Suc ?k]" for n
  proof -
    from that k obtain ev where ev: "numbered ?pre n = Some ev" by (auto simp: numbered_def)
    moreover from that have "n \<le> ?k" by auto
    ultimately have "event_at dir n = Some ev" by (simp only: at)
    with indexed_by_sequence [OF s ev] numbered_sequence(3) [OF s ev] show ?thesis
      by (simp add: require_covered_event_def cp checkpoint_state_of_def integrity_unless_def)
  qed
  have "numbered ?pre ?k = Some (last ?pre)" using k by (simp add: numbered_def) (subst last_conv_nth; auto)
  moreover have "ev_event_hash (last ?pre) = terminal_event_hash c"
    using tracksD(3) [OF apply_events_tracks [OF s]] h k by (simp split: if_splits)
  moreover from calculation(1) have "ev_event_hash (last ?pre) = event_hash E (last ?pre)" by (rule numbered_sequence(3) [OF s])
  moreover have "each_res (require_covered_event E dir
      (collect_map (map (\<lambda>ev. (ev_sequence ev, ev)) (btree_values (cp_events_by_idempotency (cp_state c))))))
      [1 ..< Suc ?k] = Ok ()" using covered unfolding each_res_eq_Inr by blast
  ultimately show ?thesis
    using at [of ?k] unfolding require_covered_prefix_present_def stores_event_paths [OF st] integrity_unless_def
    by (simp del: upt_Suc)
qed

lemma published_weaken:
  assumes "validate_published_compaction E cs dir True p = Ok ()"
  shows "validate_published_compaction E cs dir False p = Ok ()"
proof -
  obtain name r where p: "p = (name, r)" by fastforce
  have "archived_event_ok E dir False x = Ok ()" if "archived_event_ok E dir True x = Ok ()" for x
    using that by (cases x) (auto simp: archived_event_ok_def integrity_unless_def elim!: rbindE)
  then show ?thesis
    using assms unfolding validate_published_compaction_def p prod.case rbind_eq_Inr each_res_eq_Inr by blast
qed

lemma published_ok:
  assumes "stores dir evs" "compactions_ok E cs dir"
  shows "validate_published_compactions E cs dir verify = Ok ()"
proof -
  have "validate_published_compaction E cs dir verify p = Ok ()" if "p \<in> set (sorted_list_of_fmap (jd_compactions dir))" for p
  proof -
    from that obtain name r where "p = (name, r)" "fmlookup (jd_compactions dir) name = Some r"
      by (force simp: sorted_list_of_fmap_def fmlookup_dom_iff)
    with assms(2) have "validate_published_compaction E cs dir True p = Ok ()" unfolding compactions_ok_def by blast
    with published_weaken show ?thesis by (cases verify) simp_all
  qed
  then have "each_res (validate_published_compaction E cs dir verify) (sorted_list_of_fmap (jd_compactions dir)) = Ok ()"
    unfolding each_res_eq_Inr by blast
  with stores_event_paths [OF assms(1)] show ?thesis by (simp add: validate_published_compactions_def)
qed

lemma replay_ok:
  assumes j: "journal_ok E cs dir evs" and t: "apply_events E cs initial_state evs = Ok t"
  shows "\<exists>s. replay E cs dir = Ok s \<and> forget s = forget t"
proof -
  note st = journal_okD(2) [OF j]
  have active: "fmlookup (jd_active dir) n = numbered evs n" if "\<not> covers dir n" for n
    using that active_numbered [OF st, of n] journal_okD(5) [OF j, of n]
    by (cases "fmlookup (jd_active dir) n"; cases "numbered evs n") auto
  note pub = published_ok [OF st journal_okD(4) [OF j], of False]
  from journal_okD(3) [OF j] obtain cp where load: "load_latest_checkpoint E cs dir = Ok cp"
    and none: "cp = None \<Longrightarrow> jd_checkpoints dir = fmempty"
    and some: "\<And>c. cp = Some c \<Longrightarrow> checkpoint_at E cs (jd_identity dir) evs c \<and>
      fmlookup (jd_checkpoints dir) (checkpoint_name c) = Some c \<and> (\<forall>n. covers dir n \<longrightarrow> n \<le> last_event_sequence c)"
    by (rule load_latest_ok) blast
  show ?thesis
  proof (cases cp)
    case None
    then have "\<not> covers dir n" for n using none by (simp add: covers_def)
    then have "map snd (filter (\<lambda>(n, _). 0 < n) (sorted_list_of_fmap (jd_active dir))) = evs"
      using numbered_tail [of 0 "jd_active dir" evs] active by simp
    with None pub load t stores_event_paths(1) [OF st] show ?thesis by (simp add: replay_def)
  next
    case (Some c)
    let ?k = "last_event_sequence c"
    from some [OF Some] have c: "checkpoint_at E cs (jd_identity dir) evs c" and max: "\<And>n. covers dir n \<Longrightarrow> n \<le> ?k" by blast+
    from c obtain s where k: "?k \<le> length evs" and s: "apply_events E cs initial_state (take ?k evs) = Ok s"
      and cs: "cp_state c = checkpoint_state_of s" "generation s = ?k" "last_event_hash s = Some (terminal_event_hash c)"
      by (rule checkpoint_at_state)
    have start: "forget s = forget (replay_state_from_checkpoint c)"
      using checkpoint_rebuild [OF apply_events_tracks [OF s] apply_events_ok [OF s] cs(1) cs(2) [symmetric] cs(3)] by simp
    have "apply_events E cs s (drop ?k evs) = Ok t"
      using t s apply_events_append [of E cs initial_state "take ?k evs" "drop ?k evs"] by simp
    from apply_events_forget [OF this start] obtain u where
      u: "apply_events E cs (replay_state_from_checkpoint c) (drop ?k evs) = Ok u" "forget t = forget u" by blast
    have "map snd (filter (\<lambda>(n, _). ?k < n) (sorted_list_of_fmap (jd_active dir))) = drop ?k evs"
      using max active by (intro numbered_tail [OF _ k]) (metis not_less)
    with u Some pub load covered_prefix_ok [OF st c] stores_event_paths(1) [OF st] show ?thesis by (simp add: replay_def)
  qed
qed

section \<open>Replay from the first event\<close>

lemma combine_fold:
  assumes "\<And>n ev. (n, ev) \<in> set ps \<Longrightarrow> numbered evs n = Some ev"
    "\<And>n ev. fmlookup m n = Some ev \<Longrightarrow> numbered evs n = Some ev"
  shows "\<exists>m'. fold_res combine_archive m ps = Ok m' \<and>
    (\<forall>n. fmlookup m' n = (if fmlookup m n \<noteq> None \<or> n \<in> fst ` set ps then numbered evs n else None))"
  using assms
proof (induction ps arbitrary: m)
  case Nil
  have "fmlookup m n = (if fmlookup m n \<noteq> None then numbered evs n else None)" for n
    using Nil(2) [of n] by (cases "fmlookup m n") simp_all
  then show ?case by simp
next
  case (Cons p ps)
  obtain n ev where p: "p = (n, ev)" by fastforce
  then have ev: "numbered evs n = Some ev" using Cons.prems(1) by simp
  show ?case
  proof (cases "fmlookup m n")
    case None
    then have step: "combine_archive m p = Ok (fmupd n ev m)" by (simp add: combine_archive_def p)
    have upd: "numbered evs j = Some x" if "fmlookup (fmupd n ev m) j = Some x" for j x
      using that ev Cons.prems(2) by (cases "j = n") simp_all
    have tail: "numbered evs j = Some x" if "(j, x) \<in> set ps" for j x using that Cons.prems(1) by simp
    from Cons.IH [of "fmupd n ev m", OF tail upd] obtain m' where
      m': "fold_res combine_archive (fmupd n ev m) ps = Ok m'"
      "\<forall>j. fmlookup m' j = (if fmlookup (fmupd n ev m) j \<noteq> None \<or> j \<in> fst ` set ps then numbered evs j else None)"
      by blast
    from m'(2) have "\<forall>j. fmlookup m' j = (if fmlookup m j \<noteq> None \<or> j \<in> fst ` set (p # ps) then numbered evs j else None)"
      by (simp add: p)
    with m'(1) step show ?thesis by simp
  next
    case (Some old)
    then have "old = ev" using Cons.prems(2) [OF Some] ev by simp
    then have step: "combine_archive m p = Ok m" using Some by (simp add: combine_archive_def p)
    from Cons.IH [of m] Cons.prems obtain m' where m': "fold_res combine_archive m ps = Ok m'"
      "\<forall>j. fmlookup m' j = (if fmlookup m j \<noteq> None \<or> j \<in> fst ` set ps then numbered evs j else None)" by auto
    have "fmlookup m' j = (if fmlookup m j \<noteq> None \<or> j \<in> fst ` set (p # ps) then numbered evs j else None)" for j
      using m'(2) Some by (simp add: p)
    with m'(1) step show ?thesis by simp
  qed
qed

lemma full_replay_ok:
  assumes j: "journal_ok E cs dir evs"
  shows "full_replay E cs dir = apply_events E cs initial_state evs"
proof -
  note st = journal_okD(2) [OF j]
  have ps: "(n, ev) \<in> set (sorted_list_of_fmap (jd_archive dir)) \<longleftrightarrow> fmlookup (jd_archive dir) n = Some ev" for n ev
    by (auto simp: sorted_list_of_fmap_def fmlookup_dom_iff)
  from combine_fold [of "sorted_list_of_fmap (jd_archive dir)" evs "jd_active dir"] obtain m where
    m: "fold_res combine_archive (jd_active dir) (sorted_list_of_fmap (jd_archive dir)) = Ok m"
    "\<forall>n. fmlookup m n = (if fmlookup (jd_active dir) n \<noteq> None \<or>
       n \<in> fst ` set (sorted_list_of_fmap (jd_archive dir)) then numbered evs n else None)"
    using active_numbered [OF st] archive_numbered [OF st] ps by blast
  have "fmlookup m n = numbered evs n" for n
  proof (cases "fmlookup (jd_active dir) n = None \<and> fmlookup (jd_archive dir) n = None")
    case True
    then have "event_at dir n = None" by (simp add: event_at_def)
    then have "numbered evs n = None" using st by (simp add: stores_def)
    then show ?thesis using m(2) by simp
  next
    case False
    then have "fmlookup (jd_active dir) n \<noteq> None \<or> n \<in> fst ` set (sorted_list_of_fmap (jd_archive dir))"
      using ps by force
    then show ?thesis using m(2) by simp
  qed
  then have "btree_values m = evs" by (rule numbered_values)
  with m(1) published_ok [OF st journal_okD(4) [OF j], of True] stores_event_paths [OF st] show ?thesis
    by (simp add: full_replay_def)
qed

end
