(* ===== verification/Allocator_Append.thy ===== *)
theory Allocator_Append
  imports Allocator_Refinement
begin

text \<open>
  Appending to a directory in order. The contract between the append loop and the validators of the
  operations is a locale: what a validator accepts, the fold applies. Under it the loop ends in its first round.
\<close>

section \<open>What does not matter\<close>

lemma event_at_update [simp]:
  "event_at (dir\<lparr>jd_hint := h\<rparr>) n = event_at dir n"
  "event_at (dir\<lparr>jd_active := fmupd k ev (jd_active dir)\<rparr>) n = (if n = k then Some ev else event_at dir n)"
  by (simp_all add: event_at_def split: option.split)

lemma journal_ok_hint [simp]: "journal_ok E cs (dir\<lparr>jd_hint := h\<rparr>) evs \<longleftrightarrow> journal_ok E cs dir evs"
proof -
  have "validate_published_compaction E cs (dir\<lparr>jd_hint := h\<rparr>) b p = validate_published_compaction E cs dir b p" for b p
    by (simp add: validate_published_compaction_def archived_event_ok_def [abs_def])
  then have "compactions_ok E cs (dir\<lparr>jd_hint := h\<rparr>) \<longleftrightarrow> compactions_ok E cs dir" by (simp add: compactions_ok_def)
  moreover have "stores (dir\<lparr>jd_hint := h\<rparr>) evs \<longleftrightarrow> stores dir evs" by (simp add: stores_def)
  moreover have "checkpoints_ok E cs (dir\<lparr>jd_hint := h\<rparr>) evs \<longleftrightarrow> checkpoints_ok E cs dir evs"
    by (simp add: checkpoints_ok_def)
  moreover have "covers (dir\<lparr>jd_hint := h\<rparr>) n \<longleftrightarrow> covers dir n" for n by (simp add: covers_def)
  ultimately show ?thesis by (simp add: journal_ok_def)
qed

lemma journal_ok_publish [simp]: "journal_ok E cs (publish_head_hint s dir) evs \<longleftrightarrow> journal_ok E cs dir evs"
  by (simp add: publish_head_hint_def)

lemma published_mono:
  assumes "validate_published_compaction E cs dir b p = Ok ()" "jd_identity dir' = jd_identity dir"
    "\<And>name c. fmlookup (jd_checkpoints dir) name = Some c \<Longrightarrow> fmlookup (jd_checkpoints dir') name = Some c"
    "\<And>n ev. fmlookup (jd_archive dir) n = Some ev \<Longrightarrow> fmlookup (jd_archive dir') n = Some ev"
  shows "validate_published_compaction E cs dir' b p = Ok ()"
proof -
  obtain name r where p: "p = (name, r)" by fastforce
  have "archived_event_ok E dir' b x = Ok ()" if "archived_event_ok E dir b x = Ok ()" for x
    using that assms(4) by (cases x) (auto simp: archived_event_ok_def integrity_unless_def elim!: rbindE)
  with assms(1,3) show ?thesis
    unfolding validate_published_compaction_def p prod.case rbind_eq_Inr each_res_eq_Inr assms(2) ok_or_eq_Inr
    by blast
qed

lemma compactions_mono:
  assumes "compactions_ok E cs dir" "jd_compactions dir' = jd_compactions dir" "jd_identity dir' = jd_identity dir"
    "\<And>name c. fmlookup (jd_checkpoints dir) name = Some c \<Longrightarrow> fmlookup (jd_checkpoints dir') name = Some c"
    "\<And>n ev. fmlookup (jd_archive dir) n = Some ev \<Longrightarrow> fmlookup (jd_archive dir') n = Some ev"
  shows "compactions_ok E cs dir'"
  using assms(1) published_mono [OF _ assms(3-5)] unfolding compactions_ok_def assms(2) by blast

lemma stores_cong:
  assumes "jd_active dir' = jd_active dir" "jd_archive dir' = jd_archive dir"
  shows "stores dir' evs \<longleftrightarrow> stores dir evs"
  unfolding stores_def event_at_def assms ..

lemma checkpoints_cong:
  "jd_checkpoints dir' = jd_checkpoints dir \<Longrightarrow> jd_identity dir' = jd_identity dir \<Longrightarrow>
   checkpoints_ok E cs dir' evs = checkpoints_ok E cs dir evs"
  by (simp add: checkpoints_ok_def)

lemma checkpoint_at_append: "checkpoint_at E cs i evs c \<Longrightarrow> checkpoint_at E cs i (evs @ xs) c"
  unfolding checkpoint_at_def
proof (elim exE conjE)
  fix k s c0
  assume "0 < k" "k \<le> length evs" "apply_events E cs initial_state (take k evs) = Ok s"
    "checkpoint_from_state E s i (configuration_digest E cs) = Ok c0" "c = c0\<lparr>checkpoint_content_hash := checkpoint_hash E c0\<rparr>"
  then show "\<exists>k s c0. 0 < k \<and> k \<le> length (evs @ xs) \<and> apply_events E cs initial_state (take k (evs @ xs)) = Ok s \<and>
        checkpoint_from_state E s i (configuration_digest E cs) = Ok c0 \<and> c = c0\<lparr>checkpoint_content_hash := checkpoint_hash E c0\<rparr>"
    by (intro exI [of _ k] exI [of _ s] exI [of _ c0]) simp
qed

lemma next_number_free:
  assumes "stores dir evs"
  shows "fmlookup (jd_active dir) (Suc (length evs)) = None" "fmlookup (jd_archive dir) (Suc (length evs)) = None"
  using active_numbered [OF assms, of "Suc (length evs)"] archive_numbered [OF assms, of "Suc (length evs)"]
  by (cases "fmlookup (jd_active dir) (Suc (length evs))"; cases "fmlookup (jd_archive dir) (Suc (length evs))";
      simp add: numbered_def)+

lemma journal_ok_append:
  assumes j: "journal_ok E cs dir evs" and t: "apply_events E cs initial_state evs = Ok t"
    and ap: "apply_checked_event E cs t ev = Ok t'"
  shows "journal_ok E cs (dir\<lparr>jd_active := fmupd (Suc (length evs)) ev (jd_active dir)\<rparr>) (evs @ [ev])"
    (is "journal_ok E cs ?dir _")
proof -
  note st = journal_okD(2) [OF j]
  have "is_ok (apply_events E cs initial_state (evs @ [ev]))" using t ap by (simp add: apply_events_snoc)
  moreover have "stores ?dir (evs @ [ev])"
  proof -
    have "event_at ?dir n = numbered (evs @ [ev]) n" for n
      using st by (cases "n = Suc (length evs)") (simp_all add: stores_def numbered_snoc)
    moreover have "numbered (evs @ [ev]) n = Some x" if "fmlookup (jd_archive ?dir) n = Some x" for n x
      using that archive_numbered [OF st, of n x] next_number_free(2) [OF st]
      by (cases "n = Suc (length evs)") (simp_all add: numbered_snoc)
    ultimately show ?thesis unfolding stores_def by blast
  qed
  moreover have "checkpoints_ok E cs ?dir (evs @ [ev])"
    using journal_okD(3) [OF j] checkpoint_at_append unfolding checkpoints_ok_def by fastforce
  moreover have "compactions_ok E cs ?dir" by (rule compactions_mono [OF journal_okD(4) [OF j]]) simp_all
  moreover have "covers ?dir n" if "numbered (evs @ [ev]) n \<noteq> None" "fmlookup (jd_active ?dir) n = None" for n
    using that journal_okD(5) [OF j, of n] by (cases "n = Suc (length evs)") (simp_all add: numbered_snoc covers_def)
  ultimately show ?thesis unfolding journal_ok_def by blast
qed

section \<open>The contract of a validator\<close>

locale event_validation =
  fixes cs :: "rate_limit_capacity list"
    and validate :: event_validator
  assumes accepted_applies:
    "state_ok cs s \<Longrightarrow> validate s p = Ok () \<Longrightarrow> \<exists>s'. apply_replayed_event cs s p = Ok s'"
begin

lemma new_event_applies:
  assumes "state_ok cs s" "validate s payload = Ok ()" "fmlookup (events_by_idempotency s) key = None"
  shows "\<exists>s'. apply_checked_event E cs s (new_event E s key digest payload) = Ok s'"
proof -
  from accepted_applies [OF assms(1,2)] obtain u where "apply_replayed_event cs s payload = Ok u" by blast
  with assms(3) show ?thesis
    by (simp add: apply_checked_event_def integrity_unless_def event_in_order_def new_event_def Let_def event_hash_def)
qed

end

lemma new_event_forget:
  assumes "forget s = forget t"
  shows "new_event E s key digest payload = new_event E t key digest payload"
  by (simp add: new_event_def forget_eqD(1,2) [OF assms])

context event_validation
begin

text \<open>The loop on a directory in order: the three ways it ends, always without a second round.\<close>

lemma append_loop_known:
  assumes "forget s = forget t" "fmlookup (events_by_idempotency t) key = Some old"
  shows "append_loop E cs validate key digest payload dir s =
    Some (dir, s, if operation_digest old = digest then Ok (True, old) else Err IdempotencyCollision)"
  using assms(2-) by (subst append_loop.simps) (simp add: forget_eqD(3) [OF assms(1)])

lemma append_loop_refused:
  assumes "forget s = forget t" "fmlookup (events_by_idempotency t) key = None" "validate s payload = Err e"
  shows "append_loop E cs validate key digest payload dir s = Some (dir, s, Err e)"
  using assms(2-) by (subst append_loop.simps) (simp add: forget_eqD(3) [OF assms(1)])

lemma append_loop_accepted:
  assumes j: "journal_ok E cs dir evs" and t: "apply_events E cs initial_state evs = Ok t"
    and eq: "forget s = forget t" and key: "fmlookup (events_by_idempotency t) key = None"
    and v: "validate s payload = Ok ()"
  obtains s' t' where "apply_checked_event E cs t (new_event E t key digest payload) = Ok t'" "forget s' = forget t'"
    "append_loop E cs validate key digest payload dir s =
      Some (publish_head_hint s' (dir\<lparr>jd_active := fmupd (Suc (length evs)) (new_event E t key digest payload) (jd_active dir)\<rparr>),
        s', Ok (False, new_event E t key digest payload))"
proof -
  have key': "fmlookup (events_by_idempotency s) key = None" using key by (simp add: forget_eqD(3) [OF eq])
  have "state_ok cs s" using apply_events_ok [OF t] forget_eqD(4) [OF eq] by blast
  from new_event_applies [OF this v key', of E digest] obtain s' where
    s': "apply_checked_event E cs s (new_event E t key digest payload) = Ok s'" by (auto simp: new_event_forget [OF eq])
  from apply_checked_forget [OF s' eq] obtain t' where
    t': "apply_checked_event E cs t (new_event E t key digest payload) = Ok t'" "forget s' = forget t'" .
  have seq: "ev_sequence (new_event E t key digest payload) = Suc (length evs)"
    using tracksD(2) [OF apply_events_tracks [OF t]] by (simp add: new_event_def Let_def)
  have "append_loop E cs validate key digest payload dir s =
      Some (publish_head_hint s' (dir\<lparr>jd_active := fmupd (Suc (length evs)) (new_event E t key digest payload) (jd_active dir)\<rparr>),
        s', Ok (False, new_event E t key digest payload))"
    by (subst append_loop.simps)
      (simp add: key' v new_event_forget [OF eq] seq next_number_free [OF journal_okD(2) [OF j]] s' Let_def)
  with t' that show ?thesis by blast
qed

end

section \<open>The validators of the four operations\<close>

lemma topology_grant:
  assumes "grant_indexed_topology_reservation h t d r idx cs = Ok x"
  shows "grant_indexed_reservation d r idx cs = Ok r"
proof (cases "grant_indexed_reservation d r idx cs")
  case (Inl fs)
  then have "fs \<noteq> []" by (auto simp: grant_indexed_reservation_def granted_or_def Let_def split: if_splits)
  with Inl assms show ?thesis
    by (simp add: grant_indexed_topology_reservation_def granted_or_def Let_def split: if_splits)
next
  case (Inr y)
  then show ?thesis by (auto simp: grant_indexed_reservation_def granted_or_def Let_def split: if_splits)
qed

lemma validated_reserve_applies:
  assumes "validate_reserve E cs topology s p = Ok ()"
  shows "\<exists>s'. apply_replayed_event cs s p = Ok s'"
proof (cases p)
  case (Reserve t b binding d r)
  with assms have v: "validate_new_reservation_identity s r = Ok ()"
    and "refuse (grant_indexed_topology_reservation (topology_hash E) topology d r (occupancy s) cs) = Ok ()"
    by (auto elim!: rbindE)
  then have "grant_indexed_reservation d r (occupancy s) cs = Ok r"
    by (cases "grant_indexed_topology_reservation (topology_hash E) topology d r (occupancy s) cs")
      (auto simp: refuse_def dest: topology_grant)
  with v Reserve show ?thesis by (simp add: apply_reserve_def map_err_def)
next
  case (Disposition b binding a)
  with assms show ?thesis by simp
qed

lemma validated_disposition_applies:
  assumes "state_ok cs s" "validate_disposition s a = Ok ()"
  shows "\<exists>s'. apply_replayed_event cs s (Disposition b binding a) = Ok s'"
  using apply_disposition_total [OF assms] by (metis apply_replayed_event.simps(2))

interpretation reserve: event_validation cs "validate_reserve E cs topology" for E cs topology
  by unfold_locales (rule validated_reserve_applies)

interpretation reviewed_reserve: event_validation cs "validate_reviewed_reserve E cs topology" for E cs topology
proof
  fix s p
  assume v: "validate_reviewed_reserve E cs topology s p = Ok ()"
  then have "validate_reserve E cs topology s p = Ok ()" by (cases p) (auto simp del: validate_reserve.simps elim!: rbindE)
  then show "\<exists>s'. apply_replayed_event cs s p = Ok s'" by (rule validated_reserve_applies)
qed

interpretation disposition: event_validation cs validate_unreviewed_disposition for cs
proof
  fix s p
  assume "state_ok cs s" "validate_unreviewed_disposition s p = Ok ()"
  then show "\<exists>s'. apply_replayed_event cs s p = Ok s'" by (cases p) (use validated_disposition_applies in auto)
qed

interpretation reviewed_disposition: event_validation cs validate_reviewed_disposition for cs
proof
  fix s p
  assume ok: "state_ok cs s" and v: "validate_reviewed_disposition s p = Ok ()"
  show "\<exists>s'. apply_replayed_event cs s p = Ok s'"
  proof (cases p)
    case (Disposition b binding a)
    with v have "validate_disposition s a = Ok ()" by (auto elim!: rbindE)
    with ok Disposition show ?thesis using validated_disposition_applies by simp
  qed (use v in simp)
qed

end
