(* ===== verification/Allocator_Reachable.thy ===== *)
theory Allocator_Reachable
  imports Allocator_Append
begin

text \<open>
  Runs of any number of processes over one journal directory, each with a cache of its own: appends,
  reads, checkpoints, compactions that may stop after any write, restarts, and a head hint that may be
  anything. Every directory on the way is in order and every cache holds the state of a prefix of the events.
\<close>

section \<open>Caches\<close>

definition cache_ok ::
  "allocator_env \<Rightarrow> rate_limit_capacity list \<Rightarrow> allocator_event list \<Rightarrow> allocator_cache \<Rightarrow> bool" where
  "cache_ok E cs evs cache \<longleftrightarrow>
     (case cache of
        Cached s metadata \<Rightarrow>
          \<exists>k t. k \<le> length evs \<and> apply_events E cs initial_state (take k evs) = Ok t \<and> forget s = forget t
      | _ \<Rightarrow> True)"

lemma cache_ok_simps [simp]: "cache_ok E cs evs NoCache" "cache_ok E cs evs Poisoned"
  by (simp_all add: cache_ok_def)

lemma cache_ok_append: "cache_ok E cs evs c \<Longrightarrow> cache_ok E cs (evs @ xs) c"
proof (cases c)
  case (Cached s metadata)
  assume "cache_ok E cs evs c"
  with Cached obtain k t where "k \<le> length evs" "apply_events E cs initial_state (take k evs) = Ok t" "forget s = forget t"
    by (auto simp: cache_ok_def)
  then show ?thesis unfolding Cached cache_ok_def allocator_cache.case by (intro exI [of _ k] exI [of _ t]) simp
qed simp_all

lemma cache_ok_now:
  "apply_events E cs initial_state evs = Ok t \<Longrightarrow> forget s = forget t \<Longrightarrow> cache_ok E cs evs (Cached s metadata)"
  unfolding cache_ok_def allocator_cache.case by (intro exI [of _ "length evs"] exI [of _ t]) simp

lemma cache_ok_after:
  "apply_events E cs initial_state evs = Ok t \<Longrightarrow> forget s = forget t \<Longrightarrow> cache_ok E cs evs (cache_after dir s r)"
  by (cases "(dir, s, r)" rule: cache_after.cases) (simp_all add: cache_ok_now)

text \<open>A cache that passes the check is current: the events after its prefix would be found.\<close>

lemma valid_cache_current:
  assumes st: "stores dir evs" and c: "cache_ok E cs evs (Cached s metadata)" and v: "cache_valid dir s metadata"
    and t: "apply_events E cs initial_state evs = Ok t"
  shows "forget s = forget t"
proof -
  from c obtain k u where k: "k \<le> length evs" and u: "apply_events E cs initial_state (take k evs) = Ok u"
    and eq: "forget s = forget u" by (auto simp: cache_ok_def)
  have "generation s = k" using tracksD(2) [OF apply_events_tracks [OF u]] k forget_eqD(1) [OF eq] by simp
  with v have "fmlookup (jd_active dir) (Suc k) = None" "fmlookup (jd_archive dir) (Suc k) = None"
    by (simp_all add: cache_valid_def event_sequence_exists_def)
  then have "event_at dir (Suc k) = None" by (simp add: event_at_def)
  with st have "numbered evs (Suc k) = None" by (simp add: stores_def)
  with k have "k = length evs" by (simp add: numbered_def split: if_splits)
  with u t eq show ?thesis by simp
qed

lemma locked_state:
  assumes j: "journal_ok E cs dir evs" and t: "apply_events E cs initial_state evs = Ok t"
    and c: "cache_ok E cs evs cache" "cache \<noteq> Poisoned"
  obtains s h where "replay_cache_locked E cs dir cache = Ok (dir\<lparr>jd_hint := h\<rparr>, s)" "forget s = forget t"
proof -
  from replay_ok [OF j t] obtain u where u: "replay E cs dir = Ok u" "forget u = forget t" by blast
  show ?thesis
  proof (cases "\<exists>s metadata. cache = Cached s metadata \<and> cache_valid dir s metadata")
    case True
    then obtain s metadata where s: "cache = Cached s metadata" "cache_valid dir s metadata" by blast
    have "replay_cache_locked E cs dir cache = Ok (dir\<lparr>jd_hint := jd_hint dir\<rparr>, s)"
      by (simp add: replay_cache_locked_def s)
    moreover have "forget s = forget t" using valid_cache_current [OF journal_okD(2) [OF j] _ s(2) t] c(1) s(1) by simp
    ultimately show ?thesis by (rule that)
  next
    case False
    then have "replay_cache_locked E cs dir cache = Ok (dir\<lparr>jd_hint := Some (generation u, last_event_hash u)\<rparr>, u)"
      using c(2) u(1) by (cases cache) (auto simp: replay_cache_locked_def publish_head_hint_def)
    then show ?thesis using u(2) by (rule that)
  qed
qed

section \<open>Appending\<close>

definition committed :: "(bool \<times> allocator_event) allocator_result \<Rightarrow> allocator_event list" where
  "committed r = (case r of Inr (False, ev) \<Rightarrow> [ev] | _ \<Rightarrow> [])"

lemma committed_simps [simp]:
  "committed (Inl e) = []" "committed (Inr (True, ev)) = []" "committed (Inr (False, ev)) = [ev]"
  by (simp_all add: committed_def)

context event_validation
begin

lemma append_known:
  assumes j: "journal_ok E cs dir evs" and t: "apply_events E cs initial_state evs = Ok t"
    and c: "cache_ok E cs evs cache" "cache \<noteq> Poisoned" and key: "key \<noteq> []"
    and old: "fmlookup (events_by_idempotency t) key = Some old"
  shows "\<exists>h c'. append E cs key payload validate dir cache =
    Some (dir\<lparr>jd_hint := h\<rparr>, c', if operation_digest old = operation_digest_of E key payload then Ok (True, old)
      else Err IdempotencyCollision)"
proof -
  from locked_state [OF j t c] obtain s h where
    "replay_cache_locked E cs dir cache = Ok (dir\<lparr>jd_hint := h\<rparr>, s)" "forget s = forget t" .
  with append_loop_known [OF _ old, of s] key show ?thesis by (auto simp: append_def)
qed

lemma append_outcome:
  assumes j: "journal_ok E cs dir evs" and t: "apply_events E cs initial_state evs = Ok t"
    and c: "cache_ok E cs evs cache"
  shows "\<exists>dir' c' r. append E cs key payload validate dir cache = Some (dir', c', r) \<and>
    journal_ok E cs dir' (evs @ committed r) \<and> cache_ok E cs (evs @ committed r) c'"
proof (cases "key = [] \<or> cache = Poisoned")
  case True
  then have "\<exists>e. append E cs key payload validate dir cache = Some (dir, cache, Err e)"
    by (auto simp: append_def replay_cache_locked_def)
  with j c show ?thesis by auto
next
  case False
  then have key: "key \<noteq> []" and p: "cache \<noteq> Poisoned" by simp_all
  let ?d = "operation_digest_of E key payload"
  from locked_state [OF j t c p] obtain s h where
    locked: "replay_cache_locked E cs dir cache = Ok (dir\<lparr>jd_hint := h\<rparr>, s)" and eq: "forget s = forget t" .
  have j': "journal_ok E cs (dir\<lparr>jd_hint := h\<rparr>) evs" using j by simp
  have same: ?thesis if "append_loop E cs validate key ?d payload (dir\<lparr>jd_hint := h\<rparr>) s = Some (dir\<lparr>jd_hint := h\<rparr>, s, r)"
    "committed r = []" for r
    using that locked key j' cache_ok_after [OF t eq] by (simp add: append_def)
  show ?thesis
  proof (cases "fmlookup (events_by_idempotency t) key")
    case (Some old)
    from append_loop_known [OF eq Some] show ?thesis by (rule same) simp
  next
    case None
    show ?thesis
    proof (cases "validate s payload")
      case (Inl e)
      from append_loop_refused [OF eq None Inl] show ?thesis by (rule same) simp
    next
      case (Inr u)
      then have v: "validate s payload = Ok ()" by simp
      let ?ev = "new_event E t key ?d payload"
      from append_loop_accepted [OF j' t eq None v] obtain s' t' where
        t': "apply_checked_event E cs t ?ev = Ok t'" "forget s' = forget t'"
        and loop: "append_loop E cs validate key ?d payload (dir\<lparr>jd_hint := h\<rparr>) s =
          Some (publish_head_hint s' (dir\<lparr>jd_hint := h, jd_active := fmupd (Suc (length evs)) ?ev (jd_active (dir\<lparr>jd_hint := h\<rparr>))\<rparr>),
            s', Ok (False, ?ev))" .
      have ext: "apply_events E cs initial_state (evs @ [?ev]) = Ok t'" using t t'(1) by (simp add: apply_events_snoc)
      from journal_ok_append [OF j' t t'(1)] have "journal_ok E cs (publish_head_hint s' (dir\<lparr>jd_hint := h,
          jd_active := fmupd (Suc (length evs)) ?ev (jd_active (dir\<lparr>jd_hint := h\<rparr>))\<rparr>)) (evs @ [?ev])" by simp
      with loop locked key cache_ok_now [OF ext t'(2)] show ?thesis by (simp add: append_def)
    qed
  qed
qed

end

end
