(* ===== verification/Allocator_Compaction.thy ===== *)
theory Allocator_Compaction
  imports Allocator_Append
begin

text \<open>Checkpoints and compactions keep a directory in order, with the same events, after every single write.\<close>

section \<open>Checkpoints\<close>

lemma journal_ok_checkpoint:
  assumes j: "journal_ok E cs dir evs" and c: "checkpoint_at E cs (jd_identity dir) evs c"
    and new: "fmlookup (jd_checkpoints dir) (checkpoint_name c) = None"
  shows "journal_ok E cs (dir\<lparr>jd_checkpoints := fmupd (checkpoint_name c) c (jd_checkpoints dir)\<rparr>) evs"
    (is "journal_ok E cs ?dir evs")
proof -
  have "stores ?dir evs" using journal_okD(2) [OF j] by (subst stores_cong [of _ dir]) simp_all
  moreover have "name = checkpoint_name x \<and> checkpoint_at E cs (jd_identity ?dir) evs x"
    if "fmlookup (jd_checkpoints ?dir) name = Some x" for name x
    using that c journal_okD(3) [OF j] unfolding checkpoints_ok_def
    by (cases "name = checkpoint_name c") (simp_all del: split_paired_All)
  then have "checkpoints_ok E cs ?dir evs" unfolding checkpoints_ok_def by blast
  moreover have more: "fmlookup (jd_checkpoints ?dir) name = Some x" if "fmlookup (jd_checkpoints dir) name = Some x" for name x
    using that new by auto
  moreover have "compactions_ok E cs ?dir"
    by (rule compactions_mono [OF journal_okD(4) [OF j]]) (erule more | simp)+
  moreover have "covers ?dir n" if "covers dir n" for n using that more unfolding covers_def by blast
  ultimately show ?thesis using j unfolding journal_ok_def by auto
qed

lemma create_checkpoint_ok:
  assumes j: "journal_ok E cs dir evs" and cp: "create_checkpoint E cs dir = Ok (dir', s, c)"
  shows "journal_ok E cs dir' evs" "apply_events E cs initial_state evs = Ok s"
proof -
  from cp obtain c0 dir1 where full: "full_replay E cs dir = Ok s" and gen: "generation s \<noteq> 0"
    and c0: "checkpoint_from_state E s (jd_identity dir) (configuration_digest E cs) = Ok c0"
    and pub: "publish_checkpoint (c0\<lparr>checkpoint_content_hash := checkpoint_hash E c0\<rparr>) dir = Ok dir1"
    and dir': "dir' = publish_head_hint s dir1" and c: "c = c0\<lparr>checkpoint_content_hash := checkpoint_hash E c0\<rparr>"
    unfolding create_checkpoint_def Let_def integrity_unless_def by (elim rbindE) simp
  show s: "apply_events E cs initial_state evs = Ok s" using full full_replay_ok [OF j] by simp
  have at: "checkpoint_at E cs (jd_identity dir) evs c"
    unfolding checkpoint_at_def
    using s c0 c gen tracksD(2) [OF apply_events_tracks [OF s]]
    by (intro exI [of _ "length evs"] exI [of _ s] exI [of _ c0]) simp
  have "journal_ok E cs dir1 evs"
  proof (cases "fmlookup (jd_checkpoints dir) (checkpoint_name c)")
    case None
    with pub c journal_ok_checkpoint [OF j at] show ?thesis by (simp add: publish_checkpoint_def)
  next
    case (Some old)
    with pub c j show ?thesis by (simp add: publish_checkpoint_def split: if_splits)
  qed
  then show "journal_ok E cs dir' evs" by (simp add: dir')
qed

section \<open>The writes of a compaction\<close>

lemma journal_ok_link:
  assumes j: "journal_ok E cs dir evs" and n: "numbered evs n = Some ev"
  shows "journal_ok E cs (dir\<lparr>jd_archive := fmupd n ev (jd_archive dir)\<rparr>) evs" (is "journal_ok E cs ?dir evs")
proof -
  note st = journal_okD(2) [OF j]
  have "event_at ?dir m = numbered evs m" for m
  proof (cases "fmlookup (jd_active dir) m")
    case None
    moreover have "event_at dir m = numbered evs m" using st by (simp add: stores_def)
    then have "fmlookup (jd_archive dir) m = numbered evs m" using None by (simp add: event_at_def)
    ultimately show ?thesis using n by (auto simp: event_at_def)
  next
    case (Some x)
    with active_numbered [OF st Some] show ?thesis by (simp add: event_at_def)
  qed
  moreover have "numbered evs m = Some x" if "fmlookup (jd_archive ?dir) m = Some x" for m x
    using that n archive_numbered [OF st, of m x] by (cases "m = n") simp_all
  ultimately have "stores ?dir evs" unfolding stores_def by blast
  moreover have "checkpoints_ok E cs ?dir evs" using journal_okD(3) [OF j] by (subst checkpoints_cong [of _ dir]) simp_all
  moreover have "fmlookup (jd_archive ?dir) m = Some x" if "fmlookup (jd_archive dir) m = Some x" for m x
    using that n archive_numbered [OF st that] by (cases "m = n") simp_all
  then have "compactions_ok E cs ?dir"
    by (intro compactions_mono [OF journal_okD(4) [OF j]]) (simp_all del: fmupd_lookup)
  ultimately show ?thesis using j unfolding journal_ok_def covers_def by simp
qed

lemma journal_ok_publish_compaction:
  assumes j: "journal_ok E cs dir evs" and v: "validate_published_compaction E cs dir True (compaction_name r, r) = Ok ()"
  shows "journal_ok E cs (dir\<lparr>jd_compactions := fmupd (compaction_name r) r (jd_compactions dir)\<rparr>) evs"
    (is "journal_ok E cs ?dir evs")
proof -
  have keep: "validate_published_compaction E cs ?dir True p = Ok ()" if "validate_published_compaction E cs dir True p = Ok ()" for p
    using that by (rule published_mono) simp_all
  have "validate_published_compaction E cs ?dir True (name, x) = Ok ()"
    if "fmlookup (jd_compactions ?dir) name = Some x" for name x
    using that keep v journal_okD(4) [OF j] unfolding compactions_ok_def
    by (cases "name = compaction_name r") (simp_all del: split_paired_All)
  then have "compactions_ok E cs ?dir" unfolding compactions_ok_def by blast
  moreover have "stores ?dir evs" using journal_okD(2) [OF j] by (subst stores_cong [of _ dir]) simp_all
  moreover have "checkpoints_ok E cs ?dir evs" using journal_okD(3) [OF j] by (subst checkpoints_cong [of _ dir]) simp_all
  ultimately show ?thesis using j unfolding journal_ok_def covers_def by simp
qed

lemma journal_ok_remove:
  assumes j: "journal_ok E cs dir evs" and n: "fmlookup (jd_archive dir) n \<noteq> None" "covers dir n"
  shows "journal_ok E cs (dir\<lparr>jd_active := fmdrop n (jd_active dir)\<rparr>) evs" (is "journal_ok E cs ?dir evs")
proof -
  note st = journal_okD(2) [OF j]
  have "event_at ?dir m = numbered evs m" for m
  proof (cases "m = n")
    case True
    from n(1) obtain ev where "fmlookup (jd_archive dir) n = Some ev" by blast
    with True archive_numbered [OF st this] show ?thesis by (simp add: event_at_def)
  next
    case False
    then have "event_at ?dir m = event_at dir m" by (simp add: event_at_def split: option.split)
    with st show ?thesis by (simp add: stores_def)
  qed
  then have "stores ?dir evs" using archive_numbered [OF st] unfolding stores_def by simp
  moreover have "checkpoints_ok E cs ?dir evs" using journal_okD(3) [OF j] by (subst checkpoints_cong [of _ dir]) simp_all
  moreover have "compactions_ok E cs ?dir" by (rule compactions_mono [OF journal_okD(4) [OF j]]) simp_all
  moreover have "covers ?dir m" if "numbered evs m \<noteq> None" "fmlookup (jd_active ?dir) m = None" for m
    using that n(2) journal_okD(5) [OF j, of m] by (cases "m = n") (simp_all add: covers_def)
  ultimately show ?thesis using journal_okD(1) [OF j] unfolding journal_ok_def by blast
qed

lemma links_ok:
  assumes "journal_ok E cs dir evs" "\<And>n ev. (n, ev) \<in> set xs \<Longrightarrow> numbered evs n = Some ev"
  shows "journal_ok E cs (fold compaction_write_step (map (\<lambda>(n, ev). LinkArchive n ev) xs) dir) evs \<and>
    (\<exists>m. fold compaction_write_step (map (\<lambda>(n, ev). LinkArchive n ev) xs) dir = dir\<lparr>jd_archive := m\<rparr> \<and>
       (\<forall>n. n \<in> fst ` set xs \<longrightarrow> fmlookup m n = numbered evs n) \<and>
       (\<forall>n ev. fmlookup (jd_archive dir) n = Some ev \<longrightarrow> fmlookup m n = Some ev))"
  using assms
proof (induction xs arbitrary: dir)
  case Nil
  have "dir = dir\<lparr>jd_archive := jd_archive dir\<rparr>" by simp
  with Nil show ?case by (metis empty_iff fold_simps(1) image_empty list.map(1) list.set(1))
next
  case (Cons x xs)
  obtain n ev where x: "x = (n, ev)" by fastforce
  then have ev: "numbered evs n = Some ev" using Cons.prems(2) by simp
  let ?dir = "dir\<lparr>jd_archive := fmupd n ev (jd_archive dir)\<rparr>"
  have same: "fmlookup (jd_archive dir) j = Some y \<Longrightarrow> fmlookup (fmupd n ev (jd_archive dir)) j = Some y" for j y
    using ev archive_numbered [OF journal_okD(2) [OF Cons.prems(1)], of j y] by (cases "j = n") simp_all
  from Cons.IH [OF journal_ok_link [OF Cons.prems(1) ev]] Cons.prems(2) obtain m where
    m: "journal_ok E cs (fold compaction_write_step (map (\<lambda>(n, ev). LinkArchive n ev) xs) ?dir) evs"
    "fold compaction_write_step (map (\<lambda>(n, ev). LinkArchive n ev) xs) ?dir = ?dir\<lparr>jd_archive := m\<rparr>"
    "\<forall>j. j \<in> fst ` set xs \<longrightarrow> fmlookup m j = numbered evs j"
    "\<forall>j y. fmlookup (jd_archive ?dir) j = Some y \<longrightarrow> fmlookup m j = Some y" by auto
  have "fmlookup m j = numbered evs j" if "j \<in> fst ` set (x # xs)" for j
    using that m(3,4) ev by (cases "j \<in> fst ` set xs") (auto simp: x)
  moreover have "fmlookup m j = Some y" if "fmlookup (jd_archive dir) j = Some y" for j y
    using same [OF that] m(4) by simp
  ultimately show ?case using m(1,2) by (intro conjI exI [of _ m]) (simp_all add: x)
qed

lemma removes_ok:
  assumes "journal_ok E cs dir evs" "\<And>n. n \<in> fst ` set xs \<Longrightarrow> fmlookup (jd_archive dir) n \<noteq> None \<and> covers dir n"
  shows "journal_ok E cs (fold compaction_write_step (map (\<lambda>(n, _). RemoveActive n) xs) dir) evs"
  using assms
proof (induction xs arbitrary: dir)
  case (Cons x xs)
  obtain n ev where x: "x = (n, ev)" by fastforce
  with Cons.prems(2) have "fmlookup (jd_archive dir) n \<noteq> None" "covers dir n" by simp_all
  from journal_ok_remove [OF Cons.prems(1) this] Cons.prems(2) show ?case
    by (simp add: x) (rule Cons.IH; simp add: covers_def)
qed simp

section \<open>The plan of a compaction\<close>

lemma increasing_sorted: "sorted_wrt (<) xs \<Longrightarrow> increasing xs"
  by (induction xs rule: increasing.induct) auto

lemma fmap_keys_increasing: "increasing (map fst (filter (\<lambda>(n, _). P n) (sorted_list_of_fmap m)))"
proof -
  have "map fst (filter (\<lambda>(n, _). P n) (sorted_list_of_fmap m)) = filter P (sorted_list_of_fset (fmdom m))"
    by (simp add: sorted_list_of_fmap_def filter_map comp_def)
  moreover have "sorted_wrt (<) (sorted_list_of_fset (fmdom m))"
    by (simp add: sorted_list_of_fset.rep_eq)
  ultimately show ?thesis by (simp add: increasing_sorted sorted_wrt_filter)
qed

lemma published_record:
  assumes "validate_retention_policy policy = Ok ()" "jd_identity dir = pr_allocator_instance_id verified"
    "configuration_digest E cs = pr_configuration_hash verified"
    "fmlookup (jd_checkpoints dir) (pr_checkpoint_sequence verified, pr_checkpoint_content_hash verified) = Some c"
    "validate_checkpoint E cs (jd_identity dir) c = Ok ()"
    "increasing (map fst archived)"
    "\<And>n ev. (n, ev) \<in> set archived \<Longrightarrow> n \<le> pr_checkpoint_sequence verified - retain_active_event_count policy \<and>
       fmlookup (jd_archive dir) n = Some ev \<and> ev_sequence ev = n \<and> ev_event_hash ev = event_hash E ev"
  shows "validate_published_compaction E cs dir True
    (compaction_name (compaction_record_for E policy verified archived), compaction_record_for E policy verified archived) = Ok ()"
proof -
  have "zip (map fst archived) (map (ev_event_hash \<circ> snd) archived) = map (\<lambda>(n, ev). (n, ev_event_hash ev)) archived"
    by (induction archived) auto
  moreover have "each_res (archived_event_ok E dir True) (map (\<lambda>(n, ev). (n, ev_event_hash ev)) archived) = Ok ()"
    unfolding each_res_eq_Inr using assms(7) by (auto simp: archived_event_ok_def integrity_unless_def)
  moreover have "list_all (\<lambda>n. n \<le> pr_checkpoint_sequence verified - retain_active_event_count policy) (map fst archived)"
    using assms(7) by (auto simp: list_all_iff)
  ultimately show ?thesis
    using assms(1-6)
    by (simp add: validate_published_compaction_def compaction_record_for_def Let_def integrity_unless_def
        compaction_hash_def)
qed

lemma compact_planE:
  assumes "compact_plan E cs policy verified dir = Ok ws" "stores dir evs"
  obtains c archived where "validate_retention_policy policy = Ok ()"
    "load_latest_checkpoint E cs dir = Ok (Some c)" "jd_identity dir = pr_allocator_instance_id verified"
    "configuration_digest E cs = pr_configuration_hash verified"
    "checkpoint_name c = (pr_checkpoint_sequence verified, pr_checkpoint_content_hash verified)"
    "archived = filter (\<lambda>(n, _). n \<le> pr_checkpoint_sequence verified - retain_active_event_count policy)
       (sorted_list_of_fmap (jd_active dir))"
    "ws = map (\<lambda>(n, ev). LinkArchive n ev) archived @ [PublishCompaction (compaction_record_for E policy verified archived)]
       @ map (\<lambda>(n, _). RemoveActive n) archived"
  using assms(1) unfolding compact_plan_def Let_def integrity_unless_def stores_event_paths(1) [OF assms(2)]
  by (elim rbindE) (simp add: checkpoint_name_def)

lemma take_plan:
  fixes A :: "'a list" and C :: "'b list"
  shows "take k (map f A @ [p] @ map g C) =
    (if k \<le> length A then map f (take k A) else map f A @ [p] @ map g (take (k - Suc (length A)) C))"
  by (auto simp: take_map take_Cons' not_le)

text \<open>After the links and the record: in order, every archived event in place and covered.\<close>

lemma compaction_published:
  assumes j: "journal_ok E cs dir evs"
    and policy: "validate_retention_policy policy = Ok ()" and load: "load_latest_checkpoint E cs dir = Ok (Some c)"
    and ids: "jd_identity dir = pr_allocator_instance_id verified" "configuration_digest E cs = pr_configuration_hash verified"
      "checkpoint_name c = (pr_checkpoint_sequence verified, pr_checkpoint_content_hash verified)"
    and archived: "archived = filter (\<lambda>(n, _). n \<le> pr_checkpoint_sequence verified - retain_active_event_count policy)
       (sorted_list_of_fmap (jd_active dir))"
    and pub: "pub = compaction_write_step (PublishCompaction (compaction_record_for E policy verified archived))
       (fold compaction_write_step (map (\<lambda>(n, ev). LinkArchive n ev) archived) dir)"
  shows "journal_ok E cs pub evs" "n \<in> fst ` set archived \<Longrightarrow> fmlookup (jd_archive pub) n \<noteq> None \<and> covers pub n"
    "(n, ev) \<in> set archived \<Longrightarrow> numbered evs n = Some ev"
proof -
  let ?cut = "pr_checkpoint_sequence verified - retain_active_event_count policy"
    and ?rec = "compaction_record_for E policy verified archived"
    and ?links = "fold compaction_write_step (map (\<lambda>(n, ev). LinkArchive n ev) archived) dir"
  obtain s where s: "apply_events E cs initial_state evs = Ok s" using journal_okD(1) [OF j] unfolding is_ok_iff by blast
  have mem: "numbered evs n = Some ev" "n \<le> ?cut" if "(n, ev) \<in> set archived" for n ev
    using that active_numbered [OF journal_okD(2) [OF j], of n ev]
    by (auto simp: archived sorted_list_of_fmap_def fmlookup_dom_iff)
  then show "(n, ev) \<in> set archived \<Longrightarrow> numbered evs n = Some ev" by blast
  from journal_okD(3) [OF j] load have c: "checkpoint_at E cs (jd_identity dir) evs c"
    "fmlookup (jd_checkpoints dir) (checkpoint_name c) = Some c"
    by (auto elim: load_latest_ok)
  have covered: "covers dir n" if "(n, ev) \<in> set archived" for n ev
    unfolding covers_def using mem(2) [OF that] c(2) ids(3)
    by (intro exI [of _ "checkpoint_name c"] exI [of _ c]) (simp add: checkpoint_name_def)
  from links_ok [OF j mem(1), of archived] obtain m where links: "journal_ok E cs ?links evs"
    and m: "?links = dir\<lparr>jd_archive := m\<rparr>" "\<And>n. n \<in> fst ` set archived \<Longrightarrow> fmlookup m n = numbered evs n" by blast
  have arch: "fmlookup m n = Some ev" if "(n, ev) \<in> set archived" for n ev
    using m(2) [of n] mem(1) [OF that] that by (simp add: rev_image_eqI)
  have "validate_published_compaction E cs ?links True (compaction_name ?rec, ?rec) = Ok ()"
  proof (rule published_record [OF policy])
    show "increasing (map fst archived)" unfolding archived by (rule fmap_keys_increasing)
    show "n \<le> ?cut \<and> fmlookup (jd_archive ?links) n = Some ev \<and> ev_sequence ev = n \<and> ev_event_hash ev = event_hash E ev"
      if "(n, ev) \<in> set archived" for n ev
      using mem(2) [OF that] arch [OF that] numbered_sequence [OF s mem(1) [OF that]] by (simp add: m(1))
  qed (use ids c checkpoint_at_valid [OF c(1)] in \<open>simp_all add: m(1)\<close>)
  from journal_ok_publish_compaction [OF links this] show "journal_ok E cs pub evs" by (simp add: pub)
  show "fmlookup (jd_archive pub) n \<noteq> None \<and> covers pub n" if "n \<in> fst ` set archived"
  proof -
    from that obtain ev where ev: "(n, ev) \<in> set archived" by auto
    with arch [OF ev] covered [OF ev] show ?thesis by (simp add: pub m(1) covers_def)
  qed
qed

lemma compaction_prefix_ok:
  assumes j: "journal_ok E cs dir evs" and plan: "compact_plan E cs policy verified dir = Ok ws"
  shows "journal_ok E cs (fold compaction_write_step (take k ws) dir) evs"
  using plan journal_okD(2) [OF j]
proof (rule compact_planE)
  fix c archived
  let ?rec = "compaction_record_for E policy verified archived"
    and ?links = "fold compaction_write_step (map (\<lambda>(n, ev). LinkArchive n ev) archived) dir"
  assume h: "validate_retention_policy policy = Ok ()" "load_latest_checkpoint E cs dir = Ok (Some c)"
    "jd_identity dir = pr_allocator_instance_id verified" "configuration_digest E cs = pr_configuration_hash verified"
    "checkpoint_name c = (pr_checkpoint_sequence verified, pr_checkpoint_content_hash verified)"
    "archived = filter (\<lambda>(n, _). n \<le> pr_checkpoint_sequence verified - retain_active_event_count policy)
       (sorted_list_of_fmap (jd_active dir))"
    and ws: "ws = map (\<lambda>(n, ev). LinkArchive n ev) archived @ [PublishCompaction ?rec] @ map (\<lambda>(n, _). RemoveActive n) archived"
  note pub = compaction_published [OF j h refl]
  show ?thesis
  proof (cases "k \<le> length archived")
    case True
    have "journal_ok E cs (fold compaction_write_step (map (\<lambda>(n, ev). LinkArchive n ev) (take k archived)) dir) evs"
      using links_ok [OF j, of "take k archived"] pub(3) by (meson in_set_takeD)
    with True show ?thesis by (simp only: ws take_plan if_True)
  next
    case False
    have "journal_ok E cs (fold compaction_write_step (map (\<lambda>(n, _). RemoveActive n) (take (k - Suc (length archived)) archived))
        (compaction_write_step (PublishCompaction ?rec) ?links)) evs"
      by (rule removes_ok [OF pub(1)], rule pub(2)) (auto dest: in_set_takeD)
    with False show ?thesis by (simp only: ws take_plan if_False fold_append comp_apply fold_simps)
  qed
qed

end
