(* ===== verification/Allocator_Properties.thy ===== *)
theory Allocator_Properties
  imports Allocator_Reachable Allocator_Compaction
begin

text \<open>
  What the allocator promises: over any run of any number of processes with crashes, the directory
  is an append-only list of events; replay gives the state of that list; appends always end, journal at
  most one event per key, and journal only what replays; active reservations never conflict.
\<close>

section \<open>Runs\<close>

definition open_journal :: "string \<Rightarrow> journal" where
  "open_journal i =
     \<lparr>jd_identity = i, jd_active = fmempty, jd_archive = fmempty, jd_checkpoints = fmempty, jd_compactions = fmempty,
      jd_hint = None\<rparr>"

definition allocator_validators :: "allocator_env \<Rightarrow> rate_limit_capacity list \<Rightarrow> event_validator set" where
  "allocator_validators E cs =
     range (validate_reserve E cs) \<union> range (validate_reviewed_reserve E cs)
     \<union> {validate_unreviewed_disposition, validate_reviewed_disposition}"

text \<open>
  Each rule is one access under the writer lock. The head hint may be lost or hold anything, a process
  may restart at any time, and a compaction may stop after any of its writes.
\<close>

inductive allocator_reaches ::
  "allocator_env \<Rightarrow> rate_limit_capacity list \<Rightarrow> journal \<Rightarrow> (nat \<Rightarrow> allocator_cache) \<Rightarrow> allocator_event list \<Rightarrow> bool"
  for E cs where
  opened: "allocator_reaches E cs (open_journal i) (\<lambda>_. NoCache) []"
| appended: "allocator_reaches E cs dir caches evs \<Longrightarrow> validate \<in> allocator_validators E cs \<Longrightarrow>
    append E cs key payload validate dir (caches p) = Some (dir', c, r) \<Longrightarrow>
    allocator_reaches E cs dir' (caches(p := c)) (evs @ committed r)"
| read: "allocator_reaches E cs dir caches evs \<Longrightarrow>
    with_cache E cs (snapshot_of cs) dir (caches p) = (dir', c, r) \<Longrightarrow>
    allocator_reaches E cs dir' (caches(p := c)) evs"
| restarted: "allocator_reaches E cs dir caches evs \<Longrightarrow> allocator_reaches E cs dir (caches(p := NoCache)) evs"
| hinted: "allocator_reaches E cs dir caches evs \<Longrightarrow> allocator_reaches E cs (dir\<lparr>jd_hint := h\<rparr>) caches evs"
| checkpointed: "allocator_reaches E cs dir caches evs \<Longrightarrow> create_checkpoint E cs dir = Ok (dir', s, c) \<Longrightarrow>
    allocator_reaches E cs dir'
      (caches(p := if caches p = Poisoned then Poisoned else Cached s (cache_authority_metadata dir'))) evs"
| compacted: "allocator_reaches E cs dir caches evs \<Longrightarrow> compact_plan E cs policy verified dir = Ok ws \<Longrightarrow>
    allocator_reaches E cs (fold compaction_write_step (take k ws) dir) caches evs"

inductive_cases allocator_reachesE: "allocator_reaches E cs dir caches evs"

lemma open_journal_ok: "journal_ok E cs (open_journal i) []"
  by (simp add: journal_ok_def open_journal_def apply_events_def stores_def event_at_def numbered_def checkpoints_ok_def
      compactions_ok_def) auto

lemma validator_contract: "validate \<in> allocator_validators E cs \<Longrightarrow> event_validation cs validate"
  unfolding allocator_validators_def
  using reserve.event_validation_axioms reviewed_reserve.event_validation_axioms
    disposition.event_validation_axioms reviewed_disposition.event_validation_axioms by blast

lemma reaches_ok:
  assumes "allocator_reaches E cs dir caches evs"
  shows "journal_ok E cs dir evs \<and> (\<forall>p. cache_ok E cs evs (caches p))"
  using assms
proof induction
  case (opened i)
  show ?case by (simp add: open_journal_ok)
next
  case (appended dir caches evs validate key payload p dir' c r)
  then obtain t where t: "apply_events E cs initial_state evs = Ok t" using journal_okD(1) unfolding is_ok_iff by blast
  from appended.IH have "journal_ok E cs dir evs" "cache_ok E cs evs (caches p)" by blast+
  from event_validation.append_outcome [OF validator_contract [OF appended.hyps(2)] this(1) t this(2), of key payload]
  have "journal_ok E cs dir' (evs @ committed r)" "cache_ok E cs (evs @ committed r) c" using appended.hyps(3) by auto
  with appended.IH cache_ok_append show ?case by simp
next
  case (read dir caches evs p dir' c r)
  then obtain t where t: "apply_events E cs initial_state evs = Ok t" using journal_okD(1) unfolding is_ok_iff by blast
  show ?case
  proof (cases "caches p = Poisoned")
    case True
    with read show ?thesis by (auto simp: with_cache_def replay_cache_locked_def)
  next
    case False
    from read.IH obtain s h where s: "replay_cache_locked E cs dir (caches p) = Ok (dir\<lparr>jd_hint := h\<rparr>, s)" "forget s = forget t"
      using locked_state [OF _ t _ False] by blast
    from cache_ok_now [OF t s(2)] have "cache_ok E cs evs (Cached s (cache_authority_metadata (dir\<lparr>jd_hint := h\<rparr>)))" .
    with read s(1) show ?thesis by (auto simp: with_cache_def)
  qed
next
  case (checkpointed dir caches evs dir' s c p)
  from create_checkpoint_ok [OF _ checkpointed.hyps(2)] checkpointed.IH
  have "journal_ok E cs dir' evs" "apply_events E cs initial_state evs = Ok s" by blast+
  with cache_ok_now [OF this(2) refl] checkpointed.IH show ?case by simp
next
  case (compacted dir caches evs policy verified ws k)
  with compaction_prefix_ok show ?case by blast
qed simp_all

section \<open>Refinement\<close>

text \<open>
  Claim C4. The journal directory refines an append-only list of events: after any run of any number of
  processes, with appends, reads, checkpoints, compactions stopped at any write, restarts and arbitrary head hints,
  the events replay, the full replay of the directory is exactly that state, and the replay from the latest
  checkpoint succeeds and gives the same state, but for the index of bindings by reservation id.
\<close>

theorem journal_refines_events:
  assumes "allocator_reaches E cs dir caches evs"
  shows "\<exists>t. apply_events E cs initial_state evs = Ok t \<and> full_replay E cs dir = Ok t \<and>
    (\<exists>b. replay E cs dir = Ok (t\<lparr>bindings_by_reservation_id := b\<rparr>))"
proof -
  from reaches_ok [OF assms] have j: "journal_ok E cs dir evs" by blast
  then obtain t where t: "apply_events E cs initial_state evs = Ok t" using journal_okD(1) unfolding is_ok_iff by blast
  from replay_ok [OF j t] obtain s where "replay E cs dir = Ok s" "forget t = forget s" by metis
  moreover from this(2) obtain b where "s = t\<lparr>bindings_by_reservation_id := b\<rparr>" by (rule forget_eqE)
  ultimately show ?thesis using t full_replay_ok [OF j] by auto
qed

text \<open>
  Claim C35. Appending always ends and never journals what does not replay: in any reachable directory, with any
  of the four validators of the allocator, the loop of \<open>append\<close> returns, an error or a retry leaves the events as
  they are, and a new event extends them by exactly that event, after which the full replay succeeds.
\<close>

theorem append_always_ends:
  assumes "allocator_reaches E cs dir caches evs" "validate \<in> allocator_validators E cs"
  shows "\<exists>dir' c r. append E cs key payload validate dir (caches p) = Some (dir', c, r) \<and>
    full_replay E cs dir' = apply_events E cs initial_state (evs @ committed r) \<and>
    is_ok (full_replay E cs dir')"
proof -
  from reaches_ok [OF assms(1)] have j: "journal_ok E cs dir evs" and c: "cache_ok E cs evs (caches p)" by blast+
  then obtain t where t: "apply_events E cs initial_state evs = Ok t" using journal_okD(1) unfolding is_ok_iff by blast
  from event_validation.append_outcome [OF validator_contract [OF assms(2)] j t c] obtain dir' c' r where
    "append E cs key payload validate dir (caches p) = Some (dir', c', r)" and
    j': "journal_ok E cs dir' (evs @ committed r)" by blast
  with full_replay_ok [OF j'] journal_okD(1) [OF j'] show ?thesis by auto
qed

text \<open>
  Claim C36. An operation takes effect once: in any reachable directory, repeating an operation whose key is
  journaled, from any process whose cache is not poisoned, answers with the journaled event when the
  operation is the same and with a collision when it is another one; no event is written in either case.
\<close>

theorem keys_take_effect_once:
  assumes "allocator_reaches E cs dir caches evs" "validate \<in> allocator_validators E cs"
    "ev \<in> set evs" "idempotency_key ev \<noteq> []" "caches p \<noteq> Poisoned"
  shows "\<exists>h c. append E cs (idempotency_key ev) payload validate dir (caches p) =
    Some (dir\<lparr>jd_hint := h\<rparr>, c,
      if operation_digest ev = operation_digest_of E (idempotency_key ev) payload then Ok (True, ev)
      else Err IdempotencyCollision)"
proof -
  from reaches_ok [OF assms(1)] have j: "journal_ok E cs dir evs" and c: "cache_ok E cs evs (caches p)" by blast+
  then obtain t where t: "apply_events E cs initial_state evs = Ok t" using journal_okD(1) unfolding is_ok_iff by blast
  have "fmlookup (events_by_idempotency t) (idempotency_key ev) = Some ev"
    using index_of_lookup [OF tracksD(4) [OF apply_events_tracks [OF t]]] assms(3) by blast
  from event_validation.append_known [OF validator_contract [OF assms(2)] j t c assms(5,4) this] show ?thesis .
qed

section \<open>Safety\<close>

lemma active_pairwise: "state_ok cs s \<Longrightarrow> sorted_wrt compatible (active_reservations s)"
proof -
  assume ok: "state_ok cs s"
  let ?ks = "sorted_list_of_fset (fmdom (active_by_identity s))"
  have "compatible (the (fmlookup (active_by_identity s) (?ks ! i))) (the (fmlookup (active_by_identity s) (?ks ! j)))"
    if "i < j" "j < length ?ks" for i j
  proof -
    have "?ks ! i \<noteq> ?ks ! j" using that by (simp add: nth_eq_iff_index_eq sorted_list_of_fset.rep_eq)
    moreover from that have "?ks ! i \<in> set ?ks" "?ks ! j \<in> set ?ks" by (meson less_trans nth_mem)+
    then obtain r r' where "fmlookup (active_by_identity s) (?ks ! i) = Some r" "fmlookup (active_by_identity s) (?ks ! j) = Some r'"
      by (auto simp: fmlookup_dom_iff)
    ultimately show ?thesis using state_okD(4) [OF ok] by simp
  qed
  then show ?thesis
    by (simp add: active_reservations_def btree_values_def sorted_list_of_fmap_def sorted_wrt_iff_nth_less)
qed

text \<open>
  Claim C34. Whatever the files of a journal hold, if its full replay succeeds then the active reservations
  are pairwise compatible (different reservation and attempt ids, no shared resource in conflicting modes), every
  rate-limit group is within its capacity, no active reservation has a disposition, and the occupancy index is
  the one of the active reservations.
\<close>

theorem replayed_reservations_compatible:
  assumes "full_replay E cs dir = Ok s"
  shows "sorted_wrt compatible (active_reservations s) \<and> within_capacity cs (active_reservations s) \<and>
    reservation_identity ` set (active_reservations s) \<inter> assertion_identity ` set (rs_dispositions s) = {} \<and>
    occupancy s = from_active_reservations (active_reservations s)"
proof -
  from assms obtain evs where evs: "apply_events E cs initial_state evs = Ok s"
    unfolding full_replay_def by (elim rbindE) blast
  note ok = apply_events_ok [OF evs] and tr = apply_events_tracks [OF evs]
  have active: "fmlookup (active_by_identity s) i = Some r \<Longrightarrow> i \<notin> assertion_identity ` set (rs_dispositions s)" for i r
    using tracksD(8) [OF tr, of i] by (simp split: if_splits)
  have "reservation_identity r \<notin> assertion_identity ` set (rs_dispositions s)" if "r \<in> set (active_reservations s)" for r
    using that active state_okD(1) [OF ok] unfolding set_active by metis
  moreover have "occupancy s = from_active_reservations (active_reservations s)"
  proof (rule occupies_unique)
    show "occupies (occupancy s) (active_reservations s)" using ok by (simp add: state_ok_def)
    show "occupies (from_active_reservations (active_reservations s)) (active_reservations s)"
      using state_okD(3) [OF ok] by (intro from_active_occupies) (auto simp: list_all_iff set_active)
  qed
  ultimately show ?thesis using ok active_pairwise [OF ok] unfolding state_ok_def by blast
qed

end
