(* ===== verification/Resource_Samples.thy ===== *)
theory Resource_Samples
  imports Resource_Grants
begin

text \<open>
  Two attempts that read one database and use one unit of a rate limit of two; the first holds a
  worktree of its own. The witnesses of the protocol and of the allocator evaluate on them.
\<close>

definition read_claim :: resource_claim where
  "read_claim =
     \<lparr>claim_resource = ''db:main'', claim_mode = RmRead, claim_rate_limit_group = Some ''api:calls'',
      claim_workspace_strategy = None, claim_network_scope = [''net:internal''], claim_secret_scope = []\<rparr>"

definition worktree_claim :: "string \<Rightarrow> resource_claim" where
  "worktree_claim w =
     \<lparr>claim_resource = ''git-worktree:'' @ w, claim_mode = RmExclusive, claim_rate_limit_group = None,
      claim_workspace_strategy = Some WsIsolatedWorktree, claim_network_scope = [], claim_secret_scope = []\<rparr>"

definition demo_declaration :: "string \<Rightarrow> resource_claim list \<Rightarrow> resource_declaration" where
  "demo_declaration i cs =
     \<lparr>rd_schema = resource_declaration_schema, rd_schema_version = 0, declaration_id = i,
      runtime_graph_id = ''graph'', runtime_graph_content_hash = ''hash'', rd_node_id = ''node'', claims = cs\<rparr>"

definition demo_reservation :: "string \<Rightarrow> string \<Rightarrow> resource_declaration \<Rightarrow> resource_reservation" where
  "demo_reservation i attempt d =
     \<lparr>rr_schema = resource_reservation_schema, rr_schema_version = 0, reservation_id = i,
      rr_declaration_id = declaration_id d, attempt_id = attempt, granted_at = ''now'', grants = declaration_grants d\<rparr>"

definition declaration1 :: resource_declaration where
  "declaration1 = demo_declaration ''d1'' [read_claim, worktree_claim ''w1'']"

definition declaration2 :: resource_declaration where
  "declaration2 = demo_declaration ''d2'' [read_claim]"

definition reservation1 :: resource_reservation where
  "reservation1 = demo_reservation ''r1'' ''a1'' declaration1"

definition reservation2 :: resource_reservation where
  "reservation2 = demo_reservation ''r2'' ''a2'' declaration2"

definition demo_capacities :: "rate_limit_capacity list" where
  "demo_capacities =
     [\<lparr>rc_schema = rate_limit_capacity_schema, rc_schema_version = 0, group_id = ''api:calls'', capacity = 2\<rparr>]"

lemma demo_grants_ok: "list_all (\<lambda>x. list_all grant_ok (grants x)) [reservation1]" "list_all grant_ok (grants reservation2)"
  by code_simp+


end
