(* ===== verification/Topology_Contract.thy ===== *)
theory Topology_Contract
  imports Execution_Topology
begin

text \<open>
  What the topology contract of \<open>src/execution_topology.rs\<close> accepts, stated without the order of the
  checks (\<open>topology_ok\<close>), and what its canonical form identifies: two accepted topologies have the
  same canonical form exactly when they are the same up to the order of their arrays.
\<close>

section \<open>Shape of a valid topology\<close>

definition provenance_ok :: "topology_provenance \<Rightarrow> bool" where
  "provenance_ok p \<longleftrightarrow> \<not> blank (tp_source p) \<and> \<not> blank (tp_created_by p)"

definition names_ok :: "string list \<Rightarrow> bool" where
  "names_ok xs \<longleftrightarrow> distinct xs \<and> list_all (\<lambda>x. \<not> blank x) xs"

definition claim_ok :: "resource_claim \<Rightarrow> bool" where
  "claim_ok c \<longleftrightarrow>
     \<not> blank (claim_resource c) \<and> pred_option (\<lambda>g. \<not> blank g) (claim_rate_limit_group c) \<and>
     list_all (\<lambda>s. \<not> blank s) (claim_network_scope c) \<and> list_all (\<lambda>s. \<not> blank s) (claim_secret_scope c)"

definition node_ok :: "execution_topology \<Rightarrow> topology_node \<Rightarrow> bool" where
  "node_ok t n \<longleftrightarrow>
     \<not> blank (tn_node_id n) \<and> \<not> blank (tn_work_cell_id n) \<and> \<not> blank (tn_purpose n) \<and>
     \<not> blank (tn_executor_class n) \<and> \<not> blank (tn_idempotency_key n) \<and>
     names_ok (map in_name (tn_inputs n)) \<and> names_ok (map out_name (tn_outputs n)) \<and>
     list_all (\<lambda>x. \<not> blank (in_schema_id x) \<and> \<not> blank (artifact_selector x)) (tn_inputs n) \<and>
     list_all (\<lambda>x. \<not> blank (out_schema_id x)) (tn_outputs n) \<and>
     list_all claim_ok (tn_resource_claims n) \<and> provenance_ok (tn_provenance n) \<and>
     pred_option (\<lambda>p. p \<in> set (topo_verification_policy_ids t)) (tn_verification_policy_id n) \<and>
     pred_option (\<lambda>p. p \<in> set (topo_budget_policy_ids t)) (tn_budget_policy_id n) \<and>
     pred_option (\<lambda>p. p \<in> set (topo_expansion_policy_ids t)) (tn_expansion_policy_id n)"

text \<open>An edge joins two different nodes; a data edge binds an output to an input of the same schema,
  an exclusion edge protects resources that both ends claim, the other kinds carry no binding.\<close>

definition binding_ok :: "topology_node \<Rightarrow> topology_node \<Rightarrow> topology_edge \<Rightarrow> bool" where
  "binding_ok s g e \<longleftrightarrow>
     (if te_kind e = EkData then
        \<exists>output\<in>set (tn_outputs s). \<exists>input\<in>set (tn_inputs g).
          te_output e = Some (out_name output) \<and> te_input e = Some (in_name input) \<and>
          te_schema_id e = Some (out_schema_id output) \<and> in_schema_id input = out_schema_id output
      else te_output e = None \<and> te_input e = None \<and> te_schema_id e = None \<and>
        (te_kind e = EkResourceExclusion \<longrightarrow>
           te_resource_scope e \<noteq> [] \<and>
           (\<forall>res\<in>set (te_resource_scope e). claims_resource s res \<and> claims_resource g res)))"

definition edge_ok :: "execution_topology \<Rightarrow> topology_edge \<Rightarrow> bool" where
  "edge_ok t e \<longleftrightarrow>
     \<not> blank (te_edge_id e) \<and> \<not> blank (te_blocking_predicate e) \<and> \<not> blank (te_dependency_witness e) \<and>
     \<not> blank (te_removal_counterexample e) \<and> provenance_ok (te_provenance e) \<and>
     list_all (\<lambda>s. \<not> blank s) (te_resource_scope e) \<and> te_from e \<noteq> te_to e \<and>
     (\<exists>s\<in>set (topo_nodes t). \<exists>g\<in>set (topo_nodes t).
        tn_node_id s = te_from e \<and> tn_node_id g = te_to e \<and> binding_ok s g e)"

definition topology_ok :: "execution_topology \<Rightarrow> bool" where
  "topology_ok t \<longleftrightarrow>
     topo_schema t = execution_topology_schema \<and> topo_schema_version t = execution_topology_schema_version \<and>
     \<not> blank (topo_id t) \<and> \<not> blank (topo_case_space_id t) \<and> topo_nodes t \<noteq> [] \<and>
     names_ok (topo_verification_policy_ids t) \<and> names_ok (topo_budget_policy_ids t) \<and>
     names_ok (topo_expansion_policy_ids t) \<and> provenance_ok (topo_provenance t) \<and>
     distinct (map tn_node_id (topo_nodes t)) \<and> distinct (map te_edge_id (topo_edges t)) \<and>
     list_all (node_ok t) (topo_nodes t) \<and> list_all (edge_ok t) (topo_edges t)"

section \<open>When a check is silent\<close>

named_theorems silent \<open>when a check of the topology contract adds no finding\<close>

lemma finding_when_Nil [silent]: "finding_when b c l d = [] \<longleftrightarrow> \<not> b"
  by (simp add: finding_when_def)

lemma required_Nil [silent]: "required v l = [] \<longleftrightarrow> \<not> blank v"
  by (simp add: required_def silent)

lemma unique_names_Nil [silent]: "unique_names xs c l = [] \<longleftrightarrow> distinct xs"
  by (simp add: unique_names_def repeats_Nil)

lemma required_each_Nil [silent]: "required_each xs l = [] \<longleftrightarrow> list_all (\<lambda>x. \<not> blank x) xs"
  unfolding required_each_def by (rule each_indexed_Nil_all) (simp add: silent)

lemma required_provenance_Nil [silent]: "required_provenance p l = [] \<longleftrightarrow> provenance_ok p"
  by (simp add: required_provenance_def provenance_ok_def silent)

lemma validate_policy_reference_Nil [silent]:
  "validate_policy_reference r known f l = [] \<longleftrightarrow> pred_option (\<lambda>p. p \<in> set known) r"
  by (cases r) (simp_all add: validate_policy_reference_def silent)

lemma validate_inputs_Nil [silent]:
  "validate_inputs l xs = [] \<longleftrightarrow>
   list_all (\<lambda>x. \<not> blank (in_name x) \<and> \<not> blank (in_schema_id x) \<and> \<not> blank (artifact_selector x)) xs"
  unfolding validate_inputs_def by (rule each_indexed_Nil_all) (simp add: silent)

lemma validate_outputs_Nil [silent]:
  "validate_outputs l xs = [] \<longleftrightarrow> list_all (\<lambda>x. \<not> blank (out_name x) \<and> \<not> blank (out_schema_id x)) xs"
  unfolding validate_outputs_def by (rule each_indexed_Nil_all) (simp add: silent)

lemma validate_claims_Nil [silent]: "validate_claims l xs = [] \<longleftrightarrow> list_all claim_ok xs"
  unfolding validate_claims_def
  by (rule each_indexed_Nil_all) (simp add: silent Let_def claim_ok_def split: option.split)

lemma validate_node_Nil: "validate_node t seen i n = [] \<longleftrightarrow> node_ok t n \<and> tn_node_id n \<notin> seen"
  unfolding validate_node_def Let_def append_is_Nil_conv silent node_ok_def names_ok_def list_all_iff
  by auto

lemma validate_nodes_Nil:
  "validate_nodes t seen i ns = [] \<longleftrightarrow>
   list_all (node_ok t) ns \<and> distinct (map tn_node_id ns) \<and> seen \<inter> tn_node_id ` set ns = {}"
  by (induction ns arbitrary: seen i) (auto simp: validate_node_Nil)

lemma validate_topology_header_Nil:
  "validate_topology_header t = [] \<longleftrightarrow>
   topo_schema t = execution_topology_schema \<and> topo_schema_version t = execution_topology_schema_version \<and>
   \<not> blank (topo_id t) \<and> \<not> blank (topo_case_space_id t) \<and> topo_nodes t \<noteq> [] \<and>
   names_ok (topo_verification_policy_ids t) \<and> names_ok (topo_budget_policy_ids t) \<and>
   names_ok (topo_expansion_policy_ids t) \<and> provenance_ok (topo_provenance t)"
  unfolding validate_topology_header_def append_is_Nil_conv silent names_ok_def by auto

section \<open>Edges against the node map\<close>

lemma fold_upd_lookup:
  "fold (\<lambda>n m. m(key n \<mapsto> n)) ns m k =
   (case find (\<lambda>n. key n = k) (rev ns) of Some n \<Rightarrow> Some n | None \<Rightarrow> m k)"
  by (induction ns arbitrary: m rule: rev_induct) auto

lemma node_named_find: "node_named t x = find (\<lambda>n. tn_node_id n = x) (rev (topo_nodes t))"
  by (simp add: node_named_def fold_upd_lookup option.case_eq_if)

lemma node_named_None: "node_named t x = None \<longleftrightarrow> x \<notin> tn_node_id ` set (topo_nodes t)"
  by (auto simp: node_named_find find_None_iff)

lemma node_named_in: "node_named t x = Some n \<Longrightarrow> n \<in> set (topo_nodes t) \<and> tn_node_id n = x"
  unfolding node_named_find find_Some_iff by (metis nth_mem set_rev)

lemma node_named_Some:
  assumes "distinct (map tn_node_id (topo_nodes t))"
  shows "node_named t x = Some n \<longleftrightarrow> n \<in> set (topo_nodes t) \<and> tn_node_id n = x"
proof
  assume n: "n \<in> set (topo_nodes t) \<and> tn_node_id n = x"
  then have "node_named t x \<noteq> None" by (auto simp: node_named_None)
  then obtain n' where n': "node_named t x = Some n'" by blast
  with n node_named_in [OF n'] assms have "n' = n" by (auto simp: distinct_map dest: inj_onD)
  with n' show "node_named t x = Some n" by simp
qed (rule node_named_in)

lemma validate_data_edge_Nil:
  "validate_data_edge e (Some s) (Some g) l = [] \<longleftrightarrow>
   (\<exists>output\<in>set (tn_outputs s). \<exists>input\<in>set (tn_inputs g).
      te_output e = Some (out_name output) \<and> te_input e = Some (in_name input) \<and>
      te_schema_id e = Some (out_schema_id output) \<and> in_schema_id input = out_schema_id output)"
  by (auto simp: validate_data_edge_def silent split: option.split)

lemma validate_edge_kind_Nil:
  "validate_edge_kind e (Some s) (Some g) l = [] \<longleftrightarrow> binding_ok s g e"
  by (auto simp: validate_edge_kind_def binding_ok_def validate_data_edge_Nil validate_exclusion_edge_def silent)

lemma validate_edge_Nil:
  assumes d: "distinct (map tn_node_id (topo_nodes t))" and ok: "list_all (node_ok t) (topo_nodes t)"
  shows "validate_edge (node_named t) seen i e = [] \<longleftrightarrow> edge_ok t e \<and> te_edge_id e \<notin> seen"
proof -
  let ?N = "node_named t"
  have named: "\<not> blank x" if "?N x = Some n" for x n
    using that d ok by (auto simp: node_named_Some list_all_iff node_ok_def)
  have "(\<exists>s\<in>set (topo_nodes t). \<exists>g\<in>set (topo_nodes t). tn_node_id s = te_from e \<and> tn_node_id g = te_to e \<and> binding_ok s g e)
    \<longleftrightarrow> (\<exists>s g. ?N (te_from e) = Some s \<and> ?N (te_to e) = Some g \<and> binding_ok s g e)"
    by (auto simp: node_named_Some [OF d])
  moreover have "(\<exists>s g. ?N (te_from e) = Some s \<and> ?N (te_to e) = Some g \<and> binding_ok s g e)
    \<longleftrightarrow> ?N (te_from e) \<noteq> None \<and> ?N (te_to e) \<noteq> None \<and>
        validate_edge_kind e (?N (te_from e)) (?N (te_to e)) (at_index ''$.edges'' i) = []"
    by (cases "?N (te_from e)"; cases "?N (te_to e)") (simp_all add: validate_edge_kind_Nil)
  ultimately show ?thesis
    unfolding validate_edge_def Let_def append_is_Nil_conv silent edge_ok_def using named by auto
qed

lemma validate_edges_Nil:
  assumes "distinct (map tn_node_id (topo_nodes t))" "list_all (node_ok t) (topo_nodes t)"
  shows "validate_edges (node_named t) seen i es = [] \<longleftrightarrow>
     list_all (edge_ok t) es \<and> distinct (map te_edge_id es) \<and> seen \<inter> te_edge_id ` set es = {}"
  by (induction es arbitrary: seen i) (auto simp: validate_edge_Nil [OF assms])

lemma sort_findings_Nil [simp]: "sort_findings fs = [] \<longleftrightarrow> fs = []"
  by (metis sort_findings_def length_0_conv length_sort)

lemma set_sort_findings [simp]: "set (sort_findings fs) = set fs"
  by (simp add: sort_findings_def)

lemma contract_accepts: "validate_execution_topology t = [] \<longleftrightarrow> topology_ok t"
proof -
  have "validate_execution_topology t = [] \<longleftrightarrow>
    validate_topology_header t = [] \<and> validate_nodes t {} 0 (topo_nodes t) = [] \<and>
    validate_edges (node_named t) {} 0 (topo_edges t) = []"
    by (simp add: validate_execution_topology_def)
  also have "\<dots> \<longleftrightarrow> topology_ok t"
    unfolding topology_ok_def validate_topology_header_Nil validate_nodes_Nil
    using validate_edges_Nil [of t "{}" 0 "topo_edges t"] by auto
  finally show ?thesis .
qed

text \<open>
  The intrinsic validation reports nothing exactly for the well-formed topologies: the
  schema is the supported one, the identifiers are present and unique, policies are declared before they
  are referenced, and every edge joins two different declared nodes with a binding its kind allows.
\<close>

theorem contract_accepts_exactly: "validate_execution_topology t = [] \<longleftrightarrow> topology_ok t"
  by (rule contract_accepts)

section \<open>Canonical form\<close>

text \<open>
  The content of a topology: the same record with every array that the canonical form sorts replaced by
  the multiset of its elements.
\<close>

definition claim_content ::
  "resource_claim \<Rightarrow> resource_claim \<times> string multiset \<times> string multiset" where
  "claim_content c =
     (c\<lparr>claim_network_scope := [], claim_secret_scope := []\<rparr>, mset (claim_network_scope c), mset (claim_secret_scope c))"

definition node_content where
  "node_content n =
     (n\<lparr>tn_inputs := [], tn_outputs := [], tn_resource_claims := []\<rparr>,
      mset (tn_inputs n), mset (tn_outputs n), image_mset claim_content (mset (tn_resource_claims n)))"

definition edge_content where
  "edge_content e = (e\<lparr>te_resource_scope := []\<rparr>, mset (te_resource_scope e))"

definition topology_content where
  "topology_content t =
     (t\<lparr>topo_nodes := [], topo_edges := [], topo_verification_policy_ids := [], topo_budget_policy_ids := [],
        topo_expansion_policy_ids := []\<rparr>,
      image_mset node_content (mset (topo_nodes t)), image_mset edge_content (mset (topo_edges t)),
      mset (topo_verification_policy_ids t), mset (topo_budget_policy_ids t), mset (topo_expansion_policy_ids t))"

lemma sort_eq_iff_mset: "sort xs = sort ys \<longleftrightarrow> mset xs = mset (ys :: 'a::linorder list)"
  by (metis mset_sort properties_for_sort sorted_sort)

lemma sort_key_eq_iff_mset:
  assumes "inj_on f (set xs)"
  shows "sort_key f xs = sort_key f ys \<longleftrightarrow> mset xs = mset ys"
proof
  assume "mset xs = mset ys"
  then show "sort_key f xs = sort_key f ys" by (intro sort_key_inj_key_eq) (simp_all add: assms)
qed (metis mset_sort)

text \<open>Equality after an image that forgets the same as another is equality after the other.\<close>

lemma image_mset_same_kernel:
  assumes k: "\<And>x y. x \<in># M \<Longrightarrow> y \<in># N \<Longrightarrow> f x = f y \<longleftrightarrow> g x = g y" and m: "image_mset f M = image_mset f N"
  shows "image_mset g M = image_mset g N"
  using assms
proof (induction M arbitrary: N)
  case empty
  then show ?case by simp
next
  case (add x M)
  from add.prems(2) have "f x \<in># image_mset f N" by (metis image_mset_add_mset union_single_eq_member)
  then obtain y where y: "y \<in># N" "f y = f x" by auto
  then obtain N' where N: "N = add_mset y N'" by (meson multi_member_split)
  have "image_mset g M = image_mset g N'"
  proof (rule add.IH)
    show "f x' = f y' \<longleftrightarrow> g x' = g y'" if "x' \<in># M" "y' \<in># N'" for x' y'
      using that add.prems(1) [of x' y'] N by simp
    show "image_mset f M = image_mset f N'" using add.prems(2) y N by simp
  qed
  moreover have "g x = g y" using add.prems(1) [of x y] y by simp
  ultimately show ?case by (simp add: N)
qed

lemma image_mset_kernel_iff:
  assumes "\<And>x y. x \<in># M \<Longrightarrow> y \<in># N \<Longrightarrow> f x = f y \<longleftrightarrow> g x = g y"
  shows "image_mset f M = image_mset f N \<longleftrightarrow> image_mset g M = image_mset g N"
  using image_mset_same_kernel [of M N f g] image_mset_same_kernel [of M N g f] assms by blast

lemma claim_key_inj: "inj claim_key"
  by (rule injI) (simp add: claim_key_def)

lemma normalize_claim_eq_iff: "normalize_claim c = normalize_claim c' \<longleftrightarrow> claim_content c = claim_content c'"
  by (cases c; cases c') (simp add: normalize_claim_def claim_content_def sort_eq_iff_mset)

lemma normalize_claims_eq_iff:
  "sort_key claim_key (map normalize_claim cs) = sort_key claim_key (map normalize_claim cs') \<longleftrightarrow>
   image_mset claim_content (mset cs) = image_mset claim_content (mset cs')"
  by (simp add: sort_key_eq_iff_mset inj_on_subset [OF claim_key_inj] image_mset_kernel_iff [OF normalize_claim_eq_iff])

lemma normalize_node_eq_iff:
  assumes "distinct (map in_name (tn_inputs n))" "distinct (map out_name (tn_outputs n))"
  shows "normalize_node n = normalize_node n' \<longleftrightarrow> node_content n = node_content n'"
  using assms
  by (cases n; cases n')
    (simp add: normalize_node_def node_content_def normalize_claims_eq_iff sort_key_eq_iff_mset distinct_map, blast)

lemma normalize_edge_eq_iff: "normalize_edge e = normalize_edge e' \<longleftrightarrow> edge_content e = edge_content e'"
  by (cases e; cases e') (simp add: normalize_edge_def edge_content_def sort_eq_iff_mset, blast)

lemma map_sort_key:
  assumes "\<And>x. key (h x) = key x"
  shows "map h (sort_key key xs) = sort_key key (map h xs)"
proof -
  have insort: "map h (insort_key key x ys) = insort_key key (h x) (map h ys)" for x ys
    by (induction ys) (simp_all add: assms)
  show ?thesis by (induction xs) (simp_all add: insort)
qed

lemma mapped_sort_eq_iff:
  assumes key: "\<And>x. key (h x) = key x" and d: "distinct (map key xs)"
  shows "map h (sort_key key xs) = map h (sort_key key ys) \<longleftrightarrow> image_mset h (mset xs) = image_mset h (mset ys)"
proof -
  have "inj_on key (set (map h xs))"
    using d by (auto simp: inj_on_def key distinct_map)
  then show ?thesis by (simp add: map_sort_key [of key h, OF key] sort_key_eq_iff_mset)
qed

lemma normalize_node_id [simp]: "tn_node_id (normalize_node n) = tn_node_id n"
  by (simp add: normalize_node_def)

lemma normalize_edge_id [simp]: "te_edge_id (normalize_edge e) = te_edge_id e"
  by (simp add: normalize_edge_def)

definition unique_topology_ids :: "execution_topology \<Rightarrow> bool" where
  "unique_topology_ids t \<longleftrightarrow>
     distinct (map tn_node_id (topo_nodes t)) \<and> distinct (map te_edge_id (topo_edges t)) \<and>
     (\<forall>n\<in>set (topo_nodes t). distinct (map in_name (tn_inputs n)) \<and> distinct (map out_name (tn_outputs n)))"

lemma normalize_topology_eq_iff:
  assumes u: "unique_topology_ids t"
  shows "normalize_topology t = normalize_topology t' \<longleftrightarrow> topology_content t = topology_content t'"
proof -
  have nodes: "image_mset normalize_node (mset (topo_nodes t)) = image_mset normalize_node (mset (topo_nodes t'))
     \<longleftrightarrow> image_mset node_content (mset (topo_nodes t)) = image_mset node_content (mset (topo_nodes t'))"
    by (rule image_mset_kernel_iff, rule normalize_node_eq_iff) (use u in \<open>simp_all add: unique_topology_ids_def\<close>)
  have edges: "image_mset normalize_edge (mset (topo_edges t)) = image_mset normalize_edge (mset (topo_edges t'))
     \<longleftrightarrow> image_mset edge_content (mset (topo_edges t)) = image_mset edge_content (mset (topo_edges t'))"
    by (rule image_mset_kernel_iff) (rule normalize_edge_eq_iff)
  have sorted:
    "map normalize_node (sort_key tn_node_id (topo_nodes t)) = map normalize_node (sort_key tn_node_id (topo_nodes t'))
       \<longleftrightarrow> image_mset normalize_node (mset (topo_nodes t)) = image_mset normalize_node (mset (topo_nodes t'))"
    "map normalize_edge (sort_key te_edge_id (topo_edges t)) = map normalize_edge (sort_key te_edge_id (topo_edges t'))
       \<longleftrightarrow> image_mset normalize_edge (mset (topo_edges t)) = image_mset normalize_edge (mset (topo_edges t'))"
    using u by (auto intro!: mapped_sort_eq_iff simp: unique_topology_ids_def)
  show ?thesis
    using nodes edges sorted unfolding normalize_topology_def topology_content_def
    by (cases t; cases t') (simp add: sort_eq_iff_mset, blast)
qed

lemma topology_ok_unique: "topology_ok t \<Longrightarrow> unique_topology_ids t"
  by (auto simp: topology_ok_def unique_topology_ids_def list_all_iff node_ok_def names_ok_def)

text \<open>
  Claim C19. For an accepted topology the canonical form, and with it the content hash, forgets the order
  of the arrays and nothing else: another topology has the same canonical form exactly when it has the
  same fields, and the same nodes, edges, policies, inputs, outputs, claims and scopes in some order.
\<close>

theorem canonical_form_exact:
  assumes "validate_execution_topology t = []"
  shows "(normalize_topology t = normalize_topology t' \<longleftrightarrow> topology_content t = topology_content t') \<and>
    (topology_content t = topology_content t' \<longrightarrow>
       execution_topology_content_hash to_string digest t = execution_topology_content_hash to_string digest t')"
proof -
  have "unique_topology_ids t" using assms contract_accepts topology_ok_unique by blast
  from normalize_topology_eq_iff [OF this, of t'] show ?thesis
    by (auto simp: execution_topology_content_hash_def canonical_execution_topology_def)
qed

end
