(* ===== verification/Topology_Samples.thy ===== *)
theory Topology_Samples
  imports Topology_Contract
begin

text \<open>Small topologies the witnesses run the code on.\<close>

definition topology_sample_provenance :: topology_provenance where
  "topology_sample_provenance = \<lparr>tp_source = ''s'', tp_created_by = ''u''\<rparr>"

definition sample_node :: "string \<Rightarrow> topology_node" where
  "sample_node i =
     \<lparr>tn_node_id = i, tn_work_cell_id = ''w'', tn_purpose = ''p'', tn_inputs = [], tn_outputs = [],
      tn_side_effects = SeNone, tn_resource_claims = [], tn_executor_class = ''x'',
      tn_verification_policy_id = None, tn_budget_policy_id = None, tn_idempotency_key = ''k'',
      tn_delivery = DmStreaming, tn_expansion_policy_id = None, tn_estimated_duration_ms = None,
      tn_provenance = topology_sample_provenance\<rparr>"

definition sample_edge :: "string \<Rightarrow> string \<Rightarrow> string \<Rightarrow> topology_edge" where
  "sample_edge i a b =
     \<lparr>te_edge_id = i, te_from = a, te_to = b, te_kind = EkControl, te_output = None, te_input = None,
      te_schema_id = None, te_blocking_predicate = ''b'', te_dependency_witness = ''d'',
      te_removal_counterexample = ''r'', te_resource_scope = [], te_provenance = topology_sample_provenance\<rparr>"

definition sample_topology :: "string \<Rightarrow> topology_node list \<Rightarrow> topology_edge list \<Rightarrow> execution_topology" where
  "sample_topology i ns es =
     \<lparr>topo_schema = execution_topology_schema, topo_schema_version = 0, topo_id = i,
      topo_case_space_id = ''c'', topo_nodes = ns, topo_edges = es, topo_verification_policy_ids = [],
      topo_budget_policy_ids = [], topo_expansion_policy_ids = [],
      topo_completeness_policy = AllExpectedNodesReported, topo_provenance = topology_sample_provenance\<rparr>"

definition pair_topology :: execution_topology where
  "pair_topology = sample_topology ''t'' [sample_node ''a'', sample_node ''b''] [sample_edge ''e'' ''a'' ''b'']"

definition swapped_topology :: execution_topology where
  "swapped_topology = sample_topology ''t'' [sample_node ''b'', sample_node ''a''] [sample_edge ''e'' ''a'' ''b'']"

theorem canonical_form_exact_witness:
  "validate_execution_topology pair_topology = [] \<and> pair_topology \<noteq> swapped_topology \<and>
   normalize_topology pair_topology = normalize_topology swapped_topology"
proof -
  have ok: "validate_execution_topology pair_topology = []" by code_simp
  have "topology_content pair_topology = topology_content swapped_topology"
    by (simp add: topology_content_def pair_topology_def swapped_topology_def sample_topology_def)
  then have "normalize_topology pair_topology = normalize_topology swapped_topology"
    using canonical_form_exact [OF ok, of swapped_topology] by blast
  moreover have "pair_topology \<noteq> swapped_topology"
    by (simp add: pair_topology_def swapped_topology_def sample_topology_def sample_node_def)
  ultimately show ?thesis using ok by blast
qed

end
