(* ===== verification/Allocator_Witnesses.thy ===== *)
theory Allocator_Witnesses
  imports Allocator_Properties Resource_Samples Topology_Samples
begin

text \<open>One reservation journaled by the first process; the witnesses of the allocator's claims evaluate on it.\<close>

definition demo_allocator :: allocator_env where
  "demo_allocator =
     \<lparr>topology_hash = \<lambda>_. ''hash'', event_digest = \<lambda>ev. ''event-'' @ idempotency_key ev,
      operation_digest_of = \<lambda>key _. ''op-'' @ key, declaration_digest = declaration_id, prefix_digest = \<lambda>_. ''prefix'',
      checkpoint_digest = \<lambda>_. ''checkpoint'', configuration_digest = \<lambda>_. ''configuration'',
      policy_digest = \<lambda>_. ''policy'', compaction_digest = \<lambda>_. ''compaction''\<rparr>"

definition demo_topology :: execution_topology where
  "demo_topology =
     sample_topology ''graph'' [(sample_node ''node'')\<lparr>tn_resource_claims := [read_claim, worktree_claim ''w1'']\<rparr>] []"

definition demo_reserve :: event_payload where
  "demo_reserve = Reserve ''hash'' ''base'' None declaration1 reservation1"

definition demo_event :: allocator_event where
  "demo_event = new_event demo_allocator initial_state ''k1'' ''op-k1'' demo_reserve"

abbreviation demo_validator :: event_validator where
  "demo_validator \<equiv> validate_reserve demo_allocator demo_capacities demo_topology"

lemma demo_append:
  "map_option (\<lambda>(dir, c, r). r)
     (append demo_allocator demo_capacities ''k1'' demo_reserve demo_validator (open_journal ''j'') NoCache)
   = Some (Ok (False, demo_event))"
  by code_simp

lemma demo_validates: "demo_validator \<in> allocator_validators demo_allocator demo_capacities"
  by (simp add: allocator_validators_def)

lemma demo_reached:
  obtains dir c where "allocator_reaches demo_allocator demo_capacities dir ((\<lambda>_. NoCache)(0 := c)) [demo_event]"
proof -
  from demo_append obtain dir c where
    "append demo_allocator demo_capacities ''k1'' demo_reserve demo_validator (open_journal ''j'') NoCache =
       Some (dir, c, Ok (False, demo_event))" by auto
  from allocator_reaches.appended [OF allocator_reaches.opened demo_validates this, of 0] that show ?thesis by simp
qed

theorem journal_refines_events_witness:
  "\<exists>dir t. apply_events demo_allocator demo_capacities initial_state [demo_event] = Ok t \<and>
     full_replay demo_allocator demo_capacities dir = Ok t"
proof -
  obtain dir c where "allocator_reaches demo_allocator demo_capacities dir ((\<lambda>_. NoCache)(0 := c)) [demo_event]"
    by (rule demo_reached)
  from journal_refines_events [OF this] show ?thesis by blast
qed

theorem append_always_ends_witness:
  "\<exists>dir c r. append demo_allocator demo_capacities ''k1'' demo_reserve demo_validator (open_journal ''j'') NoCache =
     Some (dir, c, r) \<and> is_ok (full_replay demo_allocator demo_capacities dir)"
  using append_always_ends [OF allocator_reaches.opened [where i = "''j''"] demo_validates, where key = "''k1''" and payload = demo_reserve]
  by blast

theorem keys_take_effect_once_witness:
  "\<exists>dir dir' c. append demo_allocator demo_capacities ''k1'' demo_reserve demo_validator dir NoCache =
     Some (dir', c, Ok (True, demo_event))"
proof -
  obtain dir c where "allocator_reaches demo_allocator demo_capacities dir ((\<lambda>_. NoCache)(0 := c)) [demo_event]"
    by (rule demo_reached)
  moreover have "idempotency_key demo_event = ''k1''" "operation_digest demo_event = operation_digest_of demo_allocator ''k1'' demo_reserve"
    by (simp_all add: demo_event_def new_event_def Let_def demo_allocator_def)
  ultimately show ?thesis
    using keys_take_effect_once [OF _ demo_validates, of dir "(\<lambda>_. NoCache)(0 := c)" "[demo_event]" demo_event 1 demo_reserve]
    by auto
qed

theorem replayed_reservations_compatible_witness:
  "\<exists>dir s. full_replay demo_allocator demo_capacities dir = Ok s \<and> sorted_wrt compatible (active_reservations s) \<and>
     within_capacity demo_capacities (active_reservations s)"
proof -
  obtain dir c where "allocator_reaches demo_allocator demo_capacities dir ((\<lambda>_. NoCache)(0 := c)) [demo_event]"
    by (rule demo_reached)
  then have "journal_ok demo_allocator demo_capacities dir [demo_event]" using reaches_ok by blast
  then obtain s where "full_replay demo_allocator demo_capacities dir = Ok s"
    using full_replay_ok journal_okD(1) unfolding is_ok_iff by metis
  from this replayed_reservations_compatible [OF this] show ?thesis by blast
qed

end
