(* ===== verification/Allocator_Findings.thy ===== *)
theory Allocator_Findings
  imports Allocator_Witnesses
begin

text \<open>Behaviours of the allocator that its own comments rule out, each on a concrete journal.\<close>

section \<open>Reviewed deployments\<close>

definition authority_of :: "string \<Rightarrow> deployment_authority" where
  "authority_of bundle =
     \<lparr>da_claim_cell_id = ''cell'', da_accepted_review_id = ''review'', da_topology_content_hash = ''hash'',
      da_policy_manifest_content_hash = ''manifest'', da_deployment_bundle_hash = bundle,
      da_accepted_review_revision_id = ''base'', da_case_space_id = ''space''\<rparr>"

definition reserve_for :: "string \<Rightarrow> string \<Rightarrow> event_payload" where
  "reserve_for bundle attempt =
     (let r = demo_reservation ''r1'' attempt declaration1
      in Reserve ''hash'' ''base'' (Some (binding_for demo_allocator (authority_of bundle) declaration1 r)) declaration1 r)"

definition assertion_for :: "string \<Rightarrow> assertion_kind \<Rightarrow> string option \<Rightarrow> disposition_assertion" where
  "assertion_for attempt kind superseding =
     \<lparr>da_schema = reservation_assertion_schema, da_schema_version = 0, assertion_id = ''end-'' @ attempt,
      da_reservation_id = ''r1'', da_attempt_id = attempt, da_kind = kind, asserted_by = ''host'',
      da_reason = ''why'', superseding_reservation_id = superseding\<rparr>"

text \<open>The first reservation is journaled; then a reviewed disposition supersedes it without naming a successor.\<close>

definition reviewed_start :: "(journal \<times> allocator_cache \<times> (bool \<times> allocator_event) allocator_result) option" where
  "reviewed_start =
     reserve_reviewed demo_allocator demo_capacities demo_topology (authority_of ''A'') ''base'' declaration1 reservation1 ''k1''
       (open_journal ''j'') NoCache"

definition unnamed_supersede :: "(journal \<times> allocator_cache \<times> (bool \<times> allocator_event) allocator_result) option" where
  "unnamed_supersede =
     Option.bind reviewed_start (\<lambda>(dir, c, r).
       disposition_reviewed demo_allocator demo_capacities ''base'' (assertion_for ''a1'' AkSupersede None) ''k2'' dir c)"


section \<open>Bindings by reservation id\<close>

text \<open>
  Reservation id \<open>r1\<close> is used by attempt \<open>a1\<close> of deployment A under key \<open>z\<close>, released, and used again by attempt
  \<open>a2\<close> of deployment B under key \<open>a\<close>.
\<close>

definition chained :: "replay_state \<Rightarrow> (string \<times> event_payload) list \<Rightarrow> replay_state allocator_result" where
  "chained = fold_res (\<lambda>s (key, payload).
     apply_checked_event demo_allocator demo_capacities s (new_event demo_allocator s key (''op-'' @ key) payload))"

definition reused_id :: "replay_state allocator_result" where
  "reused_id =
     chained initial_state
       [(''z'', reserve_for ''A'' ''a1''), (''y'', Disposition ''base'' None (assertion_for ''a1'' AkRelease None)),
        (''a'', reserve_for ''B'' ''a2'')]"

definition bundle_of :: "replay_state \<Rightarrow> string option" where
  "bundle_of s = map_option rb_deployment_bundle_hash (fmlookup (bindings_by_reservation_id s) ''r1'')"

text \<open>
  A checkpoint can change which deployment an active reservation id belongs to: the state folded from the
  events binds the reused id to deployment B, the state rebuilt from the checkpoint of that very state binds it
  to deployment A, because it reads the events in the order of their keys. A reviewed disposition that names
  the id as successor is then checked against the wrong deployment.
\<close>

theorem checkpoint_rebinds_reused_id:
  "rbind reused_id (\<lambda>s.
     rbind (checkpoint_from_state demo_allocator s ''j'' ''configuration'') (\<lambda>c.
       Ok (bundle_of s, bundle_of (replay_state_from_checkpoint c)))) = Ok (Some ''B'', Some ''A'')"
  by code_simp

section \<open>File names\<close>

text \<open>The only event of the journal, of sequence 1, lies in the file of number 2.\<close>

definition misnamed :: journal where
  "misnamed = (open_journal ''j'')\<lparr>jd_active := fmupd 2 demo_event fmempty\<rparr>"

lemma replay_hint: "replay E cs (dir\<lparr>jd_hint := h\<rparr>) = replay E cs dir"
proof -
  have "validate_published_compaction E cs (dir\<lparr>jd_hint := h\<rparr>) b = validate_published_compaction E cs dir b" for b
    by (simp add: fun_eq_iff validate_published_compaction_def archived_event_ok_def [abs_def])
  moreover have "require_covered_prefix_present E (dir\<lparr>jd_hint := h\<rparr>) = require_covered_prefix_present E dir"
    by (simp add: fun_eq_iff require_covered_prefix_present_def require_covered_event_def [abs_def])
  ultimately show ?thesis
    by (simp add: replay_def validate_published_compactions_def load_latest_checkpoint_def cong: if_cong option.case_cong)
qed

lemma append_loop_stuck:
  assumes "append_loop E cs validate key digest payload dir s = Some y" "replay E cs dir = Ok s"
    "fmlookup (events_by_idempotency s) key = None" "validate s payload = Ok ()"
    "fmlookup (jd_active dir) (generation s + 1) \<noteq> None"
  shows False
proof -
  have "replay E cs dir = Ok s \<longrightarrow> fmlookup (events_by_idempotency s) key = None \<longrightarrow> validate s payload = Ok () \<longrightarrow>
      fmlookup (jd_active dir) (Suc (generation s)) \<noteq> None \<longrightarrow> False"
  proof (rule append_loop.raw_induct [OF _ assms(1),
        where P = "\<lambda>E cs validate key digest payload dir s y. replay E cs dir = Ok s \<longrightarrow>
          fmlookup (events_by_idempotency s) key = None \<longrightarrow> validate s payload = Ok () \<longrightarrow>
          fmlookup (jd_active dir) (Suc (generation s)) \<noteq> None \<longrightarrow> False"], intro impI)
    fix loop E cs validate key digest payload dir s y
    assume IH: "\<And>E cs validate key digest payload dir s y. loop E cs validate key digest payload dir s = Some y \<Longrightarrow>
        replay E cs dir = Ok s \<longrightarrow> fmlookup (events_by_idempotency s) key = None \<longrightarrow> validate s payload = Ok () \<longrightarrow>
        fmlookup (jd_active dir) (Suc (generation s)) \<noteq> None \<longrightarrow> False"
      and stuck: "replay E cs dir = Ok s" "fmlookup (events_by_idempotency s) key = None" "validate s payload = Ok ()"
        "fmlookup (jd_active dir) (Suc (generation s)) \<noteq> None"
      and body: "(case fmlookup (events_by_idempotency s) key of
        Some existing \<Rightarrow>
          Some (dir, s, if operation_digest existing = digest then Ok (True, existing) else Err IdempotencyCollision)
      | None \<Rightarrow>
          (case validate s payload of
             Inl e \<Rightarrow> Some (dir, s, Err e)
           | Inr _ \<Rightarrow>
               (let ev = new_event E s key digest payload in
                case fmlookup (jd_active dir) (ev_sequence ev) of
                  Some _ \<Rightarrow>
                    (case replay E cs dir of
                       Inl e \<Rightarrow> Some (dir, s, Err e)
                     | Inr s' \<Rightarrow> loop E cs validate key digest payload (publish_head_hint s' dir) s')
                | None \<Rightarrow>
                    (let dir' = dir\<lparr>jd_active := fmupd (ev_sequence ev) ev (jd_active dir)\<rparr> in
                     case apply_checked_event E cs s ev of
                       Inl e \<Rightarrow> Some (dir', s, Err e)
                     | Inr s' \<Rightarrow> Some (publish_head_hint s' dir', s', Ok (False, ev)))))) = Some y"
    from stuck(4) obtain x where "fmlookup (jd_active dir) (Suc (generation s)) = Some x" by blast
    with body stuck have "loop E cs validate key digest payload (publish_head_hint s dir) s = Some y"
      by (simp add: new_event_def Let_def)
    from IH [OF this] stuck show False by (simp add: publish_head_hint_def replay_hint)
  qed
  with assms(2-) show False by simp
qed

text \<open>
  The name of a journal file is not compared with the event in it: a journal whose only event lies in the
  file of the next number replays without complaint, with and without checkpoints, but a disposition that is
  in order never returns: the number it wants is taken, the replay gives the same state, and the loop tries again.
\<close>

theorem misnamed_file_never_returns:
  "is_ok (full_replay demo_allocator demo_capacities misnamed) \<and> is_ok (replay demo_allocator demo_capacities misnamed) \<and>
   disposition_unreviewed demo_allocator demo_capacities ''base'' (assertion_for ''a1'' AkRelease None) ''k2'' misnamed NoCache = None"
proof -
  let ?a = "assertion_for ''a1'' AkRelease None"
  define s where "s = projr (replay demo_allocator demo_capacities misnamed)"
  have ok: "is_ok (replay demo_allocator demo_capacities misnamed)" by code_simp
  then have s: "replay demo_allocator demo_capacities misnamed = Ok s" by (auto simp: s_def is_ok_iff)
  have facts: "case replay demo_allocator demo_capacities misnamed of Inl e \<Rightarrow> False
      | Inr t \<Rightarrow> fmlookup (events_by_idempotency t) ''k2'' = None \<and> validate_disposition t ?a = Ok () \<and> generation t = 1"
    by code_simp
  have "append_loop demo_allocator demo_capacities validate_unreviewed_disposition ''k2''
      (operation_digest_of demo_allocator ''k2'' (Disposition ''base'' None ?a)) (Disposition ''base'' None ?a)
      (publish_head_hint s misnamed) s = None" (is "?loop = None")
  proof (cases ?loop)
    case (Some y)
    then show ?thesis
      using facts s
      by (auto intro: append_loop_stuck [OF Some] simp: publish_head_hint_def replay_hint misnamed_def)
  qed
  then have "disposition_unreviewed demo_allocator demo_capacities ''base'' ?a ''k2'' misnamed NoCache = None"
    using s by (simp add: disposition_unreviewed_def append_def replay_cache_locked_def)
  moreover have "is_ok (full_replay demo_allocator demo_capacities misnamed)" by code_simp
  ultimately show ?thesis using ok by simp
qed

section \<open>Capacities\<close>

definition plain_group :: allocator_configuration where
  "plain_group =
     \<lparr>ac_schema = allocator_configuration_schema, ac_schema_version = 0,
      ac_capacities = [\<lparr>rc_schema = rate_limit_capacity_schema, rc_schema_version = 0, group_id = ''api'', capacity = 2\<rparr>]\<rparr>"

text \<open>
  A configuration with a group id that is not namespaced is accepted when the allocator is opened, but the evaluator
  reports the group with every candidate, so that no reservation at all can be granted.
\<close>

theorem plain_group_refuses_everything:
  "validate_configuration plain_group = Ok () \<and> (\<nexists>d r idx x. grant_indexed_reservation d r idx (ac_capacities plain_group) = Ok x)"
proof -
  have "validate_configuration plain_group = Ok ()" by code_simp
  moreover have "\<not> capacities_ok (ac_capacities plain_group)" by code_simp
  then have "capacity_findings (reservation_id r) {} (ac_capacities plain_group) \<noteq> []" for r :: resource_reservation
    by (simp add: capacity_findings_Nil)
  then have "grant_indexed_reservation d r idx (ac_capacities plain_group) \<noteq> Ok x" for d r idx x
    by (simp add: grant_indexed_reservation_def granted_or_def Let_def grant_findings_def)
  ultimately show ?thesis by blast
qed

end
