(* ===== verification/Topology_Patch.thy ===== *)
theory Topology_Patch
  imports Topology_Contract
begin

text \<open>
  Patches of \<open>src/dynamic_expansion.rs\<close>: validation of a patch against its base, canonical order,
  application, and the difference between two topologies; and what they promise: an accepted patch has
  exactly the effect it lists, and the reported difference lists exactly that effect.
\<close>

section \<open>Definitions\<close>

record topology_patch =
  patch_schema :: string
  patch_schema_version :: nat
  added_nodes :: "topology_node list"
  removed_node_ids :: "string list"
  updated_nodes :: "topology_node list"
  added_edges :: "topology_edge list"
  removed_edge_ids :: "string list"

record topology_patch_diff =
  diff_added_node_ids :: "string list"
  diff_removed_node_ids :: "string list"
  diff_updated_node_ids :: "string list"
  diff_added_edge_ids :: "string list"
  diff_removed_edge_ids :: "string list"

record expansion_finding =
  ef_code :: string
  ef_detail :: string

definition topology_patch_schema :: string where
  "topology_patch_schema = ''casegraphen.experimental.topology.patch.v0''"

definition topology_patch_schema_version :: nat where
  "topology_patch_schema_version = 0"

definition one_finding :: "string \<Rightarrow> string \<Rightarrow> expansion_finding" where
  "one_finding code detail = \<lparr>ef_code = code, ef_detail = detail\<rparr>"

definition push_when :: "bool \<Rightarrow> string \<Rightarrow> string \<Rightarrow> expansion_finding list" where
  "push_when b code detail = (if b then [one_finding code detail] else [])"

definition expansion_finding_key :: "expansion_finding \<Rightarrow> string \<times> string" where
  "expansion_finding_key f = (ef_code f, ef_detail f)"

definition sort_expansion_findings :: "expansion_finding list \<Rightarrow> expansion_finding list" where
  "sort_expansion_findings fs = sort_key expansion_finding_key fs"

definition validate_operation_ids :: "string \<Rightarrow> string \<Rightarrow> string list \<Rightarrow> expansion_finding list" where
  "validate_operation_ids operation kind ids =
     push_when (\<exists>i\<in>set ids. blank i) ''empty_patch_id'' (operation @ '' '' @ kind @ '' id must not be empty'')
     @ push_when (card (set ids) \<noteq> length ids) ''duplicate_patch_id''
         (operation @ '' '' @ kind @ '' ids must be unique'')"

definition validate_entity_operations ::
  "string list \<Rightarrow> string list \<Rightarrow> string list \<Rightarrow> string set \<Rightarrow> string \<Rightarrow> expansion_finding list" where
  "validate_entity_operations added updated removed existing kind =
     validate_operation_ids ''added'' kind added
     @ validate_operation_ids ''updated'' kind updated
     @ validate_operation_ids ''removed'' kind removed
     @ concat (map (\<lambda>i. push_when (i \<in> existing) ''patch_addition_exists'' (kind @ '' '' @ i @ '' already exists'')) added)
     @ concat (map (\<lambda>i. push_when (i \<notin> existing) ''patch_target_missing'' (kind @ '' '' @ i @ '' does not exist''))
         (updated @ removed))
     @ push_when (card (set (added @ updated @ removed)) \<noteq> length (added @ updated @ removed))
         ''conflicting_patch_operations'' (kind @ '' id occurs in multiple operations'')"

definition nodes_by_id :: "execution_topology \<Rightarrow> (string, topology_node) fmap" where
  "nodes_by_id t = collect_map (map (\<lambda>n. (tn_node_id n, n)) (topo_nodes t))"

definition edges_by_id :: "execution_topology \<Rightarrow> (string, topology_edge) fmap" where
  "edges_by_id t = collect_map (map (\<lambda>e. (te_edge_id e, e)) (topo_edges t))"

definition validate_patch :: "execution_topology \<Rightarrow> topology_patch \<Rightarrow> expansion_finding list" where
  "validate_patch base patch =
     push_when (patch_schema patch \<noteq> topology_patch_schema \<or> patch_schema_version patch \<noteq> topology_patch_schema_version)
       ''unsupported_topology_patch_schema'' ''schema/version must name topology.patch.v0''
     @ validate_entity_operations (map tn_node_id (added_nodes patch)) (map tn_node_id (updated_nodes patch))
         (removed_node_ids patch) (set (btree_keys (nodes_by_id base))) ''node''
     @ validate_entity_operations (map te_edge_id (added_edges patch)) []
         (removed_edge_ids patch) (set (btree_keys (edges_by_id base))) ''edge''
     @ concat (map (\<lambda>n. push_when (fmlookup (nodes_by_id base) (tn_node_id n) = Some n) ''no_op_node_update''
         (''updated node '' @ tn_node_id n @ '' is unchanged'')) (updated_nodes patch))
     @ push_when (added_nodes patch = [] \<and> removed_node_ids patch = [] \<and> updated_nodes patch = [] \<and>
         added_edges patch = [] \<and> removed_edge_ids patch = [])
         ''empty_topology_patch'' ''topology patch must contain at least one operation''"

definition canonical_topology_patch ::
  "execution_topology \<Rightarrow> topology_patch \<Rightarrow> (expansion_finding list, topology_patch) result" where
  "canonical_topology_patch base patch =
     (let findings = validate_patch base patch in
      if findings \<noteq> [] then Err (sort_expansion_findings findings)
      else Ok (patch\<lparr>added_nodes := sort_key tn_node_id (added_nodes patch),
                     removed_node_ids := sort (removed_node_ids patch),
                     updated_nodes := sort_key tn_node_id (updated_nodes patch),
                     added_edges := sort_key te_edge_id (added_edges patch),
                     removed_edge_ids := sort (removed_edge_ids patch)\<rparr>))"

definition topology_diff :: "execution_topology \<Rightarrow> execution_topology \<Rightarrow> topology_patch_diff" where
  "topology_diff before after =
     (let bn = nodes_by_id before; an = nodes_by_id after; be = edges_by_id before; ae = edges_by_id after in
      \<lparr>diff_added_node_ids = filter (\<lambda>i. fmlookup bn i = None) (btree_keys an),
       diff_removed_node_ids = filter (\<lambda>i. fmlookup an i = None) (btree_keys bn),
       diff_updated_node_ids = filter (\<lambda>i. fmlookup bn i \<noteq> None \<and> fmlookup bn i \<noteq> fmlookup an i) (btree_keys an),
       diff_added_edge_ids = filter (\<lambda>i. fmlookup be i = None) (btree_keys ae),
       diff_removed_edge_ids = filter (\<lambda>i. fmlookup ae i = None) (btree_keys be)\<rparr>)"

definition patched_topology :: "execution_topology \<Rightarrow> topology_patch \<Rightarrow> execution_topology" where
  "patched_topology base patch =
     (let edges = fold fmdrop (removed_edge_ids patch) (edges_by_id base);
          nodes = fold fmdrop (removed_node_ids patch) (nodes_by_id base);
          nodes = fold (\<lambda>n. fmupd (tn_node_id n) n) (updated_nodes patch) nodes;
          nodes = fold (\<lambda>n. fmupd (tn_node_id n) n) (added_nodes patch) nodes;
          edges = fold (\<lambda>e. fmupd (te_edge_id e) e) (added_edges patch) edges
      in base\<lparr>topo_nodes := btree_values nodes, topo_edges := btree_values edges\<rparr>)"

definition apply_canonical_topology_patch ::
  "execution_topology \<Rightarrow> topology_patch \<Rightarrow> (expansion_finding list, execution_topology \<times> topology_patch_diff) result" where
  "apply_canonical_topology_patch base patch =
     (let after = patched_topology base patch; findings = validate_execution_topology after in
      if findings \<noteq> [] then
        Err (map (\<lambda>f. one_finding ''invalid_patched_topology''
          (tf_code f @ '' at '' @ tf_location f @ '': '' @ tf_detail f)) findings)
      else Ok (after, topology_diff base after))"

definition apply_topology_patch ::
  "execution_topology \<Rightarrow> topology_patch \<Rightarrow> (expansion_finding list, execution_topology \<times> topology_patch_diff) result" where
  "apply_topology_patch base patch =
     rbind (canonical_topology_patch base patch) (apply_canonical_topology_patch base)"

section \<open>What a valid patch lists\<close>

definition operations_ok :: "string list \<Rightarrow> string list \<Rightarrow> string list \<Rightarrow> string set \<Rightarrow> bool" where
  "operations_ok added updated removed existing \<longleftrightarrow>
     distinct (added @ updated @ removed) \<and> (\<forall>i\<in>set (added @ updated @ removed). \<not> blank i) \<and>
     set added \<inter> existing = {} \<and> set updated \<subseteq> existing \<and> set removed \<subseteq> existing"

lemma push_when_Nil: "push_when b c d = [] \<longleftrightarrow> \<not> b"
  by (simp add: push_when_def)

lemma push_each_Nil: "concat (map (\<lambda>x. push_when (P x) c (d x)) xs) = [] \<longleftrightarrow> (\<forall>x\<in>set xs. \<not> P x)"
  by (auto simp: push_when_def)

lemma card_set_length: "card (set xs) = length xs \<longleftrightarrow> distinct xs"
  by (metis card_distinct distinct_card)

lemma validate_operation_ids_Nil:
  "validate_operation_ids op kind ids = [] \<longleftrightarrow> (\<forall>i\<in>set ids. \<not> blank i) \<and> distinct ids"
  by (simp add: validate_operation_ids_def push_when_Nil card_set_length)

lemma validate_entity_operations_Nil:
  "validate_entity_operations added updated removed existing kind = [] \<longleftrightarrow>
   operations_ok added updated removed existing"
proof -
  have "validate_entity_operations added updated removed existing kind = [] \<longleftrightarrow>
    ((\<forall>i\<in>set added. \<not> blank i) \<and> distinct added) \<and> ((\<forall>i\<in>set updated. \<not> blank i) \<and> distinct updated) \<and>
    ((\<forall>i\<in>set removed. \<not> blank i) \<and> distinct removed) \<and> (\<forall>i\<in>set added. i \<notin> existing) \<and>
    (\<forall>i\<in>set (updated @ removed). \<not> i \<notin> existing) \<and> distinct (added @ updated @ removed)"
    unfolding validate_entity_operations_def append_is_Nil_conv validate_operation_ids_Nil push_each_Nil push_when_Nil
      card_set_length not_not ..
  then show ?thesis unfolding operations_ok_def by auto
qed

definition patch_ok :: "execution_topology \<Rightarrow> topology_patch \<Rightarrow> bool" where
  "patch_ok base patch \<longleftrightarrow>
     operations_ok (map tn_node_id (added_nodes patch)) (map tn_node_id (updated_nodes patch)) (removed_node_ids patch)
       (tn_node_id ` set (topo_nodes base)) \<and>
     operations_ok (map te_edge_id (added_edges patch)) [] (removed_edge_ids patch) (te_edge_id ` set (topo_edges base)) \<and>
     (\<forall>n\<in>set (updated_nodes patch). fmlookup (nodes_by_id base) (tn_node_id n) \<noteq> Some n)"

lemma by_id_dom:
  "fmlookup (nodes_by_id t) i \<noteq> None \<longleftrightarrow> i \<in> tn_node_id ` set (topo_nodes t)"
  "fmlookup (edges_by_id t) i \<noteq> None \<longleftrightarrow> i \<in> te_edge_id ` set (topo_edges t)"
  by (auto simp: nodes_by_id_def edges_by_id_def lookup_collect_map map_of_eq_None_iff image_iff
      simp flip: rev_map)

lemma by_id_keys:
  "set (btree_keys (nodes_by_id t)) = tn_node_id ` set (topo_nodes t)"
  "set (btree_keys (edges_by_id t)) = te_edge_id ` set (topo_edges t)"
  by (intro set_eqI; simp only: set_btree_keys by_id_dom)+

lemma validate_patch_Nil: "validate_patch base patch = [] \<Longrightarrow> patch_ok base patch"
  unfolding validate_patch_def append_is_Nil_conv validate_entity_operations_Nil push_each_Nil patch_ok_def by_id_keys
  by blast

section \<open>Maps keyed by the id of their values\<close>

definition keyed :: "('v \<Rightarrow> 'k) \<Rightarrow> ('k, 'v) fmap \<Rightarrow> bool" where
  "keyed key m \<longleftrightarrow> (\<forall>k v. fmlookup m k = Some v \<longrightarrow> key v = k)"

lemma keyed_fmupd: "keyed key m \<Longrightarrow> keyed key (fmupd (key v) v m)"
  by (auto simp: keyed_def)

lemma keyed_fmdrop: "keyed key m \<Longrightarrow> keyed key (fmdrop k m)"
  by (auto simp: keyed_def)

lemma keyed_fold:
  "keyed key m \<Longrightarrow> keyed key (fold (\<lambda>v. fmupd (key v) v) vs m)"
  "keyed key m \<Longrightarrow> keyed key (fold fmdrop ks m)"
  by (induction vs arbitrary: m) (auto intro: keyed_fmupd,
      induction ks arbitrary: m, auto intro: keyed_fmdrop)

lemma keyed_by_id: "keyed tn_node_id (nodes_by_id t)" "keyed te_edge_id (edges_by_id t)"
  by (auto simp: keyed_def nodes_by_id_def edges_by_id_def lookup_collect_map rev_map dest: map_of_SomeD)

lemma btree_keys_sorted: "sorted (btree_keys m)" "distinct (btree_keys m)"
  by (simp_all add: btree_keys_def sorted_list_of_fmap_def comp_def sorted_list_of_fset.rep_eq)

lemma filter_btree_keys [simp]: "sorted (filter P (btree_keys m))" "distinct (filter P (btree_keys m))"
  by (simp_all add: btree_keys_sorted sorted_wrt_filter)

lemma keyed_values: "keyed key m \<Longrightarrow> map (\<lambda>v. (key v, v)) (btree_values m) = sorted_list_of_fmap m"
  by (auto simp: keyed_def btree_values_def sorted_list_of_fmap_def comp_def fmlookup_dom_iff intro!: map_cong)

lemma lookup_collect_values:
  assumes "keyed key m"
  shows "fmlookup (collect_map (map (\<lambda>v. (key v, v)) (btree_values m))) k = fmlookup m k"
proof -
  have "distinct (map fst (sorted_list_of_fmap m))" using btree_keys_sorted(2) [of m] by (simp add: btree_keys_def)
  then show ?thesis by (simp add: keyed_values [OF assms] lookup_collect_distinct)
qed

lemma lookup_fold_upd:
  "fmlookup (fold (\<lambda>v. fmupd (key v) v) vs m) k =
   (case map_of (map (\<lambda>v. (key v, v)) (rev vs)) k of Some v \<Rightarrow> Some v | None \<Rightarrow> fmlookup m k)"
  by (induction vs rule: rev_induct) auto

lemma lookup_fold_drop: "fmlookup (fold fmdrop ks m) k = (if k \<in> set ks then None else fmlookup m k)"
  by (induction ks arbitrary: m) auto

section \<open>Effect of a patch\<close>

text \<open>What a patch makes of the entity with a given id: added or replaced, removed, or kept.\<close>

definition entity_after :: "('v \<Rightarrow> 'k) \<Rightarrow> 'v list \<Rightarrow> 'k list \<Rightarrow> ('k, 'v) fmap \<Rightarrow> 'k \<Rightarrow> 'v option" where
  "entity_after key upserted removed m k =
     (case find (\<lambda>v. key v = k) upserted of
        Some v \<Rightarrow> Some v
      | None \<Rightarrow> if k \<in> set removed then None else fmlookup m k)"

lemma map_of_find: "map_of (map (\<lambda>v. (key v, v)) vs) k = find (\<lambda>v. key v = k) vs"
  by (induction vs) auto

lemma find_key_Some:
  assumes "distinct (map key vs)"
  shows "find (\<lambda>v. key v = k) vs = Some v \<longleftrightarrow> v \<in> set vs \<and> key v = k"
  using assms find_key_distinct find_key_SomeD by metis

text \<open>With distinct keys the result does not depend on the order the patch lists its entities in.\<close>

lemma find_key_perm:
  assumes "distinct (map key vs)" "mset ws = mset vs"
  shows "find (\<lambda>v. key v = k) ws = find (\<lambda>v. key v = k) vs"
proof -
  have "distinct (map key ws)" by (metis assms mset_map mset_eq_imp_distinct_iff)
  moreover have "set ws = set vs" using assms(2) by (rule mset_eq_setD)
  ultimately have "find (\<lambda>v. key v = k) ws = Some v \<longleftrightarrow> find (\<lambda>v. key v = k) vs = Some v" for v
    using assms(1) by (simp add: find_key_Some)
  then show ?thesis by (metis option.exhaust)
qed

lemma lookup_upserts:
  assumes "distinct (map key (added @ updated))"
  shows "fmlookup (fold (\<lambda>v. fmupd (key v) v) (sort_key key added)
       (fold (\<lambda>v. fmupd (key v) v) (sort_key key updated) (fold fmdrop (sort removed) m))) k
    = entity_after key (added @ updated) removed m k"
proof -
  have "fold (\<lambda>v. fmupd (key v) v) (sort_key key added) (fold (\<lambda>v. fmupd (key v) v) (sort_key key updated) m')
    = fold (\<lambda>v. fmupd (key v) v) (sort_key key updated @ sort_key key added) m'" for m'
    by simp
  moreover have "find (\<lambda>v. key v = k) (rev (sort_key key updated @ sort_key key added))
    = find (\<lambda>v. key v = k) (added @ updated)"
    by (rule find_key_perm [OF assms]) simp
  ultimately show ?thesis
    by (simp only: lookup_fold_upd map_of_find lookup_fold_drop entity_after_def set_sort)
qed

text \<open>The ids of a keyed map that are new, gone or changed with respect to another one.\<close>

lemma diff_new:
  assumes "distinct (map key (added @ updated) @ removed)" "key ` set added \<inter> {k. fmlookup m k \<noteq> None} = {}"
    "key ` set updated \<subseteq> {k. fmlookup m k \<noteq> None}" "set removed \<subseteq> {k. fmlookup m k \<noteq> None}"
    and after: "\<And>k. fmlookup m' k = entity_after key (added @ updated) removed m k"
  shows "filter (\<lambda>k. fmlookup m k = None) (btree_keys m') = sort (map key added)"
    and "filter (\<lambda>k. fmlookup m' k = None) (btree_keys m) = sort removed"
    and "(\<And>v. v \<in> set updated \<Longrightarrow> fmlookup m (key v) \<noteq> Some v) \<Longrightarrow>
      filter (\<lambda>k. fmlookup m k \<noteq> None \<and> fmlookup m k \<noteq> fmlookup m' k) (btree_keys m') = sort (map key updated)"
proof -
  have find: "find (\<lambda>v. key v = k) (added @ updated) = None \<longleftrightarrow> k \<notin> key ` set (added @ updated)" for k
    by (rule find_key_None)
  have some: "find (\<lambda>v. key v = k) (added @ updated) = Some v \<longleftrightarrow> v \<in> set (added @ updated) \<and> key v = k" for k v
    by (rule find_key_Some) (use assms(1) in auto)
  have none: "fmlookup m' k = None \<longleftrightarrow> k \<notin> key ` set (added @ updated) \<and> (k \<in> set removed \<or> fmlookup m k = None)" for k
    using find [of k] by (auto simp: after entity_after_def split: option.splits)
  have uniq: "xs = sort ys" if "sorted xs" "distinct xs" "distinct ys" "set xs = set ys" for xs ys :: "'a::linorder list"
    using that by (intro sorted_distinct_set_unique) simp_all
  show "filter (\<lambda>k. fmlookup m k = None) (btree_keys m') = sort (map key added)"
  proof (rule uniq)
    show "set (filter (\<lambda>k. fmlookup m k = None) (btree_keys m')) = set (map key added)"
      using assms(2,3) none by (auto simp: set_btree_keys)
  qed (use assms(1) in simp_all)
  show "filter (\<lambda>k. fmlookup m' k = None) (btree_keys m) = sort removed"
  proof (rule uniq)
    show "set (filter (\<lambda>k. fmlookup m' k = None) (btree_keys m)) = set removed"
      using assms none by (auto simp: set_btree_keys)
  qed (use assms(1) in simp_all)
  assume changed: "\<And>v. v \<in> set updated \<Longrightarrow> fmlookup m (key v) \<noteq> Some v"
  show "filter (\<lambda>k. fmlookup m k \<noteq> None \<and> fmlookup m k \<noteq> fmlookup m' k) (btree_keys m') = sort (map key updated)"
  proof (rule uniq)
    show "set (filter (\<lambda>k. fmlookup m k \<noteq> None \<and> fmlookup m k \<noteq> fmlookup m' k) (btree_keys m')) = set (map key updated)"
    proof (rule set_eqI)
      fix k
      show "k \<in> set (filter (\<lambda>k. fmlookup m k \<noteq> None \<and> fmlookup m k \<noteq> fmlookup m' k) (btree_keys m')) \<longleftrightarrow>
        k \<in> set (map key updated)"
      proof (cases "k \<in> key ` set updated")
        case True
        then obtain v where v: "v \<in> set updated" "k = key v" by blast
        then have "fmlookup m' k = Some v" using some [of k v] by (simp add: after entity_after_def)
        moreover have "fmlookup m k \<noteq> None" using True assms(3) by blast
        ultimately show ?thesis using v changed [OF v(1)] by (simp add: set_btree_keys)
      next
        case False
        have "fmlookup m k = fmlookup m' k" if "fmlookup m k \<noteq> None" "fmlookup m' k \<noteq> None"
        proof -
          have "k \<notin> key ` set added" using that(1) assms(2) by blast
          with False find [of k] have none': "find (\<lambda>v. key v = k) (added @ updated) = None" by auto
          with that(2) show ?thesis by (auto simp: after entity_after_def split: if_splits)
        qed
        with False show ?thesis by (auto simp: set_btree_keys)
      qed
    qed
  qed (use assms(1) in simp_all)
qed

definition sorted_patch :: "topology_patch \<Rightarrow> topology_patch" where
  "sorted_patch patch =
     patch\<lparr>added_nodes := sort_key tn_node_id (added_nodes patch), removed_node_ids := sort (removed_node_ids patch),
           updated_nodes := sort_key tn_node_id (updated_nodes patch),
           added_edges := sort_key te_edge_id (added_edges patch), removed_edge_ids := sort (removed_edge_ids patch)\<rparr>"

lemma canonical_topology_patch_Ok:
  "canonical_topology_patch base patch = Ok patch' \<Longrightarrow> patch_ok base patch \<and> patch' = sorted_patch patch"
  by (auto simp: canonical_topology_patch_def sorted_patch_def Let_def split: if_splits intro: validate_patch_Nil)

lemma by_id_update:
  "nodes_by_id (t\<lparr>topo_nodes := ns, topo_edges := es\<rparr>) = collect_map (map (\<lambda>n. (tn_node_id n, n)) ns)"
  "edges_by_id (t\<lparr>topo_nodes := ns, topo_edges := es\<rparr>) = collect_map (map (\<lambda>e. (te_edge_id e, e)) es)"
  by (simp_all add: nodes_by_id_def edges_by_id_def)

lemma patched_lookup:
  assumes "patch_ok base patch"
  shows "fmlookup (nodes_by_id (patched_topology base (sorted_patch patch))) i
      = entity_after tn_node_id (added_nodes patch @ updated_nodes patch) (removed_node_ids patch) (nodes_by_id base) i"
    and "fmlookup (edges_by_id (patched_topology base (sorted_patch patch))) j
      = entity_after te_edge_id (added_edges patch) (removed_edge_ids patch) (edges_by_id base) j"
proof -
  let ?p = "sorted_patch patch"
  let ?nodes = "fold (\<lambda>n. fmupd (tn_node_id n) n) (added_nodes ?p)
    (fold (\<lambda>n. fmupd (tn_node_id n) n) (updated_nodes ?p) (fold fmdrop (removed_node_ids ?p) (nodes_by_id base)))"
  let ?edges = "fold (\<lambda>e. fmupd (te_edge_id e) e) (added_edges ?p) (fold fmdrop (removed_edge_ids ?p) (edges_by_id base))"
  have "keyed tn_node_id ?nodes" "keyed te_edge_id ?edges" by (intro keyed_fold keyed_by_id)+
  then have "fmlookup (nodes_by_id (patched_topology base ?p)) i = fmlookup ?nodes i"
    "fmlookup (edges_by_id (patched_topology base ?p)) j = fmlookup ?edges j"
    unfolding patched_topology_def Let_def by_id_update by (simp_all only: lookup_collect_values)
  moreover have "distinct (map tn_node_id (added_nodes patch @ updated_nodes patch))"
    "distinct (map te_edge_id (added_edges patch @ []))"
    using assms by (auto simp: patch_ok_def operations_ok_def)
  ultimately show "fmlookup (nodes_by_id (patched_topology base ?p)) i
      = entity_after tn_node_id (added_nodes patch @ updated_nodes patch) (removed_node_ids patch) (nodes_by_id base) i"
    "fmlookup (edges_by_id (patched_topology base ?p)) j
      = entity_after te_edge_id (added_edges patch) (removed_edge_ids patch) (edges_by_id base) j"
    using lookup_upserts [of tn_node_id "added_nodes patch" "updated_nodes patch" "removed_node_ids patch" "nodes_by_id base" i]
      lookup_upserts [of te_edge_id "added_edges patch" "[]" "removed_edge_ids patch" "edges_by_id base" j]
    by (simp_all add: sorted_patch_def)
qed

lemma apply_topology_patch_Ok:
  assumes "apply_topology_patch base patch = Ok (after, diff)"
  shows "patch_ok base patch" "after = patched_topology base (sorted_patch patch)" "topology_ok after"
    "diff = topology_diff base after"
  using assms
  by (auto simp: apply_topology_patch_def apply_canonical_topology_patch_def Let_def
      simp flip: contract_accepts elim!: rbindE dest!: canonical_topology_patch_Ok split: if_splits)

lemma patch_diff:
  assumes ok: "patch_ok base patch" and after: "after = patched_topology base (sorted_patch patch)"
  shows "topology_diff base after =
    \<lparr>diff_added_node_ids = sort (map tn_node_id (added_nodes patch)), diff_removed_node_ids = sort (removed_node_ids patch),
     diff_updated_node_ids = sort (map tn_node_id (updated_nodes patch)),
     diff_added_edge_ids = sort (map te_edge_id (added_edges patch)), diff_removed_edge_ids = sort (removed_edge_ids patch)\<rparr>"
proof -
  have n: "distinct (map tn_node_id (added_nodes patch @ updated_nodes patch) @ removed_node_ids patch)"
    "tn_node_id ` set (added_nodes patch) \<inter> {k. fmlookup (nodes_by_id base) k \<noteq> None} = {}"
    "tn_node_id ` set (updated_nodes patch) \<subseteq> {k. fmlookup (nodes_by_id base) k \<noteq> None}"
    "set (removed_node_ids patch) \<subseteq> {k. fmlookup (nodes_by_id base) k \<noteq> None}"
    using ok unfolding patch_ok_def operations_ok_def by_id_dom by auto
  have e: "distinct (map te_edge_id (added_edges patch @ []) @ removed_edge_ids patch)"
    "te_edge_id ` set (added_edges patch) \<inter> {k. fmlookup (edges_by_id base) k \<noteq> None} = {}"
    "te_edge_id ` set [] \<subseteq> {k. fmlookup (edges_by_id base) k \<noteq> None}"
    "set (removed_edge_ids patch) \<subseteq> {k. fmlookup (edges_by_id base) k \<noteq> None}"
    using ok unfolding patch_ok_def operations_ok_def by_id_dom by auto
  have "\<And>v. v \<in> set (updated_nodes patch) \<Longrightarrow> fmlookup (nodes_by_id base) (tn_node_id v) \<noteq> Some v"
    using ok by (simp add: patch_ok_def)
  note nodes = diff_new [OF n patched_lookup(1) [OF ok]] this
  have edge: "fmlookup (edges_by_id (patched_topology base (sorted_patch patch))) k
    = entity_after te_edge_id (added_edges patch @ []) (removed_edge_ids patch) (edges_by_id base) k" for k
    using patched_lookup(2) [OF ok] by simp
  note edges = diff_new(1,2) [OF e edge]
  show ?thesis
    unfolding topology_diff_def Let_def after
    by (simp only: nodes(1,2) nodes(3) [OF nodes(4)] edges)
qed

text \<open>
  Claim C18. An accepted patch does exactly what it lists: the result satisfies the topology contract and differs
  from the base in nodes and edges only; an id that the patch adds or updates names the given entity, an id it
  removes names nothing, every other id keeps its entity; and the reported difference is the lists of the patch, sorted.
\<close>

theorem patch_effect_exact:
  assumes "apply_topology_patch base patch = Ok (after, diff)"
  shows "topology_ok after \<and> after = base\<lparr>topo_nodes := topo_nodes after, topo_edges := topo_edges after\<rparr> \<and>
    (\<forall>i. fmlookup (nodes_by_id after) i
       = entity_after tn_node_id (added_nodes patch @ updated_nodes patch) (removed_node_ids patch) (nodes_by_id base) i) \<and>
    (\<forall>i. fmlookup (edges_by_id after) i
       = entity_after te_edge_id (added_edges patch) (removed_edge_ids patch) (edges_by_id base) i) \<and>
    diff = \<lparr>diff_added_node_ids = sort (map tn_node_id (added_nodes patch)), diff_removed_node_ids = sort (removed_node_ids patch),
      diff_updated_node_ids = sort (map tn_node_id (updated_nodes patch)),
      diff_added_edge_ids = sort (map te_edge_id (added_edges patch)), diff_removed_edge_ids = sort (removed_edge_ids patch)\<rparr>"
proof -
  note ok = apply_topology_patch_Ok [OF assms]
  have "after = base\<lparr>topo_nodes := topo_nodes after, topo_edges := topo_edges after\<rparr>"
    unfolding ok(2) patched_topology_def Let_def by simp
  then show ?thesis
    using ok(3,4) patched_lookup [OF ok(1)] patch_diff [OF ok(1,2)] ok(2) by simp
qed

end
