(* ===== verification/Graph_Search.thy ===== *)
theory Graph_Search
  imports CG_Text
begin

text \<open>
  The breadth-first search of \<open>src/graph_lint.rs\<close> (\<open>reachable_ignoring_edge\<close> and
  \<open>reachable_ignoring_edge_of_kind\<close>, which differ in the edges they skip) and its correctness: on an
  adjacency table whose targets are in range it ends, never indexes out of bounds, and answers whether
  there is a non-empty path of kept edges. A panic of the source is the value \<open>None\<close>.
\<close>

section \<open>The search\<close>

type_synonym adjacency = "(nat \<times> nat) list list"

text \<open>
  One pass over the outgoing edges of a node. \<open>keep\<close> says whether an edge index counts (\<open>None\<close>: looking it
  up panics); \<open>Inl ()\<close> is the early \<open>return true\<close>.
\<close>

fun scan_edges ::
  "(nat \<Rightarrow> bool option) \<Rightarrow> nat \<Rightarrow> (nat \<times> nat) list \<Rightarrow> bool list \<times> nat list
   \<Rightarrow> (unit + bool list \<times> nat list) option" where
  "scan_edges keep goal [] st = Some (Inr st)"
| "scan_edges keep goal ((succ, e) # es) (seen, queue) =
     (case keep e of
        None \<Rightarrow> None
      | Some False \<Rightarrow> scan_edges keep goal es (seen, queue)
      | Some True \<Rightarrow>
          if succ = goal then Some (Inl ())
          else if succ \<ge> length seen then None
          else if seen ! succ then scan_edges keep goal es (seen, queue)
          else scan_edges keep goal es (seen[succ := True], queue @ [succ]))"

lemma count_list_set_seen:
  "i < length seen \<Longrightarrow> \<not> seen ! i \<Longrightarrow> Suc (count_list (seen[i := True]) False) = count_list seen False"
  by (induction seen arbitrary: i) (auto split: nat.split)

lemma scan_edges_measure:
  "scan_edges keep goal es (seen, queue) = Some (Inr (seen', queue')) \<Longrightarrow>
   count_list seen' False + length queue' = count_list seen False + length queue"
proof (induction keep goal es "(seen, queue)" arbitrary: seen queue rule: scan_edges.induct)
  case (2 keep goal succ e es seen queue)
  then show ?case
    using count_list_set_seen [of succ seen]
    by (auto split: option.splits bool.splits if_splits)
qed simp

function search :: "(nat \<Rightarrow> bool option) \<Rightarrow> nat \<Rightarrow> adjacency \<Rightarrow> bool list \<Rightarrow> nat list \<Rightarrow> bool option" where
  "search keep goal adj seen [] = Some False"
| "search keep goal adj seen (node # queue) =
     (if node \<ge> length adj then None
      else case scan_edges keep goal (adj ! node) (seen, queue) of
        None \<Rightarrow> None
      | Some (Inl _) \<Rightarrow> Some True
      | Some (Inr (seen', queue')) \<Rightarrow> search keep goal adj seen' queue')"
  by pat_completeness auto
termination
  by (relation "measure (\<lambda>(keep, goal, adj, seen, queue). count_list seen False + length queue)")
    (auto dest: scan_edges_measure)

definition reachable_by :: "(nat \<Rightarrow> bool option) \<Rightarrow> nat \<Rightarrow> nat \<Rightarrow> adjacency \<Rightarrow> bool option" where
  "reachable_by keep start goal adj =
     (if start \<ge> length adj then None
      else search keep goal adj ((replicate (length adj) False)[start := True]) [start])"

section \<open>Correctness\<close>

text \<open>The kept edges as a relation, and the tables the search is meant for.\<close>

definition kept :: "(nat \<Rightarrow> bool option) \<Rightarrow> adjacency \<Rightarrow> (nat \<times> nat) set" where
  "kept keep adj = {(a, b). a < length adj \<and> (\<exists>e. (b, e) \<in> set (adj ! a) \<and> keep e = Some True)}"

definition in_range :: "adjacency \<Rightarrow> bool" where
  "in_range adj \<longleftrightarrow> (\<forall>es\<in>set adj. \<forall>(b, e)\<in>set es. b < length adj)"

definition keep_total :: "(nat \<Rightarrow> bool option) \<Rightarrow> adjacency \<Rightarrow> bool" where
  "keep_total keep adj \<longleftrightarrow> (\<forall>es\<in>set adj. \<forall>(b, e)\<in>set es. keep e \<noteq> None)"

definition seen_set :: "bool list \<Rightarrow> nat set" where
  "seen_set seen = {i. i < length seen \<and> seen ! i}"

lemma seen_set_update: "i < length seen \<Longrightarrow> seen_set (seen[i := True]) = insert i (seen_set seen)"
  by (auto simp: seen_set_def nth_list_update)

definition targets :: "(nat \<Rightarrow> bool option) \<Rightarrow> (nat \<times> nat) list \<Rightarrow> nat set" where
  "targets keep es = {b. \<exists>e. (b, e) \<in> set es \<and> keep e = Some True}"

lemma targets_simps [simp]:
  "targets keep [] = {}"
  "targets keep ((b, e) # es) = (if keep e = Some True then insert b (targets keep es) else targets keep es)"
  by (auto simp: targets_def)

lemma scan_edges_found:
  assumes "\<forall>(b, e)\<in>set es. b < length seen \<and> keep e \<noteq> None" "goal \<in> targets keep es"
  shows "scan_edges keep goal es (seen, queue) = Some (Inl ())"
  using assms
  by (induction keep goal es "(seen, queue)" arbitrary: seen queue rule: scan_edges.induct)
    (auto split: option.splits bool.splits)

lemma scan_edges_through:
  assumes "\<forall>(b, e)\<in>set es. b < length seen \<and> keep e \<noteq> None" "goal \<notin> targets keep es"
  shows "\<exists>seen' new. scan_edges keep goal es (seen, queue) = Some (Inr (seen', queue @ new)) \<and>
      length seen' = length seen \<and> seen_set seen' = seen_set seen \<union> targets keep es \<and>
      set new = targets keep es - seen_set seen"
  using assms
proof (induction es arbitrary: seen queue)
  case (Cons be es)
  obtain b e where be: "be = (b, e)" by fastforce
  have b: "b < length seen" "keep e \<noteq> None" and rest: "\<forall>(b, e)\<in>set es. b < length seen \<and> keep e \<noteq> None"
    using Cons.prems be by auto
  have goal: "goal \<notin> targets keep es" and bgoal: "keep e = Some True \<Longrightarrow> b \<noteq> goal"
    using Cons.prems(2) be by (auto split: if_splits)
  consider "keep e = Some False" | "keep e = Some True" "seen ! b" | "keep e = Some True" "\<not> seen ! b"
    using b by (cases "keep e") auto
  then show ?case
  proof cases
    case 1
    with Cons.IH [OF rest goal, of queue] show ?thesis by (simp add: be)
  next
    case 2
    then have "b \<in> seen_set seen" using b by (simp add: seen_set_def)
    with Cons.IH [OF rest goal, of queue] 2 b bgoal show ?thesis
      by (simp add: be insert_absorb insert_Diff_if)
  next
    case 3
    then have nb: "b \<notin> seen_set seen" by (simp add: seen_set_def)
    have "\<forall>(b', e)\<in>set es. b' < length (seen[b := True]) \<and> keep e \<noteq> None" using rest by simp
    from Cons.IH [OF this goal, of "queue @ [b]"] obtain seen' new where
      "scan_edges keep goal es (seen[b := True], queue @ [b]) = Some (Inr (seen', queue @ [b] @ new))"
      "length seen' = length seen" "seen_set seen' = insert b (seen_set seen) \<union> targets keep es"
      "set new = targets keep es - insert b (seen_set seen)"
      using b by (auto simp: seen_set_update)
    then show ?thesis using 3 b bgoal nb
      by (intro exI [of _ seen'] exI [of _ "b # new"]) (auto simp: be)
  qed
qed simp

lemma kept_targets: "a < length adj \<Longrightarrow> (a, b) \<in> kept keep adj \<longleftrightarrow> b \<in> targets keep (adj ! a)"
  by (simp add: kept_def targets_def)

text \<open>
  The loop invariant: what is marked was reached from the start, what is marked and no longer queued has
  all its successors marked, none of them the goal.
\<close>

definition search_inv ::
  "(nat \<Rightarrow> bool option) \<Rightarrow> nat \<Rightarrow> nat \<Rightarrow> adjacency \<Rightarrow> bool list \<Rightarrow> nat list \<Rightarrow> bool" where
  "search_inv keep start goal adj seen queue \<longleftrightarrow>
     length seen = length adj \<and> start \<in> seen_set seen \<and> set queue \<subseteq> seen_set seen \<and>
     seen_set seen \<subseteq> (kept keep adj)\<^sup>* `` {start} \<and>
     (\<forall>a\<in>seen_set seen - set queue. \<forall>b. (a, b) \<in> kept keep adj \<longrightarrow> b \<in> seen_set seen \<and> b \<noteq> goal)"

lemma search_inv_head:
  assumes "search_inv keep start goal adj seen (node # queue)"
  shows "node \<in> seen_set seen" "node < length adj" "(start, node) \<in> (kept keep adj)\<^sup>*"
proof -
  have "set (node # queue) \<subseteq> seen_set seen" using assms unfolding search_inv_def by blast
  then show node: "node \<in> seen_set seen" by simp
  have "length seen = length adj" using assms unfolding search_inv_def by blast
  with node show "node < length adj" unfolding seen_set_def by simp
  from node show "(start, node) \<in> (kept keep adj)\<^sup>*" using assms unfolding search_inv_def by blast
qed

lemma search_inv_scan:
  assumes inv: "search_inv keep start goal adj seen (node # queue)"
    and through: "length seen' = length seen" "seen_set seen' = seen_set seen \<union> targets keep (adj ! node)"
      "set new = targets keep (adj ! node) - seen_set seen" "goal \<notin> targets keep (adj ! node)"
  shows "search_inv keep start goal adj seen' (queue @ new)"
proof -
  let ?K = "kept keep adj"
  note node = search_inv_head(1,2) [OF inv]
  have succs: "(node, b) \<in> ?K \<longleftrightarrow> b \<in> targets keep (adj ! node)" for b
    using node(2) by (rule kept_targets)
  have "targets keep (adj ! node) \<subseteq> ?K\<^sup>* `` {start}"
    using succs search_inv_head(3) [OF inv] by (blast intro: rtrancl_into_rtrancl)
  moreover have "b \<in> seen_set seen' \<and> b \<noteq> goal"
    if "a \<in> seen_set seen' - set (queue @ new)" "(a, b) \<in> ?K" for a b
  proof (cases "a = node")
    case True
    with that succs through show ?thesis by blast
  next
    case False
    with that through have "a \<in> seen_set seen - set (node # queue)" by auto
    with inv that(2) have "b \<in> seen_set seen \<and> b \<noteq> goal" unfolding search_inv_def by blast
    with through(2) show ?thesis by blast
  qed
  moreover have "length seen = length adj" "start \<in> seen_set seen" "set (node # queue) \<subseteq> seen_set seen"
    "seen_set seen \<subseteq> ?K\<^sup>* `` {start}"
    using inv unfolding search_inv_def by blast+
  ultimately show ?thesis unfolding search_inv_def through(1-3) set_append by (intro conjI ballI allI impI) auto
qed

lemma search_correct:
  assumes "in_range adj" "keep_total keep adj" "search_inv keep start goal adj seen queue"
  shows "search keep goal adj seen queue = Some ((start, goal) \<in> (kept keep adj)\<^sup>+)"
  using assms(3)
proof (induction "count_list seen False + length queue" arbitrary: seen queue rule: less_induct)
  case less
  show ?case
  proof (cases queue)
    case Nil
    have closed: "b \<in> seen_set seen \<and> b \<noteq> goal" if "a \<in> seen_set seen" "(a, b) \<in> kept keep adj" for a b
      using less.prems that by (auto simp: search_inv_def Nil)
    have start: "start \<in> seen_set seen" using less.prems by (simp add: search_inv_def)
    have "b \<in> seen_set seen \<and> b \<noteq> goal" if "(start, b) \<in> (kept keep adj)\<^sup>+" for b
      using that by (induction rule: trancl_induct) (use closed start in blast)+
    then show ?thesis by (auto simp: Nil)
  next
    case (Cons node rest)
    have inv: "search_inv keep start goal adj seen (node # rest)" using less.prems by (simp add: Cons)
    note node = search_inv_head(2,1) [OF inv] and reached = search_inv_head(3) [OF inv]
    have len: "length seen = length adj" using inv by (simp add: search_inv_def)
    have total: "\<forall>(b, e)\<in>set (adj ! node). b < length seen \<and> keep e \<noteq> None"
      using assms(1,2) node len unfolding in_range_def keep_total_def by (fastforce dest: nth_mem)
    show ?thesis
    proof (cases "goal \<in> targets keep (adj ! node)")
      case True
      then have "(start, goal) \<in> (kept keep adj)\<^sup>+"
        using reached kept_targets [OF node(1)] by (blast intro: rtrancl_into_trancl1)
      with True node scan_edges_found [OF total True] show ?thesis by (simp add: Cons)
    next
      case False
      from scan_edges_through [OF total False] obtain seen' new where
        s: "scan_edges keep goal (adj ! node) (seen, rest) = Some (Inr (seen', rest @ new))"
        "length seen' = length seen" "seen_set seen' = seen_set seen \<union> targets keep (adj ! node)"
        "set new = targets keep (adj ! node) - seen_set seen" by blast
      have "search_inv keep start goal adj seen' (rest @ new)"
        by (rule search_inv_scan [OF inv s(2-4) False])
      moreover have "count_list seen' False + length (rest @ new) < count_list seen False + length queue"
        using scan_edges_measure [OF s(1)] by (simp add: Cons)
      ultimately have "search keep goal adj seen' (rest @ new) = Some ((start, goal) \<in> (kept keep adj)\<^sup>+)"
        using less.hyps by blast
      with s(1) node show ?thesis by (simp add: Cons)
    qed
  qed
qed

lemma reachable_by_correct:
  assumes "in_range adj" "keep_total keep adj" "start < length adj"
  shows "reachable_by keep start goal adj = Some ((start, goal) \<in> (kept keep adj)\<^sup>+)"
proof -
  let ?seen = "(replicate (length adj) False)[start := True]"
  have "seen_set ?seen = {start}" using assms(3) by (auto simp: seen_set_def nth_list_update)
  then have "search_inv keep start goal adj ?seen [start]" by (simp add: search_inv_def)
  from search_correct [OF assms(1,2) this] assms(3) show ?thesis by (simp add: reachable_by_def)
qed

end
