(* ===== verification/Graph_Sweep.thy ===== *)
theory Graph_Sweep
  imports Graph_Search
begin

text \<open>
  The topological sweep that \<open>dag_metrics\<close> and \<open>critical_path_ms\<close> of \<open>src/graph_lint.rs\<close> both run: a queue of
  the nodes without unprocessed predecessors, indegrees counted down, and one value per node that is
  raised along every edge. The two differ in the value (\<open>ext\<close>), and the first drains its queue level by
  level. An index out of range, an indegree decremented below zero or an empty queue that is popped is
  \<open>None\<close>. The locale \<open>sweep_values\<close> states what a value has to satisfy for the sweep to compute the
  greatest weight of a path into each node.
\<close>

section \<open>The loops\<close>

type_synonym 'v sweep_state = "nat list \<times> nat list \<times> 'v list"

definition relax_edge :: "('v::linorder \<Rightarrow> nat \<Rightarrow> 'v) \<Rightarrow> nat \<Rightarrow> nat \<Rightarrow> 'v sweep_state \<Rightarrow> 'v sweep_state option" where
  "relax_edge ext node succ st =
     (case st of (indegree, queue, vals) \<Rightarrow>
        if succ < length vals \<and> node < length vals \<and> succ < length indegree \<and> 0 < indegree ! succ then
          Some (indegree[succ := indegree ! succ - 1],
                if indegree ! succ - 1 = 0 then queue @ [succ] else queue,
                vals[succ := max (vals ! succ) (ext (vals ! node) succ)])
        else None)"

fun relax_edges :: "('v::linorder \<Rightarrow> nat \<Rightarrow> 'v) \<Rightarrow> nat \<Rightarrow> nat list \<Rightarrow> 'v sweep_state \<Rightarrow> 'v sweep_state option" where
  "relax_edges ext node [] st = Some st"
| "relax_edges ext node (succ # succs) st =
     (case relax_edge ext node succ st of None \<Rightarrow> None | Some st' \<Rightarrow> relax_edges ext node succs st')"

fun pop_front :: "('v::linorder \<Rightarrow> nat \<Rightarrow> 'v) \<Rightarrow> nat list list \<Rightarrow> 'v sweep_state \<Rightarrow> 'v sweep_state option" where
  "pop_front ext succs (indegree, [], vals) = None"
| "pop_front ext succs (indegree, node # queue, vals) =
     (if node < length succs then relax_edges ext node (succs ! node) (indegree, queue, vals) else None)"

definition pending :: "'v sweep_state \<Rightarrow> nat" where
  "pending st = (case st of (indegree, queue, vals) \<Rightarrow> sum_list indegree + length queue)"

lemma relax_edge_pending: "relax_edge ext node succ st = Some st' \<Longrightarrow> pending st' \<le> pending st"
proof (cases st)
  case (fields ind q vals)
  assume "relax_edge ext node succ st = Some st'"
  then show ?thesis
    using elem_le_sum_list [of succ ind]
    by (auto simp: relax_edge_def pending_def sum_list_update fields split: if_splits)
qed

lemma relax_edges_pending: "relax_edges ext node succs st = Some st' \<Longrightarrow> pending st' \<le> pending st"
proof (induction succs arbitrary: st)
  case (Cons s ss)
  then obtain st1 where "relax_edge ext node s st = Some st1" "relax_edges ext node ss st1 = Some st'"
    by (auto split: option.splits)
  with Cons.IH [of st1] show ?case using relax_edge_pending [of ext node s st st1] by simp
qed simp

lemma pop_front_pending: "pop_front ext succs st = Some st' \<Longrightarrow> pending st' < pending st"
  by (induction ext succs st rule: pop_front.induct)
    (auto simp: pending_def split: if_splits dest!: relax_edges_pending)

text \<open>\<open>while let Some(node) = queue.pop_front()\<close>.\<close>

function sweep :: "('v::linorder \<Rightarrow> nat \<Rightarrow> 'v) \<Rightarrow> nat list list \<Rightarrow> 'v sweep_state \<Rightarrow> 'v sweep_state option" where
  "sweep ext succs st =
     (if fst (snd st) = [] then Some st
      else case pop_front ext succs st of None \<Rightarrow> None | Some st' \<Rightarrow> sweep ext succs st')"
  by pat_completeness auto
termination
  by (relation "measure (\<lambda>(ext, succs, st). pending st)") (auto dest: pop_front_pending)

declare sweep.simps [simp del]

text \<open>\<open>for _ in 0..level\<close>, which also counts the nodes it processes.\<close>

fun drain ::
  "('v::linorder \<Rightarrow> nat \<Rightarrow> 'v) \<Rightarrow> nat list list \<Rightarrow> nat \<Rightarrow> nat \<times> 'v sweep_state \<Rightarrow> (nat \<times> 'v sweep_state) option" where
  "drain ext succs 0 st = Some st"
| "drain ext succs (Suc level) (processed, st) =
     (case pop_front ext succs st of None \<Rightarrow> None | Some st' \<Rightarrow> drain ext succs level (Suc processed, st'))"

lemma drain_pending:
  "drain ext succs level (processed, st) = Some (processed', st') \<Longrightarrow> pending st' \<le> pending st \<and>
   (0 < level \<longrightarrow> pending st' < pending st)"
  by (induction level arbitrary: processed st) (fastforce split: option.splits dest: pop_front_pending)+

function drain_levels ::
  "('v::linorder \<Rightarrow> nat \<Rightarrow> 'v) \<Rightarrow> nat list list \<Rightarrow> nat \<times> nat \<times> 'v sweep_state \<Rightarrow> (nat \<times> nat \<times> 'v sweep_state) option" where
  "drain_levels ext succs (width, processed, st) =
     (let level = length (fst (snd st)) in
      if level = 0 then Some (width, processed, st)
      else case drain ext succs level (processed, st) of
        None \<Rightarrow> None
      | Some (processed', st') \<Rightarrow> drain_levels ext succs (max width level, processed', st'))"
  by pat_completeness auto
termination
  by (relation "measure (\<lambda>(ext, succs, width, processed, st). pending st)") (auto dest: drain_pending)

declare drain_levels.simps [simp del]

section \<open>Effect of relaxing the edges of a node\<close>

lemma relax_edges_spec:
  assumes "length ind = N" "length vals = N" "x < N" "\<forall>s\<in>set ss. s < N" "x \<notin> set ss"
    and "\<forall>v\<in>set ss. count_list ss v \<le> ind ! v"
  shows "\<exists>ind' new vals'. relax_edges ext x ss (ind, q, vals) = Some (ind', q @ new, vals') \<and>
     length ind' = N \<and> length vals' = N \<and>
     (\<forall>v<N. ind' ! v = ind ! v - count_list ss v) \<and>
     (\<forall>v<N. vals' ! v = (if v \<in> set ss then max (vals ! v) (ext (vals ! x) v) else vals ! v)) \<and>
     distinct new \<and> set new = {v \<in> set ss. ind ! v = count_list ss v}"
  using assms
proof (induction ss arbitrary: ind q vals)
  case (Cons s ss)
  have s: "s < N" "s \<noteq> x" "0 < ind ! s" "count_list ss s \<le> ind ! s - 1"
    using Cons.prems by (auto split: if_splits)
  define ind1 where "ind1 = ind[s := ind ! s - 1]"
  define vals1 where "vals1 = vals[s := max (vals ! s) (ext (vals ! x) s)]"
  define q1 where "q1 = (if ind ! s - 1 = 0 then q @ [s] else q)"
  have ind1: "ind1 ! v = (if v = s then ind ! v - 1 else ind ! v)" if "v < N" for v
    using that Cons.prems(1) by (simp add: ind1_def nth_list_update)
  have vals1: "vals1 ! v = (if v = s then max (vals ! v) (ext (vals ! x) v) else vals ! v)" if "v < N" for v
    using that Cons.prems(2) by (simp add: vals1_def nth_list_update)
  have step: "relax_edges ext x (s # ss) (ind, q, vals) = relax_edges ext x ss (ind1, q1, vals1)"
    using Cons.prems s by (simp add: relax_edge_def ind1_def vals1_def q1_def)
  have bound: "\<forall>v\<in>set ss. count_list ss v \<le> ind1 ! v"
    using Cons.prems(4,6) s ind1 by (auto split: if_splits)
  obtain ind' new vals' where ih:
    "relax_edges ext x ss (ind1, q1, vals1) = Some (ind', q1 @ new, vals')" "length ind' = N" "length vals' = N"
    "\<forall>v<N. ind' ! v = ind1 ! v - count_list ss v"
    "\<forall>v<N. vals' ! v = (if v \<in> set ss then max (vals1 ! v) (ext (vals1 ! x) v) else vals1 ! v)"
    "distinct new" "set new = {v \<in> set ss. ind1 ! v = count_list ss v}"
    using Cons.IH [of ind1 vals1 q1] bound Cons.prems by (auto simp: ind1_def vals1_def)
  let ?first = "if ind ! s - 1 = 0 then [s] else []"
  have fresh: "s \<notin> set ss" if "ind ! s - 1 = 0"
    using s(4) that by (simp add: count_list_0_iff)
  have new: "set (?first @ new) = {v \<in> set (s # ss). ind ! v = count_list (s # ss) v}"
  proof (rule set_eqI)
    fix v
    show "v \<in> set (?first @ new) \<longleftrightarrow> v \<in> {v \<in> set (s # ss). ind ! v = count_list (s # ss) v}"
    proof (cases "v = s")
      case True
      have "s \<in> set new \<longleftrightarrow> s \<in> set ss \<and> ind ! s - 1 = count_list ss s"
        using ih(7) ind1 [OF s(1)] by simp
      moreover have "count_list ss s = 0 \<longleftrightarrow> s \<notin> set ss" by (simp add: count_list_0_iff)
      ultimately show ?thesis using s(3,4) True by (cases "ind ! s - 1 = 0") (simp_all, linarith+)
    next
      case False
      then show ?thesis using ih(7) ind1 [of v] Cons.prems(4) by auto
    qed
  qed
  have "distinct (?first @ new)" using ih(6,7) fresh by auto
  moreover have "relax_edges ext x (s # ss) (ind, q, vals) = Some (ind', q @ ?first @ new, vals')"
    using ih(1) step by (simp add: q1_def)
  moreover have "\<forall>v<N. ind' ! v = ind ! v - count_list (s # ss) v"
    using ih(4) ind1 by simp
  moreover have "\<forall>v<N. vals' ! v = (if v \<in> set (s # ss) then max (vals ! v) (ext (vals ! x) v) else vals ! v)"
    using ih(5) vals1 s Cons.prems(3) by (simp add: max.assoc)
  ultimately show ?case using ih(2,3) new by blast
qed simp

end
