(* ===== verification/Graph_Lint.thy ===== *)
theory Graph_Lint
  imports Execution_Topology Graph_Sweep
begin

text \<open>
  \<open>src/graph_lint.rs\<close>: the adjacency tables of a topology, its structural metrics, every finding of the
  linter in the order the code produces them, the sorted report and its text form. A panic (an index out
  of range, an indegree below zero, a topology that does not serialize) is the value \<open>None\<close>.
\<close>

section \<open>Data\<close>

datatype finding_classification = FcDeterministic | FcHeuristic

datatype lint_severity = LsError | LsWarning | LsInfo

record suggested_operation =
  so_operation :: string
  so_target_id :: "string option"
  so_parameters :: "(string, string) fmap"

record graph_lint_finding =
  gl_code :: string
  gl_classification :: finding_classification
  gl_severity :: lint_severity
  gl_location :: string
  gl_detail :: string
  gl_suggested_next_operation :: suggested_operation

record graph_lint_metrics =
  lm_node_count :: nat
  lm_edge_count :: nat
  lm_source_count :: nat
  lm_sink_count :: nat
  lm_theoretical_parallel_width :: nat
  lm_longest_path_nodes :: "nat option"
  lm_critical_path_ms :: "64 word option"
  lm_maximum_fan_in :: nat
  lm_maximum_fan_out :: nat

record graph_lint_report =
  lr_schema :: string
  lr_report_version :: nat
  lr_topology_id :: string
  lr_topology_content_hash :: string
  lr_metrics :: graph_lint_metrics
  lr_findings :: "graph_lint_finding list"

definition graph_lint_report_schema :: string where
  "graph_lint_report_schema = ''casegraphen.experimental.graph_lint.report.v0''"

definition is_deterministic_error :: "graph_lint_finding \<Rightarrow> bool" where
  "is_deterministic_error f \<longleftrightarrow> gl_classification f = FcDeterministic \<and> gl_severity f = LsError"

definition has_findings :: "graph_lint_report \<Rightarrow> bool" where
  "has_findings r \<longleftrightarrow> lr_findings r \<noteq> []"

definition suggested_operation_for :: "string \<Rightarrow> string" where
  "suggested_operation_for code =
     (if code = ''dependency_cycle'' then ''remove_or_reclassify_edge''
      else if code = ''redundant_reachability'' \<or> code = ''false_edge_candidate''
        \<or> code = ''removal_counterexample_no_change'' then ''review_edge_removal''
      else if code = ''unsafe_parallel_resource_conflict'' then ''add_resource_exclusion''
      else if code = ''fan_in_context_pressure'' then ''propose_hierarchical_reduction''
      else if code = ''barrier_on_pipeline_path'' then ''review_barrier_necessity''
      else if code = ''expansion_without_budget'' then ''attach_budget_policy''
      else if starts_with code ''contract_'' then ''repair_topology_contract''
      else ''review_finding'')"

definition lint_finding ::
  "string \<Rightarrow> finding_classification \<Rightarrow> lint_severity \<Rightarrow> string \<Rightarrow> string \<Rightarrow> graph_lint_finding" where
  "lint_finding code classification severity location detail =
     \<lparr>gl_code = code, gl_classification = classification, gl_severity = severity, gl_location = location,
      gl_detail = detail,
      gl_suggested_next_operation =
        \<lparr>so_operation = suggested_operation_for code, so_target_id = None, so_parameters = fmempty\<rparr>\<rparr>"

definition lint_when :: "bool \<Rightarrow> graph_lint_finding \<Rightarrow> graph_lint_finding list" where
  "lint_when b f = (if b then [f] else [])"

section \<open>Adjacency tables\<close>

definition node_index :: "execution_topology \<Rightarrow> string \<Rightarrow> nat option" where
  "node_index t = fold (\<lambda>(i, n) m. m(tn_node_id n \<mapsto> i)) (enumerate 0 (topo_nodes t)) Map.empty"

text \<open>\<open>xss[i].push(x)\<close>, which panics out of range, and a loop of such steps.\<close>

definition push_at :: "nat \<Rightarrow> 'a \<Rightarrow> 'a list list \<Rightarrow> 'a list list option" where
  "push_at i x xss = (if i < length xss then Some (xss[i := xss ! i @ [x]]) else None)"

fun fold_opt :: "('x \<Rightarrow> 's \<Rightarrow> 's option) \<Rightarrow> 'x list \<Rightarrow> 's \<Rightarrow> 's option" where
  "fold_opt f [] s = Some s"
| "fold_opt f (x # xs) s = (case f x s of None \<Rightarrow> None | Some s' \<Rightarrow> fold_opt f xs s')"

definition add_edge :: "(string \<Rightarrow> nat option) \<Rightarrow> nat \<times> topology_edge \<Rightarrow> adjacency \<times> adjacency \<Rightarrow> (adjacency \<times> adjacency) option" where
  "add_edge index ie st =
     (case (ie, st) of ((i, e), (adj, rvs)) \<Rightarrow>
        case (index (te_from e), index (te_to e)) of
          (Some a, Some b) \<Rightarrow>
            (case push_at a (b, i) adj of
               None \<Rightarrow> None
             | Some adj' \<Rightarrow> (case push_at b (a, i) rvs of None \<Rightarrow> None | Some rvs' \<Rightarrow> Some (adj', rvs')))
        | _ \<Rightarrow> Some (adj, rvs))"

definition graph_tables :: "execution_topology \<Rightarrow> (adjacency \<times> adjacency) option" where
  "graph_tables t =
     (let empty = replicate (length (topo_nodes t)) [] in
      case fold_opt (add_edge (node_index t)) (enumerate 0 (topo_edges t)) (empty, empty) of
        None \<Rightarrow> None
      | Some (adj, rvs) \<Rightarrow> Some (map sort adj, map sort rvs))"

section \<open>Metrics\<close>

definition sources_of :: "nat list \<Rightarrow> nat list" where
  "sources_of indegree = filter (\<lambda>i. indegree ! i = 0) [0..<length indegree]"

definition dag_metrics :: "adjacency \<Rightarrow> adjacency \<Rightarrow> (bool \<times> nat \<times> nat option) option" where
  "dag_metrics adj rvs =
     (let indegree = map length rvs; queue = sources_of indegree in
      case drain_levels (\<lambda>d _. Suc d) (map (map fst) adj)
             (length queue, 0, indegree, queue, replicate (length adj) (1 :: nat)) of
        None \<Rightarrow> None
      | Some (width, processed, _, _, distance) \<Rightarrow>
          let no_cycle = (processed = length adj) in
          Some (no_cycle, width,
            if no_cycle then Some (if distance = [] then 0 else Max (set distance)) else None))"

definition u64_saturating_add :: "64 word \<Rightarrow> 64 word \<Rightarrow> 64 word" where
  "u64_saturating_add a b = (if unat a + unat b < 2 ^ 64 then a + b else - 1)"

definition successors_of :: "nat \<Rightarrow> adjacency \<Rightarrow> nat list list option" where
  "successors_of n rvs =
     fold_opt (\<lambda>(b, preds). fold_opt (\<lambda>(a, _). push_at a b) preds) (enumerate 0 rvs) (replicate n [])"

definition critical_path_ms :: "execution_topology \<Rightarrow> adjacency \<Rightarrow> 64 word option option" where
  "critical_path_ms t rvs =
     (case those (map tn_estimated_duration_ms (topo_nodes t)) of
        None \<Rightarrow> Some None
      | Some durations \<Rightarrow>
          (let indegree = map length rvs in
           case successors_of (length (topo_nodes t)) rvs of
             None \<Rightarrow> None
           | Some successors \<Rightarrow>
               (case sweep (\<lambda>d next_node. u64_saturating_add d (durations ! next_node)) successors
                       (indegree, sources_of indegree, durations) of
                  None \<Rightarrow> None
                | Some (_, _, longest) \<Rightarrow> Some (if longest = [] then None else Some (Max (set longest))))))"

section \<open>Findings\<close>

definition reachable_ignoring_edge :: "nat \<Rightarrow> nat \<Rightarrow> nat \<Rightarrow> adjacency \<Rightarrow> bool option" where
  "reachable_ignoring_edge a b ignored adj = reachable_by (\<lambda>e. Some (e \<noteq> ignored)) a b adj"

definition keep_kind :: "nat \<Rightarrow> edge_kind \<Rightarrow> topology_edge list \<Rightarrow> nat \<Rightarrow> bool option" where
  "keep_kind ignored kind edges e =
     (if e = ignored then Some False
      else if e < length edges then Some (te_kind (edges ! e) = kind) else None)"

definition reachable_ignoring_edge_of_kind ::
  "nat \<Rightarrow> nat \<Rightarrow> nat \<Rightarrow> edge_kind \<Rightarrow> adjacency \<Rightarrow> topology_edge list \<Rightarrow> bool option" where
  "reachable_ignoring_edge_of_kind a b ignored kind adj edges = reachable_by (keep_kind ignored kind edges) a b adj"

definition usize_max :: nat where
  "usize_max = 2 ^ 64 - 1"

definition claims_conflict :: "resource_mode \<Rightarrow> resource_mode \<Rightarrow> bool" where
  "claims_conflict l r \<longleftrightarrow> l \<noteq> RmRead \<or> r \<noteq> RmRead"

definition isolated_file :: "resource_claim \<Rightarrow> resource_claim \<Rightarrow> bool" where
  "isolated_file l r \<longleftrightarrow>
     starts_with (claim_resource l) ''file:'' \<and>
     claim_workspace_strategy l = Some WsIsolatedWorktree \<and> claim_workspace_strategy r = Some WsIsolatedWorktree"

definition exclusion_protects :: "execution_topology \<Rightarrow> nat \<Rightarrow> nat \<Rightarrow> string \<Rightarrow> bool" where
  "exclusion_protects t left right res \<longleftrightarrow>
     (\<exists>e\<in>set (topo_edges t).
        te_kind e = EkResourceExclusion \<and> res \<in> set (te_resource_scope e) \<and>
        (node_index t (te_from e) = Some left \<and> node_index t (te_to e) = Some right \<or>
         node_index t (te_from e) = Some right \<and> node_index t (te_to e) = Some left))"

definition pair_location :: "nat \<Rightarrow> nat \<Rightarrow> string" where
  "pair_location left right = at_index ''$.nodes'' left @ '','' @ at_index ''$.nodes'' right"

definition claim_pair_findings ::
  "execution_topology \<Rightarrow> nat \<Rightarrow> nat \<Rightarrow> resource_claim \<Rightarrow> resource_claim \<Rightarrow> graph_lint_finding list" where
  "claim_pair_findings t left right l r =
     (if claim_resource l \<noteq> claim_resource r \<or> \<not> claims_conflict (claim_mode l) (claim_mode r) then []
      else if isolated_file l r then
        [lint_finding ''isolated_worktree_merge_risk'' FcHeuristic LsInfo (pair_location left right)
           (''isolated worktrees prevent direct writes to '' @ claim_resource l
            @ '' from colliding, but integration may still conflict'')]
      else lint_when (\<not> exclusion_protects t left right (claim_resource l))
        (lint_finding ''unsafe_parallel_resource_conflict'' FcDeterministic LsError (pair_location left right)
           (''unordered nodes claim conflicting access to '' @ claim_resource l)))"

definition pair_findings ::
  "execution_topology \<Rightarrow> adjacency \<Rightarrow> nat \<Rightarrow> nat \<Rightarrow> graph_lint_finding list option" where
  "pair_findings t adj left right =
     (case reachable_ignoring_edge left right usize_max adj of
        None \<Rightarrow> None
      | Some True \<Rightarrow> Some []
      | Some False \<Rightarrow>
          (case reachable_ignoring_edge right left usize_max adj of
             None \<Rightarrow> None
           | Some True \<Rightarrow> Some []
           | Some False \<Rightarrow>
               Some (concat (map (\<lambda>l. concat (map (\<lambda>r. claim_pair_findings t left right l r)
                 (tn_resource_claims (topo_nodes t ! right)))) (tn_resource_claims (topo_nodes t ! left))))))"

definition resource_conflicts :: "execution_topology \<Rightarrow> adjacency \<Rightarrow> graph_lint_finding list option" where
  "resource_conflicts t adj =
     map_option concat (those (concat (map (\<lambda>left. map (pair_findings t adj left)
       [Suc left..<length (topo_nodes t)]) [0..<length (topo_nodes t)])))"

definition contract_findings :: "execution_topology \<Rightarrow> graph_lint_finding list" where
  "contract_findings t =
     map (\<lambda>v. lint_finding (''contract_'' @ tf_code v) FcDeterministic LsError (tf_location v) (tf_detail v))
       (validate_execution_topology t)"

definition says_no_change :: "string \<Rightarrow> bool" where
  "says_no_change s \<longleftrightarrow>
     to_ascii_lowercase (trim s) \<in> {''none'', ''no change'', ''not applicable'', ''n/a''}"

definition edge_findings :: "execution_topology \<Rightarrow> adjacency \<Rightarrow> nat \<times> topology_edge \<Rightarrow> graph_lint_finding list option" where
  "edge_findings t adj ie =
     (case ie of (i, e) \<Rightarrow>
        case (node_index t (te_from e), node_index t (te_to e)) of
          (Some a, Some b) \<Rightarrow>
            (case reachable_ignoring_edge_of_kind a b i (te_kind e) adj (topo_edges t) of
               None \<Rightarrow> None
             | Some redundant \<Rightarrow>
                 Some ((if redundant then
                   [lint_finding ''redundant_reachability'' FcDeterministic LsInfo (at_index ''$.edges'' i)
                      (te_from e @ '' still reaches '' @ te_to e @ '' when '' @ te_edge_id e @ '' is removed''),
                    lint_finding ''false_edge_candidate'' FcHeuristic LsWarning (at_index ''$.edges'' i)
                      ''the direct edge may be unnecessary; review its witness and removal counterexample''] else [])
                 @ lint_when (says_no_change (te_removal_counterexample e))
                     (lint_finding ''removal_counterexample_no_change'' FcDeterministic LsWarning
                        (at_index ''$.edges'' i @ ''.removal_counterexample'')
                        ''the supplied counterexample says removing the edge changes nothing'')))
        | _ \<Rightarrow> Some [])"

definition node_findings :: "adjacency \<Rightarrow> adjacency \<Rightarrow> nat \<Rightarrow> topology_node \<Rightarrow> graph_lint_finding list" where
  "node_findings adj rvs i n =
     lint_when (tn_delivery n = DmBarrier \<and> rvs ! i \<noteq> [] \<and> adj ! i \<noteq> [])
       (lint_finding ''barrier_on_pipeline_path'' FcHeuristic LsWarning (at_index ''$.nodes'' i @ ''.delivery'')
          ''a barrier node lies between upstream and downstream work'')
     @ lint_when (length (rvs ! i) \<ge> 100)
         (lint_finding ''fan_in_context_pressure'' FcHeuristic LsWarning (at_index ''$.nodes'' i)
            (''node has '' @ show_nat (length (rvs ! i)) @ '' direct predecessors; consider hierarchical reduction''))
     @ lint_when (tn_side_effects n \<noteq> SeNone \<and> tn_verification_policy_id n = None)
         (lint_finding ''side_effect_without_verification_policy'' FcHeuristic LsWarning
            (at_index ''$.nodes'' i @ ''.verification_policy_id'')
            ''a side-effecting node has no declared verification policy'')
     @ lint_when (tn_expansion_policy_id n \<noteq> None \<and> tn_budget_policy_id n = None)
         (lint_finding ''expansion_without_budget'' FcDeterministic LsError
            (at_index ''$.nodes'' i @ ''.budget_policy_id'') ''an expanding node must reference a budget policy'')"

definition uninspectable :: "string \<Rightarrow> string \<Rightarrow> string \<Rightarrow> nat \<Rightarrow> string \<Rightarrow> graph_lint_finding" where
  "uninspectable code location policy_id affected rest =
     lint_finding code FcHeuristic LsInfo location
       (''policy '' @ policy_id @ '' governs '' @ show_nat affected @ '' node(s), but v0 '' @ rest)"

definition governs :: "(topology_node \<Rightarrow> string option) \<Rightarrow> execution_topology \<Rightarrow> string \<Rightarrow> nat" where
  "governs policy t policy_id = length (filter (\<lambda>n. policy n = Some policy_id) (topo_nodes t))"

definition policy_findings :: "execution_topology \<Rightarrow> graph_lint_finding list" where
  "policy_findings t =
     map (\<lambda>p. uninspectable ''verification_independence_uninspectable'' ''$.verification_policy_ids'' p
            (governs tn_verification_policy_id t p) ''does not embed verifier or world-anchor constraints'')
       (topo_verification_policy_ids t)
     @ map (\<lambda>p. uninspectable ''expansion_termination_uninspectable'' ''$.expansion_policy_ids'' p
            (governs tn_expansion_policy_id t p) ''cannot inspect its termination bounds'')
       (topo_expansion_policy_ids t)"

definition closing_findings :: "execution_topology \<Rightarrow> graph_lint_finding list" where
  "closing_findings t =
     lint_when (topo_completeness_policy t \<noteq> AllExpectedNodesReported)
       (lint_finding ''incomplete_reporting_policy'' FcDeterministic LsError ''$.completeness_policy''
          ''topology must require all expected nodes to report'')
     @ (let governed = filter (\<lambda>n. tn_verification_policy_id n \<noteq> None) (topo_nodes t) in
        lint_when (length governed > 1 \<and> card (set (map (\<lambda>n. tp_created_by (tn_provenance n)) governed)) = 1)
          (lint_finding ''authority_concentration_candidate'' FcHeuristic LsWarning ''$.nodes''
             ''all verification-governed nodes were proposed by the same actor; this does not prove verifier correlation''))"

text \<open>The derived order of the two enumerations, and the key the report is sorted by.\<close>

fun classification_rank :: "finding_classification \<Rightarrow> nat" where
  "classification_rank FcDeterministic = 0"
| "classification_rank FcHeuristic = 1"

fun severity_rank :: "lint_severity \<Rightarrow> nat" where
  "severity_rank LsError = 0"
| "severity_rank LsWarning = 1"
| "severity_rank LsInfo = 2"

definition lint_key :: "graph_lint_finding \<Rightarrow> nat \<times> nat \<times> string \<times> string \<times> string" where
  "lint_key f =
     (classification_rank (gl_classification f), severity_rank (gl_severity f), gl_code f, gl_location f, gl_detail f)"

definition lint_findings :: "execution_topology \<Rightarrow> adjacency \<Rightarrow> adjacency \<Rightarrow> bool \<Rightarrow> graph_lint_finding list option" where
  "lint_findings t adj rvs no_cycle =
     (case those (map (edge_findings t adj) (enumerate 0 (topo_edges t))) of
        None \<Rightarrow> None
      | Some by_edge \<Rightarrow>
          (case resource_conflicts t adj of
             None \<Rightarrow> None
           | Some conflicts \<Rightarrow>
               Some (contract_findings t
                 @ lint_when (\<not> no_cycle)
                     (lint_finding ''dependency_cycle'' FcDeterministic LsError ''$.edges''
                        ''the topology contains a dependency cycle'')
                 @ concat by_edge @ conflicts @ each_indexed (node_findings adj rvs) (topo_nodes t)
                 @ policy_findings t @ closing_findings t)))"

definition max_len :: "'a list list \<Rightarrow> nat" where
  "max_len xss = foldr max (map length xss) 0"

definition lint_metrics ::
  "execution_topology \<Rightarrow> adjacency \<Rightarrow> adjacency \<Rightarrow> nat \<Rightarrow> nat option \<Rightarrow> 64 word option \<Rightarrow> graph_lint_metrics" where
  "lint_metrics t adj rvs width longest critical =
     \<lparr>lm_node_count = length (topo_nodes t), lm_edge_count = length (topo_edges t),
      lm_source_count = length (filter (\<lambda>es. es = []) rvs), lm_sink_count = length (filter (\<lambda>es. es = []) adj),
      lm_theoretical_parallel_width = width, lm_longest_path_nodes = longest, lm_critical_path_ms = critical,
      lm_maximum_fan_in = max_len rvs, lm_maximum_fan_out = max_len adj\<rparr>"

definition lint_execution_topology ::
  "(execution_topology \<Rightarrow> ('e, string) result) \<Rightarrow> (string \<Rightarrow> string) \<Rightarrow> execution_topology \<Rightarrow> graph_lint_report option" where
  "lint_execution_topology to_string digest t =
     (case graph_tables t of
        None \<Rightarrow> None
      | Some (adj, rvs) \<Rightarrow>
          (case dag_metrics adj rvs of
             None \<Rightarrow> None
           | Some (no_cycle, width, longest) \<Rightarrow>
               (case lint_findings t adj rvs no_cycle of
                  None \<Rightarrow> None
                | Some findings \<Rightarrow>
                    (case execution_topology_content_hash to_string digest t of
                       Inl _ \<Rightarrow> None
                     | Inr content_hash \<Rightarrow>
                         (case (if no_cycle then critical_path_ms t rvs else Some None) of
                            None \<Rightarrow> None
                          | Some critical \<Rightarrow>
                              Some \<lparr>lr_schema = graph_lint_report_schema, lr_report_version = 0,
                                lr_topology_id = topo_id t, lr_topology_content_hash = content_hash,
                                lr_metrics = lint_metrics t adj rvs width longest critical,
                                lr_findings = sort_key lint_key findings\<rparr>)))))"

section \<open>Text\<close>

fun debug_classification :: "finding_classification \<Rightarrow> string" where
  "debug_classification FcDeterministic = ''Deterministic''"
| "debug_classification FcHeuristic = ''Heuristic''"

fun debug_severity :: "lint_severity \<Rightarrow> string" where
  "debug_severity LsError = ''Error''"
| "debug_severity LsWarning = ''Warning''"
| "debug_severity LsInfo = ''Info''"

definition render_graph_lint_text :: "graph_lint_report \<Rightarrow> string" where
  "render_graph_lint_text r =
     join_with [CHR 0x0A]
       ([''topology: '' @ lr_topology_id r,
         ''content hash: '' @ lr_topology_content_hash r,
         ''nodes: '' @ show_nat (lm_node_count (lr_metrics r)) @ '', edges: '' @ show_nat (lm_edge_count (lr_metrics r))
         @ '', parallel width: '' @ show_nat (lm_theoretical_parallel_width (lr_metrics r)) @ '', critical path ms: ''
         @ (case lm_critical_path_ms (lr_metrics r) of None \<Rightarrow> ''unknown'' | Some ms \<Rightarrow> show_nat (unat ms)),
         ''findings: '' @ show_nat (length (lr_findings r))]
        @ map (\<lambda>f. ''- ['' @ debug_classification (gl_classification f) @ ''/'' @ debug_severity (gl_severity f) @ ''] ''
                 @ gl_code f @ '' '' @ gl_location f @ '': '' @ gl_detail f) (lr_findings r))"

end
