(* ===== verification/Graph_Values.thy ===== *)
theory Graph_Values
  imports Graph_Paths
begin

text \<open>
  The values of the topological sweep. \<open>sweep_values\<close> is the interface between the loop and what it is
  used for: a value is read as a number by \<open>num\<close>, extending it along an edge adds the weight of the target
  and truncates with \<open>sat\<close>. Every such sweep ends, and gives each processed node the truncated weight of the
  heaviest path into it. \<open>level_sweep\<close> extends it for the level-by-level count of \<open>dag_metrics\<close>.
\<close>

locale sweep_values =
  fixes succs :: "nat list list"
    and ext :: "'v::linorder \<Rightarrow> nat \<Rightarrow> 'v"
    and num :: "'v \<Rightarrow> nat"
    and sat :: "nat \<Rightarrow> nat"
    and w :: "nat \<Rightarrow> nat"
  assumes range: "succs_range succs"
    and num_max: "num (max a b) = max (num a) (num b)"
    and num_ext: "v < length succs \<Longrightarrow> num (ext a v) = sat (num a + w v)"
    and sat_mono: "j \<le> k \<Longrightarrow> sat j \<le> sat k"
    and sat_absorb: "sat (sat j + k) = sat (j + k)"
begin

definition path_weights :: "nat \<Rightarrow> nat set" where
  "path_weights v = {sum_list (map w (v # p)) | p. back_path succs (v # p)}"

definition candidates :: "nat set \<Rightarrow> nat \<Rightarrow> nat set" where
  "candidates D v = insert (w v) {k + w v | u k. u \<in> D \<and> (u, v) \<in> edges_of succs \<and> k \<in> path_weights u}"

definition best :: "nat set \<Rightarrow> nat \<Rightarrow> bool" where
  "best S m \<longleftrightarrow> (\<exists>k\<in>S. m = sat k) \<and> (\<forall>k\<in>S. sat k \<le> m)"

definition value_inv :: "nat set \<Rightarrow> 'v list \<Rightarrow> bool" where
  "value_inv D vals \<longleftrightarrow> length vals = length succs \<and> (\<forall>v<length succs. best (candidates D v) (num (vals ! v)))"

lemma path_weights_candidates:
  assumes "v < length succs" "\<forall>u. (u, v) \<in> edges_of succs \<longrightarrow> u \<in> D"
  shows "path_weights v = candidates D v"
proof (intro set_eqI iffI)
  fix k assume "k \<in> path_weights v"
  then obtain p where p: "k = sum_list (map w (v # p))" "back_path succs (v # p)" by (auto simp: path_weights_def)
  show "k \<in> candidates D v"
  proof (cases p)
    case Nil
    with p show ?thesis by (simp add: candidates_def)
  next
    case (Cons u p')
    then have "(u, v) \<in> edges_of succs" "sum_list (map w (u # p')) \<in> path_weights u" "k = sum_list (map w (u # p')) + w v"
      using p by (auto simp: path_weights_def)
    with assms(2) show ?thesis by (auto simp: candidates_def)
  qed
next
  fix k assume "k \<in> candidates D v"
  then consider "k = w v" | u k' where "(u, v) \<in> edges_of succs" "k' \<in> path_weights u" "k = k' + w v"
    by (auto simp: candidates_def)
  then show "k \<in> path_weights v"
  proof cases
    case 1
    with assms(1) show ?thesis by (auto simp: path_weights_def intro!: exI [of _ "[]"])
  next
    case (2 u k')
    then obtain p where "k' = sum_list (map w (u # p))" "back_path succs (u # p)" by (auto simp: path_weights_def)
    with 2 show ?thesis by (auto simp: path_weights_def intro!: exI [of _ "u # p"])
  qed
qed

lemma candidates_insert:
  "candidates (insert x D) v =
   candidates D v \<union> (if (x, v) \<in> edges_of succs then (\<lambda>k. k + w v) ` path_weights x else {})"
  by (auto simp: candidates_def)

lemma best_Un: "best S m \<Longrightarrow> best T k \<Longrightarrow> best (S \<union> T) (max m k)"
  unfolding best_def by (metis Un_iff max.cobounded1 max.cobounded2 max_def order_trans)

lemma best_shift:
  assumes "best S m"
  shows "best ((\<lambda>k. k + c) ` S) (sat (m + c))"
proof -
  obtain k where k: "k \<in> S" "m = sat k" and ub: "\<forall>k\<in>S. sat k \<le> m" using assms by (auto simp: best_def)
  have "sat (j + c) \<le> sat (m + c)" if "j \<in> S" for j
    using sat_mono [of "sat j + c" "m + c"] ub that by (simp add: sat_absorb)
  with k show ?thesis by (auto simp: best_def sat_absorb)
qed

lemma value_inv_step:
  assumes inv: "order_inv succs D ind (x # q)" and vals: "value_inv D vals"
    and vals': "length vals' = length succs"
      "\<forall>v<length succs. vals' ! v = (if v \<in> set (succs ! x) then max (vals ! v) (ext (vals ! x) v) else vals ! v)"
  shows "value_inv (insert x D) vals'"
proof -
  note head = order_inv_head [OF inv]
  have "path_weights x = candidates D x"
    by (rule path_weights_candidates) (use head order_inv_preds [OF inv, of x] in auto)
  then have x: "best (path_weights x) (num (vals ! x))" using vals head(1) by (simp add: value_inv_def)
  have "best (candidates (insert x D) v) (num (vals' ! v))" if v: "v < length succs" for v
  proof -
    have old: "best (candidates D v) (num (vals ! v))" using vals v by (simp add: value_inv_def)
    have "(x, v) \<in> edges_of succs \<longleftrightarrow> v \<in> set (succs ! x)" using head(1) by (simp add: edges_of_def)
    then show ?thesis
      using old best_Un [OF old best_shift [OF x, of "w v"]] vals'(2) v
      by (simp add: candidates_insert num_max num_ext)
  qed
  with vals'(1) show ?thesis by (simp add: value_inv_def)
qed

text \<open>One iteration: it succeeds, and the values of what is processed or queued are final.\<close>

lemma pop_step:
  assumes inv: "order_inv succs D ind (x # q)" and vals: "value_inv D vals"
  obtains ind' new vals' where
    "pop_front ext succs (ind, x # q, vals) = Some (ind', q @ new, vals')"
    "order_inv succs (insert x D) ind' (q @ new)" "value_inv (insert x D) vals'"
    "\<forall>v<length succs. vals' ! v = (if v \<in> set (succs ! x) then max (vals ! v) (ext (vals ! x) v) else vals ! v)"
    "set new \<subseteq> set (succs ! x)" "\<forall>v\<in>D \<union> set (x # q). vals' ! v = vals ! v"
proof -
  note head = order_inv_head [OF inv]
  have len: "length ind = length succs" "length vals = length succs"
    using inv vals by (simp_all add: order_inv_def value_inv_def)
  have succ: "\<forall>s\<in>set (succs ! x). s < length succs"
    using range head(1) unfolding succs_range_def by (meson nth_mem)
  have bound: "\<forall>v\<in>set (succs ! x). count_list (succs ! x) v \<le> ind ! v"
    using inv succ head indegree_from_insert(2) [of x succs D] by (simp add: order_inv_def)
  obtain ind' new vals' where r:
    "relax_edges ext x (succs ! x) (ind, q, vals) = Some (ind', q @ new, vals')"
    "length ind' = length succs" "length vals' = length succs"
    "\<forall>v<length succs. ind' ! v = ind ! v - count_list (succs ! x) v"
    "\<forall>v<length succs. vals' ! v = (if v \<in> set (succs ! x) then max (vals ! v) (ext (vals ! x) v) else vals ! v)"
    "distinct new" "set new = {v \<in> set (succs ! x). ind ! v = count_list (succs ! x) v}"
    using relax_edges_spec [OF len head(1) succ head(3) bound] by blast
  have "order_inv succs (insert x D) ind' (q @ new)" by (rule order_inv_step [OF inv range r(2,4,6,7)])
  moreover have "value_inv (insert x D) vals'" by (rule value_inv_step [OF inv vals r(3,5)])
  moreover have "vals' ! v = vals ! v" if v: "v \<in> D \<union> set (x # q)" for v
  proof -
    have "v < length succs" using inv v unfolding order_inv_def by blast
    moreover have "v \<notin> set (succs ! x)"
      using order_inv_preds [OF inv v, of x] head(1,2) by (auto simp: edges_of_def)
    ultimately show ?thesis using r(5) by simp
  qed
  ultimately show ?thesis
  proof (intro that)
    show "pop_front ext succs (ind, x # q, vals) = Some (ind', q @ new, vals')" using r(1) head(1) by simp
  qed (use r(5,7) in auto)
qed

lemma sweep_total:
  assumes "order_inv succs D ind q" "value_inv D vals"
  obtains D' ind' vals' where "sweep ext succs (ind, q, vals) = Some (ind', [], vals')"
    "order_inv succs D' ind' []" "value_inv D' vals'"
proof -
  have "\<exists>D' ind' vals'. sweep ext succs (ind, q, vals) = Some (ind', [], vals') \<and> order_inv succs D' ind' [] \<and> value_inv D' vals'"
    using assms
  proof (induction "pending (ind, q, vals)" arbitrary: D ind q vals rule: less_induct)
    case less
    show ?case
    proof (cases q)
      case Nil
      have "sweep ext succs (ind, [], vals) = Some (ind, [], vals)" by (simp add: sweep.simps)
      with Nil less.prems show ?thesis by blast
    next
      case (Cons x q')
      from less.prems have inv: "order_inv succs D ind (x # q')" by (simp add: Cons)
      obtain ind' new vals' where step: "pop_front ext succs (ind, x # q', vals) = Some (ind', q' @ new, vals')"
        "order_inv succs (insert x D) ind' (q' @ new)" "value_inv (insert x D) vals'"
        by (rule pop_step [OF inv less.prems(2)]) blast
      have "pending (ind', q' @ new, vals') < pending (ind, q, vals)"
        using pop_front_pending [OF step(1)] by (simp add: Cons)
      moreover have "sweep ext succs (ind, q, vals) = sweep ext succs (ind', q' @ new, vals')"
        using step(1) by (subst sweep.simps) (simp add: Cons del: pop_front.simps)
      ultimately show ?thesis using less.hyps [OF _ step(2,3)] by simp
    qed
  qed
  then show ?thesis using that by blast
qed

text \<open>At the end the value of every node of an acyclic graph is the weight of the heaviest path into it.\<close>

lemma value_final:
  assumes "order_inv succs D ind []" "value_inv D vals" "acyclic (edges_of succs)" "v < length succs"
  shows "best (path_weights v) (num (vals ! v))"
proof -
  have "D \<subseteq> {..<length succs}" using assms(1) unfolding order_inv_def by auto
  moreover have "card D = length succs" using order_inv_end [OF assms(1) range] assms(3) by blast
  ultimately have "D = {..<length succs}" by (metis card_lessThan card_subset_eq finite_lessThan)
  then have "path_weights v = candidates D v"
    using assms(4) by (intro path_weights_candidates) (auto simp: edges_of_def)
  with assms(2,4) show ?thesis by (simp add: value_inv_def)
qed

lemma value_start:
  assumes "length vals = length succs" "\<forall>v<length succs. num (vals ! v) = sat (w v)"
  shows "value_inv {} vals"
  using assms by (simp add: value_inv_def candidates_def best_def)

text \<open>The maximum over the nodes is the weight of the heaviest path of the graph.\<close>

lemma heaviest_path:
  assumes fin: "\<forall>v<length succs. best (path_weights v) (num (vals ! v))" and len: "length vals = length succs"
    and ne: "succs \<noteq> []"
  shows "\<exists>p. back_path succs p \<and> num (Max (set vals)) = sat (sum_list (map w p))"
    and "back_path succs p \<Longrightarrow> sat (sum_list (map w p)) \<le> num (Max (set vals))"
proof -
  have vne: "set vals \<noteq> {}" using len ne by auto
  have mono: "num a \<le> num b" if "a \<le> b" for a b using num_max [of a b] that by (simp add: max_def split: if_splits)
  obtain v where v: "v < length succs" "vals ! v = Max (set vals)"
    using Max_in [OF _ vne] len by (auto simp: in_set_conv_nth)
  with fin show "\<exists>p. back_path succs p \<and> num (Max (set vals)) = sat (sum_list (map w p))"
    by (force simp: best_def path_weights_def)
  assume p: "back_path succs p"
  then obtain u p' where up: "p = u # p'" by (cases p) auto
  then have u: "u < length succs" using back_path_range [OF range p] by auto
  then have "sat (sum_list (map w p)) \<le> num (vals ! u)"
    using fin p up unfolding best_def path_weights_def by blast
  also have "\<dots> \<le> num (Max (set vals))" using mono u len by simp
  finally show "sat (sum_list (map w p)) \<le> num (Max (set vals))" .
qed

end

section \<open>Level by level\<close>

locale level_sweep = sweep_values succs "\<lambda>d _. Suc d" "\<lambda>d. d" "\<lambda>k. k" "\<lambda>_. Suc 0" for succs
begin

text \<open>Inside level \<open>i\<close>: \<open>now\<close> is left of the level, \<open>later\<close> is what the level has queued so far.\<close>

definition level_inv :: "nat \<Rightarrow> nat set \<Rightarrow> nat list \<Rightarrow> nat list \<Rightarrow> nat list \<Rightarrow> bool" where
  "level_inv i D now later vals \<longleftrightarrow>
     (\<forall>v\<in>set now. vals ! v = i) \<and> (\<forall>v\<in>set later. vals ! v = Suc i) \<and> (\<forall>v<length succs. vals ! v \<le> Suc i) \<and>
     (\<forall>v\<in>D. vals ! v \<le> i)"

lemma drain_level:
  assumes "order_inv succs D ind (now @ later)" "value_inv D vals" "level_inv i D now later vals"
  shows "\<exists>ind' later' vals'.
    drain (\<lambda>d _. Suc d) succs (length now) (processed, ind, now @ later, vals)
      = Some (processed + length now, ind', later', vals') \<and>
    order_inv succs (D \<union> set now) ind' later' \<and> value_inv (D \<union> set now) vals' \<and>
    level_inv i (D \<union> set now) [] later' vals' \<and> (\<forall>v\<in>D \<union> set now. vals' ! v = vals ! v)"
  using assms
proof (induction now arbitrary: processed D ind later vals)
  case (Cons x now)
  have inv: "order_inv succs D ind (x # now @ later)" using Cons.prems by simp
  note head = order_inv_head [OF inv]
  obtain ind1 new vals1 where step:
    "pop_front (\<lambda>d _. Suc d) succs (ind, x # now @ later, vals) = Some (ind1, (now @ later) @ new, vals1)"
    "order_inv succs (insert x D) ind1 ((now @ later) @ new)" "value_inv (insert x D) vals1"
    "\<forall>v<length succs. vals1 ! v = (if v \<in> set (succs ! x) then max (vals ! v) (Suc (vals ! x)) else vals ! v)"
    "set new \<subseteq> set (succs ! x)" "\<forall>v\<in>D \<union> set (x # now @ later). vals1 ! v = vals ! v"
    by (rule pop_step [OF inv Cons.prems(2)])
  have x: "vals ! x = i" and lev: "level_inv i D (x # now) later vals" using Cons.prems(3) by (auto simp: level_inv_def)
  have new: "vals1 ! v = Suc i" if "v \<in> set new" for v
  proof -
    have "v \<in> set (succs ! x)" "v < length succs" using that step(5) edges_of_range [OF range, of x v] head(1)
      by (auto simp: edges_of_def)
    with step(4) lev x show ?thesis by (auto simp: level_inv_def max_def)
  qed
  have "vals1 ! v \<le> Suc i" if "v < length succs" for v
    using that step(4) lev x by (auto simp: level_inv_def)
  then have lev1: "level_inv i (insert x D) now (later @ new) vals1"
    using lev step(6) new x by (auto simp: level_inv_def)
  from Cons.IH [OF _ step(3) lev1, of ind1 "Suc processed"] step(2) obtain ind' later' vals' where ih:
    "drain (\<lambda>d _. Suc d) succs (length now) (Suc processed, ind1, now @ later @ new, vals1)
      = Some (Suc processed + length now, ind', later', vals')"
    "order_inv succs (insert x D \<union> set now) ind' later'" "value_inv (insert x D \<union> set now) vals'"
    "level_inv i (insert x D \<union> set now) [] later' vals'"
    "\<forall>v\<in>insert x D \<union> set now. vals' ! v = vals1 ! v" by auto
  have "insert x D \<union> set now = D \<union> set (x # now)" by auto
  moreover have "drain (\<lambda>d _. Suc d) succs (length (x # now)) (processed, ind, (x # now) @ later, vals)
      = Some (processed + length (x # now), ind', later', vals')"
    using step(1) ih(1) by (simp del: pop_front.simps)
  moreover have "\<forall>v\<in>D \<union> set (x # now). vals' ! v = vals ! v" using ih(5) step(6) by auto
  ultimately show ?case using ih(2-4) by metis
qed (auto simp: level_inv_def)

text \<open>Between two levels: \<open>width\<close> is the size of the largest level so far, the queued one included.\<close>

definition width_inv :: "nat \<Rightarrow> nat set \<Rightarrow> nat list \<Rightarrow> nat list \<Rightarrow> bool" where
  "width_inv width D q vals \<longleftrightarrow>
     (\<forall>j. card {v \<in> D \<union> set q. vals ! v = j} \<le> max width (length q)) \<and>
     (\<exists>j. card {v \<in> D \<union> set q. vals ! v = j} = max width (length q))"

lemma width_step:
  assumes w: "width_inv width D now vals" and "now \<noteq> []" and d: "distinct later" "set later \<inter> (D \<union> set now) = {}"
    and lev: "level_inv i (D \<union> set now) [] later vals'" and keep: "\<forall>v\<in>D \<union> set now. vals' ! v = vals ! v"
  shows "width_inv (max width (length now)) (D \<union> set now) later vals'"
proof -
  let ?D = "D \<union> set now" and ?m = "max width (length now)"
  have later: "\<forall>v\<in>set later. vals' ! v = Suc i" and low: "\<forall>v\<in>?D. vals' ! v \<noteq> Suc i"
    using lev unfolding level_inv_def by (blast, metis not_less_eq_eq order_refl)
  have split: "{v \<in> ?D \<union> set later. vals' ! v = j} = (if j = Suc i then set later else {v \<in> ?D. vals ! v = j})" for j
  proof (rule set_eqI)
    fix v
    consider "v \<in> ?D" | "v \<notin> ?D" "v \<in> set later" | "v \<notin> ?D" "v \<notin> set later" by blast
    then show "v \<in> {v \<in> ?D \<union> set later. vals' ! v = j} \<longleftrightarrow>
        v \<in> (if j = Suc i then set later else {v \<in> ?D. vals ! v = j})"
      using later low keep d(2) by cases auto
  qed
  have len: "card (set later) = length later" using d(1) by (rule distinct_card)
  have ub: "card {v \<in> ?D. vals ! v = j} \<le> ?m" for j using w by (simp add: width_inv_def)
  obtain j where j: "card {v \<in> ?D. vals ! v = j} = ?m" using w by (auto simp: width_inv_def)
  have "{v \<in> ?D. vals ! v = Suc i} = {}" using low keep by auto
  then have "card {v \<in> ?D. vals ! v = Suc i} = 0" by (simp only: card.empty)
  moreover have "0 < ?m" using assms(2) by (simp add: less_max_iff_disj)
  ultimately have "j \<noteq> Suc i" using j by (metis less_irrefl)
  then have att: "\<exists>j. card {v \<in> ?D \<union> set later. vals' ! v = j} = max ?m (length later)"
  proof (cases "?m \<le> length later")
    case True
    then show ?thesis using split [of "Suc i"] len by (intro exI [of _ "Suc i"]) simp
  next
    case False
    then have "max ?m (length later) = ?m" by linarith
    then show ?thesis using split [of j] j \<open>j \<noteq> Suc i\<close> by (intro exI [of _ j]) simp
  qed
  moreover have "card {v \<in> ?D \<union> set later. vals' ! v = j} \<le> max ?m (length later)" for j
    using split [of j] ub [of j] len by (auto split: if_splits)
  ultimately show ?thesis unfolding width_inv_def by blast
qed

lemma drain_levels_total:
  assumes "order_inv succs D ind q" "value_inv D vals" "level_inv i D q [] vals" "width_inv width D q vals"
    and "finite D"
  shows "\<exists>D' width' ind' vals'. drain_levels (\<lambda>d _. Suc d) succs (width, card D, ind, q, vals)
      = Some (width', card D', ind', [], vals') \<and>
    order_inv succs D' ind' [] \<and> value_inv D' vals' \<and> width_inv width' D' [] vals'"
  using assms
proof (induction "pending (ind, q, vals)" arbitrary: width i D ind q vals rule: less_induct)
  case less
  show ?case
  proof (cases "q = []")
    case True
    have "drain_levels (\<lambda>d _. Suc d) succs (width, card D, ind, [], vals) = Some (width, card D, ind, [], vals)"
      by (simp add: drain_levels.simps)
    with True less.prems show ?thesis by blast
  next
    case False
    let ?D = "D \<union> set q"
    obtain ind' later vals' where dr:
      "drain (\<lambda>d _. Suc d) succs (length q) (card D, ind, q, vals) = Some (card D + length q, ind', later, vals')"
      "order_inv succs ?D ind' later" "value_inv ?D vals'" "level_inv i ?D [] later vals'"
      "\<forall>v\<in>?D. vals' ! v = vals ! v"
      using drain_level [of D ind q "[]" vals i "card D"] less.prems(1-3) by auto
    have q: "distinct q" "D \<inter> set q = {}" using less.prems(1) by (auto simp: order_inv_def)
    then have card: "card D + length q = card ?D"
      using less.prems(5) by (simp add: card_Un_disjoint distinct_card)
    have "set later \<inter> ?D = {}" "distinct later" using dr(2) by (auto simp: order_inv_def)
    then have width: "width_inv (max width (length q)) ?D later vals'"
      using width_step less.prems(4) False dr(4,5) by blast
    have "level_inv (Suc i) ?D later [] vals'"
      using dr(4) unfolding level_inv_def by (metis empty_iff empty_set le_SucI)
    moreover have "pending (ind', later, vals') < pending (ind, q, vals)"
      using drain_pending [OF dr(1)] False by simp
    ultimately have "\<exists>D' width' ind'' vals''. drain_levels (\<lambda>d _. Suc d) succs (max width (length q), card ?D, ind', later, vals')
      = Some (width', card D', ind'', [], vals'') \<and>
      order_inv succs D' ind'' [] \<and> value_inv D' vals'' \<and> width_inv width' D' [] vals''"
      using less.hyps [OF _ dr(2,3) _ width] less.prems(5) by blast
    moreover have "drain_levels (\<lambda>d _. Suc d) succs (width, card D, ind, q, vals)
      = drain_levels (\<lambda>d _. Suc d) succs (max width (length q), card ?D, ind', later, vals')"
      using dr(1) False card by (subst drain_levels.simps) (simp add: Let_def)
    ultimately show ?thesis by simp
  qed
qed

end

end
