(* ===== verification/Lint_Tables.thy ===== *)
theory Lint_Tables
  imports Graph_Lint Graph_Values
begin

text \<open>
  The adjacency tables of \<open>src/graph_lint.rs\<close> against the edges of the topology: building them never
  indexes out of range, both tables count every edge once, and the successor lists that
  \<open>critical_path_ms\<close> rebuilds from the reverse table have the edges of the forward table. The two
  topological sweeps are interpretations of the locale of \<open>Graph_Values\<close> on these tables.
\<close>

section \<open>Node index\<close>

text \<open>The dependency relation of a topology on the positions of its nodes.\<close>

definition joins :: "execution_topology \<Rightarrow> topology_edge \<Rightarrow> nat \<Rightarrow> nat \<Rightarrow> bool" where
  "joins t e a b \<longleftrightarrow> node_index t (te_from e) = Some a \<and> node_index t (te_to e) = Some b"

definition depends :: "execution_topology \<Rightarrow> (nat \<times> nat) set" where
  "depends t = {(a, b). \<exists>e\<in>set (topo_edges t). joins t e a b}"

lemma node_index_enumerate:
  "fold (\<lambda>(i, n) m. m(key n \<mapsto> i)) (enumerate k ns) m x = Some i \<Longrightarrow>
   m x = Some i \<or> (k \<le> i \<and> i < k + length ns \<and> key (ns ! (i - k)) = x)"
proof (induction ns arbitrary: k m)
  case (Cons n ns)
  from Cons.prems Cons.IH [of "Suc k" "m(key n \<mapsto> k)"]
  consider "(m(key n \<mapsto> k)) x = Some i" | "Suc k \<le> i" "i < Suc k + length ns" "key (ns ! (i - Suc k)) = x" by auto
  then show ?case
  proof cases
    case 1
    then show ?thesis by (auto split: if_splits)
  next
    case 2
    then have "i - k = Suc (i - Suc k)" by simp
    with 2 show ?thesis by simp
  qed
qed simp

lemma node_index_Some:
  assumes "node_index t x = Some i"
  shows "i < length (topo_nodes t)" "tn_node_id (topo_nodes t ! i) = x"
  using node_index_enumerate [of tn_node_id 0 "topo_nodes t" Map.empty x i] assms
  by (auto simp: node_index_def)

lemma depends_range: "depends t \<subseteq> {..<length (topo_nodes t)} \<times> {..<length (topo_nodes t)}"
  by (auto simp: depends_def joins_def dest: node_index_Some)

section \<open>The loops that build a table\<close>

definition out_entry :: "execution_topology \<Rightarrow> nat \<Rightarrow> nat \<times> topology_edge \<Rightarrow> (nat \<times> nat) list" where
  "out_entry t a ie =
     (case ie of (i, e) \<Rightarrow>
        case (node_index t (te_from e), node_index t (te_to e)) of
          (Some a', Some b) \<Rightarrow> if a' = a then [(b, i)] else []
        | _ \<Rightarrow> [])"

definition in_entry :: "execution_topology \<Rightarrow> nat \<Rightarrow> nat \<times> topology_edge \<Rightarrow> (nat \<times> nat) list" where
  "in_entry t b ie =
     (case ie of (i, e) \<Rightarrow>
        case (node_index t (te_from e), node_index t (te_to e)) of
          (Some a, Some b') \<Rightarrow> if b' = b then [(a, i)] else []
        | _ \<Rightarrow> [])"

lemma add_edges_spec:
  assumes "length adj = length (topo_nodes t)" "length rvs = length (topo_nodes t)"
  shows "\<exists>adj' rvs'. fold_opt (add_edge (node_index t)) es (adj, rvs) = Some (adj', rvs') \<and>
     length adj' = length (topo_nodes t) \<and> length rvs' = length (topo_nodes t) \<and>
     (\<forall>a<length (topo_nodes t). adj' ! a = adj ! a @ concat (map (out_entry t a) es)) \<and>
     (\<forall>b<length (topo_nodes t). rvs' ! b = rvs ! b @ concat (map (in_entry t b) es))"
  using assms
proof (induction es arbitrary: adj rvs)
  case (Cons ie es)
  obtain i e where ie: "ie = (i, e)" by fastforce
  show ?case
  proof (cases "node_index t (te_from e) = None \<or> node_index t (te_to e) = None")
    case True
    then have "add_edge (node_index t) ie (adj, rvs) = Some (adj, rvs)"
      "out_entry t x ie = []" "in_entry t x ie = []" for x
      by (auto simp: add_edge_def out_entry_def in_entry_def ie split: option.splits)
    with Cons.IH [OF Cons.prems] show ?thesis by simp
  next
    case False
    then obtain a b where ab: "node_index t (te_from e) = Some a" "node_index t (te_to e) = Some b" by auto
    note lt = node_index_Some(1) [OF ab(1)] node_index_Some(1) [OF ab(2)]
    let ?adj = "adj[a := adj ! a @ [(b, i)]]" and ?rvs = "rvs[b := rvs ! b @ [(a, i)]]"
    have step: "add_edge (node_index t) ie (adj, rvs) = Some (?adj, ?rvs)"
      using ab lt Cons.prems by (simp add: add_edge_def ie push_at_def)
    have out: "?adj ! x = adj ! x @ out_entry t x ie" "?rvs ! x = rvs ! x @ in_entry t x ie"
      if "x < length (topo_nodes t)" for x
      using that ab Cons.prems by (auto simp: out_entry_def in_entry_def ie nth_list_update)
    from Cons.IH [of ?adj ?rvs] Cons.prems step out show ?thesis by simp
  qed
qed simp

lemma graph_tables_spec:
  obtains adj rvs where "graph_tables t = Some (adj, rvs)"
    "length adj = length (topo_nodes t)" "length rvs = length (topo_nodes t)"
    "\<forall>a<length (topo_nodes t). adj ! a = sort (concat (map (out_entry t a) (enumerate 0 (topo_edges t))))"
    "\<forall>b<length (topo_nodes t). rvs ! b = sort (concat (map (in_entry t b) (enumerate 0 (topo_edges t))))"
proof -
  let ?empty = "replicate (length (topo_nodes t)) ([] :: (nat \<times> nat) list)"
  obtain adj rvs where "fold_opt (add_edge (node_index t)) (enumerate 0 (topo_edges t)) (?empty, ?empty) = Some (adj, rvs)"
    "length adj = length (topo_nodes t)" "length rvs = length (topo_nodes t)"
    "\<forall>a<length (topo_nodes t). adj ! a = ?empty ! a @ concat (map (out_entry t a) (enumerate 0 (topo_edges t)))"
    "\<forall>b<length (topo_nodes t). rvs ! b = ?empty ! b @ concat (map (in_entry t b) (enumerate 0 (topo_edges t)))"
    using add_edges_spec [of ?empty t ?empty "enumerate 0 (topo_edges t)"] by auto
  then show ?thesis by (intro that [of "map sort adj" "map sort rvs"]) (simp_all add: graph_tables_def)
qed

text \<open>The tables as functions of the topology, for the lemmas below.\<close>

definition forward_table :: "execution_topology \<Rightarrow> adjacency" where
  "forward_table t = fst (the (graph_tables t))"

definition reverse_table :: "execution_topology \<Rightarrow> adjacency" where
  "reverse_table t = snd (the (graph_tables t))"

lemma graph_tables_total: "graph_tables t = Some (forward_table t, reverse_table t)"
  using graph_tables_spec [of t] by (metis forward_table_def fst_conv option.sel reverse_table_def snd_conv)

lemma tables_length [simp]:
  "length (forward_table t) = length (topo_nodes t)" "length (reverse_table t) = length (topo_nodes t)"
  using graph_tables_spec [of t] by (metis forward_table_def reverse_table_def fst_conv option.sel snd_conv)+

lemma table_entries:
  assumes "a < length (topo_nodes t)"
  shows "forward_table t ! a = sort (concat (map (out_entry t a) (enumerate 0 (topo_edges t))))"
    and "reverse_table t ! a = sort (concat (map (in_entry t a) (enumerate 0 (topo_edges t))))"
  using graph_tables_spec [of t] assms by (metis forward_table_def reverse_table_def fst_conv option.sel snd_conv)+

lemma in_enumerate: "(i, x) \<in> set (enumerate 0 xs) \<longleftrightarrow> i < length xs \<and> x = xs ! i"
  by (auto simp: in_set_enumerate_eq)

lemma out_entry_iff: "(b, i) \<in> set (out_entry t a (j, e)) \<longleftrightarrow> i = j \<and> joins t e a b"
  by (auto simp: out_entry_def joins_def split: option.splits)

lemma in_entry_iff: "(a, i) \<in> set (in_entry t b (j, e)) \<longleftrightarrow> i = j \<and> joins t e a b"
  by (auto simp: in_entry_def joins_def split: option.splits)

lemma in_forward_table:
  assumes "a < length (topo_nodes t)"
  shows "(b, i) \<in> set (forward_table t ! a) \<longleftrightarrow> i < length (topo_edges t) \<and> joins t (topo_edges t ! i) a b"
proof -
  have "(b, i) \<in> set (forward_table t ! a) \<longleftrightarrow>
    (\<exists>j e. (j, e) \<in> set (enumerate 0 (topo_edges t)) \<and> (b, i) \<in> set (out_entry t a (j, e)))"
    using assms by (force simp: table_entries)
  then show ?thesis by (auto simp: in_enumerate out_entry_iff)
qed

lemma in_reverse_table:
  assumes "b < length (topo_nodes t)"
  shows "(a, i) \<in> set (reverse_table t ! b) \<longleftrightarrow> i < length (topo_edges t) \<and> joins t (topo_edges t ! i) a b"
proof -
  have "(a, i) \<in> set (reverse_table t ! b) \<longleftrightarrow>
    (\<exists>j e. (j, e) \<in> set (enumerate 0 (topo_edges t)) \<and> (a, i) \<in> set (in_entry t b (j, e)))"
    using assms by (force simp: table_entries)
  then show ?thesis by (auto simp: in_enumerate in_entry_iff)
qed

lemma joins_range: "joins t e a b \<Longrightarrow> a < length (topo_nodes t) \<and> b < length (topo_nodes t)"
  by (auto simp: joins_def dest: node_index_Some)

section \<open>Both tables count every edge once\<close>

lemma count_list_sort_fst: "count_list (map fst (sort (xs :: (nat \<times> nat) list))) x = count_list (map fst xs) x"
  by (simp flip: count_mset)

lemma count_list_concat: "count_list (concat xss) x = sum_list (map (\<lambda>xs. count_list xs x) xss)"
  by (induction xss) simp_all

lemma table_counts:
  assumes "a < length (topo_nodes t)" "b < length (topo_nodes t)"
  shows "count_list (map fst (forward_table t ! a)) b = count_list (map fst (reverse_table t ! b)) a"
proof -
  have "count_list (map fst (out_entry t a ie)) b = count_list (map fst (in_entry t b ie)) a" for ie
    by (auto simp: out_entry_def in_entry_def split: prod.split option.split)
  then show ?thesis
    using assms by (simp add: table_entries count_list_sort_fst map_concat count_list_concat comp_def)
qed

definition succ_table :: "execution_topology \<Rightarrow> nat list list" where
  "succ_table t = map (map fst) (forward_table t)"

lemma succ_table_length [simp]: "length (succ_table t) = length (topo_nodes t)"
  by (simp add: succ_table_def)

lemma edges_of_counts:
  "edges_of succs = {(a, b). a < length succs \<and> 0 < count_list (succs ! a) b}"
  by (auto simp: edges_of_def count_list_0_iff simp flip: neq0_conv)

lemma edges_of_succ_table: "edges_of (succ_table t) = depends t"
proof -
  have "(a, b) \<in> edges_of (succ_table t) \<longleftrightarrow> (a, b) \<in> depends t" for a b
  proof (cases "a < length (topo_nodes t)")
    case True
    then have "(a, b) \<in> edges_of (succ_table t) \<longleftrightarrow> (\<exists>i. (b, i) \<in> set (forward_table t ! a))"
      by (force simp: edges_of_def succ_table_def)
    also have "\<dots> \<longleftrightarrow> (a, b) \<in> depends t"
      by (simp add: in_forward_table [OF True] depends_def in_set_conv_nth [of _ "topo_edges t"] Bex_def) blast
    finally show ?thesis .
  next
    case False
    then show ?thesis using depends_range [of t] by (auto simp: edges_of_def)
  qed
  then show ?thesis by (auto simp: set_eq_iff)
qed

lemma succ_table_range: "succs_range (succ_table t)"
  unfolding succs_range_def
proof (intro ballI)
  fix ss s assume "ss \<in> set (succ_table t)" "s \<in> set ss"
  then obtain a where "(a, s) \<in> edges_of (succ_table t)" by (auto simp: edges_of_def in_set_conv_nth)
  then show "s < length (succ_table t)" using depends_range [of t] by (auto simp: edges_of_succ_table)
qed

text \<open>The indegrees the code starts from are those of the forward table.\<close>

lemma reverse_lengths:
  assumes "v < length (topo_nodes t)"
  shows "length (reverse_table t ! v) = (\<Sum>u<length (topo_nodes t). count_list (map fst (reverse_table t ! v)) u)"
proof -
  have "set (map fst (reverse_table t ! v)) \<subseteq> {..<length (topo_nodes t)}"
  proof
    fix a assume "a \<in> set (map fst (reverse_table t ! v))"
    then obtain i where "(a, i) \<in> set (reverse_table t ! v)" by auto
    then show "a \<in> {..<length (topo_nodes t)}"
      using assms by (auto simp: in_reverse_table joins_def dest: node_index_Some)
  qed
  from sum_count_set [OF this] show ?thesis by simp
qed

lemma order_start:
  assumes "length succs = length (topo_nodes t)"
    and "\<forall>a<length (topo_nodes t). \<forall>b<length (topo_nodes t). count_list (succs ! a) b = count_list (map fst (reverse_table t ! b)) a"
  shows "order_inv succs {} (map length (reverse_table t)) (sources_of (map length (reverse_table t)))"
proof -
  have "length (reverse_table t ! v) = indegree_from succs {} v" if "v < length (topo_nodes t)" for v
    using reverse_lengths [OF that] assms that by (simp add: indegree_from_def)
  then show ?thesis using assms(1) by (auto simp: order_inv_def sources_of_def)
qed

section \<open>The successor lists of the critical path\<close>

lemma push_preds_spec:
  assumes "length ss = n" "\<forall>p\<in>set preds. fst p < n"
  shows "\<exists>ss'. fold_opt (\<lambda>(a, _). push_at a b) preds ss = Some ss' \<and> length ss' = n \<and>
     (\<forall>a<n. \<forall>x. count_list (ss' ! a) x = count_list (ss ! a) x + (if x = b then count_list (map fst preds) a else 0))"
  using assms
proof (induction preds arbitrary: ss)
  case (Cons p preds)
  obtain a j where p: "p = (a, j)" by fastforce
  let ?ss = "ss[a := ss ! a @ [b]]"
  have a: "a < n" using Cons.prems p by simp
  obtain ss' where ss': "fold_opt (\<lambda>(a, _). push_at a b) preds ?ss = Some ss'" "length ss' = n"
    "\<forall>a<n. \<forall>x. count_list (ss' ! a) x = count_list (?ss ! a) x + (if x = b then count_list (map fst preds) a else 0)"
    using Cons.IH [of ?ss] Cons.prems by auto
  have "count_list (ss' ! c) x = count_list (ss ! c) x + (if x = b then count_list (map fst (p # preds)) c else 0)"
    if "c < n" for c x
    using ss'(3) that Cons.prems(1) by (auto simp: nth_list_update p)
  moreover have "fold_opt (\<lambda>(a, _). push_at a b) (p # preds) ss = Some ss'"
    using ss'(1) a Cons.prems(1) by (simp add: p push_at_def)
  ultimately show ?case using ss'(2) by blast
qed simp

lemma successors_loop:
  assumes "length ss = n" "\<forall>preds\<in>set rvs. \<forall>p\<in>set preds. fst p < n"
  shows "\<exists>ss'. fold_opt (\<lambda>(b, preds). fold_opt (\<lambda>(a, _). push_at a b) preds) (enumerate k rvs) ss = Some ss' \<and>
     length ss' = n \<and>
     (\<forall>a<n. \<forall>x. count_list (ss' ! a) x = count_list (ss ! a) x +
        (if k \<le> x \<and> x < k + length rvs then count_list (map fst (rvs ! (x - k))) a else 0))"
  using assms
proof (induction rvs arbitrary: k ss)
  case (Cons preds rvs)
  obtain ss1 where ss1: "fold_opt (\<lambda>(a, _). push_at a k) preds ss = Some ss1" "length ss1 = n"
    "\<forall>a<n. \<forall>x. count_list (ss1 ! a) x = count_list (ss ! a) x + (if x = k then count_list (map fst preds) a else 0)"
    using push_preds_spec [of ss n preds k] Cons.prems by auto
  obtain ss' where ss': "fold_opt (\<lambda>(b, preds). fold_opt (\<lambda>(a, _). push_at a b) preds) (enumerate (Suc k) rvs) ss1 = Some ss'"
    "length ss' = n"
    "\<forall>a<n. \<forall>x. count_list (ss' ! a) x = count_list (ss1 ! a) x +
        (if Suc k \<le> x \<and> x < Suc k + length rvs then count_list (map fst (rvs ! (x - Suc k))) a else 0)"
    using Cons.IH [OF ss1(2), of "Suc k"] Cons.prems by auto
  have "count_list (ss' ! a) x = count_list (ss ! a) x +
        (if k \<le> x \<and> x < k + length (preds # rvs) then count_list (map fst ((preds # rvs) ! (x - k))) a else 0)"
    if "a < n" for a x
  proof (cases "x = k")
    case False
    then have "k \<le> x \<Longrightarrow> x - k = Suc (x - Suc k)" by simp
    with ss1(3) ss'(3) that False show ?thesis by auto
  qed (use ss1(3) ss'(3) that in simp)
  with ss1(1) ss'(1,2) show ?case by simp
qed simp

lemma successors_of_spec:
  obtains ss where "successors_of (length (topo_nodes t)) (reverse_table t) = Some ss"
    "length ss = length (topo_nodes t)"
    "\<forall>a<length (topo_nodes t). \<forall>b<length (topo_nodes t). count_list (ss ! a) b = count_list (map fst (reverse_table t ! b)) a"
    "edges_of ss = depends t" "succs_range ss"
proof -
  let ?n = "length (topo_nodes t)"
  have "\<forall>preds\<in>set (reverse_table t). \<forall>p\<in>set preds. fst p < ?n"
  proof (intro ballI)
    fix preds p assume "preds \<in> set (reverse_table t)" "p \<in> set preds"
    then obtain b where "b < ?n" "(fst p, snd p) \<in> set (reverse_table t ! b)" by (auto simp: in_set_conv_nth)
    then show "fst p < ?n" using in_reverse_table joins_range by blast
  qed
  from successors_loop [of "replicate ?n []" ?n _ 0, OF _ this] obtain ss where ss:
    "successors_of ?n (reverse_table t) = Some ss" "length ss = ?n"
    "\<forall>a<?n. \<forall>x. count_list (ss ! a) x = (if x < ?n then count_list (map fst (reverse_table t ! x)) a else 0)"
    by (auto simp: successors_of_def)
  have e: "edges_of ss = edges_of (succ_table t)"
  proof -
    have "0 < count_list (ss ! a) b \<longleftrightarrow> 0 < count_list (succ_table t ! a) b" if a: "a < ?n" for a b
    proof (cases "b < ?n")
      case True
      then show ?thesis using ss(3) a by (simp add: succ_table_def table_counts)
    next
      case False
      then have "(a, b) \<notin> edges_of (succ_table t)" using depends_range [of t] by (auto simp: edges_of_succ_table)
      with False ss(3) a show ?thesis by (simp add: edges_of_counts)
    qed
    then show ?thesis using ss(2) by (auto simp: edges_of_counts)
  qed
  have "succs_range ss"
    unfolding succs_range_def
  proof (intro ballI)
    fix xs x assume "xs \<in> set ss" "x \<in> set xs"
    then obtain a where "(a, x) \<in> edges_of ss" by (auto simp: edges_of_def in_set_conv_nth)
    then show "x < length ss" using depends_range [of t] by (auto simp: e edges_of_succ_table ss(2))
  qed
  with ss e show ?thesis by (intro that [of ss]) (auto simp: edges_of_succ_table)
qed

end
