(* ===== verification/Lint_Metrics.thy ===== *)
theory Lint_Metrics
  imports Lint_Tables
begin

text \<open>
  The metrics of a lint report are exact: the cycle test, the longest dependency path, the width (the largest
  set of nodes at the same depth) and the critical path, which saturates at the largest 64-bit number.
  Each is a consequence of the locale of the topological sweep, interpreted on the tables of a topology.
\<close>

section \<open>The two sweeps as interpretations\<close>

interpretation dag: level_sweep "succ_table t" for t
  by unfold_locales (simp_all add: succ_table_range)

definition saturated :: "nat \<Rightarrow> nat" where
  "saturated k = min (2 ^ 64 - 1) k"

definition successor_lists :: "execution_topology \<Rightarrow> nat list list" where
  "successor_lists t = the (successors_of (length (topo_nodes t)) (reverse_table t))"

lemma successor_lists:
  "successors_of (length (topo_nodes t)) (reverse_table t) = Some (successor_lists t)"
  "length (successor_lists t) = length (topo_nodes t)"
  "\<forall>a<length (topo_nodes t). \<forall>b<length (topo_nodes t).
     count_list (successor_lists t ! a) b = count_list (map fst (reverse_table t ! b)) a"
  "edges_of (successor_lists t) = depends t" "succs_range (successor_lists t)"
  using successors_of_spec [of t] by (metis option.sel successor_lists_def)+

lemma unat_max: "unat (max a b) = max (unat a) (unat (b :: 64 word))"
  by (simp add: max_def word_le_nat_alt)

lemma unat_saturating_add: "unat (u64_saturating_add a b) = saturated (unat a + unat b)"
proof (cases "unat a + unat b < 2 ^ 64")
  case True
  then have "unat a + unat b < 2 ^ LENGTH(64)" by simp
  then have "unat (a + b) = unat a + unat b" by (rule unat_add_lem [THEN iffD1])
  with True show ?thesis by (simp add: u64_saturating_add_def saturated_def)
next
  case False
  have "unat (- 1 :: 64 word) = 2 ^ 64 - 1" by (simp add: unsigned_minus_1_eq_mask mask_eq_exp_minus_1)
  with False show ?thesis by (simp add: u64_saturating_add_def saturated_def)
qed

lemma saturated_unat: "saturated (unat (a :: 64 word)) = unat a"
  using unsigned_less [of a, where 'a = nat] by (simp add: saturated_def)

interpretation crit: sweep_values "successor_lists t" "\<lambda>d v. u64_saturating_add d (durations ! v)" unat
  saturated "\<lambda>v. unat (durations ! v)" for t durations
  by unfold_locales (auto simp: successor_lists(5) unat_max unat_saturating_add saturated_def)

section \<open>Paths of a topology\<close>

text \<open>A dependency path over node positions, written from its last node back.\<close>

fun dependency_path :: "execution_topology \<Rightarrow> nat list \<Rightarrow> bool" where
  "dependency_path t [] = False"
| "dependency_path t [v] = (v < length (topo_nodes t))"
| "dependency_path t (v # u # p) = ((u, v) \<in> depends t \<and> dependency_path t (u # p))"

lemma back_path_dependency:
  assumes "length succs = length (topo_nodes t)" "edges_of succs = depends t"
  shows "back_path succs p \<longleftrightarrow> dependency_path t p"
  using assms by (induction t p rule: dependency_path.induct) auto

text \<open>The depth of a node: the number of nodes on the longest path into it.\<close>

definition depth_is :: "execution_topology \<Rightarrow> nat \<Rightarrow> nat \<Rightarrow> bool" where
  "depth_is t v k \<longleftrightarrow>
     (\<exists>p. dependency_path t (v # p) \<and> length (v # p) = k) \<and> (\<forall>p. dependency_path t (v # p) \<longrightarrow> length (v # p) \<le> k)"

definition longest_path_is :: "execution_topology \<Rightarrow> nat \<Rightarrow> bool" where
  "longest_path_is t k \<longleftrightarrow>
     (\<exists>p. dependency_path t p \<and> length p = k) \<and> (\<forall>p. dependency_path t p \<longrightarrow> length p \<le> k)"

definition width_is :: "execution_topology \<Rightarrow> nat \<Rightarrow> bool" where
  "width_is t k \<longleftrightarrow>
     (\<exists>j. card {v. depth_is t v j} = k) \<and> (\<forall>j. card {v. depth_is t v j} \<le> k)"

lemma sum_list_ones: "sum_list (map (\<lambda>_. Suc 0) p) = length p"
  by (induction p) simp_all

lemma dag_best:
  assumes "v < length (topo_nodes t)"
  shows "dag.best (dag.path_weights t v) k \<longleftrightarrow> depth_is t v k"
proof -
  have "back_path (succ_table t) p \<longleftrightarrow> dependency_path t p" for p
    by (rule back_path_dependency) (simp_all add: edges_of_succ_table)
  then show ?thesis
    by (auto simp: dag.best_def dag.path_weights_def depth_is_def sum_list_ones simp del: list.map)
qed

lemma depth_unique: "depth_is t v j \<Longrightarrow> depth_is t v k \<Longrightarrow> j = k"
  unfolding depth_is_def by (metis le_antisym)

lemma depth_range: "depth_is t v k \<Longrightarrow> v < length (topo_nodes t)"
  unfolding depth_is_def by (metis back_path_dependency back_path_range edges_of_succ_table lessThan_iff
      list.set_intros(1) subsetD succ_table_length succ_table_range)

section \<open>Cycle test, longest path, width\<close>

lemma dag_metrics_run:
  obtains D width ind distance where
    "drain_levels (\<lambda>d _. Suc d) (succ_table t)
       (length (sources_of (map length (reverse_table t))), 0, map length (reverse_table t),
        sources_of (map length (reverse_table t)), replicate (length (topo_nodes t)) (Suc 0))
     = Some (width, card D, ind, [], distance)"
    "order_inv (succ_table t) D ind []" "dag.value_inv t D distance" "dag.width_inv width D [] distance"
proof -
  let ?ind = "map length (reverse_table t)" and ?n = "length (topo_nodes t)"
  let ?q = "sources_of ?ind" and ?one = "replicate ?n (Suc 0)"
  have order: "order_inv (succ_table t) {} ?ind ?q"
    by (rule order_start) (simp_all add: succ_table_def table_counts)
  have vals: "dag.value_inv t {} ?one" by (rule dag.value_start) simp_all
  have q: "set ?q \<subseteq> {..<?n}" "distinct ?q" by (auto simp: sources_of_def)
  then have level: "dag.level_inv t (Suc 0) {} ?q [] ?one" by (auto simp: dag.level_inv_def)
  have "{v \<in> {} \<union> set ?q. ?one ! v = j} = (if j = Suc 0 then set ?q else {})" for j
    using q(1) by auto
  then have width: "dag.width_inv (length ?q) {} ?q ?one"
    by (auto simp: dag.width_inv_def distinct_card [OF q(2)] intro!: exI [of _ "Suc 0"])
  from dag.drain_levels_total [OF order vals level width] that show ?thesis by auto
qed

lemma dag_metrics_spec:
  obtains width longest where
    "dag_metrics (forward_table t) (reverse_table t) = Some (acyclic (depends t), width, longest)"
    "longest = None \<longleftrightarrow> \<not> acyclic (depends t)"
    "\<And>k. longest = Some k \<Longrightarrow> topo_nodes t \<noteq> [] \<Longrightarrow> longest_path_is t k"
    "acyclic (depends t) \<Longrightarrow> width_is t width"
proof -
  let ?n = "length (topo_nodes t)"
  obtain D width ind distance where run:
    "drain_levels (\<lambda>d _. Suc d) (succ_table t)
       (length (sources_of (map length (reverse_table t))), 0, map length (reverse_table t),
        sources_of (map length (reverse_table t)), replicate ?n (Suc 0))
     = Some (width, card D, ind, [], distance)"
    and inv: "order_inv (succ_table t) D ind []" "dag.value_inv t D distance" "dag.width_inv width D [] distance"
    by (rule dag_metrics_run)
  have all: "card D = ?n \<longleftrightarrow> acyclic (depends t)"
    using order_inv_end [OF inv(1) succ_table_range] by (simp add: edges_of_succ_table)
  have len: "length distance = ?n" using inv(2) by (simp add: dag.value_inv_def)
  have final: "depth_is t v (distance ! v)" if "acyclic (depends t)" "v < ?n" for v
    using dag.value_final [OF inv(1,2), of v] that by (simp add: edges_of_succ_table dag_best)
  show ?thesis
  proof (rule that)
    show "dag_metrics (forward_table t) (reverse_table t) = Some (acyclic (depends t), width,
        if acyclic (depends t) then Some (if distance = [] then 0 else Max (set distance)) else None)"
      using run all by (simp add: dag_metrics_def Let_def succ_table_def)
    show "longest_path_is t k" if k: "(if acyclic (depends t) then Some (if distance = [] then 0 else Max (set distance))
        else None) = Some k" and ne: "topo_nodes t \<noteq> []" for k
    proof -
      have ac: "acyclic (depends t)" and k': "k = Max (set distance)" using k ne len by (auto split: if_splits)
      have path: "back_path (succ_table t) p \<longleftrightarrow> dependency_path t p" for p
        by (rule back_path_dependency) (simp_all add: edges_of_succ_table)
      have "\<forall>v<length (succ_table t). dag.best (dag.path_weights t v) (distance ! v)"
        using final [OF ac] by (simp add: dag_best)
      moreover have "succ_table t \<noteq> []" using ne by (metis length_0_conv succ_table_length)
      ultimately show ?thesis using dag.heaviest_path [of t distance] len path
        by (auto simp: longest_path_is_def k' sum_list_ones simp del: list.map)
    qed
    show "width_is t width" if ac: "acyclic (depends t)"
    proof -
      have "D \<subseteq> {..<?n}" using inv(1) by (auto simp: order_inv_def)
      with all ac have "D = {..<?n}" by (metis card_lessThan card_subset_eq finite_lessThan)
      then have "{v \<in> D \<union> set []. distance ! v = j} = {v. depth_is t v j}" for j
        by (auto simp: final [OF ac] dest: depth_range intro: depth_unique [OF final [OF ac depth_range]])
      with inv(3) show ?thesis unfolding dag.width_inv_def width_is_def by simp
    qed
  qed simp
qed

section \<open>Critical path\<close>

definition path_duration :: "execution_topology \<Rightarrow> nat list \<Rightarrow> nat" where
  "path_duration t p = sum_list (map (\<lambda>v. unat (the (tn_estimated_duration_ms (topo_nodes t ! v)))) p)"

definition critical_path_is :: "execution_topology \<Rightarrow> 64 word \<Rightarrow> bool" where
  "critical_path_is t ms \<longleftrightarrow>
     (\<exists>p. dependency_path t p \<and> unat ms = saturated (path_duration t p)) \<and>
     (\<forall>p. dependency_path t p \<longrightarrow> saturated (path_duration t p) \<le> unat ms)"

lemma critical_path_spec:
  obtains critical where "critical_path_ms t (reverse_table t) = Some critical"
    "critical = None \<longleftrightarrow> topo_nodes t = [] \<or> (\<exists>n\<in>set (topo_nodes t). tn_estimated_duration_ms n = None)"
    "\<And>ms. critical = Some ms \<Longrightarrow> acyclic (depends t) \<Longrightarrow> critical_path_is t ms"
proof (cases "those (map tn_estimated_duration_ms (topo_nodes t))")
  case None
  then have "critical_path_ms t (reverse_table t) = Some None" by (simp add: critical_path_ms_def)
  with None show ?thesis by (intro that [of None]) (simp_all add: those_map_None)
next
  case (Some durations)
  let ?n = "length (topo_nodes t)" and ?ind = "map length (reverse_table t)"
  have durs: "map tn_estimated_duration_ms (topo_nodes t) = map Some durations"
    using Some by (simp add: those_map_Some)
  then have len: "length durations = ?n" by (metis length_map)
  have nth: "tn_estimated_duration_ms (topo_nodes t ! v) = Some (durations ! v)" if "v < ?n" for v
    using durs that len by (metis nth_map)
  have order: "order_inv (successor_lists t) {} ?ind (sources_of ?ind)"
    by (rule order_start) (simp_all add: successor_lists(2,3))
  have vals: "crit.value_inv t durations {} durations"
    by (rule crit.value_start) (simp_all add: len successor_lists(2) saturated_unat)
  obtain D ind longest where run:
    "sweep (\<lambda>d v. u64_saturating_add d (durations ! v)) (successor_lists t) (?ind, sources_of ?ind, durations) = Some (ind, [], longest)"
    and inv: "order_inv (successor_lists t) D ind []" "crit.value_inv t durations D longest"
    by (rule crit.sweep_total [OF order vals])
  have llen: "length longest = ?n" using inv(2) by (simp add: crit.value_inv_def successor_lists(2))
  have path: "back_path (successor_lists t) p \<longleftrightarrow> dependency_path t p" for p
    by (rule back_path_dependency) (simp_all add: successor_lists)
  have weight: "sum_list (map (\<lambda>v. unat (durations ! v)) p) = path_duration t p" if "dependency_path t p" for p
  proof -
    have "set p \<subseteq> {..<?n}" using back_path_range [OF successor_lists(5) [of t], of p] that path by (simp add: successor_lists(2))
    then show ?thesis unfolding path_duration_def by (intro arg_cong [of _ _ sum_list] map_cong) (auto simp: nth)
  qed
  show ?thesis
  proof (rule that)
    show "critical_path_ms t (reverse_table t) = Some (if longest = [] then None else Some (Max (set longest)))"
      using run by (simp add: critical_path_ms_def Some successor_lists(1))
    show "(if longest = [] then None else Some (Max (set longest))) = None \<longleftrightarrow>
        topo_nodes t = [] \<or> (\<exists>n\<in>set (topo_nodes t). tn_estimated_duration_ms n = None)"
      using llen nth by (auto simp: in_set_conv_nth)
    show "critical_path_is t ms"
      if ms: "(if longest = [] then None else Some (Max (set longest))) = Some ms" and ac: "acyclic (depends t)" for ms
    proof -
      have ms': "ms = Max (set longest)" and ne: "successor_lists t \<noteq> []"
        using ms llen successor_lists(2) [of t] by (auto split: if_splits)
      have "\<forall>v<length (successor_lists t). crit.best (crit.path_weights t durations v) (unat (longest ! v))"
        using crit.value_final [OF inv] ac by (simp add: successor_lists(4))
      note heaviest = crit.heaviest_path [OF this _ ne]
      have "\<exists>p. dependency_path t p \<and> unat ms = saturated (path_duration t p)"
        using heaviest(1) llen weight by (auto simp: successor_lists(2) ms' path)
      moreover have "saturated (path_duration t p) \<le> unat ms" if "dependency_path t p" for p
        using heaviest(2) [of p] llen weight [OF that] that by (simp add: successor_lists(2) ms' path)
      ultimately show ?thesis by (simp add: critical_path_is_def)
    qed
  qed
qed

end
