(* ===== verification/Lint_Properties.thy ===== *)
theory Lint_Properties
  imports Lint_Metrics Topology_Contract
begin

text \<open>
  What a lint report says of a topology: the linter always returns a report, its metrics are exact, its
  reachability answers are reachability, and it reports a deterministic error exactly when the topology
  breaks the contract, has a cycle, lets unordered nodes collide on a resource, or expands without budget.
\<close>

section \<open>Reachability\<close>

text \<open>The dependencies that remain when one edge is left out, of one kind or of all.\<close>

definition links_without :: "execution_topology \<Rightarrow> nat \<Rightarrow> (nat \<times> nat) set" where
  "links_without t ignored =
     {(a, b). \<exists>i<length (topo_edges t). i \<noteq> ignored \<and> joins t (topo_edges t ! i) a b}"

definition kind_links_without :: "execution_topology \<Rightarrow> nat \<Rightarrow> edge_kind \<Rightarrow> (nat \<times> nat) set" where
  "kind_links_without t ignored kind =
     {(a, b). \<exists>i<length (topo_edges t). i \<noteq> ignored \<and> te_kind (topo_edges t ! i) = kind \<and> joins t (topo_edges t ! i) a b}"

lemma forward_table_entry:
  assumes "es \<in> set (forward_table t)" "(b, i) \<in> set es"
  shows "i < length (topo_edges t)" "b < length (topo_nodes t)"
proof -
  obtain a where "a < length (topo_nodes t)" "(b, i) \<in> set (forward_table t ! a)"
    using assms by (auto simp: in_set_conv_nth [of _ "forward_table t"])
  then show "i < length (topo_edges t)" "b < length (topo_nodes t)"
    using in_forward_table joins_range by blast+
qed

lemma forward_in_range: "in_range (forward_table t)"
  unfolding in_range_def using forward_table_entry by fastforce

lemma reachable_ignoring_edge_exact:
  assumes "a < length (topo_nodes t)"
  shows "reachable_ignoring_edge a b ignored (forward_table t) = Some ((a, b) \<in> (links_without t ignored)\<^sup>+)"
proof -
  have "kept (\<lambda>e. Some (e \<noteq> ignored)) (forward_table t) = links_without t ignored"
    using in_forward_table joins_range by (auto simp: kept_def links_without_def)
  moreover have "keep_total (\<lambda>e. Some (e \<noteq> ignored)) (forward_table t)" by (auto simp: keep_total_def)
  ultimately show ?thesis
    using reachable_by_correct [OF forward_in_range, of "\<lambda>e. Some (e \<noteq> ignored)" t a b] assms
    by (simp add: reachable_ignoring_edge_def)
qed

lemma reachable_of_kind_exact:
  assumes "a < length (topo_nodes t)"
  shows "reachable_ignoring_edge_of_kind a b ignored kind (forward_table t) (topo_edges t)
    = Some ((a, b) \<in> (kind_links_without t ignored kind)\<^sup>+)"
proof -
  let ?keep = "keep_kind ignored kind (topo_edges t)"
  have "kept ?keep (forward_table t) = kind_links_without t ignored kind"
    using in_forward_table joins_range
    by (auto simp: kept_def kind_links_without_def keep_kind_def split: if_splits)
  moreover have "keep_total ?keep (forward_table t)"
    using forward_table_entry by (auto simp: keep_total_def keep_kind_def)
  ultimately show ?thesis
    using reachable_by_correct [OF forward_in_range, of ?keep t a b] assms
    by (simp add: reachable_ignoring_edge_of_kind_def)
qed

lemma links_without_none: "length (topo_edges t) \<le> ignored \<Longrightarrow> links_without t ignored = depends t"
  by (fastforce simp: links_without_def depends_def in_set_conv_nth)

section \<open>The report\<close>

definition edge_report :: "execution_topology \<Rightarrow> nat \<times> topology_edge \<Rightarrow> graph_lint_finding list" where
  "edge_report t ie = the (edge_findings t (forward_table t) ie)"

definition pair_report :: "execution_topology \<Rightarrow> nat \<Rightarrow> nat \<Rightarrow> graph_lint_finding list" where
  "pair_report t left right = the (pair_findings t (forward_table t) left right)"

lemma edge_findings_total: "edge_findings t (forward_table t) ie = Some (edge_report t ie)"
proof -
  obtain i e where ie: "ie = (i, e)" by fastforce
  have "edge_findings t (forward_table t) (i, e) \<noteq> None"
    using node_index_Some(1) [of t "te_from e"]
    by (auto simp: edge_findings_def reachable_of_kind_exact split: option.split)
  then show ?thesis by (auto simp: edge_report_def ie)
qed

lemma pair_findings_total:
  assumes "left < length (topo_nodes t)" "right < length (topo_nodes t)"
  shows "pair_findings t (forward_table t) left right = Some (pair_report t left right)"
  using assms
  by (auto simp: pair_report_def pair_findings_def reachable_ignoring_edge_exact split: bool.split)

lemma those_map_total: "(\<And>x. x \<in> set xs \<Longrightarrow> f x = Some (g x)) \<Longrightarrow> those (map f xs) = Some (map g xs)"
  by (induction xs) auto

definition pair_positions :: "nat \<Rightarrow> (nat \<times> nat) list" where
  "pair_positions n = concat (map (\<lambda>left. map (Pair left) [Suc left..<n]) [0..<n])"

lemma set_pair_positions: "(l, r) \<in> set (pair_positions n) \<longleftrightarrow> l < r \<and> r < n"
  by (force simp: pair_positions_def)

lemma resource_conflicts_total:
  "resource_conflicts t (forward_table t) =
   Some (concat (map (\<lambda>(l, r). pair_report t l r) (pair_positions (length (topo_nodes t)))))"
proof -
  let ?n = "length (topo_nodes t)"
  have "concat (map (\<lambda>left. map (pair_findings t (forward_table t) left) [Suc left..<?n]) [0..<?n])
    = map (\<lambda>(l, r). pair_findings t (forward_table t) l r) (pair_positions ?n)"
    by (simp add: pair_positions_def map_concat comp_def)
  also have "those \<dots> = Some (map (\<lambda>(l, r). pair_report t l r) (pair_positions ?n))"
    by (rule those_map_total) (auto simp: set_pair_positions pair_findings_total)
  finally show ?thesis by (simp add: resource_conflicts_def)
qed

definition lint_report_findings :: "execution_topology \<Rightarrow> graph_lint_finding list" where
  "lint_report_findings t =
     contract_findings t
     @ lint_when (\<not> acyclic (depends t))
         (lint_finding ''dependency_cycle'' FcDeterministic LsError ''$.edges'' ''the topology contains a dependency cycle'')
     @ concat (map (edge_report t) (enumerate 0 (topo_edges t)))
     @ concat (map (\<lambda>(l, r). pair_report t l r) (pair_positions (length (topo_nodes t))))
     @ each_indexed (node_findings (forward_table t) (reverse_table t)) (topo_nodes t)
     @ policy_findings t @ closing_findings t"

lemma lint_findings_total:
  "lint_findings t (forward_table t) (reverse_table t) (acyclic (depends t)) = Some (lint_report_findings t)"
proof -
  have "those (map (edge_findings t (forward_table t)) (enumerate 0 (topo_edges t)))
    = Some (map (edge_report t) (enumerate 0 (topo_edges t)))"
    by (rule those_map_total) (rule edge_findings_total)
  then show ?thesis by (simp add: lint_findings_def resource_conflicts_total lint_report_findings_def)
qed

lemma lint_run:
  assumes "execution_topology_content_hash to_string digest t = Ok h"
  obtains width longest critical where
    "lint_execution_topology to_string digest t =
       Some \<lparr>lr_schema = graph_lint_report_schema, lr_report_version = 0, lr_topology_id = topo_id t,
         lr_topology_content_hash = h,
         lr_metrics = lint_metrics t (forward_table t) (reverse_table t) width longest critical,
         lr_findings = sort_key lint_key (lint_report_findings t)\<rparr>"
    "longest = None \<longleftrightarrow> \<not> acyclic (depends t)"
    "\<And>k. longest = Some k \<Longrightarrow> topo_nodes t \<noteq> [] \<Longrightarrow> longest_path_is t k"
    "acyclic (depends t) \<Longrightarrow> width_is t width"
    "critical = None \<longleftrightarrow> \<not> acyclic (depends t) \<or> topo_nodes t = [] \<or> (\<exists>n\<in>set (topo_nodes t). tn_estimated_duration_ms n = None)"
    "\<And>ms. critical = Some ms \<Longrightarrow> critical_path_is t ms"
proof -
  obtain width longest where dag: "dag_metrics (forward_table t) (reverse_table t) = Some (acyclic (depends t), width, longest)"
    and longest: "longest = None \<longleftrightarrow> \<not> acyclic (depends t)"
      "\<And>k. longest = Some k \<Longrightarrow> topo_nodes t \<noteq> [] \<Longrightarrow> longest_path_is t k"
    and width: "acyclic (depends t) \<Longrightarrow> width_is t width"
    by (rule dag_metrics_spec [of t]) blast
  obtain critical where crit: "critical_path_ms t (reverse_table t) = Some critical"
    and none: "critical = None \<longleftrightarrow> topo_nodes t = [] \<or> (\<exists>n\<in>set (topo_nodes t). tn_estimated_duration_ms n = None)"
    and some: "\<And>ms. critical = Some ms \<Longrightarrow> acyclic (depends t) \<Longrightarrow> critical_path_is t ms"
    by (rule critical_path_spec [of t]) blast
  let ?c = "if acyclic (depends t) then critical else None"
  have c: "(if acyclic (depends t) then critical_path_ms t (reverse_table t) else Some None) = Some ?c"
    using crit by simp
  show ?thesis
  proof (rule that [OF _ longest width])
    show "lint_execution_topology to_string digest t =
       Some \<lparr>lr_schema = graph_lint_report_schema, lr_report_version = 0, lr_topology_id = topo_id t,
         lr_topology_content_hash = h,
         lr_metrics = lint_metrics t (forward_table t) (reverse_table t) width longest ?c,
         lr_findings = sort_key lint_key (lint_report_findings t)\<rparr>"
      unfolding lint_execution_topology_def graph_tables_total
      by (simp only: option.case prod.case dag lint_findings_total assms sum.case c)
    show "?c = None \<longleftrightarrow> \<not> acyclic (depends t) \<or> topo_nodes t = [] \<or> (\<exists>n\<in>set (topo_nodes t). tn_estimated_duration_ms n = None)"
      using none by auto
    show "critical_path_is t ms" if "?c = Some ms" for ms
      using that some by (auto split: if_splits)
  qed
qed

section \<open>Deterministic errors\<close>

definition unordered :: "execution_topology \<Rightarrow> nat \<Rightarrow> nat \<Rightarrow> bool" where
  "unordered t a b \<longleftrightarrow> (a, b) \<notin> (depends t)\<^sup>+ \<and> (b, a) \<notin> (depends t)\<^sup>+"

definition collide :: "resource_claim \<Rightarrow> resource_claim \<Rightarrow> bool" where
  "collide l r \<longleftrightarrow>
     claim_resource l = claim_resource r \<and> (claim_mode l \<noteq> RmRead \<or> claim_mode r \<noteq> RmRead) \<and> \<not> isolated_file l r"

definition conflict_free :: "execution_topology \<Rightarrow> bool" where
  "conflict_free t \<longleftrightarrow>
     (\<forall>b<length (topo_nodes t). \<forall>a<b. unordered t a b \<longrightarrow>
        (\<forall>l\<in>set (tn_resource_claims (topo_nodes t ! a)). \<forall>r\<in>set (tn_resource_claims (topo_nodes t ! b)). \<not> collide l r))"

definition expansions_budgeted :: "execution_topology \<Rightarrow> bool" where
  "expansions_budgeted t \<longleftrightarrow>
     (\<forall>n\<in>set (topo_nodes t). tn_expansion_policy_id n \<noteq> None \<longrightarrow> tn_budget_policy_id n \<noteq> None)"

named_theorems error_free \<open>when a group of findings has no deterministic error\<close>

definition no_error :: "graph_lint_finding list \<Rightarrow> bool" where
  "no_error fs \<longleftrightarrow> list_all (\<lambda>f. \<not> is_deterministic_error f) fs"

lemma no_error_simps [error_free]:
  "no_error []" "no_error (f # fs) \<longleftrightarrow> \<not> is_deterministic_error f \<and> no_error fs"
  "no_error (fs @ gs) \<longleftrightarrow> no_error fs \<and> no_error gs"
  "no_error (concat fss) \<longleftrightarrow> (\<forall>fs\<in>set fss. no_error fs)"
  "no_error (lint_when b f) \<longleftrightarrow> (b \<longrightarrow> \<not> is_deterministic_error f)"
  by (auto simp: no_error_def lint_when_def list_all_iff)

lemma is_error_lint_finding [error_free]:
  "is_deterministic_error (lint_finding c k s l d) \<longleftrightarrow> k = FcDeterministic \<and> s = LsError"
  by (simp add: is_deterministic_error_def lint_finding_def)

lemma contract_no_error: "no_error (contract_findings t) \<longleftrightarrow> topology_ok t"
  by (cases "validate_execution_topology t")
    (auto simp: contract_findings_def error_free simp flip: contract_accepts)

lemma edge_no_error: "no_error (edge_report t ie)"
proof -
  have "edge_findings t (forward_table t) ie = Some fs \<Longrightarrow> no_error fs" for fs
    by (auto simp: edge_findings_def error_free split: prod.splits option.splits if_splits)
  then show ?thesis using edge_findings_total by blast
qed

text \<open>
  The check for a protecting exclusion edge is never reached with such an edge present: an edge between the
  two nodes already orders them.
\<close>

lemma exclusion_orders: "exclusion_protects t a b res \<Longrightarrow> \<not> unordered t a b"
  by (auto simp: exclusion_protects_def unordered_def depends_def joins_def)

lemma pair_no_error:
  assumes "length (topo_edges t) \<le> usize_max" "a < length (topo_nodes t)" "b < length (topo_nodes t)"
  shows "no_error (pair_report t a b) \<longleftrightarrow>
    (unordered t a b \<longrightarrow> (\<forall>l\<in>set (tn_resource_claims (topo_nodes t ! a)).
       \<forall>r\<in>set (tn_resource_claims (topo_nodes t ! b)). \<not> collide l r))"
proof -
  have claim: "no_error (claim_pair_findings t a b l r) \<longleftrightarrow> \<not> collide l r" if "unordered t a b" for l r
    using exclusion_orders [of t a b] that
    by (auto simp: claim_pair_findings_def collide_def claims_conflict_def error_free)
  have "reachable_ignoring_edge a b usize_max (forward_table t) = Some ((a, b) \<in> (depends t)\<^sup>+)"
    "reachable_ignoring_edge b a usize_max (forward_table t) = Some ((b, a) \<in> (depends t)\<^sup>+)"
    using assms by (simp_all add: reachable_ignoring_edge_exact links_without_none)
  then show ?thesis
    using claim by (auto simp: pair_report_def pair_findings_def unordered_def error_free split: bool.split)
qed

lemma nodes_no_error:
  "no_error (each_indexed (node_findings adj rvs) ns) \<longleftrightarrow>
   (\<forall>n\<in>set ns. tn_expansion_policy_id n \<noteq> None \<longrightarrow> tn_budget_policy_id n \<noteq> None)"
proof -
  have "no_error (node_findings adj rvs i n) \<longleftrightarrow> (tn_expansion_policy_id n \<noteq> None \<longrightarrow> tn_budget_policy_id n \<noteq> None)" for i n
    unfolding node_findings_def no_error_simps is_error_lint_finding by auto
  then show ?thesis
    by (simp add: each_indexed_upt error_free all_set_conv_all_nth atLeast0LessThan lessThan_def)
qed

lemma lint_no_error:
  assumes "length (topo_edges t) \<le> usize_max"
  shows "no_error (lint_report_findings t) \<longleftrightarrow>
    topology_ok t \<and> acyclic (depends t) \<and> conflict_free t \<and> expansions_budgeted t"
proof -
  let ?n = "length (topo_nodes t)"
  have "no_error (concat (map (\<lambda>(l, r). pair_report t l r) (pair_positions ?n))) \<longleftrightarrow>
    (\<forall>b<?n. \<forall>a<b. no_error (pair_report t a b))"
  proof -
    have "no_error (concat (map (\<lambda>(l, r). pair_report t l r) (pair_positions ?n))) \<longleftrightarrow>
      (\<forall>(l, r)\<in>set (pair_positions ?n). no_error (pair_report t l r))"
      by (auto simp: error_free)
    also have "\<dots> \<longleftrightarrow> (\<forall>l r. l < r \<and> r < ?n \<longrightarrow> no_error (pair_report t l r))"
      by (simp add: Ball_def split_paired_All set_pair_positions)
    finally show ?thesis by auto
  qed
  also have "\<dots> \<longleftrightarrow> conflict_free t"
    using pair_no_error [OF assms] unfolding conflict_free_def by (meson order_less_trans)
  finally have pairs: "no_error (concat (map (\<lambda>(l, r). pair_report t l r) (pair_positions ?n))) \<longleftrightarrow> conflict_free t" .
  have policy: "no_error (policy_findings t)"
    by (auto simp: policy_findings_def uninspectable_def no_error_def list_all_iff error_free)
  have closing: "no_error (closing_findings t)"
    by (cases "topo_completeness_policy t") (auto simp: closing_findings_def Let_def error_free)
  show ?thesis
    unfolding lint_report_findings_def no_error_simps(3) pairs contract_no_error nodes_no_error
    using policy closing by (auto simp: error_free edge_no_error expansions_budgeted_def)
qed

section \<open>Claims\<close>

text \<open>
  Linting a topology that serializes never panics: no table is indexed out of range, no indegree
  is decremented below zero, both loops end, and the report carries the identity and the content hash of
  the topology with its findings in the documented order (deterministic first, errors first).
\<close>

theorem lint_always_reports:
  assumes "execution_topology_content_hash to_string digest t = Ok h"
  shows "\<exists>r. lint_execution_topology to_string digest t = Some r \<and> lr_topology_id r = topo_id t \<and>
    lr_topology_content_hash r = h \<and> sorted (map lint_key (lr_findings r))"
  by (rule lint_run [OF assms]) simp

text \<open>
  Claim C7. The structural metrics are those of the dependency relation: there is a longest path exactly when the
  relation is acyclic, it then has as many nodes as the longest dependency path, and the parallel width is the
  size of the largest set of nodes of equal depth.
\<close>

theorem lint_metrics_exact:
  assumes "execution_topology_content_hash to_string digest t = Ok h" "topo_nodes t \<noteq> []"
  shows "\<exists>r. lint_execution_topology to_string digest t = Some r \<and>
    (if acyclic (depends t)
     then \<exists>k. lm_longest_path_nodes (lr_metrics r) = Some k \<and> longest_path_is t k \<and>
            width_is t (lm_theoretical_parallel_width (lr_metrics r))
     else lm_longest_path_nodes (lr_metrics r) = None)"
  by (rule lint_run [OF assms(1)]) (use assms(2) in \<open>auto simp: lint_metrics_def\<close>)

text \<open>
  Claim C8. The critical path is known exactly when the topology is acyclic, not empty and every node has an
  estimate; it is then the duration of the longest dependency path, and the largest 64-bit number when that duration
  does not fit: the additions saturate and never wrap.
\<close>

theorem critical_path_saturates:
  assumes "execution_topology_content_hash to_string digest t = Ok h"
  shows "\<exists>r. lint_execution_topology to_string digest t = Some r \<and>
    (if acyclic (depends t) \<and> topo_nodes t \<noteq> [] \<and> (\<forall>n\<in>set (topo_nodes t). tn_estimated_duration_ms n \<noteq> None)
     then \<exists>ms. lm_critical_path_ms (lr_metrics r) = Some ms \<and> critical_path_is t ms
     else lm_critical_path_ms (lr_metrics r) = None)"
  by (rule lint_run [OF assms]) (auto simp: lint_metrics_def)

text \<open>
  The search behind the redundant-edge finding decides reachability: it answers whether a non-empty path of
  edges of the given kind, the ignored edge left out, leads from one node to the other.
\<close>

theorem redundant_search_exact:
  assumes "graph_tables t = Some (adj, rvs)" "a < length (topo_nodes t)"
  shows "reachable_ignoring_edge_of_kind a b ignored kind adj (topo_edges t)
    = Some ((a, b) \<in> (kind_links_without t ignored kind)\<^sup>+)"
proof -
  have "adj = forward_table t" using assms(1) by (simp add: graph_tables_total)
  with reachable_of_kind_exact [OF assms(2)] show ?thesis by simp
qed

text \<open>
  Claim C6. A report has no deterministic error exactly for the topologies that satisfy the contract, have no
  dependency cycle, give no two unordered nodes conflicting claims on one resource (isolated worktrees apart), and
  budget every expansion.
\<close>

theorem lint_errors_exact:
  assumes "execution_topology_content_hash to_string digest t = Ok h" "length (topo_edges t) \<le> usize_max"
  shows "\<exists>r. lint_execution_topology to_string digest t = Some r \<and>
    (list_all (\<lambda>f. \<not> is_deterministic_error f) (lr_findings r) \<longleftrightarrow>
     topology_ok t \<and> acyclic (depends t) \<and> conflict_free t \<and> expansions_budgeted t)"
proof -
  obtain r where "lint_execution_topology to_string digest t = Some r"
    "lr_findings r = sort_key lint_key (lint_report_findings t)"
    by (rule lint_run [OF assms(1)]) simp
  moreover have "list_all (\<lambda>f. \<not> is_deterministic_error f) (sort_key lint_key (lint_report_findings t))
    \<longleftrightarrow> no_error (lint_report_findings t)"
    by (simp add: list_all_iff no_error_def)
  ultimately show ?thesis using lint_no_error [OF assms(2)] by simp
qed

end
