(* ===== verification/Dynamic_Expansion.thy ===== *)
theory Dynamic_Expansion
  imports Topology_Patch Lint_Properties
begin

text \<open>
  \<open>src/dynamic_expansion.rs\<close>: expansion policies, candidates, the controller that turns candidates into
  unreviewed proposals under the budgets of its policy, and the check of an accepted review. Costs are
  floating-point numbers: their type is \<open>'f\<close> and the operations on them are fields of the environment, as
  are the JSON printers and the digest. The counters of 32 bits are naturals with the saturation written out.
\<close>

section \<open>Data\<close>

record 'f expansion_env =
  f_add :: "'f \<Rightarrow> 'f \<Rightarrow> 'f"
  f_less :: "'f \<Rightarrow> 'f \<Rightarrow> bool"
  f_le :: "'f \<Rightarrow> 'f \<Rightarrow> bool"
  f_finite :: "'f \<Rightarrow> bool"
  f_zero :: 'f
  topology_text :: "execution_topology \<Rightarrow> string"
  dedupe_text :: "(string, string) fmap \<Rightarrow> string"
  material_text :: "string \<times> topology_patch \<Rightarrow> string"
  sha256_hex :: "string \<Rightarrow> string"

datatype dedupe_scope = AllSeen

datatype candidate_disposition_contract = UnreviewedMorphismProposal

record 'f expansion_policy =
  ep_schema :: string
  ep_schema_version :: nat
  expansion_policy_id :: string
  ep_candidate_schema_id :: string
  dedupe_key :: "string list"
  ep_dedupe_scope :: dedupe_scope
  dry_rounds_required :: nat
  max_iterations :: nat
  max_spawned_nodes :: nat
  max_cost :: 'f
  cost_currency :: string
  max_latency_ms :: "64 word"
  ep_candidate_disposition :: candidate_disposition_contract
  ep_provenance :: topology_provenance

datatype candidate_disposition_request = AcceptForProposal | RejectCandidate | DeferCandidate

record expansion_candidate =
  ec_candidate_schema_id :: string
  dedupe_values :: "(string, string) fmap"
  requested_disposition :: candidate_disposition_request
  ec_topology_patch :: topology_patch

datatype candidate_disposition = AcceptedForProposal | RejectedCandidate | DuplicateCandidate | DeferredCandidate

datatype expansion_halt =
  HaltContinue | HaltDry | HaltMaxIterations | HaltMaxSpawnedNodes | HaltMaxCost | HaltMaxLatency | HaltNeedsReview

record candidate_decision =
  dedupe_fingerprint :: string
  cd_disposition :: candidate_disposition
  cd_finding :: "expansion_finding option"
  cd_proposal_id :: "string option"

record expansion_proposal =
  xp_proposal_id :: string
  xp_base_topology_content_hash :: string
  xp_proposed_topology_content_hash :: string
  xp_review_status :: string
  xp_topology_patch :: topology_patch
  xp_topology_diff :: topology_patch_diff
  xp_morphism_proposal :: json

record 'f expansion_round_result =
  rr_iteration :: nat
  rr_dry_rounds :: nat
  rr_total_cost :: 'f
  rr_total_latency_ms :: "64 word"
  rr_spawned_nodes :: nat
  rr_halt :: expansion_halt
  rr_findings :: "expansion_finding list"
  rr_decisions :: "candidate_decision list"
  rr_proposals :: "expansion_proposal list"

record reviewed_topology_transition =
  rt_proposal_id :: string
  rt_accepted_review_id :: string
  rt_accepted_revision_id :: string
  rt_base_topology_content_hash :: string
  rt_reviewed_topology_content_hash :: string
  rt_accepted_graph_mutated :: bool

record accepted_expansion_review_binding =
  ab_proposal_id :: string
  ab_reviewed_topology_content_hash :: string
  ab_review_id :: string
  ab_revision_id :: string

record 'f expansion_controller =
  xc_policy :: "'f expansion_policy"
  xc_base_topology :: execution_topology
  xc_base_topology_hash :: string
  xc_topology_id :: string
  xc_case_space_id :: string
  xc_active_attempt :: "string option"
  xc_seen :: "string set"
  xc_iteration :: nat
  xc_dry_rounds :: nat
  xc_spawned_nodes :: nat
  xc_total_cost :: 'f
  xc_total_latency_ms :: "64 word"
  xc_proposals :: "(string, expansion_proposal) fmap"

text \<open>The reviewed binding of \<open>src/graph_compiler.rs\<close> that an acceptance starts from.\<close>

record reviewed_topology_binding =
  tb_claim_cell_id :: string
  tb_review_id :: string
  tb_topology_content_hash :: string
  tb_policy_manifest_content_hash :: string
  tb_case_space_id :: string
  tb_base_revision_id :: string
  tb_expansion_proposal_id :: "string option"
  tb_compiler_version :: string
  tb_compiler_semantic_profile :: string
  tb_compiler_inputs_schema :: string
  tb_compiler_contract_versions_content_hash :: string

datatype compilation_mode = ProposalMode | ReviewedMode reviewed_topology_binding

fun mode_reviewed_binding :: "compilation_mode \<Rightarrow> reviewed_topology_binding option" where
  "mode_reviewed_binding ProposalMode = None"
| "mode_reviewed_binding (ReviewedMode b) = Some b"

definition expansion_policy_schema :: string where
  "expansion_policy_schema = ''casegraphen.experimental.expansion.policy.v0''"

definition u32_max :: nat where
  "u32_max = 2 ^ 32 - 1"

section \<open>Policy and candidates\<close>

definition validate_expansion_policy :: "'f expansion_env \<Rightarrow> 'f expansion_policy \<Rightarrow> expansion_finding list" where
  "validate_expansion_policy E p =
     sort_expansion_findings
       (push_when (ep_schema p \<noteq> expansion_policy_schema \<or> ep_schema_version p \<noteq> 0) ''unsupported_policy_schema''
          ''schema/version must name expansion.policy.v0''
        @ concat (map (\<lambda>(name, v). push_when (blank v) ''empty_required_field'' (name @ '' must not be empty''))
            [(''expansion_policy_id'', expansion_policy_id p), (''candidate_schema_id'', ep_candidate_schema_id p),
             (''cost_currency'', cost_currency p), (''provenance.source'', tp_source (ep_provenance p)),
             (''provenance.created_by'', tp_created_by (ep_provenance p))])
        @ push_when (dedupe_key p = [] \<or> (\<exists>k\<in>set (dedupe_key p). blank k)) ''missing_dedupe_key''
            ''dedupe_key must contain non-empty fields''
        @ push_when (card (set (dedupe_key p)) \<noteq> length (dedupe_key p)) ''duplicate_dedupe_key''
            ''dedupe_key fields must be unique''
        @ concat (map (\<lambda>(code, v). push_when (v = 0) code ''hard limit must be greater than zero'')
            [(''missing_dry_round_limit'', dry_rounds_required p), (''missing_iteration_limit'', max_iterations p),
             (''missing_node_limit'', max_spawned_nodes p)])
        @ push_when (\<not> f_finite E (max_cost p) \<or> f_le E (max_cost p) (f_zero E)) ''missing_cost_limit''
            ''max_cost must be finite and greater than zero''
        @ push_when (max_latency_ms p = 0) ''missing_latency_limit'' ''max_latency_ms must be greater than zero'')"

definition content_hash :: "'f expansion_env \<Rightarrow> execution_topology \<Rightarrow> string" where
  "content_hash E t = projr (execution_topology_content_hash (\<lambda>t. Ok (topology_text E t) :: (unit, string) result) (sha256_hex E) t)"

definition select_dedupe ::
  "expansion_candidate \<Rightarrow> (string, string) fmap \<Rightarrow> string \<Rightarrow> (expansion_finding, (string, string) fmap) result" where
  "select_dedupe candidate selected key =
     (case fmlookup (dedupe_values candidate) key of
        None \<Rightarrow> Err (one_finding ''missing_dedupe_value'' (''candidate lacks dedupe field '' @ key))
      | Some v \<Rightarrow>
          if v = [] then Err (one_finding ''missing_dedupe_value'' (''candidate lacks dedupe field '' @ key))
          else Ok (fmupd key v selected))"

definition fingerprint ::
  "'f expansion_env \<Rightarrow> 'f expansion_policy \<Rightarrow> expansion_candidate \<Rightarrow> (expansion_finding, string) result" where
  "fingerprint E p candidate =
     (if ec_candidate_schema_id candidate \<noteq> ep_candidate_schema_id p then
        Err (one_finding ''candidate_schema_mismatch'' ''candidate schema does not match policy'')
      else rbind (fold_res (select_dedupe candidate) fmempty (dedupe_key p)) (\<lambda>selected.
        Ok (''sha256:'' @ sha256_hex E (dedupe_text E selected))))"

text \<open>An error of either patch function is a non-empty list, so taking its first element succeeds.\<close>

definition make_proposal ::
  "'f expansion_env \<Rightarrow> execution_topology \<Rightarrow> topology_patch \<Rightarrow> (expansion_finding, expansion_proposal) result" where
  "make_proposal E base patch =
     (let base_hash = content_hash E base in
      rbind (map_err hd (canonical_topology_patch base patch)) (\<lambda>canonical.
      rbind (map_err hd (apply_canonical_topology_patch base canonical)) (\<lambda>(proposed, diff).
      let i = ''proposal:sha256-'' @ sha256_hex E (material_text E (base_hash, canonical)) in
      Ok \<lparr>xp_proposal_id = i, xp_base_topology_content_hash = base_hash,
          xp_proposed_topology_content_hash = content_hash E proposed, xp_review_status = ''unreviewed'',
          xp_topology_patch = canonical, xp_topology_diff = diff,
          xp_morphism_proposal = JObject (fmap_of_list
            [(''proposal_id'', JString i), (''review_status'', JString ''unreviewed''),
             (''accepted_graph_mutated'', JBool False)])\<rparr>)))"

section \<open>Controller\<close>

definition controller_new ::
  "'f expansion_env \<Rightarrow> 'f expansion_policy \<Rightarrow> execution_topology
   \<Rightarrow> (expansion_finding list, 'f expansion_controller) result" where
  "controller_new E p t =
     (let findings = validate_expansion_policy E p in
      if findings \<noteq> [] then Err findings
      else Ok \<lparr>xc_policy = p, xc_base_topology = t, xc_base_topology_hash = content_hash E t, xc_topology_id = topo_id t,
               xc_case_space_id = topo_case_space_id t, xc_active_attempt = None, xc_seen = {}, xc_iteration = 0,
               xc_dry_rounds = 0, xc_spawned_nodes = 0, xc_total_cost = f_zero E, xc_total_latency_ms = 0,
               xc_proposals = fmempty\<rparr>)"

definition begin_attempt ::
  "'f expansion_env \<Rightarrow> string \<Rightarrow> execution_topology \<Rightarrow> 'f expansion_controller
   \<Rightarrow> (expansion_finding, 'f expansion_controller) result" where
  "begin_attempt E attempt t c =
     (if content_hash E t \<noteq> xc_base_topology_hash c then
        Err (one_finding ''topology_hash_switch'' ''an expansion attempt cannot switch topology content hash'')
      else case xc_active_attempt c of
        Some active \<Rightarrow>
          if active \<noteq> attempt then
            Err (one_finding ''attempt_in_progress'' (''attempt '' @ active @ '' is still active''))
          else if blank attempt then Err (one_finding ''empty_attempt_id'' ''attempt_id must not be empty'')
          else Ok (c\<lparr>xc_active_attempt := Some attempt\<rparr>)
      | None \<Rightarrow>
          if blank attempt then Err (one_finding ''empty_attempt_id'' ''attempt_id must not be empty'')
          else Ok (c\<lparr>xc_active_attempt := Some attempt\<rparr>))"

definition finish_attempt ::
  "string \<Rightarrow> 'f expansion_controller \<Rightarrow> (expansion_finding, 'f expansion_controller) result" where
  "finish_attempt attempt c =
     (if xc_active_attempt c \<noteq> Some attempt then
        Err (one_finding ''attempt_mismatch'' ''only the active attempt may finish'')
      else Ok (c\<lparr>xc_active_attempt := None\<rparr>))"

definition round_result ::
  "'f expansion_controller \<Rightarrow> expansion_halt \<Rightarrow> expansion_finding list \<Rightarrow> candidate_decision list
   \<Rightarrow> expansion_proposal list \<Rightarrow> 'f expansion_round_result" where
  "round_result c halt findings decisions created =
     \<lparr>rr_iteration = xc_iteration c, rr_dry_rounds = xc_dry_rounds c, rr_total_cost = xc_total_cost c,
      rr_total_latency_ms = xc_total_latency_ms c, rr_spawned_nodes = xc_spawned_nodes c, rr_halt = halt,
      rr_findings = findings, rr_decisions = decisions, rr_proposals = created\<rparr>"

text \<open>The variables of the candidate loop: the controller, the number of unseen candidates, decisions and proposals.\<close>

type_synonym 'f round_state = "'f expansion_controller \<times> nat \<times> candidate_decision list \<times> expansion_proposal list"

definition decide_proposal ::
  "'f expansion_env \<Rightarrow> 'f expansion_controller \<Rightarrow> topology_patch
   \<Rightarrow> candidate_disposition \<times> expansion_proposal option \<times> expansion_finding option \<times> nat" where
  "decide_proposal E c patch =
     (case make_proposal E (xc_base_topology c) patch of
        Inl finding \<Rightarrow> (RejectedCandidate, None, Some finding, xc_spawned_nodes c)
      | Inr p \<Rightarrow>
          (let added = min u32_max (length (diff_added_node_ids (xp_topology_diff p)));
               remaining = max_spawned_nodes (xc_policy c) - xc_spawned_nodes c in
           if added > remaining then
             (DeferredCandidate, None,
              Some (one_finding ''max_spawned_nodes_reached''
                (''patch adds '' @ show_nat added @ '' nodes but only '' @ show_nat remaining @ '' remain'')),
              xc_spawned_nodes c)
           else if fmlookup (xc_proposals c) (xp_proposal_id p) \<noteq> None then
             (DuplicateCandidate, None,
              Some (one_finding ''duplicate_proposal'' ''canonical patch was already proposed against this base''),
              xc_spawned_nodes c)
           else (AcceptedForProposal, Some p, None, min u32_max (xc_spawned_nodes c + added))))"

definition decision ::
  "string \<Rightarrow> candidate_disposition \<Rightarrow> expansion_finding option \<Rightarrow> string option \<Rightarrow> candidate_decision" where
  "decision fp disposition finding pid =
     \<lparr>dedupe_fingerprint = fp, cd_disposition = disposition, cd_finding = finding, cd_proposal_id = pid\<rparr>"

definition process_candidate ::
  "'f expansion_env \<Rightarrow> bool \<Rightarrow> bool \<Rightarrow> expansion_candidate \<Rightarrow> 'f round_state \<Rightarrow> 'f round_state" where
  "process_candidate E cost_exhausted latency_exhausted candidate st =
     (case st of (c, unseen, decisions, created) \<Rightarrow>
        case fingerprint E (xc_policy c) candidate of
          Inl finding \<Rightarrow> (c, unseen, decisions @ [decision [] RejectedCandidate (Some finding) None], created)
        | Inr fp \<Rightarrow>
            if fp \<in> xc_seen c then (c, unseen, decisions @ [decision fp DuplicateCandidate None None], created)
            else
              let c = c\<lparr>xc_seen := insert fp (xc_seen c)\<rparr>; unseen = unseen + 1 in
              if cost_exhausted \<or> latency_exhausted then
                (c, unseen, decisions @ [decision fp DeferredCandidate
                   (Some (if cost_exhausted then one_finding ''max_cost_reached'' ''round reached max_cost''
                          else one_finding ''max_latency_reached'' ''round reached max_latency_ms'')) None], created)
              else
                (case (case requested_disposition candidate of
                         RejectCandidate \<Rightarrow> (RejectedCandidate, None, None, xc_spawned_nodes c)
                       | DeferCandidate \<Rightarrow> (DeferredCandidate, None, None, xc_spawned_nodes c)
                       | AcceptForProposal \<Rightarrow> decide_proposal E c (ec_topology_patch candidate)) of
                   (disposition, proposal, finding, spawned) \<Rightarrow>
                     let c = c\<lparr>xc_spawned_nodes := spawned\<rparr>;
                         pid = map_option xp_proposal_id proposal in
                     (case proposal of
                        None \<Rightarrow> (c, unseen, decisions @ [decision fp disposition finding pid], created)
                      | Some p \<Rightarrow>
                          (c\<lparr>xc_proposals := fmupd (xp_proposal_id p) p (xc_proposals c)\<rparr>, unseen,
                           decisions @ [decision fp disposition finding pid], created @ [p]))))"

definition halt_of :: "'f expansion_controller \<Rightarrow> bool \<Rightarrow> bool \<Rightarrow> expansion_proposal list \<Rightarrow> expansion_halt" where
  "halt_of c cost_exhausted latency_exhausted created =
     (if cost_exhausted then HaltMaxCost
      else if latency_exhausted then HaltMaxLatency
      else if xc_spawned_nodes c \<ge> max_spawned_nodes (xc_policy c) then HaltMaxSpawnedNodes
      else if xc_iteration c \<ge> max_iterations (xc_policy c) then HaltMaxIterations
      else if xc_dry_rounds c \<ge> dry_rounds_required (xc_policy c) then HaltDry
      else if created \<noteq> [] then HaltNeedsReview else HaltContinue)"

fun halt_findings :: "expansion_halt \<Rightarrow> expansion_finding list" where
  "halt_findings HaltMaxCost = [one_finding ''max_cost_reached'' ''max_cost prevents further expansion'']"
| "halt_findings HaltMaxLatency = [one_finding ''max_latency_reached'' ''max_latency_ms prevents further expansion'']"
| "halt_findings HaltMaxSpawnedNodes =
     [one_finding ''max_spawned_nodes_reached'' ''max_spawned_nodes prevents further expansion'']"
| "halt_findings HaltMaxIterations =
     [one_finding ''max_iterations_reached'' ''max_iterations prevents further expansion'']"
| "halt_findings HaltDry =
     [one_finding ''dry_round_limit_reached'' ''consecutive dry rounds reached the termination limit'']"
| "halt_findings HaltContinue = []"
| "halt_findings HaltNeedsReview = []"

definition charge_round :: "'f expansion_env \<Rightarrow> 'f \<Rightarrow> 64 word \<Rightarrow> 'f expansion_controller \<Rightarrow> 'f expansion_controller" where
  "charge_round E cost latency c =
     c\<lparr>xc_iteration := xc_iteration c + 1, xc_total_cost := f_add E (xc_total_cost c) cost,
       xc_total_latency_ms := u64_saturating_add (xc_total_latency_ms c) latency\<rparr>"

definition process_round ::
  "'f expansion_env \<Rightarrow> string \<Rightarrow> expansion_candidate list \<Rightarrow> 'f \<Rightarrow> 64 word \<Rightarrow> 'f expansion_controller
   \<Rightarrow> (expansion_finding, 'f expansion_round_result) result \<times> 'f expansion_controller" where
  "process_round E attempt candidates cost latency c =
     (if xc_active_attempt c \<noteq> Some attempt then
        (Err (one_finding ''attempt_mismatch'' ''round must belong to the active attempt''), c)
      else if xc_iteration c \<ge> max_iterations (xc_policy c) then
        (Ok (round_result c HaltMaxIterations
           [one_finding ''max_iterations_reached'' ''max_iterations prevents another round''] [] []), c)
      else if \<not> f_finite E cost \<or> f_less E cost (f_zero E) then
        (Err (one_finding ''invalid_accounted_round_cost'' ''accounted_round_cost must be finite and non-negative''), c)
      else
        let c = charge_round E cost latency c;
            cost_exhausted = f_le E (max_cost (xc_policy c)) (xc_total_cost c);
            latency_exhausted = (xc_total_latency_ms c \<ge> max_latency_ms (xc_policy c)) in
        (case fold (process_candidate E cost_exhausted latency_exhausted) candidates (c, 0, [], []) of
           (c, unseen, decisions, created) \<Rightarrow>
             let c = c\<lparr>xc_dry_rounds := (if unseen = 0 then xc_dry_rounds c + 1 else 0)\<rparr>;
                 halt = halt_of c cost_exhausted latency_exhausted created in
             (Ok (round_result c halt (halt_findings halt) decisions created), c)))"

section \<open>Accepting a review\<close>

definition accepted_expansion_review_binding_for ::
  "'f expansion_env \<Rightarrow> compilation_mode \<Rightarrow> string \<Rightarrow> execution_topology
   \<Rightarrow> (expansion_finding, accepted_expansion_review_binding) result" where
  "accepted_expansion_review_binding_for E mode pid t =
     rbind (ok_or (mode_reviewed_binding mode)
              (one_finding ''accepted_review_required''
                 ''expansion acceptance requires a canonical reviewed topology binding'')) (\<lambda>b.
     let reviewed_hash = content_hash E t in
     if blank pid \<or> tb_topology_content_hash b \<noteq> reviewed_hash \<or> tb_expansion_proposal_id b \<noteq> Some pid then
       Err (one_finding ''accepted_review_binding_mismatch''
         ''reviewed binding must name the exact proposed topology hash and proposal id'')
     else Ok \<lparr>ab_proposal_id = pid, ab_reviewed_topology_content_hash = reviewed_hash, ab_review_id = tb_review_id b,
              ab_revision_id = tb_base_revision_id b\<rparr>)"

text \<open>\<open>None\<close> is a panic of the linter.\<close>

definition review_accepted ::
  "'f expansion_env \<Rightarrow> string \<Rightarrow> execution_topology \<Rightarrow> accepted_expansion_review_binding \<Rightarrow> 'f expansion_controller
   \<Rightarrow> (expansion_finding, reviewed_topology_transition) result option" where
  "review_accepted E pid t binding c =
     (let reviewed_hash = content_hash E t in
      case fmlookup (xc_proposals c) pid of
        None \<Rightarrow> Some (Err (one_finding ''unknown_proposal'' ''proposal_id was not emitted by this controller''))
      | Some p \<Rightarrow>
          if ab_proposal_id binding \<noteq> pid \<or> ab_reviewed_topology_content_hash binding \<noteq> reviewed_hash then
            Some (Err (one_finding ''invalid_accepted_review_binding''
              ''accepted review binding must name this proposal and exact topology hash''))
          else if topo_id t \<noteq> xc_topology_id c \<or> topo_case_space_id t \<noteq> xc_case_space_id c then
            Some (Err (one_finding ''reviewed_topology_identity_mismatch''
              ''reviewed topology must preserve topology_id and case_space_id''))
          else if reviewed_hash \<noteq> xp_proposed_topology_content_hash p then
            Some (Err (one_finding ''reviewed_topology_patch_mismatch''
              ''reviewed topology must equal the exact deterministic patch application''))
          else
            (case lint_execution_topology (\<lambda>t. Ok (topology_text E t) :: (unit, string) result) (sha256_hex E) t of
               None \<Rightarrow> None
             | Some report \<Rightarrow>
                 (case find is_deterministic_error (lr_findings report) of
                    Some f \<Rightarrow> Some (Err (one_finding ''reviewed_topology_invalid'' (gl_code f @ '': '' @ gl_detail f)))
                  | None \<Rightarrow>
                      if reviewed_hash = xc_base_topology_hash c then
                        Some (Err (one_finding ''unchanged_reviewed_topology''
                          ''accepted review must produce a distinct topology content hash''))
                      else Some (Ok \<lparr>rt_proposal_id = pid, rt_accepted_review_id = ab_review_id binding,
                        rt_accepted_revision_id = ab_revision_id binding,
                        rt_base_topology_content_hash = xc_base_topology_hash c,
                        rt_reviewed_topology_content_hash = reviewed_hash, rt_accepted_graph_mutated = False\<rparr>))))"

end
