(* ===== verification/Expansion_Properties.thy ===== *)
theory Expansion_Properties
  imports Dynamic_Expansion
begin

text \<open>
  What the expansion controller guarantees over any sequence of attempts and rounds: the budgets of its
  policy bound what it ever proposes, nothing is proposed twice, and a transition is granted only for a topology
  that is the exact application of a proposed patch and passes the linter.
\<close>

section \<open>Runs\<close>

inductive controller_reaches ::
  "'f expansion_env \<Rightarrow> 'f expansion_policy \<Rightarrow> execution_topology \<Rightarrow> 'f expansion_controller \<Rightarrow> bool"
  for E p t where
  created: "controller_new E p t = Ok c \<Longrightarrow> controller_reaches E p t c"
| begun: "controller_reaches E p t c \<Longrightarrow> begin_attempt E a t' c = Ok c' \<Longrightarrow> controller_reaches E p t c'"
| finished: "controller_reaches E p t c \<Longrightarrow> finish_attempt a c = Ok c' \<Longrightarrow> controller_reaches E p t c'"
| round: "controller_reaches E p t c \<Longrightarrow> process_round E a cs cost latency c = (r, c') \<Longrightarrow> controller_reaches E p t c'"

section \<open>Proposals\<close>

lemma make_proposal_Ok:
  assumes "make_proposal E base patch = Ok xp"
  obtains after diff where "apply_topology_patch base patch = Ok (after, diff)"
    "xp_base_topology_content_hash xp = content_hash E base" "xp_proposed_topology_content_hash xp = content_hash E after"
    "xp_review_status xp = ''unreviewed''" "xp_topology_diff xp = diff"
  using assms
  by (auto simp: make_proposal_def apply_topology_patch_def Let_def elim!: rbindE split: prod.splits)

definition proposed_nodes :: "(string, expansion_proposal) fmap \<Rightarrow> nat" where
  "proposed_nodes ps = (\<Sum>xp\<leftarrow>btree_values ps. length (diff_added_node_ids (xp_topology_diff xp)))"

lemma proposed_nodes_upd:
  assumes "fmlookup ps i = None"
  shows "proposed_nodes (fmupd i xp ps) = proposed_nodes ps + length (diff_added_node_ids (xp_topology_diff xp))"
proof -
  have sum: "proposed_nodes qs = (\<Sum>k\<in>fset (fmdom qs). length (diff_added_node_ids (xp_topology_diff (the (fmlookup qs k)))))" for qs
    unfolding proposed_nodes_def btree_values_def sorted_list_of_fmap_def
    by (simp add: comp_def sorted_list_of_fset.rep_eq sum_list_distinct_conv_sum_set)
  have "i \<notin> fset (fmdom ps)" using assms by (simp add: fmdom_notI)
  then show ?thesis by (simp add: sum) (auto intro: sum.cong)
qed

section \<open>Invariant of the controller\<close>

definition expansion_inv ::
  "'f expansion_env \<Rightarrow> 'f expansion_policy \<Rightarrow> execution_topology \<Rightarrow> 'f expansion_controller \<Rightarrow> bool" where
  "expansion_inv E p t c \<longleftrightarrow>
     xc_policy c = p \<and> xc_base_topology c = t \<and> xc_base_topology_hash c = content_hash E t \<and>
     xc_topology_id c = topo_id t \<and> xc_case_space_id c = topo_case_space_id t \<and>
     xc_iteration c \<le> max_iterations p \<and> xc_dry_rounds c \<le> xc_iteration c \<and>
     xc_spawned_nodes c = proposed_nodes (xc_proposals c) \<and> xc_spawned_nodes c \<le> max_spawned_nodes p \<and>
     (\<forall>i xp. fmlookup (xc_proposals c) i = Some xp \<longrightarrow> xp_proposal_id xp = i \<and> (\<exists>patch. make_proposal E t patch = Ok xp))"

lemma inv_proposal:
  assumes "expansion_inv E p t c" "fmlookup (xc_proposals c) i = Some xp"
  shows "xp_proposal_id xp = i" "\<exists>patch. make_proposal E t patch = Ok xp"
proof -
  have "\<forall>i xp. fmlookup (xc_proposals c) i = Some xp \<longrightarrow> xp_proposal_id xp = i \<and> (\<exists>patch. make_proposal E t patch = Ok xp)"
    using assms(1) unfolding expansion_inv_def by (elim conjE)
  from this [rule_format, OF assms(2)] show "xp_proposal_id xp = i" "\<exists>patch. make_proposal E t patch = Ok xp"
    by simp_all
qed

lemma decide_proposal_cases:
  assumes "decide_proposal E c patch = (d, pr, f, n)"
  obtains (refused) "d \<noteq> AcceptedForProposal" "pr = None" "n = xc_spawned_nodes c"
  | (accepted) xp where "d = AcceptedForProposal" "pr = Some xp" "make_proposal E (xc_base_topology c) patch = Ok xp"
      "fmlookup (xc_proposals c) (xp_proposal_id xp) = None"
      "min u32_max (length (diff_added_node_ids (xp_topology_diff xp))) \<le> max_spawned_nodes (xc_policy c) - xc_spawned_nodes c"
      "n = min u32_max (xc_spawned_nodes c + min u32_max (length (diff_added_node_ids (xp_topology_diff xp))))"
proof (cases "make_proposal E (xc_base_topology c) patch")
  case (Inl f')
  then show ?thesis using assms by (intro refused) (auto simp: decide_proposal_def)
next
  case (Inr xp)
  let ?added = "min u32_max (length (diff_added_node_ids (xp_topology_diff xp)))"
  consider "?added > max_spawned_nodes (xc_policy c) - xc_spawned_nodes c"
    | "\<not> ?added > max_spawned_nodes (xc_policy c) - xc_spawned_nodes c" "fmlookup (xc_proposals c) (xp_proposal_id xp) \<noteq> None"
    | "\<not> ?added > max_spawned_nodes (xc_policy c) - xc_spawned_nodes c" "fmlookup (xc_proposals c) (xp_proposal_id xp) = None"
    by blast
  then show ?thesis
  proof cases
    case 1
    then show ?thesis using assms Inr by (intro refused) (auto simp: decide_proposal_def Let_def)
  next
    case 2
    then show ?thesis using assms Inr by (intro refused) (auto simp: decide_proposal_def Let_def)
  next
    case 3
    then show ?thesis using assms Inr by (intro accepted [of xp]) (auto simp: decide_proposal_def Let_def split: if_splits)
  qed
qed

text \<open>
  One candidate: the controller is unchanged, or only remembers the fingerprint, or also accepts one proposal that
  fits the node budget.
\<close>

lemma process_candidate_cases:
  assumes "process_candidate E ce le k (c, u, ds, ps) = (c', u', ds', ps')"
  obtains (known) d where "c' = c" "ps' = ps" "ds' = ds @ [d]" "cd_disposition d \<noteq> AcceptedForProposal"
  | (marked) fp d where "fp \<notin> xc_seen c" "c' = c\<lparr>xc_seen := insert fp (xc_seen c)\<rparr>" "ps' = ps" "ds' = ds @ [d]"
      "cd_disposition d \<noteq> AcceptedForProposal"
  | (proposed) fp d patch xp where "fp \<notin> xc_seen c" "\<not> ce" "\<not> le" "make_proposal E (xc_base_topology c) patch = Ok xp"
      "fmlookup (xc_proposals c) (xp_proposal_id xp) = None"
      "min u32_max (length (diff_added_node_ids (xp_topology_diff xp))) \<le> max_spawned_nodes (xc_policy c) - xc_spawned_nodes c"
      "c' = c\<lparr>xc_seen := insert fp (xc_seen c),
          xc_spawned_nodes := min u32_max (xc_spawned_nodes c + min u32_max (length (diff_added_node_ids (xp_topology_diff xp)))),
          xc_proposals := fmupd (xp_proposal_id xp) xp (xc_proposals c)\<rparr>"
      "ps' = ps @ [xp]" "ds' = ds @ [d]" "cd_disposition d = AcceptedForProposal" "dedupe_fingerprint d = fp"
      "cd_proposal_id d = Some (xp_proposal_id xp)"
proof -
  show ?thesis
  proof (cases "fingerprint E (xc_policy c) k")
    case (Inl f)
    then show ?thesis using assms by (intro known) (auto simp: process_candidate_def decision_def)
  next
    case (Inr fp)
    consider "fp \<in> xc_seen c" | "fp \<notin> xc_seen c" "ce \<or> le" | "fp \<notin> xc_seen c" "\<not> ce" "\<not> le" by blast
    then show ?thesis
    proof cases
      case 1
      then show ?thesis using assms Inr by (intro known) (auto simp: process_candidate_def decision_def)
    next
      case 2
      then show ?thesis using assms Inr
        by (intro marked [of fp "last ds'"]) (auto simp: process_candidate_def decision_def Let_def split: if_splits)
    next
      case 3
      let ?c = "c\<lparr>xc_seen := insert fp (xc_seen c)\<rparr>"
      show ?thesis
      proof (cases "requested_disposition k")
        case AcceptForProposal
        obtain d pr f n where dec: "decide_proposal E ?c (ec_topology_patch k) = (d, pr, f, n)" by (metis prod_cases4)
        then show ?thesis
        proof (cases rule: decide_proposal_cases)
          case refused
          then show ?thesis using assms Inr 3 dec AcceptForProposal
            by (intro marked [of fp]) (auto simp: process_candidate_def decision_def Let_def)
        next
          case (accepted xp)
          let ?d = "decision fp AcceptedForProposal f (Some (xp_proposal_id xp))"
          have run: "(c', u', ds', ps') =
            (?c\<lparr>xc_spawned_nodes := n, xc_proposals := fmupd (xp_proposal_id xp) xp (xc_proposals c)\<rparr>, u + 1, ds @ [?d], ps @ [xp])"
            using assms Inr 3 dec AcceptForProposal accepted(1,2) by (simp add: process_candidate_def Let_def)
          show ?thesis
            by (rule proposed [of fp "ec_topology_patch k" xp ?d])
              (use run accepted 3 in \<open>simp_all add: decision_def\<close>)
        qed
      qed (use assms Inr 3 in \<open>auto intro!: marked [of fp] simp: process_candidate_def decision_def Let_def\<close>)
    qed
  qed
qed

section \<open>A round\<close>

definition accepted_decisions :: "candidate_decision list \<Rightarrow> candidate_decision list" where
  "accepted_decisions ds = filter (\<lambda>d. cd_disposition d = AcceptedForProposal) ds"

text \<open>What holds between the charged controller a round starts from and the variables of its loop.\<close>

definition frame :: "'f expansion_controller \<Rightarrow> 'f expansion_controller \<Rightarrow> bool" where
  "frame c0 c \<longleftrightarrow>
     xc_active_attempt c = xc_active_attempt c0 \<and> xc_iteration c = xc_iteration c0 \<and>
     xc_dry_rounds c = xc_dry_rounds c0 \<and> xc_total_cost c = xc_total_cost c0 \<and>
     xc_total_latency_ms c = xc_total_latency_ms c0 \<and> xc_seen c0 \<subseteq> xc_seen c"

definition emitted :: "'f expansion_controller \<Rightarrow> 'f expansion_controller \<Rightarrow> candidate_decision list \<Rightarrow> expansion_proposal list \<Rightarrow> bool" where
  "emitted c0 c ds ps \<longleftrightarrow>
     distinct (map dedupe_fingerprint (accepted_decisions ds)) \<and>
     dedupe_fingerprint ` set (accepted_decisions ds) \<subseteq> xc_seen c - xc_seen c0 \<and>
     map cd_proposal_id (accepted_decisions ds) = map (\<lambda>xp. Some (xp_proposal_id xp)) ps \<and>
     distinct (map xp_proposal_id ps) \<and>
     (\<forall>xp\<in>set ps. fmlookup (xc_proposals c0) (xp_proposal_id xp) = None \<and>
        fmlookup (xc_proposals c) (xp_proposal_id xp) = Some xp) \<and>
     (\<forall>i. fmlookup (xc_proposals c0) i \<noteq> None \<longrightarrow> fmlookup (xc_proposals c) i \<noteq> None)"

definition loop_inv ::
  "'f expansion_env \<Rightarrow> 'f expansion_policy \<Rightarrow> execution_topology \<Rightarrow> bool \<Rightarrow> bool \<Rightarrow> 'f expansion_controller
   \<Rightarrow> 'f round_state \<Rightarrow> bool" where
  "loop_inv E p t ce le c0 st \<longleftrightarrow>
     (case st of (c, u, ds, ps) \<Rightarrow> expansion_inv E p t c \<and> frame c0 c \<and> emitted c0 c ds ps \<and> (ps \<noteq> [] \<longrightarrow> \<not> ce \<and> \<not> le))"

lemma expansion_inv_seen: "expansion_inv E p t c \<Longrightarrow> expansion_inv E p t (c\<lparr>xc_seen := s\<rparr>)"
  by (simp add: expansion_inv_def)

lemma expansion_inv_propose:
  assumes inv: "expansion_inv E p t c" and cap: "max_spawned_nodes p < u32_max"
    and xp: "make_proposal E (xc_base_topology c) patch = Ok xp" "fmlookup (xc_proposals c) (xp_proposal_id xp) = None"
      "min u32_max (length (diff_added_node_ids (xp_topology_diff xp))) \<le> max_spawned_nodes (xc_policy c) - xc_spawned_nodes c"
  shows "expansion_inv E p t (c\<lparr>xc_seen := s,
     xc_spawned_nodes := min u32_max (xc_spawned_nodes c + min u32_max (length (diff_added_node_ids (xp_topology_diff xp)))),
     xc_proposals := fmupd (xp_proposal_id xp) xp (xc_proposals c)\<rparr>)"
proof -
  let ?n = "length (diff_added_node_ids (xp_topology_diff xp))"
  have "min u32_max ?n < u32_max" using xp(3) cap inv by (simp add: expansion_inv_def)
  then have n: "min u32_max ?n = ?n" by simp
  have "xc_spawned_nodes c + ?n \<le> max_spawned_nodes p"
    using xp(3) inv n by (auto simp: expansion_inv_def)
  with cap have "min u32_max (xc_spawned_nodes c + ?n) = xc_spawned_nodes c + ?n" by simp
  then show ?thesis
    using inv n xp(1) \<open>xc_spawned_nodes c + ?n \<le> max_spawned_nodes p\<close>
    by (auto simp: expansion_inv_def proposed_nodes_upd [OF xp(2)])
qed

lemma accepted_decisions_snoc:
  "accepted_decisions (ds @ [d]) = accepted_decisions ds @ (if cd_disposition d = AcceptedForProposal then [d] else [])"
  by (simp add: accepted_decisions_def)

lemma loop_inv_step:
  assumes inv: "loop_inv E p t ce le c0 st" and cap: "max_spawned_nodes p < u32_max"
  shows "loop_inv E p t ce le c0 (process_candidate E ce le k st)"
proof -
  obtain c u ds ps where st: "st = (c, u, ds, ps)" by (cases st)
  obtain c' u' ds' ps' where step: "process_candidate E ce le k (c, u, ds, ps) = (c', u', ds', ps')" by (metis prod_cases4)
  have e: "expansion_inv E p t c" "frame c0 c" "emitted c0 c ds ps" "ps \<noteq> [] \<longrightarrow> \<not> ce \<and> \<not> le"
    using inv by (simp_all add: loop_inv_def st)
  from step have "loop_inv E p t ce le c0 (c', u', ds', ps')"
  proof (cases rule: process_candidate_cases)
    case (known d)
    with e show ?thesis by (simp add: loop_inv_def emitted_def accepted_decisions_snoc)
  next
    case (marked fp d)
    have "emitted c0 c' ds' ps'"
      using e(3) unfolding emitted_def by (auto simp: marked accepted_decisions_snoc)
    with e marked show ?thesis
      by (auto simp: loop_inv_def expansion_inv_seen frame_def)
  next
    case (proposed fp d patch xp)
    have "expansion_inv E p t c'"
      unfolding proposed(7) by (rule expansion_inv_propose [OF e(1) cap proposed(4-6)])
    moreover have "frame c0 c'" using e(2) by (auto simp: frame_def proposed(7))
    moreover have "emitted c0 c' ds' ps'"
    proof -
      have fp: "fp \<notin> xc_seen c0" using e(2) proposed(1) by (auto simp: frame_def)
      have "fmlookup (xc_proposals c0) (xp_proposal_id xp) = None" using e(3) proposed(5) unfolding emitted_def by blast
      moreover have "xp_proposal_id xp \<notin> xp_proposal_id ` set ps"
        using e(3) proposed(5) unfolding emitted_def by auto
      moreover have "fp \<notin> dedupe_fingerprint ` set (accepted_decisions ds)" using e(3) proposed(1) unfolding emitted_def by blast
      ultimately show ?thesis
        using e(3) fp proposed(8-12) unfolding emitted_def by (auto simp: accepted_decisions_snoc proposed(7))
    qed
    ultimately show ?thesis using proposed(2,3) by (simp add: loop_inv_def)
  qed
  with step show ?thesis by (simp add: st)
qed

lemma loop_inv_fold:
  assumes "loop_inv E p t ce le c0 st" "max_spawned_nodes p < u32_max"
  shows "loop_inv E p t ce le c0 (fold (process_candidate E ce le) ks st)"
  using assms(1)
proof (induction ks arbitrary: st)
  case (Cons k ks)
  show ?case using Cons.IH [OF loop_inv_step [OF Cons.prems assms(2), of k]] by simp
qed simp

text \<open>A round that runs, from the controller \<open>c\<close> to \<open>c'\<close> with the result \<open>r\<close>.\<close>

lemma process_round_ran:
  fixes latency :: "64 word"
  assumes inv: "expansion_inv E p t c" and cap: "max_spawned_nodes p < u32_max"
    and run: "xc_active_attempt c = Some a" "xc_iteration c < max_iterations p" "f_finite E cost" "\<not> f_less E cost (f_zero E)"
  defines "c0 \<equiv> charge_round E cost latency c"
  defines "ce \<equiv> f_le E (max_cost p) (xc_total_cost c0)"
  defines "le \<equiv> xc_total_latency_ms c0 \<ge> max_latency_ms p"
  obtains c1 u ds ps dry where
    "process_round E a ks cost latency c =
       (Ok (round_result (c1\<lparr>xc_dry_rounds := dry\<rparr>) (halt_of (c1\<lparr>xc_dry_rounds := dry\<rparr>) ce le ps)
          (halt_findings (halt_of (c1\<lparr>xc_dry_rounds := dry\<rparr>) ce le ps)) ds ps), c1\<lparr>xc_dry_rounds := dry\<rparr>)"
    "loop_inv E p t ce le c0 (c1, u, ds, ps)" "dry \<le> Suc (xc_dry_rounds c)"
proof -
  have pol: "xc_policy c = p" using inv by (simp add: expansion_inv_def)
  have "expansion_inv E p t c0" using inv run(2) by (simp add: expansion_inv_def c0_def charge_round_def)
  then have "loop_inv E p t ce le c0 (c0, 0, [], [])"
    by (simp add: loop_inv_def frame_def emitted_def accepted_decisions_def)
  from loop_inv_fold [OF this cap, of ks] obtain c1 u ds ps where
    l: "fold (process_candidate E ce le) ks (c0, 0, [], []) = (c1, u, ds, ps)" "loop_inv E p t ce le c0 (c1, u, ds, ps)"
    by (metis prod_cases4)
  have dry1: "xc_dry_rounds c1 = xc_dry_rounds c" using l(2) by (simp add: loop_inv_def frame_def c0_def charge_round_def)
  have pol0: "xc_policy (charge_round E cost latency c) = p" by (simp add: charge_round_def pol)
  have "process_round E a ks cost latency c =
     (let d = (if u = 0 then xc_dry_rounds c1 + 1 else 0); c2 = c1\<lparr>xc_dry_rounds := d\<rparr>; h = halt_of c2 ce le ps in
      (Ok (round_result c2 h (halt_findings h) ds ps), c2))"
    using l(1) run by (simp add: process_round_def Let_def pol pol0 c0_def ce_def le_def)
  then show ?thesis by (intro that [OF _ l(2), of "if u = 0 then xc_dry_rounds c1 + 1 else 0"]) (simp_all add: Let_def dry1)
qed

lemma process_round_cases:
  assumes "process_round E a ks cost latency c = (r, c')"
  obtains "c' = c" "\<And>res. r = Ok res \<Longrightarrow> rr_proposals res = [] \<and> rr_decisions res = []"
  | "xc_active_attempt c = Some a" "xc_iteration c < max_iterations (xc_policy c)" "f_finite E cost" "\<not> f_less E cost (f_zero E)"
proof (cases "xc_active_attempt c = Some a \<and> xc_iteration c < max_iterations (xc_policy c) \<and> f_finite E cost \<and> \<not> f_less E cost (f_zero E)")
  case True
  then show ?thesis using that(2) by blast
next
  case False
  then show ?thesis using assms by (intro that(1)) (auto simp: process_round_def round_result_def split: if_splits)
qed

lemma process_round_inv:
  assumes inv: "expansion_inv E p t c" and cap: "max_spawned_nodes p < u32_max"
    and step: "process_round E a ks cost latency c = (r, c')"
  shows "expansion_inv E p t c'"
  using step
proof (cases rule: process_round_cases)
  case 2
  have pol: "xc_policy c = p" using inv by (simp add: expansion_inv_def)
  obtain c1 u ds ps dry where ran: "c' = c1\<lparr>xc_dry_rounds := dry\<rparr>"
    and l: "loop_inv E p t (f_le E (max_cost p) (xc_total_cost (charge_round E cost latency c)))
      (xc_total_latency_ms (charge_round E cost latency c) \<ge> max_latency_ms p) (charge_round E cost latency c) (c1, u, ds, ps)"
    and dry: "dry \<le> Suc (xc_dry_rounds c)"
    by (rule process_round_ran [OF inv cap 2(1) 2(2) [unfolded pol] 2(3,4), where latency = latency and ks = ks]) (use step in auto)
  have "xc_iteration c1 = Suc (xc_iteration c)" "expansion_inv E p t c1"
    using l by (simp_all add: loop_inv_def frame_def charge_round_def)
  moreover have "xc_dry_rounds c \<le> xc_iteration c" using inv by (simp add: expansion_inv_def)
  ultimately show ?thesis using dry by (simp add: expansion_inv_def ran)
qed (use inv in simp)

lemma reaches_inv:
  assumes "controller_reaches E p t c" "max_spawned_nodes p < u32_max"
  shows "expansion_inv E p t c"
  using assms(1)
proof (induction rule: controller_reaches.induct)
  case (created c)
  then show ?case
    by (auto simp: controller_new_def Let_def expansion_inv_def proposed_nodes_def btree_values_def sorted_list_of_fmap_def
        split: if_splits)
next
  case (begun c a t' c')
  then show ?case by (auto simp: begin_attempt_def expansion_inv_def split: if_splits option.splits)
next
  case (finished c a c')
  then show ?case by (auto simp: finish_attempt_def expansion_inv_def split: if_splits)
next
  case (round c a cs cost latency r c')
  show ?case by (rule process_round_inv [OF round.IH assms(2) round.hyps(2)])
qed

section \<open>Accepted reviews\<close>

lemma content_hash_simp: "content_hash E t = sha256_hex E (topology_text E (normalize_topology t))"
  by (simp add: content_hash_def execution_topology_content_hash_def canonical_execution_topology_def)

lemma lint_serialized:
  fixes E :: "'f expansion_env"
  assumes "length (topo_edges t) \<le> usize_max"
  obtains r where "lint_execution_topology (\<lambda>t. Ok (topology_text E t) :: (unit, string) result) (sha256_hex E) t = Some r"
    "(\<forall>f\<in>set (lr_findings r). \<not> is_deterministic_error f) \<longleftrightarrow>
     topology_ok t \<and> acyclic (depends t) \<and> conflict_free t \<and> expansions_budgeted t"
proof -
  have h: "execution_topology_content_hash (\<lambda>t. Ok (topology_text E t) :: (unit, string) result) (sha256_hex E) t
    = Ok (content_hash E t)"
    by (simp add: content_hash_simp execution_topology_content_hash_def canonical_execution_topology_def)
  obtain r where "lint_execution_topology (\<lambda>t. Ok (topology_text E t) :: (unit, string) result) (sha256_hex E) t = Some r"
    "lr_findings r = sort_key lint_key (lint_report_findings t)"
    by (rule lint_run [OF h]) simp
  then show ?thesis
    using lint_no_error [OF assms] by (intro that [of r]) (auto simp: no_error_def list_all_iff)
qed

lemma review_accepted_Ok:
  assumes "review_accepted E pid t' b c = Some (Ok tr)" "length (topo_edges t') \<le> usize_max"
  obtains xp where "fmlookup (xc_proposals c) pid = Some xp" "ab_proposal_id b = pid"
    "ab_reviewed_topology_content_hash b = content_hash E t'" "topo_id t' = xc_topology_id c"
    "topo_case_space_id t' = xc_case_space_id c" "content_hash E t' = xp_proposed_topology_content_hash xp"
    "topology_ok t' \<and> acyclic (depends t') \<and> conflict_free t' \<and> expansions_budgeted t'"
    "content_hash E t' \<noteq> xc_base_topology_hash c"
proof -
  obtain r where r: "lint_execution_topology (\<lambda>t. Ok (topology_text E t) :: (unit, string) result) (sha256_hex E) t' = Some r"
    "(\<forall>f\<in>set (lr_findings r). \<not> is_deterministic_error f) \<longleftrightarrow>
     topology_ok t' \<and> acyclic (depends t') \<and> conflict_free t' \<and> expansions_budgeted t'"
    by (rule lint_serialized [OF assms(2)])
  obtain xp where xp: "fmlookup (xc_proposals c) pid = Some xp"
    using assms(1) by (auto simp: review_accepted_def Let_def split: option.splits)
  have "find is_deterministic_error (lr_findings r) = None"
    using assms(1) r(1) xp by (auto simp: review_accepted_def Let_def split: option.splits if_splits)
  then have "topology_ok t' \<and> acyclic (depends t') \<and> conflict_free t' \<and> expansions_budgeted t'"
    using r(2) by (simp add: find_None_iff)
  with xp show ?thesis
    using assms(1) r(1) by (intro that [of xp]) (auto simp: review_accepted_def Let_def split: if_splits option.splits)
qed

section \<open>Claims\<close>


text \<open>
  Claim C17. A round proposes something only for its own active attempt, below the iteration limit and while the cost and
  latency charged so far, this round included, are below their limits; each proposal is new to the controller and comes from a
  candidate whose fingerprint no earlier candidate had, in this round or any other.
\<close>

theorem proposals_are_fresh_and_paid:
  assumes "controller_reaches E p t c" "max_spawned_nodes p < u32_max"
    and "process_round E a ks cost latency c = (Ok r, c')" "rr_proposals r \<noteq> []"
  shows "xc_active_attempt c = Some a \<and> xc_iteration c < max_iterations p \<and>
    \<not> f_le E (max_cost p) (rr_total_cost r) \<and> rr_total_latency_ms r < max_latency_ms p \<and>
    unat (rr_total_latency_ms r) = saturated (unat (xc_total_latency_ms c) + unat latency) \<and>
    map cd_proposal_id (accepted_decisions (rr_decisions r)) = map (\<lambda>xp. Some (xp_proposal_id xp)) (rr_proposals r) \<and>
    distinct (map xp_proposal_id (rr_proposals r)) \<and>
    (\<forall>xp\<in>set (rr_proposals r). fmlookup (xc_proposals c) (xp_proposal_id xp) = None) \<and>
    distinct (map dedupe_fingerprint (accepted_decisions (rr_decisions r))) \<and>
    dedupe_fingerprint ` set (accepted_decisions (rr_decisions r)) \<subseteq> xc_seen c' - xc_seen c"
proof -
  have inv: "expansion_inv E p t c" by (rule reaches_inv [OF assms(1,2)])
  have pol: "xc_policy c = p" using inv by (simp add: expansion_inv_def)
  from assms(3) show ?thesis
  proof (cases rule: process_round_cases)
    case 1
    with assms(4) show ?thesis by simp
  next
    case 2
    let ?c0 = "charge_round E cost latency c"
    let ?ce = "f_le E (max_cost p) (xc_total_cost ?c0)" and ?le = "xc_total_latency_ms ?c0 \<ge> max_latency_ms p"
    obtain c1 u ds ps dry where ran: "c' = c1\<lparr>xc_dry_rounds := dry\<rparr>"
      "r = round_result (c1\<lparr>xc_dry_rounds := dry\<rparr>) (halt_of (c1\<lparr>xc_dry_rounds := dry\<rparr>) ?ce ?le ps)
          (halt_findings (halt_of (c1\<lparr>xc_dry_rounds := dry\<rparr>) ?ce ?le ps)) ds ps"
      and l: "loop_inv E p t ?ce ?le ?c0 (c1, u, ds, ps)"
      by (rule process_round_ran [OF inv assms(2) 2(1) 2(2) [unfolded pol] 2(3,4), where latency = latency and ks = ks])
        (use assms(3) in auto)
    have r: "rr_proposals r = ps" "rr_decisions r = ds" "rr_total_cost r = xc_total_cost c1"
      "rr_total_latency_ms r = xc_total_latency_ms c1"
      by (simp_all add: ran(2) round_result_def)
    have e: "frame ?c0 c1" "emitted ?c0 c1 ds ps" "\<not> ?ce" "\<not> ?le"
      using l assms(4) r(1) by (simp_all add: loop_inv_def)
    have c0: "xc_seen ?c0 = xc_seen c" "xc_proposals ?c0 = xc_proposals c"
      "xc_total_latency_ms ?c0 = u64_saturating_add (xc_total_latency_ms c) latency"
      by (simp_all add: charge_round_def)
    have tot: "xc_total_cost c1 = xc_total_cost ?c0" "xc_total_latency_ms c1 = xc_total_latency_ms ?c0"
      using e(1) by (simp_all add: frame_def)
    have "xc_seen c' = xc_seen c1" by (simp add: ran(1))
    then show ?thesis
      using e(2-4) 2(1,2) unfolding emitted_def r tot c0 pol
      by (auto simp: unat_saturating_add not_le)
  qed
qed

text \<open>The digest tells the canonical form of a topology from every other.\<close>

definition no_collision :: "'f expansion_env \<Rightarrow> execution_topology \<Rightarrow> bool" where
  "no_collision E t \<longleftrightarrow> (\<forall>t'. content_hash E t = content_hash E t' \<longrightarrow> normalize_topology t = normalize_topology t')"


end
