(* ===== verification/Lint_Witnesses.thy ===== *)
theory Lint_Witnesses
  imports Lint_Properties Topology_Samples "HOL-Library.Code_Target_Nat"
begin

text \<open>The properties of the linter at concrete topologies.\<close>

text \<open>Numbers are evaluated in binary here; the loop over a level is evaluated by its equation without patterns.\<close>

lemma drain_evaluate [code]:
  "drain ext succs level st =
     (if level = 0 then Some st
      else case st of (processed, s) \<Rightarrow>
        (case pop_front ext succs s of None \<Rightarrow> None | Some s' \<Rightarrow> drain ext succs (level - 1) (Suc processed, s')))"
  by (cases level; cases st) (auto simp del: pop_front.simps split: option.split)

definition timed_node :: "string \<Rightarrow> 64 word \<Rightarrow> topology_node" where
  "timed_node i ms = (sample_node i)\<lparr>tn_estimated_duration_ms := Some ms\<rparr>"

definition diamond_topology :: execution_topology where
  "diamond_topology =
     sample_topology ''t'' [timed_node ''a'' 1, timed_node ''b'' (- 1), timed_node ''c'' 5, timed_node ''d'' 7]
       [sample_edge ''ab'' ''a'' ''b'', sample_edge ''ac'' ''a'' ''c'', sample_edge ''bd'' ''b'' ''d'',
        sample_edge ''cd'' ''c'' ''d'', sample_edge ''ad'' ''a'' ''d'']"

abbreviation plain_hash :: "execution_topology \<Rightarrow> (string, string) result" where
  "plain_hash \<equiv> \<lambda>t. Ok ''text''"

lemma plain_content_hash: "execution_topology_content_hash plain_hash (\<lambda>s. s) t = Ok ''text''"
  by (simp add: execution_topology_content_hash_def canonical_execution_topology_def)

theorem lint_always_reports_witness:
  "\<exists>r. lint_execution_topology plain_hash (\<lambda>s. s) diamond_topology = Some r \<and> lr_topology_id r = topo_id diamond_topology \<and>
    lr_topology_content_hash r = ''text'' \<and> sorted (map lint_key (lr_findings r))"
  by (rule lint_always_reports) (rule plain_content_hash)

lemma diamond_nodes: "topo_nodes diamond_topology \<noteq> []"
  by (simp add: diamond_topology_def sample_topology_def)

lemma diamond_lint:
  "map_option (\<lambda>r. (lm_longest_path_nodes (lr_metrics r), lm_theoretical_parallel_width (lr_metrics r),
      lm_critical_path_ms (lr_metrics r), list_all (\<lambda>f. \<not> is_deterministic_error f) (lr_findings r)))
    (lint_execution_topology plain_hash (\<lambda>s. s) diamond_topology) = Some (Some 3, 2, Some (- 1), True)"
  by code_simp

lemma diamond_report:
  assumes "lint_execution_topology plain_hash (\<lambda>s. s) diamond_topology = Some r"
  shows "lm_longest_path_nodes (lr_metrics r) = Some 3" "lm_theoretical_parallel_width (lr_metrics r) = 2"
    "lm_critical_path_ms (lr_metrics r) = Some (- 1)" "list_all (\<lambda>f. \<not> is_deterministic_error f) (lr_findings r)"
  using diamond_lint assms by simp_all

theorem lint_metrics_exact_witness:
  "acyclic (depends diamond_topology) \<and> longest_path_is diamond_topology 3 \<and> width_is diamond_topology 2"
proof -
  obtain r where r: "lint_execution_topology plain_hash (\<lambda>s. s) diamond_topology = Some r"
    and m: "if acyclic (depends diamond_topology)
     then \<exists>k. lm_longest_path_nodes (lr_metrics r) = Some k \<and> longest_path_is diamond_topology k \<and>
            width_is diamond_topology (lm_theoretical_parallel_width (lr_metrics r))
     else lm_longest_path_nodes (lr_metrics r) = None"
    using lint_metrics_exact [OF plain_content_hash diamond_nodes] by blast
  from m show ?thesis by (simp add: diamond_report [OF r] split: if_splits)
qed

theorem critical_path_saturates_witness: "critical_path_is diamond_topology (- 1)"
proof -
  obtain r where r: "lint_execution_topology plain_hash (\<lambda>s. s) diamond_topology = Some r"
    and m: "if acyclic (depends diamond_topology) \<and> topo_nodes diamond_topology \<noteq> [] \<and>
        (\<forall>n\<in>set (topo_nodes diamond_topology). tn_estimated_duration_ms n \<noteq> None)
     then \<exists>ms. lm_critical_path_ms (lr_metrics r) = Some ms \<and> critical_path_is diamond_topology ms
     else lm_critical_path_ms (lr_metrics r) = None"
    using critical_path_saturates [OF plain_content_hash] by blast
  from m show ?thesis by (simp add: diamond_report [OF r] split: if_splits)
qed

theorem lint_errors_exact_witness:
  "topology_ok diamond_topology \<and> acyclic (depends diamond_topology) \<and> conflict_free diamond_topology \<and>
   expansions_budgeted diamond_topology"
proof -
  have "length (topo_edges diamond_topology) \<le> usize_max"
    by (simp add: diamond_topology_def sample_topology_def usize_max_def)
  from lint_errors_exact [OF plain_content_hash this] obtain r where
    r: "lint_execution_topology plain_hash (\<lambda>s. s) diamond_topology = Some r"
    and m: "list_all (\<lambda>f. \<not> is_deterministic_error f) (lr_findings r) \<longleftrightarrow>
     topology_ok diamond_topology \<and> acyclic (depends diamond_topology) \<and> conflict_free diamond_topology \<and>
     expansions_budgeted diamond_topology" by blast
  from m diamond_report(4) [OF r] show ?thesis by blast
qed

text \<open>
  Two nodes that both write \<open>x\<close> and \<open>y\<close>, with an exclusion edge whose scope names only \<open>x\<close>: the linter reports no
  error for \<open>y\<close>, since the edge counts as an ordering of the nodes whatever its scope.
\<close>

definition write_claim :: "string \<Rightarrow> resource_claim" where
  "write_claim res =
     \<lparr>claim_resource = res, claim_mode = RmWrite, claim_rate_limit_group = None, claim_workspace_strategy = None,
      claim_network_scope = [], claim_secret_scope = []\<rparr>"

definition exclusion_topology :: execution_topology where
  "exclusion_topology =
     sample_topology ''t''
       (map (\<lambda>i. (sample_node i)\<lparr>tn_resource_claims := [write_claim ''x'', write_claim ''y'']\<rparr>) [''a'', ''b''])
       [(sample_edge ''e'' ''a'' ''b'')\<lparr>te_kind := EkResourceExclusion, te_resource_scope := [''x'']\<rparr>]"

lemma exclusion_scope_ignored:
  "map_option lr_findings (lint_execution_topology plain_hash (\<lambda>s. s) exclusion_topology) = Some [] \<and>
   \<not> exclusion_protects exclusion_topology 0 1 ''y''"
  by code_simp

end
