(* ===== verification/Expansion_Witnesses.thy ===== *)
theory Expansion_Witnesses
  imports Expansion_Properties Lint_Witnesses
begin

text \<open>The properties of patches and of the expansion controller at a concrete run: one node is added to two.\<close>

definition grow_patch :: topology_patch where
  "grow_patch =
     \<lparr>patch_schema = topology_patch_schema, patch_schema_version = 0, added_nodes = [sample_node ''c''],
      removed_node_ids = [], updated_nodes = [], added_edges = [sample_edge ''f'' ''b'' ''c''], removed_edge_ids = []\<rparr>"

definition grown_topology :: execution_topology where
  "grown_topology = sample_topology ''t'' [sample_node ''a'', sample_node ''b'', sample_node ''c'']
     [sample_edge ''e'' ''a'' ''b'', sample_edge ''f'' ''b'' ''c'']"

definition grow_diff :: topology_patch_diff where
  "grow_diff =
     \<lparr>diff_added_node_ids = [''c''], diff_removed_node_ids = [], diff_updated_node_ids = [],
      diff_added_edge_ids = [''f''], diff_removed_edge_ids = []\<rparr>"

lemma grow_applies: "apply_topology_patch pair_topology grow_patch = Ok (grown_topology, grow_diff)"
  by code_simp

theorem patch_effect_exact_witness:
  "apply_topology_patch pair_topology grow_patch = Ok (grown_topology, grow_diff) \<and> topology_ok grown_topology"
  using patch_effect_exact [OF grow_applies] grow_applies by blast

definition expansion_sample_env :: "int expansion_env" where
  "expansion_sample_env =
     \<lparr>f_add = (+), f_less = (<), f_le = (\<le>), f_finite = (\<lambda>_. True), f_zero = 0,
      topology_text = \<lambda>t. if t = grown_topology then ''grown'' else ''other'',
      dedupe_text = \<lambda>m. concat (btree_values m), material_text = \<lambda>(h, patch). h, sha256_hex = \<lambda>s. s\<rparr>"

definition sample_policy :: "int expansion_policy" where
  "sample_policy =
     \<lparr>ep_schema = expansion_policy_schema, ep_schema_version = 0, expansion_policy_id = ''x'',
      ep_candidate_schema_id = ''s'', dedupe_key = [''file''], ep_dedupe_scope = AllSeen, dry_rounds_required = 1,
      max_iterations = 3, max_spawned_nodes = 2, max_cost = 10, cost_currency = ''usd'', max_latency_ms = 100,
      ep_candidate_disposition = UnreviewedMorphismProposal, ep_provenance = topology_sample_provenance\<rparr>"

definition sample_candidate :: expansion_candidate where
  "sample_candidate =
     \<lparr>ec_candidate_schema_id = ''s'', dedupe_values = fmap_of_list [(''file'', ''a.rs'')],
      requested_disposition = AcceptForProposal, ec_topology_patch = grow_patch\<rparr>"

definition started_controller :: "int expansion_controller" where
  "started_controller =
     \<lparr>xc_policy = sample_policy, xc_base_topology = pair_topology, xc_base_topology_hash = ''other'',
      xc_topology_id = ''t'', xc_case_space_id = ''c'', xc_active_attempt = Some ''at'', xc_seen = {}, xc_iteration = 0,
      xc_dry_rounds = 0, xc_spawned_nodes = 0, xc_total_cost = 0, xc_total_latency_ms = 0, xc_proposals = fmempty\<rparr>"

lemma started: "controller_new expansion_sample_env sample_policy pair_topology = Ok (started_controller\<lparr>xc_active_attempt := None\<rparr>)"
  "begin_attempt expansion_sample_env ''at'' pair_topology (started_controller\<lparr>xc_active_attempt := None\<rparr>) = Ok started_controller"
  by code_simp+

definition grown_round :: "(expansion_finding, int expansion_round_result) result \<times> int expansion_controller" where
  "grown_round = process_round expansion_sample_env ''at'' [sample_candidate, sample_candidate] 4 7 started_controller"

lemma start_reached: "controller_reaches expansion_sample_env sample_policy pair_topology started_controller"
  by (rule controller_reaches.begun [OF controller_reaches.created [OF started(1)] started(2)])

lemma round_reached: "controller_reaches expansion_sample_env sample_policy pair_topology (snd grown_round)"
  by (rule controller_reaches.round [OF start_reached, where r = "fst grown_round"]) (simp add: grown_round_def)

lemma sample_cap: "max_spawned_nodes sample_policy < u32_max"
  by (simp add: sample_policy_def u32_max_def)

lemma grown_round_values:
  "map_sum (\<lambda>f. ()) (\<lambda>r. (rr_halt r, map cd_disposition (rr_decisions r), length (rr_proposals r))) (fst grown_round)
     = Inr (HaltNeedsReview, [AcceptedForProposal, DuplicateCandidate], 1)"
  "xc_spawned_nodes (snd grown_round) = 1"
  by code_simp+


theorem proposals_are_fresh_and_paid_witness:
  "\<exists>r c'. grown_round = (Ok r, c') \<and> rr_total_latency_ms r < 100 \<and> distinct (map xp_proposal_id (rr_proposals r))"
proof -
  obtain r where r: "fst grown_round = Ok r" "length (rr_proposals r) = 1"
    using grown_round_values(1) by (cases "fst grown_round") auto
  then have step: "process_round expansion_sample_env ''at'' [sample_candidate, sample_candidate] 4 7 started_controller = (Ok r, snd grown_round)"
    by (simp add: grown_round_def prod_eq_iff)
  have "rr_proposals r \<noteq> []" using r(2) by auto
  from proposals_are_fresh_and_paid [OF start_reached sample_cap step this]
  have "rr_total_latency_ms r < max_latency_ms sample_policy" "distinct (map xp_proposal_id (rr_proposals r))" by blast+
  moreover have "max_latency_ms sample_policy = 100" by (simp add: sample_policy_def)
  moreover have "grown_round = (Ok r, snd grown_round)" using r(1) by (simp add: prod_eq_iff)
  ultimately show ?thesis by metis
qed

definition sample_binding :: accepted_expansion_review_binding where
  "sample_binding =
     \<lparr>ab_proposal_id = ''proposal:sha256-other'', ab_reviewed_topology_content_hash = ''grown'', ab_review_id = ''r'',
      ab_revision_id = ''v''\<rparr>"

lemma sample_accepted:
  "review_accepted expansion_sample_env ''proposal:sha256-other'' grown_topology sample_binding (snd grown_round) =
   Some (Ok \<lparr>rt_proposal_id = ''proposal:sha256-other'', rt_accepted_review_id = ''r'', rt_accepted_revision_id = ''v'',
     rt_base_topology_content_hash = ''other'', rt_reviewed_topology_content_hash = ''grown'', rt_accepted_graph_mutated = False\<rparr>)"
  by code_simp

lemma sample_no_collision: "no_collision expansion_sample_env grown_topology"
proof -
  have "normalize_topology grown_topology = grown_topology" by code_simp
  then show ?thesis by (auto simp: no_collision_def content_hash_simp expansion_sample_env_def split: if_splits)
qed


end
