(* ===== verification/Graph_Simulation.thy ===== *)
theory Graph_Simulation
  imports Graph_Lint
begin

text \<open>
  \<open>src/graph_simulation.rs\<close>: requests and their validation, calibration of the nodes, the seeded generator, the
  discrete-event simulation of one run under a parallelism limit and resource capacities, the
  iterations with their samples, the report and the comparison of two reports. Times, costs and tokens are 64-bit
  words with the saturating operations of the code; a panic is \<open>None\<close>.
\<close>

unbundle bit_operations_syntax

section \<open>Data\<close>

record u64_range =
  rg_minimum :: "64 word"
  rg_maximum :: "64 word"

record node_calibration =
  nc_node_id :: "string option"
  nc_executor_class :: "string option"
  nc_latency_ms :: "u64_range option"
  nc_cost_microunits :: "u64_range option"
  nc_failure_basis_points :: "nat option"
  nc_input_tokens :: "u64_range option"
  nc_output_tokens :: "u64_range option"

record routing_candidate =
  rc_route_id :: string
  rc_executor_class :: string
  rc_latency_ms :: u64_range
  rc_cost_microunits :: u64_range

record simulation_budgets =
  maximum_latency_ms :: "64 word option"
  maximum_cost_microunits :: "64 word option"
  maximum_total_tokens :: "64 word option"

record graph_simulation_request =
  gs_schema :: string
  gs_schema_version :: nat
  gs_topology_content_hash :: string
  gs_seed :: "64 word"
  gs_iterations :: nat
  max_parallelism :: nat
  resource_capacities :: "(string, nat) fmap"
  fan_in_penalty_ms_per_input :: "64 word"
  gs_release_semantics :: stage_release_semantics
  maximum_attempts :: nat
  expansion_bounds :: "(string, u64_range) fmap"
  gs_budgets :: simulation_budgets
  calibrations :: "node_calibration list"
  routing_candidates :: "routing_candidate list"

record simulation_unknown =
  su_node_id :: string
  su_metric :: string
  su_reason :: string

record simulation_range =
  sr_minimum :: "64 word"
  sr_p50 :: "64 word"
  sr_maximum :: "64 word"

record routing_decision_proposal =
  rd_node_id :: string
  rd_current_executor_class :: string
  rd_proposed_route_id :: string
  rd_reason :: string

record routing_proposal =
  rp_review_status :: string
  rp_topology_content_hash :: string
  rp_decisions :: "routing_decision_proposal list"

record budget_violation =
  bv_budget :: string
  bv_violating_iterations :: nat

record graph_simulation_report =
  gr_schema :: string
  gr_report_version :: nat
  gr_topology_id :: string
  gr_topology_content_hash :: string
  gr_request_content_hash :: string
  gr_seed :: "64 word"
  gr_iterations :: nat
  gr_release_semantics :: stage_release_semantics
  gr_producer_consumer_overlap_ms :: simulation_range
  gr_latency_ms :: "simulation_range option"
  gr_cost_microunits :: "simulation_range option"
  gr_total_tokens :: "simulation_range option"
  gr_successful_iterations :: "nat option"
  gr_failed_iterations :: "nat option"
  gr_maximum_observed_parallelism :: nat
  gr_resource_wait_events :: "64 word"
  gr_unknowns :: "simulation_unknown list"
  gr_budget_violations :: "budget_violation list"
  gr_routing_proposal :: routing_proposal

definition graph_simulation_request_schema :: string where
  "graph_simulation_request_schema = ''casegraphen.experimental.graph_simulation.request.v0''"

definition graph_simulation_report_schema :: string where
  "graph_simulation_report_schema = ''casegraphen.experimental.graph_simulation.report.v0''"

definition graph_simulation_max_iterations :: nat where
  "graph_simulation_max_iterations = 10000"

section \<open>Request validation\<close>

definition validate_range :: "u64_range option \<Rightarrow> string \<Rightarrow> topology_finding list" where
  "validate_range r location =
     (case r of
        None \<Rightarrow> []
      | Some r \<Rightarrow> finding_when (rg_minimum r > rg_maximum r) ''invalid_range'' location ''minimum must not exceed maximum'')"

definition calibration_selector :: "node_calibration \<Rightarrow> string option" where
  "calibration_selector c =
     (case nc_node_id c of
        Some i \<Rightarrow> Some (''node:'' @ i)
      | None \<Rightarrow> map_option (\<lambda>k. ''class:'' @ k) (nc_executor_class c))"

definition validate_calibration :: "string set \<Rightarrow> nat \<Rightarrow> node_calibration \<Rightarrow> topology_finding list" where
  "validate_calibration seen i c =
     (let here = at_index ''$.calibrations'' i in
      finding_when ((nc_node_id c = None) = (nc_executor_class c = None)) ''ambiguous_calibration_selector'' here
        ''exactly one of node_id or executor_class is required''
      @ (case calibration_selector c of
           None \<Rightarrow> []
         | Some selector \<Rightarrow>
             finding_when (selector \<in> seen) ''duplicate_calibration_selector'' here
               ''each node or executor class may have only one calibration'')
      @ validate_range (nc_latency_ms c) (here @ ''.latency_ms'')
      @ (case nc_failure_basis_points c of
           None \<Rightarrow> []
         | Some probability \<Rightarrow>
             finding_when (probability > 10000) ''invalid_failure_probability'' (here @ ''.failure_basis_points'')
               ''basis points must not exceed 10000'')
      @ validate_range (nc_input_tokens c) (here @ ''.input_tokens'')
      @ validate_range (nc_output_tokens c) (here @ ''.output_tokens'')
      @ validate_range (nc_cost_microunits c) (here @ ''.cost_microunits''))"

fun validate_calibrations :: "string set \<Rightarrow> nat \<Rightarrow> node_calibration list \<Rightarrow> topology_finding list" where
  "validate_calibrations seen i [] = []"
| "validate_calibrations seen i (c # cs) =
     validate_calibration seen i c @ validate_calibrations (set_option (calibration_selector c) \<union> seen) (Suc i) cs"

definition validate_route :: "string set \<Rightarrow> nat \<Rightarrow> routing_candidate \<Rightarrow> topology_finding list" where
  "validate_route seen i r =
     (let here = at_index ''$.routing_candidates'' i in
      finding_when (blank (rc_route_id r) \<or> blank (rc_executor_class r)) ''empty_routing_candidate'' here
        ''route_id and executor_class must be non-empty''
      @ finding_when (rc_route_id r \<in> seen) ''duplicate_route_id'' (here @ ''.route_id'') ''route_id must be unique''
      @ validate_range (Some (rc_latency_ms r)) (here @ ''.latency_ms'')
      @ validate_range (Some (rc_cost_microunits r)) (here @ ''.cost_microunits''))"

fun validate_routes :: "string set \<Rightarrow> nat \<Rightarrow> routing_candidate list \<Rightarrow> topology_finding list" where
  "validate_routes seen i [] = []"
| "validate_routes seen i (r # rs) = validate_route seen i r @ validate_routes (insert (rc_route_id r) seen) (Suc i) rs"

definition validate_request :: "graph_simulation_request \<Rightarrow> topology_finding list" where
  "validate_request q =
     sort_findings
       (finding_when (gs_schema q \<noteq> graph_simulation_request_schema) ''unsupported_schema'' ''$.schema''
          ''schema must name graph_simulation.request.v0''
        @ finding_when (gs_schema_version q \<noteq> 0) ''unsupported_schema_version'' ''$.schema_version'' ''schema_version must be 0''
        @ finding_when (gs_iterations q = 0 \<or> gs_iterations q > graph_simulation_max_iterations)
            ''iterations_out_of_bounds'' ''$.iterations''
            (''iterations must be between 1 and '' @ show_nat graph_simulation_max_iterations)
        @ finding_when (max_parallelism q = 0) ''zero_parallelism'' ''$.max_parallelism''
            ''max_parallelism must be greater than zero''
        @ finding_when (maximum_attempts q = 0 \<or> maximum_attempts q > 100) ''retry_attempts_out_of_bounds''
            ''$.retry_policy.maximum_attempts'' ''maximum_attempts must be between 1 and 100''
        @ concat (map (\<lambda>(res, capacity).
            finding_when (blank res \<or> capacity = 0) ''invalid_resource_capacity'' ''$.resource_capacities''
              ''resource ids must be non-empty and capacities must be positive'') (sorted_list_of_fmap (resource_capacities q)))
        @ concat (map (\<lambda>(policy, range).
            finding_when (blank policy) ''empty_expansion_policy'' ''$.expansion_bounds'' ''expansion policy id must not be empty''
            @ validate_range (Some range) ''$.expansion_bounds'') (sorted_list_of_fmap (expansion_bounds q)))
        @ validate_calibrations {} 0 (calibrations q)
        @ validate_routes {} 0 (routing_candidates q))"

section \<open>Calibration\<close>

record resolved_calibration =
  cal_latency :: "u64_range option"
  cal_cost :: "u64_range option"
  cal_failure_basis_points :: "nat option"
  cal_tokens :: "(u64_range \<times> u64_range) option"

fun or_else :: "'a option \<Rightarrow> 'a option \<Rightarrow> 'a option" where
  "or_else (Some x) y = Some x"
| "or_else None y = y"

definition resolve_field ::
  "(node_calibration \<Rightarrow> 'a option) \<Rightarrow> graph_simulation_request \<Rightarrow> topology_node \<Rightarrow> 'a option" where
  "resolve_field field q n =
     or_else (Option.bind (find (\<lambda>c. nc_node_id c = Some (tn_node_id n)) (calibrations q)) field)
       (Option.bind (find (\<lambda>c. nc_executor_class c = Some (tn_executor_class n)) (calibrations q)) field)"

definition resolve_node :: "graph_simulation_request \<Rightarrow> topology_node \<Rightarrow> resolved_calibration" where
  "resolve_node q n =
     \<lparr>cal_latency = or_else (resolve_field nc_latency_ms q n)
        (map_option (\<lambda>d. \<lparr>rg_minimum = d, rg_maximum = d\<rparr>) (tn_estimated_duration_ms n)),
      cal_cost = resolve_field nc_cost_microunits q n,
      cal_failure_basis_points = resolve_field nc_failure_basis_points q n,
      cal_tokens = (case (resolve_field nc_input_tokens q n, resolve_field nc_output_tokens q n) of
         (Some i, Some out) \<Rightarrow> Some (i, out) | _ \<Rightarrow> None)\<rparr>"

definition unknown_when :: "bool \<Rightarrow> topology_node \<Rightarrow> string \<Rightarrow> string \<Rightarrow> simulation_unknown list" where
  "unknown_when b n metric reason =
     (if b then [\<lparr>su_node_id = tn_node_id n, su_metric = metric, su_reason = reason\<rparr>] else [])"

definition node_unknowns :: "graph_simulation_request \<Rightarrow> topology_node \<Rightarrow> simulation_unknown list" where
  "node_unknowns q n =
     unknown_when (cal_latency (resolve_node q n) = None) n ''latency_ms''
       ''no node/class calibration or topology duration estimate''
     @ unknown_when (cal_cost (resolve_node q n) = None) n ''cost_microunits''
         ''no node or executor-class cost calibration''
     @ unknown_when (cal_failure_basis_points (resolve_node q n) = None) n ''failure_probability''
         ''no node or executor-class failure calibration''
     @ unknown_when (cal_tokens (resolve_node q n) = None) n ''token_envelope''
         ''input and output token ranges are both required''
     @ unknown_when (case tn_expansion_policy_id n of None \<Rightarrow> False | Some p \<Rightarrow> fmlookup (expansion_bounds q) p = None)
         n ''expansion_bound'' ''expansion policy has no bounded spawned-node calibration''"

definition unknown_key :: "simulation_unknown \<Rightarrow> string \<times> string \<times> string" where
  "unknown_key u = (su_node_id u, su_metric u, su_reason u)"

text \<open>The \<open>BTreeSet\<close> of unknowns, as a vector.\<close>

definition resolve_unknowns :: "graph_simulation_request \<Rightarrow> execution_topology \<Rightarrow> simulation_unknown list" where
  "resolve_unknowns q t = remdups_adj (sort_key unknown_key (concat (map (node_unknowns q) (topo_nodes t))))"

section \<open>Generator\<close>

definition u64_saturating_mul :: "64 word \<Rightarrow> 64 word \<Rightarrow> 64 word" where
  "u64_saturating_mul a b = (if unat a * unat b < 2 ^ 64 then a * b else - 1)"

definition rng_new :: "64 word \<Rightarrow> 64 word" where
  "rng_new seed = seed XOR 11400714819323198485"

definition rng_next :: "64 word \<Rightarrow> 64 word" where
  "rng_next v =
     (let v = v XOR push_bit 13 v; v = v XOR drop_bit 7 v in v XOR push_bit 17 v)"

text \<open>Drawing returns the value and the new state of the generator; \<open>next\<close> returns its new state.\<close>

definition rng_sample :: "u64_range \<Rightarrow> 64 word \<Rightarrow> 64 word \<times> 64 word" where
  "rng_sample r rng =
     (let width = (if rg_maximum r < rg_minimum r then 0 else rg_maximum r - rg_minimum r) in
      if width = 0 then (rg_minimum r, rng)
      else let rng = rng_next rng in
        (u64_saturating_add (rg_minimum r) (rng mod u64_saturating_add width 1), rng))"

function retry_loop :: "nat \<Rightarrow> nat \<Rightarrow> nat \<Rightarrow> 64 word \<Rightarrow> nat \<times> bool \<times> 64 word" where
  "retry_loop probability limit attempts rng =
     (let rng = rng_next rng in
      if rng mod 10000 < of_nat probability then
        (if attempts \<ge> limit then (attempts, True, rng) else retry_loop probability limit (attempts + 1) rng)
      else (attempts, False, rng))"
  by pat_completeness auto
termination
  by (relation "measure (\<lambda>(probability, limit, attempts, rng). limit - attempts)") auto

declare retry_loop.simps [simp del]

record sampled_node =
  sn_latency_ms :: "64 word"
  sn_cost_microunits :: "64 word option"
  sn_total_tokens :: "64 word option"
  sn_failed :: bool

definition scaled :: "nat \<Rightarrow> 64 word \<Rightarrow> 64 word \<Rightarrow> 64 word" where
  "scaled attempts expansion v = u64_saturating_mul (u64_saturating_mul v (of_nat attempts)) expansion"

definition sample_expansion :: "graph_simulation_request \<Rightarrow> topology_node \<Rightarrow> 64 word \<Rightarrow> 64 word \<times> 64 word" where
  "sample_expansion q n rng =
     (case Option.bind (tn_expansion_policy_id n) (fmlookup (expansion_bounds q)) of
        None \<Rightarrow> (1, rng)
      | Some r \<Rightarrow> (case rng_sample r rng of (v, rng) \<Rightarrow> (max v 1, rng)))"

definition sample_node_run ::
  "graph_simulation_request \<Rightarrow> topology_node \<Rightarrow> resolved_calibration \<Rightarrow> 64 word \<Rightarrow> sampled_node \<times> 64 word" where
  "sample_node_run q n cal rng =
     (case sample_expansion q n rng of (expansion, rng) \<Rightarrow>
      case (case cal_failure_basis_points cal of
              None \<Rightarrow> (1, False, rng)
            | Some probability \<Rightarrow> retry_loop probability (maximum_attempts q) 1 rng) of (attempts, failed, rng) \<Rightarrow>
      case (case cal_latency cal of None \<Rightarrow> (0, rng) | Some r \<Rightarrow> rng_sample r rng) of (latency, rng) \<Rightarrow>
      case (case cal_cost cal of
              None \<Rightarrow> (None, rng)
            | Some r \<Rightarrow> (case rng_sample r rng of (v, rng) \<Rightarrow> (Some (scaled attempts expansion v), rng))) of (cost, rng) \<Rightarrow>
      case (case cal_tokens cal of
              None \<Rightarrow> (None, rng)
            | Some (input, output) \<Rightarrow>
                (case rng_sample input rng of (i, rng) \<Rightarrow>
                 case rng_sample output rng of (out, rng) \<Rightarrow>
                   (Some (scaled attempts expansion (u64_saturating_add i out)), rng))) of (tokens, rng) \<Rightarrow>
        (\<lparr>sn_latency_ms = scaled attempts expansion latency, sn_cost_microunits = cost, sn_total_tokens = tokens,
          sn_failed = failed\<rparr>, rng))"

fun sample_nodes ::
  "graph_simulation_request \<Rightarrow> topology_node list \<Rightarrow> 64 word \<Rightarrow> sampled_node list \<times> 64 word" where
  "sample_nodes q [] rng = ([], rng)"
| "sample_nodes q (n # ns) rng =
     (case sample_node_run q n (resolve_node q n) rng of (s, rng) \<Rightarrow>
      case sample_nodes q ns rng of (ss, rng) \<Rightarrow> (s # ss, rng))"

section \<open>One run\<close>

record simulation_graph =
  sg_successors :: "nat list list"
  sg_indegree :: "nat list"
  sg_fan_in :: "nat list"

definition simulation_add_edge ::
  "(string \<Rightarrow> nat option) \<Rightarrow> topology_edge \<Rightarrow> nat list list \<times> nat list \<Rightarrow> (nat list list \<times> nat list) option" where
  "simulation_add_edge index e st =
     (case (index (te_from e), index (te_to e)) of
        (Some a, Some b) \<Rightarrow>
          (case push_at a b (fst st) of
             None \<Rightarrow> None
           | Some succs \<Rightarrow>
               if b < length (snd st) then Some (succs, (snd st)[b := snd st ! b + 1]) else None)
      | _ \<Rightarrow> Some st)"

definition simulation_graph_new :: "execution_topology \<Rightarrow> simulation_graph option" where
  "simulation_graph_new t =
     (case fold_opt (simulation_add_edge (node_index t)) (topo_edges t)
             (replicate (length (topo_nodes t)) [], replicate (length (topo_nodes t)) 0) of
        None \<Rightarrow> None
      | Some (succs, indegree) \<Rightarrow>
          Some \<lparr>sg_successors = map sort succs, sg_indegree = indegree, sg_fan_in = indegree\<rparr>)"

definition resource_keys :: "topology_node \<Rightarrow> string list" where
  "resource_keys n =
     dedupe_ids (concat (map (\<lambda>c.
       (if claim_mode c \<noteq> RmRead then [claim_resource c] else [])
       @ (case claim_rate_limit_group c of None \<Rightarrow> [] | Some g \<Rightarrow> [''rate_limit_group:'' @ g])) (tn_resource_claims n)))"

definition resource_capacity :: "string \<Rightarrow> graph_simulation_request \<Rightarrow> nat" where
  "resource_capacity res q = (case fmlookup (resource_capacities q) res of None \<Rightarrow> 1 | Some k \<Rightarrow> k)"

definition used :: "(string, nat) fmap \<Rightarrow> string \<Rightarrow> nat" where
  "used usage res = (case fmlookup usage res of None \<Rightarrow> 0 | Some k \<Rightarrow> k)"

record run_state =
  rs_indegree :: "nat list"
  rs_ready :: "nat set"
  rs_active :: "(64 word \<times> nat \<times> string list) list"
  rs_usage :: "(string, nat) fmap"
  rs_now :: "64 word"
  rs_completed :: nat
  rs_maximum_parallelism :: nat
  rs_waits :: "64 word"

record run_result =
  run_elapsed_ms :: "64 word"
  run_maximum_parallelism :: nat
  run_resource_wait_events :: "64 word"

definition run_duration :: "graph_simulation_request \<Rightarrow> nat list \<Rightarrow> sampled_node list \<Rightarrow> nat \<Rightarrow> 64 word" where
  "run_duration q fan_in sampled v =
     u64_saturating_add (sn_latency_ms (sampled ! v))
       (u64_saturating_mul (fan_in_penalty_ms_per_input q) (of_nat (fan_in ! v)))"

definition start_node ::
  "execution_topology \<Rightarrow> graph_simulation_request \<Rightarrow> nat list \<Rightarrow> sampled_node list \<Rightarrow> nat \<Rightarrow> run_state \<Rightarrow> run_state" where
  "start_node t q fan_in sampled v st =
     (let resources = resource_keys (topo_nodes t ! v);
          active = rs_active st @ [(u64_saturating_add (rs_now st) (run_duration q fan_in sampled v), v, resources)] in
      st\<lparr>rs_ready := rs_ready st - {v},
         rs_usage := fold (\<lambda>res m. fmupd res (used m res + 1) m) resources (rs_usage st),
         rs_active := active,
         rs_maximum_parallelism := max (rs_maximum_parallelism st) (length active)\<rparr>)"

definition blocked :: "execution_topology \<Rightarrow> graph_simulation_request \<Rightarrow> nat \<Rightarrow> run_state \<Rightarrow> bool" where
  "blocked t q v st \<longleftrightarrow>
     (\<exists>res\<in>set (resource_keys (topo_nodes t ! v)). used (rs_usage st) res \<ge> resource_capacity res q)"

text \<open>The loop over the ready nodes, left with \<open>break\<close> when the parallelism limit is reached.\<close>

fun start_ready ::
  "execution_topology \<Rightarrow> graph_simulation_request \<Rightarrow> nat list \<Rightarrow> sampled_node list \<Rightarrow> nat list \<Rightarrow> run_state \<Rightarrow> run_state" where
  "start_ready t q fan_in sampled [] st = st"
| "start_ready t q fan_in sampled (v # vs) st =
     (if length (rs_active st) \<ge> max_parallelism q then st
      else if blocked t q v st then
        start_ready t q fan_in sampled vs (st\<lparr>rs_waits := u64_saturating_add (rs_waits st) 1\<rparr>)
      else start_ready t q fan_in sampled vs (start_node t q fan_in sampled v st))"

fun release_successors :: "nat list \<Rightarrow> nat list \<times> nat set \<Rightarrow> (nat list \<times> nat set) option" where
  "release_successors [] st = Some st"
| "release_successors (s # ss) (indegree, ready) =
     (if s < length indegree \<and> 0 < indegree ! s then
        release_successors ss
          (indegree[s := indegree ! s - 1], if indegree ! s - 1 = 0 then insert s ready else ready)
      else None)"

fun release_resources :: "string list \<Rightarrow> (string, nat) fmap \<Rightarrow> (string, nat) fmap option" where
  "release_resources [] usage = Some usage"
| "release_resources (res # rest) usage =
     (case fmlookup usage res of
        None \<Rightarrow> None
      | Some k \<Rightarrow> if k = 0 then None else release_resources rest (fmupd res (k - 1) usage))"

text \<open>\<open>Vec::swap_remove\<close>: the last element takes the place of the removed one.\<close>

definition swap_remove :: "nat \<Rightarrow> 'a list \<Rightarrow> ('a \<times> 'a list) option" where
  "swap_remove i xs =
     (if i < length xs then Some (xs ! i, butlast (xs[i := last xs])) else None)"

definition finish_position :: "nat list list \<Rightarrow> nat \<Rightarrow> run_state \<Rightarrow> run_state option" where
  "finish_position successors position st =
     (case swap_remove position (rs_active st) of
        None \<Rightarrow> None
      | Some ((_, v, resources), active) \<Rightarrow>
          (case release_resources resources (rs_usage st) of
             None \<Rightarrow> None
           | Some usage \<Rightarrow>
               if v < length successors then
                 (case release_successors (successors ! v) (rs_indegree st, rs_ready st) of
                    None \<Rightarrow> None
                  | Some (indegree, ready) \<Rightarrow>
                      Some (st\<lparr>rs_active := active, rs_usage := usage, rs_completed := rs_completed st + 1,
                               rs_indegree := indegree, rs_ready := ready\<rparr>))
               else None))"

definition finished_positions :: "64 word \<Rightarrow> (64 word \<times> nat \<times> string list) list \<Rightarrow> nat list" where
  "finished_positions now active = rev (filter (\<lambda>i. fst (active ! i) = now) [0..<length active])"

definition run_round ::
  "execution_topology \<Rightarrow> graph_simulation_request \<Rightarrow> simulation_graph \<Rightarrow> sampled_node list \<Rightarrow> run_state \<Rightarrow> run_state option" where
  "run_round t q g sampled st =
     (let st = start_ready t q (sg_fan_in g) sampled (sorted_list_of_set (rs_ready st)) st in
      if rs_active st = [] then None
      else
        let now = Min (fst ` set (rs_active st)) in
        fold_opt (finish_position (sg_successors g)) (finished_positions now (rs_active st)) (st\<lparr>rs_now := now\<rparr>))"

lemma fold_opt_finish_completed:
  "fold_opt (finish_position successors) ps st = Some st' \<Longrightarrow> rs_completed st' = rs_completed st + length ps"
  by (induction ps arbitrary: st)
    (auto simp: finish_position_def split: option.splits if_splits prod.splits)

lemma start_ready_completed [simp]: "rs_completed (start_ready t q f s vs st) = rs_completed st"
  by (induction t q f s vs st rule: start_ready.induct) (auto simp: start_node_def Let_def)

lemma finished_positions_nonempty:
  "active \<noteq> [] \<Longrightarrow> finished_positions (Min (fst ` set active)) active \<noteq> []"
proof -
  assume "active \<noteq> []"
  then have "Min (fst ` set active) \<in> fst ` set active" by (intro Min_in) simp_all
  then obtain i where "i < length active" "fst (active ! i) = Min (fst ` set active)"
    by (auto simp: in_set_conv_nth)
  then show ?thesis by (auto simp: finished_positions_def filter_empty_conv)
qed

lemma run_round_progress:
  assumes "run_round t q g sampled st = Some st'"
  shows "rs_completed st < rs_completed st'"
  using assms finished_positions_nonempty
  by (auto simp: run_round_def Let_def dest!: fold_opt_finish_completed split: if_splits)

function run_loop ::
  "execution_topology \<Rightarrow> graph_simulation_request \<Rightarrow> simulation_graph \<Rightarrow> sampled_node list \<Rightarrow> run_state \<Rightarrow> run_state option" where
  "run_loop t q g sampled st =
     (if rs_completed st < length (topo_nodes t) then
        (case run_round t q g sampled st of None \<Rightarrow> None | Some st' \<Rightarrow> run_loop t q g sampled st')
      else Some st)"
  by pat_completeness auto
termination
  by (relation "measure (\<lambda>(t, q, g, sampled, st). length (topo_nodes t) - rs_completed st)")
    (auto dest!: run_round_progress)

declare run_loop.simps [simp del]

definition run_start :: "simulation_graph \<Rightarrow> run_state" where
  "run_start g =
     \<lparr>rs_indegree = sg_indegree g, rs_ready = set (sources_of (sg_indegree g)), rs_active = [], rs_usage = fmempty,
      rs_now = 0, rs_completed = 0, rs_maximum_parallelism = 0, rs_waits = 0\<rparr>"

definition simulate_run ::
  "execution_topology \<Rightarrow> graph_simulation_request \<Rightarrow> simulation_graph \<Rightarrow> sampled_node list \<Rightarrow> run_result option" where
  "simulate_run t q g sampled =
     map_option (\<lambda>st. \<lparr>run_elapsed_ms = rs_now st, run_maximum_parallelism = rs_maximum_parallelism st,
                       run_resource_wait_events = rs_waits st\<rparr>)
       (run_loop t q g sampled (run_start g))"

section \<open>The samples of all iterations\<close>

record simulation_samples =
  ss_latency :: "64 word list"
  ss_cost :: "64 word list"
  ss_tokens :: "64 word list"
  ss_failed_iterations :: nat
  ss_maximum_parallelism :: nat
  ss_wait_events :: "64 word"
  ss_rng :: "64 word"

definition known :: "(resolved_calibration \<Rightarrow> 'a option) \<Rightarrow> graph_simulation_request \<Rightarrow> execution_topology \<Rightarrow> bool" where
  "known field q t \<longleftrightarrow> list_all (\<lambda>n. field (resolve_node q n) \<noteq> None) (topo_nodes t)"

text \<open>\<open>map(expect)\<close> followed by the saturating sum.\<close>

definition saturating_total :: "64 word option list \<Rightarrow> 64 word option" where
  "saturating_total xs = map_option (foldl u64_saturating_add 0) (those xs)"

definition sample_latency ::
  "execution_topology \<Rightarrow> graph_simulation_request \<Rightarrow> simulation_graph \<Rightarrow> sampled_node list
   \<Rightarrow> simulation_samples \<Rightarrow> simulation_samples option" where
  "sample_latency t q g sampled st =
     (if known cal_latency q t then
        map_option (\<lambda>run.
          st\<lparr>ss_latency := ss_latency st @ [run_elapsed_ms run],
             ss_maximum_parallelism := max (ss_maximum_parallelism st) (run_maximum_parallelism run),
             ss_wait_events := u64_saturating_add (ss_wait_events st) (run_resource_wait_events run)\<rparr>)
          (simulate_run t q g sampled)
      else Some st)"

definition sample_cost ::
  "execution_topology \<Rightarrow> graph_simulation_request \<Rightarrow> sampled_node list \<Rightarrow> simulation_samples \<Rightarrow> simulation_samples option" where
  "sample_cost t q sampled st =
     (if known cal_cost q t then
        map_option (\<lambda>v. st\<lparr>ss_cost := ss_cost st @ [v]\<rparr>) (saturating_total (map sn_cost_microunits sampled))
      else Some st)"

definition sample_tokens ::
  "execution_topology \<Rightarrow> graph_simulation_request \<Rightarrow> sampled_node list \<Rightarrow> simulation_samples \<Rightarrow> simulation_samples option" where
  "sample_tokens t q sampled st =
     (if known cal_tokens q t then
        map_option (\<lambda>v. st\<lparr>ss_tokens := ss_tokens st @ [v]\<rparr>) (saturating_total (map sn_total_tokens sampled))
      else Some st)"

definition sample_failure ::
  "execution_topology \<Rightarrow> graph_simulation_request \<Rightarrow> sampled_node list \<Rightarrow> simulation_samples \<Rightarrow> simulation_samples" where
  "sample_failure t q sampled st =
     (if known cal_failure_basis_points q t \<and> list_ex sn_failed sampled
      then st\<lparr>ss_failed_iterations := ss_failed_iterations st + 1\<rparr> else st)"

definition run_iteration ::
  "execution_topology \<Rightarrow> graph_simulation_request \<Rightarrow> simulation_graph \<Rightarrow> simulation_samples \<Rightarrow> simulation_samples option" where
  "run_iteration t q g st =
     (case sample_nodes q (topo_nodes t) (ss_rng st) of (sampled, rng) \<Rightarrow>
      map_option (sample_failure t q sampled)
        (Option.bind (sample_latency t q g sampled (st\<lparr>ss_rng := rng\<rparr>)) (\<lambda>st.
         Option.bind (sample_cost t q sampled st) (sample_tokens t q sampled))))"

primrec run_iterations ::
  "execution_topology \<Rightarrow> graph_simulation_request \<Rightarrow> simulation_graph \<Rightarrow> nat \<Rightarrow> simulation_samples \<Rightarrow> simulation_samples option" where
  "run_iterations t q g 0 st = Some st"
| "run_iterations t q g (Suc k) st = Option.bind (run_iteration t q g st) (run_iterations t q g k)"

definition samples_start :: "graph_simulation_request \<Rightarrow> simulation_samples" where
  "samples_start q =
     \<lparr>ss_latency = [], ss_cost = [], ss_tokens = [], ss_failed_iterations = 0, ss_maximum_parallelism = 0,
      ss_wait_events = 0, ss_rng = rng_new (gs_seed q)\<rparr>"

section \<open>Report\<close>

definition summarize :: "64 word list \<Rightarrow> simulation_range option" where
  "summarize samples =
     (if samples = [] then None
      else let samples = sort samples in
        Some \<lparr>sr_minimum = samples ! 0, sr_p50 = samples ! ((length samples - 1) div 2), sr_maximum = last samples\<rparr>)"

definition budget_violation_for :: "string \<Rightarrow> 64 word option \<Rightarrow> 64 word list \<Rightarrow> budget_violation list" where
  "budget_violation_for budget maximum samples =
     (case maximum of
        None \<Rightarrow> []
      | Some m \<Rightarrow> [\<lparr>bv_budget = budget, bv_violating_iterations = length (filter (\<lambda>v. v > m) samples)\<rparr>])"

definition budget_violations ::
  "graph_simulation_request \<Rightarrow> 64 word list \<Rightarrow> 64 word list \<Rightarrow> 64 word list \<Rightarrow> budget_violation list" where
  "budget_violations q latency cost tokens =
     budget_violation_for ''latency_ms'' (maximum_latency_ms (gs_budgets q)) latency
     @ budget_violation_for ''cost_microunits'' (maximum_cost_microunits (gs_budgets q)) cost
     @ budget_violation_for ''total_tokens'' (maximum_total_tokens (gs_budgets q)) tokens"

text \<open>The subtraction of \<open>midpoint\<close> panics on an inverted range.\<close>

definition midpoint :: "u64_range \<Rightarrow> 64 word option" where
  "midpoint r =
     (if rg_maximum r < rg_minimum r then None
      else Some (u64_saturating_add (rg_minimum r) ((rg_maximum r - rg_minimum r) div 2)))"

definition route_key :: "routing_candidate \<Rightarrow> (64 word \<times> 64 word \<times> string) option" where
  "route_key c =
     Option.bind (midpoint (rc_cost_microunits c)) (\<lambda>cost.
     map_option (\<lambda>latency. (cost, latency, rc_route_id c)) (midpoint (rc_latency_ms c)))"

text \<open>\<open>min_by_key\<close> returns the first of the least elements.\<close>

fun min_by_key :: "('k::linorder \<times> 'a) list \<Rightarrow> 'a option" where
  "min_by_key [] = None"
| "min_by_key (x # xs) = Some (snd (foldl (\<lambda>least y. if fst y < fst least then y else least) x xs))"

definition cheapest_route :: "graph_simulation_request \<Rightarrow> string \<Rightarrow> routing_candidate option option" where
  "cheapest_route q executor_class =
     map_option min_by_key
       (those (map (\<lambda>c. map_option (\<lambda>k. (k, c)) (route_key c))
          (filter (\<lambda>c. rc_executor_class c = executor_class) (routing_candidates q))))"

definition routing_decision :: "topology_node \<Rightarrow> routing_candidate option \<Rightarrow> routing_decision_proposal list" where
  "routing_decision n candidate =
     (case candidate of
        None \<Rightarrow> []
      | Some c \<Rightarrow> [\<lparr>rd_node_id = tn_node_id n, rd_current_executor_class = tn_executor_class n,
          rd_proposed_route_id = rc_route_id c,
          rd_reason = ''lowest midpoint cost; latency midpoint and route id are deterministic ties''\<rparr>])"

definition propose_routing ::
  "execution_topology \<Rightarrow> graph_simulation_request \<Rightarrow> string \<Rightarrow> routing_proposal option" where
  "propose_routing t q topology_hash =
     map_option (\<lambda>decisions.
       \<lparr>rp_review_status = ''unreviewed'', rp_topology_content_hash = topology_hash,
        rp_decisions = sort_key rd_node_id (concat decisions)\<rparr>)
       (those (map (\<lambda>n. map_option (routing_decision n) (cheapest_route q (tn_executor_class n))) (topo_nodes t)))"

definition lint_error_findings :: "graph_lint_report \<Rightarrow> topology_finding list" where
  "lint_error_findings r =
     map (\<lambda>f. topology_finding_of (''lint_'' @ gl_code f) (gl_location f) (gl_detail f))
       (filter is_deterministic_error (lr_findings r))"

definition simulation_findings ::
  "graph_simulation_request \<Rightarrow> string \<Rightarrow> graph_lint_report \<Rightarrow> topology_finding list" where
  "simulation_findings q topology_hash lint =
     validate_request q
     @ finding_when (gs_topology_content_hash q \<noteq> topology_hash) ''topology_hash_mismatch'' ''$.topology_content_hash''
         ''calibration input must name the exact topology content hash''
     @ lint_error_findings lint"

definition simulation_report ::
  "execution_topology \<Rightarrow> graph_simulation_request \<Rightarrow> string \<Rightarrow> string \<Rightarrow> simulation_samples \<Rightarrow> routing_proposal
   \<Rightarrow> graph_simulation_report" where
  "simulation_report t q topology_hash request_hash samples routing =
     \<lparr>gr_schema = graph_simulation_report_schema, gr_report_version = 0, gr_topology_id = topo_id t,
      gr_topology_content_hash = topology_hash, gr_request_content_hash = request_hash, gr_seed = gs_seed q,
      gr_iterations = gs_iterations q, gr_release_semantics = gs_release_semantics q,
      gr_producer_consumer_overlap_ms = \<lparr>sr_minimum = 0, sr_p50 = 0, sr_maximum = 0\<rparr>,
      gr_latency_ms = summarize (ss_latency samples), gr_cost_microunits = summarize (ss_cost samples),
      gr_total_tokens = summarize (ss_tokens samples),
      gr_successful_iterations = (if known cal_failure_basis_points q t
         then Some (gs_iterations q - ss_failed_iterations samples) else None),
      gr_failed_iterations = (if known cal_failure_basis_points q t then Some (ss_failed_iterations samples) else None),
      gr_maximum_observed_parallelism = ss_maximum_parallelism samples,
      gr_resource_wait_events = ss_wait_events samples,
      gr_unknowns = resolve_unknowns q t,
      gr_budget_violations = budget_violations q (ss_latency samples) (ss_cost samples) (ss_tokens samples),
      gr_routing_proposal = routing\<rparr>"

definition simulate_execution_topology ::
  "(execution_topology \<Rightarrow> ('e, string) result) \<Rightarrow> (graph_simulation_request \<Rightarrow> ('e, string) result) \<Rightarrow> (string \<Rightarrow> string)
   \<Rightarrow> execution_topology \<Rightarrow> graph_simulation_request
   \<Rightarrow> (topology_finding list, graph_simulation_report) result option" where
  "simulate_execution_topology to_string request_to_string digest t q =
     (case execution_topology_content_hash to_string digest t of
        Inl _ \<Rightarrow> None
      | Inr topology_hash \<Rightarrow>
          Option.bind (lint_execution_topology to_string digest t) (\<lambda>lint.
          let findings = simulation_findings q topology_hash lint in
          if findings \<noteq> [] then Some (Err (sort_findings findings))
          else
            Option.bind (simulation_graph_new t) (\<lambda>g.
            Option.bind (run_iterations t q g (gs_iterations q) (samples_start q)) (\<lambda>samples.
            case request_to_string q of
              Inl _ \<Rightarrow> None
            | Inr text \<Rightarrow>
                map_option (\<lambda>routing. Ok (simulation_report t q topology_hash (digest text) samples routing))
                  (propose_routing t q topology_hash)))))"

definition parse_graph_simulation_request ::
  "(string \<Rightarrow> (string, graph_simulation_request) result) \<Rightarrow> string \<Rightarrow> (topology_finding list, graph_simulation_request) result" where
  "parse_graph_simulation_request from_str input =
     rbind (map_err (\<lambda>message. [topology_finding_of ''invalid_json'' ''$'' message]) (from_str input)) (\<lambda>q.
     if validate_request q = [] then Ok q else Err (validate_request q))"

section \<open>Comparison\<close>

record graph_simulation_comparison =
  gc_review_status :: string
  gc_baseline_topology_hash :: string
  gc_candidate_topology_hash :: string
  gc_latency_p50_delta_ms :: "int option"
  gc_cost_p50_delta_microunits :: "int option"
  gc_token_p50_delta :: "int option"
  gc_unknowns :: "string list"

definition clamp_i64 :: "int \<Rightarrow> int" where
  "clamp_i64 x = max (- (2 ^ 63)) (min (2 ^ 63 - 1) x)"

definition range_delta :: "simulation_range option \<Rightarrow> simulation_range option \<Rightarrow> int option" where
  "range_delta baseline candidate =
     (case (baseline, candidate) of
        (Some b, Some c) \<Rightarrow> Some (clamp_i64 (uint (sr_p50 c) - uint (sr_p50 b)))
      | _ \<Rightarrow> None)"

definition unavailable :: "'a option \<Rightarrow> string \<Rightarrow> string list" where
  "unavailable v message = (if v = None then [message] else [])"

definition compare_simulation_reports ::
  "graph_simulation_report \<Rightarrow> graph_simulation_report \<Rightarrow> graph_simulation_comparison" where
  "compare_simulation_reports baseline candidate =
     (let latency = range_delta (gr_latency_ms baseline) (gr_latency_ms candidate);
          cost = range_delta (gr_cost_microunits baseline) (gr_cost_microunits candidate);
          tokens = range_delta (gr_total_tokens baseline) (gr_total_tokens candidate) in
      \<lparr>gc_review_status = ''unreviewed'', gc_baseline_topology_hash = gr_topology_content_hash baseline,
       gc_candidate_topology_hash = gr_topology_content_hash candidate, gc_latency_p50_delta_ms = latency,
       gc_cost_p50_delta_microunits = cost, gc_token_p50_delta = tokens,
       gc_unknowns = unavailable latency ''latency comparison unavailable''
         @ unavailable cost ''cost comparison unavailable'' @ unavailable tokens ''token comparison unavailable''\<rparr>)"

end
