(* ===== verification/Simulation_Run.thy ===== *)
theory Simulation_Run
  imports Graph_Simulation Lint_Properties
begin

text \<open>
  The discrete-event loop of \<open>SimulationGraph::simulate\<close>: the tables it starts from are those of the lint, and a
  round keeps an invariant that relates the completed nodes, the ready set, the active list and the resource
  usage. From it: the loop never panics on an acyclic topology, and its elapsed time is bounded from below by
  every dependency path and from above by the sum of all durations, both saturating.
\<close>

section \<open>The graph of a simulation\<close>

lemma simulation_add_edges:
  assumes "fold_opt (add_edge index) (enumerate k es) (adj, rvs) = Some (adj', rvs')"
  shows "fold_opt (simulation_add_edge index) es (map (map fst) adj, map length rvs)
    = Some (map (map fst) adj', map length rvs')"
  using assms
proof (induction es arbitrary: k adj rvs)
  case (Cons e es)
  show ?case
  proof (cases "index (te_from e) = None \<or> index (te_to e) = None")
    case True
    then have "add_edge index (k, e) (adj, rvs) = Some (adj, rvs)"
      "simulation_add_edge index e st = Some st" for st
      by (auto simp: add_edge_def simulation_add_edge_def split: option.splits)
    with Cons show ?thesis by simp
  next
    case False
    then obtain a b where ab: "index (te_from e) = Some a" "index (te_to e) = Some b" by auto
    have "add_edge index (k, e) (adj, rvs) = (if a < length adj \<and> b < length rvs
        then Some (adj[a := adj ! a @ [(b, k)]], rvs[b := rvs ! b @ [(a, k)]]) else None)"
      using ab by (simp add: add_edge_def push_at_def)
    with Cons.prems have lt: "a < length adj" "b < length rvs"
      and rest: "fold_opt (add_edge index) (enumerate (Suc k) es)
        (adj[a := adj ! a @ [(b, k)]], rvs[b := rvs ! b @ [(a, k)]]) = Some (adj', rvs')"
      by (auto split: if_splits)
    from Cons.IH [OF rest] lt ab show ?thesis
      by (simp add: simulation_add_edge_def push_at_def map_update)
  qed
qed simp

lemma sort_map_fst: "sort (map fst xs) = map fst (sort (xs :: (nat \<times> nat) list))"
proof (rule properties_for_sort)
  show "mset (map fst (sort xs)) = mset (map fst xs)" by simp
  have "sorted_wrt (\<le>) (sort xs)" by simp
  then have "sorted_wrt (\<lambda>x y. fst x \<le> fst y) (sort xs)"
    by (rule sorted_wrt_mono_rel [rotated]) (auto simp: less_eq_prod_def)
  then show "sorted (map fst (sort xs))" by (simp add: sorted_wrt_map)
qed

definition lint_graph :: "execution_topology \<Rightarrow> simulation_graph" where
  "lint_graph t =
     \<lparr>sg_successors = succ_table t, sg_indegree = map length (reverse_table t), sg_fan_in = map length (reverse_table t)\<rparr>"

lemma simulation_graph_new_lint: "simulation_graph_new t = Some (lint_graph t)"
proof -
  let ?n = "length (topo_nodes t)"
  obtain adj rvs where run: "fold_opt (add_edge (node_index t)) (enumerate 0 (topo_edges t)) (replicate ?n [], replicate ?n []) = Some (adj, rvs)"
    and tables: "forward_table t = map sort adj" "reverse_table t = map sort rvs"
    using graph_tables_total [of t] by (auto simp: graph_tables_def Let_def split: option.splits prod.splits)
  from simulation_add_edges [OF run] show ?thesis
    by (simp add: simulation_graph_new_def lint_graph_def succ_table_def tables sort_map_fst comp_def)
qed

section \<open>Removal from the active list\<close>

lemma swap_remove_spec:
  assumes "i < length xs"
  obtains ys where "swap_remove i xs = Some (xs ! i, ys)" "mset xs = add_mset (xs ! i) (mset ys)"
    "Suc (length ys) = length xs" "\<forall>j<i. ys ! j = xs ! j"
proof -
  let ?ys = "butlast (xs[i := last xs])"
  have ne: "xs \<noteq> []" using assms by auto
  have "last (xs[i := last xs]) = last xs" using assms by (simp add: last_conv_nth ne nth_list_update)
  then have "mset (xs[i := last xs]) = add_mset (last xs) (mset ?ys)"
    using ne by (metis append_butlast_last_id list_update_nonempty mset.simps mset_append union_mset_add_mset_right
        add.right_neutral)
  moreover have "mset (xs[i := last xs]) = add_mset (last xs) (mset xs - {#xs ! i#})"
    using assms by (simp add: mset_update)
  ultimately have "mset ?ys = mset xs - {#xs ! i#}" by simp
  moreover have "xs ! i \<in># mset xs" using assms by simp
  ultimately have "mset xs = add_mset (xs ! i) (mset ?ys)" by simp
  moreover have "?ys ! j = xs ! j" if "j < i" for j
    using that assms by (simp add: nth_butlast)
  ultimately show ?thesis using assms by (intro that [of ?ys]) (simp_all add: swap_remove_def)
qed

section \<open>Resource usage\<close>

lemma used_fmupd [simp]: "used (fmupd res k m) r = (if r = res then k else used m r)"
  by (simp add: used_def)

lemma acquire_used:
  "distinct rs \<Longrightarrow>
   used (fold (\<lambda>res m. fmupd res (Suc (used m res)) m) rs m) r = used m r + (if r \<in> set rs then 1 else 0)"
  by (induction rs arbitrary: m) auto

lemma release_used:
  assumes "distinct rs" "\<forall>r\<in>set rs. 0 < used m r"
  obtains m' where "release_resources rs m = Some m'" "\<forall>r. used m' r = used m r - (if r \<in> set rs then 1 else 0)"
proof -
  have "\<exists>m'. release_resources rs m = Some m' \<and> (\<forall>r. used m' r = used m r - (if r \<in> set rs then 1 else 0))"
    using assms
  proof (induction rs arbitrary: m)
    case (Cons res rs)
    obtain k where k: "fmlookup m res = Some k" "0 < k"
      using Cons.prems by (auto simp: used_def split: option.splits)
    obtain m' where "release_resources rs (fmupd res (k - 1) m) = Some m'"
      "\<forall>r. used m' r = used (fmupd res (k - 1) m) r - (if r \<in> set rs then 1 else 0)"
      using Cons.IH [of "fmupd res (k - 1) m"] Cons.prems by fastforce
    with k Cons.prems(1) show ?case by (auto simp: used_def)
  qed simp
  then show ?thesis using that by blast
qed

lemma resource_keys_distinct [simp]: "distinct (resource_keys n)"
  by (simp add: resource_keys_def dedupe_ids_def)

section \<open>Successors\<close>

lemma release_relax:
  assumes "relax_edges ext x ss (ind, q, vals) = Some (ind', q', vals')"
  shows "release_successors ss (ind, set q \<union> R) = Some (ind', set q' \<union> R)"
  using assms
proof (induction ss arbitrary: ind q vals)
  case (Cons s ss)
  from Cons.prems have ok: "s < length ind" "0 < ind ! s"
    and rest: "relax_edges ext x ss (ind[s := ind ! s - 1], if ind ! s - 1 = 0 then q @ [s] else q,
      vals[s := max (vals ! s) (ext (vals ! x) s)]) = Some (ind', q', vals')"
    by (auto simp: relax_edge_def split: if_splits)
  have "set (if ind ! s - 1 = 0 then q @ [s] else q) \<union> R
    = (if ind ! s - 1 = 0 then insert s (set q \<union> R) else set q \<union> R)" by auto
  with Cons.IH [OF rest] ok show ?case by (simp split: if_splits)
qed simp

lemma order_inv_mset: "mset p = mset q \<Longrightarrow> order_inv succs D ind p \<Longrightarrow> order_inv succs D ind q"
  unfolding order_inv_def by (metis mset_eq_imp_distinct_iff mset_eq_setD)

lemma release_successors_step:
  assumes inv: "order_inv succs D ind (x # q)" and range: "succs_range succs"
  obtains ind' new where "release_successors (succs ! x) (ind, R) = Some (ind', set new \<union> R)"
    "order_inv succs (insert x D) ind' (q @ new)"
proof -
  note head = order_inv_head [OF inv]
  let ?n = "length succs" and ?ss = "succs ! x"
  have ind: "length ind = ?n" "\<forall>v<?n. ind ! v = indegree_from succs D v" using inv by (auto simp: order_inv_def)
  have lt: "\<forall>s\<in>set ?ss. s < ?n" using range head(1) unfolding succs_range_def by (meson nth_mem)
  have "\<forall>v\<in>set ?ss. count_list ?ss v \<le> ind ! v"
    using lt ind head(1,2) by (simp add: indegree_from_insert)
  from relax_edges_spec [OF ind(1) _ head(1) lt head(3) this, of "replicate ?n (0 :: nat)" "\<lambda>d _. d" "[]"]
  obtain ind' new vals' where
    run: "relax_edges (\<lambda>d _. d) x ?ss (ind, [], replicate ?n (0 :: nat)) = Some (ind', new, vals')"
    and ind': "length ind' = ?n" "\<forall>v<?n. ind' ! v = ind ! v - count_list ?ss v"
    and new: "distinct new" "set new = {v \<in> set ?ss. ind ! v = count_list ?ss v}" by auto
  show ?thesis
    by (rule that [of ind' new]) (use release_relax [OF run] order_inv_step [OF inv range ind' new] in simp_all)
qed

section \<open>The invariant of a run\<close>

text \<open>
  \<open>D\<close> is the set of completed nodes. Ready and active nodes together are the queue of the topological sweep; the
  usage of a resource is the number of active nodes that hold it.
\<close>

type_synonym active_node = "64 word \<times> nat \<times> string list"

definition holders :: "string \<Rightarrow> active_node list \<Rightarrow> nat" where
  "holders res active = size {#a \<in># mset active. res \<in> set (snd (snd a))#}"

definition run_queue :: "run_state \<Rightarrow> nat list" where
  "run_queue st = sorted_list_of_set (rs_ready st) @ map (\<lambda>a. fst (snd a)) (rs_active st)"

definition run_inv :: "execution_topology \<Rightarrow> graph_simulation_request \<Rightarrow> nat set \<Rightarrow> run_state \<Rightarrow> bool" where
  "run_inv t q D st \<longleftrightarrow>
     finite (rs_ready st) \<and> order_inv (succ_table t) D (rs_indegree st) (run_queue st) \<and>
     rs_completed st = card D \<and> length (rs_active st) \<le> max_parallelism q \<and>
     (\<forall>a\<in>set (rs_active st). snd (snd a) = resource_keys (topo_nodes t ! fst (snd a))) \<and>
     (\<forall>res. used (rs_usage st) res = holders res (rs_active st)) \<and>
     (\<forall>res. holders res (rs_active st) \<le> resource_capacity res q)"

lemma holders_mset: "mset xs = add_mset a (mset ys) \<Longrightarrow>
    holders res xs = (if res \<in> set (snd (snd a)) then 1 else 0) + holders res ys"
  by (simp add: holders_def)

lemma run_inv_finite:
  assumes "run_inv t q D st"
  shows "finite D" "D \<subseteq> {..<length (topo_nodes t)}"
proof -
  show "D \<subseteq> {..<length (topo_nodes t)}"
    using assms by (auto simp: run_inv_def order_inv_def)
  then show "finite D" by (rule finite_subset) simp
qed

lemma mset_ready [simp]: "mset (sorted_list_of_set A) = mset_set (A :: nat set)"
  by (metis mset_sorted_list_of_multiset sorted_list_of_mset_set)

lemma finish_position_step:
  assumes inv: "run_inv t q D st" and i: "i < length (rs_active st)"
  defines "v \<equiv> fst (snd (rs_active st ! i))"
  obtains st' where "finish_position (succ_table t) i st = Some st'" "run_inv t q (insert v D) st'"
    "mset (rs_active st) = add_mset (rs_active st ! i) (mset (rs_active st'))"
    "Suc (length (rs_active st')) = length (rs_active st)"
    "\<forall>j<i. rs_active st' ! j = rs_active st ! j" "rs_now st' = rs_now st"
    "rs_maximum_parallelism st' = rs_maximum_parallelism st"
proof -
  let ?a = "rs_active st ! i" and ?succs = "succ_table t"
  note inv' = inv [unfolded run_inv_def]
  obtain active where rm: "swap_remove i (rs_active st) = Some (?a, active)"
    "mset (rs_active st) = add_mset ?a (mset active)" "Suc (length active) = length (rs_active st)"
    "\<forall>j<i. active ! j = rs_active st ! j"
    by (rule swap_remove_spec [OF i])
  have a: "?a \<in> set (rs_active st)" using i by simp
  have keys: "snd (snd ?a) = resource_keys (topo_nodes t ! v)" using inv' a by (simp add: v_def)
  have split_use: "used (rs_usage st) res = (if res \<in> set (snd (snd ?a)) then 1 else 0) + holders res active" for res
    using inv' holders_mset [OF rm(2)] by simp
  then have "\<forall>res\<in>set (snd (snd ?a)). 0 < used (rs_usage st) res" by simp
  then obtain usage where usage: "release_resources (snd (snd ?a)) (rs_usage st) = Some usage"
    "\<forall>r. used usage r = used (rs_usage st) r - (if r \<in> set (snd (snd ?a)) then 1 else 0)"
    using release_used [of "snd (snd ?a)" "rs_usage st"] keys by auto
  let ?q = "sorted_list_of_set (rs_ready st) @ map (\<lambda>a. fst (snd a)) active"
  have "mset (run_queue st) = mset (v # ?q)"
    using rm(2) by (simp add: run_queue_def v_def image_mset_add_mset)
  then have order: "order_inv ?succs D (rs_indegree st) (v # ?q)"
    using order_inv_mset inv' by blast
  note head = order_inv_head [OF order]
  obtain ind new where rel: "release_successors (?succs ! v) (rs_indegree st, rs_ready st) = Some (ind, set new \<union> rs_ready st)"
    and order': "order_inv ?succs (insert v D) ind (?q @ new)"
    by (rule release_successors_step [OF order succ_table_range])
  define st' where "st' = st\<lparr>rs_active := active, rs_usage := usage, rs_completed := rs_completed st + 1,
     rs_indegree := ind, rs_ready := set new \<union> rs_ready st\<rparr>"
  have fin: "finite (rs_ready st)" using inv' by simp
  have run: "finish_position ?succs i st = Some st'"
    using rm(1) usage(1) rel head(1) by (cases ?a) (simp add: finish_position_def v_def st'_def)
  have "distinct (?q @ new)" using order' unfolding order_inv_def by blast
  then have new: "distinct new" "set new \<inter> rs_ready st = {}" using fin by auto
  then have "mset (sorted_list_of_set (set new \<union> rs_ready st)) = mset new + mset_set (rs_ready st)"
    using fin by (simp add: mset_set_Union mset_set_set [symmetric] del: mset_set_set)
  then have "mset (?q @ new) = mset (run_queue st')"
    using fin by (simp add: run_queue_def st'_def)
  then have order'': "order_inv ?succs (insert v D) ind (run_queue st')"
    using order' order_inv_mset by blast
  have "set active \<subseteq> set (rs_active st)" using rm(2) by (metis set_mset_add_mset_insert set_mset_mset subset_insertI)
  then have "\<forall>a\<in>set active. snd (snd a) = resource_keys (topo_nodes t ! fst (snd a))"
    using inv' by blast
  moreover have "holders res active \<le> resource_capacity res q" for res
    using inv' split_use [of res] by (metis add_leD2)
  moreover have "used usage res = holders res active" for res using usage(2) split_use by simp
  ultimately have "run_inv t q (insert v D) st'"
    using inv' order'' head(2) fin rm(3) run_inv_finite(1) [OF inv] unfolding run_inv_def st'_def
    by simp
  then show ?thesis by (rule that [OF run]) (use rm in \<open>simp_all add: st'_def\<close>)
qed

lemma finish_positions:
  assumes "run_inv t q D st" "sorted_wrt (>) ps" "\<forall>i\<in>set ps. i < length (rs_active st)"
  shows "\<exists>st'. fold_opt (finish_position (succ_table t)) ps st = Some st' \<and>
    run_inv t q (D \<union> (\<lambda>i. fst (snd (rs_active st ! i))) ` set ps) st' \<and>
    set (rs_active st') \<subseteq> set (rs_active st) \<and> length (rs_active st') \<le> length (rs_active st) \<and>
    rs_now st' = rs_now st \<and> rs_maximum_parallelism st' = rs_maximum_parallelism st"
  using assms
proof (induction ps arbitrary: D st)
  case (Cons i ps)
  let ?v = "fst (snd (rs_active st ! i))"
  obtain st1 where step: "finish_position (succ_table t) i st = Some st1" "run_inv t q (insert ?v D) st1"
    "mset (rs_active st) = add_mset (rs_active st ! i) (mset (rs_active st1))"
    "Suc (length (rs_active st1)) = length (rs_active st)"
    "\<forall>j<i. rs_active st1 ! j = rs_active st ! j" "rs_now st1 = rs_now st"
    "rs_maximum_parallelism st1 = rs_maximum_parallelism st"
    using finish_position_step [OF Cons.prems(1), of i] Cons.prems(3) by auto
  have lower: "\<forall>j\<in>set ps. j < i" using Cons.prems(2) by auto
  have same: "(\<lambda>j. fst (snd (rs_active st1 ! j))) ` set ps = (\<lambda>j. fst (snd (rs_active st ! j))) ` set ps"
    using lower step(5) by (intro image_cong) auto
  have "i < length (rs_active st)" using Cons.prems(3) by simp
  then have "\<forall>j\<in>set ps. j < length (rs_active st1)" using lower step(4) by fastforce
  then obtain st' where ih: "fold_opt (finish_position (succ_table t)) ps st1 = Some st'"
    "run_inv t q (insert ?v D \<union> (\<lambda>j. fst (snd (rs_active st ! j))) ` set ps) st'"
    "set (rs_active st') \<subseteq> set (rs_active st1)" "length (rs_active st') \<le> length (rs_active st1)" "rs_now st' = rs_now st1"
    "rs_maximum_parallelism st' = rs_maximum_parallelism st1"
    using Cons.IH [OF step(2)] Cons.prems(2) same by auto
  have "set (rs_active st1) \<subseteq> set (rs_active st)"
    using step(3) by (metis set_mset_add_mset_insert set_mset_mset subset_insertI)
  then show ?case using ih step by auto
qed auto

section \<open>Starting nodes\<close>

lemma mset_set_remove_ready: "finite A \<Longrightarrow> v \<in> A \<Longrightarrow> mset_set A = add_mset v (mset_set (A - {v :: nat}))"
  by (simp add: mset_set.remove)

lemma start_node_inv:
  assumes inv: "run_inv t q D st" and v: "v \<in> rs_ready st" and room: "length (rs_active st) < max_parallelism q"
    and free: "\<not> blocked t q v st"
  shows "run_inv t q D (start_node t q fan_in sampled v st)"
proof -
  let ?keys = "resource_keys (topo_nodes t ! v)"
  let ?a = "(u64_saturating_add (rs_now st) (run_duration q fan_in sampled v), v, ?keys)"
  note inv' = inv [unfolded run_inv_def]
  have fin: "finite (rs_ready st)" using inv' by simp
  have "mset (run_queue st) = mset (run_queue (start_node t q fan_in sampled v st))"
    using fin v by (simp add: run_queue_def start_node_def Let_def mset_set_remove_ready)
  then have order: "order_inv (succ_table t) D (rs_indegree st) (run_queue (start_node t q fan_in sampled v st))"
    using inv' order_inv_mset by blast
  have held: "holders res (rs_active st @ [?a]) = (if res \<in> set ?keys then 1 else 0) + holders res (rs_active st)" for res
    by (simp add: holders_mset [where a = ?a and ys = "rs_active st"])
  have "holders res (rs_active st) < resource_capacity res q" if "res \<in> set ?keys" for res
    using free that inv' unfolding blocked_def by (metis not_le)
  then have "holders res (rs_active st @ [?a]) \<le> resource_capacity res q" for res
    using inv' unfolding held by (cases "res \<in> set ?keys") (simp_all add: Suc_le_eq)
  then show ?thesis
    using inv' order room unfolding run_inv_def
    by (simp add: start_node_def Let_def acquire_used held)
qed

lemma run_inv_waits [simp]: "run_inv t q D (st\<lparr>rs_waits := k\<rparr>) \<longleftrightarrow> run_inv t q D st"
  by (simp add: run_inv_def run_queue_def)

lemma start_node_fields [simp]:
  "rs_ready (start_node t q f s v st) = rs_ready st - {v}" "rs_now (start_node t q f s v st) = rs_now st"
  "set (rs_active (start_node t q f s v st)) =
     insert (u64_saturating_add (rs_now st) (run_duration q f s v), v, resource_keys (topo_nodes t ! v)) (set (rs_active st))"
  "length (rs_active (start_node t q f s v st)) = Suc (length (rs_active st))"
  "rs_maximum_parallelism (start_node t q f s v st) = max (rs_maximum_parallelism st) (Suc (length (rs_active st)))"
  by (auto simp: start_node_def Let_def)

lemma start_ready_inv:
  assumes "run_inv t q D st" "distinct vs" "set vs \<subseteq> rs_ready st"
  shows "run_inv t q D (start_ready t q f s vs st)"
  using assms
proof (induction t q f s vs st rule: start_ready.induct)
  case (2 t q f s v vs st)
  show ?case
    using 2 start_node_inv [of t q D st v f s] by (auto simp: subset_Diff_insert)
qed simp

text \<open>
  What a start phase adds to the active list: nodes that were ready, started at the current time.
\<close>

lemma start_ready_active:
  assumes "a \<in> set (rs_active (start_ready t q f s vs st))"
  shows "a \<in> set (rs_active st) \<or>
    (\<exists>v\<in>set vs. a = (u64_saturating_add (rs_now st) (run_duration q f s v), v, resource_keys (topo_nodes t ! v)))"
  using assms by (induction t q f s vs st rule: start_ready.induct) (auto split: if_splits)

lemma start_ready_now [simp]: "rs_now (start_ready t q f s vs st) = rs_now st"
  by (induction t q f s vs st rule: start_ready.induct) auto

lemma start_ready_grows: "length (rs_active st) \<le> length (rs_active (start_ready t q f s vs st))"
  by (induction t q f s vs st rule: start_ready.induct) (auto split: if_splits)

lemma start_ready_parallelism:
  assumes "rs_maximum_parallelism st \<le> max_parallelism q" "length (rs_active st) \<le> rs_maximum_parallelism st"
  shows "rs_maximum_parallelism (start_ready t q f s vs st) \<le> max_parallelism q \<and>
    length (rs_active (start_ready t q f s vs st)) \<le> rs_maximum_parallelism (start_ready t q f s vs st)"
  using assms by (induction t q f s vs st rule: start_ready.induct) auto

text \<open>With nothing active and something ready, the first candidate starts.\<close>

definition positive_limits :: "graph_simulation_request \<Rightarrow> bool" where
  "positive_limits q \<longleftrightarrow> 0 < max_parallelism q \<and> (\<forall>res. 0 < resource_capacity res q)"

lemma start_ready_progress:
  assumes inv: "run_inv t q D st" and "rs_active st = []" "positive_limits q"
  shows "rs_active (start_ready t q f s (v # vs) st) \<noteq> []"
proof -
  have "used (rs_usage st) res = 0" for res using inv assms(2) by (simp add: run_inv_def holders_def)
  then have "\<not> blocked t q v st" using assms(3) by (auto simp: blocked_def positive_limits_def)
  with assms have "start_ready t q f s (v # vs) st = start_ready t q f s vs (start_node t q f s v st)"
    by (simp add: positive_limits_def)
  moreover have "0 < length (rs_active (start_node t q f s v st))" by simp
  ultimately show ?thesis using start_ready_grows [of "start_node t q f s v st" t q f s vs] by (metis length_greater_0_conv not_le order_less_le_trans)
qed

section \<open>Time\<close>

definition path_time :: "(nat \<Rightarrow> nat) \<Rightarrow> nat list \<Rightarrow> nat" where
  "path_time d p = sum_list (map d p)"

text \<open>No dependency path that ends at \<open>v\<close> weighs more than \<open>k\<close>.\<close>

definition settled_by :: "execution_topology \<Rightarrow> (nat \<Rightarrow> nat) \<Rightarrow> nat \<Rightarrow> nat \<Rightarrow> bool" where
  "settled_by t d v k \<longleftrightarrow> (\<forall>p. dependency_path t (v # p) \<longrightarrow> saturated (path_time d (v # p)) \<le> k)"

definition time_inv :: "execution_topology \<Rightarrow> (nat \<Rightarrow> nat) \<Rightarrow> nat set \<Rightarrow> run_state \<Rightarrow> bool" where
  "time_inv t d D st \<longleftrightarrow>
     (\<forall>v\<in>D. settled_by t d v (unat (rs_now st))) \<and> unat (rs_now st) \<le> saturated (sum d D) \<and>
     (\<forall>a\<in>set (rs_active st). rs_now st \<le> fst a \<and> settled_by t d (fst (snd a)) (unat (fst a)) \<and>
        unat (fst a) \<le> saturated (sum d (insert (fst (snd a)) D)))"

lemma saturated_mono: "j \<le> k \<Longrightarrow> saturated j \<le> saturated k"
  by (auto simp: saturated_def)

lemma saturated_absorb:
  "saturated (saturated j + k) = saturated (j + k)" "saturated (k + saturated j) = saturated (k + j)"
  by (auto simp: saturated_def)

lemma settled_by_mono: "settled_by t d v j \<Longrightarrow> j \<le> k \<Longrightarrow> settled_by t d v k"
  unfolding settled_by_def by (meson order_trans)

lemma settled_by_start:
  assumes "\<And>u. (u, v) \<in> depends t \<Longrightarrow> settled_by t d u now"
  shows "settled_by t d v (saturated (now + d v))"
  unfolding settled_by_def
proof (intro allI impI)
  fix p assume path: "dependency_path t (v # p)"
  show "saturated (path_time d (v # p)) \<le> saturated (now + d v)"
  proof (cases p)
    case Nil
    then show ?thesis by (simp add: path_time_def saturated_mono)
  next
    case (Cons u p')
    then have "saturated (path_time d (u # p')) \<le> now"
      using path assms [of u] by (simp add: settled_by_def)
    then have "saturated (saturated (path_time d (u # p')) + d v) \<le> saturated (now + d v)"
      by (intro saturated_mono) simp
    then show ?thesis by (simp add: saturated_absorb Cons path_time_def add.commute)
  qed
qed

lemma le_saturating_add: "a \<le> u64_saturating_add a b"
proof -
  have "unat a \<le> saturated (unat a + unat b)"
    using saturated_mono [of "unat a" "unat a + unat b"] by (simp add: saturated_unat)
  then show ?thesis by (simp add: word_le_nat_alt unat_saturating_add)
qed

lemma started_time:
  assumes inv: "run_inv t q D st" and time: "time_inv t d D st" and v: "v \<in> rs_ready st" and d: "d v = unat w"
  defines "finish \<equiv> u64_saturating_add (rs_now st) w"
  shows "rs_now st \<le> finish" "settled_by t d v (unat finish)" "unat finish \<le> saturated (sum d (insert v D))"
proof -
  have fin: "finite (rs_ready st)" "finite D" using inv run_inv_finite [OF inv] by (auto simp: run_inv_def)
  have order: "order_inv (succ_table t) D (rs_indegree st) (run_queue st)" using inv by (simp add: run_inv_def)
  have mem: "v \<in> set (run_queue st)" using v fin by (simp add: run_queue_def)
  then have "v \<notin> D" using order unfolding order_inv_def by blast
  have finish: "unat finish = saturated (unat (rs_now st) + d v)" by (simp add: finish_def unat_saturating_add d)
  show "rs_now st \<le> finish" by (simp add: finish_def le_saturating_add)
  have "u \<in> D" if "(u, v) \<in> depends t" for u
    using order_inv_preds [OF order, of v u] that mem by (simp add: edges_of_succ_table)
  then show "settled_by t d v (unat finish)"
    unfolding finish using time by (intro settled_by_start) (auto simp: time_inv_def)
  have "saturated (unat (rs_now st) + d v) \<le> saturated (saturated (sum d D) + d v)"
    using time by (intro saturated_mono) (simp add: time_inv_def)
  then show "unat finish \<le> saturated (sum d (insert v D))"
    using fin(2) \<open>v \<notin> D\<close> by (simp add: finish saturated_absorb add.commute)
qed

lemma start_ready_time:
  assumes inv: "run_inv t q D st" and time: "time_inv t d D st" and vs: "set vs \<subseteq> rs_ready st"
    and d: "\<And>v. v \<in> rs_ready st \<Longrightarrow> d v = unat (run_duration q f s v)"
  shows "time_inv t d D (start_ready t q f s vs st)"
  unfolding time_inv_def
proof (intro conjI ballI)
  fix a assume "a \<in> set (rs_active (start_ready t q f s vs st))"
  then consider "a \<in> set (rs_active st)"
    | v where "v \<in> set vs" "a = (u64_saturating_add (rs_now st) (run_duration q f s v), v, resource_keys (topo_nodes t ! v))"
    using start_ready_active [of a t q f s vs st] by blast
  then have "rs_now st \<le> fst a \<and> settled_by t d (fst (snd a)) (unat (fst a)) \<and>
    unat (fst a) \<le> saturated (sum d (insert (fst (snd a)) D))"
  proof cases
    case 1
    then show ?thesis using time by (auto simp: time_inv_def)
  next
    case 2
    then have "v \<in> rs_ready st" using vs by blast
    with 2 show ?thesis using started_time [OF inv time, of v "run_duration q f s v"] d by simp
  qed
  then show "rs_now (start_ready t q f s vs st) \<le> fst a" "settled_by t d (fst (snd a)) (unat (fst a))"
    "unat (fst a) \<le> saturated (sum d (insert (fst (snd a)) D))" by simp_all
qed (use time in \<open>simp_all add: time_inv_def\<close>)

section \<open>Rounds\<close>

definition round_inv ::
  "execution_topology \<Rightarrow> graph_simulation_request \<Rightarrow> (nat \<Rightarrow> nat) \<Rightarrow> nat set \<Rightarrow> run_state \<Rightarrow> bool" where
  "round_inv t q d D st \<longleftrightarrow> run_inv t q D st \<and> time_inv t d D st \<and>
     rs_maximum_parallelism st \<le> max_parallelism q \<and> length (rs_active st) \<le> rs_maximum_parallelism st"

lemma run_inv_now [simp]: "run_inv t q D (st\<lparr>rs_now := k\<rparr>) \<longleftrightarrow> run_inv t q D st"
  by (simp add: run_inv_def run_queue_def)

lemma finished_positions_desc:
  "sorted_wrt (>) (finished_positions now active)" "\<forall>i\<in>set (finished_positions now active). i < length active \<and> fst (active ! i) = now"
  by (auto simp: finished_positions_def sorted_wrt_rev sorted_wrt_filter)

lemma finish_time:
  assumes time: "time_inv t d D st" and ne: "ps \<noteq> []" and fin: "finite D'"
    and now: "\<forall>a\<in>set (rs_active st). now \<le> fst a" and ps: "\<forall>i\<in>set ps. i < length (rs_active st) \<and> fst (rs_active st ! i) = now"
    and D': "D' = D \<union> (\<lambda>i. fst (snd (rs_active st ! i))) ` set ps"
    and st': "set (rs_active st') \<subseteq> set (rs_active st)" "rs_now st' = now"
  shows "time_inv t d D' st'"
proof -
  have mono: "saturated (sum d A) \<le> saturated (sum d B)" if "A \<subseteq> B" "finite B" for A B
    using that by (intro saturated_mono sum_mono2) auto
  have entry: "rs_active st ! i \<in> set (rs_active st)" if "i \<in> set ps" for i using that ps by auto
  obtain i where i: "i \<in> set ps" using ne by (meson last_in_set)
  have later: "rs_now st \<le> now" using time entry [OF i] ps i by (auto simp: time_inv_def)
  have "settled_by t d v (unat now)" if v: "v \<in> D'" for v
  proof (cases "v \<in> D")
    case True
    then show ?thesis using time later settled_by_mono by (fastforce simp: time_inv_def word_le_nat_alt)
  next
    case False
    then obtain j where "j \<in> set ps" "v = fst (snd (rs_active st ! j))" using v D' by auto
    with entry [of j] ps time show ?thesis by (auto simp: time_inv_def)
  qed
  moreover have "unat now \<le> saturated (sum d (insert (fst (snd (rs_active st ! i))) D))"
    using time entry [OF i] ps i by (auto simp: time_inv_def)
  then have "unat now \<le> saturated (sum d D')"
    using mono [of "insert (fst (snd (rs_active st ! i))) D" D'] i fin D' by (auto intro: order_trans)
  moreover have "unat (fst a) \<le> saturated (sum d (insert (fst (snd a)) D'))" if "a \<in> set (rs_active st)" for a
    using mono [of "insert (fst (snd a)) D" "insert (fst (snd a)) D'"] time that fin D'
    by (auto simp: time_inv_def intro: order_trans)
  moreover have "settled_by t d (fst (snd a)) (unat (fst a))" if "a \<in> set (rs_active st)" for a
    using time that by (simp add: time_inv_def)
  ultimately show ?thesis
    unfolding time_inv_def st'(2) using now subsetD [OF st'(1)] by (intro conjI ballI) blast+
qed

lemma run_round_inv:
  assumes inv: "round_inv t q d D st" and limits: "positive_limits q" and ac: "acyclic (depends t)"
    and left: "rs_completed st < length (topo_nodes t)"
    and d: "\<And>v. v < length (topo_nodes t) \<Longrightarrow> d v = unat (run_duration q (map length (reverse_table t)) sampled v)"
  obtains st' D' where "run_round t q (lint_graph t) sampled st = Some st'" "round_inv t q d D' st'"
proof -
  let ?f = "map length (reverse_table t)"
  let ?vs = "sorted_list_of_set (rs_ready st)"
  define st1 where "st1 = start_ready t q ?f sampled ?vs st"
  have run: "run_inv t q D st" and time: "time_inv t d D st"
    and par: "rs_maximum_parallelism st \<le> max_parallelism q" "length (rs_active st) \<le> rs_maximum_parallelism st"
    using inv by (simp_all add: round_inv_def)
  have order: "order_inv (succ_table t) D (rs_indegree st) (run_queue st)" and fin: "finite (rs_ready st)"
    and done_card: "rs_completed st = card D"
    using run by (simp_all add: run_inv_def)
  have ready: "rs_ready st \<subseteq> {..<length (topo_nodes t)}"
    using order fin by (auto simp: order_inv_def run_queue_def)
  have run1: "run_inv t q D st1" unfolding st1_def using run fin by (intro start_ready_inv) simp_all
  have time1: "time_inv t d D st1"
    unfolding st1_def using run time fin ready d by (intro start_ready_time) auto
  have par1: "rs_maximum_parallelism st1 \<le> max_parallelism q \<and> length (rs_active st1) \<le> rs_maximum_parallelism st1"
    unfolding st1_def using par by (rule start_ready_parallelism)
  have ne: "rs_active st1 \<noteq> []"
  proof (cases "rs_active st = []")
    case True
    have "run_queue st \<noteq> []"
    proof
      assume "run_queue st = []"
      then show False using order_inv_end [of "succ_table t" D "rs_indegree st"] order succ_table_range [of t] ac left done_card
        by (simp add: edges_of_succ_table)
    qed
    then obtain v vs where "?vs = v # vs" using True by (cases ?vs) (auto simp: run_queue_def)
    then show ?thesis using start_ready_progress [OF run True limits] by (simp add: st1_def)
  next
    case False
    then show ?thesis using start_ready_grows [of st t q ?f sampled ?vs] by (auto simp: st1_def)
  qed
  let ?now = "Min (fst ` set (rs_active st1))"
  let ?ps = "finished_positions ?now (rs_active st1)" and ?st2 = "st1\<lparr>rs_now := ?now\<rparr>"
  let ?D = "D \<union> (\<lambda>i. fst (snd (rs_active st1 ! i))) ` set ?ps"
  obtain st' where st': "fold_opt (finish_position (succ_table t)) ?ps ?st2 = Some st'" "run_inv t q ?D st'"
    "set (rs_active st') \<subseteq> set (rs_active st1)" "rs_now st' = ?now"
    "rs_maximum_parallelism st' = rs_maximum_parallelism st1" "length (rs_active st') \<le> length (rs_active st1)"
    using finish_positions [of t q D ?st2 ?ps] run1 finished_positions_desc [of ?now "rs_active st1"] by auto
  have "time_inv t d ?D st'"
    by (rule finish_time [OF time1 finished_positions_nonempty [OF ne] run_inv_finite(1) [OF st'(2)]])
      (use finished_positions_desc(2) [of ?now "rs_active st1"] st' in \<open>simp_all\<close>)
  then have "round_inv t q d ?D st'"
    using st'(2,5,6) par1 by (simp add: round_inv_def)
  moreover have "run_round t q (lint_graph t) sampled st = Some st'"
    using st'(1) ne by (simp add: run_round_def lint_graph_def Let_def st1_def)
  ultimately show ?thesis by (rule that [rotated])
qed

section \<open>The whole run\<close>

lemma run_loop_inv:
  assumes "round_inv t q d D st" "positive_limits q" "acyclic (depends t)"
    and d: "\<And>v. v < length (topo_nodes t) \<Longrightarrow> d v = unat (run_duration q (map length (reverse_table t)) sampled v)"
  shows "\<exists>st' D'. run_loop t q (lint_graph t) sampled st = Some st' \<and> round_inv t q d D' st' \<and>
    length (topo_nodes t) \<le> rs_completed st'"
  using assms(1)
proof (induction "length (topo_nodes t) - rs_completed st" arbitrary: D st rule: less_induct)
  case less
  show ?case
  proof (cases "rs_completed st < length (topo_nodes t)")
    case True
    obtain st1 D1 where step: "run_round t q (lint_graph t) sampled st = Some st1" "round_inv t q d D1 st1"
      by (rule run_round_inv [OF less.prems assms(2,3) True d])
    have "run_loop t q (lint_graph t) sampled st = run_loop t q (lint_graph t) sampled st1"
      using step(1) True by (subst run_loop.simps) simp
    moreover have "length (topo_nodes t) - rs_completed st1 < length (topo_nodes t) - rs_completed st"
      using run_round_progress [OF step(1)] True by simp
    ultimately show ?thesis using less.hyps step(2) by simp
  next
    case False
    then have "run_loop t q (lint_graph t) sampled st = Some st" by (subst run_loop.simps) simp
    with False less.prems show ?thesis by auto
  qed
qed

lemma run_start_inv: "round_inv t q d {} (run_start (lint_graph t))"
proof -
  let ?ind = "map length (reverse_table t)"
  have "mset (sources_of ?ind) = mset (run_queue (run_start (lint_graph t)))"
    by (simp add: run_queue_def run_start_def lint_graph_def mset_set_set sources_of_def)
  moreover have "order_inv (succ_table t) {} ?ind (sources_of ?ind)"
    by (rule order_start) (simp_all add: succ_table_def table_counts)
  ultimately have "order_inv (succ_table t) {} ?ind (run_queue (run_start (lint_graph t)))"
    using order_inv_mset by blast
  then show ?thesis
    by (simp add: round_inv_def run_inv_def time_inv_def run_start_def lint_graph_def holders_def used_def)
qed

definition node_time :: "execution_topology \<Rightarrow> graph_simulation_request \<Rightarrow> sampled_node list \<Rightarrow> nat \<Rightarrow> nat" where
  "node_time t q sampled v = unat (run_duration q (sg_fan_in (lint_graph t)) sampled v)"

lemma simulate_run_total:
  assumes "positive_limits q" "acyclic (depends t)"
  obtains r where "simulate_run t q (lint_graph t) sampled = Some r"
    "\<And>p. dependency_path t p \<Longrightarrow> saturated (path_time (node_time t q sampled) p) \<le> unat (run_elapsed_ms r)"
    "unat (run_elapsed_ms r) \<le> saturated (\<Sum>v<length (topo_nodes t). node_time t q sampled v)"
    "run_maximum_parallelism r \<le> max_parallelism q"
proof -
  let ?d = "node_time t q sampled" and ?n = "length (topo_nodes t)"
  obtain st D where run: "run_loop t q (lint_graph t) sampled (run_start (lint_graph t)) = Some st"
    and inv: "round_inv t q ?d D st" and all: "?n \<le> rs_completed st"
    using run_loop_inv [OF run_start_inv assms, of ?d sampled] by (auto simp: node_time_def lint_graph_def)
  have sub: "D \<subseteq> {..<?n}" and "rs_completed st = card D"
    using inv run_inv_finite [of t q D st] by (auto simp: round_inv_def run_inv_def)
  with all have D: "D = {..<?n}" by (metis card_lessThan card_seteq finite_lessThan)
  have time: "time_inv t ?d D st" using inv by (simp add: round_inv_def)
  show ?thesis
  proof (rule that)
    show "simulate_run t q (lint_graph t) sampled = Some \<lparr>run_elapsed_ms = rs_now st,
      run_maximum_parallelism = rs_maximum_parallelism st, run_resource_wait_events = rs_waits st\<rparr>"
      using run by (simp add: simulate_run_def)
    fix p assume path: "dependency_path t p"
    then obtain v p' where p: "p = v # p'" by (cases p) auto
    have "v < ?n"
      using path p back_path_dependency [of "succ_table t" t p] back_path_range [OF succ_table_range, of t p]
      by (simp add: edges_of_succ_table)
    with time D path p show "saturated (path_time ?d p) \<le> unat (run_elapsed_ms \<lparr>run_elapsed_ms = rs_now st,
      run_maximum_parallelism = rs_maximum_parallelism st, run_resource_wait_events = rs_waits st\<rparr>)"
      by (auto simp: time_inv_def settled_by_def)
  qed (use time D inv in \<open>simp_all add: time_inv_def round_inv_def\<close>)
qed

end
