(* ===== verification/Simulation_Properties.thy ===== *)
theory Simulation_Properties
  imports Simulation_Run
begin

text \<open>
  Correctness of \<open>src/graph_simulation.rs\<close>: what a valid request guarantees, the bounds of the sampled values, and
  the properties of a simulation: it always answers, it answers with findings exactly for an invalid
  request, a stale hash or a topology with lint errors, and its report respects the limits of the request and the
  dependency paths of the topology.
\<close>

section \<open>Valid requests\<close>

definition range_ok :: "u64_range \<Rightarrow> bool" where
  "range_ok r \<longleftrightarrow> rg_minimum r \<le> rg_maximum r"

lemma validate_range_ok: "validate_range r here = [] \<longleftrightarrow> (\<forall>x. r = Some x \<longrightarrow> range_ok x)"
  by (auto simp: validate_range_def finding_when_def range_ok_def split: option.splits)

lemma finding_when_empty [simp]: "finding_when b c l d = [] \<longleftrightarrow> \<not> b"
  by (simp add: finding_when_def)

lemma sort_findings_empty [simp]: "sort_findings fs = [] \<longleftrightarrow> fs = []"
proof -
  have "set (sort_findings fs) = set fs" by (simp add: sort_findings_def)
  then show ?thesis by (metis set_empty)
qed

definition calibration_ok :: "node_calibration \<Rightarrow> bool" where
  "calibration_ok c \<longleftrightarrow>
     (\<forall>r\<in>set_option (nc_latency_ms c) \<union> set_option (nc_cost_microunits c) \<union> set_option (nc_input_tokens c)
        \<union> set_option (nc_output_tokens c). range_ok r)"

lemma validate_calibrations_ok: "validate_calibrations seen i cs = [] \<Longrightarrow> \<forall>c\<in>set cs. calibration_ok c"
  by (induction cs arbitrary: seen i)
    (auto simp: validate_calibration_def Let_def validate_range_ok calibration_ok_def)

lemma validate_routes_ok:
  "validate_routes seen i rs = [] \<Longrightarrow> \<forall>r\<in>set rs. range_ok (rc_latency_ms r) \<and> range_ok (rc_cost_microunits r)"
  by (induction rs arbitrary: seen i) (auto simp: validate_route_def Let_def validate_range_ok)

lemma valid_request:
  assumes "validate_request q = []"
  shows "positive_limits q" "1 \<le> gs_iterations q" "gs_iterations q \<le> graph_simulation_max_iterations"
    "\<forall>c\<in>set (calibrations q). calibration_ok c"
    "\<forall>r\<in>set (routing_candidates q). range_ok (rc_latency_ms r) \<and> range_ok (rc_cost_microunits r)"
proof -
  have parts: "gs_iterations q \<noteq> 0" "gs_iterations q \<le> graph_simulation_max_iterations" "max_parallelism q \<noteq> 0"
    "\<forall>(res, capacity)\<in>set (sorted_list_of_fmap (resource_capacities q)). capacity \<noteq> 0"
    "validate_calibrations {} 0 (calibrations q) = []" "validate_routes {} 0 (routing_candidates q) = []"
    using assms by (auto simp: validate_request_def)
  show "1 \<le> gs_iterations q" "gs_iterations q \<le> graph_simulation_max_iterations" using parts by simp_all
  show "\<forall>c\<in>set (calibrations q). calibration_ok c" using parts validate_calibrations_ok by blast
  show "\<forall>r\<in>set (routing_candidates q). range_ok (rc_latency_ms r) \<and> range_ok (rc_cost_microunits r)"
    using parts validate_routes_ok by blast
  have "k \<noteq> 0" if "fmlookup (resource_capacities q) res = Some k" for res k
  proof -
    have "(res, k) \<in> set (sorted_list_of_fmap (resource_capacities q))"
      using that by (intro map_of_SomeD) simp
    with parts(4) show ?thesis by blast
  qed
  then show "positive_limits q"
    using parts(3) by (auto simp: positive_limits_def resource_capacity_def split: option.splits)
qed

section \<open>Sampled values\<close>

lemma rng_sample_bounds:
  assumes "range_ok r"
  shows "rg_minimum r \<le> fst (rng_sample r rng)" "fst (rng_sample r rng) \<le> rg_maximum r"
proof -
  define width where "width = rg_maximum r - rg_minimum r"
  have w: "unat width = unat (rg_maximum r) - unat (rg_minimum r)" "unat (rg_minimum r) \<le> unat (rg_maximum r)"
    using assms by (simp_all add: width_def range_ok_def unat_sub word_le_nat_alt)
  have drawn: "unat (x mod u64_saturating_add width 1) \<le> unat width" if "width \<noteq> 0" for x
  proof -
    have "unat (u64_saturating_add width 1) = saturated (unat width + 1)" by (simp add: unat_saturating_add)
    moreover have "0 < unat width" using that by (simp add: unat_gt_0)
    ultimately have "0 < unat (u64_saturating_add width 1)" "unat (u64_saturating_add width 1) \<le> unat width + 1"
      by (simp_all add: saturated_def)
    then have "unat x mod unat (u64_saturating_add width 1) < unat width + 1"
      using mod_less_divisor [of "unat (u64_saturating_add width 1)" "unat x"] by linarith
    then show ?thesis by (simp add: unat_mod)
  qed
  have "fst (rng_sample r rng) = (if width = 0 then rg_minimum r
      else u64_saturating_add (rg_minimum r) (rng_next rng mod u64_saturating_add width 1))"
    using assms leD [of "rg_minimum r" "rg_maximum r"] by (simp add: rng_sample_def width_def range_ok_def Let_def)
  moreover have "u64_saturating_add (rg_minimum r) (rng_next rng mod u64_saturating_add width 1) \<le> rg_maximum r" if "width \<noteq> 0"
  proof -
    have "unat (rg_minimum r) + unat (rng_next rng mod u64_saturating_add width 1) \<le> unat (rg_maximum r)"
      using drawn [OF that, of "rng_next rng"] w by linarith
    then show ?thesis
      using saturated_mono [of _ "unat (rg_maximum r)"] by (simp add: word_le_nat_alt unat_saturating_add saturated_unat)
  qed
  ultimately show "rg_minimum r \<le> fst (rng_sample r rng)" "fst (rng_sample r rng) \<le> rg_maximum r"
    using assms by (auto simp: range_ok_def le_saturating_add)
qed

lemma saturating_mul_ge: "b \<noteq> 0 \<Longrightarrow> a \<le> u64_saturating_mul a b"
proof -
  assume "b \<noteq> 0"
  then have "unat a * 1 \<le> unat a * unat b" by (intro mult_le_mono2) (simp add: Suc_le_eq unat_gt_0)
  moreover have "unat (a * b) = unat a * unat b" if "unat a * unat b < 2 ^ 64"
    using that unat_mult_lem [of a b] by simp
  ultimately show ?thesis by (simp add: u64_saturating_mul_def word_le_nat_alt [of a "a * b"])
qed

lemma retry_attempts:
  assumes "attempts \<le> limit"
  shows "attempts \<le> fst (retry_loop p limit attempts rng) \<and> fst (retry_loop p limit attempts rng) \<le> limit"
  using assms
proof (induction p limit attempts rng rule: retry_loop.induct)
  case (1 p limit attempts rng)
  then show ?case by (subst (1 2) retry_loop.simps) (auto simp: Let_def)
qed

text \<open>What the sampling of a node guarantees.\<close>

definition sample_ok :: "graph_simulation_request \<Rightarrow> topology_node \<Rightarrow> sampled_node \<Rightarrow> bool" where
  "sample_ok q n s \<longleftrightarrow>
     (cal_cost (resolve_node q n) \<noteq> None \<longrightarrow> sn_cost_microunits s \<noteq> None) \<and>
     (cal_tokens (resolve_node q n) \<noteq> None \<longrightarrow> sn_total_tokens s \<noteq> None) \<and>
     (\<forall>r. cal_latency (resolve_node q n) = Some r \<longrightarrow> rg_minimum r \<le> sn_latency_ms s)"

lemma or_else_None [simp]: "or_else x None = x" by (cases x) simp_all

lemma resolve_field_member: "resolve_field field q n = Some x \<Longrightarrow> \<exists>c\<in>set (calibrations q). field c = Some x"
  unfolding resolve_field_def
  by (cases "Option.bind (find (\<lambda>c. nc_node_id c = Some (tn_node_id n)) (calibrations q)) field")
    (auto simp: bind_eq_Some_conv find_Some_iff)

lemma resolved_latency_ok:
  assumes "\<forall>c\<in>set (calibrations q). calibration_ok c" "cal_latency (resolve_node q n) = Some r"
  shows "range_ok r"
proof (cases "resolve_field nc_latency_ms q n")
  case None
  with assms(2) show ?thesis by (auto simp: resolve_node_def range_ok_def)
next
  case (Some r')
  with assms(2) have "r' = r" by (simp add: resolve_node_def)
  with resolve_field_member [OF Some] assms(1) show ?thesis by (auto simp: calibration_ok_def)
qed

lemma scaled_ge:
  assumes "1 \<le> attempts" "attempts \<le> 100" "expansion \<noteq> 0"
  shows "v \<le> scaled attempts expansion v"
proof -
  have "(of_nat attempts :: 64 word) \<noteq> 0" using assms(1,2) by (simp add: word_of_nat_eq_0_iff nat_dvd_not_less)
  then show ?thesis using assms(3) saturating_mul_ge unfolding scaled_def by (meson order_trans)
qed

lemma sample_node_run_ok:
  assumes "\<forall>c\<in>set (calibrations q). calibration_ok c" "1 \<le> maximum_attempts q" "maximum_attempts q \<le> 100"
  shows "sample_ok q n (fst (sample_node_run q n (resolve_node q n) rng))"
proof -
  let ?cal = "resolve_node q n"
  obtain expansion rng1 where e: "sample_expansion q n rng = (expansion, rng1)" by fastforce
  have e0: "expansion \<noteq> 0"
    using e by (auto simp: sample_expansion_def max_def split: option.splits prod.splits if_splits)
  define retry where "retry = (case cal_failure_basis_points ?cal of None \<Rightarrow> (1, False, rng1)
    | Some p \<Rightarrow> retry_loop p (maximum_attempts q) 1 rng1)"
  obtain attempts failed rng2 where r: "retry = (attempts, failed, rng2)" by (cases retry) auto
  have attempts: "1 \<le> attempts" "attempts \<le> 100"
    using r assms(2,3) retry_attempts [of 1 "maximum_attempts q"] unfolding retry_def
    by (auto split: option.splits) (metis fst_conv le_trans)+
  obtain latency rng3 where l: "(case cal_latency ?cal of None \<Rightarrow> (0, rng2) | Some r \<Rightarrow> rng_sample r rng2) = (latency, rng3)"
    by fastforce
  have "rg_minimum x \<le> scaled attempts expansion latency" if "cal_latency ?cal = Some x" for x
    using l rng_sample_bounds(1) [OF resolved_latency_ok [OF assms(1) that], of rng2] that
      scaled_ge [OF attempts e0, of latency] by auto
  then show ?thesis
    using e r l unfolding sample_node_run_def sample_ok_def retry_def by (auto split: option.splits prod.splits)
qed

lemma sample_nodes_ok:
  assumes "\<forall>c\<in>set (calibrations q). calibration_ok c" "1 \<le> maximum_attempts q" "maximum_attempts q \<le> 100"
  shows "list_all2 (sample_ok q) ns (fst (sample_nodes q ns rng))"
proof (induction ns arbitrary: rng)
  case (Cons n ns)
  obtain s rng1 where s: "sample_node_run q n (resolve_node q n) rng = (s, rng1)" by fastforce
  then have "sample_ok q n s" using sample_node_run_ok [OF assms, of n rng] by simp
  with s Cons [of rng1] show ?case by (auto split: prod.splits)
qed simp

section \<open>Iterations\<close>

text \<open>The calibrated minimum latency of a node.\<close>

definition minimum_latency :: "execution_topology \<Rightarrow> graph_simulation_request \<Rightarrow> nat \<Rightarrow> nat" where
  "minimum_latency t q v =
     (case cal_latency (resolve_node q (topo_nodes t ! v)) of None \<Rightarrow> 0 | Some r \<Rightarrow> unat (rg_minimum r))"

definition latency_floor :: "execution_topology \<Rightarrow> graph_simulation_request \<Rightarrow> 64 word \<Rightarrow> bool" where
  "latency_floor t q elapsed \<longleftrightarrow>
     (\<forall>p. dependency_path t p \<longrightarrow> saturated (path_time (minimum_latency t q) p) \<le> unat elapsed)"

definition runnable :: "execution_topology \<Rightarrow> graph_simulation_request \<Rightarrow> bool" where
  "runnable t q \<longleftrightarrow> validate_request q = [] \<and> acyclic (depends t)"

definition samples_inv ::
  "execution_topology \<Rightarrow> graph_simulation_request \<Rightarrow> nat \<Rightarrow> simulation_samples \<Rightarrow> bool" where
  "samples_inv t q k st \<longleftrightarrow>
     ss_failed_iterations st \<le> k \<and> ss_maximum_parallelism st \<le> max_parallelism q \<and>
     length (ss_latency st) = (if known cal_latency q t then k else 0) \<and>
     length (ss_cost st) = (if known cal_cost q t then k else 0) \<and>
     length (ss_tokens st) = (if known cal_tokens q t then k else 0) \<and>
     (\<forall>e\<in>set (ss_latency st). latency_floor t q e)"

lemma valid_attempts: "validate_request q = [] \<Longrightarrow> 1 \<le> maximum_attempts q \<and> maximum_attempts q \<le> 100"
  by (simp add: validate_request_def)

lemma path_time_mono:
  assumes "\<And>v. v \<in> set p \<Longrightarrow> d v \<le> e v"
  shows "saturated (path_time d p) \<le> saturated (path_time e p)"
  unfolding path_time_def using assms by (intro saturated_mono sum_list_mono)

lemma dependency_path_range: "dependency_path t p \<Longrightarrow> set p \<subseteq> {..<length (topo_nodes t)}"
  using back_path_dependency [of "succ_table t" t p] back_path_range [OF succ_table_range, of t p]
  by (simp add: edges_of_succ_table)

lemma run_latency_floor:
  assumes ok: "list_all2 (sample_ok q) (topo_nodes t) sampled"
    and run: "\<And>p. dependency_path t p \<Longrightarrow> saturated (path_time (node_time t q sampled) p) \<le> unat elapsed"
  shows "latency_floor t q elapsed"
  unfolding latency_floor_def
proof (intro allI impI)
  fix p assume path: "dependency_path t p"
  have "minimum_latency t q v \<le> node_time t q sampled v" if "v \<in> set p" for v
  proof -
    have "v < length (topo_nodes t)" using dependency_path_range [OF path] that by auto
    then have "sample_ok q (topo_nodes t ! v) (sampled ! v)" using ok by (simp add: list_all2_conv_all_nth)
    then have "minimum_latency t q v \<le> unat (sn_latency_ms (sampled ! v))"
      by (auto simp: minimum_latency_def sample_ok_def word_le_nat_alt split: option.splits)
    also have "\<dots> \<le> node_time t q sampled v"
      using le_saturating_add by (simp add: node_time_def run_duration_def flip: word_le_nat_alt)
    finally show ?thesis .
  qed
  then show "saturated (path_time (minimum_latency t q) p) \<le> unat elapsed"
    using path_time_mono run [OF path] order_trans by blast
qed

lemma those_total: "\<forall>x\<in>set xs. x \<noteq> None \<Longrightarrow> \<exists>ys. those xs = Some ys"
  by (induction xs) auto

lemma saturating_total_known:
  assumes "list_all2 (sample_ok q) ns sampled" "list_all (\<lambda>n. field (resolve_node q n) \<noteq> None) ns"
    and "\<And>n s. sample_ok q n s \<Longrightarrow> field (resolve_node q n) \<noteq> None \<Longrightarrow> out s \<noteq> None"
  shows "\<exists>v. saturating_total (map out sampled) = Some v"
proof -
  have "\<forall>x\<in>set (map out sampled). x \<noteq> None"
    using assms(1,2) by (induction rule: list_all2_induct) (auto dest: assms(3))
  then show ?thesis using those_total [of "map out sampled"] by (auto simp: saturating_total_def)
qed

lemma run_iteration_total:
  assumes ok: "runnable t q" and inv: "samples_inv t q k st"
  obtains st' where "run_iteration t q (lint_graph t) st = Some st'" "samples_inv t q (Suc k) st'"
proof -
  obtain sampled rng where s: "sample_nodes q (topo_nodes t) (ss_rng st) = (sampled, rng)" by fastforce
  have valid: "validate_request q = []" "acyclic (depends t)" using ok by (auto simp: runnable_def)
  have good: "list_all2 (sample_ok q) (topo_nodes t) sampled"
    using sample_nodes_ok [of q "topo_nodes t" "ss_rng st"] valid_request(4) [OF valid(1)] valid_attempts [OF valid(1)] s by simp
  obtain r where r: "simulate_run t q (lint_graph t) sampled = Some r"
    "\<And>p. dependency_path t p \<Longrightarrow> saturated (path_time (node_time t q sampled) p) \<le> unat (run_elapsed_ms r)"
    "run_maximum_parallelism r \<le> max_parallelism q"
    by (rule simulate_run_total [OF valid_request(1) [OF valid(1)] valid(2), of sampled]) auto
  have cost: "\<exists>v. saturating_total (map sn_cost_microunits sampled) = Some v" if "known cal_cost q t"
    using saturating_total_known [OF good, of cal_cost sn_cost_microunits] that by (auto simp: known_def sample_ok_def)
  have tokens: "\<exists>v. saturating_total (map sn_total_tokens sampled) = Some v" if "known cal_tokens q t"
    using saturating_total_known [OF good, of cal_tokens sn_total_tokens] that by (auto simp: known_def sample_ok_def)
  obtain st1 where st1: "sample_latency t q (lint_graph t) sampled (st\<lparr>ss_rng := rng\<rparr>) = Some st1"
    "ss_failed_iterations st1 = ss_failed_iterations st" "ss_maximum_parallelism st1 \<le> max_parallelism q"
    "length (ss_latency st1) = (if known cal_latency q t then Suc k else 0)"
    "ss_cost st1 = ss_cost st" "ss_tokens st1 = ss_tokens st" "\<forall>e\<in>set (ss_latency st1). latency_floor t q e"
    using inv r run_latency_floor [OF good r(2)]
    by (cases "known cal_latency q t") (auto simp: sample_latency_def samples_inv_def)
  obtain st2 where st2: "sample_cost t q sampled st1 = Some st2"
    "ss_failed_iterations st2 = ss_failed_iterations st1" "ss_maximum_parallelism st2 = ss_maximum_parallelism st1"
    "ss_latency st2 = ss_latency st1" "length (ss_cost st2) = (if known cal_cost q t then Suc k else 0)"
    "ss_tokens st2 = ss_tokens st1"
    using cost inv st1(5) by (cases "known cal_cost q t") (auto simp: sample_cost_def samples_inv_def)
  obtain st3 where st3: "sample_tokens t q sampled st2 = Some st3"
    "ss_failed_iterations st3 = ss_failed_iterations st2" "ss_maximum_parallelism st3 = ss_maximum_parallelism st2"
    "ss_latency st3 = ss_latency st2" "ss_cost st3 = ss_cost st2"
    "length (ss_tokens st3) = (if known cal_tokens q t then Suc k else 0)"
    using tokens inv st1(6) st2(6) by (cases "known cal_tokens q t") (auto simp: sample_tokens_def samples_inv_def)
  show ?thesis
  proof (rule that)
    show "run_iteration t q (lint_graph t) st = Some (sample_failure t q sampled st3)"
      using s st1(1) st2(1) st3(1) by (simp add: run_iteration_def)
    show "samples_inv t q (Suc k) (sample_failure t q sampled st3)"
      using inv st1 st2 st3 by (auto simp: samples_inv_def sample_failure_def)
  qed
qed

lemma run_iterations_total:
  assumes "runnable t q" "samples_inv t q k st"
  shows "\<exists>st'. run_iterations t q (lint_graph t) m st = Some st' \<and> samples_inv t q (k + m) st'"
  using assms(2)
proof (induction m arbitrary: k st)
  case (Suc m)
  obtain st1 where "run_iteration t q (lint_graph t) st = Some st1" "samples_inv t q (Suc k) st1"
    by (rule run_iteration_total [OF assms(1) Suc.prems])
  with Suc.IH [of "Suc k" st1] show ?case by auto
qed simp

section \<open>Routing\<close>

lemma cheapest_route_total:
  assumes "\<forall>r\<in>set (routing_candidates q). range_ok (rc_latency_ms r) \<and> range_ok (rc_cost_microunits r)"
  shows "cheapest_route q class \<noteq> None"
proof -
  have "\<forall>x\<in>set (map (\<lambda>c. map_option (\<lambda>k. (k, c)) (route_key c))
      (filter (\<lambda>c. rc_executor_class c = class) (routing_candidates q))). x \<noteq> None"
    using assms by (auto simp: route_key_def midpoint_def range_ok_def bind_eq_None_conv not_less)
  then show ?thesis using those_total by (fastforce simp: cheapest_route_def)
qed

lemma propose_routing_total:
  assumes "validate_request q = []"
  obtains p where "propose_routing t q h = Some p"
proof -
  have "\<forall>x\<in>set (map (\<lambda>n. map_option (routing_decision n) (cheapest_route q (tn_executor_class n))) (topo_nodes t)). x \<noteq> None"
    using cheapest_route_total [OF valid_request(5) [OF assms]] by auto
  then show ?thesis using those_total that by (fastforce simp: propose_routing_def)
qed

section \<open>The simulation\<close>

definition range_sorted :: "simulation_range \<Rightarrow> bool" where
  "range_sorted r \<longleftrightarrow> sr_minimum r \<le> sr_p50 r \<and> sr_p50 r \<le> sr_maximum r"

lemma summarize_spec:
  assumes "summarize samples = Some r"
  shows "range_sorted r" "sr_minimum r \<in> set samples" "sr_maximum r \<in> set samples"
    "\<forall>v\<in>set samples. sr_minimum r \<le> v \<and> v \<le> sr_maximum r"
proof -
  let ?s = "sort samples"
  have ne: "?s \<noteq> []" and len: "0 < length ?s" using assms by (auto simp: summarize_def split: if_splits) (metis set_empty set_sort)+
  have r: "sr_minimum r = ?s ! 0" "sr_p50 r = ?s ! ((length ?s - 1) div 2)" "sr_maximum r = ?s ! (length ?s - 1)"
    using assms ne by (auto simp: summarize_def Let_def last_conv_nth split: if_splits)
  have mono: "?s ! i \<le> ?s ! j" if "i \<le> j" "j < length ?s" for i j using that by (simp add: sorted_nth_mono)
  show "range_sorted r" using len unfolding range_sorted_def r by (intro conjI mono) linarith+
  have mem: "?s ! i \<in> set samples" if "i < length ?s" for i using that by (metis nth_mem set_sort)
  show "sr_minimum r \<in> set samples" "sr_maximum r \<in> set samples" unfolding r by (rule mem, use len in linarith)+
  show "\<forall>v\<in>set samples. sr_minimum r \<le> v \<and> v \<le> sr_maximum r"
  proof
    fix v assume "v \<in> set samples"
    then obtain i where "i < length ?s" "v = ?s ! i" by (metis in_set_conv_nth set_sort)
    then show "sr_minimum r \<le> v \<and> v \<le> sr_maximum r" unfolding r using mono [of 0 i] mono [of i "length ?s - 1"] by simp
  qed
qed

text \<open>What a simulation accepts.\<close>

definition simulation_accepts :: "execution_topology \<Rightarrow> graph_simulation_request \<Rightarrow> string \<Rightarrow> bool" where
  "simulation_accepts t q topology_hash \<longleftrightarrow>
     validate_request q = [] \<and> gs_topology_content_hash q = topology_hash \<and>
     topology_ok t \<and> acyclic (depends t) \<and> conflict_free t \<and> expansions_budgeted t"

text \<open>What its report promises.\<close>

definition report_ok :: "execution_topology \<Rightarrow> graph_simulation_request \<Rightarrow> graph_simulation_report \<Rightarrow> bool" where
  "report_ok t q r \<longleftrightarrow>
     gr_iterations r = gs_iterations q \<and>
     (gr_latency_ms r \<noteq> None \<longleftrightarrow> known cal_latency q t) \<and> (gr_cost_microunits r \<noteq> None \<longleftrightarrow> known cal_cost q t) \<and>
     (gr_total_tokens r \<noteq> None \<longleftrightarrow> known cal_tokens q t) \<and>
     (\<forall>s\<in>set_option (gr_latency_ms r) \<union> set_option (gr_cost_microunits r) \<union> set_option (gr_total_tokens r). range_sorted s) \<and>
     (\<forall>s\<in>set_option (gr_latency_ms r). latency_floor t q (sr_minimum s)) \<and>
     (\<forall>s\<in>set_option (gr_successful_iterations r). \<forall>f\<in>set_option (gr_failed_iterations r). s + f = gs_iterations q) \<and>
     gr_maximum_observed_parallelism r \<le> max_parallelism q"

lemma simulation_report_ok:
  assumes inv: "samples_inv t q (gs_iterations q) samples" and pos: "1 \<le> gs_iterations q"
  shows "report_ok t q (simulation_report t q h h' samples routing)"
proof -
  note inv' = inv [unfolded samples_inv_def]
  have none: "summarize xs = None \<longleftrightarrow> xs = []" for xs by (simp add: summarize_def Let_def)
  have empty: "(ss_latency samples = []) = (\<not> known cal_latency q t)" "(ss_cost samples = []) = (\<not> known cal_cost q t)"
    "(ss_tokens samples = []) = (\<not> known cal_tokens q t)"
    using inv' pos by (auto simp flip: length_0_conv)
  have "latency_floor t q (sr_minimum s)" if "summarize (ss_latency samples) = Some s" for s
    using summarize_spec(2) [OF that] inv' by blast
  with inv' empty show ?thesis
    by (auto simp: report_ok_def simulation_report_def none dest: summarize_spec(1))
qed

lemma simulation_findings_empty:
  assumes "execution_topology_content_hash to_string digest t = Ok h" "length (topo_edges t) \<le> usize_max"
  obtains lint where "lint_execution_topology to_string digest t = Some lint"
    "simulation_findings q h lint = [] \<longleftrightarrow> simulation_accepts t q h"
proof -
  obtain lint where lint: "lint_execution_topology to_string digest t = Some lint"
    and findings: "lr_findings lint = sort_key lint_key (lint_report_findings t)"
    using lint_run [OF assms(1)] by (metis graph_lint_report.select_convs(6))
  have "lint_error_findings lint = [] \<longleftrightarrow> no_error (lint_report_findings t)"
    by (auto simp: lint_error_findings_def findings no_error_def list_all_iff filter_empty_conv)
  then show ?thesis
    using lint by (intro that [of lint]) (auto simp: simulation_findings_def simulation_accepts_def lint_no_error [OF assms(2)])
qed

text \<open>
  Claim C9. A simulation always answers: it never runs out of active nodes, never decrements a counter below zero
  and never loops. It answers with findings exactly when the request is invalid, names another
  topology or the topology has lint errors; otherwise with a report whose ranges are ordered, whose successes and
  failures add up to the iterations, whose parallelism stays within the limit, and whose least latency is at
  least the saturated sum of the calibrated minimum latencies along every dependency path.
\<close>

theorem simulation_answers:
  assumes "execution_topology_content_hash to_string digest t = Ok h" "request_to_string q = Ok text"
    and "length (topo_edges t) \<le> usize_max"
  shows "case simulate_execution_topology to_string request_to_string digest t q of
      None \<Rightarrow> False
    | Some (Inl findings) \<Rightarrow> findings \<noteq> [] \<and> \<not> simulation_accepts t q h
    | Some (Inr r) \<Rightarrow> simulation_accepts t q h \<and> report_ok t q r"
proof -
  obtain lint where lint: "lint_execution_topology to_string digest t = Some lint"
    "simulation_findings q h lint = [] \<longleftrightarrow> simulation_accepts t q h"
    by (rule simulation_findings_empty [OF assms(1,3)])
  show ?thesis
  proof (cases "simulation_accepts t q h")
    case False
    with lint assms(1) show ?thesis by (simp add: simulate_execution_topology_def Let_def)
  next
    case True
    then have ok: "runnable t q" "validate_request q = []" by (auto simp: simulation_accepts_def runnable_def)
    have "samples_inv t q 0 (samples_start q)" by (simp add: samples_inv_def samples_start_def)
    from run_iterations_total [OF ok(1) this, of "gs_iterations q"]
    obtain samples where run: "run_iterations t q (lint_graph t) (gs_iterations q) (samples_start q) = Some samples"
      "samples_inv t q (gs_iterations q) samples" by auto
    obtain routing where "propose_routing t q h = Some routing" by (rule propose_routing_total [OF ok(2)])
    with True lint run assms have "simulate_execution_topology to_string request_to_string digest t q
        = Some (Ok (simulation_report t q h (digest text) samples routing))"
      by (simp add: simulate_execution_topology_def Let_def simulation_graph_new_lint)
    with True simulation_report_ok [OF run(2) valid_request(2) [OF ok(2)]] show ?thesis by simp
  qed
qed

text \<open>
  Claim C10. The elapsed time of one run lies between the saturated weight of every dependency path and the saturated
  sum of the times of all nodes, whatever the resource waits, and the run ends.
\<close>

theorem elapsed_time_bounds:
  assumes "validate_request q = []" "acyclic (depends t)"
  shows "\<exists>g r. simulation_graph_new t = Some g \<and> simulate_run t q g sampled = Some r \<and>
    (\<forall>p. dependency_path t p \<longrightarrow>
       saturated (\<Sum>v\<leftarrow>p. unat (run_duration q (sg_fan_in g) sampled v)) \<le> unat (run_elapsed_ms r)) \<and>
    unat (run_elapsed_ms r) \<le> saturated (\<Sum>v<length (topo_nodes t). unat (run_duration q (sg_fan_in g) sampled v))"
proof -
  obtain r where "simulate_run t q (lint_graph t) sampled = Some r"
    "\<And>p. dependency_path t p \<Longrightarrow> saturated (path_time (node_time t q sampled) p) \<le> unat (run_elapsed_ms r)"
    "unat (run_elapsed_ms r) \<le> saturated (\<Sum>v<length (topo_nodes t). node_time t q sampled v)"
    using simulate_run_total [OF valid_request(1) [OF assms(1)] assms(2), of sampled] by blast
  then show ?thesis
    by (intro exI [of _ "lint_graph t"] exI [of _ r] conjI) (simp_all add: simulation_graph_new_lint path_time_def node_time_def [abs_def])
qed

section \<open>Limits hold throughout\<close>

text \<open>The states at the head of the loop of a run, and after the loop that starts ready nodes.\<close>

inductive run_reaches ::
  "execution_topology \<Rightarrow> graph_simulation_request \<Rightarrow> simulation_graph \<Rightarrow> sampled_node list \<Rightarrow> run_state \<Rightarrow> bool"
  for t q g sampled where
  at_start: "run_reaches t q g sampled (run_start g)"
| at_round: "run_reaches t q g sampled st \<Longrightarrow> rs_completed st < length (topo_nodes t) \<Longrightarrow>
    run_round t q g sampled st = Some st' \<Longrightarrow> run_reaches t q g sampled st'"

lemma run_reaches_inv:
  assumes "run_reaches t q (lint_graph t) sampled st" "positive_limits q" "acyclic (depends t)"
  shows "\<exists>D. round_inv t q (node_time t q sampled) D st"
  using assms(1)
proof (induction rule: run_reaches.induct)
  case at_start
  show ?case using run_start_inv by blast
next
  case (at_round st st')
  then obtain D where D: "round_inv t q (node_time t q sampled) D st" by blast
  obtain st1 D1 where "run_round t q (lint_graph t) sampled st = Some st1" "round_inv t q (node_time t q sampled) D1 st1"
    by (rule run_round_inv [OF D assms(2,3) at_round.hyps(2), of sampled]) (simp_all add: node_time_def lint_graph_def)
  with at_round.hyps(3) show ?case by auto
qed

definition within_limits :: "graph_simulation_request \<Rightarrow> run_state \<Rightarrow> bool" where
  "within_limits q st \<longleftrightarrow>
     length (rs_active st) \<le> max_parallelism q \<and>
     (\<forall>res. used (rs_usage st) res = holders res (rs_active st) \<and> holders res (rs_active st) \<le> resource_capacity res q)"

text \<open>
  Claim C11. In every state of a run, at the head of the loop and after the ready nodes have been started, no more
  nodes are active than the parallelism limit allows, the usage counter of every resource is the number of active
  nodes that hold it, and no resource is held by more nodes than its capacity.
\<close>

theorem run_respects_limits:
  assumes "validate_request q = []" "acyclic (depends t)" "simulation_graph_new t = Some g"
    and "run_reaches t q g sampled st"
  shows "within_limits q st \<and>
    within_limits q (start_ready t q (sg_fan_in g) sampled (sorted_list_of_set (rs_ready st)) st)"
proof -
  have g: "g = lint_graph t" using assms(3) by (simp add: simulation_graph_new_lint)
  obtain D where "round_inv t q (node_time t q sampled) D st"
    using run_reaches_inv [OF _ valid_request(1) [OF assms(1)] assms(2)] assms(4) g by blast
  then have inv: "run_inv t q D st" by (simp add: round_inv_def)
  then have "run_inv t q D (start_ready t q (sg_fan_in g) sampled (sorted_list_of_set (rs_ready st)) st)"
    by (intro start_ready_inv) (simp_all add: run_inv_def)
  with inv show ?thesis by (simp add: run_inv_def within_limits_def)
qed

end
