(* ===== verification/Simulation_Witnesses.thy ===== *)
theory Simulation_Witnesses
  imports Simulation_Properties Lint_Witnesses
begin

text \<open>The properties of the simulation at a concrete topology and request, and the seed that stops the generator.\<close>

definition timed_pair :: execution_topology where
  "timed_pair =
     sample_topology ''t'' [timed_node ''a'' 3, timed_node ''b'' 4] [sample_edge ''e'' ''a'' ''b'']"

definition sample_request :: graph_simulation_request where
  "sample_request =
     \<lparr>gs_schema = graph_simulation_request_schema, gs_schema_version = 0, gs_topology_content_hash = ''text'',
      gs_seed = 7, gs_iterations = 1, max_parallelism = 1, resource_capacities = fmempty,
      fan_in_penalty_ms_per_input = 2, gs_release_semantics = TerminalArtifactStagePipeliningV0, maximum_attempts = 1,
      expansion_bounds = fmempty,
      gs_budgets = \<lparr>maximum_latency_ms = Some 8, maximum_cost_microunits = None, maximum_total_tokens = None\<rparr>,
      calibrations = [], routing_candidates = []\<rparr>"

definition no_sample :: "64 word \<Rightarrow> sampled_node" where
  "no_sample ms = \<lparr>sn_latency_ms = ms, sn_cost_microunits = None, sn_total_tokens = None, sn_failed = False\<rparr>"

lemma request_valid: "validate_request sample_request = []"
  by code_simp

lemma pair_acyclic: "acyclic (depends timed_pair)"
proof -
  have "Option.bind (graph_tables timed_pair) (\<lambda>(adj, rvs). map_option fst (dag_metrics adj rvs)) = Some True"
    by code_simp
  moreover obtain width longest where
    "dag_metrics (forward_table timed_pair) (reverse_table timed_pair) = Some (acyclic (depends timed_pair), width, longest)"
    by (rule dag_metrics_spec [of timed_pair]) blast
  ultimately show ?thesis by (simp add: graph_tables_total)
qed

abbreviation plain_request :: "graph_simulation_request \<Rightarrow> (string, string) result" where
  "plain_request \<equiv> \<lambda>q. Ok ''request''"

lemma pair_simulation:
  "map_option (\<lambda>r. case r of Inl _ \<Rightarrow> None | Inr report \<Rightarrow> Some (gr_latency_ms report, gr_budget_violations report))
     (simulate_execution_topology plain_hash plain_request (\<lambda>s. s) timed_pair sample_request)
   = Some (Some (Some \<lparr>sr_minimum = 9, sr_p50 = 9, sr_maximum = 9\<rparr>,
       [\<lparr>bv_budget = ''latency_ms'', bv_violating_iterations = 1\<rparr>]))"
  by code_simp

theorem simulation_answers_witness:
  "\<exists>r. simulate_execution_topology plain_hash plain_request (\<lambda>s. s) timed_pair sample_request = Some (Inr r) \<and>
     simulation_accepts timed_pair sample_request ''text'' \<and> report_ok timed_pair sample_request r"
proof -
  obtain r where r: "simulate_execution_topology plain_hash plain_request (\<lambda>s. s) timed_pair sample_request = Some (Inr r)"
    using pair_simulation by (auto split: sum.splits) (metis sum.exhaust)
  have "length (topo_edges timed_pair) \<le> usize_max" by (simp add: timed_pair_def sample_topology_def usize_max_def)
  from simulation_answers [OF plain_content_hash _ this, where request_to_string = plain_request and q = sample_request]
  show ?thesis using r by simp
qed

definition pair_samples :: "sampled_node list" where
  "pair_samples = [no_sample 3, no_sample 4]"

lemma pair_run:
  "Option.bind (simulation_graph_new timed_pair) (\<lambda>g.
     map_option run_elapsed_ms (simulate_run timed_pair sample_request g pair_samples)) = Some 9"
  by code_simp

theorem elapsed_time_bounds_witness:
  "\<exists>g r. simulation_graph_new timed_pair = Some g \<and> simulate_run timed_pair sample_request g pair_samples = Some r \<and>
    run_elapsed_ms r = 9 \<and>
    unat (run_elapsed_ms r) \<le> saturated (\<Sum>v<length (topo_nodes timed_pair). unat (run_duration sample_request (sg_fan_in g) pair_samples v))"
proof -
  obtain g r where run: "simulation_graph_new timed_pair = Some g"
    "simulate_run timed_pair sample_request g pair_samples = Some r"
    "unat (run_elapsed_ms r) \<le> saturated (\<Sum>v<length (topo_nodes timed_pair). unat (run_duration sample_request (sg_fan_in g) pair_samples v))"
    using elapsed_time_bounds [OF request_valid pair_acyclic, of pair_samples] by blast
  moreover have "run_elapsed_ms r = 9" using pair_run run(1,2) by simp
  ultimately show ?thesis by blast
qed

theorem run_respects_limits_witness:
  "\<exists>g st. simulation_graph_new timed_pair = Some g \<and> run_reaches timed_pair sample_request g pair_samples st \<and>
     rs_completed st = 1 \<and> within_limits sample_request st"
proof -
  have "map_option rs_completed (Option.bind (simulation_graph_new timed_pair) (\<lambda>g.
      run_round timed_pair sample_request g pair_samples (run_start g))) = Some 1"
    by code_simp
  then obtain g st where g: "simulation_graph_new timed_pair = Some g"
    and st: "run_round timed_pair sample_request g pair_samples (run_start g) = Some st" "rs_completed st = 1"
    by (auto simp: bind_eq_Some_conv)
  have reach: "run_reaches timed_pair sample_request g pair_samples st"
    by (rule run_reaches.at_round [OF run_reaches.at_start _ st(1)])
      (simp add: run_start_def timed_pair_def sample_topology_def)
  have "within_limits sample_request st"
    using run_respects_limits [OF request_valid pair_acyclic g reach] by simp
  with g reach st(2) show ?thesis by blast
qed

section \<open>A seed that stops the generator\<close>

text \<open>
  The generator mixes the seed with a constant and then only shifts and xors, which keeps zero at zero: with that
  constant as the seed every draw is zero, so every range is sampled at its minimum and a node with any non-zero
  failure probability fails in every iteration.
\<close>

lemma seed_stops_generator:
  "rng_new 11400714819323198485 = 0 \<and> rng_next 0 = 0 \<and> rng_sample r 0 = (rg_minimum r, 0) \<and>
   retry_loop 1 3 1 0 = (3, True, 0)"
proof (intro conjI)
  show zero: "rng_next 0 = 0" by (simp add: rng_next_def)
  show "rng_sample r 0 = (rg_minimum r, 0)"
    using unsigned_less [of "rg_minimum r", where 'a = nat]
    by (simp add: rng_sample_def Let_def zero u64_saturating_add_def)
  have "retry_loop 1 3 3 0 = (3, True, 0)" by (subst retry_loop.simps) (simp add: zero)
  then have "retry_loop 1 3 2 0 = (3, True, 0)" by (subst retry_loop.simps) (simp add: zero)
  then show "retry_loop 1 3 1 0 = (3, True, 0)" by (subst retry_loop.simps) (simp add: zero numeral_2_eq_2)
qed (simp add: rng_new_def)

end
