(* ===== verification/Runtime_Protocol.thy ===== *)
theory Runtime_Protocol
  imports Execution_Topology Graph_Lint
begin

text \<open>
  \<open>src/runtime_protocol.rs\<close>: reports of an external runtime, their validation with the timestamp parser, the graph
  expectation derived from an execution topology, observed artifacts, and the reconciliation of reports
  with an expectation. An index or \<open>expect\<close> that fails is \<open>None\<close>; the JSON codec and the digest are parameters. Node and
  attempt ids of a vector of reports are addressed by position, as in the code.
\<close>

section \<open>Data\<close>

datatype runtime_node_status = RtSucceeded | RtFailed | RtCancelled | RtTimedOut

datatype runtime_failure_kind =
  FkExecutionError | FkTimeout | FkCancelled | FkResourceExhausted | FkInvalidOutput | FkUnknown

record reported_runtime_identity =
  ri_runtime_name :: string
  ri_runtime_version :: string
  ri_adapter_name :: string
  ri_adapter_version :: string

record reported_token_usage =
  tu_input_tokens :: "64 word"
  tu_output_tokens :: "64 word"
  tu_total_tokens :: "64 word"

text \<open>An \<open>f64\<close>: not a number, an infinity, or mantissa and binary exponent.\<close>

datatype float64 = NotANumber | Infinite bool | Finite int int

definition is_finite :: "float64 \<Rightarrow> bool" where
  "is_finite x \<longleftrightarrow> (case x of Finite _ _ \<Rightarrow> True | _ \<Rightarrow> False)"

definition negative :: "float64 \<Rightarrow> bool" where
  "negative x \<longleftrightarrow> (case x of NotANumber \<Rightarrow> False | Infinite below \<Rightarrow> below | Finite m _ \<Rightarrow> m < 0)"

record reported_cost =
  co_amount :: float64
  co_currency :: string

record reported_resource_allocation =
  ra_resource_id :: string
  ra_mode :: string
  ra_allocation_id :: string

record runtime_node_report =
  rr_schema :: string
  rr_schema_version :: nat
  rr_report_id :: string
  rr_runtime_graph_id :: string
  rr_runtime_graph_content_hash :: string
  rr_node_id :: string
  rr_attempt_id :: string
  rr_retry_of_attempt_id :: "string option"
  rr_round_id :: string
  rr_parent_node_ids :: "string list"
  rr_input_artifact_ids :: "string list"
  rr_output_artifact_ids :: "string list"
  rr_expected_output_schema_id :: string
  rr_actual_output_schema_id :: "string option"
  rr_started_at :: string
  rr_finished_at :: string
  rr_status :: runtime_node_status
  rr_failure_kind :: "runtime_failure_kind option"
  rr_runtime_identity :: reported_runtime_identity
  rr_reported_model :: "string option"
  rr_reported_context_id :: "string option"
  rr_token_usage :: "reported_token_usage option"
  rr_cost :: "reported_cost option"
  rr_resource_allocations :: "reported_resource_allocation list"
  rr_worktree_id :: "string option"
  rr_commit_sha :: "string option"
  rr_verifier_report_ids :: "string list"
  rr_trust_boundary :: string

record expected_runtime_node =
  en_node_id :: string
  en_expected_output_schema_id :: string
  en_expected_parent_node_ids :: "string list"

record expected_runtime_edge =
  ee_edge_id :: string
  ee_from_node_id :: string
  ee_to_node_id :: string
  ee_output_name :: string
  ee_input_name :: string
  ee_schema_id :: string
  ee_delivery :: delivery_mode

record runtime_graph_expectation =
  rx_schema :: string
  rx_schema_version :: nat
  rx_runtime_graph_id :: string
  rx_runtime_graph_content_hash :: string
  rx_nodes :: "expected_runtime_node list"
  rx_edges :: "expected_runtime_edge list"

record runtime_artifact_observation =
  ao_artifact_id :: string
  ao_content_sha256 :: string
  ao_byte_length :: nat

record runtime_edge_proof =
  ep_edge_id :: string
  ep_from_node_id :: string
  ep_to_node_id :: string
  ep_output_name :: string
  ep_input_name :: string
  ep_schema_id :: string
  ep_delivery :: delivery_mode
  ep_artifact_id :: string
  ep_artifact_content_sha256 :: string
  ep_artifact_byte_length :: nat
  ep_source_attempt_id :: string
  ep_target_attempt_id :: string

record runtime_protocol_finding =
  rf_code :: string
  rf_node_id :: "string option"
  rf_attempt_id :: "string option"
  rf_detail :: string

record runtime_completeness =
  rc_expected_node_count :: nat
  rc_actual_report_count :: nat
  rc_failed_node_count :: nat
  rc_missing_report_count :: nat
  rc_duplicate_attempt_count :: nat
  rc_unaccounted_artifact_count :: nat
  rc_node_complete :: bool
  rc_expected_edge_count :: nat
  rc_proven_edge_count :: nat
  rc_missing_edge_count :: nat
  rc_dataflow_complete :: bool
  rc_edge_proofs :: "runtime_edge_proof list"
  rc_terminal_attempt_ids :: "(string, string) fmap"
  rc_complete :: bool
  rc_findings :: "runtime_protocol_finding list"

definition runtime_node_report_schema :: string where
  "runtime_node_report_schema = ''casegraphen.experimental.runtime.node_report.v0''"

definition runtime_node_report_schema_version :: nat where
  "runtime_node_report_schema_version = 0"

definition runtime_graph_expectation_schema :: string where
  "runtime_graph_expectation_schema = ''casegraphen.experimental.runtime.graph_expectation.v0''"

definition runtime_report_trust_boundary :: string where
  "runtime_report_trust_boundary = ''runtime_reported_untrusted_until_independently_validated_and_reviewed''"

section \<open>Findings\<close>

definition runtime_finding :: "string \<Rightarrow> string option \<Rightarrow> string option \<Rightarrow> string \<Rightarrow> runtime_protocol_finding" where
  "runtime_finding code node attempt detail =
     \<lparr>rf_code = code, rf_node_id = node, rf_attempt_id = attempt, rf_detail = detail\<rparr>"

definition report_finding :: "runtime_node_report \<Rightarrow> string \<Rightarrow> string \<Rightarrow> runtime_protocol_finding" where
  "report_finding r code detail = runtime_finding code (Some (rr_node_id r)) (Some (rr_attempt_id r)) detail"

definition report_when :: "bool \<Rightarrow> runtime_node_report \<Rightarrow> string \<Rightarrow> string \<Rightarrow> runtime_protocol_finding list" where
  "report_when b r code detail = (if b then [report_finding r code detail] else [])"

definition runtime_finding_key :: "runtime_protocol_finding \<Rightarrow> string \<times> string option \<times> string option \<times> string" where
  "runtime_finding_key f = (rf_code f, rf_node_id f, rf_attempt_id f, rf_detail f)"

text \<open>The debug form of a vector and of an ordered set of strings.\<close>

definition debug_vec :: "string list \<Rightarrow> string" where
  "debug_vec xs = ''['' @ join_with '', '' (map debug_str xs) @ '']''"

definition debug_set :: "string set \<Rightarrow> string" where
  "debug_set S = [CHR 0x7B] @ join_with '', '' (map debug_str (sorted_list_of_set S)) @ [CHR 0x7D]"

section \<open>Timestamps\<close>

fun split_once :: "char \<Rightarrow> string \<Rightarrow> (string \<times> string) option" where
  "split_once c [] = None"
| "split_once c (x # xs) = (if x = c then Some ([], xs) else map_option (\<lambda>(w, f). (x # w, f)) (split_once c xs))"

definition strip_suffix_Z :: "string \<Rightarrow> string option" where
  "strip_suffix_Z s = (if s \<noteq> [] \<and> last s = CHR ''Z'' then Some (butlast s) else None)"

definition digits_value :: "string \<Rightarrow> nat" where
  "digits_value ds = foldl (\<lambda>n c. 10 * n + ((of_char c :: nat) - 48)) 0 ds"

text \<open>\<open>str::parse::<u32>\<close> accepts a leading plus sign.\<close>

definition parse_u32 :: "string \<Rightarrow> nat option" where
  "parse_u32 s =
     (let ds = (case s of c # rest \<Rightarrow> if c = CHR ''+'' then rest else s | [] \<Rightarrow> []) in
      if ds \<noteq> [] \<and> list_all ascii_digit ds \<and> digits_value ds < 2 ^ 32 then Some (digits_value ds) else None)"

definition byte_slice :: "nat \<Rightarrow> nat \<Rightarrow> string \<Rightarrow> string" where
  "byte_slice a b s = take (b - a) (drop a s)"

definition leap_year :: "nat \<Rightarrow> bool" where
  "leap_year year \<longleftrightarrow> year mod 4 = 0 \<and> (year mod 100 \<noteq> 0 \<or> year mod 400 = 0)"

definition days_in_month :: "nat \<Rightarrow> nat \<Rightarrow> nat" where
  "days_in_month year month =
     (if month = 2 then (if leap_year year then 29 else 28) else if month \<in> {4, 6, 9, 11} then 30 else 31)"

definition parse_fraction :: "string option \<Rightarrow> nat option" where
  "parse_fraction fraction =
     (case fraction of
        None \<Rightarrow> Some 0
      | Some ds \<Rightarrow>
          if ds \<noteq> [] \<and> length ds \<le> 9 \<and> list_all ascii_digit ds
          then Some (digits_value ds * 10 ^ (9 - length ds)) else None)"

text \<open>The fields of at most four digits fit the narrower integers of the code.\<close>

definition parse_canonical_utc_timestamp :: "string \<Rightarrow> (nat \<times> nat \<times> nat \<times> nat \<times> nat \<times> nat \<times> nat) option" where
  "parse_canonical_utc_timestamp value =
     Option.bind (strip_suffix_Z value) (\<lambda>body.
     case (case split_once (CHR ''.'') body of None \<Rightarrow> (body, None) | Some (w, f) \<Rightarrow> (w, Some f)) of (whole, fraction) \<Rightarrow>
     if length whole \<noteq> 19 \<or> whole ! 4 \<noteq> CHR ''-'' \<or> whole ! 7 \<noteq> CHR ''-'' \<or> whole ! 10 \<noteq> CHR ''T''
        \<or> whole ! 13 \<noteq> CHR '':'' \<or> whole ! 16 \<noteq> CHR '':'' then None
     else
       Option.bind (parse_u32 (byte_slice 0 4 whole)) (\<lambda>year.
       Option.bind (parse_u32 (byte_slice 5 7 whole)) (\<lambda>month.
       Option.bind (parse_u32 (byte_slice 8 10 whole)) (\<lambda>day.
       Option.bind (parse_u32 (byte_slice 11 13 whole)) (\<lambda>hour.
       Option.bind (parse_u32 (byte_slice 14 16 whole)) (\<lambda>minute.
       Option.bind (parse_u32 (byte_slice 17 19 whole)) (\<lambda>second.
       if year = 0 \<or> \<not> (1 \<le> month \<and> month \<le> 12) \<or> hour > 23 \<or> minute > 59 \<or> second > 59 then None
       else if day = 0 \<or> day > days_in_month year month then None
       else map_option (\<lambda>nanos. (year, month, day, hour, minute, second, nanos)) (parse_fraction fraction))))))))"

section \<open>Validation of a report\<close>

definition is_sha256 :: "string \<Rightarrow> bool" where
  "is_sha256 value \<longleftrightarrow>
     length value = 64 \<and> list_all (\<lambda>c. ascii_digit c \<or> (97 \<le> (of_char c :: nat) \<and> (of_char c :: nat) \<le> 102)) value"

definition empty_required :: "runtime_node_report \<Rightarrow> string \<Rightarrow> (string \<times> string) list \<Rightarrow> runtime_protocol_finding list" where
  "empty_required r code fs =
     concat (map (\<lambda>(field, value). report_when (value = []) r code (field @ '' must not be empty'')) fs)"

definition empty_optional :: "runtime_node_report \<Rightarrow> (string \<times> string option) list \<Rightarrow> runtime_protocol_finding list" where
  "empty_optional r fs =
     concat (map (\<lambda>(field, value). report_when (value = Some []) r ''empty_optional_field'' (field @ '' must be null or non-empty''))
       fs)"

fun validate_id_list :: "runtime_node_report \<Rightarrow> string \<Rightarrow> string set \<Rightarrow> string list \<Rightarrow> runtime_protocol_finding list" where
  "validate_id_list r field seen [] = []"
| "validate_id_list r field seen (v # vs) =
     report_when (v = []) r ''empty_list_id'' (field @ '' contains an empty identifier'')
     @ report_when (v \<in> seen) r ''duplicate_list_id'' (field @ '' contains duplicate identifier '' @ debug_str v)
     @ validate_id_list r field (insert v seen) vs"

definition validate_status :: "runtime_node_report \<Rightarrow> runtime_protocol_finding list" where
  "validate_status r =
     (case (rr_status r, rr_failure_kind r) of
        (RtSucceeded, Some _) \<Rightarrow>
          [report_finding r ''success_with_failure_kind'' ''a succeeded runtime status cannot carry failure_kind'']
      | (RtSucceeded, None) \<Rightarrow> []
      | (_, None) \<Rightarrow>
          [report_finding r ''failure_kind_required'' ''a non-success runtime status must carry failure_kind'']
      | (_, Some _) \<Rightarrow> [])"

definition before :: "(nat \<times> nat \<times> nat \<times> nat \<times> nat \<times> nat \<times> nat) option \<Rightarrow> (nat \<times> nat \<times> nat \<times> nat \<times> nat \<times> nat \<times> nat) option \<Rightarrow> bool" where
  "before x y \<longleftrightarrow> (case (x, y) of (Some a, Some b) \<Rightarrow> a < b | _ \<Rightarrow> False)"

definition validate_times :: "runtime_node_report \<Rightarrow> runtime_protocol_finding list" where
  "validate_times r =
     (let started = parse_canonical_utc_timestamp (rr_started_at r);
          finished = parse_canonical_utc_timestamp (rr_finished_at r) in
      report_when (started = None) r ''invalid_started_at''
        ''started_at must be a valid canonical UTC timestamp such as 2026-08-03T00:00:00Z''
      @ report_when (finished = None) r ''invalid_finished_at''
        ''finished_at must be a valid canonical UTC timestamp such as 2026-08-03T00:00:00Z''
      @ report_when (before finished started) r ''invalid_time_order'' ''finished_at must not precede started_at'')"

text \<open>What a report says of its output, usage, cost, runtime and resources.\<close>

definition validate_reported_values :: "runtime_node_report \<Rightarrow> runtime_protocol_finding list" where
  "validate_reported_values r =
     report_when (rr_actual_output_schema_id r = Some []) r ''empty_actual_output_schema''
         ''actual_output_schema_id must be null or non-empty''
     @ (case rr_token_usage r of
          None \<Rightarrow> []
        | Some usage \<Rightarrow>
            report_when (u64_saturating_add (tu_input_tokens usage) (tu_output_tokens usage) \<noteq> tu_total_tokens usage) r
              ''token_total_mismatch'' ''total_tokens must equal input_tokens plus output_tokens'')
     @ (case rr_cost r of
          None \<Rightarrow> []
        | Some cost \<Rightarrow>
            report_when (\<not> is_finite (co_amount cost) \<or> negative (co_amount cost)) r ''invalid_reported_cost''
              ''reported cost must be finite and non-negative'')
     @ empty_required r ''empty_reported_runtime_identity''
         [(''runtime_identity.runtime_name'', ri_runtime_name (rr_runtime_identity r)),
          (''runtime_identity.runtime_version'', ri_runtime_version (rr_runtime_identity r)),
          (''runtime_identity.adapter_name'', ri_adapter_name (rr_runtime_identity r)),
          (''runtime_identity.adapter_version'', ri_adapter_version (rr_runtime_identity r))]
     @ (case rr_cost r of
          None \<Rightarrow> []
        | Some cost \<Rightarrow>
            report_when (co_currency cost = []) r ''empty_reported_cost_currency'' ''reported cost currency must not be empty'')
     @ concat (map (\<lambda>a.
         report_when (ra_resource_id a = [] \<or> ra_mode a = [] \<or> ra_allocation_id a = []) r
           ''empty_reported_resource_allocation'' ''reported resource allocation fields must not be empty'')
         (rr_resource_allocations r))"

definition validate_runtime_node_report :: "runtime_node_report \<Rightarrow> runtime_protocol_finding list" where
  "validate_runtime_node_report r =
     report_when (rr_schema r \<noteq> runtime_node_report_schema) r ''unsupported_schema''
       ''schema identity does not match runtime.node_report.v0''
     @ report_when (rr_schema_version r \<noteq> runtime_node_report_schema_version) r ''unsupported_schema_version''
       ''schema_version must be 0''
     @ report_when (rr_trust_boundary r \<noteq> runtime_report_trust_boundary) r ''invalid_trust_boundary''
       ''runtime input must retain the untrusted trust marker''
     @ empty_required r ''empty_required_field''
         [(''report_id'', rr_report_id r), (''runtime_graph_id'', rr_runtime_graph_id r), (''node_id'', rr_node_id r),
          (''attempt_id'', rr_attempt_id r), (''round_id'', rr_round_id r),
          (''expected_output_schema_id'', rr_expected_output_schema_id r), (''started_at'', rr_started_at r),
          (''finished_at'', rr_finished_at r)]
     @ report_when (\<not> is_sha256 (rr_runtime_graph_content_hash r)) r ''invalid_graph_hash''
         ''runtime_graph_content_hash must be 64 lowercase hexadecimal characters''
     @ validate_times r
     @ report_when (rr_retry_of_attempt_id r = Some (rr_attempt_id r)) r ''self_retry''
         ''retry_of_attempt_id must name a different prior attempt''
     @ empty_optional r
         [(''retry_of_attempt_id'', rr_retry_of_attempt_id r), (''reported_model'', rr_reported_model r),
          (''reported_context_id'', rr_reported_context_id r), (''worktree_id'', rr_worktree_id r),
          (''commit_sha'', rr_commit_sha r)]
     @ validate_id_list r ''parent_node_ids'' {} (rr_parent_node_ids r)
     @ validate_id_list r ''input_artifact_ids'' {} (rr_input_artifact_ids r)
     @ validate_id_list r ''output_artifact_ids'' {} (rr_output_artifact_ids r)
     @ validate_id_list r ''verifier_report_ids'' {} (rr_verifier_report_ids r)
     @ validate_status r
     @ validate_reported_values r"

definition parse_runtime_node_report ::
  "(string \<Rightarrow> (string, runtime_node_report) result) \<Rightarrow> string \<Rightarrow> (runtime_protocol_finding list, runtime_node_report) result" where
  "parse_runtime_node_report from_str input =
     rbind (map_err (\<lambda>message. [runtime_finding ''invalid_json'' None None message]) (from_str input)) (\<lambda>r.
     let findings = validate_runtime_node_report r in
     if findings = [] then Ok r else Err findings)"

definition observe_runtime_artifact ::
  "('b list \<Rightarrow> string) \<Rightarrow> string \<Rightarrow> 'b list \<Rightarrow> (runtime_protocol_finding, runtime_artifact_observation) result" where
  "observe_runtime_artifact digest artifact_id bytes =
     (let content = digest bytes; expected = ''artifact:sha256-'' @ content in
      if artifact_id \<noteq> expected then
        Err (runtime_finding ''artifact_content_hash_mismatch'' None None (''artifact identifier must be '' @ expected))
      else Ok \<lparr>ao_artifact_id = artifact_id, ao_content_sha256 = content, ao_byte_length = length bytes\<rparr>)"

section \<open>Expectation of a topology\<close>

text \<open>The predecessors of every node; \<open>get_mut(edge.to).expect(..)\<close> fails for an edge into an unknown node.\<close>

definition add_parent :: "topology_edge \<Rightarrow> (string, string set) fmap \<Rightarrow> (string, string set) fmap option" where
  "add_parent e parents =
     (case fmlookup parents (te_to e) of
        None \<Rightarrow> None
      | Some ps \<Rightarrow> Some (fmupd (te_to e) (insert (te_from e) ps) parents))"

definition topology_parents :: "execution_topology \<Rightarrow> (string, string set) fmap option" where
  "topology_parents t =
     fold_opt add_parent (topo_edges t) (collect_map (map (\<lambda>n. (tn_node_id n, {})) (topo_nodes t)))"

fun expect_nodes ::
  "(string, string set) fmap \<Rightarrow> topology_node list \<Rightarrow> (runtime_protocol_finding list, expected_runtime_node list) result" where
  "expect_nodes parents [] = Ok []"
| "expect_nodes parents (n # ns) =
     (case tn_outputs n of
        [out] \<Rightarrow>
          rbind (expect_nodes (fmdrop (tn_node_id n) parents) ns) (\<lambda>rest.
          Ok (\<lparr>en_node_id = tn_node_id n, en_expected_output_schema_id = out_schema_id out,
               en_expected_parent_node_ids =
                 (case fmlookup parents (tn_node_id n) of None \<Rightarrow> [] | Some ps \<Rightarrow> sorted_list_of_set ps)\<rparr> # rest))
      | _ \<Rightarrow> Err [runtime_finding ''unsupported_output_cardinality'' (Some (tn_node_id n)) None
                 ''v0 runtime expectation requires exactly one node output''])"

definition expect_edge :: "execution_topology \<Rightarrow> topology_edge \<Rightarrow> expected_runtime_edge option" where
  "expect_edge t e =
     Option.bind (te_output e) (\<lambda>output.
     Option.bind (te_input e) (\<lambda>input.
     Option.bind (te_schema_id e) (\<lambda>schema.
     map_option (\<lambda>source.
       \<lparr>ee_edge_id = te_edge_id e, ee_from_node_id = te_from e, ee_to_node_id = te_to e, ee_output_name = output,
        ee_input_name = input, ee_schema_id = schema, ee_delivery = tn_delivery source\<rparr>)
       (fmlookup (collect_map (map (\<lambda>n. (tn_node_id n, n)) (topo_nodes t))) (te_from e)))))"

definition derive_runtime_graph_expectation ::
  "(execution_topology \<Rightarrow> ('e, string) result) \<Rightarrow> (string \<Rightarrow> string) \<Rightarrow> execution_topology
   \<Rightarrow> (runtime_protocol_finding list, runtime_graph_expectation) result option" where
  "derive_runtime_graph_expectation to_string digest t =
     (let validation = validate_execution_topology t in
      if validation \<noteq> [] then
        Some (Err (map (\<lambda>f. runtime_finding ''invalid_execution_topology'' None None (tf_location f @ '': '' @ tf_detail f)) validation))
      else
        Option.bind (topology_parents t) (\<lambda>parents.
        case expect_nodes parents (topo_nodes t) of
          Inl findings \<Rightarrow> Some (Err findings)
        | Inr nodes \<Rightarrow>
            Option.bind (those (map (expect_edge t) (filter (\<lambda>e. te_kind e = EkData) (topo_edges t)))) (\<lambda>edges.
            case execution_topology_content_hash to_string digest t of
              Inl _ \<Rightarrow> None
            | Inr h \<Rightarrow>
                Some (Ok \<lparr>rx_schema = runtime_graph_expectation_schema, rx_schema_version = 0,
                  rx_runtime_graph_id = topo_id t, rx_runtime_graph_content_hash = h,
                  rx_nodes = sort_key en_node_id nodes, rx_edges = sort_key ee_edge_id edges\<rparr>))))"

section \<open>Reconciliation: the scan of the reports\<close>

definition expectation_findings :: "runtime_graph_expectation \<Rightarrow> runtime_protocol_finding list" where
  "expectation_findings x =
     (if rx_schema x \<noteq> runtime_graph_expectation_schema \<or> rx_schema_version x \<noteq> 0
      then [runtime_finding ''unsupported_graph_expectation'' None None ''runtime expectation must use runtime.graph_expectation.v0'']
      else [])
     @ map (\<lambda>node. runtime_finding ''duplicate_expected_node'' (Some node) None ''topology expectation contains the node more than once'')
         (repeats {} (map en_node_id (rx_nodes x)))"

definition expected_nodes_of :: "runtime_graph_expectation \<Rightarrow> (string, expected_runtime_node) fmap" where
  "expected_nodes_of x = collect_map (map (\<lambda>n. (en_node_id n, n)) (rx_nodes x))"

record scan_state =
  sc_attempt_indices :: "(string, nat) fmap"
  sc_node_reports :: "(string, nat list) fmap"
  sc_accounted_artifacts :: "string set"
  sc_duplicates :: "nat set"
  sc_findings :: "runtime_protocol_finding list"

definition scan_attempt :: "nat \<Rightarrow> runtime_node_report \<Rightarrow> scan_state \<Rightarrow> scan_state" where
  "scan_attempt i r st =
     (if fmlookup (sc_attempt_indices st) (rr_attempt_id r) \<noteq> None then
        st\<lparr>sc_duplicates := insert i (sc_duplicates st),
           sc_findings := sc_findings st @ [report_finding r ''duplicate_attempt_id'' ''attempt_id appears more than once'']\<rparr>
      else st\<lparr>sc_attempt_indices := fmupd (rr_attempt_id r) i (sc_attempt_indices st)\<rparr>)"

definition scan_report :: "runtime_graph_expectation \<Rightarrow> nat \<times> runtime_node_report \<Rightarrow> scan_state \<Rightarrow> scan_state" where
  "scan_report x ir st =
     (case ir of (i, r) \<Rightarrow>
      let st = scan_attempt i r (st\<lparr>sc_findings := sc_findings st @ validate_runtime_node_report r\<rparr>) in
      if rr_runtime_graph_id r \<noteq> rx_runtime_graph_id x
         \<or> rr_runtime_graph_content_hash r \<noteq> rx_runtime_graph_content_hash x then
        st\<lparr>sc_findings := sc_findings st @ [report_finding r ''graph_join_mismatch''
             ''runtime_graph_id and content hash must exactly match the topology expectation'']\<rparr>
      else if fmlookup (expected_nodes_of x) (rr_node_id r) = None then
        st\<lparr>sc_findings := sc_findings st @ [report_finding r ''unexpected_node''
             ''node_id does not exist in the topology expectation'']\<rparr>
      else
        st\<lparr>sc_accounted_artifacts :=
             sc_accounted_artifacts st \<union> set (rr_input_artifact_ids r) \<union> set (rr_output_artifact_ids r),
           sc_node_reports := entry_push (rr_node_id r) i (sc_node_reports st)\<rparr>)"

definition scan_start :: "runtime_protocol_finding list \<Rightarrow> scan_state" where
  "scan_start findings =
     \<lparr>sc_attempt_indices = fmempty, sc_node_reports = fmempty, sc_accounted_artifacts = {}, sc_duplicates = {},
      sc_findings = findings\<rparr>"

definition scan_reports :: "runtime_graph_expectation \<Rightarrow> runtime_node_report list \<Rightarrow> scan_state" where
  "scan_reports x reports = fold (scan_report x) (enumerate 0 reports) (scan_start (expectation_findings x))"

section \<open>Reconciliation: the retry lineage of a node\<close>

datatype retry_link = RootAttempt | RetryOf string | InvalidRetry

definition retry_link_of ::
  "runtime_node_report list \<Rightarrow> (string, nat) fmap \<Rightarrow> nat list \<Rightarrow> nat \<Rightarrow> retry_link" where
  "retry_link_of reports attempts indices i =
     (case rr_retry_of_attempt_id (reports ! i) of
        None \<Rightarrow> RootAttempt
      | Some prior \<Rightarrow>
          (case fmlookup attempts prior of
             None \<Rightarrow> InvalidRetry
           | Some p \<Rightarrow>
               if p \<in> set indices \<and> prior \<noteq> rr_attempt_id (reports ! i) \<and> rr_status (reports ! p) \<noteq> RtSucceeded
               then RetryOf prior else InvalidRetry))"

definition push_child ::
  "runtime_node_report list \<Rightarrow> (string, nat) fmap \<Rightarrow> nat list \<Rightarrow> nat \<Rightarrow> (string, nat list) fmap \<Rightarrow> (string, nat list) fmap" where
  "push_child reports attempts indices i children =
     (case retry_link_of reports attempts indices i of RetryOf prior \<Rightarrow> entry_push prior i children | _ \<Rightarrow> children)"

definition lineage_children ::
  "runtime_node_report list \<Rightarrow> (string, nat) fmap \<Rightarrow> nat list \<Rightarrow> (string, nat list) fmap" where
  "lineage_children reports attempts indices = fold (push_child reports attempts indices) indices fmempty"

definition link_parent ::
  "runtime_node_report list \<Rightarrow> (string, nat) fmap \<Rightarrow> nat list \<Rightarrow> nat \<Rightarrow> (string, string) fmap \<Rightarrow> (string, string) fmap" where
  "link_parent reports attempts indices i parents =
     (case retry_link_of reports attempts indices i of
        RetryOf prior \<Rightarrow> fmupd (rr_attempt_id (reports ! i)) prior parents
      | _ \<Rightarrow> parents)"

definition valid_parents ::
  "runtime_node_report list \<Rightarrow> (string, nat) fmap \<Rightarrow> nat list \<Rightarrow> (string, string) fmap" where
  "valid_parents reports attempts indices = fold (link_parent reports attempts indices) indices fmempty"

text \<open>\<open>while let Some(current) = cursor\<close>: the attempts seen when the walk meets one of them again.\<close>

function lineage_walk :: "(string, string) fmap \<Rightarrow> string set \<Rightarrow> string \<Rightarrow> string set" where
  "lineage_walk parents seen current =
     (if current \<in> seen then seen
      else case fmlookup parents current of
        None \<Rightarrow> {}
      | Some prior \<Rightarrow> lineage_walk parents (insert current seen) prior)"
  by pat_completeness auto
termination
proof (relation "measure (\<lambda>(parents, seen, current). card (fset (fmdom parents) - seen))", goal_cases)
  case (2 parents seen current prior)
  then have "current \<in> fset (fmdom parents) - seen" by (simp add: fmdomI)
  then have "fset (fmdom parents) - insert current seen \<subset> fset (fmdom parents) - seen" by blast
  then show ?case by (simp add: psubset_card_mono)
qed simp

declare lineage_walk.simps [simp del]

definition cycle_attempts :: "(string, string) fmap \<Rightarrow> string set" where
  "cycle_attempts parents = (\<Union>attempt\<in>set (btree_keys parents). lineage_walk parents {} attempt)"

record lineage_result =
  nl_findings :: "runtime_protocol_finding list"
  nl_duplicates :: "nat set"
  nl_terminal :: "nat option"

text \<open>The closure on the only terminal attempt: its findings, and whether it proves the node.\<close>

definition check_terminal :: "expected_runtime_node \<Rightarrow> runtime_node_report \<Rightarrow> runtime_protocol_finding list \<times> bool" where
  "check_terminal node r =
     (let schema_matches = (rr_expected_output_schema_id r = en_expected_output_schema_id node
            \<and> rr_actual_output_schema_id r = Some (en_expected_output_schema_id node));
          expected_parents = set (en_expected_parent_node_ids node); actual_parents = set (rr_parent_node_ids r) in
      (report_when (rr_status r = RtSucceeded \<and> \<not> schema_matches) r ''output_schema_mismatch''
         ''runtime success does not hide an expected/actual output schema mismatch''
       @ report_when (expected_parents \<noteq> actual_parents) r ''parent_node_lineage_mismatch''
           (''terminal attempt parents '' @ debug_set actual_parents @ '' differ from topology parents '' @ debug_set expected_parents),
       rr_status r = RtSucceeded \<and> schema_matches \<and> expected_parents = actual_parents))"

definition terminal_indices ::
  "runtime_node_report list \<Rightarrow> (string, nat) fmap \<Rightarrow> nat list \<Rightarrow> nat list" where
  "terminal_indices reports attempts indices =
     (let succeeded = set (btree_values (valid_parents reports attempts indices)) in
      filter (\<lambda>i. rr_attempt_id (reports ! i) \<notin> succeeded) indices)"

definition branched :: "(string, nat list) fmap \<Rightarrow> (string \<times> nat list) list" where
  "branched children = filter (\<lambda>(_, is). length is > 1) (sorted_list_of_fmap children)"

definition node_lineage ::
  "runtime_node_report list \<Rightarrow> (string, nat) fmap \<Rightarrow> expected_runtime_node \<Rightarrow> string \<Rightarrow> nat list \<Rightarrow> lineage_result" where
  "node_lineage reports attempts node node_id indices =
     (let link = retry_link_of reports attempts indices;
          roots = filter (\<lambda>i. link i = RootAttempt) indices;
          invalid = filter (\<lambda>i. link i = InvalidRetry) indices;
          forks = branched (lineage_children reports attempts indices);
          cycle = cycle_attempts (valid_parents reports attempts indices);
          checked = (case terminal_indices reports attempts indices of
            [i] \<Rightarrow> (case check_terminal node (reports ! i) of (fs, proves) \<Rightarrow> (fs, if proves then Some i else None))
          | _ \<Rightarrow> ([], None)) in
      \<lparr>nl_findings =
         map (\<lambda>i. report_finding (reports ! i) ''invalid_retry_lineage''
           ''retry_of_attempt_id must name an existing non-success attempt for the same graph node'') invalid
         @ (if length roots > 1 then [runtime_finding ''duplicate_attempt_without_lineage'' (Some node_id) None
              ''multiple root attempts exist for one node''] else [])
         @ map (\<lambda>(prior, _). runtime_finding ''branched_retry_lineage'' (Some node_id) (Some prior)
             ''one attempt has multiple retry successors'') forks
         @ (if cycle \<noteq> {} then [runtime_finding ''retry_lineage_cycle'' (Some node_id) None
              (''retry lineage contains a cycle involving '' @ debug_set cycle)] else [])
         @ fst checked,
       nl_duplicates =
         set invalid \<union> (if length roots > 1 then set (drop 1 roots) else {})
         \<union> (\<Union>(_, is)\<in>set forks. set (drop 1 is))
         \<union> (\<Union>attempt\<in>cycle. set_option (fmlookup attempts attempt)),
       nl_terminal = snd checked\<rparr>)"

text \<open>The loop over the nodes that have reports; \<open>expected_nodes[node_id]\<close> fails for an unknown node.\<close>

definition node_result ::
  "(string, expected_runtime_node) fmap \<Rightarrow> runtime_node_report list \<Rightarrow> (string, nat) fmap \<Rightarrow> string \<times> nat list
   \<Rightarrow> (string \<times> lineage_result) option" where
  "node_result nodes reports attempts entry =
     (case entry of (node_id, indices) \<Rightarrow>
      map_option (\<lambda>node. (node_id, node_lineage reports attempts node node_id indices)) (fmlookup nodes node_id))"

section \<open>Reconciliation: the edges\<close>

record edge_state =
  es_edge_ids :: "string set"
  es_proofs :: "runtime_edge_proof list"
  es_findings :: "runtime_protocol_finding list"

text \<open>One edge with both terminal attempts: its proof or its finding.\<close>

definition edge_handoff ::
  "(string, runtime_artifact_observation) fmap \<Rightarrow> expected_runtime_edge \<Rightarrow> runtime_node_report \<Rightarrow> runtime_node_report
   \<Rightarrow> (runtime_protocol_finding, runtime_edge_proof) result" where
  "edge_handoff observed e source target =
     (let refuse = (\<lambda>code detail. Err (runtime_finding code (Some (ee_to_node_id e)) (Some (rr_attempt_id target))
            (''edge '' @ ee_edge_id e @ detail))) in
      case sorted_list_of_set (set (rr_output_artifact_ids source) \<inter> set (rr_input_artifact_ids target)) of
        [] \<Rightarrow> refuse ''missing_edge_handoff_artifact'' '' has no artifact shared by terminal source output and target input''
      | [artifact_id] \<Rightarrow>
          (case fmlookup observed artifact_id of
             None \<Rightarrow> refuse ''un_ingested_edge_handoff_artifact'' ('' names '' @ debug_str artifact_id @ '' without observed bytes'')
           | Some obs \<Rightarrow>
               Ok \<lparr>ep_edge_id = ee_edge_id e, ep_from_node_id = ee_from_node_id e, ep_to_node_id = ee_to_node_id e,
                   ep_output_name = ee_output_name e, ep_input_name = ee_input_name e, ep_schema_id = ee_schema_id e,
                   ep_delivery = ee_delivery e, ep_artifact_id = artifact_id,
                   ep_artifact_content_sha256 = ao_content_sha256 obs, ep_artifact_byte_length = ao_byte_length obs,
                   ep_source_attempt_id = rr_attempt_id source, ep_target_attempt_id = rr_attempt_id target\<rparr>)
      | handoff \<Rightarrow> refuse ''duplicated_edge_handoff_artifact'' ('' ambiguously carries artifacts '' @ debug_vec handoff))"

definition check_edge ::
  "runtime_node_report list \<Rightarrow> (string, nat) fmap \<Rightarrow> (string, runtime_artifact_observation) fmap
   \<Rightarrow> expected_runtime_edge \<Rightarrow> edge_state \<Rightarrow> edge_state" where
  "check_edge reports terminals observed e st =
     (if ee_edge_id e \<in> es_edge_ids st then
        st\<lparr>es_findings := es_findings st @ [runtime_finding ''duplicate_expected_edge'' (Some (ee_to_node_id e)) None
             (''edge '' @ ee_edge_id e @ '' appears more than once'')]\<rparr>
      else
        let st = st\<lparr>es_edge_ids := insert (ee_edge_id e) (es_edge_ids st)\<rparr> in
        case (fmlookup terminals (ee_from_node_id e), fmlookup terminals (ee_to_node_id e)) of
          (Some s, Some g) \<Rightarrow>
            (case edge_handoff observed e (reports ! s) (reports ! g) of
               Inl f \<Rightarrow> st\<lparr>es_findings := es_findings st @ [f]\<rparr>
             | Inr proof_of \<Rightarrow> st\<lparr>es_proofs := es_proofs st @ [proof_of]\<rparr>)
        | _ \<Rightarrow> st\<lparr>es_findings := es_findings st @ [runtime_finding ''edge_terminal_attempt_missing'' (Some (ee_to_node_id e)) None
               (''edge '' @ ee_edge_id e @ '' lacks a canonical source or target terminal attempt'')]\<rparr>)"

definition check_edges ::
  "runtime_node_report list \<Rightarrow> (string, nat) fmap \<Rightarrow> (string, runtime_artifact_observation) fmap
   \<Rightarrow> expected_runtime_edge list \<Rightarrow> edge_state" where
  "check_edges reports terminals observed edges =
     fold (check_edge reports terminals observed) edges \<lparr>es_edge_ids = {}, es_proofs = [], es_findings = []\<rparr>"

section \<open>Reconciliation\<close>

definition terminal_attempts_of :: "(string \<times> lineage_result) list \<Rightarrow> (string, nat) fmap" where
  "terminal_attempts_of results =
     collect_map (concat (map (\<lambda>(node_id, r). case nl_terminal r of None \<Rightarrow> [] | Some i \<Rightarrow> [(node_id, i)]) results))"

definition missing_nodes_of :: "(string, expected_runtime_node) fmap \<Rightarrow> scan_state \<Rightarrow> string list" where
  "missing_nodes_of nodes st = filter (\<lambda>n. fmlookup (sc_node_reports st) n = None) (btree_keys nodes)"

definition unaccounted_artifacts :: "runtime_artifact_observation list \<Rightarrow> scan_state \<Rightarrow> string list" where
  "unaccounted_artifacts artifacts st =
     sorted_list_of_set (ao_artifact_id ` set artifacts - sc_accounted_artifacts st)"

definition completeness_report ::
  "runtime_graph_expectation \<Rightarrow> runtime_node_report list \<Rightarrow> runtime_artifact_observation list \<Rightarrow> scan_state
   \<Rightarrow> (string \<times> lineage_result) list \<Rightarrow> runtime_completeness" where
  "completeness_report x reports artifacts st results =
     (let nodes = expected_nodes_of x;
          terminals = terminal_attempts_of results;
          missing = missing_nodes_of nodes st;
          unaccounted = unaccounted_artifacts artifacts st;
          edges = check_edges reports terminals (collect_map (map (\<lambda>a. (ao_artifact_id a, a)) artifacts)) (rx_edges x);
          findings = sort_key runtime_finding_key
            (sc_findings st @ concat (map (\<lambda>(_, r). nl_findings r) results)
             @ map (\<lambda>n. runtime_finding ''missing_report'' (Some n) None ''expected node has no graph-matching runtime report'') missing
             @ map (\<lambda>a. runtime_finding ''unaccounted_artifact'' None None
                 (''observed artifact '' @ debug_str a @ '' is not named by any report'')) unaccounted
             @ es_findings edges);
          failed = card (fst ` {r \<in> set results. nl_terminal (snd r) = None});
          duplicates = card (sc_duplicates st \<union> (\<Union>(_, r)\<in>set results. nl_duplicates r));
          node_complete = (fcard (fmdom nodes) > 0 \<and> missing = [] \<and> failed = 0 \<and> duplicates = 0 \<and> unaccounted = []);
          missing_edges = card (es_edge_ids edges) - length (es_proofs edges);
          dataflow_complete = (missing_edges = 0) in
      \<lparr>rc_expected_node_count = fcard (fmdom nodes), rc_actual_report_count = length reports,
       rc_failed_node_count = failed, rc_missing_report_count = length missing, rc_duplicate_attempt_count = duplicates,
       rc_unaccounted_artifact_count = length unaccounted, rc_node_complete = node_complete,
       rc_expected_edge_count = card (es_edge_ids edges), rc_proven_edge_count = length (es_proofs edges),
       rc_missing_edge_count = missing_edges, rc_dataflow_complete = dataflow_complete, rc_edge_proofs = es_proofs edges,
       rc_terminal_attempt_ids = fmmap (\<lambda>i. rr_attempt_id (reports ! i)) terminals,
       rc_complete = (node_complete \<and> dataflow_complete \<and> findings = []), rc_findings = findings\<rparr>)"

definition reconcile_runtime_reports ::
  "runtime_graph_expectation \<Rightarrow> runtime_node_report list \<Rightarrow> runtime_artifact_observation list \<Rightarrow> runtime_completeness option" where
  "reconcile_runtime_reports x reports artifacts =
     (let st = scan_reports x reports in
      map_option (completeness_report x reports artifacts st)
        (those (map (node_result (expected_nodes_of x) reports (sc_attempt_indices st))
           (sorted_list_of_fmap (sc_node_reports st)))))"

end
