(* ===== verification/Runtime_Properties.thy ===== *)
theory Runtime_Properties
  imports Runtime_Protocol
begin

text \<open>
  What a complete reconciliation means: every expected node was run by one linear chain of retries that ends in its
  only success, and every expected edge carried exactly one artifact whose bytes were observed. The proof follows the
  code: the scan of the reports, the walk along the retries of a node, the edges.
\<close>

section \<open>The scan\<close>

definition joins_graph :: "runtime_graph_expectation \<Rightarrow> runtime_node_report \<Rightarrow> bool" where
  "joins_graph x r \<longleftrightarrow>
     rr_runtime_graph_id r = rx_runtime_graph_id x \<and> rr_runtime_graph_content_hash r = rx_runtime_graph_content_hash x \<and>
     rr_node_id r \<in> en_node_id ` set (rx_nodes x)"

definition node_indices :: "runtime_node_report list \<Rightarrow> string \<Rightarrow> nat list" where
  "node_indices reports node_id = filter (\<lambda>i. rr_node_id (reports ! i) = node_id) [0..<length reports]"

lemma lookup_expected_nodes: "fmlookup (expected_nodes_of x) n = None \<longleftrightarrow> n \<notin> en_node_id ` set (rx_nodes x)"
  by (force simp: expected_nodes_of_def lookup_collect_map map_of_eq_None_iff)

text \<open>What the scan knows when it has found nothing to report.\<close>

definition scanned :: "runtime_graph_expectation \<Rightarrow> runtime_node_report list \<Rightarrow> scan_state \<Rightarrow> bool" where
  "scanned x reports st \<longleftrightarrow>
     expectation_findings x = [] \<and> (\<forall>r\<in>set reports. validate_runtime_node_report r = [] \<and> joins_graph x r) \<and>
     distinct (map rr_attempt_id reports) \<and> sc_duplicates st = {} \<and>
     (\<forall>a i. fmlookup (sc_attempt_indices st) a = Some i \<longleftrightarrow> i < length reports \<and> rr_attempt_id (reports ! i) = a) \<and>
     (\<forall>n. get_or_nil (sc_node_reports st) n = node_indices reports n \<and>
        (fmlookup (sc_node_reports st) n = None \<longleftrightarrow> node_indices reports n = [])) \<and>
     sc_accounted_artifacts st = (\<Union>r\<in>set reports. set (rr_input_artifact_ids r) \<union> set (rr_output_artifact_ids r))"

lemma node_indices_snoc:
  "node_indices (reports @ [r]) n = node_indices reports n @ (if rr_node_id r = n then [length reports] else [])"
  by (auto simp: node_indices_def nth_append intro: filter_cong)

lemma scan_snoc: "scan_reports x (reports @ [r]) = scan_report x (length reports, r) (scan_reports x reports)"
  by (simp add: scan_reports_def enumerate_append_eq)

lemma scan_attempt_findings: "sc_findings (scan_attempt i r st) = [] \<Longrightarrow>
    sc_findings st = [] \<and> fmlookup (sc_attempt_indices st) (rr_attempt_id r) = None \<and>
    scan_attempt i r st = st\<lparr>sc_attempt_indices := fmupd (rr_attempt_id r) i (sc_attempt_indices st)\<rparr>"
  by (auto simp: scan_attempt_def split: if_splits)

lemma scan_report_clean:
  assumes "sc_findings (scan_report x (i, r) st) = []"
  shows "sc_findings st = []" "validate_runtime_node_report r = []" "joins_graph x r"
    "fmlookup (sc_attempt_indices st) (rr_attempt_id r) = None"
    "scan_report x (i, r) st = st\<lparr>sc_attempt_indices := fmupd (rr_attempt_id r) i (sc_attempt_indices st),
       sc_accounted_artifacts := sc_accounted_artifacts st \<union> set (rr_input_artifact_ids r) \<union> set (rr_output_artifact_ids r),
       sc_node_reports := entry_push (rr_node_id r) i (sc_node_reports st)\<rparr>"
proof -
  define st1 where "st1 = scan_attempt i r (st\<lparr>sc_findings := sc_findings st @ validate_runtime_node_report r\<rparr>)"
  have clean: "sc_findings st1 = []" and join: "rr_runtime_graph_id r = rx_runtime_graph_id x"
    "rr_runtime_graph_content_hash r = rx_runtime_graph_content_hash x" "fmlookup (expected_nodes_of x) (rr_node_id r) \<noteq> None"
    and run: "scan_report x (i, r) st = st1\<lparr>sc_accounted_artifacts :=
      sc_accounted_artifacts st1 \<union> set (rr_input_artifact_ids r) \<union> set (rr_output_artifact_ids r),
      sc_node_reports := entry_push (rr_node_id r) i (sc_node_reports st1)\<rparr>"
    using assms unfolding scan_report_def by (auto simp: Let_def simp flip: st1_def split: if_splits)
  note facts = scan_attempt_findings [OF clean [unfolded st1_def]]
  show f: "sc_findings st = []" "validate_runtime_node_report r = []"
    "fmlookup (sc_attempt_indices st) (rr_attempt_id r) = None" using facts by simp_all
  show "joins_graph x r" using join lookup_expected_nodes unfolding joins_graph_def by metis
  have "st1 = st\<lparr>sc_attempt_indices := fmupd (rr_attempt_id r) i (sc_attempt_indices st)\<rparr>"
    using facts f unfolding st1_def by simp
  then show "scan_report x (i, r) st = st\<lparr>sc_attempt_indices := fmupd (rr_attempt_id r) i (sc_attempt_indices st),
       sc_accounted_artifacts := sc_accounted_artifacts st \<union> set (rr_input_artifact_ids r) \<union> set (rr_output_artifact_ids r),
       sc_node_reports := entry_push (rr_node_id r) i (sc_node_reports st)\<rparr>"
    using run by simp
qed

lemma scan_clean: "sc_findings (scan_reports x reports) = [] \<Longrightarrow> scanned x reports (scan_reports x reports)"
proof (induction reports rule: rev_induct)
  case Nil
  then show ?case by (auto simp: scanned_def scan_reports_def scan_start_def node_indices_def)
next
  case (snoc r reports)
  let ?st = "scan_reports x reports" and ?i = "length reports"
  note clean = scan_report_clean [OF snoc.prems [unfolded scan_snoc]]
  have ih: "scanned x reports ?st" using snoc.IH clean(1) .
  have attempt: "fmlookup (sc_attempt_indices ?st) a = Some i \<longleftrightarrow> i < ?i \<and> rr_attempt_id (reports ! i) = a" for a i
    using ih unfolding scanned_def by blast
  have node: "get_or_nil (sc_node_reports ?st) n = node_indices reports n"
    "fmlookup (sc_node_reports ?st) n = None \<longleftrightarrow> node_indices reports n = []" for n
    using ih unfolding scanned_def by blast+
  have fresh: "rr_attempt_id r \<notin> set (map rr_attempt_id reports)"
  proof
    assume "rr_attempt_id r \<in> set (map rr_attempt_id reports)"
    then obtain i where "i < ?i" "rr_attempt_id (reports ! i) = rr_attempt_id r" by (auto simp: in_set_conv_nth)
    with attempt clean(4) show False by (metis option.distinct(1))
  qed
  have "fmlookup (fmupd (rr_attempt_id r) ?i (sc_attempt_indices ?st)) a = Some i \<longleftrightarrow>
      i < length (reports @ [r]) \<and> rr_attempt_id ((reports @ [r]) ! i) = a" for a i
  proof (cases "i < ?i")
    case True
    then have "rr_attempt_id (reports ! i) \<noteq> rr_attempt_id r" using fresh by (metis length_map nth_map nth_mem)
    with True show ?thesis by (auto simp: attempt nth_append)
  next
    case False
    then show ?thesis by (auto simp: attempt nth_append less_Suc_eq)
  qed
  moreover have "get_or_nil (entry_push (rr_node_id r) ?i (sc_node_reports ?st)) n = node_indices (reports @ [r]) n \<and>
      (fmlookup (entry_push (rr_node_id r) ?i (sc_node_reports ?st)) n = None \<longleftrightarrow> node_indices (reports @ [r]) n = [])" for n
    by (auto simp: node node_indices_snoc lookup_push_None)
  moreover have "expectation_findings x = []" "\<forall>r\<in>set reports. validate_runtime_node_report r = [] \<and> joins_graph x r"
    "distinct (map rr_attempt_id reports)" "sc_duplicates ?st = {}"
    "sc_accounted_artifacts ?st = (\<Union>r\<in>set reports. set (rr_input_artifact_ids r) \<union> set (rr_output_artifact_ids r))"
    using ih unfolding scanned_def by blast+
  ultimately show ?case
    using clean(2,3) fresh unfolding scan_snoc clean(5) scanned_def by (simp add: Un_ac)
qed

lemma scan_node_reports:
  "sc_node_reports (scan_report x (i, r) st) =
     (if joins_graph x r then entry_push (rr_node_id r) i (sc_node_reports st) else sc_node_reports st)"
  using lookup_expected_nodes [of x "rr_node_id r"]
  by (simp add: scan_report_def scan_attempt_def joins_graph_def Let_def)

lemma scan_known_nodes:
  "fmlookup (sc_node_reports (scan_reports x reports)) n \<noteq> None \<Longrightarrow> fmlookup (expected_nodes_of x) n \<noteq> None"
proof (induction reports rule: rev_induct)
  case (snoc r reports)
  show ?case
  proof (cases "joins_graph x r \<and> rr_node_id r = n")
    case True
    then show ?thesis using lookup_expected_nodes [of x n] by (auto simp: joins_graph_def)
  next
    case False
    then have "fmlookup (sc_node_reports (scan_reports x reports)) n \<noteq> None"
      using snoc.prems lookup_push_None [of "rr_node_id r" "length reports" "sc_node_reports (scan_reports x reports)" n]
      by (simp only: scan_snoc scan_node_reports split: if_splits) metis+
    then show ?thesis by (rule snoc.IH)
  qed
qed (simp add: scan_reports_def scan_start_def)

section \<open>Walks along retries\<close>

definition retry_rel :: "(string, string) fmap \<Rightarrow> (string \<times> string) set" where
  "retry_rel parents = {(a, b). fmlookup parents a = Some b}"

lemma lineage_walk_reach:
  assumes "lineage_walk parents seen current = {}" "(current, b) \<in> (retry_rel parents)\<^sup>*"
  shows "b \<notin> seen"
  using assms
proof (induction parents seen current rule: lineage_walk.induct)
  case (1 parents seen current)
  have cur: "current \<notin> seen"
    using 1(2) by (subst (asm) lineage_walk.simps) (auto split: if_splits)
  from 1(3) show ?case
  proof (cases rule: converse_rtranclE)
    case base
    with cur show ?thesis by simp
  next
    case (step prior)
    then have prior: "fmlookup parents current = Some prior" by (simp add: retry_rel_def)
    then have "lineage_walk parents (insert current seen) prior = {}"
      using 1(2) cur by (subst (asm) lineage_walk.simps) simp
    then have "b \<notin> insert current seen" using 1(1) [OF cur prior] step(2) by simp
    then show ?thesis by simp
  qed
qed

lemma no_cycle_acyclic:
  assumes "cycle_attempts parents = {}"
  shows "acyclic (retry_rel parents)"
proof (rule acyclicI, intro allI notI)
  fix a assume "(a, a) \<in> (retry_rel parents)\<^sup>+"
  then obtain b where b: "fmlookup parents a = Some b" "(b, a) \<in> (retry_rel parents)\<^sup>*"
    by (auto simp: retry_rel_def dest!: tranclD)
  then have "a \<in> set (btree_keys parents)" by (simp add: set_btree_keys)
  then have "lineage_walk parents {} a = {}" using assms by (auto simp: cycle_attempts_def)
  then have "lineage_walk parents {a} b = {}" using b(1) by (subst (asm) lineage_walk.simps) simp
  with b(2) lineage_walk_reach [of parents "{a}" b a] show False by simp
qed

section \<open>The chain of attempts of a node\<close>

text \<open>A chain of reports: every one but the last failed and is retried by the next; the last one succeeded.\<close>

fun retry_chain :: "runtime_node_report list \<Rightarrow> bool" where
  "retry_chain [] = False"
| "retry_chain [r] = (rr_status r = RtSucceeded)"
| "retry_chain (r # s # rs) =
     (rr_status r \<noteq> RtSucceeded \<and> rr_retry_of_attempt_id s = Some (rr_attempt_id r) \<and> retry_chain (s # rs))"

lemma retry_chain_iff:
  "retry_chain xs \<longleftrightarrow> xs \<noteq> [] \<and> (\<forall>x\<in>set (butlast xs). rr_status x \<noteq> RtSucceeded) \<and> rr_status (last xs) = RtSucceeded \<and>
     successively (\<lambda>x y. rr_retry_of_attempt_id y = Some (rr_attempt_id x)) xs"
  by (induction xs rule: retry_chain.induct) auto

definition succeeds_with :: "expected_runtime_node \<Rightarrow> runtime_node_report \<Rightarrow> bool" where
  "succeeds_with node r \<longleftrightarrow>
     rr_status r = RtSucceeded \<and> rr_expected_output_schema_id r = en_expected_output_schema_id node \<and>
     rr_actual_output_schema_id r = Some (en_expected_output_schema_id node) \<and>
     set (en_expected_parent_node_ids node) = set (rr_parent_node_ids r)"

lemma check_terminal_iff: "snd (check_terminal node r) \<longleftrightarrow> succeeds_with node r"
  by (auto simp: check_terminal_def succeeds_with_def Let_def)

text \<open>The positions of the reports of one node, with the attempts indexed as the scan does.\<close>

definition indexed :: "runtime_node_report list \<Rightarrow> (string, nat) fmap \<Rightarrow> nat list \<Rightarrow> bool" where
  "indexed reports attempts indices \<longleftrightarrow>
     distinct indices \<and> set indices \<subseteq> {..<length reports} \<and>
     (\<forall>a i. fmlookup attempts a = Some i \<longleftrightarrow> i < length reports \<and> rr_attempt_id (reports ! i) = a)"

definition parent_rel :: "runtime_node_report list \<Rightarrow> (string, nat) fmap \<Rightarrow> nat list \<Rightarrow> (nat \<times> nat) set" where
  "parent_rel reports attempts indices =
     {(i, j). i \<in> set indices \<and> j \<in> set indices \<and> retry_link_of reports attempts indices i = RetryOf (rr_attempt_id (reports ! j))}"

lemma indexed_inject:
  assumes "indexed reports attempts indices" "i \<in> set indices" "j \<in> set indices"
    and "rr_attempt_id (reports ! i) = rr_attempt_id (reports ! j)"
  shows "i = j"
proof -
  have look: "fmlookup attempts a = Some k \<longleftrightarrow> k < length reports \<and> rr_attempt_id (reports ! k) = a" for a k
    using assms(1) unfolding indexed_def by blast
  have "i < length reports" "j < length reports" using assms unfolding indexed_def by auto
  then show ?thesis using look [of _ i] look [of _ j] assms(4) by (metis option.sel)
qed

lemma retry_link_RetryOf:
  assumes "indexed reports attempts indices" "retry_link_of reports attempts indices i = RetryOf prior"
  obtains p where "p \<in> set indices" "rr_attempt_id (reports ! p) = prior" "rr_status (reports ! p) \<noteq> RtSucceeded"
    "rr_retry_of_attempt_id (reports ! i) = Some prior"
proof -
  from assms(2) obtain p where "rr_retry_of_attempt_id (reports ! i) = Some prior" "fmlookup attempts prior = Some p"
    "p \<in> set indices" "rr_status (reports ! p) \<noteq> RtSucceeded"
    by (auto simp: retry_link_of_def split: option.splits if_splits)
  moreover from this(2) assms(1) have "rr_attempt_id (reports ! p) = prior" unfolding indexed_def by blast
  ultimately show ?thesis by (intro that) simp_all
qed

lemma lookup_fold_link:
  assumes "distinct is" "inj_on (\<lambda>i. rr_attempt_id (reports ! i)) (set is)"
  shows "fmlookup (fold (link_parent reports attempts indices) is m) a = Some b \<longleftrightarrow>
    (\<exists>i\<in>set is. rr_attempt_id (reports ! i) = a \<and> retry_link_of reports attempts indices i = RetryOf b) \<or>
    (fmlookup m a = Some b \<and>
     \<not> (\<exists>i\<in>set is. rr_attempt_id (reports ! i) = a \<and> (\<exists>p. retry_link_of reports attempts indices i = RetryOf p)))"
  using assms
proof (induction "is" arbitrary: m)
  case (Cons i "is")
  have other: "rr_attempt_id (reports ! j) \<noteq> rr_attempt_id (reports ! i)" if "j \<in> set is" for j
    using Cons.prems that by (auto simp: inj_on_def)
  have ih: "fmlookup (fold (link_parent reports attempts indices) is (link_parent reports attempts indices i m)) a = Some b \<longleftrightarrow>
    (\<exists>i\<in>set is. rr_attempt_id (reports ! i) = a \<and> retry_link_of reports attempts indices i = RetryOf b) \<or>
    (fmlookup (link_parent reports attempts indices i m) a = Some b \<and>
     \<not> (\<exists>i\<in>set is. rr_attempt_id (reports ! i) = a \<and> (\<exists>p. retry_link_of reports attempts indices i = RetryOf p)))"
    by (rule Cons.IH) (use Cons.prems in \<open>auto simp: inj_on_def\<close>)
  have first: "fmlookup (link_parent reports attempts indices i m) a =
    (if rr_attempt_id (reports ! i) = a \<and> (\<exists>p. retry_link_of reports attempts indices i = RetryOf p)
     then (case retry_link_of reports attempts indices i of RetryOf p \<Rightarrow> Some p | _ \<Rightarrow> None) else fmlookup m a)"
    by (auto simp: link_parent_def split: retry_link.split)
  show ?case
  proof (cases "rr_attempt_id (reports ! i) = a")
    case True
    then have "\<not> (\<exists>j\<in>set is. rr_attempt_id (reports ! j) = a)" using other by auto
    then show ?thesis using ih first True by (auto split: retry_link.splits)
  next
    case False
    then show ?thesis using ih first by simp
  qed
qed simp

lemma lookup_valid_parents:
  assumes "indexed reports attempts indices"
  shows "fmlookup (valid_parents reports attempts indices) a = Some b \<longleftrightarrow>
    (\<exists>i\<in>set indices. rr_attempt_id (reports ! i) = a \<and> retry_link_of reports attempts indices i = RetryOf b)"
proof -
  have "inj_on (\<lambda>i. rr_attempt_id (reports ! i)) (set indices)"
    using indexed_inject [OF assms] by (auto intro: inj_onI)
  then show ?thesis
    using assms unfolding valid_parents_def by (subst lookup_fold_link) (auto simp: indexed_def)
qed

lemma parent_rel_wf:
  assumes ix: "indexed reports attempts indices" and nocyc: "cycle_attempts (valid_parents reports attempts indices) = {}"
  shows "acyclic (parent_rel reports attempts indices)" "wf (parent_rel reports attempts indices)"
    "wf ((parent_rel reports attempts indices)\<inverse>)"
proof -
  let ?P = "parent_rel reports attempts indices" and ?R = "retry_rel (valid_parents reports attempts indices)"
  let ?att = "\<lambda>i. rr_attempt_id (reports ! i)"
  have step: "(?att i, ?att j) \<in> ?R" if "(i, j) \<in> ?P" for i j
    using that lookup_valid_parents [OF ix] by (auto simp: retry_rel_def parent_rel_def)
  have "(?att i, ?att j) \<in> ?R\<^sup>+" if "(i, j) \<in> ?P\<^sup>+" for i j
    using that by (induction rule: trancl_induct) (use step in \<open>auto intro: trancl_into_trancl\<close>)
  then show ac: "acyclic ?P"
    using no_cycle_acyclic [OF nocyc] by (auto simp: acyclic_def)
  have "finite ?P" by (rule finite_subset [of _ "set indices \<times> set indices"]) (auto simp: parent_rel_def)
  with ac show "wf ?P" "wf (?P\<inverse>)" by (simp_all add: finite_acyclic_wf finite_acyclic_wf_converse)
qed

text \<open>The path of retries from a root attempt to a given attempt.\<close>

definition retry_path :: "runtime_node_report list \<Rightarrow> (string, nat) fmap \<Rightarrow> nat list \<Rightarrow> nat list \<Rightarrow> nat \<Rightarrow> bool" where
  "retry_path reports attempts indices ys i \<longleftrightarrow>
     set (ys @ [i]) \<subseteq> set indices \<and> distinct (ys @ [i]) \<and>
     successively (\<lambda>a b. retry_link_of reports attempts indices b = RetryOf (rr_attempt_id (reports ! a))) (ys @ [i]) \<and>
     retry_link_of reports attempts indices (hd (ys @ [i])) = RootAttempt \<and>
     (\<forall>a\<in>set ys. (i, a) \<in> (parent_rel reports attempts indices)\<^sup>+) \<and>
     (\<forall>a\<in>set (ys @ [i]). \<forall>b. (a, b) \<in> parent_rel reports attempts indices \<longrightarrow> b \<in> set (ys @ [i]))"

lemma retry_path_exists:
  assumes ix: "indexed reports attempts indices" and nocyc: "cycle_attempts (valid_parents reports attempts indices) = {}"
    and valid: "\<forall>i\<in>set indices. retry_link_of reports attempts indices i \<noteq> InvalidRetry" and i: "i \<in> set indices"
  shows "\<exists>ys. retry_path reports attempts indices ys i"
  using parent_rel_wf(3) [OF ix nocyc] i
proof (induction i)
  case (less i)
  let ?P = "parent_rel reports attempts indices"
  show ?case
  proof (cases "retry_link_of reports attempts indices i")
    case RootAttempt
    then have "retry_path reports attempts indices [] i"
      using less.prems by (auto simp: retry_path_def parent_rel_def)
    then show ?thesis by blast
  next
    case (RetryOf prior)
    obtain q where q: "q \<in> set indices" "rr_attempt_id (reports ! q) = prior"
      by (rule retry_link_RetryOf [OF ix RetryOf])
    then have iq: "(i, q) \<in> ?P" using RetryOf less.prems by (simp add: parent_rel_def)
    have only: "b = q" if b: "(i, b) \<in> ?P" for b
    proof (rule indexed_inject [OF ix _ q(1)])
      show "b \<in> set indices" using b by (simp add: parent_rel_def)
      have "RetryOf (rr_attempt_id (reports ! b)) = RetryOf prior" using b RetryOf by (simp add: parent_rel_def)
      then show "rr_attempt_id (reports ! b) = rr_attempt_id (reports ! q)" using q(2) by simp
    qed
    obtain ys where ys: "retry_path reports attempts indices ys q" using less.IH iq q(1) by blast
    have above: "\<forall>a\<in>set ys. (q, a) \<in> ?P\<^sup>+" using ys unfolding retry_path_def by blast
    have up: "(i, a) \<in> ?P\<^sup>+" if a: "a \<in> set (ys @ [q])" for a
    proof (cases "a = q")
      case True
      with iq show ?thesis by blast
    next
      case False
      with a above have "(q, a) \<in> ?P\<^sup>+" by auto
      with iq show ?thesis by (rule trancl_into_trancl2)
    qed
    then have fresh: "i \<notin> set (ys @ [q])" using parent_rel_wf(1) [OF ix nocyc] by (auto simp: acyclic_def)
    have parts: "set (ys @ [q]) \<subseteq> set indices" "distinct (ys @ [q])"
      "successively (\<lambda>a b. retry_link_of reports attempts indices b = RetryOf (rr_attempt_id (reports ! a))) (ys @ [q])"
      "retry_link_of reports attempts indices (hd (ys @ [q])) = RootAttempt"
      "\<forall>a\<in>set (ys @ [q]). \<forall>b. (a, b) \<in> ?P \<longrightarrow> b \<in> set (ys @ [q])"
      using ys unfolding retry_path_def by blast+
    have "successively (\<lambda>a b. retry_link_of reports attempts indices b = RetryOf (rr_attempt_id (reports ! a))) ((ys @ [q]) @ [i])"
      using parts(3) RetryOf q(2) unfolding successively_append_iff by simp
    moreover have "hd ((ys @ [q]) @ [i]) = hd (ys @ [q])" by (cases ys) simp_all
    moreover have "\<forall>a\<in>set ((ys @ [q]) @ [i]). \<forall>b. (a, b) \<in> ?P \<longrightarrow> b \<in> set ((ys @ [q]) @ [i])"
      using parts(5) only by auto
    moreover have "distinct ((ys @ [q]) @ [i])" "set ((ys @ [q]) @ [i]) \<subseteq> set indices"
      using parts(1,2) fresh less.prems by auto
    ultimately have "retry_path reports attempts indices (ys @ [q]) i"
      unfolding retry_path_def using up parts(4) by metis
    then show ?thesis by blast
  next
    case InvalidRetry
    with valid less.prems show ?thesis by blast
  qed
qed

lemma retry_path_covers:
  assumes ix: "indexed reports attempts indices" and nocyc: "cycle_attempts (valid_parents reports attempts indices) = {}"
    and only: "terminal_indices reports attempts indices = [t]"
    and path: "retry_path reports attempts indices ys t" and i: "i \<in> set indices"
  shows "i \<in> set (ys @ [t])"
  using parent_rel_wf(2) [OF ix nocyc] i
proof (induction i)
  case (less i)
  let ?P = "parent_rel reports attempts indices"
  show ?case
  proof (cases "\<exists>j. (j, i) \<in> ?P")
    case True
    then obtain j where "(j, i) \<in> ?P" by blast
    moreover from this have "j \<in> set (ys @ [t])" using less.IH by (auto simp: parent_rel_def)
    ultimately show ?thesis using path unfolding retry_path_def by blast
  next
    case False
    then have "rr_attempt_id (reports ! i) \<notin> set (btree_values (valid_parents reports attempts indices))"
      using less.prems lookup_valid_parents [OF ix] by (auto simp: set_btree_values parent_rel_def)
    then have "i \<in> set (terminal_indices reports attempts indices)"
      using less.prems by (simp add: terminal_indices_def)
    with only show ?thesis by simp
  qed
qed

lemma node_lineage_chain:
  assumes ix: "indexed reports attempts indices"
    and clean: "nl_findings (node_lineage reports attempts node node_id indices) = []"
    and terminal: "nl_terminal (node_lineage reports attempts node node_id indices) = Some t"
  obtains chain where "mset chain = mset (map (\<lambda>i. reports ! i) indices)" "rr_retry_of_attempt_id (hd chain) = None"
    "retry_chain chain" "last chain = reports ! t" "succeeds_with node (reports ! t)" "t \<in> set indices"
proof -
  let ?link = "retry_link_of reports attempts indices"
  have only: "terminal_indices reports attempts indices = [t]" and ok: "snd (check_terminal node (reports ! t))"
    using terminal by (auto simp: node_lineage_def Let_def split: list.splits prod.splits if_splits)
  have nocyc: "cycle_attempts (valid_parents reports attempts indices) = {}"
    and valid: "\<forall>i\<in>set indices. ?link i \<noteq> InvalidRetry"
    using clean by (auto simp: node_lineage_def Let_def filter_empty_conv split: if_splits)
  have t: "t \<in> set indices" using arg_cong [OF only, of set] by (auto simp: terminal_indices_def)
  obtain ys where path: "retry_path reports attempts indices ys t"
    using retry_path_exists [OF ix nocyc valid t] by blast
  have "set (ys @ [t]) = set indices"
    using retry_path_covers [OF ix nocyc only path] path unfolding retry_path_def by blast
  moreover have "distinct (ys @ [t])" "distinct indices" using path ix unfolding retry_path_def indexed_def by blast+
  ultimately have perm: "mset (ys @ [t]) = mset indices" using set_eq_iff_mset_eq_distinct by blast
  let ?chain = "map (\<lambda>i. reports ! i) (ys @ [t])"
  have succ: "successively (\<lambda>a b. ?link b = RetryOf (rr_attempt_id (reports ! a))) (ys @ [t])"
    using path unfolding retry_path_def by blast
  then have "successively (\<lambda>x y. rr_retry_of_attempt_id y = Some (rr_attempt_id x)) ?chain"
    unfolding successively_map by (rule successively_mono) (metis retry_link_RetryOf [OF ix])
  moreover have "rr_status (reports ! a) \<noteq> RtSucceeded" if a: "a \<in> set ys" for a
  proof -
    obtain us vs where ys: "ys = us @ a # vs" using a by (meson split_list)
    obtain b where b: "?link b = RetryOf (rr_attempt_id (reports ! a))"
      using succ by (cases "vs @ [t]") (auto simp: ys successively_append_iff successively_Cons)
    obtain q where "q \<in> set indices" "rr_attempt_id (reports ! q) = rr_attempt_id (reports ! a)" "rr_status (reports ! q) \<noteq> RtSucceeded"
      by (rule retry_link_RetryOf [OF ix b])
    moreover have "a \<in> set indices" using path a unfolding retry_path_def by auto
    ultimately show ?thesis using indexed_inject [OF ix, of q a] by simp
  qed
  moreover have root: "?link (hd (ys @ [t])) = RootAttempt" using path unfolding retry_path_def by blast
  ultimately have chain: "retry_chain ?chain"
    using ok unfolding retry_chain_iff check_terminal_iff by (auto simp: succeeds_with_def butlast_append)
  have "rr_retry_of_attempt_id (hd ?chain) = None"
    using root by (cases ys) (auto simp: retry_link_of_def split: option.splits if_splits)
  moreover have "mset ?chain = mset (map (\<lambda>i. reports ! i) indices)" using perm by (metis mset_map)
  moreover have "last ?chain = reports ! t" by simp
  ultimately show ?thesis using chain ok t by (intro that [of ?chain]) (simp_all only: check_terminal_iff)
qed

section \<open>Complete reconciliations\<close>

text \<open>What a run has to show for a node, and for an edge.\<close>

definition node_proven :: "runtime_node_report list \<Rightarrow> expected_runtime_node \<Rightarrow> runtime_node_report \<Rightarrow> bool" where
  "node_proven reports node r \<longleftrightarrow>
     (\<exists>chain. mset chain = mset (filter (\<lambda>r. rr_node_id r = en_node_id node) reports) \<and>
        rr_retry_of_attempt_id (hd chain) = None \<and> retry_chain chain \<and> last chain = r \<and> succeeds_with node r)"

definition edge_proven ::
  "runtime_graph_expectation \<Rightarrow> runtime_node_report list \<Rightarrow> runtime_artifact_observation list \<Rightarrow> expected_runtime_edge \<Rightarrow> bool" where
  "edge_proven x reports artifacts e \<longleftrightarrow>
     (\<exists>m n source target artifact. m \<in> set (rx_nodes x) \<and> n \<in> set (rx_nodes x) \<and>
        en_node_id m = ee_from_node_id e \<and> en_node_id n = ee_to_node_id e \<and>
        node_proven reports m source \<and> node_proven reports n target \<and>
        set (rr_output_artifact_ids source) \<inter> set (rr_input_artifact_ids target) = {artifact} \<and>
        artifact \<in> ao_artifact_id ` set artifacts)"

lemma map_node_indices: "map (\<lambda>i. reports ! i) (node_indices reports n) = filter (\<lambda>r. rr_node_id r = n) reports"
proof -
  have "filter (\<lambda>r. rr_node_id r = n) (map (\<lambda>i. reports ! i) [0..<length reports]) =
      map (\<lambda>i. reports ! i) (node_indices reports n)"
    unfolding node_indices_def by (simp only: filter_map comp_def)
  then show ?thesis by (simp add: map_nth)
qed

lemma scanned_indexed: "scanned x reports st \<Longrightarrow> indexed reports (sc_attempt_indices st) (node_indices reports n)"
  unfolding scanned_def indexed_def by (intro conjI) (auto simp: node_indices_def)

lemma reconcile_results:
  obtains results where "reconcile_runtime_reports x reports artifacts =
      Some (completeness_report x reports artifacts (scan_reports x reports) results)"
    "map (node_result (expected_nodes_of x) reports (sc_attempt_indices (scan_reports x reports)))
       (sorted_list_of_fmap (sc_node_reports (scan_reports x reports))) = map Some results"
proof -
  let ?st = "scan_reports x reports"
  let ?xs = "map (node_result (expected_nodes_of x) reports (sc_attempt_indices ?st)) (sorted_list_of_fmap (sc_node_reports ?st))"
  have "those ?xs \<noteq> None"
  proof
    assume "those ?xs = None"
    then obtain n js where "(n, js) \<in> set (sorted_list_of_fmap (sc_node_reports ?st))"
      "node_result (expected_nodes_of x) reports (sc_attempt_indices ?st) (n, js) = None"
      by (auto simp: those_map_None)
    then show False using scan_known_nodes [of x reports n]
      by (auto simp: node_result_def sorted_list_of_fmap_def fmlookup_dom_iff)
  qed
  then obtain results where "those ?xs = Some results" by blast
  with that show ?thesis by (simp add: reconcile_runtime_reports_def Let_def those_map_Some)
qed

lemma check_edge_clean:
  assumes "es_findings (check_edge reports terminals observed e st) = []"
  obtains i j pr where "es_findings st = []" "ee_edge_id e \<notin> es_edge_ids st"
    "fmlookup terminals (ee_from_node_id e) = Some i" "fmlookup terminals (ee_to_node_id e) = Some j"
    "edge_handoff observed e (reports ! i) (reports ! j) = Ok pr"
    "es_edge_ids (check_edge reports terminals observed e st) = insert (ee_edge_id e) (es_edge_ids st)"
proof -
  have "es_findings st = [] \<and> ee_edge_id e \<notin> es_edge_ids st \<and>
    (\<exists>i j pr. fmlookup terminals (ee_from_node_id e) = Some i \<and> fmlookup terminals (ee_to_node_id e) = Some j \<and>
       edge_handoff observed e (reports ! i) (reports ! j) = Ok pr) \<and>
    es_edge_ids (check_edge reports terminals observed e st) = insert (ee_edge_id e) (es_edge_ids st)"
    using assms by (auto simp: check_edge_def Let_def split: if_splits option.splits sum.splits)
  with that show ?thesis by blast
qed

lemma check_edges_clean:
  assumes "es_findings (fold (check_edge reports terminals observed) es st) = []"
  shows "es_findings st = [] \<and> distinct (map ee_edge_id es) \<and> es_edge_ids st \<inter> ee_edge_id ` set es = {} \<and>
    (\<forall>e\<in>set es. \<exists>i j pr. fmlookup terminals (ee_from_node_id e) = Some i \<and> fmlookup terminals (ee_to_node_id e) = Some j \<and>
       edge_handoff observed e (reports ! i) (reports ! j) = Ok pr)"
  using assms
proof (induction es arbitrary: st)
  case (Cons e es)
  have ih: "es_findings (check_edge reports terminals observed e st) = [] \<and> distinct (map ee_edge_id es) \<and>
    es_edge_ids (check_edge reports terminals observed e st) \<inter> ee_edge_id ` set es = {} \<and>
    (\<forall>e\<in>set es. \<exists>i j pr. fmlookup terminals (ee_from_node_id e) = Some i \<and> fmlookup terminals (ee_to_node_id e) = Some j \<and>
       edge_handoff observed e (reports ! i) (reports ! j) = Ok pr)"
    by (rule Cons.IH) (use Cons.prems in simp)
  obtain i j pr where first: "es_findings st = []" "ee_edge_id e \<notin> es_edge_ids st"
    "fmlookup terminals (ee_from_node_id e) = Some i" "fmlookup terminals (ee_to_node_id e) = Some j"
    "edge_handoff observed e (reports ! i) (reports ! j) = Ok pr"
    "es_edge_ids (check_edge reports terminals observed e st) = insert (ee_edge_id e) (es_edge_ids st)"
    by (rule check_edge_clean [OF ih [THEN conjunct1]])
  show ?case using ih first by auto
qed simp

lemma edge_handoff_Ok:
  assumes "edge_handoff observed e source target = Ok pr"
  obtains artifact obs where "set (rr_output_artifact_ids source) \<inter> set (rr_input_artifact_ids target) = {artifact}"
    "fmlookup observed artifact = Some obs"
proof -
  let ?S = "set (rr_output_artifact_ids source) \<inter> set (rr_input_artifact_ids target)"
  obtain artifact obs where "sorted_list_of_set ?S = [artifact]" "fmlookup observed artifact = Some obs"
    using assms by (auto simp: edge_handoff_def Let_def split: list.splits option.splits)
  moreover from this(1) have "?S = {artifact}"
    by (metis finite_Int finite_set list.simps(15) list.set(1) set_sorted_list_of_set)
  ultimately show ?thesis using that by blast
qed

lemma collect_map_by_key: "fmlookup (collect_map (map (\<lambda>a. (key a, a)) xs)) k = Some a \<Longrightarrow> a \<in> set xs \<and> key a = k"
  by (auto simp: lookup_collect_map dest!: map_of_SomeD)

lemma node_result_chain:
  assumes scanned: "scanned x reports st" and mem: "(n, r) \<in> set results"
    and results: "map (node_result (expected_nodes_of x) reports (sc_attempt_indices st)) (sorted_list_of_fmap (sc_node_reports st))
      = map Some results"
    and clean: "nl_findings r = []" and terminal: "nl_terminal r = Some t"
  obtains node where "node \<in> set (rx_nodes x)" "en_node_id node = n" "node_proven reports node (reports ! t)"
proof -
  have "Some (n, r) \<in> set (map (node_result (expected_nodes_of x) reports (sc_attempt_indices st))
      (sorted_list_of_fmap (sc_node_reports st)))"
    unfolding results using mem by simp
  then obtain m js where mj: "(m, js) \<in> set (sorted_list_of_fmap (sc_node_reports st))"
    "node_result (expected_nodes_of x) reports (sc_attempt_indices st) (m, js) = Some (n, r)"
    by auto
  then have "m = n" by (auto simp: node_result_def)
  with mj have js: "(n, js) \<in> set (sorted_list_of_fmap (sc_node_reports st))"
    "node_result (expected_nodes_of x) reports (sc_attempt_indices st) (n, js) = Some (n, r)"
    by simp_all
  then obtain node where node: "fmlookup (expected_nodes_of x) n = Some node"
    and r: "r = node_lineage reports (sc_attempt_indices st) node n js"
    by (auto simp: node_result_def)
  have "fmlookup (sc_node_reports st) n = Some js"
    using js(1) by (auto simp: sorted_list_of_fmap_def fmlookup_dom_iff)
  then have "js = node_indices reports n"
    using scanned unfolding scanned_def get_or_nil_def by (metis option.simps(5))
  then have ix: "indexed reports (sc_attempt_indices st) js" using scanned_indexed [OF scanned] by simp
  obtain chain where "mset chain = mset (map (\<lambda>i. reports ! i) js)" "rr_retry_of_attempt_id (hd chain) = None"
    "retry_chain chain" "last chain = reports ! t" "succeeds_with node (reports ! t)"
    by (rule node_lineage_chain [OF ix clean [unfolded r] terminal [unfolded r]])
  moreover have "node \<in> set (rx_nodes x)" "en_node_id node = n"
    using collect_map_by_key [of en_node_id "rx_nodes x" n node] node unfolding expected_nodes_of_def by simp_all
  ultimately show ?thesis
    using \<open>js = node_indices reports n\<close> by (intro that) (auto simp: node_proven_def map_node_indices)
qed

lemma sort_key_Nil: "sort_key key xs = [] \<longleftrightarrow> xs = []"
  by (metis length_0_conv length_sort)

lemma complete_clean:
  assumes "rc_complete (completeness_report x reports artifacts st results)"
  shows "sc_findings st = []" "\<forall>(n, r)\<in>set results. nl_findings r = [] \<and> nl_terminal r \<noteq> None"
    "missing_nodes_of (expected_nodes_of x) st = []" "unaccounted_artifacts artifacts st = []"
    "es_findings (check_edges reports (terminal_attempts_of results)
       (collect_map (map (\<lambda>a. (ao_artifact_id a, a)) artifacts)) (rx_edges x)) = []"
    "fmdom (expected_nodes_of x) \<noteq> {||}"
proof -
  note facts = assms [unfolded completeness_report_def Let_def runtime_completeness.select_convs sort_key_Nil
      append_is_Nil_conv map_is_Nil_conv]
  show "sc_findings st = []" "missing_nodes_of (expected_nodes_of x) st = []" "unaccounted_artifacts artifacts st = []"
    "es_findings (check_edges reports (terminal_attempts_of results)
       (collect_map (map (\<lambda>a. (ao_artifact_id a, a)) artifacts)) (rx_edges x)) = []"
    using facts by blast+
  have "0 < fcard (fmdom (expected_nodes_of x))" using facts by blast
  then show "fmdom (expected_nodes_of x) \<noteq> {||}" by (metis fcard_fempty less_irrefl)
  have "card (fst ` {r \<in> set results. nl_terminal (snd r) = None}) = 0"
    and none: "concat (map (\<lambda>(_, r). nl_findings r) results) = []" using facts by blast+
  then have "{r \<in> set results. nl_terminal (snd r) = None} = {}" by simp
  then have "\<forall>r\<in>set results. nl_terminal (snd r) \<noteq> None" by auto
  with none show "\<forall>(n, r)\<in>set results. nl_findings r = [] \<and> nl_terminal r \<noteq> None" by auto
qed

text \<open>The results of the nodes of a reconciliation without findings.\<close>

definition results_proven :: "runtime_graph_expectation \<Rightarrow> runtime_node_report list \<Rightarrow> (string \<times> lineage_result) list \<Rightarrow> bool" where
  "results_proven x reports results \<longleftrightarrow>
     (\<forall>(n, r)\<in>set results. \<exists>node t. nl_terminal r = Some t \<and> node \<in> set (rx_nodes x) \<and> en_node_id node = n \<and>
        node_proven reports node (reports ! t))"

lemma terminal_proven:
  assumes "results_proven x reports results" "fmlookup (terminal_attempts_of results) n = Some i"
  shows "\<exists>node. node \<in> set (rx_nodes x) \<and> en_node_id node = n \<and> node_proven reports node (reports ! i)"
proof -
  obtain r where "(n, r) \<in> set results" "nl_terminal r = Some i"
    using assms(2) by (auto simp: terminal_attempts_of_def lookup_collect_map split: option.splits dest!: map_of_SomeD)
  with assms(1) show ?thesis by (fastforce simp: results_proven_def)
qed

lemma all_nodes_proven:
  assumes proven: "results_proven x reports results" and distinct: "distinct (map en_node_id (rx_nodes x))"
    and results: "map (node_result (expected_nodes_of x) reports (sc_attempt_indices st)) (sorted_list_of_fmap (sc_node_reports st)) = map Some results"
    and present: "missing_nodes_of (expected_nodes_of x) st = []" and mem: "node \<in> set (rx_nodes x)"
  shows "\<exists>r. node_proven reports node r"
proof -
  have "fmlookup (expected_nodes_of x) (en_node_id node) \<noteq> None" using mem lookup_expected_nodes by blast
  then have "fmlookup (sc_node_reports st) (en_node_id node) \<noteq> None"
    using present by (auto simp: missing_nodes_of_def filter_empty_conv set_btree_keys)
  then obtain js where "(en_node_id node, js) \<in> set (sorted_list_of_fmap (sc_node_reports st))"
    by (metis map_of_SomeD map_of_sorted_list not_None_eq)
  then have "node_result (expected_nodes_of x) reports (sc_attempt_indices st) (en_node_id node, js) \<in> Some ` set results"
    using results by (metis image_eqI list.set_map)
  then obtain r where "(en_node_id node, r) \<in> set results" by (auto simp: node_result_def)
  then obtain node' t where "node' \<in> set (rx_nodes x)" "en_node_id node' = en_node_id node" "node_proven reports node' (reports ! t)"
    using proven by (fastforce simp: results_proven_def)
  moreover from this(1,2) mem distinct have "node' = node" by (meson distinct_map inj_onD)
  ultimately show ?thesis by blast
qed

lemma all_edges_proven:
  assumes proven: "results_proven x reports results"
    and clean: "es_findings (check_edges reports (terminal_attempts_of results)
       (collect_map (map (\<lambda>a. (ao_artifact_id a, a)) artifacts)) (rx_edges x)) = []"
  shows "distinct (map ee_edge_id (rx_edges x))" "\<forall>e\<in>set (rx_edges x). edge_proven x reports artifacts e"
proof -
  let ?observed = "collect_map (map (\<lambda>a. (ao_artifact_id a, a)) artifacts)"
  note edges = check_edges_clean [OF clean [unfolded check_edges_def]]
  show "distinct (map ee_edge_id (rx_edges x))" using edges by blast
  show "\<forall>e\<in>set (rx_edges x). edge_proven x reports artifacts e"
  proof
    fix e assume "e \<in> set (rx_edges x)"
    then obtain i j pr where ij: "fmlookup (terminal_attempts_of results) (ee_from_node_id e) = Some i"
      "fmlookup (terminal_attempts_of results) (ee_to_node_id e) = Some j" "edge_handoff ?observed e (reports ! i) (reports ! j) = Ok pr"
      using edges by blast
    obtain artifact obs where "set (rr_output_artifact_ids (reports ! i)) \<inter> set (rr_input_artifact_ids (reports ! j)) = {artifact}"
      "fmlookup ?observed artifact = Some obs"
      by (rule edge_handoff_Ok [OF ij(3)])
    then have handoff: "set (rr_output_artifact_ids (reports ! i)) \<inter> set (rr_input_artifact_ids (reports ! j)) = {artifact}"
      "artifact \<in> ao_artifact_id ` set artifacts"
      using collect_map_by_key [of ao_artifact_id artifacts artifact obs] by auto
    obtain m where m: "m \<in> set (rx_nodes x)" "en_node_id m = ee_from_node_id e" "node_proven reports m (reports ! i)"
      using terminal_proven [OF proven ij(1)] by blast
    obtain n where n: "n \<in> set (rx_nodes x)" "en_node_id n = ee_to_node_id e" "node_proven reports n (reports ! j)"
      using terminal_proven [OF proven ij(2)] by blast
    show "edge_proven x reports artifacts e"
      unfolding edge_proven_def
      by (rule exI [of _ m], rule exI [of _ n], rule exI [of _ "reports ! i"], rule exI [of _ "reports ! j"],
          rule exI [of _ artifact]) (intro conjI m n handoff)
  qed
qed

text \<open>
  Claim C12. A reconciliation always answers, and it calls a run complete only if the run proves the whole graph: the
  reports are valid, belong to this graph and have distinct attempt ids; the reports of every expected node form one
  linear chain of retries that ends in its only success, with the declared output schema and the declared
  predecessors; every expected edge carried exactly one artifact from the successful attempt of its source to that of
  its target, and its bytes were observed; and every observed artifact is named by a report.
\<close>

theorem complete_run_proves_graph:
  "\<exists>c. reconcile_runtime_reports x reports artifacts = Some c \<and>
    (rc_complete c \<longrightarrow>
       rx_nodes x \<noteq> [] \<and> distinct (map en_node_id (rx_nodes x)) \<and> distinct (map ee_edge_id (rx_edges x)) \<and>
       distinct (map rr_attempt_id reports) \<and>
       (\<forall>r\<in>set reports. validate_runtime_node_report r = [] \<and> joins_graph x r) \<and>
       (\<forall>node\<in>set (rx_nodes x). \<exists>r. node_proven reports node r) \<and>
       (\<forall>e\<in>set (rx_edges x). edge_proven x reports artifacts e) \<and>
       ao_artifact_id ` set artifacts \<subseteq> (\<Union>r\<in>set reports. set (rr_input_artifact_ids r) \<union> set (rr_output_artifact_ids r)))"
proof -
  let ?st = "scan_reports x reports"
  obtain results where run: "reconcile_runtime_reports x reports artifacts = Some (completeness_report x reports artifacts ?st results)"
    and results: "map (node_result (expected_nodes_of x) reports (sc_attempt_indices ?st)) (sorted_list_of_fmap (sc_node_reports ?st)) = map Some results"
    by (rule reconcile_results)
  show ?thesis
  proof (intro exI conjI impI)
    show "reconcile_runtime_reports x reports artifacts = Some (completeness_report x reports artifacts ?st results)" by (rule run)
    assume complete: "rc_complete (completeness_report x reports artifacts ?st results)"
    note clean = complete_clean [OF complete]
    have scanned: "scanned x reports ?st" by (rule scan_clean [OF clean(1)])
    then show distinct: "distinct (map en_node_id (rx_nodes x))"
      by (auto simp: scanned_def expectation_findings_def repeats_Nil split: if_splits)
    show "rx_nodes x \<noteq> []" using clean(6) by (auto simp: expected_nodes_of_def collect_map_def)
    have proven: "results_proven x reports results"
      unfolding results_proven_def
    proof (intro ballI, clarify)
      fix n r assume mem: "(n, r) \<in> set results"
      with clean(2) obtain t where t: "nl_findings r = []" "nl_terminal r = Some t" by blast
      from node_result_chain [OF scanned mem results t] t(2)
      show "\<exists>node t. nl_terminal r = Some t \<and> node \<in> set (rx_nodes x) \<and> en_node_id node = n \<and> node_proven reports node (reports ! t)"
        by metis
    qed
    show "distinct (map ee_edge_id (rx_edges x))" "\<forall>e\<in>set (rx_edges x). edge_proven x reports artifacts e"
      using all_edges_proven [OF proven clean(5)] by blast+
    show "\<forall>node\<in>set (rx_nodes x). \<exists>r. node_proven reports node r"
      using all_nodes_proven [OF proven distinct results clean(3)] by blast
    show "distinct (map rr_attempt_id reports)" "\<forall>r\<in>set reports. validate_runtime_node_report r = [] \<and> joins_graph x r"
      using scanned unfolding scanned_def by blast+
    show "ao_artifact_id ` set artifacts \<subseteq> (\<Union>r\<in>set reports. set (rr_input_artifact_ids r) \<union> set (rr_output_artifact_ids r))"
      using clean(4) scanned by (auto simp: unaccounted_artifacts_def scanned_def)
  qed
qed

end
