(* ===== verification/Runtime_Witnesses.thy ===== *)
theory Runtime_Witnesses
  imports Runtime_Properties "HOL-Library.Code_Target_Nat"
begin

text \<open>
  A graph of two nodes and one data edge, run with one retry: its reconciliation is complete. A fixed-width timestamp
  field may hold a plus sign.
\<close>

definition run_hash :: string where
  "run_hash = replicate 64 (CHR ''a'')"

definition run_expectation :: runtime_graph_expectation where
  "run_expectation =
     \<lparr>rx_schema = runtime_graph_expectation_schema, rx_schema_version = 0, rx_runtime_graph_id = ''g'',
      rx_runtime_graph_content_hash = run_hash,
      rx_nodes = [\<lparr>en_node_id = ''a'', en_expected_output_schema_id = ''s'', en_expected_parent_node_ids = []\<rparr>,
                  \<lparr>en_node_id = ''b'', en_expected_output_schema_id = ''s'', en_expected_parent_node_ids = [''a'']\<rparr>],
      rx_edges = [\<lparr>ee_edge_id = ''e'', ee_from_node_id = ''a'', ee_to_node_id = ''b'', ee_output_name = ''out'',
                   ee_input_name = ''in'', ee_schema_id = ''s'', ee_delivery = DmBarrier\<rparr>]\<rparr>"

definition run_report :: "string \<Rightarrow> string \<Rightarrow> runtime_node_report" where
  "run_report node attempt =
     \<lparr>rr_schema = runtime_node_report_schema, rr_schema_version = 0, rr_report_id = ''r'', rr_runtime_graph_id = ''g'',
      rr_runtime_graph_content_hash = run_hash, rr_node_id = node, rr_attempt_id = attempt, rr_retry_of_attempt_id = None,
      rr_round_id = ''1'', rr_parent_node_ids = [], rr_input_artifact_ids = [], rr_output_artifact_ids = [],
      rr_expected_output_schema_id = ''s'', rr_actual_output_schema_id = Some ''s'',
      rr_started_at = ''2026-08-03T00:00:00Z'', rr_finished_at = ''2026-08-03T00:00:01.5Z'', rr_status = RtSucceeded,
      rr_failure_kind = None,
      rr_runtime_identity = \<lparr>ri_runtime_name = ''n'', ri_runtime_version = ''v'', ri_adapter_name = ''n'', ri_adapter_version = ''v''\<rparr>,
      rr_reported_model = None, rr_reported_context_id = None, rr_token_usage = None, rr_cost = None,
      rr_resource_allocations = [], rr_worktree_id = None, rr_commit_sha = None, rr_verifier_report_ids = [],
      rr_trust_boundary = runtime_report_trust_boundary\<rparr>"

definition run_reports :: "runtime_node_report list" where
  "run_reports =
     [(run_report ''a'' ''a1'')\<lparr>rr_status := RtFailed, rr_failure_kind := Some FkTimeout, rr_actual_output_schema_id := None\<rparr>,
      (run_report ''a'' ''a2'')\<lparr>rr_retry_of_attempt_id := Some ''a1'', rr_output_artifact_ids := [''x'']\<rparr>,
      (run_report ''b'' ''b1'')\<lparr>rr_parent_node_ids := [''a''], rr_input_artifact_ids := [''x'']\<rparr>]"

definition run_artifacts :: "runtime_artifact_observation list" where
  "run_artifacts = [\<lparr>ao_artifact_id = ''x'', ao_content_sha256 = run_hash, ao_byte_length = 3\<rparr>]"

lemma run_valid: "map validate_runtime_node_report run_reports = [[], [], []]"
  by code_simp

lemma run_expected: "expectation_findings run_expectation = []"
  by code_simp

lemma run_joins: "list_all (joins_graph run_expectation) run_reports"
  by (simp add: joins_graph_def run_reports_def run_report_def run_expectation_def)

lemma scan_report_accepted:
  assumes "validate_runtime_node_report r = []" "joins_graph x r" "fmlookup (sc_attempt_indices st) (rr_attempt_id r) = None"
  shows "scan_report x (i, r) st = st\<lparr>sc_attempt_indices := fmupd (rr_attempt_id r) i (sc_attempt_indices st),
       sc_accounted_artifacts := sc_accounted_artifacts st \<union> set (rr_input_artifact_ids r) \<union> set (rr_output_artifact_ids r),
       sc_node_reports := entry_push (rr_node_id r) i (sc_node_reports st)\<rparr>"
  using assms lookup_expected_nodes [of x "rr_node_id r"] by (auto simp: scan_report_def scan_attempt_def joins_graph_def)

lemma run_scan:
  "scan_reports run_expectation run_reports =
     \<lparr>sc_attempt_indices = fmupd ''b1'' 2 (fmupd ''a2'' 1 (fmupd ''a1'' 0 fmempty)),
      sc_node_reports = fmupd ''b'' [2] (fmupd ''a'' [0, 1] fmempty),
      sc_accounted_artifacts = {''x''}, sc_duplicates = {}, sc_findings = []\<rparr>"
proof -
  obtain r s t where run: "run_reports = [r, s, t]" by (simp add: run_reports_def)
  have r: "rr_attempt_id r = ''a1''" "rr_node_id r = ''a''" "rr_input_artifact_ids r = []" "rr_output_artifact_ids r = []"
    and s: "rr_attempt_id s = ''a2''" "rr_node_id s = ''a''" "rr_input_artifact_ids s = []" "rr_output_artifact_ids s = [''x'']"
    and t: "rr_attempt_id t = ''b1''" "rr_node_id t = ''b''" "rr_input_artifact_ids t = [''x'']" "rr_output_artifact_ids t = []"
    using run unfolding run_reports_def run_report_def by auto
  have "fmupd ''a'' [0, 1] (fmupd ''a'' [0] m) = fmupd ''a'' [0, 1] m" for m :: "(string, nat list) fmap"
    by (rule fmap_ext) simp
  then show ?thesis
    using run_valid run_joins run_expected unfolding run
    by (simp add: scan_reports_def scan_start_def scan_report_accepted r s t entry_push_def get_or_nil_def numeral_2_eq_2)
qed

lemma run_complete:
  "map_option (\<lambda>c. (rc_complete c, rc_proven_edge_count c)) (reconcile_runtime_reports run_expectation run_reports run_artifacts)
   = Some (True, 1)"
  unfolding reconcile_runtime_reports_def run_scan Let_def by code_simp

theorem complete_run_proves_graph_witness:
  "\<exists>c. reconcile_runtime_reports run_expectation run_reports run_artifacts = Some c \<and> rc_complete c \<and>
     (\<exists>r. node_proven run_reports (rx_nodes run_expectation ! 0) r) \<and>
     edge_proven run_expectation run_reports run_artifacts (rx_edges run_expectation ! 0)"
proof -
  have "rx_nodes run_expectation ! 0 \<in> set (rx_nodes run_expectation)" "rx_edges run_expectation ! 0 \<in> set (rx_edges run_expectation)"
    by (simp_all add: run_expectation_def)
  with complete_run_proves_graph [of run_expectation run_reports run_artifacts] run_complete show ?thesis by auto
qed

lemma plus_sign_timestamp:
  "parse_canonical_utc_timestamp ''2026-+8-03T00:00:00Z'' = parse_canonical_utc_timestamp ''2026-08-03T00:00:00Z'' \<and>
   parse_canonical_utc_timestamp ''2026-08-03T00:00:00Z'' = Some (2026, 8, 3, 0, 0, 0, 0)"
  by code_simp

end
