(* ===== verification/Verification_Policy.thy ===== *)
theory Verification_Policy
  imports Native_Review Runtime_Protocol
begin

text \<open>
  The first half of \<open>src/verification_policy.rs\<close>, with the records of \<open>src/exec/records.rs\<close> it reads: verification
  policies and their validation, declared lineage and anchors, and anchor proofs from observed bytes. Decoders, the
  printer of a gate and the digest are the record \<open>verification_env\<close>; bytes are strings. The detail of a finding is its
  text, or the error of the operation gate.
\<close>

section \<open>Execution records\<close>

datatype execution_dispatch_state = DispatchStarted | DispatchCompleted | DispatchFailed

datatype worker_output_name = WoStdout | WoStderr

record worker_output =
  wo_name :: worker_output_name
  wo_content_hash :: string
  wo_byte_len :: nat
  wo_retained_byte_len :: nat
  wo_truncated :: bool
  wo_incomplete :: bool

record worker_report =
  wr_schema :: string
  wr_schema_version :: nat
  wr_report_id :: id
  wr_binding_id :: id
  wr_binding_content_hash :: string
  wr_work_cell_id :: id
  wr_plan_id :: id
  wr_step_id :: id
  wr_exit_status :: "int option"
  wr_timed_out :: bool
  wr_descendants_may_survive :: bool
  wr_outputs :: "worker_output list"
  wr_trust_boundary :: string
  wr_started_at :: string
  wr_finished_at :: string
  wr_metadata :: metadata

record execution_obstruction =
  xo_obstruction_type :: string
  xo_summary :: string
  xo_witness_ids :: "id list"
  xo_blocking :: bool

record execution_information_loss =
  xl_description :: string
  xl_represented_ids :: "id list"
  xl_omitted_ids :: "id list"

record execution_trace =
  xt_schema :: string
  xt_schema_version :: nat
  xt_trace_id :: id
  xt_plan_id :: id
  xt_step_id :: id
  xt_case_space_id :: id
  xt_base_revision_id :: id
  xt_result_revision_id :: "id option"
  xt_work_cell_id :: id
  xt_binding_id :: id
  xt_binding_content_hash :: string
  xt_operation_gate :: operation_gate
  xt_worker_report_id :: id
  xt_worker_report_content_hash :: string
  xt_stdout_content_hash :: string
  xt_stderr_content_hash :: string
  xt_appended_entry_ids :: "id list"
  xt_dispatch_state :: execution_dispatch_state
  xt_transition_applied :: bool
  xt_unsatisfied_success_evidence_requirement_ids :: "id list"
  xt_obstructions :: "execution_obstruction list"
  xt_information_loss :: "execution_information_loss list"
  xt_started_at :: string
  xt_finished_at :: string
  xt_metadata :: metadata

definition worker_report_schema :: string where
  "worker_report_schema = ''highergraphen.case.workflow.worker_report.v1''"

definition execution_trace_schema :: string where
  "execution_trace_schema = ''highergraphen.case.workflow.execution_trace.v2''"

definition execution_record_schema_version :: nat where
  "execution_record_schema_version = 1"

definition worker_report_trust_boundary :: string where
  "worker_report_trust_boundary = ''local_process_output_untrusted_until_validated_and_reviewed''"

section \<open>Policies and findings\<close>

record verification_env =
  ve_env :: env
  ve_digest :: "string \<Rightarrow> string"
  ve_runtime_report_of :: "string \<Rightarrow> (string, runtime_node_report) result"
  ve_trace_of :: "string \<Rightarrow> (string, execution_trace) result"
  ve_worker_report_of :: "string \<Rightarrow> (string, worker_report) result"
  ve_gate_bytes :: "operation_gate \<Rightarrow> string"
  ve_gate_of :: "json \<Rightarrow> operation_gate option"

datatype claim_level = LedgerVerifiable | RuntimeAttested | NotObservableHere

record verification_policy =
  vp_schema :: string
  vp_id :: string
  vp_producer_capability_ids :: "string list"
  vp_verifier_capability_ids :: "string list"
  vp_actor_must_differ :: bool
  vp_lenses :: "string list"
  vp_minimum_accepts :: nat
  vp_total_verifiers :: nat
  vp_required_anchors :: "string list"
  vp_allowed_runtime_attestations :: "string list"
  vp_source :: string
  vp_created_by :: string

datatype policy_detail = DetailText string | DetailGate gate_error

record policy_finding =
  vf_code :: string
  vf_level :: claim_level
  vf_subject_id :: "string option"
  vf_detail :: policy_detail

definition policy_finding_of :: "string \<Rightarrow> claim_level \<Rightarrow> string option \<Rightarrow> string \<Rightarrow> policy_finding" where
  "policy_finding_of code level subject detail =
     \<lparr>vf_code = code, vf_level = level, vf_subject_id = subject, vf_detail = DetailText detail\<rparr>"

definition ledger_when :: "bool \<Rightarrow> string \<Rightarrow> string option \<Rightarrow> string \<Rightarrow> policy_finding list" where
  "ledger_when b code subject detail = (if b then [policy_finding_of code LedgerVerifiable subject detail] else [])"

definition attested_when :: "bool \<Rightarrow> string \<Rightarrow> string option \<Rightarrow> string \<Rightarrow> policy_finding list" where
  "attested_when b code subject detail = (if b then [policy_finding_of code RuntimeAttested subject detail] else [])"

definition sort_policy_findings :: "policy_finding list \<Rightarrow> policy_finding list" where
  "sort_policy_findings fs = sort_key (\<lambda>f. (vf_code f, vf_subject_id f)) fs"

definition verification_policy_schema :: string where
  "verification_policy_schema = ''casegraphen.experimental.verification_policy.v0''"

definition verification_policy_result_schema :: string where
  "verification_policy_result_schema = ''casegraphen.experimental.verification_policy_result.v0''"

fun policy_identifiers :: "string \<Rightarrow> string set \<Rightarrow> string list \<Rightarrow> policy_finding list" where
  "policy_identifiers field seen [] = []"
| "policy_identifiers field seen (v # vs) =
     (if v = [] then
        policy_finding_of ''invalid_policy_identifier'' LedgerVerifiable None (field @ '' values must be non-empty and unique'')
        # policy_identifiers field seen vs
      else if v \<in> seen then
        policy_finding_of ''invalid_policy_identifier'' LedgerVerifiable None (field @ '' values must be non-empty and unique'')
        # policy_identifiers field seen vs
      else policy_identifiers field (insert v seen) vs)"

definition validate_verification_policy :: "verification_policy \<Rightarrow> policy_finding list" where
  "validate_verification_policy p =
     ledger_when (vp_schema p \<noteq> verification_policy_schema) ''unsupported_schema'' None
       ''schema identity does not match verification_policy.v0''
     @ concat (map (\<lambda>(field, value). ledger_when (value = []) ''empty_required_field'' None (field @ '' must not be empty''))
         [(''verification_policy_id'', vp_id p), (''provenance.source'', vp_source p), (''provenance.created_by'', vp_created_by p)])
     @ ledger_when (vp_minimum_accepts p = 0 \<or> vp_total_verifiers p = 0 \<or> vp_minimum_accepts p > vp_total_verifiers p)
         ''invalid_quorum'' None ''quorum must satisfy 1 <= minimum_accepts <= total_verifiers''
     @ policy_identifiers ''producer capability'' {} (vp_producer_capability_ids p)
     @ policy_identifiers ''verifier capability'' {} (vp_verifier_capability_ids p)
     @ policy_identifiers ''lens'' {} (vp_lenses p)
     @ policy_identifiers ''anchor'' {} (vp_required_anchors p)
     @ policy_identifiers ''runtime attestation'' {} (vp_allowed_runtime_attestations p)"

definition parse_verification_policy ::
  "(string \<Rightarrow> (string, verification_policy) result) \<Rightarrow> string \<Rightarrow> (policy_finding list, verification_policy) result" where
  "parse_verification_policy from_str input =
     rbind (map_err (\<lambda>message. [policy_finding_of ''invalid_json'' LedgerVerifiable None message]) (from_str input)) (\<lambda>p.
     let findings = validate_verification_policy p in
     if findings = [] then Ok p else Err findings)"

section \<open>Declarations\<close>

datatype verifier_disposition = VdAccept | VdReject | VdAbstain

record declared_producer_lineage =
  dp_actor_id :: string
  dp_capability_ids :: "string list"

record declared_verifier_record =
  dv_verifier_report_id :: string
  dv_actor_id :: string
  dv_capability_ids :: "string list"
  dv_disposition :: verifier_disposition
  dv_runtime_attestations :: "string list"

datatype declared_anchor_observation =
    SourceArtifactHash (da_anchor_id: string) string string
  | ToolObservedTest (da_anchor_id: string) string int

definition declaration_matches :: "declared_anchor_observation \<Rightarrow> bool" where
  "declaration_matches d =
     (case d of
        SourceArtifactHash _ expected observed \<Rightarrow> is_sha256 expected \<and> expected = observed
      | ToolObservedTest _ command_hash exit_code \<Rightarrow> is_sha256 command_hash \<and> exit_code = 0)"

record declared_anchor_reconciliation =
  dar_policy_id :: string
  dar_declared_anchors_match :: bool
  dar_findings :: "policy_finding list"

text \<open>The map of anchors by id, where an empty id is not inserted and a repeated id replaces the earlier one.\<close>

definition insert_anchor ::
  "('a \<Rightarrow> string) \<Rightarrow> (string \<Rightarrow> policy_finding) \<Rightarrow> 'a \<Rightarrow> (string, 'a) fmap \<times> policy_finding list
   \<Rightarrow> (string, 'a) fmap \<times> policy_finding list" where
  "insert_anchor key refuse a st =
     (case st of (m, fs) \<Rightarrow>
      if key a = [] then (m, fs @ [refuse (key a)])
      else (fmupd (key a) a m, if fmlookup m (key a) \<noteq> None then fs @ [refuse (key a)] else fs))"

definition reconcile_declared_anchors ::
  "verification_policy \<Rightarrow> declared_anchor_observation list \<Rightarrow> declared_anchor_reconciliation" where
  "reconcile_declared_anchors p declarations =
     (case fold (insert_anchor da_anchor_id (\<lambda>anchor. policy_finding_of ''duplicate_or_empty_declared_anchor_id'' RuntimeAttested
              (Some anchor) ''declared anchor ids must be unique and non-empty'')) declarations
            (fmempty, validate_verification_policy p) of (by_id, fs) \<Rightarrow>
      let matches = list_all (\<lambda>anchor. case fmlookup by_id anchor of None \<Rightarrow> False | Some d \<Rightarrow> declaration_matches d)
            (vp_required_anchors p) in
      \<lparr>dar_policy_id = vp_id p, dar_declared_anchors_match = matches,
       dar_findings = sort_policy_findings (fs @ attested_when (\<not> matches) ''declared_anchor_mismatch'' None
         ''one or more caller-declared anchors are absent or internally inconsistent'')\<rparr>)"

record declared_lineage_reconciliation =
  dlr_policy_id :: string
  dlr_declarations_well_formed :: bool
  dlr_ledger_requirements_satisfied :: bool
  dlr_findings :: "policy_finding list"

fun declared_verifier_findings :: "string set \<Rightarrow> declared_verifier_record list \<Rightarrow> policy_finding list" where
  "declared_verifier_findings seen [] = []"
| "declared_verifier_findings seen (v # vs) =
     (if dv_verifier_report_id v = [] \<or> dv_actor_id v = [] \<or> list_ex (\<lambda>c. c = []) (dv_capability_ids v) then
        policy_finding_of ''invalid_declared_verifier_lineage'' RuntimeAttested (Some (dv_verifier_report_id v))
          ''declared verifier identities must be unique and non-empty'' # declared_verifier_findings seen vs
      else if dv_verifier_report_id v \<in> seen then
        policy_finding_of ''invalid_declared_verifier_lineage'' RuntimeAttested (Some (dv_verifier_report_id v))
          ''declared verifier identities must be unique and non-empty'' # declared_verifier_findings seen vs
      else declared_verifier_findings (insert (dv_verifier_report_id v) seen) vs)"

definition reconcile_declared_lineage ::
  "verification_policy \<Rightarrow> declared_producer_lineage \<Rightarrow> declared_verifier_record list \<Rightarrow> declared_lineage_reconciliation" where
  "reconcile_declared_lineage p producer verifiers =
     (let findings = sort_policy_findings
            (validate_verification_policy p
             @ attested_when (dp_actor_id producer = [] \<or> list_ex (\<lambda>c. c = []) (dp_capability_ids producer))
                 ''invalid_declared_producer_lineage'' (Some (dp_actor_id producer))
                 ''declared producer actor and capability ids must be non-empty''
             @ declared_verifier_findings {} verifiers
             @ [policy_finding_of ''declared_lineage_not_ledger_authority'' RuntimeAttested None
                  ''caller-declared actor, capability, disposition, and quorum values cannot satisfy ledger requirements'']) in
      \<lparr>dlr_policy_id = vp_id p,
       dlr_declarations_well_formed = (\<not> list_ex (\<lambda>f. vf_code f = ''invalid_declared_producer_lineage''
          \<or> vf_code f = ''invalid_declared_verifier_lineage'') findings),
       dlr_ledger_requirements_satisfied = False, dlr_findings = findings\<rparr>)"

section \<open>Anchor proofs\<close>

datatype anchor_proof_provenance =
    CaseArtifact string string string
  | CaseExecutionTrace string string string string
  | TrustedReferenceAdapter string string

record tool_observed_anchor_proof =
  ap_anchor_id :: string
  ap_observed_content_hash :: string
  ap_provenance :: anchor_proof_provenance

definition artifact_address :: "string \<Rightarrow> string" where
  "artifact_address content_hash = ''artifact:sha256-'' @ content_hash"

definition provenance_is_well_formed :: "tool_observed_anchor_proof \<Rightarrow> bool" where
  "provenance_is_well_formed a \<longleftrightarrow>
     is_sha256 (ap_observed_content_hash a) \<and>
     (case ap_provenance a of
        CaseArtifact space revision artifact \<Rightarrow>
          space \<noteq> [] \<and> revision \<noteq> [] \<and> artifact = artifact_address (ap_observed_content_hash a)
      | CaseExecutionTrace space revision trace content \<Rightarrow>
          space \<noteq> [] \<and> revision \<noteq> [] \<and> trace \<noteq> [] \<and> content = ap_observed_content_hash a
      | TrustedReferenceAdapter adapter artifact \<Rightarrow>
          adapter \<noteq> [] \<and> artifact = artifact_address (ap_observed_content_hash a))"

definition validate_observation_identity :: "string \<Rightarrow> policy_finding list" where
  "validate_observation_identity anchor =
     ledger_when (anchor = []) ''empty_observed_anchor_id'' None ''tool-observed anchor id must not be empty''"

definition observe_case_artifact ::
  "verification_env \<Rightarrow> case_space \<Rightarrow> string \<Rightarrow> string \<Rightarrow> string \<Rightarrow> (policy_finding list, tool_observed_anchor_proof) result" where
  "observe_case_artifact E cs anchor artifact bytes =
     (let content_hash = ve_digest E bytes;
          cell_matches = list_ex (\<lambda>cell. cell_id cell = artifact \<and> cell_space_id cell = space_id cs
            \<and> cell_type cell = CtCustom ''artifact'' \<and> cell_lifecycle cell \<in> {LcResolved, LcAccepted}
            \<and> get_str (cell_metadata cell) ''content_hash'' = Some content_hash) (case_cells cs);
          findings = validate_observation_identity anchor
            @ ledger_when (\<not> is_ok (evaluate_native_case (ve_env E) cs)) ''case_artifact_space_invalid'' (Some anchor)
                ''artifact observation requires a canonically valid CaseGraphen space''
            @ ledger_when (artifact \<noteq> artifact_address content_hash \<or> \<not> cell_matches) ''case_artifact_content_mismatch'' (Some anchor)
                ''artifact id, ledger cell, metadata hash, and observed bytes must match exactly'' in
      if findings = [] then
        Ok \<lparr>ap_anchor_id = anchor, ap_observed_content_hash = content_hash,
            ap_provenance = CaseArtifact (case_space_id cs) (revision_id (cs_revision cs)) artifact\<rparr>
      else Err findings)"

record anchored_execution_trace_bytes =
  ab_trace :: string
  ab_worker_report :: string
  ab_stdout :: string
  ab_stderr :: string

text \<open>The anchor entry of a trace in the log, looked up by trace id and trace hash.\<close>

definition is_trace_anchor :: "execution_trace \<Rightarrow> string \<Rightarrow> morphism_log_entry \<Rightarrow> bool" where
  "is_trace_anchor trace trace_hash entry \<longleftrightarrow>
     morphism_type (entry_morphism entry) = MtCustom ''execution_trace_anchor'' \<and>
     mor_review_status (entry_morphism entry) = RsAccepted \<and>
     get_str (mor_metadata (entry_morphism entry)) ''trace_id'' = Some (xt_trace_id trace) \<and>
     get_str (mor_metadata (entry_morphism entry)) ''trace_content_hash'' = Some trace_hash"

definition trace_provenance_valid ::
  "verification_env \<Rightarrow> case_space \<Rightarrow> anchored_execution_trace_bytes \<Rightarrow> execution_trace \<Rightarrow> bool" where
  "trace_provenance_valid E cs files trace \<longleftrightarrow>
     xt_schema trace = execution_trace_schema \<and> xt_schema_version trace = execution_record_schema_version \<and>
     xt_dispatch_state trace = DispatchCompleted \<and> xt_case_space_id trace = case_space_id cs \<and>
     operation_scope_id (xt_operation_gate trace) = case_space_id cs \<and>
     ve_digest E (ab_worker_report files) = xt_worker_report_content_hash trace \<and>
     ve_digest E (ab_stdout files) = xt_stdout_content_hash trace \<and>
     ve_digest E (ab_stderr files) = xt_stderr_content_hash trace \<and>
     (case find (is_trace_anchor trace (ve_digest E (ab_trace files))) (morphism_log cs) of
        None \<Rightarrow> False
      | Some entry \<Rightarrow> entry_id entry \<in> set (xt_appended_entry_ids trace)
          \<and> xt_result_revision_id trace = Some (entry_target_revision_id entry))"

definition observe_case_execution_trace ::
  "verification_env \<Rightarrow> case_space \<Rightarrow> string \<Rightarrow> anchored_execution_trace_bytes
   \<Rightarrow> (policy_finding list, tool_observed_anchor_proof) result" where
  "observe_case_execution_trace E cs anchor files =
     (let start = validate_observation_identity anchor
            @ ledger_when (\<not> is_ok (evaluate_native_case (ve_env E) cs)) ''case_trace_space_invalid'' (Some anchor)
                ''trace observation requires a canonically valid CaseGraphen space'';
          trace_hash = ve_digest E (ab_trace files) in
      case ve_trace_of E (ab_trace files) of
        Inl message \<Rightarrow>
          Err (start @ [policy_finding_of ''invalid_execution_trace_bytes'' LedgerVerifiable (Some anchor) message])
      | Inr trace \<Rightarrow>
          let findings = start @ ledger_when (\<not> trace_provenance_valid E cs files trace)
                ''execution_trace_provenance_mismatch'' (Some anchor)
                ''trace schema, anchored identity, result revision, and committed output bytes must all match'' in
          if findings = [] then
            Ok \<lparr>ap_anchor_id = anchor, ap_observed_content_hash = trace_hash,
                ap_provenance = CaseExecutionTrace (case_space_id cs) (revision_id (cs_revision cs)) (xt_trace_id trace) trace_hash\<rparr>
          else Err findings)"

definition observe_trusted_reference_artifact ::
  "verification_env \<Rightarrow> string \<Rightarrow> string \<Rightarrow> string \<Rightarrow> string \<Rightarrow> (policy_finding list, tool_observed_anchor_proof) result" where
  "observe_trusted_reference_artifact E adapter anchor artifact bytes =
     (let content_hash = ve_digest E bytes;
          findings = validate_observation_identity anchor
            @ ledger_when (adapter = [] \<or> artifact \<noteq> artifact_address content_hash) ''trusted_reference_artifact_mismatch''
                (Some anchor) ''trusted adapter identity and exact content-addressed bytes are required'' in
      if findings = [] then
        Ok \<lparr>ap_anchor_id = anchor, ap_observed_content_hash = content_hash,
            ap_provenance = TrustedReferenceAdapter adapter artifact\<rparr>
      else Err findings)"

end
