(* ===== verification/Verification_Lineage.thy ===== *)
theory Verification_Lineage
  imports Verification_Policy
begin

text \<open>
  The second half of \<open>src/verification_policy.rs\<close>: lineage bindings and their derivation from the replayed ledger, for a
  topology run and for a run and a review of the command line; the checks of a binding against the current case space;
  and the reconciliation of a policy with a producer, verifiers and anchors. A failing \<open>expect\<close> is \<open>None\<close>.
\<close>

section \<open>Lineage bindings\<close>

datatype ledger_lineage_subject_kind = ExecutionTopologySubject | NativeExecutionTraceSubject

datatype native_cli_lineage_provenance =
    CliProducer (cp_trace_id: string) (cp_worker_report_id: string) (cp_evidence_attach_morphism_id: string)
      (cp_stdout_content_hash: string)
  | CliVerifier

record ledger_lineage_binding =
  lb_case_space_id :: string
  lb_observed_case_revision_id :: string
  lb_case_revision_id :: string
  lb_claim_cell_id :: string
  lb_subject_kind :: ledger_lineage_subject_kind
  lb_subject_content_hash :: string
  lb_topology_content_hash :: "string option"
  lb_node_id :: string
  lb_attempt_id :: string
  lb_actor_id :: string
  lb_capability_ids :: "string list"
  lb_operation_gate :: operation_gate
  lb_operation_gate_content_hash :: string
  lb_runtime_report_content_hash :: string
  lb_execution_trace_content_hash :: string
  lb_authority_morphism_id :: string
  lb_native_cli_provenance :: "native_cli_lineage_provenance option"

record ledger_derived_verifier_proof =
  vr_binding :: ledger_lineage_binding
  vr_verifier_report_id :: string
  vr_disposition :: verifier_disposition
  vr_runtime_attestations :: "string list"

record ledger_lineage_derivation =
  ld_case_space :: case_space
  ld_claim_cell_id :: string
  ld_topology_content_hash :: string
  ld_node_id :: string
  ld_attempt_id :: string
  ld_operation_gate :: operation_gate
  ld_authority_morphism_id :: string
  ld_runtime_report_bytes :: string
  ld_execution_trace_bytes :: string

definition lineage_metadata_matches :: "metadata \<Rightarrow> ledger_lineage_binding \<Rightarrow> bool" where
  "lineage_metadata_matches md b =
     list_all (\<lambda>(key, expected). get_str md key = Some expected)
       [(''case_revision_id'', lb_case_revision_id b), (''claim_cell_id'', lb_claim_cell_id b),
        (''topology_content_hash'', case lb_topology_content_hash b of None \<Rightarrow> [] | Some h \<Rightarrow> h),
        (''node_id'', lb_node_id b), (''attempt_id'', lb_attempt_id b),
        (''operation_gate_content_hash'', lb_operation_gate_content_hash b),
        (''runtime_report_content_hash'', lb_runtime_report_content_hash b),
        (''execution_trace_content_hash'', lb_execution_trace_content_hash b)]"

definition decided_review :: "env \<Rightarrow> case_morphism \<Rightarrow> bool" where
  "decided_review e m \<longleftrightarrow>
     (case canonical_review e m of
        None \<Rightarrow> False
      | Some review \<Rightarrow> cr_action review \<in> {RaAccept, RaReject} \<and> cr_outcome review \<in> {RsAccepted, RsRejected})"

definition lineage_authority_matches ::
  "env \<Rightarrow> morphism_log_entry \<Rightarrow> ledger_lineage_binding \<Rightarrow> string \<Rightarrow> execution_trace option \<Rightarrow> bool" where
  "lineage_authority_matches e entry b expected_morphism trace \<longleftrightarrow>
     (let m = entry_morphism entry in
      entry_actor_id entry = lb_actor_id b \<and> mor_review_status m = RsAccepted \<and> lineage_metadata_matches (mor_metadata m) b \<and>
      (if expected_morphism = ''review'' then
         morphism_type m = MtReview \<and> decided_review e m \<and>
         (case trace of
            None \<Rightarrow> True
          | Some t \<Rightarrow> Some (xt_base_revision_id t) = entry_source_revision_id entry
              \<and> xt_result_revision_id t = Some (entry_target_revision_id entry)
              \<and> entry_id entry \<in> set (xt_appended_entry_ids t))
       else if expected_morphism = ''execution_trace_anchor'' then
         morphism_type m = MtCustom ''execution_trace_anchor'' \<and>
         (case trace of
            None \<Rightarrow> True
          | Some t \<Rightarrow> xt_result_revision_id t = Some (entry_target_revision_id entry)
              \<and> entry_id entry \<in> set (xt_appended_entry_ids t)
              \<and> get_str (mor_metadata m) ''trace_id'' = Some (xt_trace_id t)
              \<and> get_str (mor_metadata m) ''trace_content_hash'' = Some (lb_execution_trace_content_hash b))
       else False))"

definition derived_binding ::
  "verification_env \<Rightarrow> ledger_lineage_derivation \<Rightarrow> string option \<Rightarrow> execution_trace option \<Rightarrow> ledger_lineage_binding" where
  "derived_binding E i subject_revision trace =
     \<lparr>lb_case_space_id = case_space_id (ld_case_space i),
      lb_observed_case_revision_id = revision_id (cs_revision (ld_case_space i)),
      lb_case_revision_id = (case subject_revision of
         Some r \<Rightarrow> r | None \<Rightarrow> (case trace of Some t \<Rightarrow> xt_base_revision_id t | None \<Rightarrow> [])),
      lb_claim_cell_id = ld_claim_cell_id i, lb_subject_kind = ExecutionTopologySubject,
      lb_subject_content_hash = ld_topology_content_hash i, lb_topology_content_hash = Some (ld_topology_content_hash i),
      lb_node_id = ld_node_id i, lb_attempt_id = ld_attempt_id i, lb_actor_id = gate_actor_id (ld_operation_gate i),
      lb_capability_ids = capability_ids (ld_operation_gate i), lb_operation_gate = ld_operation_gate i,
      lb_operation_gate_content_hash = ve_digest E (ve_gate_bytes E (ld_operation_gate i)),
      lb_runtime_report_content_hash = ve_digest E (ld_runtime_report_bytes i),
      lb_execution_trace_content_hash = ve_digest E (ld_execution_trace_bytes i),
      lb_authority_morphism_id = ld_authority_morphism_id i, lb_native_cli_provenance = None\<rparr>"

text \<open>The findings of \<open>derive_lineage_binding\<close>, in the order of its checks.\<close>

definition gate_findings :: "verification_env \<Rightarrow> ledger_lineage_derivation \<Rightarrow> string \<Rightarrow> policy_finding list" where
  "gate_findings E i expected_operation =
     (case check_operation_gate (ve_env E) (ld_case_space i) (ld_operation_gate i) expected_operation of
        Inr _ \<Rightarrow> []
      | Inl error \<Rightarrow> [\<lparr>vf_code = ''lineage_operation_gate_invalid'', vf_level = LedgerVerifiable,
          vf_subject_id = Some (gate_actor_id (ld_operation_gate i)), vf_detail = DetailGate error\<rparr>])"

definition runtime_report_findings :: "verification_env \<Rightarrow> ledger_lineage_derivation \<Rightarrow> policy_finding list" where
  "runtime_report_findings E i =
     (case ve_runtime_report_of E (ld_runtime_report_bytes i) of
        Inl message \<Rightarrow> [policy_finding_of ''lineage_runtime_report_invalid'' LedgerVerifiable None message]
      | Inr r \<Rightarrow> map (\<lambda>f. policy_finding_of ''lineage_runtime_report_invalid'' LedgerVerifiable (Some (rr_report_id r))
          (rf_code f @ '': '' @ rf_detail f)) (validate_runtime_node_report r))"

definition claim_bound :: "ledger_lineage_derivation \<Rightarrow> bool" where
  "claim_bound i =
     list_ex (\<lambda>cell. cell_id cell = ld_claim_cell_id i
       \<and> get_str (cell_metadata cell) ''execution_topology_content_hash'' = Some (ld_topology_content_hash i))
       (case_cells (ld_case_space i))"

definition report_bound :: "ledger_lineage_derivation \<Rightarrow> runtime_node_report \<Rightarrow> bool" where
  "report_bound i r \<longleftrightarrow>
     rr_schema r = runtime_node_report_schema \<and> rr_schema_version r = runtime_node_report_schema_version \<and>
     rr_runtime_graph_content_hash r = ld_topology_content_hash i \<and> rr_node_id r = ld_node_id i \<and>
     rr_attempt_id r = ld_attempt_id i"

definition trace_bound :: "ledger_lineage_derivation \<Rightarrow> execution_trace \<Rightarrow> bool" where
  "trace_bound i t \<longleftrightarrow>
     xt_schema t = execution_trace_schema \<and> xt_schema_version t = execution_record_schema_version \<and>
     xt_case_space_id t = case_space_id (ld_case_space i) \<and> xt_operation_gate t = ld_operation_gate i \<and>
     xt_dispatch_state t = DispatchCompleted"

definition authority_entry :: "ledger_lineage_derivation \<Rightarrow> morphism_log_entry option" where
  "authority_entry i =
     find (\<lambda>entry. entry_morphism_id entry = ld_authority_morphism_id i \<and> entry_actor_id entry = gate_actor_id (ld_operation_gate i)
       \<and> mor_review_status (entry_morphism entry) = RsAccepted) (morphism_log (ld_case_space i))"

definition derive_lineage_binding ::
  "verification_env \<Rightarrow> ledger_lineage_derivation \<Rightarrow> string \<Rightarrow> string \<Rightarrow> string option
   \<Rightarrow> (policy_finding list, ledger_lineage_binding \<times> runtime_node_report) result" where
  "derive_lineage_binding E i expected_operation expected_morphism subject_revision =
     (let report = (case ve_runtime_report_of E (ld_runtime_report_bytes i) of Inl _ \<Rightarrow> None | Inr r \<Rightarrow> Some r);
          trace = (case ve_trace_of E (ld_execution_trace_bytes i) of Inl _ \<Rightarrow> None | Inr t \<Rightarrow> Some t);
          binding = derived_binding E i subject_revision trace;
          findings =
            ledger_when (\<not> is_ok (evaluate_native_case (ve_env E) (ld_case_space i))) ''lineage_case_space_invalid'' None
              ''lineage proof requires a canonically valid CaseGraphen space''
            @ gate_findings E i expected_operation
            @ runtime_report_findings E i
            @ (case ve_trace_of E (ld_execution_trace_bytes i) of
                 Inl message \<Rightarrow> [policy_finding_of ''lineage_execution_trace_invalid'' LedgerVerifiable None message]
               | Inr _ \<Rightarrow> [])
            @ ledger_when (\<not> claim_bound i) ''lineage_claim_binding_mismatch'' (Some (ld_claim_cell_id i))
                ''claim cell and exact topology content hash must exist in the current ledger revision''
            @ (case report of None \<Rightarrow> [] | Some r \<Rightarrow>
                 ledger_when (\<not> report_bound i r) ''lineage_runtime_binding_mismatch'' (Some (rr_report_id r))
                   ''runtime report must match the exact topology, node, and attempt binding'')
            @ (case trace of None \<Rightarrow> [] | Some t \<Rightarrow>
                 ledger_when (\<not> trace_bound i t) ''lineage_trace_binding_mismatch'' (Some (xt_trace_id t))
                   ''execution trace must bind the exact case space, canonical gate, and completed dispatch'')
            @ ledger_when (case authority_entry i of
                  None \<Rightarrow> True
                | Some entry \<Rightarrow> \<not> lineage_authority_matches (ve_env E) entry binding expected_morphism trace)
                ''lineage_authority_morphism_mismatch'' (Some (ld_authority_morphism_id i))
                ''an accepted canonical dispatch/review morphism must bind the shared subject revision and every lineage content hash'' in
      case report of
        None \<Rightarrow> Err findings
      | Some r \<Rightarrow> if findings = [] then Ok (binding, r) else Err findings)"

definition derive_ledger_producer_proof ::
  "verification_env \<Rightarrow> ledger_lineage_derivation \<Rightarrow> (policy_finding list, ledger_lineage_binding) result" where
  "derive_ledger_producer_proof E i =
     map_sum id fst (derive_lineage_binding E i ''dispatch'' ''execution_trace_anchor'' None)"

section \<open>Proofs from a run and a review of the command line\<close>

definition worker_output_matches :: "verification_env \<Rightarrow> worker_report \<Rightarrow> worker_output_name \<Rightarrow> string \<Rightarrow> bool" where
  "worker_output_matches E r name bytes =
     list_ex (\<lambda>out. wo_name out = name \<and> \<not> wo_incomplete out \<and> wo_content_hash out = ve_digest E bytes
       \<and> wo_byte_len out = length bytes) (wr_outputs r)"

record native_cli_run_lineage_derivation =
  nd_case_space :: case_space
  nd_claim_cell_id :: string
  nd_worker_report_bytes :: string
  nd_execution_trace_bytes :: string
  nd_stdout_bytes :: string
  nd_stderr_bytes :: string

definition run_files_match ::
  "verification_env \<Rightarrow> native_cli_run_lineage_derivation \<Rightarrow> worker_report \<Rightarrow> execution_trace \<Rightarrow> bool" where
  "run_files_match E i r t \<longleftrightarrow>
     wr_schema r = worker_report_schema \<and> wr_schema_version r = execution_record_schema_version \<and>
     wr_trust_boundary r = worker_report_trust_boundary \<and>
     xt_schema t = execution_trace_schema \<and> xt_schema_version t = execution_record_schema_version \<and>
     xt_dispatch_state t = DispatchCompleted \<and> xt_case_space_id t = case_space_id (nd_case_space i) \<and>
     xt_worker_report_id t = wr_report_id r \<and>
     xt_worker_report_content_hash t = ve_digest E (nd_worker_report_bytes i) \<and>
     xt_stdout_content_hash t = ve_digest E (nd_stdout_bytes i) \<and>
     xt_stderr_content_hash t = ve_digest E (nd_stderr_bytes i) \<and>
     xt_plan_id t = wr_plan_id r \<and> xt_step_id t = wr_step_id r \<and> xt_work_cell_id t = wr_work_cell_id r \<and>
     xt_binding_id t = wr_binding_id r \<and> xt_binding_content_hash t = wr_binding_content_hash r \<and>
     worker_output_matches E r WoStdout (nd_stdout_bytes i) \<and> worker_output_matches E r WoStderr (nd_stderr_bytes i)"

definition worker_claim_cell :: "string \<Rightarrow> string \<Rightarrow> string \<Rightarrow> string \<Rightarrow> case_cell \<Rightarrow> bool" where
  "worker_claim_cell claim worker_report trace stdout cell \<longleftrightarrow>
     cell_id cell = claim \<and> cell_type cell = CtEvidence \<and>
     get_str (cell_metadata cell) ''worker_report_id'' = Some worker_report \<and>
     get_str (cell_metadata cell) ''trace_id'' = Some trace \<and>
     get_str (cell_metadata cell) ''content_hash'' = Some stdout"

definition attaches_evidence :: "string \<Rightarrow> worker_report \<Rightarrow> execution_trace \<Rightarrow> morphism_log_entry \<Rightarrow> bool" where
  "attaches_evidence claim r t entry \<longleftrightarrow>
     morphism_type (entry_morphism entry) = MtEvidenceAttach \<and> claim \<in> set (mor_added_ids (entry_morphism entry)) \<and>
     wr_report_id r \<in> set (mor_source_ids (entry_morphism entry)) \<and>
     get_str (mor_metadata (entry_morphism entry)) ''trace_id'' = Some (xt_trace_id t) \<and>
     entry_id entry \<in> set (xt_appended_entry_ids t)"

definition anchors_run :: "string \<Rightarrow> execution_trace \<Rightarrow> morphism_log_entry \<Rightarrow> bool" where
  "anchors_run trace_hash t entry \<longleftrightarrow>
     is_trace_anchor t trace_hash entry \<and> entry_actor_id entry = gate_actor_id (xt_operation_gate t) \<and>
     entry_id entry \<in> set (xt_appended_entry_ids t) \<and> xt_result_revision_id t = Some (entry_target_revision_id entry)"

definition cli_run_binding ::
  "verification_env \<Rightarrow> native_cli_run_lineage_derivation \<Rightarrow> worker_report \<Rightarrow> execution_trace
   \<Rightarrow> morphism_log_entry \<Rightarrow> morphism_log_entry \<Rightarrow> ledger_lineage_binding" where
  "cli_run_binding E i r t attach anchor =
     \<lparr>lb_case_space_id = case_space_id (nd_case_space i),
      lb_observed_case_revision_id = revision_id (cs_revision (nd_case_space i)),
      lb_case_revision_id = xt_base_revision_id t, lb_claim_cell_id = nd_claim_cell_id i,
      lb_subject_kind = NativeExecutionTraceSubject, lb_subject_content_hash = ve_digest E (nd_execution_trace_bytes i),
      lb_topology_content_hash = None, lb_node_id = xt_step_id t, lb_attempt_id = xt_trace_id t,
      lb_actor_id = gate_actor_id (xt_operation_gate t), lb_capability_ids = capability_ids (xt_operation_gate t),
      lb_operation_gate = xt_operation_gate t,
      lb_operation_gate_content_hash = ve_digest E (ve_gate_bytes E (xt_operation_gate t)),
      lb_runtime_report_content_hash = ve_digest E (nd_worker_report_bytes i),
      lb_execution_trace_content_hash = ve_digest E (nd_execution_trace_bytes i),
      lb_authority_morphism_id = entry_morphism_id anchor,
      lb_native_cli_provenance = Some (CliProducer (xt_trace_id t) (wr_report_id r) (entry_morphism_id attach)
        (ve_digest E (nd_stdout_bytes i)))\<rparr>"

definition decode_finding :: "string \<Rightarrow> (string, 'a) result \<Rightarrow> policy_finding list" where
  "decode_finding code decoded =
     (case decoded of Inl message \<Rightarrow> [policy_finding_of code LedgerVerifiable None message] | Inr _ \<Rightarrow> [])"

definition derive_native_cli_run_producer_proof ::
  "verification_env \<Rightarrow> native_cli_run_lineage_derivation \<Rightarrow> (policy_finding list, ledger_lineage_binding) result" where
  "derive_native_cli_run_producer_proof E i =
     (let cs = nd_case_space i; claim = nd_claim_cell_id i;
          start = ledger_when (\<not> is_ok (evaluate_native_case (ve_env E) cs)) ''native_cli_lineage_case_invalid'' None
              ''native CLI lineage requires a canonically valid replayed case space''
            @ decode_finding ''native_cli_worker_report_invalid'' (ve_worker_report_of E (nd_worker_report_bytes i))
            @ decode_finding ''native_cli_execution_trace_invalid'' (ve_trace_of E (nd_execution_trace_bytes i)) in
      case (ve_worker_report_of E (nd_worker_report_bytes i), ve_trace_of E (nd_execution_trace_bytes i)) of
        (Inr r, Inr t) \<Rightarrow>
          let attach = find (attaches_evidence claim r t) (morphism_log cs);
              anchor = find (anchors_run (ve_digest E (nd_execution_trace_bytes i)) t) (morphism_log cs);
              findings = start
                @ ledger_when (\<not> run_files_match E i r t) ''native_cli_run_artifact_mismatch'' (Some (xt_trace_id t))
                    ''worker report, execution trace, stdout, and stderr must be the exact mutually bound files emitted by one completed CLI run''
                @ ledger_when (\<not> is_ok (check_operation_gate (ve_env E) cs (xt_operation_gate t) ''dispatch''))
                    ''native_cli_dispatch_gate_invalid'' (Some (gate_actor_id (xt_operation_gate t)))
                    ''the trace's dispatch gate must still be authorized by the replayed ledger''
                @ ledger_when (\<not> list_ex (worker_claim_cell claim (wr_report_id r) (xt_trace_id t) (ve_digest E (nd_stdout_bytes i)))
                      (case_cells cs) \<or> attach = None \<or> anchor = None)
                    ''native_cli_run_ledger_join_mismatch'' (Some claim)
                    ''the replayed ledger must contain the exact worker evidence attachment and tool-minted trace anchor for these retained bytes'' in
          (case (attach, anchor) of
             (Some at_entry, Some an_entry) \<Rightarrow>
               if findings = [] then Ok (cli_run_binding E i r t at_entry an_entry) else Err findings
           | _ \<Rightarrow> Err findings)
      | _ \<Rightarrow> Err start)"

definition is_cli_producer :: "ledger_lineage_binding \<Rightarrow> bool" where
  "is_cli_producer b \<longleftrightarrow>
     (case lb_native_cli_provenance b of Some provenance \<Rightarrow> provenance \<noteq> CliVerifier | None \<Rightarrow> False)"

definition disposition_of_action :: "review_action \<Rightarrow> verifier_disposition" where
  "disposition_of_action action =
     (case action of RaAccept \<Rightarrow> VdAccept | RaReject \<Rightarrow> VdReject | _ \<Rightarrow> VdAbstain)"

text \<open>The gate recorded in a review morphism.\<close>

definition recorded_gate :: "verification_env \<Rightarrow> morphism_log_entry \<Rightarrow> operation_gate option" where
  "recorded_gate E entry = Option.bind (fmlookup (mor_metadata (entry_morphism entry)) ''operation_gate'') (ve_gate_of E)"

definition latest_review_is :: "case_space \<Rightarrow> string \<Rightarrow> morphism_log_entry \<Rightarrow> bool" where
  "latest_review_is cs claim entry \<longleftrightarrow>
     map_option entry_morphism_id (fmlookup (latest_evidence_review_entries cs) claim) = Some (entry_morphism_id entry)"

definition decides_claim :: "string \<Rightarrow> canonical_review \<Rightarrow> bool" where
  "decides_claim claim review \<longleftrightarrow> cr_target_id review = claim \<and> cr_action review \<in> {RaAccept, RaReject}"

definition derive_native_cli_review_verifier_proof ::
  "verification_env \<Rightarrow> case_space \<Rightarrow> ledger_lineage_binding \<Rightarrow> string
   \<Rightarrow> (policy_finding list, ledger_derived_verifier_proof) result option" where
  "derive_native_cli_review_verifier_proof E cs producer review_morphism =
     (let refuse = (\<lambda>code detail. Some (Err [policy_finding_of code LedgerVerifiable (Some review_morphism) detail])) in
      if \<not> is_cli_producer producer then
        refuse ''native_cli_verifier_requires_native_producer''
          ''canonical CLI review lineage must extend a native CLI run producer proof''
      else case find (\<lambda>entry. entry_morphism_id entry = review_morphism) (morphism_log cs) of
        None \<Rightarrow> refuse ''native_cli_review_authority_missing'' ''review morphism is absent from the replayed ledger''
      | Some entry \<Rightarrow>
          (case (canonical_review (ve_env E) (entry_morphism entry), recorded_gate E entry) of
             (Some review, Some gate) \<Rightarrow>
               if decides_claim (lb_claim_cell_id producer) review \<and> entry_actor_id entry = gate_actor_id gate
                  \<and> is_ok (check_operation_gate (ve_env E) cs gate ''review'')
                  \<and> latest_review_is cs (lb_claim_cell_id producer) entry then
                 map_option (\<lambda>review_id.
                   Ok \<lparr>vr_binding = producer\<lparr>lb_observed_case_revision_id := revision_id (cs_revision cs),
                         lb_actor_id := gate_actor_id gate, lb_capability_ids := capability_ids gate,
                         lb_operation_gate_content_hash := ve_digest E (ve_gate_bytes E gate), lb_operation_gate := gate,
                         lb_authority_morphism_id := entry_morphism_id entry, lb_native_cli_provenance := Some CliVerifier\<rparr>,
                       vr_verifier_report_id = review_id, vr_disposition = disposition_of_action (cr_action review),
                       vr_runtime_attestations = []\<rparr>)
                   (get_str (mor_metadata (entry_morphism entry)) ''review_id'')
               else refuse ''native_cli_review_authority_invalid''
                 ''the exact latest canonical evidence review and its authorized review gate are required''
           | _ \<Rightarrow> refuse ''native_cli_review_authority_invalid''
                 ''the exact latest canonical evidence review and its authorized review gate are required''))"

definition same_subject :: "ledger_lineage_binding \<Rightarrow> ledger_lineage_binding \<Rightarrow> bool" where
  "same_subject b c \<longleftrightarrow>
     lb_case_space_id b = lb_case_space_id c \<and> lb_claim_cell_id b = lb_claim_cell_id c \<and>
     lb_subject_kind b = lb_subject_kind c \<and> lb_subject_content_hash b = lb_subject_content_hash c \<and>
     lb_topology_content_hash b = lb_topology_content_hash c \<and> lb_node_id b = lb_node_id c \<and>
     lb_attempt_id b = lb_attempt_id c"

definition derive_ledger_verifier_proof ::
  "verification_env \<Rightarrow> ledger_lineage_derivation \<Rightarrow> ledger_lineage_binding
   \<Rightarrow> (policy_finding list, ledger_derived_verifier_proof) result option" where
  "derive_ledger_verifier_proof E i producer =
     (case derive_lineage_binding E i ''review'' ''review'' (Some (lb_case_revision_id producer)) of
        Inl fs \<Rightarrow> Some (Err fs)
      | Inr (b, report) \<Rightarrow>
          if \<not> same_subject b producer then
            Some (Err [policy_finding_of ''verifier_lineage_binding_mismatch'' LedgerVerifiable (Some (rr_report_id report))
              ''verifier proof must bind the canonical producer subject, claim, topology, node, and attempt''])
          else
            Option.bind (find (\<lambda>entry. entry_morphism_id entry = ld_authority_morphism_id i) (morphism_log (ld_case_space i)))
              (\<lambda>entry. map_option (\<lambda>review.
                 if cr_target_id review \<noteq> ld_claim_cell_id i then
                   Err [policy_finding_of ''verifier_review_target_mismatch'' LedgerVerifiable (Some (cr_target_id review))
                     ''canonical verifier review must target the exact claim bound by the lineage proof'']
                 else if \<not> latest_review_is (ld_case_space i) (ld_claim_cell_id i) entry then
                   Err [policy_finding_of ''verifier_review_not_current'' LedgerVerifiable (Some (entry_morphism_id entry))
                     ''verifier proof requires the exact latest canonical evidence review entry'']
                 else Ok \<lparr>vr_binding = b, vr_verifier_report_id = rr_report_id report,
                        vr_disposition = disposition_of_action (cr_action review), vr_runtime_attestations = []\<rparr>)
               (canonical_review (ve_env E) (entry_morphism entry))))"

section \<open>Lineage in the current ledger\<close>

definition claim_current :: "ledger_lineage_binding \<Rightarrow> case_cell \<Rightarrow> bool" where
  "claim_current b cell \<longleftrightarrow>
     cell_id cell = lb_claim_cell_id b \<and>
     (case lb_native_cli_provenance b of
        Some (CliProducer trace worker_report _ stdout) \<Rightarrow> worker_claim_cell (lb_claim_cell_id b) worker_report trace stdout cell
      | Some CliVerifier \<Rightarrow> cell_type cell = CtEvidence
      | None \<Rightarrow> get_str (cell_metadata cell) ''execution_topology_content_hash'' = lb_topology_content_hash b)"

definition authority_current ::
  "verification_env \<Rightarrow> case_space \<Rightarrow> ledger_lineage_binding \<Rightarrow> string \<Rightarrow> morphism_log_entry \<Rightarrow> bool" where
  "authority_current E cs b expected_morphism entry \<longleftrightarrow>
     (let m = entry_morphism entry in
      case lb_native_cli_provenance b of
        Some (CliProducer trace _ attach _) \<Rightarrow>
          morphism_type m = MtCustom ''execution_trace_anchor'' \<and> mor_review_status m = RsAccepted \<and>
          entry_actor_id entry = lb_actor_id b \<and> get_str (mor_metadata m) ''trace_id'' = Some trace \<and>
          get_str (mor_metadata m) ''trace_content_hash'' = Some (lb_execution_trace_content_hash b) \<and>
          list_ex (\<lambda>candidate. entry_morphism_id candidate = attach
            \<and> morphism_type (entry_morphism candidate) = MtEvidenceAttach
            \<and> lb_claim_cell_id b \<in> set (mor_added_ids (entry_morphism candidate))) (morphism_log cs)
      | Some CliVerifier \<Rightarrow>
          (case canonical_review (ve_env E) m of None \<Rightarrow> False | Some review \<Rightarrow> decides_claim (lb_claim_cell_id b) review) \<and>
          entry_actor_id entry = lb_actor_id b
      | None \<Rightarrow> lineage_authority_matches (ve_env E) entry b expected_morphism None)"

definition expected_status :: "verifier_disposition \<Rightarrow> review_status option" where
  "expected_status disposition =
     (case disposition of VdAccept \<Rightarrow> Some RsAccepted | VdReject \<Rightarrow> Some RsRejected | VdAbstain \<Rightarrow> None)"

definition current_lineage_findings ::
  "verification_env \<Rightarrow> case_space \<Rightarrow> ledger_lineage_binding \<Rightarrow> string \<Rightarrow> string \<Rightarrow> verifier_disposition option
   \<Rightarrow> policy_finding list" where
  "current_lineage_findings E cs b expected_operation expected_morphism disposition =
     (if \<not> is_ok (evaluate_native_case (ve_env E) cs) \<or> case_space_id cs \<noteq> lb_case_space_id b then
        [policy_finding_of ''lineage_current_case_mismatch'' LedgerVerifiable (Some (lb_authority_morphism_id b))
           ''policy reconciliation requires the current canonical case space'']
      else
        ledger_when (\<not> is_ok (check_operation_gate (ve_env E) cs (lb_operation_gate b) expected_operation))
          ''lineage_current_operation_gate_invalid'' (Some (lb_actor_id b))
          ''the proof's actor/capability gate is no longer valid in the current ledger''
        @ ledger_when (\<not> list_ex (claim_current b) (case_cells cs)) ''lineage_current_claim_mismatch''
            (Some (lb_claim_cell_id b)) ''the proof's claim/topology binding is not present in the current ledger''
        @ ledger_when (case find (\<lambda>entry. entry_morphism_id entry = lb_authority_morphism_id b) (morphism_log cs) of
              None \<Rightarrow> True | Some entry \<Rightarrow> \<not> authority_current E cs b expected_morphism entry)
            ''lineage_current_authority_invalid'' (Some (lb_authority_morphism_id b))
            ''the proof's canonical authority morphism is absent or no longer matches''
        @ (case disposition of
             None \<Rightarrow> []
           | Some d \<Rightarrow>
               ledger_when (latest_evidence_review_status (ve_env E) cs (lb_claim_cell_id b) \<noteq> expected_status d)
                 ''verifier_review_no_longer_effective'' (Some (lb_authority_morphism_id b))
                 ''the current log-derived review status no longer supports this verifier disposition''))"

section \<open>Reconciliation of a policy\<close>

record ledger_derived_lineage_scope =
  ls_case_space_id :: string
  ls_case_revision_id :: string
  ls_claim_cell_id :: string
  ls_subject_kind :: ledger_lineage_subject_kind
  ls_subject_content_hash :: string
  ls_topology_content_hash :: "string option"
  ls_node_id :: string
  ls_attempt_id :: string

record verification_policy_result =
  pr_schema :: string
  pr_policy_id :: string
  pr_ledger_scope :: ledger_derived_lineage_scope
  pr_ledger_requirements_satisfied :: bool
  pr_runtime_attestations_satisfied :: bool
  pr_anchors_satisfied :: bool
  pr_quorum_satisfied :: bool
  pr_policy_satisfied :: bool
  pr_independent_minds_proven :: bool
  pr_fresh_context_proven :: bool
  pr_findings :: "policy_finding list"

text \<open>The loop over the verifiers. The counters are \<open>u32\<close>, which no vector of proofs in memory overflows.\<close>

record quorum_state =
  qs_findings :: "policy_finding list"
  qs_reports :: "string set"
  qs_actors :: "string set"
  qs_accepts :: nat
  qs_verifiers :: nat
  qs_runtime_ok :: bool

definition same_binding :: "ledger_lineage_binding \<Rightarrow> ledger_lineage_binding \<Rightarrow> bool" where
  "same_binding b c \<longleftrightarrow> same_subject b c \<and> lb_case_revision_id b = lb_case_revision_id c"

definition actor_differs :: "verification_policy \<Rightarrow> ledger_lineage_binding \<Rightarrow> ledger_derived_verifier_proof \<Rightarrow> bool" where
  "actor_differs p producer v \<longleftrightarrow> \<not> vp_actor_must_differ p \<or> lb_actor_id (vr_binding v) \<noteq> lb_actor_id producer"

definition attestations_allowed :: "verification_policy \<Rightarrow> ledger_derived_verifier_proof \<Rightarrow> bool" where
  "attestations_allowed p v = list_all (\<lambda>a. a \<in> set (vp_allowed_runtime_attestations p)) (vr_runtime_attestations v)"

definition has_capabilities :: "verification_policy \<Rightarrow> ledger_derived_verifier_proof \<Rightarrow> bool" where
  "has_capabilities p v \<longleftrightarrow> set (vp_verifier_capability_ids p) \<subseteq> set (lb_capability_ids (vr_binding v))"

definition count_verifier ::
  "verification_policy \<Rightarrow> ledger_lineage_binding \<Rightarrow> ledger_derived_verifier_proof \<Rightarrow> quorum_state \<Rightarrow> quorum_state" where
  "count_verifier p producer v st =
     (let report = vr_verifier_report_id v; actor = lb_actor_id (vr_binding v) in
      if report = [] \<or> report \<in> qs_reports st then
        st\<lparr>qs_findings := qs_findings st @ [policy_finding_of ''duplicate_or_empty_verifier_report'' LedgerVerifiable (Some report)
             ''each quorum member must have a unique non-empty verifier report id'']\<rparr>
      else
        let st = st\<lparr>qs_reports := insert report (qs_reports st)\<rparr> in
        if actor = [] \<or> actor \<in> qs_actors st then
          st\<lparr>qs_findings := qs_findings st @ [policy_finding_of ''duplicate_or_empty_verifier_actor'' LedgerVerifiable (Some report)
               ''each quorum member must have a unique non-empty ledger actor id'']\<rparr>
        else
          let qualifies = (has_capabilities p v \<and> actor_differs p producer v \<and> same_binding (vr_binding v) producer) in
          \<lparr>qs_findings = qs_findings st
             @ ledger_when (\<not> same_binding (vr_binding v) producer) ''verifier_lineage_binding_mismatch'' (Some report)
                 ''producer and verifier proofs must bind the same exact revision, claim, topology, node, and attempt''
             @ ledger_when (\<not> actor_differs p producer v) ''same_actor_policy_violation'' (Some report)
                 ''configured actor_must_differ constraint was not met''
             @ attested_when (\<not> attestations_allowed p v) ''runtime_attestation_not_allowed'' (Some report)
                 ''runtime supplied an attestation the policy does not allow'',
           qs_reports = qs_reports st, qs_actors = insert actor (qs_actors st),
           qs_accepts = qs_accepts st + (if qualifies \<and> vr_disposition v = VdAccept then 1 else 0),
           qs_verifiers = qs_verifiers st + (if qualifies then 1 else 0),
           qs_runtime_ok = (qs_runtime_ok st \<and> attestations_allowed p v)\<rparr>)"

definition count_verifiers ::
  "verification_policy \<Rightarrow> ledger_lineage_binding \<Rightarrow> ledger_derived_verifier_proof list \<Rightarrow> quorum_state" where
  "count_verifiers p producer verifiers =
     fold (count_verifier p producer) verifiers
       \<lparr>qs_findings = [], qs_reports = {}, qs_actors = {}, qs_accepts = 0, qs_verifiers = 0, qs_runtime_ok = True\<rparr>"

definition anchors_by_id ::
  "tool_observed_anchor_proof list \<Rightarrow> (string, tool_observed_anchor_proof) fmap \<times> policy_finding list" where
  "anchors_by_id anchors =
     fold (insert_anchor ap_anchor_id (\<lambda>anchor. policy_finding_of ''duplicate_or_empty_anchor_id'' LedgerVerifiable (Some anchor)
        ''world anchor ids must be unique and non-empty'')) anchors (fmempty, [])"

definition lineage_scope :: "ledger_lineage_binding \<Rightarrow> ledger_derived_lineage_scope" where
  "lineage_scope b =
     \<lparr>ls_case_space_id = lb_case_space_id b, ls_case_revision_id = lb_case_revision_id b, ls_claim_cell_id = lb_claim_cell_id b,
      ls_subject_kind = lb_subject_kind b, ls_subject_content_hash = lb_subject_content_hash b,
      ls_topology_content_hash = lb_topology_content_hash b, ls_node_id = lb_node_id b, ls_attempt_id = lb_attempt_id b\<rparr>"

definition reconcile_bound_verification_policy ::
  "verification_policy \<Rightarrow> ledger_lineage_binding \<Rightarrow> ledger_derived_verifier_proof list \<Rightarrow> tool_observed_anchor_proof list
   \<Rightarrow> verification_policy_result" where
  "reconcile_bound_verification_policy p producer verifiers anchors =
     (let quorum = count_verifiers p producer verifiers;
          quorum_ok = (qs_verifiers quorum = vp_total_verifiers p \<and> qs_accepts quorum \<ge> vp_minimum_accepts p);
          observed = anchors_by_id anchors;
          anchors_ok = (list_all (\<lambda>required. case fmlookup (fst observed) required of
                None \<Rightarrow> False | Some a \<Rightarrow> provenance_is_well_formed a) (vp_required_anchors p)
              \<and> snd observed = []);
          findings = sort_policy_findings
            (validate_verification_policy p
             @ ledger_when (\<not> set (vp_producer_capability_ids p) \<subseteq> set (lb_capability_ids producer))
                 ''producer_capability_missing'' (Some (lb_actor_id producer)) ''producer lineage lacks a required capability''
             @ qs_findings quorum
             @ ledger_when (\<not> quorum_ok) ''quorum_not_satisfied'' None
                 (''required '' @ show_nat (vp_minimum_accepts p) @ '' accepts from exactly '' @ show_nat (vp_total_verifiers p)
                  @ '' qualifying verifiers; observed '' @ show_nat (qs_accepts quorum) @ '' accepts from ''
                  @ show_nat (qs_verifiers quorum))
             @ snd observed
             @ ledger_when (\<not> anchors_ok) ''required_anchor_not_satisfied'' None
                 ''one or more required world anchors are absent or failed deterministic validation''
             @ [policy_finding_of ''independent_minds_not_observable'' NotObservableHere None
                  ''different actor ids do not prove independent minds or undeclared information isolation'',
                policy_finding_of ''fresh_context_not_observable'' NotObservableHere None
                  ''runtime context metadata cannot prove genuine context freshness'']);
          ledger_ok = (\<not> list_ex (\<lambda>f. vf_level f = LedgerVerifiable
            \<and> vf_code f \<notin> {''independent_minds_not_observable'', ''fresh_context_not_observable''}) findings) in
      \<lparr>pr_schema = verification_policy_result_schema, pr_policy_id = vp_id p, pr_ledger_scope = lineage_scope producer,
       pr_ledger_requirements_satisfied = ledger_ok, pr_runtime_attestations_satisfied = qs_runtime_ok quorum,
       pr_anchors_satisfied = anchors_ok, pr_quorum_satisfied = quorum_ok,
       pr_policy_satisfied = (ledger_ok \<and> qs_runtime_ok quorum \<and> anchors_ok \<and> quorum_ok),
       pr_independent_minds_proven = False, pr_fresh_context_proven = False, pr_findings = findings\<rparr>)"

definition reconcile_verification_policy ::
  "verification_env \<Rightarrow> case_space \<Rightarrow> verification_policy \<Rightarrow> ledger_lineage_binding \<Rightarrow> ledger_derived_verifier_proof list
   \<Rightarrow> tool_observed_anchor_proof list \<Rightarrow> verification_policy_result" where
  "reconcile_verification_policy E cs p producer verifiers anchors =
     (let current = current_lineage_findings E cs producer ''dispatch'' ''execution_trace_anchor'' None
            @ concat (map (\<lambda>v. current_lineage_findings E cs (vr_binding v) ''review'' ''review'' (Some (vr_disposition v))) verifiers);
          outcome = reconcile_bound_verification_policy p producer verifiers anchors in
      if current = [] then outcome
      else outcome\<lparr>pr_findings := sort_policy_findings (pr_findings outcome @ current),
             pr_ledger_requirements_satisfied := False, pr_quorum_satisfied := False, pr_policy_satisfied := False\<rparr>)"

end
