(* ===== verification/Verification_Properties.thy ===== *)
theory Verification_Properties
  imports Verification_Lineage
begin

text \<open>
  When a verification policy is satisfied, and what a satisfied policy says of its verifiers.
\<close>

section \<open>The loop over the verifiers\<close>

lemma ledger_when_Nil [simp]: "ledger_when b code subject detail = [] \<longleftrightarrow> \<not> b"
  by (simp add: ledger_when_def)

lemma ledger_when_level: "f \<in> set (ledger_when b code subject detail) \<Longrightarrow> vf_level f = LedgerVerifiable \<and> vf_code f = code"
  by (auto simp: ledger_when_def policy_finding_of_def split: if_splits)

text \<open>A verifier that is heard: bound to the same subject, by another actor where that is required.\<close>

definition verifier_in_order :: "verification_policy \<Rightarrow> ledger_lineage_binding \<Rightarrow> ledger_derived_verifier_proof \<Rightarrow> bool" where
  "verifier_in_order p producer v \<longleftrightarrow>
     vr_verifier_report_id v \<noteq> [] \<and> lb_actor_id (vr_binding v) \<noteq> [] \<and> same_binding (vr_binding v) producer \<and>
     actor_differs p producer v"

text \<open>A finding that refuses the ledger requirements.\<close>

definition refuses_ledger :: "policy_finding \<Rightarrow> bool" where
  "refuses_ledger f \<longleftrightarrow> vf_level f = LedgerVerifiable \<and>
     vf_code f \<notin> {''independent_minds_not_observable'', ''fresh_context_not_observable''}"

lemma ledger_when_refuses:
  assumes "code \<notin> {''independent_minds_not_observable'', ''fresh_context_not_observable''}"
  shows "list_ex refuses_ledger (ledger_when b code subject detail) \<longleftrightarrow> b"
  using assms by (auto simp: ledger_when_def refuses_ledger_def policy_finding_of_def)

lemma attested_when_refuses [simp]: "\<not> list_ex refuses_ledger (attested_when b code subject detail)"
  by (auto simp: attested_when_def refuses_ledger_def policy_finding_of_def)

text \<open>The state of the loop when no finding refuses the ledger.\<close>

definition counted ::
  "verification_policy \<Rightarrow> ledger_lineage_binding \<Rightarrow> ledger_derived_verifier_proof list \<Rightarrow> quorum_state \<Rightarrow> bool" where
  "counted p producer vs st \<longleftrightarrow>
     qs_reports st = vr_verifier_report_id ` set vs \<and> qs_actors st = (\<lambda>v. lb_actor_id (vr_binding v)) ` set vs \<and>
     qs_accepts st = length (filter (\<lambda>v. has_capabilities p v \<and> vr_disposition v = VdAccept) vs) \<and>
     qs_verifiers st = length (filter (has_capabilities p) vs) \<and> qs_runtime_ok st = list_all (attestations_allowed p) vs"

definition verifiers_in_order ::
  "verification_policy \<Rightarrow> ledger_lineage_binding \<Rightarrow> ledger_derived_verifier_proof list \<Rightarrow> bool" where
  "verifiers_in_order p producer vs \<longleftrightarrow>
     list_all (verifier_in_order p producer) vs \<and> distinct (map vr_verifier_report_id vs) \<and>
     distinct (map (\<lambda>v. lb_actor_id (vr_binding v)) vs)"

lemma count_snoc: "count_verifiers p producer (vs @ [v]) = count_verifier p producer v (count_verifiers p producer vs)"
  by (simp add: count_verifiers_def)

lemma count_verifier_refuses:
  "list_ex refuses_ledger (qs_findings (count_verifier p producer v st)) \<longleftrightarrow>
     list_ex refuses_ledger (qs_findings st) \<or> vr_verifier_report_id v \<in> qs_reports st \<or>
     lb_actor_id (vr_binding v) \<in> qs_actors st \<or> \<not> verifier_in_order p producer v"
  by (auto simp: count_verifier_def Let_def verifier_in_order_def ledger_when_refuses refuses_ledger_def policy_finding_of_def
      split: if_splits)

lemma count_verifiers_spec:
  "(list_ex refuses_ledger (qs_findings (count_verifiers p producer vs)) \<longleftrightarrow> \<not> verifiers_in_order p producer vs) \<and>
   (verifiers_in_order p producer vs \<longrightarrow> counted p producer vs (count_verifiers p producer vs))"
proof (induction vs rule: rev_induct)
  case Nil
  show ?case by (simp add: count_verifiers_def counted_def verifiers_in_order_def)
next
  case (snoc v vs)
  let ?st = "count_verifiers p producer vs"
  show ?case
  proof (cases "verifiers_in_order p producer vs")
    case False
    then show ?thesis using snoc.IH by (auto simp: count_snoc count_verifier_refuses verifiers_in_order_def)
  next
    case True
    with snoc.IH have st: "\<not> list_ex refuses_ledger (qs_findings ?st)" "counted p producer vs ?st" by blast+
    have order: "verifiers_in_order p producer (vs @ [v]) \<longleftrightarrow> vr_verifier_report_id v \<notin> qs_reports ?st \<and>
        lb_actor_id (vr_binding v) \<notin> qs_actors ?st \<and> verifier_in_order p producer v"
      using True st(2) by (auto simp: verifiers_in_order_def counted_def)
    show ?thesis
    proof (intro conjI impI)
      show "list_ex refuses_ledger (qs_findings (count_verifiers p producer (vs @ [v]))) \<longleftrightarrow>
          \<not> verifiers_in_order p producer (vs @ [v])"
        using st(1) order by (auto simp: count_snoc count_verifier_refuses)
      assume "verifiers_in_order p producer (vs @ [v])"
      with order st(2) show "counted p producer (vs @ [v]) (count_verifiers p producer (vs @ [v]))"
        by (simp add: count_snoc count_verifier_def counted_def verifier_in_order_def Let_def)
    qed
  qed
qed

section \<open>Anchors\<close>

text \<open>No finding means non-empty, distinct ids; then the map has exactly the anchors.\<close>

lemma insert_anchors:
  "snd (fold (insert_anchor key refuse) as (m, fs)) = [] \<longleftrightarrow>
     fs = [] \<and> [] \<notin> key ` set as \<and> distinct (map key as) \<and> fset (fmdom m) \<inter> key ` set as = {}"
proof (induction "as" arbitrary: m fs)
  case (Cons a "as")
  show ?case
  proof (cases "key a = []")
    case True
    then have "insert_anchor key refuse a (m, fs) = (m, fs @ [refuse (key a)])" by (simp add: insert_anchor_def)
    with Cons.IH True show ?thesis by auto
  next
    case False
    then have "insert_anchor key refuse a (m, fs) =
        (fmupd (key a) a m, if fmlookup m (key a) \<noteq> None then fs @ [refuse (key a)] else fs)"
      by (simp add: insert_anchor_def)
    with Cons.IH False show ?thesis by (auto simp: fmlookup_dom_iff)
  qed
qed simp

lemma lookup_anchors:
  assumes "[] \<notin> key ` set as" "distinct (map key as)" "fset (fmdom m) \<inter> key ` set as = {}"
  shows "fmlookup (fst (fold (insert_anchor key refuse) as (m, fs))) k = Some a \<longleftrightarrow>
     a \<in> set as \<and> key a = k \<or> fmlookup m k = Some a"
  using assms
proof (induction "as" arbitrary: m fs)
  case (Cons b bs)
  have fresh: "fmlookup m (key b) = None" "key b \<noteq> []" using Cons.prems(1,3) by (auto simp: fmlookup_dom_iff)
  then have step: "insert_anchor key refuse b (m, fs) = (fmupd (key b) b m, fs)" by (simp add: insert_anchor_def)
  have "fmlookup (fst (fold (insert_anchor key refuse) bs (fmupd (key b) b m, fs))) k = Some a \<longleftrightarrow>
      a \<in> set bs \<and> key a = k \<or> fmlookup (fmupd (key b) b m) k = Some a"
    using Cons.prems by (intro Cons.IH) auto
  then show ?case using Cons.prems(2) fresh(1) by (auto simp: step)
qed simp

definition anchors_proven :: "verification_policy \<Rightarrow> tool_observed_anchor_proof list \<Rightarrow> bool" where
  "anchors_proven p anchors \<longleftrightarrow>
     [] \<notin> ap_anchor_id ` set anchors \<and> distinct (map ap_anchor_id anchors) \<and>
     (\<forall>required\<in>set (vp_required_anchors p). \<exists>a\<in>set anchors. ap_anchor_id a = required \<and> provenance_is_well_formed a)"

lemma anchors_by_id_spec:
  "snd (anchors_by_id anchors) = [] \<and>
   list_all (\<lambda>required. case fmlookup (fst (anchors_by_id anchors)) required of
      None \<Rightarrow> False | Some a \<Rightarrow> provenance_is_well_formed a) (vp_required_anchors p) \<longleftrightarrow> anchors_proven p anchors"
proof (cases "[] \<notin> ap_anchor_id ` set anchors \<and> distinct (map ap_anchor_id anchors)")
  case True
  then have look: "fmlookup (fst (anchors_by_id anchors)) k = Some a \<longleftrightarrow> a \<in> set anchors \<and> ap_anchor_id a = k" for k a
    unfolding anchors_by_id_def by (subst lookup_anchors) auto
  have "(case fmlookup (fst (anchors_by_id anchors)) k of None \<Rightarrow> False | Some a \<Rightarrow> provenance_is_well_formed a) \<longleftrightarrow>
      (\<exists>a\<in>set anchors. ap_anchor_id a = k \<and> provenance_is_well_formed a)" for k
  proof (cases "fmlookup (fst (anchors_by_id anchors)) k")
    case None
    then have "\<not> (\<exists>a\<in>set anchors. ap_anchor_id a = k)" using look [of k] by auto
    with None show ?thesis by auto
  next
    case (Some a)
    moreover from this have "b = a" if "b \<in> set anchors" "ap_anchor_id b = k" for b using look [of k b] that by simp
    ultimately show ?thesis using look [of k a] by auto
  qed
  moreover have "snd (anchors_by_id anchors) = []" using True by (simp add: anchors_by_id_def insert_anchors)
  ultimately show ?thesis using True by (simp add: anchors_proven_def list_all_iff)
next
  case False
  then have "snd (anchors_by_id anchors) \<noteq> []" by (simp add: anchors_by_id_def insert_anchors)
  with False show ?thesis by (auto simp: anchors_proven_def)
qed

lemma anchor_findings_refuse: "list_ex refuses_ledger (snd (anchors_by_id anchors)) \<longleftrightarrow> snd (anchors_by_id anchors) \<noteq> []"
proof -
  define refuse where "refuse = (\<lambda>anchor. policy_finding_of ''duplicate_or_empty_anchor_id'' LedgerVerifiable (Some anchor)
        ''world anchor ids must be unique and non-empty'')"
  have refuse: "refuses_ledger (refuse k)" for k by (simp add: refuse_def refuses_ledger_def policy_finding_of_def)
  have "list_all refuses_ledger fs \<Longrightarrow> list_all refuses_ledger (snd (fold (insert_anchor ap_anchor_id refuse) anchors (m, fs)))" for m fs
  proof (induction anchors arbitrary: m fs)
    case (Cons a anchors)
    obtain m' gs where step: "insert_anchor ap_anchor_id refuse a (m, fs) = (m', gs)" by fastforce
    then have "list_all refuses_ledger gs" using Cons.prems by (auto simp: insert_anchor_def refuse split: if_splits)
    with Cons.IH step show ?case by simp
  qed simp
  from this [of "[]" fmempty] have "list_all refuses_ledger (snd (anchors_by_id anchors))"
    by (simp add: anchors_by_id_def flip: refuse_def)
  then show ?thesis by (cases "snd (anchors_by_id anchors)") auto
qed

section \<open>The policy\<close>

lemma policy_identifiers_refuse: "list_ex refuses_ledger (policy_identifiers field seen vs) \<longleftrightarrow> policy_identifiers field seen vs \<noteq> []"
  by (induction field seen vs rule: policy_identifiers.induct) (auto simp: refuses_ledger_def policy_finding_of_def)

lemma policy_identifiers_Nil:
  "policy_identifiers field seen vs = [] \<longleftrightarrow> [] \<notin> set vs \<and> distinct vs \<and> set vs \<inter> seen = {}"
  by (induction field seen vs rule: policy_identifiers.induct) auto

lemma validation_refuses: "list_ex refuses_ledger (validate_verification_policy p) \<longleftrightarrow> validate_verification_policy p \<noteq> []"
  by (auto simp: validate_verification_policy_def ledger_when_refuses policy_identifiers_refuse)

definition quorum_met :: "verification_policy \<Rightarrow> ledger_derived_verifier_proof list \<Rightarrow> bool" where
  "quorum_met p vs \<longleftrightarrow>
     length (filter (has_capabilities p) vs) = vp_total_verifiers p \<and>
     vp_minimum_accepts p \<le> length (filter (\<lambda>v. has_capabilities p v \<and> vr_disposition v = VdAccept) vs)"

definition policy_met ::
  "verification_policy \<Rightarrow> ledger_lineage_binding \<Rightarrow> ledger_derived_verifier_proof list \<Rightarrow> tool_observed_anchor_proof list \<Rightarrow> bool" where
  "policy_met p producer vs anchors \<longleftrightarrow>
     validate_verification_policy p = [] \<and> set (vp_producer_capability_ids p) \<subseteq> set (lb_capability_ids producer) \<and>
     verifiers_in_order p producer vs \<and> list_all (attestations_allowed p) vs \<and> quorum_met p vs \<and> anchors_proven p anchors"

lemma list_ex_sort_policy: "list_ex P (sort_policy_findings fs) \<longleftrightarrow> list_ex P fs"
  by (simp add: sort_policy_findings_def list_ex_iff)

lemma bound_policy_iff:
  "pr_policy_satisfied (reconcile_bound_verification_policy p producer vs anchors) \<longleftrightarrow> policy_met p producer vs anchors"
proof -
  have refuses: "(\<lambda>f. vf_level f = LedgerVerifiable \<and>
     vf_code f \<notin> {''independent_minds_not_observable'', ''fresh_context_not_observable''}) = refuses_ledger"
    by (simp add: refuses_ledger_def fun_eq_iff)
  have observe: "\<not> refuses_ledger (policy_finding_of code NotObservableHere subject detail)" for code subject detail
    by (simp add: refuses_ledger_def policy_finding_of_def)
  note quorum = count_verifiers_spec [of p producer vs]
  show ?thesis
  proof (cases "verifiers_in_order p producer vs")
    case False
    with quorum have "list_ex refuses_ledger (qs_findings (count_verifiers p producer vs))" by blast
    with False show ?thesis
      unfolding reconcile_bound_verification_policy_def Let_def refuses list_ex_sort_policy
      by (simp add: policy_met_def)
  next
    case True
    with quorum have clean: "\<not> list_ex refuses_ledger (qs_findings (count_verifiers p producer vs))"
      and counted: "counted p producer vs (count_verifiers p producer vs)" by blast+
    have met: "qs_verifiers (count_verifiers p producer vs) = vp_total_verifiers p \<and>
        vp_minimum_accepts p \<le> qs_accepts (count_verifiers p producer vs) \<longleftrightarrow> quorum_met p vs"
      "qs_runtime_ok (count_verifiers p producer vs) = list_all (attestations_allowed p) vs"
      using counted by (auto simp: quorum_met_def counted_def)
    have anchors: "(list_all (\<lambda>required. case fmlookup (fst (anchors_by_id anchors)) required of
       None \<Rightarrow> False | Some a \<Rightarrow> provenance_is_well_formed a) (vp_required_anchors p) \<and> snd (anchors_by_id anchors) = []) =
      anchors_proven p anchors"
      using anchors_by_id_spec [of anchors p] by blast
    have "anchors_proven p anchors \<Longrightarrow> snd (anchors_by_id anchors) = []" using anchors by blast
    with True clean show ?thesis
      unfolding reconcile_bound_verification_policy_def Let_def refuses list_ex_sort_policy anchors
      by (auto simp: policy_met_def met ledger_when_refuses validation_refuses anchor_findings_refuse observe)
  qed
qed

section \<open>The current ledger\<close>

definition lineage_stands ::
  "verification_env \<Rightarrow> case_space \<Rightarrow> ledger_lineage_binding \<Rightarrow> string \<Rightarrow> string \<Rightarrow> verifier_disposition option \<Rightarrow> bool" where
  "lineage_stands E cs b expected_operation expected_morphism disposition \<longleftrightarrow>
     is_ok (evaluate_native_case (ve_env E) cs) \<and> case_space_id cs = lb_case_space_id b \<and>
     is_ok (check_operation_gate (ve_env E) cs (lb_operation_gate b) expected_operation) \<and>
     (\<exists>cell\<in>set (case_cells cs). claim_current b cell) \<and>
     (\<exists>entry. find (\<lambda>entry. entry_morphism_id entry = lb_authority_morphism_id b) (morphism_log cs) = Some entry \<and>
        authority_current E cs b expected_morphism entry) \<and>
     (\<forall>d. disposition = Some d \<longrightarrow> latest_evidence_review_status (ve_env E) cs (lb_claim_cell_id b) = expected_status d)"

lemma current_lineage_iff:
  "current_lineage_findings E cs b expected_operation expected_morphism disposition = [] \<longleftrightarrow>
     lineage_stands E cs b expected_operation expected_morphism disposition"
  by (auto simp: current_lineage_findings_def lineage_stands_def list_ex_iff split: option.splits)

lemma reconcile_findings:
  "set (pr_findings (reconcile_bound_verification_policy p producer vs anchors)) \<subseteq>
     set (pr_findings (reconcile_verification_policy E cs p producer vs anchors))"
  by (simp add: reconcile_verification_policy_def Let_def sort_policy_findings_def)

lemma bound_findings:
  "\<exists>f\<in>set (pr_findings (reconcile_bound_verification_policy p producer vs anchors)). vf_code f = ''independent_minds_not_observable''"
  "\<exists>f\<in>set (pr_findings (reconcile_bound_verification_policy p producer vs anchors)). vf_code f = ''fresh_context_not_observable''"
  by (simp_all add: reconcile_bound_verification_policy_def Let_def sort_policy_findings_def policy_finding_of_def)

text \<open>
  Claim C13. A verification policy is satisfied exactly if it is valid, the producer has the required capabilities,
  the verifiers have distinct non-empty reports and actors, all bound to the producer's revision and subject and by
  another actor where the policy asks for it, they attest only what the policy allows, exactly the required number of
  them have the capabilities and enough of these accept, every required anchor has a well-formed proof, and the
  producer and every verifier stand in the current ledger. Whatever the answer, it never claims independent minds or a
  fresh context, and it says so.
\<close>

theorem policy_satisfied_iff:
  fixes E cs p producer vs anchors
  defines "r \<equiv> reconcile_verification_policy E cs p producer vs anchors"
  shows "(pr_policy_satisfied r \<longleftrightarrow>
      policy_met p producer vs anchors \<and>
      lineage_stands E cs producer ''dispatch'' ''execution_trace_anchor'' None \<and>
      list_all (\<lambda>v. lineage_stands E cs (vr_binding v) ''review'' ''review'' (Some (vr_disposition v))) vs) \<and>
    \<not> pr_independent_minds_proven r \<and> \<not> pr_fresh_context_proven r \<and>
    {''independent_minds_not_observable'', ''fresh_context_not_observable''} \<subseteq> vf_code ` set (pr_findings r)"
proof -
  define current where "current = current_lineage_findings E cs producer ''dispatch'' ''execution_trace_anchor'' None
    @ concat (map (\<lambda>v. current_lineage_findings E cs (vr_binding v) ''review'' ''review'' (Some (vr_disposition v))) vs)"
  have stands: "current = [] \<longleftrightarrow> lineage_stands E cs producer ''dispatch'' ''execution_trace_anchor'' None \<and>
      list_all (\<lambda>v. lineage_stands E cs (vr_binding v) ''review'' ''review'' (Some (vr_disposition v))) vs"
    by (auto simp: current_def current_lineage_iff list_all_iff)
  have never: "\<not> pr_independent_minds_proven (reconcile_bound_verification_policy p producer vs anchors)"
    "\<not> pr_fresh_context_proven (reconcile_bound_verification_policy p producer vs anchors)"
    by (simp_all add: reconcile_bound_verification_policy_def Let_def)
  have r: "r = (let outcome = reconcile_bound_verification_policy p producer vs anchors in
      if current = [] then outcome
      else outcome\<lparr>pr_findings := sort_policy_findings (pr_findings outcome @ current),
             pr_ledger_requirements_satisfied := False, pr_quorum_satisfied := False, pr_policy_satisfied := False\<rparr>)"
    unfolding r_def reconcile_verification_policy_def current_def Let_def ..
  have codes: "{''independent_minds_not_observable'', ''fresh_context_not_observable''} \<subseteq> vf_code ` set (pr_findings r)"
    using bound_findings [of p producer vs anchors] reconcile_findings [of p producer vs anchors E cs]
    unfolding r_def by (force simp: subset_iff image_iff)
  show ?thesis using codes never bound_policy_iff [of p producer vs anchors] stands unfolding r Let_def by auto
qed

text \<open>
  Claim C14. A satisfied policy is unanimous: it has a verifier, every verifier accepts, and the latest review of the
  claim in the ledger is an acceptance. The number of acceptances a policy asks for makes no difference.
\<close>

theorem satisfied_policy_is_unanimous:
  assumes "pr_policy_satisfied (reconcile_verification_policy E cs p producer vs anchors)"
  shows "vs \<noteq> [] \<and> (\<forall>v\<in>set vs. vr_disposition v = VdAccept) \<and>
    latest_evidence_review_status (ve_env E) cs (lb_claim_cell_id producer) = Some RsAccepted"
proof -
  have stand: "lineage_stands E cs (vr_binding v) ''review'' ''review'' (Some (vr_disposition v))"
    and bound: "lb_claim_cell_id (vr_binding v) = lb_claim_cell_id producer" if "v \<in> set vs" for v
    using assms that bound_policy_iff [of p producer vs anchors]
    by (auto simp: reconcile_verification_policy_def Let_def current_lineage_iff policy_met_def verifiers_in_order_def
        list_all_iff verifier_in_order_def same_binding_def same_subject_def split: if_splits)
  then have status: "latest_evidence_review_status (ve_env E) cs (lb_claim_cell_id producer) = expected_status (vr_disposition v)"
    if "v \<in> set vs" for v
    using that unfolding lineage_stands_def by metis
  have met: "validate_verification_policy p = []" "quorum_met p vs"
    using assms bound_policy_iff [of p producer vs anchors]
    by (auto simp: reconcile_verification_policy_def Let_def policy_met_def split: if_splits)
  then have "0 < vp_minimum_accepts p" by (simp add: validate_verification_policy_def)
  with met(2) have "filter (\<lambda>v. has_capabilities p v \<and> vr_disposition v = VdAccept) vs \<noteq> []"
    unfolding quorum_met_def by (metis leD list.size(3))
  then obtain v where "v \<in> set vs" "vr_disposition v = VdAccept" by (auto simp: filter_empty_conv)
  then have latest: "latest_evidence_review_status (ve_env E) cs (lb_claim_cell_id producer) = Some RsAccepted" "vs \<noteq> []"
    using status [of v] by (auto simp: expected_status_def)
  have "vr_disposition w = VdAccept" if "w \<in> set vs" for w
    using status [OF that] latest(1) by (cases "vr_disposition w") (simp_all add: expected_status_def)
  with latest show ?thesis by blast
qed

end
