(* ===== verification/Verification_Proofs.thy ===== *)
theory Verification_Proofs
  imports Verification_Properties
begin

text \<open>
  A proof stands where it is made: the bindings derived from a case space have no finding in that space. Morphism ids
  of a valid log are distinct, so the entry found by its id is the one the derivation used.
\<close>

section \<open>Fresh proofs\<close>

lemma collected_morphisms:
  "snd (fold collect_entry es st) = [] \<Longrightarrow>
     distinct (map entry_morphism_id es) \<and> fst st \<inter> entry_morphism_id ` set es = {}"
proof (induction es arbitrary: st)
  case (Cons entry es)
  have here: "snd (collect_entry entry st) = []" by (rule insert_entries_nil [of es]) (use Cons.prems in simp)
  obtain ids vs where st: "st = (ids, vs)" by fastforce
  have "entry_morphism_id entry \<notin> ids" "insert (entry_morphism_id entry) ids \<subseteq> fst (collect_entry entry st)"
    using here by (auto simp: st collect_entry_def insert_id_def Let_def split: option.splits)
  moreover have "distinct (map entry_morphism_id es)" "fst (collect_entry entry st) \<inter> entry_morphism_id ` set es = {}"
    using Cons.IH [of "collect_entry entry st"] Cons.prems by simp_all
  ultimately show ?case by (auto simp: st)
qed simp

lemma valid_morphism_ids:
  assumes "is_ok (evaluate_native_case e cs)"
  shows "distinct (map entry_morphism_id (morphism_log cs))"
proof -
  have "validate_native_case_space e cs = Ok ()"
    using assms by (cases "validate_native_case_space e cs") (auto simp: evaluate_native_case_def)
  then have "snd (collect_declared_ids cs) = []"
    by (auto simp: validate_native_case_space_def Let_def split: prod.splits if_splits)
  then show ?thesis using collected_morphisms unfolding collect_declared_ids_def by blast
qed

lemma find_by_morphism:
  assumes "distinct (map entry_morphism_id es)" "entry \<in> set es"
  shows "find (\<lambda>entry'. entry_morphism_id entry' = entry_morphism_id entry) es = Some entry"
  using assms by (induction es) (auto simp: image_iff)

lemma latest_entry_kind:
  assumes "fmlookup (latest_evidence_review_entries cs) claim = Some entry"
  shows "entry \<in> set (morphism_log cs)" "get_str (mor_metadata (entry_morphism entry)) ''target_kind'' = Some ''evidence''"
proof -
  have "fmlookup (fold (\<lambda>entry entries.
         let md = mor_metadata (entry_morphism entry) in
         if get_str md ''target_kind'' \<noteq> Some ''evidence'' then entries
         else case get_str md ''target_id'' of
                None \<Rightarrow> entries
              | Some evidence_id \<Rightarrow> fmupd evidence_id entry entries) es m) claim = Some entry \<Longrightarrow>
     (entry \<in> set es \<and> get_str (mor_metadata (entry_morphism entry)) ''target_kind'' = Some ''evidence'') \<or>
     fmlookup m claim = Some entry" for es m
    by (induction es arbitrary: m) (fastforce simp: Let_def split: if_splits option.splits)+
  from this [of "morphism_log cs" fmempty] assms
  show "entry \<in> set (morphism_log cs)" "get_str (mor_metadata (entry_morphism entry)) ''target_kind'' = Some ''evidence''"
    by (auto simp: latest_evidence_review_entries_def)
qed

lemma review_kind:
  assumes "canonical_review e m = Some review" "get_str (mor_metadata m) ''target_kind'' = Some ''evidence''"
  shows "cr_target_kind review = TkEvidence" "cr_outcome review = outcome_status (cr_action review)"
    "get_str (mor_metadata m) ''review_id'' \<noteq> None"
proof -
  have kind: "Option.bind (fmlookup (mor_metadata m) ''target_kind'') target_kind_of = Some TkEvidence"
    using assms(2) by (auto simp: get_str_def target_kind_of_def target_kinds_def bind_eq_Some_conv)
  show "cr_target_kind review = TkEvidence" "cr_outcome review = outcome_status (cr_action review)"
    using assms(1) unfolding canonical_review_def Let_def kind
    by (auto simp: bind_eq_Some_conv split: if_splits)
  show "get_str (mor_metadata m) ''review_id'' \<noteq> None"
    using assms(1) unfolding canonical_review_def Let_def by (auto split: if_splits option.splits)
qed

text \<open>The review the ledger calls the latest of a claim gives the status that its disposition expects.\<close>

lemma latest_review_status:
  assumes ok: "is_ok (evaluate_native_case e cs)" and mem: "entry \<in> set (morphism_log cs)"
    and latest: "latest_review_is cs claim entry" and review: "canonical_review e (entry_morphism entry) = Some review"
    and target: "decides_claim claim review"
  shows "latest_evidence_review_status e cs claim = expected_status (disposition_of_action (cr_action review))"
    "get_str (mor_metadata (entry_morphism entry)) ''review_id'' \<noteq> None"
proof -
  obtain found where found: "fmlookup (latest_evidence_review_entries cs) claim = Some found" "entry_morphism_id found = entry_morphism_id entry"
    using latest by (auto simp: latest_review_is_def)
  then have "found = entry"
    using valid_morphism_ids [OF ok] mem latest_entry_kind(1) [OF found(1)] by (auto simp: distinct_map inj_on_def)
  with found have lookup: "fmlookup (latest_evidence_review_entries cs) claim = Some entry" by simp
  note kind = review_kind [OF review latest_entry_kind(2) [OF lookup]]
  show "latest_evidence_review_status e cs claim = expected_status (disposition_of_action (cr_action review))"
    using lookup review kind(1,2) target
    by (auto simp: latest_evidence_review_status_def latest_evidence_review_statuses_def evidence_review_status_def
        decides_claim_def disposition_of_action_def expected_status_def)
  show "get_str (mor_metadata (entry_morphism entry)) ''review_id'' \<noteq> None" by (rule kind(3))
qed

lemma derived_lineage:
  assumes "derive_lineage_binding E i expected_operation expected_morphism subject = Ok (b, report)"
  obtains entry trace where "is_ok (evaluate_native_case (ve_env E) (ld_case_space i))"
    "is_ok (check_operation_gate (ve_env E) (ld_case_space i) (ld_operation_gate i) expected_operation)" "claim_bound i"
    "entry \<in> set (morphism_log (ld_case_space i))" "entry_morphism_id entry = ld_authority_morphism_id i"
    "lineage_authority_matches (ve_env E) entry b expected_morphism trace" "b = derived_binding E i subject trace"
proof -
  define trace where "trace = (case ve_trace_of E (ld_execution_trace_bytes i) of Inl _ \<Rightarrow> None | Inr t \<Rightarrow> Some t)"
  have b: "b = derived_binding E i subject trace"
    and parts: "is_ok (evaluate_native_case (ve_env E) (ld_case_space i))" "gate_findings E i expected_operation = []" "claim_bound i"
    "\<not> (case authority_entry i of None \<Rightarrow> True
        | Some entry \<Rightarrow> \<not> lineage_authority_matches (ve_env E) entry (derived_binding E i subject trace) expected_morphism trace)"
    using assms unfolding derive_lineage_binding_def Let_def trace_def
    by (simp_all split: option.splits if_splits add: list_ex_iff)
  from parts(4) b obtain entry where entry: "authority_entry i = Some entry"
    "lineage_authority_matches (ve_env E) entry b expected_morphism trace" by (auto split: option.splits)
  then have "entry \<in> set (morphism_log (ld_case_space i))" "entry_morphism_id entry = ld_authority_morphism_id i"
    by (auto simp: authority_entry_def find_Some_iff)
  moreover have "is_ok (check_operation_gate (ve_env E) (ld_case_space i) (ld_operation_gate i) expected_operation)"
    using parts(2) by (auto simp: gate_findings_def is_ok_def split: sum.splits)
  ultimately show ?thesis using that parts(1,3) entry(2) b by blast
qed

lemma lineage_authority_weaken:
  "lineage_authority_matches e entry b expected_morphism trace \<Longrightarrow> lineage_authority_matches e entry b expected_morphism None"
  by (auto simp: lineage_authority_matches_def Let_def split: if_splits)

lemma derived_binding_fields [simp]:
  "lb_native_cli_provenance (derived_binding E i subject trace) = None"
  "lb_case_space_id (derived_binding E i subject trace) = case_space_id (ld_case_space i)"
  "lb_operation_gate (derived_binding E i subject trace) = ld_operation_gate i"
  "lb_claim_cell_id (derived_binding E i subject trace) = ld_claim_cell_id i"
  "lb_topology_content_hash (derived_binding E i subject trace) = Some (ld_topology_content_hash i)"
  "lb_authority_morphism_id (derived_binding E i subject trace) = ld_authority_morphism_id i"
  by (simp_all add: derived_binding_def)

lemma derived_lineage_stands:
  assumes "derive_lineage_binding E i expected_operation expected_morphism subject = Ok (b, report)"
    and "\<forall>d. disposition = Some d \<longrightarrow>
      latest_evidence_review_status (ve_env E) (ld_case_space i) (ld_claim_cell_id i) = expected_status d"
  shows "lineage_stands E (ld_case_space i) b expected_operation expected_morphism disposition"
proof -
  obtain entry trace where d: "is_ok (evaluate_native_case (ve_env E) (ld_case_space i))"
    "is_ok (check_operation_gate (ve_env E) (ld_case_space i) (ld_operation_gate i) expected_operation)" "claim_bound i"
    "entry \<in> set (morphism_log (ld_case_space i))" "entry_morphism_id entry = ld_authority_morphism_id i"
    "lineage_authority_matches (ve_env E) entry b expected_morphism trace" and b: "b = derived_binding E i subject trace"
    by (rule derived_lineage [OF assms(1)])
  have "find (\<lambda>entry'. entry_morphism_id entry' = lb_authority_morphism_id b) (morphism_log (ld_case_space i)) = Some entry"
    using find_by_morphism [OF valid_morphism_ids [OF d(1)] d(4)] d(5) by (simp add: b)
  moreover have "authority_current E (ld_case_space i) b expected_morphism entry"
    using lineage_authority_weaken [OF d(6)] by (simp add: b authority_current_def Let_def)
  moreover have "\<exists>cell\<in>set (case_cells (ld_case_space i)). claim_current b cell"
    using d(3) by (auto simp: claim_bound_def list_ex_iff claim_current_def b)
  ultimately show ?thesis using d(1,2) assms(2) unfolding lineage_stands_def by (simp add: b)
qed

lemma review_authority_decides:
  "lineage_authority_matches e entry b ''review'' trace \<Longrightarrow>
     \<exists>review. canonical_review e (entry_morphism entry) = Some review \<and> cr_action review \<in> {RaAccept, RaReject}"
  by (auto simp: lineage_authority_matches_def decided_review_def Let_def split: option.splits)

text \<open>The proofs of a topology run stand in the space they were derived from.\<close>

lemma producer_proof_stands:
  "derive_ledger_producer_proof E i = Ok b \<Longrightarrow> lineage_stands E (ld_case_space i) b ''dispatch'' ''execution_trace_anchor'' None"
  by (auto simp: derive_ledger_producer_proof_def map_sum_def split: sum.splits prod.splits intro: derived_lineage_stands)

lemma verifier_proof_stands:
  "derive_ledger_verifier_proof E i producer \<noteq> None \<and>
   (\<forall>v. derive_ledger_verifier_proof E i producer = Some (Ok v) \<longrightarrow>
      lineage_stands E (ld_case_space i) (vr_binding v) ''review'' ''review'' (Some (vr_disposition v)) \<and>
      same_subject (vr_binding v) producer)"
proof (cases "derive_lineage_binding E i ''review'' ''review'' (Some (lb_case_revision_id producer))")
  case (Inl fs)
  then show ?thesis by (simp add: derive_ledger_verifier_proof_def)
next
  case (Inr br)
  then obtain b report where derived: "derive_lineage_binding E i ''review'' ''review'' (Some (lb_case_revision_id producer)) = Ok (b, report)"
    by (cases br) simp
  obtain entry trace where d: "is_ok (evaluate_native_case (ve_env E) (ld_case_space i))"
    "entry \<in> set (morphism_log (ld_case_space i))" "entry_morphism_id entry = ld_authority_morphism_id i"
    "lineage_authority_matches (ve_env E) entry b ''review'' trace"
    by (rule derived_lineage [OF derived]) blast
  obtain review where review: "canonical_review (ve_env E) (entry_morphism entry) = Some review" "cr_action review \<in> {RaAccept, RaReject}"
    using review_authority_decides [OF d(4)] by blast
  have find: "find (\<lambda>entry. entry_morphism_id entry = ld_authority_morphism_id i) (morphism_log (ld_case_space i)) = Some entry"
    using find_by_morphism [OF valid_morphism_ids [OF d(1)] d(2)] d(3) by simp
  have stands: "lineage_stands E (ld_case_space i) b ''review'' ''review'' (Some (disposition_of_action (cr_action review)))"
    if "cr_target_id review = ld_claim_cell_id i" "latest_review_is (ld_case_space i) (ld_claim_cell_id i) entry"
    using that review latest_review_status(1) [OF d(1,2) that(2) review(1)]
    by (intro derived_lineage_stands [OF derived]) (simp add: decides_claim_def)
  show ?thesis by (auto simp: derive_ledger_verifier_proof_def derived find review(1) stands split: if_splits)
qed

section \<open>Fresh proofs of the command line\<close>

lemma cli_producer_stands:
  assumes "derive_native_cli_run_producer_proof E i = Ok b"
  shows "lineage_stands E (nd_case_space i) b ''dispatch'' ''execution_trace_anchor'' None"
proof -
  obtain r t where decoded: "ve_worker_report_of E (nd_worker_report_bytes i) = Ok r" "ve_trace_of E (nd_execution_trace_bytes i) = Ok t"
    using assms by (auto simp: derive_native_cli_run_producer_proof_def Let_def split: sum.splits)
  obtain attach anchor where found: "find (attaches_evidence (nd_claim_cell_id i) r t) (morphism_log (nd_case_space i)) = Some attach"
    "find (anchors_run (ve_digest E (nd_execution_trace_bytes i)) t) (morphism_log (nd_case_space i)) = Some anchor"
    using assms by (auto simp: derive_native_cli_run_producer_proof_def Let_def decoded split: option.splits)
  have ok: "is_ok (evaluate_native_case (ve_env E) (nd_case_space i))"
    and gate: "is_ok (check_operation_gate (ve_env E) (nd_case_space i) (xt_operation_gate t) ''dispatch'')"
    and claim: "list_ex (worker_claim_cell (nd_claim_cell_id i) (wr_report_id r) (xt_trace_id t) (ve_digest E (nd_stdout_bytes i)))
      (case_cells (nd_case_space i))"
    and b: "b = cli_run_binding E i r t attach anchor"
    using assms by (simp_all add: derive_native_cli_run_producer_proof_def Let_def decoded found split: if_splits)
  have in_log: "attach \<in> set (morphism_log (nd_case_space i))" "attaches_evidence (nd_claim_cell_id i) r t attach"
    "anchor \<in> set (morphism_log (nd_case_space i))" "anchors_run (ve_digest E (nd_execution_trace_bytes i)) t anchor"
    using found by (auto simp: find_Some_iff)
  have "find (\<lambda>entry. entry_morphism_id entry = lb_authority_morphism_id b) (morphism_log (nd_case_space i)) = Some anchor"
    using find_by_morphism [OF valid_morphism_ids [OF ok] in_log(3)] by (simp add: b cli_run_binding_def)
  moreover have "authority_current E (nd_case_space i) b ''execution_trace_anchor'' anchor"
    using in_log by (auto simp: authority_current_def b cli_run_binding_def anchors_run_def is_trace_anchor_def
        attaches_evidence_def list_ex_iff)
  moreover have "\<exists>cell\<in>set (case_cells (nd_case_space i)). claim_current b cell"
    using claim by (auto simp: claim_current_def b cli_run_binding_def list_ex_iff worker_claim_cell_def)
  ultimately show ?thesis using ok gate by (simp add: lineage_stands_def b cli_run_binding_def)
qed

lemma cli_verifier_stands:
  assumes "derive_native_cli_review_verifier_proof E cs producer m = Some (Ok v)"
    and producer: "lineage_stands E cs producer ''dispatch'' ''execution_trace_anchor'' None"
  shows "lineage_stands E cs (vr_binding v) ''review'' ''review'' (Some (vr_disposition v)) \<and> same_binding (vr_binding v) producer"
proof -
  obtain entry review gate review_id where cli: "is_cli_producer producer"
    and found: "find (\<lambda>entry. entry_morphism_id entry = m) (morphism_log cs) = Some entry"
    and parts: "canonical_review (ve_env E) (entry_morphism entry) = Some review" "recorded_gate E entry = Some gate"
    "decides_claim (lb_claim_cell_id producer) review" "entry_actor_id entry = gate_actor_id gate"
    "is_ok (check_operation_gate (ve_env E) cs gate ''review'')" "latest_review_is cs (lb_claim_cell_id producer) entry"
    and v: "v = \<lparr>vr_binding = producer\<lparr>lb_observed_case_revision_id := revision_id (cs_revision cs),
                         lb_actor_id := gate_actor_id gate, lb_capability_ids := capability_ids gate,
                         lb_operation_gate_content_hash := ve_digest E (ve_gate_bytes E gate), lb_operation_gate := gate,
                         lb_authority_morphism_id := entry_morphism_id entry, lb_native_cli_provenance := Some CliVerifier\<rparr>,
                       vr_verifier_report_id = review_id, vr_disposition = disposition_of_action (cr_action review),
                       vr_runtime_attestations = []\<rparr>"
    using assms(1) by (auto simp: derive_native_cli_review_verifier_proof_def Let_def split: if_splits option.splits)
  have mem: "entry \<in> set (morphism_log cs)" "entry_morphism_id entry = m" using found by (auto simp: find_Some_iff)
  have ok: "is_ok (evaluate_native_case (ve_env E) cs)" using producer by (simp add: lineage_stands_def)
  obtain cell where "cell \<in> set (case_cells cs)" "claim_current producer cell" using producer by (auto simp: lineage_stands_def)
  then have "\<exists>cell\<in>set (case_cells cs). cell_id cell = lb_claim_cell_id producer \<and> cell_type cell = CtEvidence"
    using cli by (cases "lb_native_cli_provenance producer" rule: option.exhaust)
      (auto simp: is_cli_producer_def claim_current_def worker_claim_cell_def split: native_cli_lineage_provenance.splits)
  moreover note latest_review_status(1) [OF ok mem(1) parts(6,1,3)]
  ultimately show ?thesis
    using producer found mem(2) parts
    by (auto simp: lineage_stands_def v claim_current_def authority_current_def same_binding_def same_subject_def)
qed

text \<open>
  Claim C15. The proofs of the shipped workflow stand where they are made: a producer's proof of a run stands in the
  case space it was derived from. The derivation of a reviewer's proof always answers; if the producer's proof stands
  in the space, the reviewer's proof derived from it stands there too and is bound to the same revision and subject.
\<close>

theorem cli_proofs_stand:
  "(\<forall>b. derive_native_cli_run_producer_proof E i = Ok b \<longrightarrow>
      current_lineage_findings E (nd_case_space i) b ''dispatch'' ''execution_trace_anchor'' None = []) \<and>
   (\<exists>answer. derive_native_cli_review_verifier_proof E cs producer m = Some answer \<and>
     (current_lineage_findings E cs producer ''dispatch'' ''execution_trace_anchor'' None = [] \<longrightarrow>
       (\<forall>v. answer = Ok v \<longrightarrow>
          current_lineage_findings E cs (vr_binding v) ''review'' ''review'' (Some (vr_disposition v)) = [] \<and>
          same_binding (vr_binding v) producer)))"
proof -
  have "derive_native_cli_review_verifier_proof E cs producer m \<noteq> None"
    by (auto simp: derive_native_cli_review_verifier_proof_def Let_def canonical_review_def split: option.splits if_splits)
  then show ?thesis
    unfolding current_lineage_iff using cli_producer_stands cli_verifier_stands by (metis option.exhaust)
qed

end
