(* ===== verification/Verification_Witnesses.thy ===== *)
theory Verification_Witnesses
  imports Verification_Proofs Case_Samples
begin

text \<open>
  A run of the command line and its review by another actor: the ledger has the evidence of the worker, the anchor of
  the trace and the acceptance; a policy of one verifier is satisfied on it.
\<close>

definition grant :: "id \<Rightarrow> id \<Rightarrow> string \<Rightarrow> case_cell" where
  "grant i actor operation =
     (sample_cell i (CtCustom ''capability'') LcActive
        (fmap_of_list [(''actor_ids'', JArray [JString actor]), (''operations'', JArray [JString operation])]))
       \<lparr>cell_provenance := sample_provenance RsAccepted\<rparr>"

definition cli_gate :: "id \<Rightarrow> string \<Rightarrow> id \<Rightarrow> operation_gate" where
  "cli_gate actor operation cap = demo_gate\<lparr>gate_actor_id := actor, gate_operation := operation, capability_ids := [cap]\<rparr>"

definition cli_entries :: "morphism_log_entry list" where
  "cli_entries =
     [demo_entry 1 ''e1'' None
        (demo_morphism ''m1'' MtCreate None ''r1'' [''cap'', ''judge'']
          (fmap_of_list [(''lift_semantics'', JString ''lift''), (''source_boundary'', demo_boundary)])),
      demo_entry 2 ''e2'' (Some ''e1'')
        ((demo_morphism ''m2'' MtEvidenceAttach (Some ''r1'') ''r2'' [''claim''] (fmap_of_list [(''trace_id'', JString ''t'')]))
           \<lparr>mor_source_ids := [''w'']\<rparr>),
      demo_entry 3 ''e3'' (Some ''e2'')
        (demo_morphism ''m3'' (MtCustom ''execution_trace_anchor'') (Some ''r2'') ''r3'' []
           (fmap_of_list [(''trace_id'', JString ''t''), (''trace_content_hash'', JString ''trace'')]))]"

definition cli_space :: case_space where
  "cli_space =
     demo_space1\<lparr>case_cells :=
         [sample_cell ''claim'' CtEvidence LcActive
            (fmap_of_list [(''worker_report_id'', JString ''w''), (''trace_id'', JString ''t''), (''content_hash'', JString ''out'')]),
          grant ''cap'' ''agent'' ''dispatch'', grant ''judge'' ''critic'' ''review''],
       case_relations := [], morphism_log := cli_entries, cs_revision := demo_revision (last cli_entries)\<rparr>"

definition cli_review :: morphism_log_entry where
  "cli_review =
     (demo_entry 4 ''e4'' (Some ''e3'')
        (demo_morphism ''m4'' MtReview (Some ''r3'') ''r4'' []
          (fmap_of_list [(''native_review_schema_version'', JNumber (int review_schema_version)), (''review_id'', JString ''v''),
             (''target_kind'', JString ''evidence''), (''target_id'', JString ''claim''), (''reviewer_id'', JString ''critic''),
             (''reviewed_at'', JString ''t''), (''reason'', JString ''checked''), (''action'', JString ''accept''),
             (''outcome_review_status'', JString ''accepted''), (''operation_gate'', JString ''gate'')])))
       \<lparr>entry_actor_id := ''critic''\<rparr>"

definition reviewed_space :: case_space where
  "reviewed_space = cli_space\<lparr>morphism_log := cli_entries @ [cli_review], cs_revision := demo_revision cli_review\<rparr>"

definition cli_worker_report :: worker_report where
  "cli_worker_report =
     (let out = (\<lambda>name bytes. \<lparr>wo_name = name, wo_content_hash = bytes, wo_byte_len = 3, wo_retained_byte_len = 3,
           wo_truncated = False, wo_incomplete = False\<rparr>) in
      \<lparr>wr_schema = worker_report_schema, wr_schema_version = execution_record_schema_version, wr_report_id = ''w'',
       wr_binding_id = ''b'', wr_binding_content_hash = ''b'', wr_work_cell_id = ''work'', wr_plan_id = ''plan'',
       wr_step_id = ''step'', wr_exit_status = Some 0, wr_timed_out = False, wr_descendants_may_survive = False,
       wr_outputs = [out WoStdout ''out'', out WoStderr ''err''], wr_trust_boundary = worker_report_trust_boundary,
       wr_started_at = '''', wr_finished_at = '''', wr_metadata = fmempty\<rparr>)"

definition cli_trace :: execution_trace where
  "cli_trace =
     \<lparr>xt_schema = execution_trace_schema, xt_schema_version = execution_record_schema_version, xt_trace_id = ''t'',
      xt_plan_id = ''plan'', xt_step_id = ''step'', xt_case_space_id = ''cs'', xt_base_revision_id = ''r1'',
      xt_result_revision_id = Some ''r3'', xt_work_cell_id = ''work'', xt_binding_id = ''b'', xt_binding_content_hash = ''b'',
      xt_operation_gate = cli_gate ''agent'' ''dispatch'' ''cap'', xt_worker_report_id = ''w'',
      xt_worker_report_content_hash = ''report'', xt_stdout_content_hash = ''out'', xt_stderr_content_hash = ''err'',
      xt_appended_entry_ids = [''e2'', ''e3''], xt_dispatch_state = DispatchCompleted, xt_transition_applied = False,
      xt_unsatisfied_success_evidence_requirement_ids = [], xt_obstructions = [], xt_information_loss = [],
      xt_started_at = '''', xt_finished_at = '''', xt_metadata = fmempty\<rparr>"

definition cli_env :: verification_env where
  "cli_env =
     \<lparr>ve_env = demo_env, ve_digest = (\<lambda>bytes. bytes), ve_runtime_report_of = (\<lambda>_. Err ''not a report''),
      ve_trace_of = (\<lambda>bytes. if bytes = ''trace'' then Ok cli_trace else Err ''not a trace''),
      ve_worker_report_of = (\<lambda>bytes. if bytes = ''report'' then Ok cli_worker_report else Err ''not a report''),
      ve_gate_bytes = gate_operation,
      ve_gate_of = (\<lambda>value. if value = JString ''gate'' then Some (cli_gate ''critic'' ''review'' ''judge'') else None)\<rparr>"

definition cli_run :: native_cli_run_lineage_derivation where
  "cli_run =
     \<lparr>nd_case_space = reviewed_space, nd_claim_cell_id = ''claim'', nd_worker_report_bytes = ''report'',
      nd_execution_trace_bytes = ''trace'', nd_stdout_bytes = ''out'', nd_stderr_bytes = ''err''\<rparr>"

definition cli_policy :: verification_policy where
  "cli_policy =
     \<lparr>vp_schema = verification_policy_schema, vp_id = ''p'', vp_producer_capability_ids = [''cap''],
      vp_verifier_capability_ids = [''judge''], vp_actor_must_differ = True, vp_lenses = [], vp_minimum_accepts = 1,
      vp_total_verifiers = 1, vp_required_anchors = [], vp_allowed_runtime_attestations = [], vp_source = ''s'', vp_created_by = ''c''\<rparr>"

lemma evaluate_ok: "is_ok (evaluate_native_case e cs) \<longleftrightarrow> validate_native_case_space e cs = Ok ()"
  by (cases "validate_native_case_space e cs") (auto simp: evaluate_native_case_def is_ok_def Let_def)

lemma reviewed_valid: "validate_native_case_space demo_env reviewed_space = Ok ()"
  by code_simp

abbreviation cli_producer :: ledger_lineage_binding where
  "cli_producer \<equiv> cli_run_binding cli_env cli_run cli_worker_report cli_trace (cli_entries ! 1) (cli_entries ! 2)"

lemma cli_files:
  "ve_worker_report_of cli_env (nd_worker_report_bytes cli_run) = Ok cli_worker_report"
  "ve_trace_of cli_env (nd_execution_trace_bytes cli_run) = Ok cli_trace"
  "run_files_match cli_env cli_run cli_worker_report cli_trace"
  by (simp_all add: cli_env_def cli_run_def) code_simp

lemma cli_gates:
  "check_operation_gate demo_env reviewed_space (xt_operation_gate cli_trace) ''dispatch'' = Ok ()"
  "check_operation_gate demo_env reviewed_space (cli_gate ''critic'' ''review'' ''judge'') ''review'' = Ok ()"
  by code_simp+

lemma cli_ledger:
  "find (attaches_evidence ''claim'' cli_worker_report cli_trace) (morphism_log reviewed_space) = Some (cli_entries ! 1)"
  "find (anchors_run ''trace'' cli_trace) (morphism_log reviewed_space) = Some (cli_entries ! 2)"
  "list_ex (worker_claim_cell ''claim'' (wr_report_id cli_worker_report) (xt_trace_id cli_trace) ''out'') (case_cells reviewed_space)"
proof -
  show "find (attaches_evidence ''claim'' cli_worker_report cli_trace) (morphism_log reviewed_space) = Some (cli_entries ! 1)"
    by (simp add: reviewed_space_def cli_entries_def attaches_evidence_def demo_entry_def demo_morphism_def
        cli_worker_report_def cli_trace_def get_str_def Let_def)
  show "find (anchors_run ''trace'' cli_trace) (morphism_log reviewed_space) = Some (cli_entries ! 2)"
    by (simp add: reviewed_space_def cli_entries_def anchors_run_def is_trace_anchor_def demo_entry_def demo_morphism_def
        cli_gate_def cli_trace_def get_str_def Let_def)
  show "list_ex (worker_claim_cell ''claim'' (wr_report_id cli_worker_report) (xt_trace_id cli_trace) ''out'') (case_cells reviewed_space)"
    by code_simp
qed

lemma cli_producer_derived: "derive_native_cli_run_producer_proof cli_env cli_run = Ok cli_producer"
proof -
  have "nd_case_space cli_run = reviewed_space" "nd_claim_cell_id cli_run = ''claim''" "nd_stdout_bytes cli_run = ''out''"
    "nd_execution_trace_bytes cli_run = ''trace''" "ve_env cli_env = demo_env" "ve_digest cli_env = (\<lambda>bytes. bytes)"
    by (simp_all add: cli_run_def cli_env_def)
  then show ?thesis
    using cli_files cli_gates(1) cli_ledger reviewed_valid
    by (simp add: derive_native_cli_run_producer_proof_def Let_def evaluate_ok decode_finding_def ledger_when_def)
qed

lemma cli_review_parts:
  "map_option (\<lambda>r. (cr_target_id r, cr_action r)) (canonical_review demo_env (entry_morphism cli_review)) = Some (''claim'', RaAccept)"
  "map_option entry_morphism_id (fmlookup (latest_evidence_review_entries reviewed_space) ''claim'') = Some (entry_morphism_id cli_review)"
  "fmlookup (mor_metadata (entry_morphism cli_review)) ''operation_gate'' = Some (JString ''gate'')"
  "map (\<lambda>entry. entry_morphism_id entry = entry_morphism_id cli_review) cli_entries = [False, False, False]"
  "entry_actor_id cli_review = ''critic''" "map_option (\<lambda>s. s = []) (get_str (mor_metadata (entry_morphism cli_review)) ''review_id'') = Some False"
  by code_simp+

definition cli_verifier :: ledger_derived_verifier_proof where
  "cli_verifier = projr (the (derive_native_cli_review_verifier_proof cli_env reviewed_space cli_producer (entry_morphism_id cli_review)))"

lemma cli_verifier_derived:
  "derive_native_cli_review_verifier_proof cli_env reviewed_space cli_producer (entry_morphism_id cli_review) = Some (Ok cli_verifier)"
  "vr_disposition cli_verifier = VdAccept" "lb_actor_id (vr_binding cli_verifier) = ''critic''"
  "lb_capability_ids (vr_binding cli_verifier) = [''judge'']" "vr_verifier_report_id cli_verifier \<noteq> []"
  "vr_runtime_attestations cli_verifier = []"
proof -
  have "find (\<lambda>entry. entry_morphism_id entry = entry_morphism_id cli_review) (morphism_log reviewed_space) = Some cli_review"
    using cli_review_parts(4) by (auto simp: reviewed_space_def cli_entries_def)
  moreover have "is_cli_producer cli_producer" "lb_claim_cell_id cli_producer = ''claim''"
    by (simp_all add: is_cli_producer_def cli_run_binding_def cli_run_def)
  moreover have "recorded_gate cli_env cli_review = Some (cli_gate ''critic'' ''review'' ''judge'')"
    using cli_review_parts(3) by (simp add: recorded_gate_def cli_env_def)
  moreover have "gate_actor_id (cli_gate ''critic'' ''review'' ''judge'') = ''critic''"
    "capability_ids (cli_gate ''critic'' ''review'' ''judge'') = [''judge'']" "ve_env cli_env = demo_env"
    by (simp_all add: cli_gate_def cli_env_def)
  moreover obtain review review_id where "canonical_review demo_env (entry_morphism cli_review) = Some review" "cr_target_id review = ''claim''"
    "cr_action review = RaAccept" "get_str (mor_metadata (entry_morphism cli_review)) ''review_id'' = Some review_id" "review_id \<noteq> []"
    using cli_review_parts(1,6) by auto
  ultimately show "derive_native_cli_review_verifier_proof cli_env reviewed_space cli_producer (entry_morphism_id cli_review) = Some (Ok cli_verifier)"
    "vr_disposition cli_verifier = VdAccept" "lb_actor_id (vr_binding cli_verifier) = ''critic''"
    "lb_capability_ids (vr_binding cli_verifier) = [''judge'']" "vr_verifier_report_id cli_verifier \<noteq> []"
    "vr_runtime_attestations cli_verifier = []"
    using cli_gates(2) cli_review_parts(2,5)
    by (simp_all add: cli_verifier_def derive_native_cli_review_verifier_proof_def decides_claim_def latest_review_is_def
        disposition_of_action_def)
qed

theorem cli_proofs_stand_witness:
  "derive_native_cli_run_producer_proof cli_env cli_run = Ok cli_producer \<and>
   derive_native_cli_review_verifier_proof cli_env reviewed_space cli_producer (entry_morphism_id cli_review) = Some (Ok cli_verifier) \<and>
   current_lineage_findings cli_env reviewed_space (vr_binding cli_verifier) ''review'' ''review'' (Some VdAccept) = []"
proof -
  have "nd_case_space cli_run = reviewed_space" by (simp add: cli_run_def)
  then show ?thesis
    using cli_proofs_stand [of cli_env cli_run reviewed_space cli_producer "entry_morphism_id cli_review"]
      cli_producer_derived cli_verifier_derived by auto
qed

lemma cli_policy_satisfied:
  "pr_policy_satisfied (reconcile_verification_policy cli_env reviewed_space cli_policy cli_producer [cli_verifier] [])"
proof -
  have space: "nd_case_space cli_run = reviewed_space" by (simp add: cli_run_def)
  have stands: "lineage_stands cli_env reviewed_space cli_producer ''dispatch'' ''execution_trace_anchor'' None"
    using cli_producer_stands [OF cli_producer_derived] by (simp only: space)
  note verifier = cli_verifier_stands [OF cli_verifier_derived(1) stands]
  have actor: "lb_actor_id cli_producer = ''agent''" "lb_capability_ids cli_producer = [''cap'']"
    by (simp_all add: cli_run_binding_def cli_trace_def cli_gate_def)
  have "validate_verification_policy cli_policy = []" by code_simp
  then have "policy_met cli_policy cli_producer [cli_verifier] []"
    using verifier cli_verifier_derived actor
    by (simp add: policy_met_def verifiers_in_order_def verifier_in_order_def actor_differs_def quorum_met_def anchors_proven_def
        has_capabilities_def attestations_allowed_def cli_policy_def)
  with stands verifier show ?thesis
    by (simp add: reconcile_verification_policy_def Let_def current_lineage_iff bound_policy_iff)
qed

theorem satisfied_policy_is_unanimous_witness:
  "pr_policy_satisfied (reconcile_verification_policy cli_env reviewed_space cli_policy cli_producer [cli_verifier] []) \<and>
   vr_disposition cli_verifier = VdAccept \<and>
   latest_evidence_review_status demo_env reviewed_space ''claim'' = Some RsAccepted"
proof -
  have "lb_claim_cell_id cli_producer = ''claim''" "ve_env cli_env = demo_env"
    by (simp_all add: cli_run_binding_def cli_run_def cli_env_def)
  with satisfied_policy_is_unanimous [OF cli_policy_satisfied] cli_policy_satisfied show ?thesis by simp
qed

end
