(* ===== verification/Spec2Isabelle.thy ===== *)
theory Spec2Isabelle
  imports Reducer_Properties Case_Witnesses Store_Witnesses Store_Findings Store_Lock
    Allocator_Findings Expansion_Witnesses Simulation_Witnesses
    Runtime_Witnesses Verification_Witnesses
begin

text \<open>
  CaseGraphen keeps a \<^emph>\<open>case space\<close> (cells, relations, projections) under an append-only log of
  \<^emph>\<open>morphisms\<close>. Every change is a morphism that an operation gate admits, that the reducer applies, and
  that the native store appends to a hash-chained log; every answer (readiness, obstructions, close
  check) is computed from the space and its log. Work is executed along an \<^emph>\<open>execution topology\<close>, a graph of nodes that
  is validated, linted and expanded under review, whose nodes reserve resources with a durable allocator. This development models that core from
  \<open>src/src/*.rs\<close> and proves what the rest of the program relies on.

  \<^bold>\<open>Parts and theories.\<close>

  \<^item> \<open>CG_Prelude\<close>: results (\<open>Ok\<close>, \<open>Err\<close>), JSON values, ordered sets, first-match update, the interfaces
    \<open>fallible_fold\<close>, \<open>log_fold\<close> and \<open>hash_chain\<close>.
  \<^item> \<open>Native_Model\<close>, \<open>Native_Reducer\<close> (\<open>native_model.rs\<close>): the data, and the two reducers \<open>apply_morphism\<close>
    (copies and scans) and \<open>apply_morphism_indexed\<close> (validates against a position index, then mutates in
    place), loop by loop, with one error constructor per message. \<open>Native_Reducer_Correct\<close> and
    \<open>Native_Reducer_Indexed\<close> relate both to one declarative update; \<open>Reducer_Properties\<close> has the claims.
  \<^item> \<open>Evidence_Trust\<close> (\<open>evidence_trust.rs\<close>), \<open>Canonical_Review\<close> (\<open>native_review/support.rs\<close>): when evidence is
    acceptable, how a review is written into a morphism and read back.
  \<^item> \<open>Native_Validation\<close>, \<open>Native_Eval\<close>, \<open>Native_Eval_Sections\<close> (\<open>native_eval.rs\<close>, \<open>native_eval/*.rs\<close>): the validation
    of a space, the evaluation of every cell, readiness, frontier, progress, assurance and the reporting
    sections, up to \<open>evaluate_native_case\<close>. \<open>Eval_Properties\<close> has the claims.
  \<^item> \<open>Native_Review\<close> (\<open>native_review.rs\<close>): the operation gate, review requests, the close check.
    \<open>Review_Properties\<close> has the claims.
  \<^item> \<open>Store_Paths\<close>, \<open>Store_Log\<close>, \<open>Native_Store\<close> (\<open>native_store.rs\<close>, \<open>native_store/*.rs\<close>, \<open>native_hash.rs\<close>): file
    names, the log with its hash chain, head, fold and snapshot checks, and the operations of the store
    (import, append, inspect, list, replay, validate, rebuild). The state of the store is a finite map from
    directory names to \<open>case_dir\<close> records (head, log, snapshots); an operation returns the new store and a
    result, and an append is a list of writes so that a crash is a prefix of it.
    \<open>Store_Replay\<close>, \<open>Store_Snapshots\<close>, \<open>Store_Reachable\<close>, \<open>Store_Append\<close>, \<open>Store_Rebuild\<close> build up the invariant of a
    case directory; \<open>Store_Properties\<close> has the claims, \<open>Store_Findings\<close> two histories the store writes and
    cannot read.
  \<^item> \<open>Store_Lock\<close> (\<open>native_store/support.rs\<close>): the lock of a case directory, its wait loop against the clock and
    the interleavings of any number of guards over the lock file, one transition per file access; it implements
    an abstract mutex as long as no operator removes the file.
  \<^item> \<open>CG_Text\<close>, \<open>Execution_Topology\<close> (\<open>execution_topology.rs\<close>): topologies, their validation with every finding and location,
    the canonical form that is hashed. \<open>Topology_Contract\<close> states what is accepted and what the canonical form identifies.
  \<^item> \<open>Graph_Search\<close>, \<open>Graph_Sweep\<close>, \<open>Graph_Lint\<close> (\<open>graph_lint.rs\<close>): the adjacency tables, the breadth-first search, the
    topological sweep behind the metrics, all findings and the sorted report, with a panic as \<open>None\<close>. \<open>Graph_Paths\<close> and
    \<open>Graph_Values\<close> verify the sweep once, in the locales \<open>sweep_values\<close> and \<open>level_sweep\<close> over what a value along an edge has to
    satisfy; \<open>Lint_Tables\<close> and \<open>Lint_Metrics\<close> interpret them on the tables of a topology, for path lengths in naturals and
    for durations in saturating 64-bit words. \<open>Lint_Properties\<close> has the claims.
  \<^item> \<open>Topology_Patch\<close>, \<open>Dynamic_Expansion\<close> (\<open>dynamic_expansion.rs\<close>): patches of a topology, and the controller that turns
    candidates into unreviewed proposals under the budgets of a policy. The state is the record
    \<open>expansion_controller\<close>; \<open>Expansion_Properties\<close> has its step relation, its invariant and the claims.
  \<^item> \<open>Graph_Simulation\<close> (\<open>graph_simulation.rs\<close>): requests, calibration, the seeded generator on 64-bit words, the
    discrete-event loop of a run, whose local variables are the record \<open>run_state\<close>, the iterations, the report and the
    comparison of reports. \<open>Simulation_Run\<close> has the invariant of the loop, which shares the order of processing with the
    sweep of the linter; \<open>Simulation_Properties\<close> has the claims.
  \<^item> \<open>Runtime_Protocol\<close> (\<open>runtime_protocol.rs\<close>): reports of an external runtime, their validation, the expectation of a
    topology, and the reconciliation: a scan of the reports, the retry lineage of every node, the hand-off of every
    edge. \<open>Runtime_Properties\<close> shows what a complete reconciliation proves.
  \<^item> \<open>Verification_Policy\<close>, \<open>Verification_Lineage\<close> (\<open>verification_policy.rs\<close>, \<open>exec/records.rs\<close>): policies, declarations,
    anchor proofs, the proofs of producers and verifiers derived from the replayed ledger and the operation gate, their
    check against the current space and the reconciliation with the quorum. \<open>Verification_Properties\<close> and
    \<open>Verification_Proofs\<close> have the claims.
  \<^item> \<open>Resource_Protocol\<close> (\<open>resource_protocol.rs\<close>): declarations, reservations, dispositions, the occupancy index,
    the evaluator that grants a reservation, reconciliation of reported allocations, worktree records.
    \<open>Resource_Occupancy\<close> shows that the index is a function of the active reservations, \<open>Resource_Grants\<close> what the
    evaluator and the reconciliation decide.
  \<^item> \<open>Resource_Allocator\<close>, \<open>Allocator_Journal\<close>, \<open>Allocator_Operations\<close> (\<open>resource_allocator.rs\<close>): the durable allocator.
    Its state \<open>replay_state\<close> is the fold of numbered, hash-chained events in a \<open>journal\<close> directory; checkpoints are
    accelerators of the fold and compaction moves a covered prefix to an archive, as a list of writes
    that may stop anywhere. An operation takes the journal and the cache of its process and returns both.
    \<open>Allocator_Invariant\<close> and \<open>Allocator_Replay\<close> describe the state after a list of events,
    \<open>Allocator_Log\<close>, \<open>Allocator_Directory\<close> and \<open>Allocator_Refinement\<close> a directory in order and its replays,
    \<open>Allocator_Append\<close>, \<open>Allocator_Compaction\<close> and \<open>Allocator_Reachable\<close> the operations on it. The contract between
    the append loop and the validators of the four operations is the locale \<open>event_validation\<close>.
    \<open>Allocator_Properties\<close> has the claims, \<open>Allocator_Findings\<close> four behaviours the code does not intend.
  \<^item> \<open>CG_Samples\<close>, \<open>Case_Samples\<close>, \<open>Store_Samples\<close>, \<open>Resource_Samples\<close>, \<open>Topology_Samples\<close>, \<open>Case_Witnesses\<close>,
    \<open>Store_Witnesses\<close>, \<open>Allocator_Witnesses\<close>, \<open>Lint_Witnesses\<close>, \<open>Expansion_Witnesses\<close>,
    \<open>Simulation_Witnesses\<close>, \<open>Runtime_Witnesses\<close>, \<open>Verification_Witnesses\<close>: concrete inputs and the instances of the claims on them.

  \<^bold>\<open>Foreign code.\<close> \<open>serde\<close> decoders, the digest, \<open>Id::is_valid_value\<close>, and the vocabulary of
  \<open>higher_graphen_core\<close> (\<open>ReviewStatus\<close>, \<open>Provenance\<close>, \<open>Confidence\<close>) are fields of the records \<open>env\<close>,
  \<open>store_env\<close>, \<open>allocator_env\<close>, \<open>verification_env\<close> and \<open>expansion_env\<close> (with the floating-point operations on costs), which the definitions take as an argument; what a claim needs of them (a codec that round-trips,
  a digest without collisions on the data at hand) is a hypothesis of that claim.

  \<^bold>\<open>Bounds and loops.\<close> Most modelled loops run over a list and are structural recursion or a fold, so no
  fuel is needed. The search of the linter ends because a node is queued once, its sweeps because every step lowers the sum
  of the indegrees and the queue, the wait loop of the lock by its deadline, the loop of a simulated run because
  every round completes a node, its retries by their limit, the walk along the retries of an attempt because it
  stops at an attempt it has seen; each has a termination proof. The loop of the
  allocator's \<open>append\<close> is a partial function into \<open>option\<close>: it is proved to return on every reachable directory and not to
  return on a directory with a misnamed file. Durations and latencies are 64-bit words with the saturating addition of the
  code. Sequence numbers are natural numbers: \<open>u64\<close> cannot overflow on a log that fits a disk; so are rate-limit units,
  whose sums of \<open>u32\<close> values the code keeps in \<open>u64\<close>, and the counters of the expansion controller, with their saturation
  at \<open>u32::MAX\<close> written out.

  \<^bold>\<open>Not modelled.\<close> Parsing and printing of files and command lines, the MCP server, GitHub normalization, the
  graph compiler, the integration of external runtimes, the memory plane and the execution-topology reviews;
  of the allocator the wait for the advisory lock, the creation of the identity file and the bounded projection of an
  outcome: see the component list of the manifest for each reason.
\<close>

end
